(* ===== verification/Prelude.thy ===== *)
theory Prelude
  imports Main "HOL-Library.AList" "HOL-Library.Sublist" "HOL-Library.Multiset"
begin

text \<open>
  Shared vocabulary of the development: Go errors and fallible results, Go maps with string keys,
  and the generic lemmas the component theories use.

  \<^item> An \<open>error\<close> value is its format string, its arguments and the chain of wrapped errors
    (\<open>fmt.Errorf\<close> with \<open>%w\<close>), so that \<open>errors.Is\<close> is a walk down the chain.
  \<^item> A fallible function returns \<open>err + 'a\<close>, \<open>Inl\<close> being the error return.
  \<^item> A Go map is an association list without repeated keys. The list order stands for the
    iteration order of \<open>range\<close>, which Go leaves unspecified; theorems about code that ranges
    over a map quantify over the order.
\<close>

named_theorems res_simps \<open>how the result combinators return and fail\<close>
named_theorems gomap_simps \<open>lookups after updates of Go maps\<close>

section \<open>Errors and results\<close>

datatype err =
    Errorf string "string list"
  | Wrapf string "string list" err
  | PolicyErr err
  | TypedErr string err  \<comment> \<open>an error type of its own that holds another and does not unwrap to it\<close>

type_synonym 'a res = "err + 'a"

text \<open>\<open>errors.Is\<close>: the error itself or one it wraps. The policy error type unwraps too.\<close>

fun errors_is :: "err \<Rightarrow> err \<Rightarrow> bool" where
  "errors_is (Errorf f as) t = (Errorf f as = t)"
| "errors_is (Wrapf f as e) t = (Wrapf f as e = t \<or> errors_is e t)"
| "errors_is (PolicyErr e) t = (PolicyErr e = t \<or> errors_is e t)"
| "errors_is (TypedErr k e) t = (TypedErr k e = t)"

text \<open>\<open>errors.As\<close> for the error type of the given name.\<close>

fun errors_as :: "err \<Rightarrow> string \<Rightarrow> bool" where
  "errors_as (Errorf f as) k = False"
| "errors_as (Wrapf f as e) k = errors_as e k"
| "errors_as (PolicyErr e) k = errors_as e k"
| "errors_as (TypedErr n e) k = (n = k)"

definition bind_res :: "'e + 'a \<Rightarrow> ('a \<Rightarrow> 'e + 'b) \<Rightarrow> 'e + 'b" where
  "bind_res m f = (case m of Inl e \<Rightarrow> Inl e | Inr x \<Rightarrow> f x)"

definition map_err :: "('e \<Rightarrow> 'f) \<Rightarrow> 'e + 'a \<Rightarrow> 'f + 'a" where
  "map_err g m = (case m of Inl e \<Rightarrow> Inl (g e) | Inr x \<Rightarrow> Inr x)"

fun map_res :: "('a \<Rightarrow> 'e + 'b) \<Rightarrow> 'a list \<Rightarrow> 'e + 'b list" where
  "map_res f [] = Inr []"
| "map_res f (x # xs) = bind_res (f x) (\<lambda>y. bind_res (map_res f xs) (\<lambda>ys. Inr (y # ys)))"

text \<open>The loop that keeps the elements a fallible test accepts.\<close>

fun filter_res :: "('a \<Rightarrow> 'e + bool) \<Rightarrow> 'a list \<Rightarrow> 'e + 'a list" where
  "filter_res p [] = Inr []"
| "filter_res p (x # xs) =
     bind_res (p x) (\<lambda>b. bind_res (filter_res p xs) (\<lambda>ys. Inr (if b then x # ys else ys)))"

text \<open>The same loop when the test also updates a state; an error ends it.\<close>

fun filter_st :: "('a \<Rightarrow> 's \<Rightarrow> ('e + bool) \<times> 's) \<Rightarrow> 'a list \<Rightarrow> 's \<Rightarrow> ('e + 'a list) \<times> 's" where
  "filter_st p [] s = (Inr [], s)"
| "filter_st p (x # xs) s =
     (case p x s of
        (Inl e, s') \<Rightarrow> (Inl e, s')
      | (Inr b, s') \<Rightarrow>
          (let (r, s'') = filter_st p xs s'
           in (bind_res r (\<lambda>ys. Inr (if b then x # ys else ys)), s'')))"

section \<open>Go maps with string keys\<close>

type_synonym 'v gomap = "(string \<times> 'v) list"

definition gm_wf :: "'v gomap \<Rightarrow> bool" where
  "gm_wf m = distinct (map fst m)"

text \<open>Reading a missing key of a \<open>map[string]string\<close> gives the empty string.\<close>

definition gm_get :: "string gomap \<Rightarrow> string \<Rightarrow> string" where
  "gm_get m k = (case map_of m k of None \<Rightarrow> [] | Some v \<Rightarrow> v)"

text \<open>\<open>maps.Copy(dst, src)\<close>.\<close>

definition gm_copy :: "'v gomap \<Rightarrow> 'v gomap \<Rightarrow> 'v gomap" where
  "gm_copy dst src = fold (\<lambda>(k, v) m. AList.update k v m) src dst"

section \<open>Lemmas on results\<close>

lemma bind_res_Inl [simp, res_simps]: "bind_res (Inl e) f = Inl e"
  and bind_res_Inr [simp, res_simps]: "bind_res (Inr x) f = f x"
  by (simp_all add: bind_res_def)

lemma bind_res_eq_Inr [res_simps]: "bind_res m f = Inr y \<longleftrightarrow> (\<exists>x. m = Inr x \<and> f x = Inr y)"
  by (cases m) (auto simp: bind_res_def)

lemma bind_res_eq_Inl [res_simps]:
  "bind_res m f = Inl e \<longleftrightarrow> m = Inl e \<or> (\<exists>x. m = Inr x \<and> f x = Inl e)"
  by (cases m) (auto simp: bind_res_def)

lemma map_err_simps [simp]: "map_err g (Inl e) = Inl (g e)" "map_err g (Inr x) = Inr x"
  by (simp_all add: map_err_def)

lemma map_err_eq_Inr [simp, res_simps]: "map_err g m = Inr y \<longleftrightarrow> m = Inr y"
  by (cases m) (auto simp: map_err_def)

lemma map_err_eq_Inl [res_simps]: "map_err g m = Inl f \<longleftrightarrow> (\<exists>e. m = Inl e \<and> f = g e)"
  by (cases m) (auto simp: map_err_def)

lemma bind_res_cong [fundef_cong]:
  "m = m' \<Longrightarrow> (\<And>x. m' = Inr x \<Longrightarrow> f x = g x) \<Longrightarrow> bind_res m f = bind_res m' g"
  by (cases m') (auto simp: bind_res_def)

lemma map_res_eq_Inr: "map_res f xs = Inr ys \<longleftrightarrow> list_all2 (\<lambda>x y. f x = Inr y) xs ys"
  by (induction xs arbitrary: ys) (auto simp: bind_res_eq_Inr list_all2_Cons1)

lemma map_res_pure: "(\<And>x. x \<in> set xs \<Longrightarrow> f x = Inr (g x)) \<Longrightarrow> map_res f xs = Inr (map g xs)"
  by (induction xs) auto

lemma filter_res_eq_Inr:
  "filter_res p xs = Inr ys \<longleftrightarrow>
     (\<forall>x\<in>set xs. \<exists>b. p x = Inr b) \<and> ys = filter (\<lambda>x. p x = Inr True) xs"
proof (induction xs arbitrary: ys)
  case Nil
  then show ?case by auto
next
  case (Cons x xs)
  then show ?case by (cases "p x") (auto simp: bind_res_eq_Inr)
qed

text \<open>A stateful test whose answer does not depend on the state, as long as an invariant holds.\<close>

lemma filter_st_pure:
  assumes "\<And>x s. ok s \<Longrightarrow> fst (p x s) = q x" and "\<And>x s. ok s \<Longrightarrow> ok (snd (p x s))" and "ok s"
  shows "fst (filter_st p xs s) = filter_res q xs \<and> ok (snd (filter_st p xs s))"
  using assms(3)
proof (induction xs arbitrary: s)
  case (Cons x xs)
  have q: "fst (p x s) = q x" and ok': "ok (snd (p x s))" using assms(1,2) Cons.prems by auto
  with Cons.IH [OF ok'] show ?case
    by (cases "p x s") (auto split: sum.split simp: case_prod_beta)
qed simp

lemma map_res_eq_Inl: "map_res f xs = Inl e \<Longrightarrow> \<exists>x\<in>set xs. f x = Inl e"
  by (induction xs) (auto simp: bind_res_eq_Inl)

lemma map_res_fails: "x \<in> set xs \<Longrightarrow> f x = Inl e \<Longrightarrow> \<exists>e'. map_res f xs = Inl e'"
  by (induction xs) (auto simp: bind_res_eq_Inl, metis old.sum.exhaust)

section \<open>Lemmas on Go maps\<close>

lemma gm_wf_Nil [simp]: "gm_wf []"
  by (simp add: gm_wf_def)

lemma gm_wf_Cons: "gm_wf ((k, v) # m) \<longleftrightarrow> k \<notin> fst ` set m \<and> gm_wf m"
  by (auto simp: gm_wf_def)

lemma gm_wf_update [simp]: "gm_wf m \<Longrightarrow> gm_wf (AList.update k v m)"
  by (simp add: gm_wf_def distinct_update)

lemma gm_get_Nil [simp]: "gm_get [] k = []"
  by (simp add: gm_get_def)

lemma gm_copy_Nil [simp]: "gm_copy dst [] = dst"
  by (simp add: gm_copy_def)

lemma gm_wf_gm_copy [simp]: "gm_wf dst \<Longrightarrow> gm_wf (gm_copy dst src)"
  unfolding gm_copy_def by (induction src arbitrary: dst) auto

lemma map_of_gm_copy [gomap_simps]:
  assumes "gm_wf src"
  shows "map_of (gm_copy dst src) k = (case map_of src k of None \<Rightarrow> map_of dst k | Some v \<Rightarrow> Some v)"
  using assms
proof (induction src arbitrary: dst)
  case Nil
  then show ?case by simp
next
  case (Cons kv src)
  obtain a b where kv: "kv = (a, b)" by (cases kv)
  from Cons.prems kv have wf: "gm_wf src" and fresh: "map_of src a = None"
    by (auto simp: gm_wf_Cons map_of_eq_None_iff)
  have "map_of (gm_copy dst (kv # src)) k = map_of (gm_copy (AList.update a b dst) src) k"
    by (simp add: gm_copy_def kv)
  also have "\<dots> = (case map_of src k of None \<Rightarrow> map_of (AList.update a b dst) k | Some v \<Rightarrow> Some v)"
    by (rule Cons.IH [OF wf])
  finally show ?case
    using fresh kv by (auto simp: update_conv' split: option.splits)
qed

text \<open>Two association lists without repeated keys that are permutations of each other are one map.\<close>

lemma map_of_perm:
  assumes "gm_wf m" and "mset m = mset m'"
  shows "map_of m = map_of m'"
proof -
  have "gm_wf m'"
    using assms by (metis gm_wf_def mset_map mset_eq_imp_distinct_iff)
  moreover have "set m = set m'"
    using assms(2) by (metis set_mset_mset)
  ultimately show ?thesis
    using assms(1) map_of_inject_set [of m m'] by (simp add: gm_wf_def)
qed

lemma gm_wf_perm: "mset m = mset m' \<Longrightarrow> gm_wf m \<longleftrightarrow> gm_wf m'"
  by (metis gm_wf_def mset_map mset_eq_imp_distinct_iff)

end
