(* ===== verification/Go_Strings.thy ===== *)
theory Go_Strings
  imports Prelude "HOL-Library.Char_ord" "HOL-Library.List_Lexorder" "HOL-Library.Product_Lexorder"
begin

text \<open>
  The functions of Go's \<open>strings\<close> package the sources use, on byte strings (a Go string is a
  byte sequence, \<open>string\<close> is a list of 8-bit characters). \<open>strings.HasPrefix(s, p)\<close> is
  \<open>prefix p s\<close> of the library, \<open>strings.Compare\<close> the lexicographic order on byte lists.
\<close>

section \<open>Definitions\<close>

text \<open>
  \<open>split_once sep s\<close> cuts at the first occurrence of \<open>sep\<close>; \<open>splitN2\<close> is
  \<open>strings.SplitN(s, sep, 2)\<close>.
\<close>

fun split_once :: "string \<Rightarrow> string \<Rightarrow> (string \<times> string) option" where
  "split_once sep [] = (if sep = [] then Some ([], []) else None)"
| "split_once sep (c # cs) =
     (if prefix sep (c # cs) then Some ([], drop (length sep) (c # cs))
      else map_option (\<lambda>(a, b). (c # a, b)) (split_once sep cs))"

definition splitN2 :: "string \<Rightarrow> string \<Rightarrow> string list" where
  "splitN2 sep s = (case split_once sep s of None \<Rightarrow> [s] | Some (a, b) \<Rightarrow> [a, b])"

text \<open>\<open>strings.Split\<close> and \<open>strings.Join\<close> with a one-byte separator.\<close>

fun split_char :: "char \<Rightarrow> string \<Rightarrow> string list" where
  "split_char c [] = [[]]"
| "split_char c (x # xs) =
     (if x = c then [] # split_char c xs
      else (case split_char c xs of [] \<Rightarrow> [[x]] | y # ys \<Rightarrow> (x # y) # ys))"

fun join_str :: "string \<Rightarrow> string list \<Rightarrow> string" where
  "join_str sep [] = []"
| "join_str sep [x] = x"
| "join_str sep (x # y # zs) = x @ sep @ join_str sep (y # zs)"

text \<open>\<open>strings.ReplaceAll\<close> for a non-empty \<open>old\<close>: left to right, without overlap.\<close>

function replace_all :: "string \<Rightarrow> string \<Rightarrow> string \<Rightarrow> string" where
  "replace_all old new s =
     (if old = [] \<or> s = [] then s
      else if prefix old s then new @ replace_all old new (drop (length old) s)
      else hd s # replace_all old new (tl s))"
  by pat_completeness auto
termination
  by (relation "measure (\<lambda>(old, new, s). length s)") (auto simp: neq_Nil_conv)

declare replace_all.simps [simp del]

definition contains_any :: "string \<Rightarrow> string \<Rightarrow> bool" where
  "contains_any s chars = (\<exists>c\<in>set s. c \<in> set chars)"

definition trim_suffix :: "string \<Rightarrow> string \<Rightarrow> string" where
  "trim_suffix s suf = (if suffix suf s then take (length s - length suf) s else s)"

text \<open>\<open>strings.TrimRight(s, c)\<close> with a one-byte cutset.\<close>

definition trim_right_char :: "char \<Rightarrow> string \<Rightarrow> string" where
  "trim_right_char c s = rev (dropWhile (\<lambda>x. x = c) (rev s))"

text \<open>
  \<open>strings.TrimSpace\<close> removes the runes \<open>unicode.IsSpace\<close> accepts. On bytes these are the six
  ASCII spaces and the UTF-8 encodings of U+0085, U+00A0, U+1680, U+2000 to U+200A, U+2028, U+2029,
  U+202F, U+205F and U+3000. \<open>space_len s\<close> is the width of the space \<open>s\<close> starts with,
  0 if it starts with none.
\<close>

definition ascii_space :: "char \<Rightarrow> bool" where
  "ascii_space c = (c \<in> {CHR 0x09, CHR 0x0A, CHR 0x0B, CHR 0x0C, CHR 0x0D, CHR 0x20})"

definition space3 :: "char \<Rightarrow> char \<Rightarrow> char \<Rightarrow> bool" where
  "space3 a b c =
     ((a, b, c) = (CHR 0xE1, CHR 0x9A, CHR 0x80) \<or>
      (a, b) = (CHR 0xE2, CHR 0x80) \<and>
        (c \<in> {CHR 0x80, CHR 0x81, CHR 0x82, CHR 0x83, CHR 0x84, CHR 0x85, CHR 0x86, CHR 0x87,
               CHR 0x88, CHR 0x89, CHR 0x8A, CHR 0xA8, CHR 0xA9, CHR 0xAF}) \<or>
      (a, b, c) = (CHR 0xE2, CHR 0x81, CHR 0x9F) \<or>
      (a, b, c) = (CHR 0xE3, CHR 0x80, CHR 0x80))"

definition space2 :: "char \<Rightarrow> char \<Rightarrow> bool" where
  "space2 a b = (a = CHR 0xC2 \<and> b \<in> {CHR 0x85, CHR 0xA0})"

definition space_len :: "string \<Rightarrow> nat" where
  "space_len s = (case s of
       [] \<Rightarrow> 0
     | a # s1 \<Rightarrow> if ascii_space a then 1 else (case s1 of
         [] \<Rightarrow> 0
       | b # s2 \<Rightarrow> if space2 a b then 2 else (case s2 of
           [] \<Rightarrow> 0
         | c # _ \<Rightarrow> if space3 a b c then 3 else 0)))"

text \<open>The same for the space a string ends with, read on the reversed string.\<close>

definition space_len_rev :: "string \<Rightarrow> nat" where
  "space_len_rev s = (case s of
       [] \<Rightarrow> 0
     | c # s1 \<Rightarrow> if ascii_space c then 1 else (case s1 of
         [] \<Rightarrow> 0
       | b # s2 \<Rightarrow> if space2 b c then 2 else (case s2 of
           [] \<Rightarrow> 0
         | a # _ \<Rightarrow> if space3 a b c then 3 else 0)))"

function trim_with :: "(string \<Rightarrow> nat) \<Rightarrow> string \<Rightarrow> string" where
  "trim_with f s = (if f s = 0 \<or> s = [] then s else trim_with f (drop (f s) s))"
  by pat_completeness auto
termination
  by (relation "measure (\<lambda>(f, s). length s)") auto

declare trim_with.simps [simp del]

definition trim_space :: "string \<Rightarrow> string" where
  "trim_space s = rev (trim_with space_len_rev (rev (trim_with space_len s)))"

text \<open>No leading and no trailing space.\<close>

definition trimmed :: "string \<Rightarrow> bool" where
  "trimmed s = (space_len s = 0 \<and> space_len_rev (rev s) = 0)"

section \<open>Runes\<close>

text \<open>Width of the UTF-8 rune at the front of a string; an invalid encoding is one byte wide.\<close>

definition cont_in :: "nat \<Rightarrow> nat \<Rightarrow> string \<Rightarrow> nat \<Rightarrow> bool" where
  "cont_in lo hi s i = (i < length s \<and> lo \<le> of_char (s ! i) \<and> of_char (s ! i) \<le> hi)"

definition rune_len :: "string \<Rightarrow> nat" where
  "rune_len s = (case s of [] \<Rightarrow> 0 | a # _ \<Rightarrow>
     let n = of_char a :: nat;
         c1 = cont_in 0x80 0xBF s 1; c2 = cont_in 0x80 0xBF s 2; c3 = cont_in 0x80 0xBF s 3
     in if 0xC2 \<le> n \<and> n \<le> 0xDF \<and> c1 then 2
        else if n = 0xE0 \<and> cont_in 0xA0 0xBF s 1 \<and> c2 then 3
        else if n = 0xED \<and> cont_in 0x80 0x9F s 1 \<and> c2 then 3
        else if 0xE1 \<le> n \<and> n \<le> 0xEF \<and> n \<noteq> 0xED \<and> c1 \<and> c2 then 3
        else if n = 0xF0 \<and> cont_in 0x90 0xBF s 1 \<and> c2 \<and> c3 then 4
        else if 0xF1 \<le> n \<and> n \<le> 0xF3 \<and> c1 \<and> c2 \<and> c3 then 4
        else if n = 0xF4 \<and> cont_in 0x80 0x8F s 1 \<and> c2 \<and> c3 then 4
        else 1)"

section \<open>Cutting and joining\<close>

lemma split_once_Some: "split_once sep s = Some (a, b) \<Longrightarrow> s = a @ sep @ b"
  by (induction sep s arbitrary: a rule: split_once.induct)
    (auto split: if_splits simp: prefix_def)

lemma split_once_None: "split_once sep s = None \<longleftrightarrow> \<not> sublist sep s"
  by (induction sep s rule: split_once.induct) (auto simp: sublist_Cons_right)

lemma split_once_first:
  assumes "sep = c # cs" and "c \<notin> set a"
  shows "split_once sep (a @ sep @ b) = Some (a, b)"
  using assms by (induction a) auto

lemma split_once_char [simp]: "c \<notin> set a \<Longrightarrow> split_once [c] (a @ c # b) = Some (a, b)"
  using split_once_first [of "[c]" c "[]" a b] by simp

lemma split_once_absent: "c \<notin> set s \<Longrightarrow> split_once (c # cs) s = None"
  by (simp add: split_once_None sublist_def) (metis Un_iff list.set_intros(1) set_append)

text \<open>The part before the cut holds no occurrence of the separator.\<close>

lemma split_once_fst_free: "split_once [c] s = Some (a, b) \<Longrightarrow> c \<notin> set a"
  by (induction "[c]" s arbitrary: a rule: split_once.induct) (auto split: if_splits)

lemma splitN2_nonempty [simp]: "splitN2 sep s \<noteq> []"
  by (simp add: splitN2_def split: option.splits prod.splits)

lemma splitN2_length: "length (splitN2 sep s) = (if sublist sep s then 2 else 1)"
  by (auto simp: splitN2_def split_once_None [symmetric] split: option.splits)

lemma split_char_nonempty [simp]: "split_char c s \<noteq> []"
  by (cases s) (auto split: list.splits)

lemma split_char_free: "p \<in> set (split_char c s) \<Longrightarrow> c \<notin> set p"
  by (induction c s arbitrary: p rule: split_char.induct) (auto split: if_splits list.splits)

lemma join_str_Cons: "xs \<noteq> [] \<Longrightarrow> join_str sep (x # xs) = x @ sep @ join_str sep xs"
  by (cases xs) auto

lemma join_split_char: "join_str [c] (split_char c s) = s"
proof (induction c s rule: split_char.induct)
  case (2 c x xs)
  show ?case
  proof (cases "x = c")
    case True
    with 2 show ?thesis by (simp add: join_str_Cons)
  next
    case False
    obtain y ys where ys: "split_char c xs = y # ys"
      using split_char_nonempty by (metis neq_Nil_conv)
    with 2 False show ?thesis by (cases ys) auto
  qed
qed simp

lemma split_char_absent: "c \<notin> set s \<Longrightarrow> split_char c s = [s]"
  by (induction c s rule: split_char.induct) auto

lemma split_char_append:
  "c \<notin> set a \<Longrightarrow> split_char c (a @ c # b) = a # split_char c b"
  by (induction a) auto

section \<open>Replacing\<close>

lemma replace_all_Nil [simp]: "replace_all old new [] = []"
  by (simp add: replace_all.simps)

lemma replace_all_hit [simp]:
  "old \<noteq> [] \<Longrightarrow> replace_all old new (old @ s) = new @ replace_all old new s"
  by (cases old) (simp_all add: replace_all.simps [of old new "old @ s"] replace_all.simps)

lemma replace_all_miss [simp]:
  "\<not> prefix old (c # s) \<Longrightarrow> replace_all old new (c # s) = c # replace_all old new s"
  by (subst replace_all.simps) (auto simp: prefix_def)

lemma replace_all_absent: "old \<noteq> [] \<Longrightarrow> \<not> sublist old s \<Longrightarrow> replace_all old new s = s"
  by (induction s) (auto simp: sublist_Cons_right)

section \<open>Trimming\<close>

lemma space_len_le: "space_len s \<le> length s"
  by (auto simp: space_len_def split: list.splits)

lemma space_len_rev_le: "space_len_rev s \<le> length s"
  by (auto simp: space_len_rev_def split: list.splits)

lemma space_len_prefix: "space_len s = 0 \<Longrightarrow> prefix s' s \<Longrightarrow> space_len s' = 0"
  unfolding space_len_def prefix_def
  by (cases s'; cases "tl s'"; cases "tl (tl s')") (auto split: if_splits list.splits)

lemma trim_with_stops: "(\<And>t. f t \<le> length t) \<Longrightarrow> f (trim_with f s) = 0"
proof (induction f s rule: trim_with.induct)
  case (1 f s)
  show ?case
  proof (cases "f s = 0 \<or> s = []")
    case True
    with "1.prems" [of s] show ?thesis by (auto simp: trim_with.simps [of f s])
  next
    case False
    with "1.IH" "1.prems" show ?thesis by (simp add: trim_with.simps [of f s])
  qed
qed

lemma trim_with_id: "f s = 0 \<Longrightarrow> trim_with f s = s"
  by (simp add: trim_with.simps)

lemma trim_with_suffix: "suffix (trim_with f s) s"
proof (induction f s rule: trim_with.induct)
  case (1 f s)
  then show ?case
    by (cases "f s = 0 \<or> s = []")
      (auto simp: trim_with.simps [of f s] intro: suffix_order.trans suffix_drop)
qed

lemma trim_space_trimmed: "trimmed (trim_space s)"
proof -
  let ?l = "trim_with space_len s"
  have l: "space_len ?l = 0"
    by (rule trim_with_stops) (rule space_len_le)
  have "prefix (trim_space s) ?l"
    using trim_with_suffix [of space_len_rev "rev ?l"]
    by (simp add: trim_space_def suffix_to_prefix)
  moreover have "space_len_rev (trim_with space_len_rev (rev ?l)) = 0"
    by (rule trim_with_stops) (rule space_len_rev_le)
  ultimately show ?thesis
    using l by (auto simp: trimmed_def trim_space_def intro: space_len_prefix)
qed

lemma trim_space_id: "trimmed s \<Longrightarrow> trim_space s = s"
  by (simp add: trimmed_def trim_space_def trim_with_id)

lemma trim_space_idem [simp]: "trim_space (trim_space s) = trim_space s"
  by (rule trim_space_id) (rule trim_space_trimmed)

lemma trim_space_sublist: "sublist (trim_space s) s"
proof -
  let ?l = "trim_with space_len s"
  have "prefix (trim_space s) ?l"
    using trim_with_suffix [of space_len_rev "rev ?l"]
    by (simp add: trim_space_def suffix_to_prefix)
  then show ?thesis
    using trim_with_suffix [of space_len s] by (meson prefix_imp_sublist suffix_imp_sublist sublist_order.order.trans)
qed

lemma set_trim_space: "set (trim_space s) \<subseteq> set s"
  using trim_space_sublist by (rule set_mono_sublist)

end
