(* ===== verification/Policy_Refs.thy ===== *)
theory Policy_Refs
  imports Go_Strings
begin

text \<open>
  Policy references (\<open>pkg/policies/loader.go\<close>): the scheme, the digest suffix and the
  provider, organization and name of a reference, and the runtime-input scopes matched against them
  (\<open>pkg/policies/runtime_inputs.go\<close>).
\<close>

section \<open>Parsing references\<close>

definition fileScheme :: string where "fileScheme = ''file''"
definition httpScheme :: string where "httpScheme = ''http''"
definition httpsScheme :: string where "httpsScheme = ''https''"
definition chainloopScheme :: string where "chainloopScheme = ''chainloop''"

lemmas scheme_defs = fileScheme_def httpScheme_def httpsScheme_def chainloopScheme_def

definition RefParts :: "string \<Rightarrow> string \<times> string" where
  "RefParts ref = (case splitN2 ''://'' ref of [a, b] \<Rightarrow> (a, b) | parts \<Rightarrow> ([], hd parts))"

definition ExtractDigest :: "string \<Rightarrow> string \<times> string" where
  "ExtractDigest ref = (case splitN2 ''@'' ref of [a, b] \<Rightarrow> (a, b) | parts \<Rightarrow> (hd parts, []))"

definition IsProviderScheme :: "string \<Rightarrow> bool" where
  "IsProviderScheme ref = (let scheme = fst (RefParts ref) in scheme = chainloopScheme \<or> scheme = [])"

record provider_ref =
  pr_provider :: string
  pr_org :: string
  pr_name :: string

definition ProviderParts :: "string \<Rightarrow> provider_ref" where
  "ProviderParts reference =
     (let (ref, digest) = (case splitN2 ''@sha256:'' reference of [a, b] \<Rightarrow> (a, b) | _ \<Rightarrow> (reference, []));
          body = (case splitN2 ''://'' ref of [_, b] \<Rightarrow> b | parts \<Rightarrow> hd parts);
          (provider, name) = (case splitN2 '':'' body of [p, n] \<Rightarrow> (p, n) | pn \<Rightarrow> ([], hd pn));
          (org, name) = (case splitN2 ''/'' name of [o', n] \<Rightarrow> (o', n) | _ \<Rightarrow> ([], name));
          name = (if digest \<noteq> [] then name @ ''@sha256:'' @ digest else name)
      in \<lparr>pr_provider = provider, pr_org = org, pr_name = name\<rparr>)"

definition ensureScheme :: "string \<Rightarrow> string list \<Rightarrow> string res" where
  "ensureScheme ref expected =
     (let (scheme, ident) = RefParts ref in
      if scheme \<in> set expected then Inr ident
      else Inl (Errorf ''unexpected policy reference scheme: %q'' [scheme]))"

text \<open>The location of a policy spec, known for file and https attachments only.\<close>

definition policyLocation :: "string \<Rightarrow> string" where
  "policyLocation attachmentRef =
     (let scheme = fst (RefParts attachmentRef) in
      if scheme = fileScheme \<or> scheme = httpsScheme then fst (ExtractDigest attachmentRef) else [])"

section \<open>Runtime-input scopes\<close>

definition splitPolicyRef :: "string \<Rightarrow> string \<times> string" where
  "splitPolicyRef ref = ExtractDigest (pr_name (ProviderParts ref))"

definition policyScopeMatches :: "string \<Rightarrow> string \<Rightarrow> string \<Rightarrow> bool" where
  "policyScopeMatches scope name ref =
     (if scope = [] then False
      else if scope = name \<or> scope = ref then True
      else
        let (scopeName, scopeDigest) = splitPolicyRef scope in
        if scopeName = [] then False
        else
          let (refName, refDigest) = splitPolicyRef ref in
          if scopeName \<noteq> refName \<and> scopeName \<noteq> name then False
          else if scopeDigest \<noteq> [] then scopeDigest = refDigest
          else True)"

definition scopeSpecificity :: "string \<Rightarrow> int" where
  "scopeSpecificity scope =
     (let digest = snd (splitPolicyRef scope);
          head = (if digest \<noteq> [] \<and> CHR ''@'' \<in> set scope then takeWhile (\<lambda>c. c \<noteq> CHR ''@'') scope
                  else scope);
          score = (if digest \<noteq> [] then 2 else 0)
      in if contains_any head '':/'' then score + 1 else score)"

section \<open>Lemmas\<close>

lemma splitN2_cases [case_names one two]:
  assumes "splitN2 sep s = [s] \<Longrightarrow> \<not> sublist sep s \<Longrightarrow> P"
    and "\<And>a b. splitN2 sep s = [a, b] \<Longrightarrow> s = a @ sep @ b \<Longrightarrow> P"
  shows P
proof (cases "split_once sep s")
  case None
  then have "splitN2 sep s = [s]" and "\<not> sublist sep s"
    by (simp_all add: splitN2_def split_once_None [symmetric])
  then show P by (rule assms(1))
next
  case (Some ab)
  obtain a b where ab: "ab = (a, b)" by (cases ab)
  with Some have "splitN2 sep s = [a, b]" and "s = a @ sep @ b"
    by (simp_all add: splitN2_def split_once_Some)
  then show P by (rule assms(2))
qed

lemma splitN2_char: "c \<notin> set a \<Longrightarrow> splitN2 [c] (a @ c # b) = [a, b]"
  by (simp add: splitN2_def)

lemma splitN2_absent: "c \<notin> set s \<Longrightarrow> splitN2 (c # cs) s = [s]"
  by (simp add: splitN2_def split_once_absent)

lemma splitN2_str: "c \<notin> set a \<Longrightarrow> splitN2 (c # cs) (a @ c # cs @ b) = [a, b]"
  using split_once_first [of "c # cs" c cs a b] by (simp add: splitN2_def)

lemma ExtractDigest_digest: "CHR ''@'' \<notin> set a \<Longrightarrow> ExtractDigest (a @ CHR ''@'' # d) = (a, d)"
  by (simp add: ExtractDigest_def splitN2_char)

lemma ExtractDigest_plain: "CHR ''@'' \<notin> set a \<Longrightarrow> ExtractDigest a = (a, [])"
  by (simp add: ExtractDigest_def splitN2_absent)

lemma RefParts_scheme: "CHR '':'' \<notin> set a \<Longrightarrow> RefParts (a @ ''://'' @ b) = (a, b)"
  using splitN2_str [of "CHR '':''" a "''//''" b] by (simp add: RefParts_def)

lemma RefParts_plain: "\<not> sublist ''://'' s \<Longrightarrow> RefParts s = ([], s)"
  by (simp add: RefParts_def splitN2_def split_once_None split: option.splits)
    (metis option.distinct(1) split_once_None)

text \<open>
  A reference is its scheme, \<open>://\<close> and the rest, or it has no scheme at all: parsing loses nothing.
\<close>

lemma RefParts_rebuild:
  "RefParts s = (sch, rest) \<Longrightarrow> s = sch @ ''://'' @ rest \<or> (sch = [] \<and> s = rest)"
  by (rule splitN2_cases [of "''://''" s]) (auto simp: RefParts_def)

lemma ExtractDigest_rebuild:
  "ExtractDigest s = (a, d) \<Longrightarrow> CHR ''@'' \<notin> set a \<and> (s = a @ CHR ''@'' # d \<or> (d = [] \<and> s = a))"
proof (cases "split_once ''@'' s")
  case None
  moreover assume "ExtractDigest s = (a, d)"
  ultimately show ?thesis
    using None [unfolded split_once_None]
    by (auto simp: ExtractDigest_def splitN2_def sublist_def in_set_conv_decomp)
next
  case (Some ab)
  moreover assume "ExtractDigest s = (a, d)"
  ultimately show ?thesis
    by (cases ab) (auto simp: ExtractDigest_def splitN2_def dest: split_once_fst_free split_once_Some)
qed

text \<open>A name segment: free of the characters that separate the parts of a reference.\<close>

definition ref_segment :: "string \<Rightarrow> bool" where
  "ref_segment s = (CHR '':'' \<notin> set s \<and> CHR ''/'' \<notin> set s \<and> CHR ''@'' \<notin> set s)"

text \<open>The printed form of a provider reference, parts left out when empty.\<close>

definition ref_scoped :: "string \<Rightarrow> string \<Rightarrow> string" where
  "ref_scoped org name = (if org \<noteq> [] then org @ ''/'' @ name else name)"

definition ref_body :: "string \<Rightarrow> string \<Rightarrow> string \<Rightarrow> string" where
  "ref_body provider org name =
     (if provider \<noteq> [] then provider @ '':'' @ ref_scoped org name else ref_scoped org name)"

definition ref_head :: "bool \<Rightarrow> string \<Rightarrow> string \<Rightarrow> string \<Rightarrow> string" where
  "ref_head scheme provider org name =
     (if scheme then ''chainloop://'' @ ref_body provider org name else ref_body provider org name)"

definition with_digest :: "string \<Rightarrow> string \<Rightarrow> string" where
  "with_digest s digest = (if digest \<noteq> [] then s @ ''@sha256:'' @ digest else s)"

definition print_ref :: "bool \<Rightarrow> string \<Rightarrow> string \<Rightarrow> string \<Rightarrow> string \<Rightarrow> string" where
  "print_ref scheme provider org name digest = with_digest (ref_head scheme provider org name) digest"

lemma with_digest_Nil [simp]: "with_digest s [] = s"
  by (simp add: with_digest_def)

lemma ref_segmentD:
  assumes "ref_segment s"
  shows "CHR '':'' \<notin> set s" and "CHR ''/'' \<notin> set s" and "CHR ''@'' \<notin> set s"
  using assms by (simp_all add: ref_segment_def)

lemma sublist_scheme_slashes: "sublist ''://'' s \<Longrightarrow> 2 \<le> count_list s (CHR ''/'')"
  by (auto simp: sublist_def count_list_append)

lemma count_list_absent: "c \<notin> set s \<Longrightarrow> count_list s c = 0"
  by (induction s) auto

lemma ref_body_no_scheme:
  assumes "ref_segment p" and "ref_segment o'" and "ref_segment n"
  shows "\<not> sublist ''://'' (ref_body p o' n)"
proof -
  have "count_list (ref_body p o' n) (CHR ''/'') \<le> 1"
    using assms [THEN ref_segmentD(2), THEN count_list_absent]
    by (simp add: ref_body_def ref_scoped_def count_list_append)
  then show ?thesis
    using sublist_scheme_slashes by fastforce
qed

lemma ref_head_no_at:
  assumes "ref_segment p" and "ref_segment o'" and "ref_segment n"
  shows "CHR ''@'' \<notin> set (ref_head b p o' n)"
  using assms [THEN ref_segmentD(3)] by (simp add: ref_head_def ref_body_def ref_scoped_def)

lemma split_body:
  assumes "ref_segment p" and "ref_segment o'" and "ref_segment n"
  shows "splitN2 '':'' (ref_body p o' n) =
           (if p \<noteq> [] then [p, ref_scoped o' n] else [ref_scoped o' n])"
  using assms [THEN ref_segmentD(1)]
  by (simp add: ref_body_def splitN2_char splitN2_absent ref_scoped_def)

lemma split_scoped:
  assumes "ref_segment o'" and "ref_segment n"
  shows "splitN2 ''/'' (ref_scoped o' n) = (if o' \<noteq> [] then [o', n] else [n])"
  using assms [THEN ref_segmentD(2)] by (simp add: ref_scoped_def splitN2_char splitN2_absent)

lemma split_head:
  assumes "ref_segment p" and "ref_segment o'" and "ref_segment n"
  shows "splitN2 ''://'' (ref_head b p o' n) =
           (if b then [''chainloop'', ref_body p o' n] else [ref_body p o' n])"
proof (cases b)
  case True
  then show ?thesis
    using splitN2_str [of "CHR '':''" "''chainloop''" "''//''"] by (simp add: ref_head_def)
next
  case False
  with ref_body_no_scheme [OF assms] show ?thesis
    by (cases rule: splitN2_cases [of "''://''" "ref_body p o' n"])
      (auto simp: ref_head_def sublist_def)
qed

lemma split_digest:
  assumes "CHR ''@'' \<notin> set s"
  shows "splitN2 ''@sha256:'' (with_digest s d) = (if d \<noteq> [] then [s, d] else [s])"
  using splitN2_str [OF assms, of "''sha256:''" d] assms by (simp add: with_digest_def splitN2_absent)

lemma ref_roundtrip:
  assumes "ref_segment p" and "ref_segment o'" and "ref_segment n"
  shows "ProviderParts (print_ref b p o' n d) =
           \<lparr>pr_provider = p, pr_org = o', pr_name = with_digest n d\<rparr>"
proof -
  have dig: "(case splitN2 ''@sha256:'' (print_ref b p o' n d) of [a, c] \<Rightarrow> (a, c)
      | _ \<Rightarrow> (print_ref b p o' n d, [])) = (ref_head b p o' n, d)"
    by (simp add: print_ref_def split_digest [OF ref_head_no_at [OF assms]])
  have body: "(case splitN2 ''://'' (ref_head b p o' n) of [_, c] \<Rightarrow> c | parts \<Rightarrow> hd parts) =
      ref_body p o' n"
    by (simp add: split_head [OF assms])
  have prov: "(case splitN2 '':'' (ref_body p o' n) of [p, n] \<Rightarrow> (p, n) | pn \<Rightarrow> ([], hd pn)) =
      (p, ref_scoped o' n)"
    by (simp add: split_body [OF assms])
  have org: "(case splitN2 ''/'' (ref_scoped o' n) of [o', n] \<Rightarrow> (o', n)
      | _ \<Rightarrow> ([], ref_scoped o' n)) = (o', n)"
    by (simp add: split_scoped [OF assms(2,3)]) (simp add: ref_scoped_def)
  show ?thesis
    unfolding ProviderParts_def Let_def dig prod.case body prov org with_digest_def ..
qed

lemma splitPolicyRef_print:
  assumes "ref_segment p" and "ref_segment o'" and "ref_segment n"
  shows "splitPolicyRef (print_ref b p o' n d) = (n, if d \<noteq> [] then ''sha256:'' @ d else [])"
  using ref_segmentD(3) [OF assms(3)]
  by (simp add: splitPolicyRef_def ref_roundtrip [OF assms] with_digest_def ExtractDigest_digest
      ExtractDigest_plain)

lemma scope_matches_iff:
  assumes "ref_segment p" and "ref_segment o'" and "ref_segment n" and "n \<noteq> []"
    and "ref_segment p'" and "ref_segment o''" and "ref_segment n'"
  shows "policyScopeMatches (print_ref b p o' n d) name (print_ref b' p' o'' n' d') \<longleftrightarrow>
           print_ref b p o' n d = name \<or> print_ref b p o' n d = print_ref b' p' o'' n' d' \<or>
           ((n = n' \<or> n = name) \<and> (d = [] \<or> d = d'))"
proof -
  have "print_ref b p o' n d \<noteq> []"
    using assms(4) by (simp add: print_ref_def with_digest_def ref_head_def ref_body_def ref_scoped_def)
  then show ?thesis
    using assms(4)
    by (auto simp: policyScopeMatches_def splitPolicyRef_print [OF assms(1-3)]
        splitPolicyRef_print [OF assms(5-7)])
qed

lemma scopeSpecificity_print:
  assumes "ref_segment p" and "ref_segment o'" and "ref_segment n"
  shows "scopeSpecificity (print_ref b p o' n d) =
           (if d \<noteq> [] then 2 else 0) + (if b \<or> p \<noteq> [] \<or> o' \<noteq> [] then 1 else 0)"
proof -
  let ?head = "ref_head b p o' n"
  have at: "CHR ''@'' \<notin> set ?head"
    by (rule ref_head_no_at [OF assms])
  have "takeWhile (\<lambda>c. c \<noteq> CHR ''@'') (?head @ CHR ''@'' # ds) = ?head" for ds
    using at by (subst takeWhile_append2) auto
  then have head: "(if d \<noteq> [] \<and> CHR ''@'' \<in> set (print_ref b p o' n d)
      then takeWhile (\<lambda>c. c \<noteq> CHR ''@'') (print_ref b p o' n d) else print_ref b p o' n d) = ?head"
    by (simp add: print_ref_def with_digest_def)
  have "contains_any ?head '':/'' \<longleftrightarrow> b \<or> p \<noteq> [] \<or> o' \<noteq> []"
    using assms by (auto simp: contains_any_def ref_segment_def ref_head_def ref_body_def ref_scoped_def)
  then show ?thesis
    using head by (auto simp: scopeSpecificity_def Let_def splitPolicyRef_print [OF assms])
qed

section \<open>Properties\<close>

text \<open>
  A provider reference survives printing and parsing: from the text of a reference with any
  combination of scheme, provider, organization and digest, \<open>ProviderParts\<close> recovers the provider, the
  organization and the name (with its digest), and \<open>splitPolicyRef\<close> the bare name and the digest.
\<close>

theorem provider_ref_roundtrip:
  assumes "ref_segment p" and "ref_segment org" and "ref_segment n"
  shows "ProviderParts (print_ref b p org n d) = \<lparr>pr_provider = p, pr_org = org, pr_name = with_digest n d\<rparr> \<and>
         splitPolicyRef (print_ref b p org n d) = (n, if d \<noteq> [] then ''sha256:'' @ d else [])"
  using ref_roundtrip [OF assms] splitPolicyRef_print [OF assms] by simp

theorem provider_ref_roundtrip_witness:
  "print_ref True ''hub'' ''acme'' ''sbom'' ''ab12'' = ''chainloop://hub:acme/sbom@sha256:ab12'' \<and>
   ProviderParts ''chainloop://hub:acme/sbom@sha256:ab12'' =
     \<lparr>pr_provider = ''hub'', pr_org = ''acme'', pr_name = ''sbom@sha256:ab12''\<rparr>"
proof -
  have "print_ref True ''hub'' ''acme'' ''sbom'' ''ab12'' = ''chainloop://hub:acme/sbom@sha256:ab12''"
    by (simp add: print_ref_def with_digest_def ref_head_def ref_body_def ref_scoped_def)
  moreover have "ProviderParts (print_ref True ''hub'' ''acme'' ''sbom'' ''ab12'') =
      \<lparr>pr_provider = ''hub'', pr_org = ''acme'', pr_name = with_digest ''sbom'' ''ab12''\<rparr>"
    by (rule conjunct1 [OF provider_ref_roundtrip]) (simp_all add: ref_segment_def)
  ultimately show ?thesis by (simp add: with_digest_def)
qed

text \<open>
  A scope given at run time selects a policy by its name, by its exact reference, or by a
  reference to the same name, in which case a digest in the scope has to be the digest of the policy;
  scheme, provider and organization of the scope do not matter.
\<close>

theorem scope_selects_policy:
  assumes "ref_segment p" and "ref_segment org" and "ref_segment n" and "n \<noteq> []"
    and "ref_segment p'" and "ref_segment org'" and "ref_segment n'"
  shows "policyScopeMatches (print_ref b p org n d) name (print_ref b' p' org' n' d') \<longleftrightarrow>
           print_ref b p org n d = name \<or> print_ref b p org n d = print_ref b' p' org' n' d' \<or>
           ((n = n' \<or> n = name) \<and> (d = [] \<or> d = d'))"
  using assms by (rule scope_matches_iff)

theorem scope_selects_policy_witness:
  "policyScopeMatches (print_ref False [] [] ''sbom'' []) ''other'' (print_ref True ''hub'' ''acme'' ''sbom'' ''ab12'') \<and>
   \<not> policyScopeMatches (print_ref False [] [] ''sbom'' ''ff'') ''other'' (print_ref True ''hub'' ''acme'' ''sbom'' ''ab12'')"
proof -
  have "policyScopeMatches (print_ref False [] [] ''sbom'' d) ''other'' (print_ref True ''hub'' ''acme'' ''sbom'' ''ab12'') \<longleftrightarrow>
      print_ref False [] [] ''sbom'' d = ''other'' \<or>
      print_ref False [] [] ''sbom'' d = print_ref True ''hub'' ''acme'' ''sbom'' ''ab12'' \<or> d = [] \<or> d = ''ab12''" for d
    by (subst scope_selects_policy) (simp_all add: ref_segment_def)
  from this [of "[]"] this [of "''ff''"] show ?thesis
    by (simp add: print_ref_def with_digest_def ref_head_def ref_body_def ref_scoped_def)
qed

end
