(* ===== verification/Runtime_Inputs.thy ===== *)
theory Runtime_Inputs
  imports Policy_Refs
begin

text \<open>
  Policy inputs supplied at run time (\<open>pkg/policies/runtime_inputs.go\<close>): global and scoped values,
  each appended to or replacing what the contract declares, and the tracker of the scopes that
  matched a policy. The Go code ranges over maps; here a map is an association list whose order
  stands for the iteration order, and the lemmas show that no result depends on it.
\<close>

section \<open>Definitions\<close>

record runtime_inputs =
  ri_global :: "string gomap"
  ri_scoped :: "string gomap gomap"
  ri_global_override :: "string gomap"
  ri_scoped_override :: "string gomap gomap"

definition ri_empty :: "runtime_inputs option \<Rightarrow> bool" where
  "ri_empty ri = (case ri of None \<Rightarrow> True
     | Some r \<Rightarrow> ri_global r = [] \<and> ri_scoped r = [] \<and> ri_global_override r = [] \<and> ri_scoped_override r = [])"

abbreviation newline :: string where "newline \<equiv> [CHR 0x0A]"

definition merge_one :: "string \<times> string \<Rightarrow> string gomap \<Rightarrow> string gomap" where
  "merge_one kv merged = (case kv of (k, v) \<Rightarrow>
     let existing = gm_get merged k in
     AList.update k (if existing \<noteq> [] then existing @ newline @ v else v) merged)"

definition MergeRuntimeInputs :: "string gomap \<Rightarrow> string gomap \<Rightarrow> string gomap" where
  "MergeRuntimeInputs with' runtimeInputs =
     (if runtimeInputs = [] then with' else fold merge_one runtimeInputs (gm_copy [] with'))"

definition OverrideRuntimeInputs :: "string gomap \<Rightarrow> string gomap \<Rightarrow> string gomap" where
  "OverrideRuntimeInputs with' overrides =
     (if overrides = [] then with' else gm_copy (gm_copy [] with') overrides)"

text \<open>The comparison of \<open>slices.SortFunc\<close>: specificity first, the scope string on ties.\<close>

definition scope_key :: "string \<Rightarrow> int \<times> string" where
  "scope_key s = (scopeSpecificity s, s)"

definition matchingScopes :: "'v gomap \<Rightarrow> string \<Rightarrow> string \<Rightarrow> string list" where
  "matchingScopes scoped name ref =
     sort_key scope_key (filter (\<lambda>scope. policyScopeMatches scope name ref) (map fst scoped))"

definition scope_values :: "string gomap gomap \<Rightarrow> string \<Rightarrow> string gomap" where
  "scope_values scoped scope = (case map_of scoped scope of None \<Rightarrow> [] | Some m \<Rightarrow> m)"

definition markMatch :: "string \<Rightarrow> string list \<Rightarrow> string list" where
  "markMatch scope matched = (if scope \<in> set matched then matched else matched @ [scope])"

definition forPolicy ::
  "runtime_inputs option \<Rightarrow> string \<Rightarrow> string \<Rightarrow> string gomap \<times> string gomap \<times> string list" where
  "forPolicy ri name ref =
     (if ri_empty ri then ([], [], [])
      else
        let r = the ri;
            app_scopes = matchingScopes (ri_scoped r) name ref;
            rep_scopes = matchingScopes (ri_scoped_override r) name ref;
            appendInputs = fold (\<lambda>scope acc. MergeRuntimeInputs acc (scope_values (ri_scoped r) scope))
              app_scopes (ri_global r);
            replaceInputs = fold (\<lambda>scope acc. OverrideRuntimeInputs acc (scope_values (ri_scoped_override r) scope))
              rep_scopes (ri_global_override r);
            matched = fold markMatch rep_scopes (fold markMatch app_scopes [])
        in (appendInputs, replaceInputs, matched))"

text \<open>The scope tracker: the set of the scopes marked so far; a nil tracker ignores marks.\<close>

type_synonym scope_tracker = "string set"

definition tracker_mark :: "scope_tracker option \<Rightarrow> string list \<Rightarrow> scope_tracker option" where
  "tracker_mark t keys = map_option (\<lambda>seen. seen \<union> set keys) t"

definition tracker_unmatched :: "scope_tracker option \<Rightarrow> runtime_inputs option \<Rightarrow> string list" where
  "tracker_unmatched t ri = (case (t, ri) of
       (Some seen, Some r) \<Rightarrow>
         sort (filter (\<lambda>scope. scope \<notin> seen)
           (remdups (map fst (ri_scoped r) @ map fst (ri_scoped_override r))))
     | _ \<Rightarrow> [])"

section \<open>Merging and overriding\<close>

lemma gm_copy_Nil_left: "gm_wf m \<Longrightarrow> map_of (gm_copy [] m) = map_of m"
  by (auto simp: fun_eq_iff gomap_simps split: option.splits)

lemma gm_get_gm_copy_Nil: "gm_wf m \<Longrightarrow> gm_get (gm_copy [] m) = gm_get m"
  by (simp add: gm_get_def fun_eq_iff gm_copy_Nil_left)

lemma merge_one_lookup:
  "map_of (merge_one (k, v) m) x =
     (if x = k then Some (if gm_get m k \<noteq> [] then gm_get m k @ newline @ v else v) else map_of m x)"
  by (simp add: merge_one_def Let_def update_conv')

lemma gm_wf_merge_one: "gm_wf m \<Longrightarrow> gm_wf (merge_one kv m)"
  by (simp add: merge_one_def Let_def split: prod.split)

lemma fold_merge_one_lookup:
  "gm_wf rt \<Longrightarrow> map_of (fold merge_one rt m) k =
     (case map_of rt k of
        None \<Rightarrow> map_of m k
      | Some v \<Rightarrow> Some (if gm_get m k \<noteq> [] then gm_get m k @ newline @ v else v))"
proof (induction rt arbitrary: m)
  case (Cons kv rt)
  obtain a v where kv: "kv = (a, v)" by (cases kv)
  with Cons.prems have "gm_wf rt" and "map_of rt a = None"
    by (auto simp: gm_wf_Cons map_of_eq_None_iff)
  then show ?case
    using Cons.IH [of "merge_one kv m"]
    by (auto simp: kv merge_one_lookup gm_get_def split: option.splits)
qed simp

lemma gm_wf_fold_merge_one: "gm_wf m \<Longrightarrow> gm_wf (fold merge_one rt m)"
  by (induction rt arbitrary: m) (auto intro: gm_wf_merge_one)

lemma gm_wf_Merge: "gm_wf w \<Longrightarrow> gm_wf (MergeRuntimeInputs w rt)"
  by (simp add: MergeRuntimeInputs_def gm_wf_fold_merge_one)

lemma gm_wf_Override: "gm_wf w \<Longrightarrow> gm_wf (OverrideRuntimeInputs w ov)"
  by (simp add: OverrideRuntimeInputs_def)

lemma Merge_lookup:
  assumes "gm_wf w" and "gm_wf rt"
  shows "map_of (MergeRuntimeInputs w rt) k =
     (case map_of rt k of
        None \<Rightarrow> map_of w k
      | Some v \<Rightarrow> Some (if gm_get w k \<noteq> [] then gm_get w k @ newline @ v else v))"
  using assms
  by (simp add: MergeRuntimeInputs_def fold_merge_one_lookup gm_copy_Nil_left gm_get_gm_copy_Nil
      split: option.split)

lemma Override_lookup:
  assumes "gm_wf w" and "gm_wf ov"
  shows "map_of (OverrideRuntimeInputs w ov) k =
     (case map_of ov k of None \<Rightarrow> map_of w k | Some v \<Rightarrow> Some v)"
  using assms by (simp add: OverrideRuntimeInputs_def gomap_simps gm_copy_Nil_left split: option.split)

section \<open>The scopes that match\<close>

lemma inj_scope_key: "inj_on scope_key A"
  by (auto simp: scope_key_def inj_on_def)

lemma set_matchingScopes:
  "set (matchingScopes scoped name ref) = {s \<in> fst ` set scoped. policyScopeMatches s name ref}"
  by (auto simp: matchingScopes_def)

lemma distinct_matchingScopes: "gm_wf scoped \<Longrightarrow> distinct (matchingScopes scoped name ref)"
  by (simp add: matchingScopes_def gm_wf_def)

lemma sorted_matchingScopes: "sorted (map scope_key (matchingScopes scoped name ref))"
  by (simp add: matchingScopes_def)

lemma matchingScopes_perm:
  assumes "mset scoped = mset scoped'"
  shows "matchingScopes scoped name ref = matchingScopes scoped' name ref"
proof -
  have "mset (filter (\<lambda>s. policyScopeMatches s name ref) (map fst scoped)) =
        mset (filter (\<lambda>s. policyScopeMatches s name ref) (map fst scoped'))"
    using assms by simp
  then show ?thesis
    unfolding matchingScopes_def
    by (intro sort_key_inj_key_eq inj_scope_key) (simp_all add: mset_sort)
qed

section \<open>Applying the scopes in order\<close>

definition wf_scoped :: "string gomap gomap \<Rightarrow> bool" where
  "wf_scoped scoped = (gm_wf scoped \<and> (\<forall>m\<in>snd ` set scoped. gm_wf m))"

definition wf_inputs :: "runtime_inputs \<Rightarrow> bool" where
  "wf_inputs r = (gm_wf (ri_global r) \<and> gm_wf (ri_global_override r) \<and>
     wf_scoped (ri_scoped r) \<and> wf_scoped (ri_scoped_override r))"

lemma wf_scope_values: "wf_scoped scoped \<Longrightarrow> gm_wf (scope_values scoped s)"
  by (force simp: wf_scoped_def scope_values_def split: option.split dest: map_of_SomeD)

lemma gm_wf_fold_override:
  "gm_wf acc \<Longrightarrow> gm_wf (fold (\<lambda>s acc. OverrideRuntimeInputs acc (scope_values scoped s)) ss acc)"
  by (induction ss arbitrary: acc) (auto intro: gm_wf_Override)

lemma gm_wf_fold_merge:
  "gm_wf acc \<Longrightarrow> gm_wf (fold (\<lambda>s acc. MergeRuntimeInputs acc (scope_values scoped s)) ss acc)"
  by (induction ss arbitrary: acc) (auto intro: gm_wf_Merge)

lemma fold_override_absent:
  assumes "wf_scoped scoped" and "gm_wf acc" and "\<forall>s\<in>set ss. map_of (scope_values scoped s) k = None"
  shows "map_of (fold (\<lambda>s acc. OverrideRuntimeInputs acc (scope_values scoped s)) ss acc) k = map_of acc k"
  using assms(2,3)
  by (induction ss arbitrary: acc) (auto simp: Override_lookup wf_scope_values [OF assms(1)] gm_wf_Override)

lemma fold_override_last:
  assumes "wf_scoped scoped" and "gm_wf acc" and "map_of (scope_values scoped s) k = Some v"
    and "\<forall>s\<in>set post. map_of (scope_values scoped s) k = None"
  shows "map_of (fold (\<lambda>s acc. OverrideRuntimeInputs acc (scope_values scoped s)) (pre @ s # post) acc) k = Some v"
  using assms(3,4)
  by (simp add: fold_override_absent [OF assms(1)] gm_wf_Override gm_wf_fold_override assms(2)
      Override_lookup wf_scope_values [OF assms(1)])

lemma scope_split:
  assumes "s \<in> set (matchingScopes scoped name ref)" and "gm_wf scoped"
  obtains pre post where "matchingScopes scoped name ref = pre @ s # post"
    and "\<forall>s'\<in>set post. s' \<noteq> s \<and> scope_key s \<le> scope_key s'"
proof -
  obtain pre post where *: "matchingScopes scoped name ref = pre @ s # post"
    using assms(1) by (meson split_list)
  have "distinct (pre @ s # post)" and "sorted (map scope_key (pre @ s # post))"
    using distinct_matchingScopes [OF assms(2)] sorted_matchingScopes [of scoped name ref]
    by (simp_all flip: *)
  then have "\<forall>s'\<in>set post. s' \<noteq> s \<and> scope_key s \<le> scope_key s'"
    by (auto simp: sorted_append)
  with * show ?thesis by (rule that)
qed

text \<open>
  When several matching scopes override one input, the most specific scope wins; the scope string
  breaks ties.
\<close>

lemma most_specific_override_wins:
  assumes "wf_inputs r" and "policyScopeMatches s name ref"
    and "map_of (ri_scoped_override r) s = Some m" and "map_of m k = Some v"
    and "\<And>s'. policyScopeMatches s' name ref \<Longrightarrow> s' \<noteq> s \<Longrightarrow>
           map_of (scope_values (ri_scoped_override r) s') k \<noteq> None \<Longrightarrow> scope_key s' < scope_key s"
  shows "map_of (fst (snd (forPolicy (Some r) name ref))) k = Some v"
proof -
  let ?ov = "ri_scoped_override r"
  have wf: "wf_scoped ?ov" "gm_wf ?ov" "gm_wf (ri_global_override r)"
    using assms(1) by (auto simp: wf_inputs_def wf_scoped_def)
  have "s \<in> set (matchingScopes ?ov name ref)"
    using assms(2,3) by (force simp: set_matchingScopes dest: map_of_SomeD)
  then obtain pre post where sp: "matchingScopes ?ov name ref = pre @ s # post"
    and post: "\<forall>s'\<in>set post. s' \<noteq> s \<and> scope_key s \<le> scope_key s'"
    using wf(2) by (rule scope_split)
  have "\<forall>s'\<in>set post. map_of (scope_values ?ov s') k = None"
  proof
    fix s' assume s': "s' \<in> set post"
    then have "policyScopeMatches s' name ref"
      using set_matchingScopes [of ?ov name ref] by (simp add: sp) blast
    with s' post assms(5) [of s'] show "map_of (scope_values ?ov s') k = None"
      by (metis leD)
  qed
  moreover have "map_of (scope_values ?ov s) k = Some v"
    using assms(3,4) by (simp add: scope_values_def)
  moreover have "\<not> ri_empty (Some r)"
    using assms(3) by (auto simp: ri_empty_def)
  ultimately show ?thesis
    using fold_override_last [OF wf(1,3)] by (simp add: forPolicy_def Let_def sp)
qed

section \<open>Independence of the iteration order\<close>

definition same_inputs :: "runtime_inputs \<Rightarrow> runtime_inputs \<Rightarrow> bool" where
  "same_inputs r r' = (mset (ri_global r) = mset (ri_global r') \<and>
     mset (ri_global_override r) = mset (ri_global_override r') \<and>
     mset (ri_scoped r) = mset (ri_scoped r') \<and> mset (ri_scoped_override r) = mset (ri_scoped_override r'))"

lemma scope_values_perm: "wf_scoped m \<Longrightarrow> mset m = mset m' \<Longrightarrow> scope_values m = scope_values m'"
  by (simp add: fun_eq_iff scope_values_def wf_scoped_def map_of_perm [of m m'])

lemma Merge_cong:
  assumes "gm_wf w" and "gm_wf w'" and "gm_wf rt" and "map_of w = map_of w'"
  shows "map_of (MergeRuntimeInputs w rt) = map_of (MergeRuntimeInputs w' rt)"
  using assms by (simp add: fun_eq_iff Merge_lookup gm_get_def split: option.split)

lemma Override_cong:
  assumes "gm_wf w" and "gm_wf w'" and "gm_wf ov" and "map_of w = map_of w'"
  shows "map_of (OverrideRuntimeInputs w ov) = map_of (OverrideRuntimeInputs w' ov)"
  using assms by (simp add: fun_eq_iff Override_lookup split: option.split)

lemma fold_merge_cong:
  assumes "wf_scoped scoped" and "gm_wf w" and "gm_wf w'" and "map_of w = map_of w'"
  shows "map_of (fold (\<lambda>s acc. MergeRuntimeInputs acc (scope_values scoped s)) ss w) =
         map_of (fold (\<lambda>s acc. MergeRuntimeInputs acc (scope_values scoped s)) ss w')"
  using assms(2-4)
proof (induction ss arbitrary: w w')
  case (Cons s ss)
  then show ?case
    using Merge_cong [OF Cons.prems(1,2) wf_scope_values [OF assms(1)]] by (simp add: gm_wf_Merge)
qed simp

lemma fold_override_cong:
  assumes "wf_scoped scoped" and "gm_wf w" and "gm_wf w'" and "map_of w = map_of w'"
  shows "map_of (fold (\<lambda>s acc. OverrideRuntimeInputs acc (scope_values scoped s)) ss w) =
         map_of (fold (\<lambda>s acc. OverrideRuntimeInputs acc (scope_values scoped s)) ss w')"
  using assms(2-4)
proof (induction ss arbitrary: w w')
  case (Cons s ss)
  then show ?case
    using Override_cong [OF Cons.prems(1,2) wf_scope_values [OF assms(1)]] by (simp add: gm_wf_Override)
qed simp

lemma same_inputs_empty: "same_inputs r r' \<Longrightarrow> ri_empty (Some r) = ri_empty (Some r')"
  by (auto simp: same_inputs_def ri_empty_def)

lemma forPolicy_order_independent:
  assumes "wf_inputs r" and "same_inputs r r'"
  shows "map_of (fst (forPolicy (Some r) name ref)) = map_of (fst (forPolicy (Some r') name ref)) \<and>
         map_of (fst (snd (forPolicy (Some r) name ref))) = map_of (fst (snd (forPolicy (Some r') name ref))) \<and>
         snd (snd (forPolicy (Some r) name ref)) = snd (snd (forPolicy (Some r') name ref))"
proof (cases "ri_empty (Some r)")
  case True
  then show ?thesis using same_inputs_empty [OF assms(2)] by (simp add: forPolicy_def)
next
  case False
  have wf: "wf_scoped (ri_scoped r)" "wf_scoped (ri_scoped_override r)"
    "gm_wf (ri_global r)" "gm_wf (ri_global_override r)"
    using assms(1) by (auto simp: wf_inputs_def)
  have ms: "mset (ri_scoped r) = mset (ri_scoped r')" "mset (ri_scoped_override r) = mset (ri_scoped_override r')"
    "mset (ri_global r) = mset (ri_global r')" "mset (ri_global_override r) = mset (ri_global_override r')"
    using assms(2) by (auto simp: same_inputs_def)
  note eqs = scope_values_perm [OF wf(1) ms(1)] scope_values_perm [OF wf(2) ms(2)]
    matchingScopes_perm [OF ms(1)] matchingScopes_perm [OF ms(2)]
  have "gm_wf (ri_global r')" "gm_wf (ri_global_override r')"
    using wf(3,4) gm_wf_perm [OF ms(3)] gm_wf_perm [OF ms(4)] by simp_all
  then show ?thesis
    using fold_merge_cong [OF wf(1,3) _ map_of_perm [OF wf(3) ms(3)]]
      fold_override_cong [OF wf(2,4) _ map_of_perm [OF wf(4) ms(4)]]
      False same_inputs_empty [OF assms(2)]
    by (simp add: forPolicy_def Let_def eqs)
qed

section \<open>Matched and unmatched scopes\<close>

lemma fold_markMatch:
  "set (fold markMatch ss acc) = set acc \<union> set ss"
  "distinct acc \<Longrightarrow> distinct (fold markMatch ss acc)"
  by (induction ss arbitrary: acc) (auto simp: markMatch_def)

lemma forPolicy_matched:
  "set (snd (snd (forPolicy (Some r) name ref))) =
     {s \<in> fst ` set (ri_scoped r) \<union> fst ` set (ri_scoped_override r). policyScopeMatches s name ref}"
proof (cases "ri_empty (Some r)")
  case True
  then show ?thesis by (auto simp: forPolicy_def ri_empty_def)
next
  case False
  then show ?thesis
    by (auto simp: forPolicy_def Let_def fold_markMatch set_matchingScopes)
qed

lemma tracker_unmatched_iff:
  "scope \<in> set (tracker_unmatched (Some seen) (Some r)) \<longleftrightarrow>
     scope \<in> fst ` set (ri_scoped r) \<union> fst ` set (ri_scoped_override r) \<and> scope \<notin> seen"
  by (auto simp: tracker_unmatched_def)

lemma gm_wf_forPolicy:
  assumes "wf_inputs r"
  shows "gm_wf (fst (forPolicy (Some r) name ref))" and "gm_wf (fst (snd (forPolicy (Some r) name ref)))"
  using assms
  by (auto simp: forPolicy_def Let_def wf_inputs_def intro: gm_wf_fold_merge gm_wf_fold_override)

section \<open>Properties\<close>

text \<open>
  Among the replacing inputs that are scoped to a policy, the most specific scope that sets a key
  decides its value (ties are broken by the scope text), and it wins over the global replacement.
\<close>

theorem override_precedence:
  assumes "wf_inputs r" and "policyScopeMatches s name ref"
    and "map_of (ri_scoped_override r) s = Some m" and "map_of m k = Some v"
    and "\<And>s'. policyScopeMatches s' name ref \<Longrightarrow> s' \<noteq> s \<Longrightarrow>
           map_of (scope_values (ri_scoped_override r) s') k \<noteq> None \<Longrightarrow> scope_key s' < scope_key s"
  shows "map_of (fst (snd (forPolicy (Some r) name ref))) k = Some v"
  using assms by (rule most_specific_override_wins)

definition demo_overrides :: runtime_inputs where
  "demo_overrides = \<lparr>ri_global = [], ri_scoped = [], ri_global_override = [(''level'', ''low'')],
     ri_scoped_override = [(''sbom'', [(''level'', ''mid'')]), (''acme/sbom'', [(''level'', ''high'')])]\<rparr>"

theorem override_precedence_witness:
  "map_of (fst (snd (forPolicy (Some demo_overrides) ''sbom'' ''chainloop://hub:acme/sbom''))) ''level'' = Some ''high''"
proof (rule override_precedence [where s = "''acme/sbom''" and m = "[(''level'', ''high'')]"])
  show "wf_inputs demo_overrides" by (simp add: wf_inputs_def wf_scoped_def demo_overrides_def gm_wf_def)
  show "policyScopeMatches ''acme/sbom'' ''sbom'' ''chainloop://hub:acme/sbom''" by code_simp
next
  fix s' assume "s' \<noteq> ''acme/sbom''" "map_of (scope_values (ri_scoped_override demo_overrides) s') ''level'' \<noteq> None"
  then have "s' = ''sbom''" by (auto simp: demo_overrides_def scope_values_def split: if_splits)
  moreover have "scope_key ''sbom'' < scope_key ''acme/sbom''" by code_simp
  ultimately show "scope_key s' < scope_key ''acme/sbom''" by simp
qed (simp_all add: demo_overrides_def)

text \<open>
  The inputs a policy gets do not depend on the iteration order of the Go maps: two
  representations of the same maps give the same appended values, the same replacements and the
  same list of matched scopes.
\<close>

theorem inputs_order_irrelevant:
  assumes "wf_inputs r" and "same_inputs r r'"
  shows "map_of (fst (forPolicy (Some r) name ref)) = map_of (fst (forPolicy (Some r') name ref)) \<and>
         map_of (fst (snd (forPolicy (Some r) name ref))) = map_of (fst (snd (forPolicy (Some r') name ref))) \<and>
         snd (snd (forPolicy (Some r) name ref)) = snd (snd (forPolicy (Some r') name ref))"
  using assms by (rule forPolicy_order_independent)

theorem inputs_order_irrelevant_witness:
  "snd (snd (forPolicy (Some demo_overrides) ''sbom'' ''acme/sbom'')) =
   snd (snd (forPolicy (Some (demo_overrides\<lparr>ri_scoped_override := rev (ri_scoped_override demo_overrides)\<rparr>)) ''sbom'' ''acme/sbom''))"
  by (rule conjunct2 [OF conjunct2 [OF inputs_order_irrelevant]])
    (simp_all add: wf_inputs_def wf_scoped_def same_inputs_def demo_overrides_def gm_wf_def)

end
