(* ===== verification/Contract_Types.thy ===== *)
theory Contract_Types
  imports Prelude
begin

text \<open>
  The data of a workflow contract (\<open>workflowcontract/v1/crafting_schema.proto\<close>): material kinds,
  policies and their attachments, policy groups and the crafting schema. A protobuf oneof is a
  datatype whose last constructor is the unset case, an optional scalar is an \<open>option\<close>, a map
  field is a Go map of the prelude. The generated accessors return the zero value on an unset field;
  the \<open>get_\<close> definitions below do the same.
\<close>

datatype (plugins only: code size) material_type =
    MATERIAL_TYPE_UNSPECIFIED | STRING | CONTAINER_IMAGE | ARTIFACT | SBOM_CYCLONEDX_JSON
  | SBOM_SPDX_JSON | JUNIT_XML | OPENVEX | HELM_CHART | SARIF | EVIDENCE | ATTESTATION | CSAF_VEX
  | CSAF_INFORMATIONAL_ADVISORY | CSAF_SECURITY_ADVISORY | CSAF_SECURITY_INCIDENT_RESPONSE
  | GITLAB_SECURITY_REPORT | ZAP_DAST_ZIP | BLACKDUCK_SCA_JSON | TWISTCLI_SCAN_JSON
  | GHAS_CODE_SCAN | GHAS_SECRET_SCAN | GHAS_DEPENDENCY_SCAN | JACOCO_XML | SLSA_PROVENANCE
  | CHAINLOOP_RUNNER_CONTEXT | CHAINLOOP_PR_INFO | GITLEAKS_JSON | CHAINLOOP_AI_AGENT_CONFIG
  | CHAINLOOP_AI_CODING_SESSION | OPENAPI_SPEC | ASYNCAPI_SPEC | GRAPHQL_SPEC
  | YELP_DETECT_SECRETS_BASELINE | SYSINTERNALS_SIGCHECK | SYSINTERNALS_ACCESSCHK | CERTCC_DRANZER
  | OSSF_SCORECARD_JSON | RADAMSA_REPORT | RADAMSA_CRASHES | TRUFFLEHOG_JSON | COBERTURA_XML
  | CHECKMARX_JSON | OVERSECURED_JSON | PITEST_XML | CHAINLOOP_AI_SECURITY_CONTEXT | MSBUILD_LOG

datatype match_mode = MM_UNSPECIFIED | MM_EXACT | MM_PREFIX

datatype attestation_phase = PHASE_UNSPECIFIED | PHASE_INIT | PHASE_PUSH

record policy_input =
  pi_name :: string
  pi_required :: bool
  pi_default :: string

datatype script_source = SrcPath string | SrcEmbedded string | SrcRef string | SrcNone

record policy_spec_v2 =
  v2_source :: script_source
  v2_kind :: material_type
  v2_phases :: "attestation_phase list"

text \<open>The source of the legacy spec has no \<open>ref\<close> case: only a path and an embedded body.\<close>

datatype legacy_source = LegacyPath string | LegacyEmbedded string

record policy_spec =
  ps_source :: "legacy_source option"
  ps_type :: material_type
  ps_policies :: "policy_spec_v2 list"
  ps_inputs :: "policy_input list"

record metadata =
  md_name :: string
  md_description :: string
  md_annotations :: "string gomap"
  md_finding_type :: "string option"

record policy =
  pol_metadata :: metadata
  pol_spec :: policy_spec

datatype policy_source = AttRef string | AttEmbedded policy | AttNone

record selector =
  sel_name :: string
  sel_mode :: match_mode

record policy_attachment =
  pa_policy :: policy_source
  pa_selector :: "selector option"
  pa_disabled :: bool
  pa_with :: "string gomap"
  pa_requirements :: "string list"
  pa_gate :: "bool option"

record policies =
  pols_materials :: "policy_attachment list"
  pols_attestation :: "policy_attachment list"

record group_attachment =
  ga_ref :: string
  ga_with :: "string gomap"
  ga_skip :: "string list"
  ga_gate :: "bool option"

record group_material =
  gm_type :: material_type
  gm_name :: string
  gm_optional :: bool
  gm_match_mode :: match_mode
  gm_policies :: "policy_attachment list"

record policy_group =
  pg_metadata :: metadata
  pg_materials :: "group_material list"
  pg_attestation :: "policy_attachment list"
  pg_inputs :: "policy_input list"

section \<open>The crafting schema\<close>

record contract_annotation =
  ann_name :: string
  ann_value :: string

record schema_material =
  sm_type :: material_type
  sm_name :: string
  sm_optional :: bool
  sm_output :: bool
  sm_annotations :: "contract_annotation list"
  sm_skip_upload :: bool
  sm_group :: string

text \<open>The fields the two schema versions share; \<open>runner\<close> is the name of the runner type.\<close>

record schema_spec =
  ss_materials :: "schema_material list"
  ss_env_allow_list :: "string list"
  ss_runner :: "string option"
  ss_policies :: "policies option"
  ss_policy_groups :: "group_attachment list"
  ss_annotations :: "contract_annotation list"

record crafting_schema = schema_spec +
  ss_schema_version :: string

record crafting_schema_v2 =
  v2s_name :: string
  v2s_spec :: "schema_spec option"

section \<open>Accessors with the zero value of an unset field\<close>

definition get_ref :: "policy_attachment \<Rightarrow> string" where
  "get_ref att = (case pa_policy att of AttRef r \<Rightarrow> r | _ \<Rightarrow> [])"

definition get_embedded :: "policy_attachment \<Rightarrow> policy option" where
  "get_embedded att = (case pa_policy att of AttEmbedded p \<Rightarrow> Some p | _ \<Rightarrow> None)"

definition get_selector_name :: "policy_attachment \<Rightarrow> string" where
  "get_selector_name att = (case pa_selector att of None \<Rightarrow> [] | Some s \<Rightarrow> sel_name s)"

definition get_selector_mode :: "policy_attachment \<Rightarrow> match_mode" where
  "get_selector_mode att = (case pa_selector att of None \<Rightarrow> MM_UNSPECIFIED | Some s \<Rightarrow> sel_mode s)"

definition get_finding_type :: "policy \<Rightarrow> string" where
  "get_finding_type p = (case md_finding_type (pol_metadata p) of None \<Rightarrow> [] | Some t \<Rightarrow> t)"

abbreviation policy_name :: "policy \<Rightarrow> string" where
  "policy_name p \<equiv> md_name (pol_metadata p)"

end
