(* ===== verification/Policy_Arguments.thy ===== *)
theory Policy_Arguments
  imports Runtime_Inputs Contract_Types
begin

text \<open>
  Policy arguments: template interpolation (\<open>pkg/templates\<close>), matching the arguments of an
  attachment against the inputs a policy declares (\<open>ComputeArguments\<close>) and turning the argument
  strings into the values handed to the policy engine (\<open>getInputArguments\<close>, \<open>splitArgs\<close>), from
  \<open>pkg/policies/policies.go\<close>.

  Go's \<open>text/template\<close> is the parameter \<open>tmpl\<close>: parse and execute a template, with option
  \<open>missingkey=zero\<close>, over the bindings of the \<open>inputs\<close> variable.
\<close>

section \<open>Template interpolation\<close>

type_synonym template_engine = "string \<Rightarrow> string gomap \<Rightarrow> string res"

definition re_space :: "char \<Rightarrow> bool" where
  "re_space c = (c \<in> {CHR 0x09, CHR 0x0A, CHR 0x0C, CHR 0x0D, CHR 0x20})"

text \<open>
  One match of the regular expression \<open>{{\s*(inputs.)\<close> at the front of a string: the rest after it.
  The dot of the expression is not escaped, so it stands for any rune but a line break.
\<close>

definition match_inputs :: "string \<Rightarrow> string option" where
  "match_inputs s =
     (if prefix ''{{'' s then
        let t = dropWhile re_space (drop 2 s); u = drop 6 t in
        if prefix ''inputs'' t \<and> u \<noteq> [] \<and> hd u \<noteq> CHR 0x0A then Some (drop (rune_len u) u) else None
      else None)"

lemma match_inputs_shorter: "match_inputs s = Some r \<Longrightarrow> length r < length s"
proof -
  assume "match_inputs s = Some r"
  then have "prefix ''{{'' s" and "r = drop (rune_len (drop 6 (dropWhile re_space (drop 2 s))))
      (drop 6 (dropWhile re_space (drop 2 s)))"
    by (auto simp: match_inputs_def Let_def split: if_splits)
  moreover from this(1) have "2 \<le> length s"
    by (auto simp: prefix_def)
  moreover have "length (dropWhile re_space (drop 2 s)) \<le> length (drop 2 s)"
    by (rule length_dropWhile_le)
  ultimately show ?thesis by simp
qed

function rewrite_inputs :: "string \<Rightarrow> string" where
  "rewrite_inputs s =
     (if s = [] then []
      else case match_inputs s of
        Some rest \<Rightarrow> ''{{ .inputs.'' @ rewrite_inputs rest
      | None \<Rightarrow> hd s # rewrite_inputs (tl s))"
  by pat_completeness auto
termination
  by (relation "measure length") (auto simp: match_inputs_shorter)

declare rewrite_inputs.simps [simp del]

definition ApplyBinding :: "template_engine \<Rightarrow> string \<Rightarrow> string gomap \<Rightarrow> string res" where
  "ApplyBinding tmpl input bindings =
     (if input = [] then Inr [] else tmpl (rewrite_inputs input) bindings)"

section \<open>Matching arguments against declared inputs\<close>

text \<open>One step of the loop over the declared inputs: errors, or a default stored in the result.\<close>

definition check_input ::
  "template_engine \<Rightarrow> string gomap \<Rightarrow> string gomap \<Rightarrow> policy_input \<Rightarrow> string gomap \<Rightarrow> string gomap res" where
  "check_input tmpl args bindings input result =
     (if pi_required input \<and> pi_default input \<noteq> [] then
        Inl (Errorf ''input %s can not be required and have a default at the same time'' [pi_name input])
      else
        bind_res (if gm_get args (pi_name input) \<noteq> [] then ApplyBinding tmpl (gm_get args (pi_name input)) bindings
                  else Inr [])
          (\<lambda>argValue.
             if map_of args (pi_name input) = None \<or> argValue = [] then
               (if pi_required input then Inl (Errorf ''missing required input %q'' [pi_name input])
                else if argValue = [] \<and> pi_default input \<noteq> [] then
                  bind_res (ApplyBinding tmpl (pi_default input) bindings)
                    (\<lambda>value. Inr (AList.update (pi_name input) value result))
                else Inr result)
             else Inr result))"

fun check_inputs ::
  "template_engine \<Rightarrow> string gomap \<Rightarrow> string gomap \<Rightarrow> policy_input list \<Rightarrow> string gomap \<Rightarrow> string gomap res" where
  "check_inputs tmpl args bindings [] result = Inr result"
| "check_inputs tmpl args bindings (i # is) result =
     bind_res (check_input tmpl args bindings i result) (check_inputs tmpl args bindings is)"

text \<open>The loop over the provided arguments: the declared ones are interpolated and stored.\<close>

fun store_args ::
  "template_engine \<Rightarrow> policy_input list \<Rightarrow> string gomap \<Rightarrow> string gomap \<Rightarrow> string gomap \<Rightarrow> string gomap res" where
  "store_args tmpl inputs bindings [] result = Inr result"
| "store_args tmpl inputs bindings ((k, v) # args) result =
     (if \<exists>input\<in>set inputs. pi_name input = k then
        bind_res (ApplyBinding tmpl v bindings)
          (\<lambda>value. store_args tmpl inputs bindings args (AList.update k value result))
      else store_args tmpl inputs bindings args result)"

definition ComputeArguments ::
  "template_engine \<Rightarrow> policy_input list \<Rightarrow> string gomap \<Rightarrow> string gomap \<Rightarrow> string gomap res" where
  "ComputeArguments tmpl inputs args bindings =
     (let result = (if inputs = [] then args else []) in
      bind_res (check_inputs tmpl args bindings inputs result) (store_args tmpl inputs bindings args))"

section \<open>Argument values for the engine\<close>

abbreviation comma :: char where "comma \<equiv> CHR '',''"
abbreviation backslash :: char where "backslash \<equiv> CHR 0x5C"

definition placeholder :: string where
  "placeholder = ''$=$$ESCAPED_COMMA$$=$''"

definition splitArgs :: "string \<Rightarrow> string list" where
  "splitArgs s =
     (let parts = split_char comma (replace_all [backslash, comma] placeholder s) in
      filter (\<lambda>p. p \<noteq> []) (map (\<lambda>part. trim_space (replace_all placeholder [comma] part)) parts))"

datatype arg_value = ArgString string | ArgList "string list"

definition getValue :: "string list \<Rightarrow> arg_value option" where
  "getValue values =
     (let lines = filter (\<lambda>text. text \<noteq> []) (map trim_space values) in
      case lines of [] \<Rightarrow> None | [x] \<Rightarrow> Some (ArgString x) | _ \<Rightarrow> Some (ArgList lines))"

text \<open>The segments of one argument: lines first, then the comma-separated values of each line.\<close>

definition arg_segments :: "string \<Rightarrow> string list" where
  "arg_segments v = concat (map splitArgs (split_char (CHR 0x0A) (trim_right_char (CHR 0x0A) v)))"

definition getInputArguments :: "string gomap \<Rightarrow> arg_value gomap" where
  "getInputArguments inputs =
     fold (\<lambda>(k, v) args. case getValue (arg_segments v) of
         None \<Rightarrow> args | Some value \<Rightarrow> AList.update k value args) inputs []"

text \<open>What \<open>splitArgs\<close> means, without the placeholder: cut at every comma no backslash precedes.\<close>

definition prepend_hd :: "char \<Rightarrow> string list \<Rightarrow> string list" where
  "prepend_hd c xs = (c # hd xs) # tl xs"

fun split_unescaped :: "string \<Rightarrow> string list" where
  "split_unescaped [] = [[]]"
| "split_unescaped [c] = (if c = comma then [[], []] else [[c]])"
| "split_unescaped (a # b # r) =
     (if a = backslash \<and> b = comma then prepend_hd comma (split_unescaped r)
      else if a = comma then [] # split_unescaped (b # r)
      else prepend_hd a (split_unescaped (b # r)))"

section \<open>splitArgs splits at the unescaped commas\<close>

lemma split_char_prepend:
  "c \<notin> set p \<Longrightarrow> split_char c (p @ t) = (p @ hd (split_char c t)) # tl (split_char c t)"
  by (induction p) auto

lemma split_char_hd_tl: "hd (split_char c s) # tl (split_char c s) = split_char c s"
  by simp

lemma split_unescaped_nonempty [simp]: "split_unescaped s \<noteq> []"
  by (cases s rule: split_unescaped.cases) (auto simp: prepend_hd_def)

lemma placeholder_chars: "comma \<notin> set placeholder" "placeholder \<noteq> []" "hd placeholder = CHR ''$''"
  by (simp_all add: placeholder_def)

lemma replace_placeholder_miss:
  "x \<noteq> CHR ''$'' \<Longrightarrow> replace_all placeholder new (x # s) = x # replace_all placeholder new s"
  by (rule replace_all_miss) (simp add: placeholder_def)

lemma map_replace_prepend:
  assumes "x \<noteq> CHR ''$''" and "xs \<noteq> []"
  shows "map (replace_all placeholder [comma]) ((x # hd xs) # tl xs) =
           prepend_hd x (map (replace_all placeholder [comma]) xs)"
  using assms by (cases xs) (simp_all add: prepend_hd_def replace_placeholder_miss)

lemma split_placeholder:
  assumes "CHR ''$'' \<notin> set s"
  shows "map (replace_all placeholder [comma])
           (split_char comma (replace_all [backslash, comma] placeholder s)) = split_unescaped s"
  using assms
proof (induction s rule: split_unescaped.induct)
  case 1
  show ?case by simp
next
  case (2 c)
  then show ?case by (auto simp: replace_placeholder_miss prefix_Cons)
next
  case (3 a b r)
  let ?rep = "replace_all [backslash, comma] placeholder"
  let ?unrep = "map (replace_all placeholder [comma])"
  consider (esc) "a = backslash" "b = comma" | (sep) "a = comma"
    | (other) "\<not> (a = backslash \<and> b = comma)" "a \<noteq> comma" by blast
  then show ?case
  proof cases
    case esc
    obtain y ys where ys: "split_char comma (?rep r) = y # ys"
      using split_char_nonempty by (metis neq_Nil_conv)
    have "?rep (a # b # r) = placeholder @ ?rep r"
      using replace_all_hit [of "[backslash, comma]" placeholder r] esc by simp
    then have "split_char comma (?rep (a # b # r)) = (placeholder @ y) # ys"
      by (simp add: split_char_prepend placeholder_chars ys)
    then have "?unrep (split_char comma (?rep (a # b # r))) = prepend_hd comma (?unrep (y # ys))"
      using replace_all_hit [OF placeholder_chars(2), of "[comma]" y] by (simp add: prepend_hd_def)
    with 3 esc ys show ?thesis by simp
  next
    case sep
    then have "?rep (a # b # r) = comma # ?rep (b # r)"
      by (intro replace_all_miss [THEN trans]) (auto simp: prefix_Cons)
    with 3 sep show ?thesis by simp
  next
    case other
    then have "?rep (a # b # r) = a # ?rep (b # r)"
      by (intro replace_all_miss) (auto simp: prefix_Cons)
    then have "split_char comma (?rep (a # b # r)) =
        (a # hd (split_char comma (?rep (b # r)))) # tl (split_char comma (?rep (b # r)))"
      using split_char_prepend [of comma "[a]"] other(2) by simp
    moreover have "a \<noteq> CHR ''$''" using 3 by auto
    ultimately have "?unrep (split_char comma (?rep (a # b # r))) =
        prepend_hd a (?unrep (split_char comma (?rep (b # r))))"
      by (simp only: map_replace_prepend split_char_nonempty not_False_eq_True)
    then show ?thesis using 3 other by auto
  qed
qed

lemma splitArgs_reference:
  assumes "CHR ''$'' \<notin> set s"
  shows "splitArgs s = filter (\<lambda>p. p \<noteq> []) (map trim_space (split_unescaped s))"
proof -
  have "splitArgs s = filter (\<lambda>p. p \<noteq> []) (map trim_space (map (replace_all placeholder [comma])
      (split_char comma (replace_all [backslash, comma] placeholder s))))"
    by (simp add: splitArgs_def comp_def)
  then show ?thesis by (simp only: split_placeholder [OF assms])
qed

section \<open>The values handed to the engine\<close>

lemma splitArgs_good: "p \<in> set (splitArgs s) \<Longrightarrow> p \<noteq> [] \<and> trimmed p"
  by (auto simp: splitArgs_def Let_def trim_space_trimmed)

lemma splitArgs_Nil [simp]: "splitArgs [] = []"
  by (simp add: splitArgs_def trim_space_id trimmed_def space_len_def space_len_rev_def)

lemma arg_segments_good: "p \<in> set (arg_segments v) \<Longrightarrow> p \<noteq> [] \<and> trimmed p"
  by (auto simp: arg_segments_def dest: splitArgs_good)

lemma split_char_append_sep: "split_char c (a @ c # b) = split_char c a @ split_char c b"
proof (induction a)
  case (Cons x xs)
  obtain y ys where "split_char c xs = y # ys"
    using split_char_nonempty by (metis neq_Nil_conv)
  with Cons show ?case by simp
qed simp

lemma arg_segments_untrimmed: "arg_segments v = concat (map splitArgs (split_char (CHR 0x0A) v))"
proof -
  let ?nl = "CHR 0x0A"
  have *: "concat (map splitArgs (split_char ?nl (t @ replicate n ?nl))) =
      concat (map splitArgs (split_char ?nl t))" for t n
  proof (induction n arbitrary: t)
    case (Suc n)
    show ?case
      using Suc.IH [of "[]"] split_char_append_sep [of ?nl t "replicate n ?nl"] by simp
  qed simp
  have "v = trim_right_char ?nl v @ rev (takeWhile (\<lambda>x. x = ?nl) (rev v))"
    by (metis rev_append rev_rev_ident takeWhile_dropWhile_id trim_right_char_def)
  moreover have "rev (takeWhile (\<lambda>x. x = ?nl) (rev v)) = replicate (length (takeWhile (\<lambda>x. x = ?nl) (rev v))) ?nl"
    by (rule replicate_eqI) (auto dest: set_takeWhileD)
  ultimately show ?thesis
    using * [of "trim_right_char ?nl v"] by (metis arg_segments_def)
qed

text \<open>
  Appending a value with a line break appends its segments: this is what makes the newline joining
  of \<open>MergeRuntimeInputs\<close> additive.
\<close>

lemma arg_segments_append: "arg_segments (a @ newline @ b) = arg_segments a @ arg_segments b"
  by (simp add: arg_segments_untrimmed split_char_append_sep)

lemma getValue_segments:
  "getValue (arg_segments v) = (case arg_segments v of [] \<Rightarrow> None | [x] \<Rightarrow> Some (ArgString x)
     | xs \<Rightarrow> Some (ArgList xs))"
proof -
  have "map trim_space (arg_segments v) = arg_segments v"
    by (rule map_idI) (auto dest: arg_segments_good trim_space_id)
  moreover have "filter (\<lambda>t. t \<noteq> []) (arg_segments v) = arg_segments v"
    by (rule filter_True) (auto dest: arg_segments_good)
  ultimately show ?thesis by (simp add: getValue_def split: list.split)
qed

lemma fold_update_lookup:
  assumes "gm_wf inputs"
  shows "map_of (fold (\<lambda>(k, v) args. case f v of None \<Rightarrow> args | Some x \<Rightarrow> AList.update k x args) inputs acc) k =
           (case Option.bind (map_of inputs k) f of None \<Rightarrow> map_of acc k | Some x \<Rightarrow> Some x)"
  using assms
proof (induction inputs arbitrary: acc)
  case (Cons kv inputs)
  obtain a v where kv: "kv = (a, v)" by (cases kv)
  with Cons.prems have "gm_wf inputs" and "map_of inputs a = None"
    by (auto simp: gm_wf_Cons map_of_eq_None_iff)
  with Cons.IH kv show ?case
    by (auto simp: update_conv' split: option.splits)
qed simp

lemma getInputArguments_lookup:
  assumes "gm_wf inputs"
  shows "map_of (getInputArguments inputs) k = Option.bind (map_of inputs k) (\<lambda>v. getValue (arg_segments v))"
  using fold_update_lookup [OF assms, of "\<lambda>v. getValue (arg_segments v)" "[]" k]
  by (simp add: getInputArguments_def split: option.split)

section \<open>ComputeArguments\<close>

lemma ApplyBinding_Nil [simp]: "ApplyBinding tmpl [] b = Inr []"
  by (simp add: ApplyBinding_def)

definition declared :: "policy_input list \<Rightarrow> string \<Rightarrow> bool" where
  "declared inputs k = (\<exists>input\<in>set inputs. pi_name input = k)"

text \<open>A successful second loop stores every declared argument, interpolated, and nothing else.\<close>

lemma store_args_lookup:
  assumes "store_args tmpl inputs b args result = Inr r" and "gm_wf args"
  shows "map_of r k =
     (case map_of args k of
        Some v \<Rightarrow> if declared inputs k then Some (projr (ApplyBinding tmpl v b)) else map_of result k
      | None \<Rightarrow> map_of result k)"
  using assms
proof (induction args arbitrary: result)
  case (Cons kv args)
  obtain a v where kv: "kv = (a, v)" by (cases kv)
  with Cons.prems(2) have wf: "gm_wf args" and fresh: "map_of args a = None"
    by (auto simp: gm_wf_Cons map_of_eq_None_iff)
  show ?case
  proof (cases "declared inputs a")
    case True
    with Cons.prems(1) kv obtain x where x: "ApplyBinding tmpl v b = Inr x"
      and st: "store_args tmpl inputs b args (AList.update a x result) = Inr r"
      by (auto simp: declared_def bind_res_eq_Inr)
    from Cons.IH [OF st wf] show ?thesis
      using True fresh x kv by (auto simp: update_conv' split: option.splits)
  next
    case False
    with Cons.prems(1) kv have "store_args tmpl inputs b args result = Inr r"
      by (auto simp: declared_def)
    from Cons.IH [OF this wf] show ?thesis
      using False fresh kv by (auto split: option.splits)
  qed
qed simp

lemma check_input_lookup:
  assumes "check_input tmpl args b i result = Inr r"
  shows "map_of r k =
     (if k = pi_name i \<and> pi_default i \<noteq> [] \<and>
         projr (ApplyBinding tmpl (gm_get args k) b) = [] \<and> \<not> pi_required i
      then Some (projr (ApplyBinding tmpl (pi_default i) b)) else map_of result k)"
  using assms
  by (auto simp: check_input_def res_simps update_conv' gm_get_def split: if_splits option.splits)

lemma check_input_required:
  assumes "check_input tmpl args b i result = Inr r" and "pi_required i"
  shows "\<exists>v. map_of args (pi_name i) = Some v \<and> projr (ApplyBinding tmpl v b) \<noteq> []"
  using assms by (auto simp: check_input_def res_simps gm_get_def split: if_splits option.splits)

lemma check_inputs_required:
  assumes "check_inputs tmpl args b is result = Inr r" and "i \<in> set is" and "pi_required i"
  shows "\<exists>v. map_of args (pi_name i) = Some v \<and> projr (ApplyBinding tmpl v b) \<noteq> []"
  using assms
proof (induction "is" arbitrary: result)
  case (Cons j js)
  then show ?case by (auto simp: bind_res_eq_Inr dest: check_input_required)
qed simp

lemma check_inputs_dom:
  assumes "check_inputs tmpl args b is result = Inr r" and "\<not> declared is k"
  shows "map_of r k = map_of result k"
  using assms
proof (induction "is" arbitrary: result)
  case (Cons j js)
  then obtain r1 where "check_input tmpl args b j result = Inr r1" "check_inputs tmpl args b js r1 = Inr r"
    by (auto simp: bind_res_eq_Inr)
  with Cons.IH Cons.prems(2) show ?case
    by (auto simp: check_input_lookup declared_def)
qed simp

lemma check_inputs_default:
  assumes "check_inputs tmpl args b is result = Inr r" and "distinct (map pi_name is)" and "i \<in> set is"
    and "map_of args (pi_name i) = None" and "map_of result (pi_name i) = None"
  shows "map_of r (pi_name i) =
     (if pi_default i \<noteq> [] then Some (projr (ApplyBinding tmpl (pi_default i) b)) else None)"
  using assms
proof (induction "is" arbitrary: result)
  case (Cons j js)
  then obtain r1 where r1: "check_input tmpl args b j result = Inr r1"
    and rest: "check_inputs tmpl args b js r1 = Inr r"
    by (auto simp: bind_res_eq_Inr)
  show ?case
  proof (cases "i = j")
    case True
    then have "\<not> declared js (pi_name i)"
      using Cons.prems(2) by (simp add: declared_def image_iff) metis
    moreover have "\<not> pi_required j"
      using check_input_required [OF r1] Cons.prems(4) True by auto
    ultimately show ?thesis
      using check_inputs_dom [OF rest] check_input_lookup [OF r1, of "pi_name i"] Cons.prems(4,5) True
      by (auto simp: gm_get_def)
  next
    case False
    then have mem: "i \<in> set js" and ne: "pi_name i \<noteq> pi_name j"
      using Cons.prems(2,3) by (auto simp: image_iff)
    then have "map_of r1 (pi_name i) = None"
      using check_input_lookup [OF r1, of "pi_name i"] Cons.prems(5) by simp
    with Cons.IH [OF rest _ mem Cons.prems(4)] Cons.prems(2) show ?thesis by simp
  qed
qed simp

text \<open>The whole computation, key by key.\<close>

lemma ComputeArguments_lookup:
  assumes ok: "ComputeArguments tmpl inputs args b = Inr r"
    and wf: "gm_wf args" and ne: "inputs \<noteq> []" and dist: "distinct (map pi_name inputs)"
  shows "i \<in> set inputs \<Longrightarrow> map_of r (pi_name i) =
           (case map_of args (pi_name i) of
              Some v \<Rightarrow> Some (projr (ApplyBinding tmpl v b))
            | None \<Rightarrow> if pi_default i \<noteq> [] then Some (projr (ApplyBinding tmpl (pi_default i) b)) else None)"
    and "\<not> declared inputs k \<Longrightarrow> map_of r k = None"
proof -
  from ok ne obtain d where d: "check_inputs tmpl args b inputs [] = Inr d"
    and st: "store_args tmpl inputs b args d = Inr r"
    by (auto simp: ComputeArguments_def bind_res_eq_Inr)
  show "map_of r (pi_name i) =
           (case map_of args (pi_name i) of
              Some v \<Rightarrow> Some (projr (ApplyBinding tmpl v b))
            | None \<Rightarrow> if pi_default i \<noteq> [] then Some (projr (ApplyBinding tmpl (pi_default i) b)) else None)"
    if "i \<in> set inputs"
    using store_args_lookup [OF st wf, of "pi_name i"] check_inputs_default [OF d dist that] that
    by (auto simp: declared_def split: option.splits)
  show "map_of r k = None" if "\<not> declared inputs k"
    using store_args_lookup [OF st wf, of k] check_inputs_dom [OF d that] that
    by (auto split: option.splits)
qed

lemma ComputeArguments_required:
  assumes "ComputeArguments tmpl inputs args b = Inr r" and "gm_wf args"
    and "i \<in> set inputs" and "pi_required i"
  shows "\<exists>v. map_of r (pi_name i) = Some v \<and> v \<noteq> []"
proof -
  from assms(1,3) obtain d where d: "check_inputs tmpl args b inputs [] = Inr d"
    and st: "store_args tmpl inputs b args d = Inr r"
    by (auto simp: ComputeArguments_def bind_res_eq_Inr split: if_splits)
  show ?thesis
    using check_inputs_required [OF d assms(3,4)] store_args_lookup [OF st assms(2), of "pi_name i"] assms(3)
    by (auto simp: declared_def)
qed

lemma ComputeArguments_no_inputs: "ComputeArguments tmpl [] args b = Inr args"
proof -
  have "store_args tmpl [] b as args = Inr args" for as
    by (induction as) auto
  then show ?thesis by (simp add: ComputeArguments_def)
qed

text \<open>
  An argument that is present but empty ends up empty, although the input has a default: the default
  stored by the first loop is overwritten by the second.
\<close>

lemma empty_argument_loses_default:
  "ComputeArguments (\<lambda>t _. Inr t) [\<lparr>pi_name = ''k'', pi_required = False, pi_default = ''d''\<rparr>] [(''k'', [])] [] = Inr [(''k'', [])] \<and>
   ComputeArguments (\<lambda>t _. Inr t) [\<lparr>pi_name = ''k'', pi_required = False, pi_default = ''d''\<rparr>] [] [] = Inr [(''k'', ''d'')]"
  by code_simp

section \<open>Properties\<close>


definition demo_inputs :: "policy_input list" where
  "demo_inputs = [\<lparr>pi_name = ''severity'', pi_required = True, pi_default = []\<rparr>,
                  \<lparr>pi_name = ''limit'', pi_required = False, pi_default = ''10''\<rparr>]"

definition demo_template :: template_engine where
  "demo_template text bindings = Inr text"


text \<open>
  C39. Splitting a list argument: the placeholder trick of \<open>splitArgs\<close> is the split at commas that no
  backslash escapes, with surrounding space trimmed and empty parts dropped, for every argument
  without a dollar sign.
\<close>

theorem splitArgs_splits_unescaped:
  assumes "CHR ''$'' \<notin> set s"
  shows "splitArgs s = filter (\<lambda>p. p \<noteq> []) (map trim_space (split_unescaped s))"
  using assms by (rule splitArgs_reference)

theorem splitArgs_splits_unescaped_witness:
  "splitArgs (''a, b'' @ [backslash, comma] @ ''c,,d'') = [''a'', ''b,c'', ''d'']"
proof -
  have "splitArgs (''a, b'' @ [backslash, comma] @ ''c,,d'') =
      filter (\<lambda>p. p \<noteq> []) (map trim_space (split_unescaped (''a, b'' @ [backslash, comma] @ ''c,,d'')))"
    by (rule splitArgs_splits_unescaped) simp
  also have "\<dots> = [''a'', ''b,c'', ''d'']" by code_simp
  finally show ?thesis .
qed

text \<open>
  Runtime inputs are additive: when both the contract and the command line give a value to an
  argument, the policy gets the segments of the contract followed by those of the command line.
\<close>

theorem runtime_inputs_additive:
  assumes "gm_wf w" and "gm_wf rt" and "map_of w k = Some a" and "a \<noteq> []" and "map_of rt k = Some v"
  shows "map_of (getInputArguments (MergeRuntimeInputs w rt)) k = getValue (arg_segments a @ arg_segments v)"
  using assms Merge_lookup [OF assms(1,2), of k]
  by (simp add: getInputArguments_lookup gm_wf_Merge gm_get_def arg_segments_append [simplified])

theorem runtime_inputs_additive_witness:
  "map_of (getInputArguments (MergeRuntimeInputs [(''ignored'', ''a,b'')] [(''ignored'', ''c'')])) ''ignored'' =
     Some (ArgList [''a'', ''b'', ''c''])"
proof -
  have "map_of (getInputArguments (MergeRuntimeInputs [(''ignored'', ''a,b'')] [(''ignored'', ''c'')])) ''ignored'' =
      getValue (arg_segments ''a,b'' @ arg_segments ''c'')"
    by (rule runtime_inputs_additive) (simp_all add: gm_wf_def)
  also have "\<dots> = Some (ArgList [''a'', ''b'', ''c''])" by code_simp
  finally show ?thesis .
qed

end
