(* ===== verification/Policy_Engine.thy ===== *)
theory Policy_Engine
  imports Go_Strings
begin

text \<open>
  What the policy engines share (\<open>pkg/policies/engine\<close>): the kind of a script, the options, the
  result of an evaluation, structured violations, and the typed findings attached to the violations
  of an attestation (\<open>pkg/policies/findings\<close>, \<open>engineEvaluationsToAPIViolations\<close> of
  \<open>policies.go\<close>).

  JSON marshalling and the protobuf decoding and validation of findings are third-party code: they
  are the fields of the record \<open>finding_codec\<close>.
\<close>

section \<open>The kind of a script\<close>

datatype policy_type = PolicyTypeRego | PolicyTypeWASM

definition DetectPolicyType :: "string \<Rightarrow> policy_type" where
  "DetectPolicyType source =
     (if 4 \<le> length source \<and> source ! 0 = CHR 0x00 \<and> source ! 1 = CHR 0x61 \<and>
         source ! 2 = CHR 0x73 \<and> source ! 3 = CHR 0x6D
      then PolicyTypeWASM else PolicyTypeRego)"

section \<open>Engine options\<close>

text \<open>Connections and loggers are handles; a duration is a number of nanoseconds.\<close>

record engine_options =
  eo_hostnames :: "string list"
  eo_include_raw :: bool
  eo_enable_print :: bool
  eo_conn :: "nat option"
  eo_project :: string
  eo_project_version :: string
  eo_public_only :: bool
  eo_operating_mode :: int
  eo_timeout :: int
  eo_logger :: "nat option"

type_synonym engine_option = "engine_options \<Rightarrow> engine_options"

definition BaseAllowedHostnames :: "string list" where
  "BaseAllowedHostnames = [''www.chainloop.dev'', ''www.cisa.gov'']"

definition WithAllowedHostnames :: "string list \<Rightarrow> engine_option" where
  "WithAllowedHostnames hostnames o' = o'\<lparr>eo_hostnames := eo_hostnames o' @ hostnames\<rparr>"

definition WithIncludeRawData :: "bool \<Rightarrow> engine_option" where
  "WithIncludeRawData include o' = o'\<lparr>eo_include_raw := include\<rparr>"

definition WithEnablePrint :: "bool \<Rightarrow> engine_option" where
  "WithEnablePrint enable o' = o'\<lparr>eo_enable_print := enable\<rparr>"

definition WithOperatingMode :: "int \<Rightarrow> engine_option" where
  "WithOperatingMode mode o' = o'\<lparr>eo_operating_mode := mode\<rparr>"

definition WithExecutionTimeout :: "int \<Rightarrow> engine_option" where
  "WithExecutionTimeout timeout o' = o'\<lparr>eo_timeout := timeout\<rparr>"

definition WithLogger :: "nat option \<Rightarrow> engine_option" where
  "WithLogger logger o' = o'\<lparr>eo_logger := logger\<rparr>"

definition WithGRPCConn :: "nat option \<Rightarrow> engine_option" where
  "WithGRPCConn conn o' = o'\<lparr>eo_conn := conn\<rparr>"

definition WithProjectContext :: "string \<Rightarrow> string \<Rightarrow> engine_option" where
  "WithProjectContext name version o' = o'\<lparr>eo_project := name, eo_project_version := version\<rparr>"

definition WithPublicTargetsOnly :: engine_option where
  "WithPublicTargetsOnly o' = o'\<lparr>eo_public_only := True\<rparr>"

definition ApplyOptions :: "engine_option list \<Rightarrow> engine_options" where
  "ApplyOptions opts =
     (let options = fold (\<lambda>opt o'. opt o') opts
        \<lparr>eo_hostnames = [], eo_include_raw = False, eo_enable_print = False, eo_conn = None,
         eo_project = [], eo_project_version = [], eo_public_only = False,
         eo_operating_mode = 0, eo_timeout = 0, eo_logger = None\<rparr>
      in options\<lparr>eo_hostnames := eo_hostnames options @ BaseAllowedHostnames\<rparr>)"

lemmas option_defs = WithAllowedHostnames_def WithIncludeRawData_def WithEnablePrint_def
  WithOperatingMode_def WithExecutionTimeout_def WithLogger_def WithGRPCConn_def
  WithProjectContext_def WithPublicTargetsOnly_def

section \<open>Evaluation results\<close>

text \<open>A Go \<open>any\<close> decoded from JSON; numbers keep their literal.\<close>

datatype any_val =
    VNil
  | VBool bool
  | VNumber string
  | VString string
  | VList "any_val list"
  | VMap "(string \<times> any_val) list"

record policy_violation =
  vio_subject :: string
  vio_violation :: string
  vio_raw :: "any_val gomap option"

record evaluation_result =
  er_violations :: "policy_violation list"
  er_skipped :: bool
  er_skip_reason :: string
  er_ignore :: bool
  er_raw :: "(string \<times> string) option"

definition NewStructuredViolation :: "string \<Rightarrow> any_val gomap \<Rightarrow> policy_violation res" where
  "NewStructuredViolation policyName obj =
     (case map_of obj ''message'' of
        None \<Rightarrow> Inl (Errorf ''missing required message field in structured violation'' [])
      | Some (VString msg) \<Rightarrow>
          Inr \<lparr>vio_subject = policyName, vio_violation = msg, vio_raw = Some obj\<rparr>
      | Some _ \<Rightarrow> Inl (Errorf ''message field must be a string, got %T'' []))"

definition extractSuppress :: "any_val gomap option \<Rightarrow> bool" where
  "extractSuppress raw = (case raw of
       None \<Rightarrow> False
     | Some m \<Rightarrow> (case map_of m ''suppress'' of Some (VBool b) \<Rightarrow> b | _ \<Rightarrow> False))"

section \<open>Typed findings\<close>

definition FindingTypeVulnerability :: string where "FindingTypeVulnerability = ''VULNERABILITY''"
definition FindingTypeSAST :: string where "FindingTypeSAST = ''SAST''"
definition FindingTypeLicenseViolation :: string where
  "FindingTypeLicenseViolation = ''LICENSE_VIOLATION''"

lemmas finding_type_defs = FindingTypeVulnerability_def FindingTypeSAST_def FindingTypeLicenseViolation_def

text \<open>The three protobuf messages; their contents are opaque.\<close>

datatype finding_msg =
    VulnerabilityFinding string
  | SASTFinding string
  | LicenseViolationFinding string

text \<open>The registry: a constructor per declared finding type.\<close>

definition findingTypes :: "string \<Rightarrow> (string \<Rightarrow> finding_msg) option" where
  "findingTypes t =
     (if t = FindingTypeVulnerability then Some VulnerabilityFinding
      else if t = FindingTypeSAST then Some SASTFinding
      else if t = FindingTypeLicenseViolation then Some LicenseViolationFinding
      else None)"

definition IsValidFindingType :: "string \<Rightarrow> bool" where
  "IsValidFindingType t = (findingTypes t \<noteq> None)"

record finding_codec =
  fc_marshal :: "any_val gomap \<Rightarrow> string res"
  fc_unmarshal :: "string \<Rightarrow> string \<Rightarrow> string res" \<comment> \<open>finding type, JSON; unknown fields are discarded\<close>
  fc_validate :: "finding_msg \<Rightarrow> unit res"

definition ValidateFinding :: "finding_codec \<Rightarrow> string \<Rightarrow> any_val gomap \<Rightarrow> finding_msg res" where
  "ValidateFinding fc findingType raw =
     (case findingTypes findingType of
        None \<Rightarrow> Inl (Errorf ''unknown finding type %q'' [findingType])
      | Some factory \<Rightarrow>
          bind_res (map_err (Wrapf ''marshaling raw finding to JSON: %w'' []) (fc_marshal fc raw)) (\<lambda>data.
          bind_res (map_err (Wrapf ''finding does not match %s schema: %w'' [findingType])
            (fc_unmarshal fc findingType data)) (\<lambda>payload.
          let msg = factory payload in
          bind_res (map_err (Wrapf ''finding validation failed for %s: %w'' [findingType])
            (fc_validate fc msg)) (\<lambda>_. Inr msg))))"

record api_violation =
  av_subject :: string
  av_message :: string
  av_suppress :: bool
  av_finding :: "finding_msg option"

definition SetViolationFinding :: "api_violation \<Rightarrow> string \<Rightarrow> finding_msg \<Rightarrow> api_violation res" where
  "SetViolationFinding violation findingType finding =
     (if findingType = FindingTypeVulnerability then
        (case finding of VulnerabilityFinding _ \<Rightarrow> Inr (violation\<lparr>av_finding := Some finding\<rparr>)
         | _ \<Rightarrow> Inl (Errorf ''finding is not a PolicyVulnerabilityFinding'' []))
      else if findingType = FindingTypeSAST then
        (case finding of SASTFinding _ \<Rightarrow> Inr (violation\<lparr>av_finding := Some finding\<rparr>)
         | _ \<Rightarrow> Inl (Errorf ''finding is not a PolicySASTFinding'' []))
      else if findingType = FindingTypeLicenseViolation then
        (case finding of LicenseViolationFinding _ \<Rightarrow> Inr (violation\<lparr>av_finding := Some finding\<rparr>)
         | _ \<Rightarrow> Inl (Errorf ''finding is not a PolicyLicenseViolationFinding'' []))
      else Inl (Errorf ''unknown finding type %q'' [findingType]))"

section \<open>Engine results to attestation violations\<close>

text \<open>The state of the loop: the violations so far, the warnings and the two \<open>warned\<close> flags.\<close>

record conv_state =
  cs_res :: "api_violation list"
  cs_warnings :: "string list"
  cs_warned_type :: bool
  cs_warned_data :: bool

definition warn_no_type :: string where
  "warn_no_type = ''policy returns structured violation objects but does not declare finding_type in metadata''"

definition warn_no_data :: string where
  "warn_no_data = ''policy declares finding_type but some violations are plain strings''"

definition convert_violation ::
  "finding_codec \<Rightarrow> string \<Rightarrow> policy_violation \<Rightarrow> conv_state \<Rightarrow> conv_state res" where
  "convert_violation fc findingType v s =
     (let apiV = \<lparr>av_subject = vio_subject v, av_message = vio_violation v,
                  av_suppress = extractSuppress (vio_raw v), av_finding = None\<rparr>;
          keep = s\<lparr>cs_res := cs_res s @ [apiV]\<rparr>
      in case vio_raw v of
           None \<Rightarrow>
             if findingType = [] then Inr keep
             else if cs_warned_data s then Inr keep
             else Inr (keep\<lparr>cs_warnings := cs_warnings s @ [warn_no_data], cs_warned_data := True\<rparr>)
         | Some raw \<Rightarrow>
             if findingType = [] then
               (if cs_warned_type s then Inr keep
                else Inr (keep\<lparr>cs_warnings := cs_warnings s @ [warn_no_type], cs_warned_type := True\<rparr>))
             else
               bind_res (map_err (Wrapf ''structured violation validation: %w'' [])
                 (ValidateFinding fc findingType raw)) (\<lambda>finding.
               bind_res (map_err (Wrapf ''setting violation finding: %w'' [])
                 (SetViolationFinding apiV findingType finding)) (\<lambda>apiV'.
               Inr (s\<lparr>cs_res := cs_res s @ [apiV']\<rparr>))))"

fun convert_violations ::
  "finding_codec \<Rightarrow> string \<Rightarrow> policy_violation list \<Rightarrow> conv_state \<Rightarrow> conv_state res" where
  "convert_violations fc ft [] s = Inr s"
| "convert_violations fc ft (v # vs) s = bind_res (convert_violation fc ft v s) (convert_violations fc ft vs)"

definition engineEvaluationsToAPIViolations ::
  "finding_codec \<Rightarrow> evaluation_result list \<Rightarrow> string \<Rightarrow> (api_violation list \<times> string list) res" where
  "engineEvaluationsToAPIViolations fc results findingType =
     bind_res (convert_violations fc findingType (concat (map er_violations results))
       \<lparr>cs_res = [], cs_warnings = [], cs_warned_type = False, cs_warned_data = False\<rparr>)
       (\<lambda>s. Inr (cs_res s, cs_warnings s))"

definition engineRawResultsToAPIRawResults :: "(string \<times> string) option list \<Rightarrow> (string \<times> string) list" where
  "engineRawResultsToAPIRawResults rawResults = map the (filter (\<lambda>r. r \<noteq> None) rawResults)"

section \<open>Lemmas\<close>

lemma ApplyOptions_hostnames:
  "set BaseAllowedHostnames \<subseteq> set (eo_hostnames (ApplyOptions opts))"
  by (simp add: ApplyOptions_def Let_def)

lemma ValidateFinding_kind:
  "ValidateFinding fc t raw = Inr m \<Longrightarrow> \<exists>f p. findingTypes t = Some f \<and> m = f p"
  by (auto simp: ValidateFinding_def res_simps Let_def split: option.splits)

text \<open>After validation the message has the declared type, so storing it cannot fail.\<close>

lemma SetViolationFinding_after_validate:
  "ValidateFinding fc t raw = Inr m \<Longrightarrow> SetViolationFinding a t m = Inr (a\<lparr>av_finding := Some m\<rparr>)"
  by (drule ValidateFinding_kind)
    (auto simp: findingTypes_def SetViolationFinding_def finding_type_defs split: if_splits)

definition plain_part :: "api_violation \<Rightarrow> string \<times> string \<times> bool" where
  "plain_part a = (av_subject a, av_message a, av_suppress a)"

definition violation_part :: "policy_violation \<Rightarrow> string \<times> string \<times> bool" where
  "violation_part v = (vio_subject v, vio_violation v, extractSuppress (vio_raw v))"

definition typed_finding :: "finding_codec \<Rightarrow> string \<Rightarrow> policy_violation \<Rightarrow> finding_msg option" where
  "typed_finding fc t v = (case vio_raw v of
       Some raw \<Rightarrow> if t = [] then None else Some (projr (ValidateFinding fc t raw))
     | None \<Rightarrow> None)"

lemma convert_violation_res:
  assumes "convert_violation fc t v s = Inr s'"
  shows "\<exists>a. cs_res s' = cs_res s @ [a] \<and> plain_part a = violation_part v \<and> av_finding a = typed_finding fc t v"
proof (cases "vio_raw v")
  case None
  with assms show ?thesis
    by (auto simp: convert_violation_def Let_def plain_part_def violation_part_def typed_finding_def
        split: if_splits)
next
  case (Some raw)
  show ?thesis
  proof (cases "t = []")
    case True
    with Some assms show ?thesis
      by (auto simp: convert_violation_def Let_def plain_part_def violation_part_def typed_finding_def
          split: if_splits)
  next
    case False
    with Some assms obtain m where "ValidateFinding fc t raw = Inr m"
      by (auto simp: convert_violation_def Let_def res_simps)
    with Some False assms show ?thesis
      by (auto simp: convert_violation_def Let_def res_simps SetViolationFinding_after_validate
          plain_part_def violation_part_def typed_finding_def)
  qed
qed

lemma convert_violations_res:
  "convert_violations fc t vs s = Inr s' \<Longrightarrow>
     \<exists>as. cs_res s' = cs_res s @ as \<and> map plain_part as = map violation_part vs \<and>
          map av_finding as = map (typed_finding fc t) vs"
proof (induction vs arbitrary: s)
  case (Cons v vs)
  then obtain s1 where s1: "convert_violation fc t v s = Inr s1" and "convert_violations fc t vs s1 = Inr s'"
    by (auto simp: bind_res_eq_Inr)
  with Cons.IH obtain as where "cs_res s' = cs_res s1 @ as" "map plain_part as = map violation_part vs"
    "map av_finding as = map (typed_finding fc t) vs" by blast
  moreover from convert_violation_res [OF s1] obtain a where "cs_res s1 = cs_res s @ [a]"
    "plain_part a = violation_part v" "av_finding a = typed_finding fc t v" by blast
  ultimately show ?case by (intro exI [of _ "a # as"]) simp
qed simp

lemma engineEvaluations_violations:
  assumes "engineEvaluationsToAPIViolations fc results t = Inr (as, ws)"
  shows "map plain_part as = map violation_part (concat (map er_violations results)) \<and>
         map av_finding as = map (typed_finding fc t) (concat (map er_violations results))"
  using assms convert_violations_res
  by (fastforce simp: engineEvaluationsToAPIViolations_def bind_res_eq_Inr)

text \<open>Each warning is given at most once.\<close>

definition warn_inv :: "conv_state \<Rightarrow> bool" where
  "warn_inv s = (cs_warnings s \<in> {[], [warn_no_type], [warn_no_data], [warn_no_type, warn_no_data], [warn_no_data, warn_no_type]} \<and>
     (cs_warned_type s \<longleftrightarrow> warn_no_type \<in> set (cs_warnings s)) \<and>
     (cs_warned_data s \<longleftrightarrow> warn_no_data \<in> set (cs_warnings s)))"

lemma warn_distinct: "warn_no_type \<noteq> warn_no_data"
  by (simp add: warn_no_type_def warn_no_data_def)

lemma convert_violation_warn: "warn_inv s \<Longrightarrow> convert_violation fc t v s = Inr s' \<Longrightarrow> warn_inv s'"
  using warn_distinct
  by (auto simp: convert_violation_def Let_def res_simps warn_inv_def split: if_splits option.splits)

lemma convert_violations_warn: "warn_inv s \<Longrightarrow> convert_violations fc t vs s = Inr s' \<Longrightarrow> warn_inv s'"
  by (induction vs arbitrary: s) (auto simp: bind_res_eq_Inr dest: convert_violation_warn)

end
