(* ===== verification/Base64.thy ===== *)
theory Base64
  imports Prelude
begin

text \<open>
  \<open>base64.StdEncoding\<close> of Go's standard library, which the policy evaluation uses for the sources
  it records (\<open>EncodeToString\<close>) and for scripts that may arrive encoded (\<open>DecodeString\<close>).
  Decoding ignores line breaks, requires padding, refuses anything after it and, as the standard
  encoding is not strict, ignores the unused trailing bits.
\<close>

definition b64_chr :: "nat \<Rightarrow> char" where
  "b64_chr n = char_of (if n < 26 then n + 65 else if n < 52 then n + 71
                        else if n < 62 then n - 4 else if n = 62 then 43 else 47)"

definition b64_val :: "char \<Rightarrow> nat option" where
  "b64_val c = (let n = of_char c :: nat in
     if 65 \<le> n \<and> n \<le> 90 then Some (n - 65)
     else if 97 \<le> n \<and> n \<le> 122 then Some (n - 71)
     else if 48 \<le> n \<and> n \<le> 57 then Some (n + 4)
     else if n = 43 then Some 62
     else if n = 47 then Some 63
     else None)"

fun b64_encode :: "string \<Rightarrow> string" where
  "b64_encode [] = []"
| "b64_encode [a] =
     (let x = of_char a in [b64_chr (x div 4), b64_chr (x mod 4 * 16), CHR ''='', CHR ''=''])"
| "b64_encode [a, b] =
     (let x = of_char a; y = of_char b in
      [b64_chr (x div 4), b64_chr (x mod 4 * 16 + y div 16), b64_chr (y mod 16 * 4), CHR ''=''])"
| "b64_encode (a # b # c # rest) =
     (let x = of_char a; y = of_char b; z = of_char c in
      b64_chr (x div 4) # b64_chr (x mod 4 * 16 + y div 16) #
      b64_chr (y mod 16 * 4 + z div 64) # b64_chr (z mod 64) # b64_encode rest)"

definition b64_out1 :: "nat \<Rightarrow> nat \<Rightarrow> char" where
  "b64_out1 p q = char_of (p * 4 + q div 16)"

definition b64_out2 :: "nat \<Rightarrow> nat \<Rightarrow> char" where
  "b64_out2 q r = char_of (q mod 16 * 16 + r div 4)"

definition b64_out3 :: "nat \<Rightarrow> nat \<Rightarrow> char" where
  "b64_out3 r s = char_of (r mod 4 * 64 + s)"

fun b64_quanta :: "string \<Rightarrow> string option" where
  "b64_quanta [] = Some []"
| "b64_quanta (p # q # r # s # rest) =
     (case (b64_val p, b64_val q) of
        (Some p', Some q') \<Rightarrow>
          (if s = CHR ''='' then
             (if rest \<noteq> [] then None
              else if r = CHR ''='' then Some [b64_out1 p' q']
              else map_option (\<lambda>r'. [b64_out1 p' q', b64_out2 q' r']) (b64_val r))
           else (case (b64_val r, b64_val s) of
             (Some r', Some s') \<Rightarrow>
               map_option (\<lambda>out. b64_out1 p' q' # b64_out2 q' r' # b64_out3 r' s' # out)
                 (b64_quanta rest)
           | _ \<Rightarrow> None))
      | _ \<Rightarrow> None)"
| "b64_quanta _ = None"

definition b64_decode :: "string \<Rightarrow> string option" where
  "b64_decode s = b64_quanta (filter (\<lambda>c. c \<noteq> CHR 0x0A \<and> c \<noteq> CHR 0x0D) s)"

section \<open>Decoding inverts encoding\<close>

lemma of_char_b64_chr:
  "n < 64 \<Longrightarrow> (of_char (b64_chr n) :: nat) =
     (if n < 26 then n + 65 else if n < 52 then n + 71
      else if n < 62 then n - 4 else if n = 62 then 43 else 47)"
  by (auto simp: b64_chr_def)

lemma b64_val_chr [simp]: "n < 64 \<Longrightarrow> b64_val (b64_chr n) = Some n"
  by (auto simp: b64_val_def of_char_b64_chr Let_def)

lemma b64_chr_plain:
  assumes "n < 64"
  shows "b64_chr n \<noteq> CHR ''=''" and "b64_chr n \<noteq> CHR 0x0A" and "b64_chr n \<noteq> CHR 0x0D"
proof -
  have "(of_char (b64_chr n) :: nat) \<notin> {61, 10, 13}"
    using of_char_b64_chr [OF assms] assms by auto
  then show "b64_chr n \<noteq> CHR ''=''" and "b64_chr n \<noteq> CHR 0x0A" and "b64_chr n \<noteq> CHR 0x0D"
    by auto
qed

lemma of_char_bound: "(of_char c :: nat) \<le> 255"
  using nat_of_char_less_256 [of c] by linarith

lemma b64_ranges:
  fixes a b c :: char
  shows "(of_char a :: nat) div 4 < 64"
    and "(of_char a :: nat) mod 4 * 16 < 64"
    and "(of_char a :: nat) mod 4 * 16 + of_char b div 16 < 64"
    and "(of_char b :: nat) mod 16 * 4 < 64"
    and "(of_char b :: nat) mod 16 * 4 + of_char c div 64 < 64"
    and "(of_char c :: nat) mod 64 < 64"
proof -
  have "(of_char a :: nat) mod 4 \<le> 3" "(of_char b :: nat) mod 16 \<le> 15"
    "(of_char b :: nat) div 16 \<le> 15" "(of_char c :: nat) div 64 \<le> 3"
    using of_char_bound [of b] of_char_bound [of c] by auto
  then show "(of_char a :: nat) mod 4 * 16 + of_char b div 16 < 64"
    and "(of_char b :: nat) mod 16 * 4 + of_char c div 64 < 64"
    and "(of_char a :: nat) mod 4 * 16 < 64" and "(of_char b :: nat) mod 16 * 4 < 64"
    by linarith+
  show "(of_char a :: nat) div 4 < 64" and "(of_char c :: nat) mod 64 < 64"
    using of_char_bound [of a] by auto
qed

lemma b64_out:
  fixes a b c :: char
  shows "b64_out1 (of_char a div 4) (of_char a mod 4 * 16) = a"
    and "b64_out1 (of_char a div 4) (of_char a mod 4 * 16 + of_char b div 16) = a"
    and "b64_out2 (of_char a mod 4 * 16 + of_char b div 16) (of_char b mod 16 * 4) = b"
    and "b64_out2 (of_char a mod 4 * 16 + of_char b div 16)
           (of_char b mod 16 * 4 + of_char c div 64) = b"
    and "b64_out3 (of_char b mod 16 * 4 + of_char c div 64) (of_char c mod 64) = c"
proof -
  define x y z :: nat where "x = of_char a" and "y = of_char b" and "z = of_char c"
  have yd: "y div 16 < 16" and zd: "z div 64 < 4"
    using of_char_bound [of b] of_char_bound [of c] by (auto simp: y_def z_def)
  have 1: "(x mod 4 * 16 + y div 16) div 16 = x mod 4" and 2: "(x mod 4 * 16 + y div 16) mod 16 = y div 16"
    using yd by auto
  have 3: "(y mod 16 * 4 + z div 64) div 4 = y mod 16" and 4: "(y mod 16 * 4 + z div 64) mod 4 = z div 64"
    using zd by auto
  have "b64_out1 (x div 4) (x mod 4 * 16) = char_of x"
    and "b64_out1 (x div 4) (x mod 4 * 16 + y div 16) = char_of x"
    and "b64_out2 (x mod 4 * 16 + y div 16) (y mod 16 * 4) = char_of y"
    and "b64_out2 (x mod 4 * 16 + y div 16) (y mod 16 * 4 + z div 64) = char_of y"
    and "b64_out3 (y mod 16 * 4 + z div 64) (z mod 64) = char_of z"
    using 1 2 3 4 by (simp_all add: b64_out1_def b64_out2_def b64_out3_def)
  then show "b64_out1 (of_char a div 4) (of_char a mod 4 * 16) = a"
    and "b64_out1 (of_char a div 4) (of_char a mod 4 * 16 + of_char b div 16) = a"
    and "b64_out2 (of_char a mod 4 * 16 + of_char b div 16) (of_char b mod 16 * 4) = b"
    and "b64_out2 (of_char a mod 4 * 16 + of_char b div 16)
           (of_char b mod 16 * 4 + of_char c div 64) = b"
    and "b64_out3 (of_char b mod 16 * 4 + of_char c div 64) (of_char c mod 64) = c"
    by (simp_all add: x_def y_def z_def)
qed

lemmas b64_simps = b64_ranges b64_out b64_chr_plain

lemma b64_quanta_encode: "b64_quanta (b64_encode s) = Some s"
  by (induction s rule: b64_encode.induct) (simp_all add: Let_def b64_simps)

lemma b64_encode_no_breaks: "c \<in> set (b64_encode s) \<Longrightarrow> c \<noteq> CHR 0x0A \<and> c \<noteq> CHR 0x0D"
  by (induction s rule: b64_encode.induct) (auto simp: Let_def b64_simps)

lemma b64_roundtrip: "b64_decode (b64_encode s) = Some s"
proof -
  have "filter (\<lambda>c. c \<noteq> CHR 0x0A \<and> c \<noteq> CHR 0x0D) (b64_encode s) = b64_encode s"
    by (rule filter_True) (blast dest: b64_encode_no_breaks)
  then show ?thesis by (simp add: b64_decode_def b64_quanta_encode)
qed

lemma b64_encode_inj: "b64_encode s = b64_encode t \<Longrightarrow> s = t"
  by (metis b64_roundtrip option.inject)

end
