(* ===== verification/Policy_Loader.thy ===== *)
theory Policy_Loader
  imports Policy_Refs Policy_Engine Contract_Types Base64
begin

text \<open>
  Loading policies, policy groups and policy scripts: the loaders of
  \<open>pkg/policies/loader.go\<close> and \<open>group_loader.go\<close> with the cache of
  \<open>pkg/cache/memory.go\<close> in front of the remote ones, the choice of a loader, and the resolution of
  the script references inside a policy spec (\<open>policies.go\<close>).

  The record \<open>env\<close> holds what is outside the repository: the file system, the HTTP clients, the
  control plane's RPCs, hashing, decoding and validation, the URL and path libraries and OPA's
  boilerplate injection.
\<close>

section \<open>The environment\<close>

record url =
  url_scheme :: string
  url_host :: string
  url_text :: string

datatype http_outcome = HttpFailure err | HttpResponse int "string res"

text \<open>The \<open>reference\<close> of a remote answer: its URL and its digest.\<close>

type_synonym 'v remote_answer = "'v \<times> string \<times> string"

record env =
  env_read_file :: "string \<Rightarrow> string res"             \<comment> \<open>\<open>os.ReadFile\<close> of the cleaned path\<close>
  env_http_get :: "bool \<Rightarrow> string \<Rightarrow> http_outcome"    \<comment> \<open>\<open>True\<close>: the guarded client of \<open>netguard\<close>\<close>
  env_load_blob :: "(string \<Rightarrow> http_outcome) \<Rightarrow> string \<Rightarrow> string res"  \<comment> \<open>\<open>blob.LoadFileOrURL\<close> over the default client\<close>
  env_get_policy :: "provider_ref \<Rightarrow> policy remote_answer res"
  env_get_group :: "provider_ref \<Rightarrow> policy_group remote_answer res"
  env_load_json :: "string \<Rightarrow> string \<Rightarrow> string res"   \<comment> \<open>content, file extension\<close>
  env_unmarshal_policy :: "string \<Rightarrow> policy res"
  env_unmarshal_group :: "string \<Rightarrow> policy_group res"
  env_sha256 :: "string \<Rightarrow> string"
  env_new_hash :: "string \<Rightarrow> string res"
  env_org_param :: "string \<Rightarrow> string"                 \<comment> \<open>the \<open>org\<close> query parameter, empty if none\<close>
  env_validate_policy :: "policy \<Rightarrow> unit res"
  env_validate_group :: "policy_group \<Rightarrow> unit res"
  env_url_parse :: "string \<Rightarrow> url res"
  env_url_resolve :: "url \<Rightarrow> string \<Rightarrow> url res"
  env_path_dir :: "string \<Rightarrow> string"
  env_path_join :: "string \<Rightarrow> string \<Rightarrow> string"
  env_eval_symlinks :: "string \<Rightarrow> string res"
  env_path_rel :: "string \<Rightarrow> string \<Rightarrow> string res"
  env_inject_boilerplate :: "string \<Rightarrow> string \<Rightarrow> string res"

definition ErrNotExist :: err where
  "ErrNotExist = Errorf ''file does not exist'' []"

section \<open>The cache\<close>

text \<open>The entries an in-memory cache currently holds. Expiry and eviction only remove entries.\<close>

type_synonym 'v cache = "string \<Rightarrow> 'v option"

definition cache_Get :: "'v cache \<Rightarrow> string \<Rightarrow> 'v option" where
  "cache_Get c key = c key"

definition cache_Set :: "'v cache \<Rightarrow> string \<Rightarrow> 'v \<Rightarrow> 'v cache" where
  "cache_Set c key value = c(key \<mapsto> value)"

definition cache_Delete :: "'v cache \<Rightarrow> string \<Rightarrow> 'v cache" where
  "cache_Delete c key = c(key := None)"

definition cache_Purge :: "'v cache \<Rightarrow> 'v cache" where
  "cache_Purge c = Map.empty"

lemmas cache_defs = cache_Get_def cache_Set_def cache_Delete_def cache_Purge_def

section \<open>Loaders\<close>

record descriptor =
  pd_uri :: string
  pd_name :: string
  pd_digest :: string
  pd_org :: string

definition GetURI :: "descriptor option \<Rightarrow> string" where
  "GetURI d = (case d of None \<Rightarrow> [] | Some p \<Rightarrow> pd_uri p)"

definition GetDigest :: "descriptor option \<Rightarrow> string" where
  "GetDigest d = (case d of None \<Rightarrow> [] | Some p \<Rightarrow> pd_digest p)"

definition GetOrgName :: "descriptor option \<Rightarrow> string" where
  "GetOrgName d = (case d of None \<Rightarrow> [] | Some p \<Rightarrow> pd_org p)"

definition GetName :: "descriptor option \<Rightarrow> string" where
  "GetName d = (case d of None \<Rightarrow> [] | Some p \<Rightarrow> pd_name p)"

definition policyReferenceResourceDescriptor :: "string \<Rightarrow> string \<Rightarrow> string \<Rightarrow> string \<Rightarrow> descriptor" where
  "policyReferenceResourceDescriptor policyName ref orgName digest =
     \<lparr>pd_uri = ref, pd_name = policyName, pd_digest = digest, pd_org = orgName\<rparr>"

text \<open>\<open>filepath.Ext\<close>: from the last dot of the last path element.\<close>

definition path_ext :: "string \<Rightarrow> string" where
  "path_ext s =
     (let t = takeWhile (\<lambda>c. c \<noteq> CHR ''/'') (rev s) in
      if CHR ''.'' \<in> set t then CHR ''.'' # rev (takeWhile (\<lambda>c. c \<noteq> CHR ''.'') t) else [])"

definition fetchRemote :: "env \<Rightarrow> bool \<Rightarrow> string \<Rightarrow> string res" where
  "fetchRemote e client ref =
     (case env_http_get e client ref of
        HttpFailure x \<Rightarrow> Inl (Wrapf ''requesting remote policy: %w'' [] x)
      | HttpResponse status body \<Rightarrow>
          if status < 200 \<or> 300 \<le> status
          then Inl (Errorf ''requesting remote policy: server returned HTTP %d'' [])
          else map_err (Wrapf ''reading remote policy: %w'' []) body)"

definition unmarshallResource ::
  "env \<Rightarrow> (string \<Rightarrow> 'v res) \<Rightarrow> string \<Rightarrow> string \<Rightarrow> string \<Rightarrow> ('v \<times> descriptor) res" where
  "unmarshallResource e dest raw ref digest =
     bind_res (map_err (Wrapf ''loading resource spec: %w'' []) (env_load_json e raw (path_ext ref))) (\<lambda>json.
     bind_res (map_err (Wrapf ''unmarshalling policy spec: %w'' []) (dest json)) (\<lambda>v.
     let h = env_sha256 e raw in
     if digest \<noteq> [] \<and> h \<noteq> digest
     then Inl (Errorf ''digest mismatch: got %s, want %s'' [h, digest])
     else Inr (v, policyReferenceResourceDescriptor [] ref [] h)))"

definition FileLoader_Load :: "env \<Rightarrow> string \<Rightarrow> (policy \<times> descriptor) res" where
  "FileLoader_Load e attRef =
     (let (ref, wantDigest) = ExtractDigest attRef in
      bind_res (ensureScheme ref [fileScheme]) (\<lambda>filePath.
      bind_res (map_err (Wrapf ''loading policy spec: %w'' []) (env_read_file e filePath)) (\<lambda>raw.
      map_err (Wrapf ''unmarshalling policy spec: %w'' [])
        (unmarshallResource e (env_unmarshal_policy e) raw ref wantDigest))))"

definition HTTPSLoader_Load :: "env \<Rightarrow> bool \<Rightarrow> string \<Rightarrow> (policy \<times> descriptor) res" where
  "HTTPSLoader_Load e client attRef =
     (let (ref, wantDigest) = ExtractDigest attRef in
      bind_res (map_err (Wrapf ''invalid policy reference %q: %w'' [ref])
        (ensureScheme ref [httpScheme, httpsScheme])) (\<lambda>_.
      bind_res (fetchRemote e client ref) (\<lambda>raw.
      map_err (Wrapf ''unmarshalling policy spec: %w'' [])
        (unmarshallResource e (env_unmarshal_policy e) raw ref wantDigest))))"

definition FileGroupLoader_Load :: "env \<Rightarrow> string \<Rightarrow> (policy_group \<times> descriptor) res" where
  "FileGroupLoader_Load e attRef =
     (let (ref, wantDigest) = ExtractDigest attRef in
      bind_res (ensureScheme ref [fileScheme]) (\<lambda>filePath.
      bind_res (map_err (Wrapf ''loading policy spec: %w'' []) (env_read_file e filePath)) (\<lambda>raw.
      map_err (Wrapf ''unmarshalling policy spec: %w'' [])
        (unmarshallResource e (env_unmarshal_group e) raw ref wantDigest))))"

definition HTTPSGroupLoader_Load :: "env \<Rightarrow> bool \<Rightarrow> string \<Rightarrow> (policy_group \<times> descriptor) res" where
  "HTTPSGroupLoader_Load e client attRef =
     (let (ref, wantDigest) = ExtractDigest attRef in
      bind_res (map_err (Wrapf ''invalid policy reference %q: %w'' [ref])
        (ensureScheme ref [httpScheme, httpsScheme])) (\<lambda>_.
      bind_res (fetchRemote e client ref) (\<lambda>raw.
      map_err (Wrapf ''unmarshalling policy spec: %w'' [])
        (unmarshallResource e (env_unmarshal_group e) raw ref wantDigest))))"

text \<open>
  The remote fetch inside the single flight: what is stored in the cache on success. The reference
  of the answer names the organization in its \<open>org\<close> parameter, if any.
\<close>

definition describe_answer ::
  "env \<Rightarrow> provider_ref \<Rightarrow> 'v remote_answer \<Rightarrow> ('v \<times> descriptor) res" where
  "describe_answer e providerRef answer =
     (case answer of (v, answerURL, answerDigest) \<Rightarrow>
        bind_res (map_err (Wrapf ''parsing digest: %w'' []) (env_new_hash e answerDigest)) (\<lambda>h.
        let orgParam = env_org_param e answerURL;
            orgName = (if orgParam \<noteq> [] then orgParam else pr_org providerRef)
        in Inr (v, policyReferenceResourceDescriptor (pr_name providerRef) answerURL orgName h)))"

definition fetch_policy :: "env \<Rightarrow> string \<Rightarrow> (policy \<times> descriptor) res" where
  "fetch_policy e ref =
     (if \<not> IsProviderScheme ref then Inl (Errorf ''invalid policy reference %q'' [ref])
      else
        let providerRef = ProviderParts ref in
        bind_res (map_err (Wrapf ''requesting remote policy (provider: %s, name: %s): %w''
          [pr_provider providerRef, pr_name providerRef]) (env_get_policy e providerRef))
          (describe_answer e providerRef))"

definition fetch_group :: "env \<Rightarrow> string \<Rightarrow> (policy_group \<times> descriptor) res" where
  "fetch_group e ref =
     (if \<not> IsProviderScheme ref then Inl (Errorf ''invalid group reference %q'' [ref])
      else
        let providerRef = ProviderParts ref in
        bind_res (map_err (Wrapf ''requesting remote group (provider: %s, name: %s): %w''
          [pr_provider providerRef, pr_name providerRef]) (env_get_group e providerRef))
          (describe_answer e providerRef))"

text \<open>
  The body of the single flight: the cache is checked again, and a fetched value is stored. A
  failed fetch leaves the cache alone.
\<close>

definition flight :: "(string \<Rightarrow> 'v res) \<Rightarrow> 'v cache \<Rightarrow> string \<Rightarrow> 'v res \<times> 'v cache" where
  "flight fetch c ref =
     (case cache_Get c ref of
        Some cached \<Rightarrow> (Inr cached, c)
      | None \<Rightarrow> (case fetch ref of Inl x \<Rightarrow> (Inl x, c) | Inr v \<Rightarrow> (Inr v, cache_Set c ref v)))"

definition ChainloopLoader_Load ::
  "env \<Rightarrow> (policy \<times> descriptor) cache \<Rightarrow> string \<Rightarrow> (policy \<times> descriptor) res \<times> (policy \<times> descriptor) cache" where
  "ChainloopLoader_Load e c ref =
     (case cache_Get c ref of Some cached \<Rightarrow> (Inr cached, c) | None \<Rightarrow> flight (fetch_policy e) c ref)"

definition ChainloopGroupLoader_Load ::
  "env \<Rightarrow> (policy_group \<times> descriptor) cache \<Rightarrow> string \<Rightarrow>
     (policy_group \<times> descriptor) res \<times> (policy_group \<times> descriptor) cache" where
  "ChainloopGroupLoader_Load e c ref =
     (case cache_Get c ref of Some cached \<Rightarrow> (Inr cached, c) | None \<Rightarrow> flight (fetch_group e) c ref)"

section \<open>Choosing a loader\<close>

datatype loader_kind = EmbeddedLoader | ChainloopLoader | FileLoader | HTTPSLoader

definition getLoader :: "policy_attachment \<Rightarrow> loader_kind res" where
  "getLoader att =
     (let ref = get_ref att; emb = get_embedded att in
      if emb = None \<and> ref = [] then
        Inl (Errorf ''policy must be referenced or embedded in the attachment'' [])
      else if emb \<noteq> None then Inr EmbeddedLoader
      else
        let scheme = fst (RefParts ref) in
        if scheme = chainloopScheme \<or> scheme = [] then Inr ChainloopLoader
        else if scheme = fileScheme then Inr FileLoader
        else if scheme = httpsScheme \<or> scheme = httpScheme then Inr HTTPSLoader
        else Inl (Errorf ''policy scheme not supported: %s'' [scheme]))"

definition getGroupLoader :: "group_attachment \<Rightarrow> loader_kind res" where
  "getGroupLoader att =
     (let ref = ga_ref att in
      if ref = [] then Inl (Errorf ''policy group must be referenced in the attachment'' [])
      else
        let scheme = fst (RefParts ref) in
        if scheme = chainloopScheme \<or> scheme = [] then Inr ChainloopLoader
        else if scheme = fileScheme then Inr FileLoader
        else if scheme = httpsScheme \<or> scheme = httpScheme then Inr HTTPSLoader
        else Inl (Errorf ''policy scheme not supported: %q'' [scheme]))"

type_synonym policy_cache = "(policy \<times> descriptor) cache"
type_synonym group_cache = "(policy_group \<times> descriptor) cache"

definition with_descriptor :: "('v \<times> descriptor) res \<Rightarrow> ('v \<times> descriptor option) res" where
  "with_descriptor r = (case r of Inl x \<Rightarrow> Inl x | Inr (v, d) \<Rightarrow> Inr (v, Some d))"

definition loader_Load ::
  "env \<Rightarrow> bool \<Rightarrow> loader_kind \<Rightarrow> policy_cache \<Rightarrow> policy_attachment \<Rightarrow>
     (policy \<times> descriptor option) res \<times> policy_cache" where
  "loader_Load e client k c att =
     (case k of
        EmbeddedLoader \<Rightarrow> (Inr (the (get_embedded att), None), c)
      | ChainloopLoader \<Rightarrow> (let (r, c') = ChainloopLoader_Load e c (get_ref att) in (with_descriptor r, c'))
      | FileLoader \<Rightarrow> (with_descriptor (FileLoader_Load e (get_ref att)), c)
      | HTTPSLoader \<Rightarrow> (with_descriptor (HTTPSLoader_Load e client (get_ref att)), c))"

definition validateResource :: "('v \<Rightarrow> unit res) \<Rightarrow> 'v \<Rightarrow> unit res" where
  "validateResource validate v = map_err (Wrapf ''validating policy spec: %w'' []) (validate v)"

definition loadPolicySpec ::
  "env \<Rightarrow> bool \<Rightarrow> policy_cache \<Rightarrow> policy_attachment \<Rightarrow> (policy \<times> descriptor option) res \<times> policy_cache" where
  "loadPolicySpec e client c att =
     (case getLoader att of
        Inl x \<Rightarrow> (Inl (Wrapf ''failed to get a loader for policy: %w'' [] x), c)
      | Inr k \<Rightarrow>
          (let (r, c') = loader_Load e client k c att in
           (bind_res (map_err (Wrapf ''failed to load policy spec: %w'' []) r) (\<lambda>(spec, ref).
            bind_res (validateResource (env_validate_policy e) spec) (\<lambda>_. Inr (spec, ref))), c')))"

definition group_loader_Load ::
  "env \<Rightarrow> bool \<Rightarrow> loader_kind \<Rightarrow> group_cache \<Rightarrow> group_attachment \<Rightarrow>
     (policy_group \<times> descriptor) res \<times> group_cache" where
  "group_loader_Load e client k c att =
     (case k of
        FileLoader \<Rightarrow> (FileGroupLoader_Load e (ga_ref att), c)
      | HTTPSLoader \<Rightarrow> (HTTPSGroupLoader_Load e client (ga_ref att), c)
      | _ \<Rightarrow> ChainloopGroupLoader_Load e c (ga_ref att))"

definition LoadPolicyGroup ::
  "env \<Rightarrow> bool \<Rightarrow> group_cache \<Rightarrow> group_attachment \<Rightarrow> (policy_group \<times> descriptor) res \<times> group_cache" where
  "LoadPolicyGroup e client c att =
     (case getGroupLoader att of
        Inl x \<Rightarrow> (Inl (Wrapf ''failed to get a loader for policy group: %w'' [] x), c)
      | Inr k \<Rightarrow>
          (let (r, c') = group_loader_Load e client k c att in
           (bind_res (map_err (Wrapf ''failed to load policy group: %w'' []) r) (\<lambda>(group, ref).
            bind_res (validateResource (env_validate_group e) group) (\<lambda>_. Inr (group, ref))), c')))"

section \<open>The cached loaders are transparent\<close>

text \<open>A cache agrees with a remote when every entry is what the remote would answer now.\<close>

definition consistent :: "(string \<Rightarrow> 'v res) \<Rightarrow> 'v cache \<Rightarrow> bool" where
  "consistent remote c = (\<forall>k v. c k = Some v \<longrightarrow> remote k = Inr v)"

text \<open>Entries may disappear at any time: the time to live runs out, or the cache is full.\<close>

definition forgets :: "'v cache \<Rightarrow> 'v cache \<Rightarrow> bool" where
  "forgets c c' = (\<forall>k. c' k = None \<or> c' k = c k)"

lemma consistent_forgets: "consistent remote c \<Longrightarrow> forgets c c' \<Longrightarrow> consistent remote c'"
  unfolding consistent_def forgets_def by (metis option.distinct(1))

lemma forgets_delete: "forgets c (cache_Delete c k)" and forgets_purge: "forgets c (cache_Purge c)"
  by (simp_all add: forgets_def cache_defs)

lemma consistent_empty: "consistent remote Map.empty"
  by (simp add: consistent_def)

text \<open>A run of loads, the cache losing entries before each of them.\<close>

inductive loads ::
  "('v cache \<Rightarrow> string \<Rightarrow> 'v res \<times> 'v cache) \<Rightarrow> 'v cache \<Rightarrow> string list \<Rightarrow> 'v res list \<Rightarrow> 'v cache \<Rightarrow> bool"
  for load where
  loads_Nil: "loads load c [] [] c"
| loads_Cons: "forgets c c1 \<Longrightarrow> load c1 r = (x, c2) \<Longrightarrow> loads load c2 rs xs c3 \<Longrightarrow>
     loads load c (r # rs) (x # xs) c3"

locale cached_loader =
  fixes remote :: "string \<Rightarrow> 'v res"
    and load :: "'v cache \<Rightarrow> string \<Rightarrow> 'v res \<times> 'v cache"
  assumes load_answer: "consistent remote c \<Longrightarrow> fst (load c r) = remote r"
    and load_keeps: "consistent remote c \<Longrightarrow> consistent remote (snd (load c r))"
    and load_hit: "c r = Some v \<Longrightarrow> load c r = (Inr v, c)"
    and load_stores: "fst (load c r) = Inr v \<Longrightarrow> snd (load c r) r = Some v"
begin

lemma loads_transparent:
  "loads load c rs xs c' \<Longrightarrow> consistent remote c \<Longrightarrow> xs = map remote rs \<and> consistent remote c'"
proof (induction rule: loads.induct)
  case (loads_Cons c c1 r x c2 rs xs c3)
  then have c1: "consistent remote c1" by (blast intro: consistent_forgets)
  from load_answer [OF c1, of r] load_keeps [OF c1, of r] loads_Cons show ?case by simp
qed simp

text \<open>A second load of the same reference is served from the cache and changes nothing.\<close>

lemma load_twice: "fst (load c r) = Inr v \<Longrightarrow> load (snd (load c r)) r = (Inr v, snd (load c r))"
  by (intro load_hit load_stores)

end

lemma flight_laws:
  "consistent fetch c \<Longrightarrow> fst (flight fetch c r) = fetch r"
  "consistent fetch c \<Longrightarrow> consistent fetch (snd (flight fetch c r))"
  "c r = Some v \<Longrightarrow> flight fetch c r = (Inr v, c)"
  "fst (flight fetch c r) = Inr v \<Longrightarrow> snd (flight fetch c r) r = Some v"
  by (auto simp: flight_def cache_defs consistent_def split: option.splits sum.splits)

lemma flight_miss: "c r = None \<Longrightarrow> fst (flight fetch c r) = fetch r"
  by (simp add: flight_def cache_defs split: sum.splits)

lemma ChainloopLoader_flight: "ChainloopLoader_Load e c r = flight (fetch_policy e) c r"
  by (simp add: ChainloopLoader_Load_def flight_def split: option.splits)

lemma ChainloopGroupLoader_flight: "ChainloopGroupLoader_Load e c r = flight (fetch_group e) c r"
  by (simp add: ChainloopGroupLoader_Load_def flight_def split: option.splits)

interpretation policy_loader: cached_loader "fetch_policy e" "ChainloopLoader_Load e"
  by unfold_locales (simp_all add: ChainloopLoader_flight flight_laws)

interpretation group_loader: cached_loader "fetch_group e" "ChainloopGroupLoader_Load e"
  by unfold_locales (simp_all add: ChainloopGroupLoader_flight flight_laws)

text \<open>
  The control plane changes what it answers while entries live in the cache: the environment of each load is its own.
\<close>

inductive changing_loads ::
  "('e \<Rightarrow> 'v cache \<Rightarrow> string \<Rightarrow> 'v res \<times> 'v cache) \<Rightarrow> 'v cache \<Rightarrow> ('e \<times> string) list \<Rightarrow> 'v res list \<Rightarrow> 'v cache \<Rightarrow> bool"
  for load where
  changing_Nil: "changing_loads load c [] [] c"
| changing_snoc: "changing_loads load c rs xs c1 \<Longrightarrow> forgets c1 c2 \<Longrightarrow> load e c2 r = (x, c3) \<Longrightarrow>
     changing_loads load c (rs @ [(e, r)]) (xs @ [x]) c3"

definition answered :: "('e \<Rightarrow> string \<Rightarrow> 'v res) \<Rightarrow> ('e \<times> string) list \<Rightarrow> string \<Rightarrow> 'v \<Rightarrow> bool" where
  "answered fetch rs r v \<longleftrightarrow> (\<exists>e. (e, r) \<in> set rs \<and> fetch e r = Inr v)"

lemma changing_loads_answered:
  assumes "changing_loads (\<lambda>e. flight (fetch e)) Map.empty rs xs c"
  shows "length xs = length rs \<and> (\<forall>r v. c r = Some v \<longrightarrow> answered fetch rs r v) \<and>
    (\<forall>i<length rs. case xs ! i of Inl x \<Rightarrow> fetch (fst (rs ! i)) (snd (rs ! i)) = Inl x | Inr v \<Rightarrow> answered fetch (take (Suc i) rs) (snd (rs ! i)) v)"
  using assms
proof (induction "Map.empty :: 'b cache" rs xs c rule: changing_loads.induct)
  case (changing_snoc rs xs c1 c2 e r x c3)
  then have IH: "length xs = length rs" "\<And>r v. c1 r = Some v \<Longrightarrow> answered fetch rs r v"
    and old: "\<And>i. i < length rs \<Longrightarrow> case xs ! i of Inl x \<Rightarrow> fetch (fst (rs ! i)) (snd (rs ! i)) = Inl x
      | Inr v \<Rightarrow> answered fetch (take (Suc i) rs) (snd (rs ! i)) v" by auto
  have mono: "answered fetch rs r' v \<Longrightarrow> answered fetch (rs @ [(e, r)]) r' v" for r' v by (auto simp: answered_def)
  have c2: "c2 r' = Some v \<Longrightarrow> answered fetch rs r' v" for r' v
    using IH(2) changing_snoc.hyps(3) unfolding forgets_def by (metis option.distinct(1))
  have new: "(\<forall>r' v. c3 r' = Some v \<longrightarrow> answered fetch (rs @ [(e, r)]) r' v) \<and>
      (case x of Inl y \<Rightarrow> fetch e r = Inl y | Inr v \<Rightarrow> answered fetch (rs @ [(e, r)]) r v)"
  proof (cases "c2 r")
    case None
    then show ?thesis using changing_snoc.hyps(4) c2 mono
      by (auto simp: flight_def cache_defs answered_def split: sum.splits if_splits)
  next
    case (Some v)
    then have "x = Inr v" "c3 = c2" using changing_snoc.hyps(4) by (auto simp: flight_def cache_defs)
    then show ?thesis using c2 mono Some by auto
  qed
  have "case (xs @ [x]) ! i of Inl y \<Rightarrow> fetch (fst ((rs @ [(e, r)]) ! i)) (snd ((rs @ [(e, r)]) ! i)) = Inl y
      | Inr v \<Rightarrow> answered fetch (take (Suc i) (rs @ [(e, r)])) (snd ((rs @ [(e, r)]) ! i)) v" if "i < length (rs @ [(e, r)])" for i
    using that old [of i] new IH(1) by (cases "i < length rs") (auto simp: nth_append less_Suc_eq split: sum.splits)
  then show ?case using IH(1) new by simp
qed simp

section \<open>Loading a spec does not depend on the cache\<close>

definition policy_of_ref :: "env \<Rightarrow> bool \<Rightarrow> policy_attachment \<Rightarrow> (policy \<times> descriptor option) res" where
  "policy_of_ref e client att = fst (loadPolicySpec e client Map.empty att)"

definition group_of_ref :: "env \<Rightarrow> bool \<Rightarrow> group_attachment \<Rightarrow> (policy_group \<times> descriptor) res" where
  "group_of_ref e client att = fst (LoadPolicyGroup e client Map.empty att)"

abbreviation policy_cache_ok :: "env \<Rightarrow> policy_cache \<Rightarrow> bool" where
  "policy_cache_ok e c \<equiv> consistent (fetch_policy e) c"

abbreviation group_cache_ok :: "env \<Rightarrow> group_cache \<Rightarrow> bool" where
  "group_cache_ok e c \<equiv> consistent (fetch_group e) c"

lemma loader_Load_answer:
  assumes "policy_cache_ok e c"
  shows "fst (loader_Load e client k c att) = fst (loader_Load e client k Map.empty att)"
  by (cases k)
    (simp_all add: loader_Load_def case_prod_beta policy_loader.load_answer [OF assms]
      policy_loader.load_answer [OF consistent_empty])

lemma loader_Load_keeps:
  assumes "policy_cache_ok e c"
  shows "policy_cache_ok e (snd (loader_Load e client k c att))"
  by (cases k) (simp_all add: loader_Load_def case_prod_beta assms policy_loader.load_keeps [OF assms])

lemma group_loader_Load_answer:
  assumes "group_cache_ok e c"
  shows "fst (group_loader_Load e client k c att) = fst (group_loader_Load e client k Map.empty att)"
  by (cases k)
    (simp_all add: group_loader_Load_def group_loader.load_answer [OF assms]
      group_loader.load_answer [OF consistent_empty])

lemma group_loader_Load_keeps:
  assumes "group_cache_ok e c"
  shows "group_cache_ok e (snd (group_loader_Load e client k c att))"
  by (cases k) (simp_all add: group_loader_Load_def assms group_loader.load_keeps [OF assms])

lemma loadPolicySpec_answer:
  assumes "policy_cache_ok e c"
  shows "fst (loadPolicySpec e client c att) = policy_of_ref e client att"
  using loader_Load_answer [OF assms]
  by (cases "getLoader att") (simp_all add: loadPolicySpec_def policy_of_ref_def case_prod_beta)

lemma loadPolicySpec_keeps:
  assumes "policy_cache_ok e c"
  shows "policy_cache_ok e (snd (loadPolicySpec e client c att))"
  using loader_Load_keeps [OF assms] assms
  by (cases "getLoader att") (simp_all add: loadPolicySpec_def case_prod_beta)

lemma LoadPolicyGroup_answer:
  assumes "group_cache_ok e c"
  shows "fst (LoadPolicyGroup e client c att) = group_of_ref e client att"
  using group_loader_Load_answer [OF assms]
  by (cases "getGroupLoader att") (simp_all add: LoadPolicyGroup_def group_of_ref_def case_prod_beta)

lemma LoadPolicyGroup_keeps:
  assumes "group_cache_ok e c"
  shows "group_cache_ok e (snd (LoadPolicyGroup e client c att))"
  using group_loader_Load_keeps [OF assms] assms
  by (cases "getGroupLoader att") (simp_all add: LoadPolicyGroup_def case_prod_beta)

section \<open>Digests\<close>

text \<open>A file or URL reference that pins a digest loads only content with that digest.\<close>

lemma unmarshallResource_digest:
  assumes "unmarshallResource e dest raw ref digest = Inr (v, d)"
  shows "pd_digest d = env_sha256 e raw \<and> (digest \<noteq> [] \<longrightarrow> pd_digest d = digest) \<and> pd_uri d = ref"
  using assms
  by (auto simp: unmarshallResource_def res_simps Let_def policyReferenceResourceDescriptor_def split: if_splits)

lemma pinned_digest_loaded:
  assumes "CHR ''@'' \<notin> set r" and "digest \<noteq> []"
  shows "FileLoader_Load e (r @ CHR ''@'' # digest) = Inr (p, d) \<Longrightarrow> pd_digest d = digest"
    and "HTTPSLoader_Load e client (r @ CHR ''@'' # digest) = Inr (p, d) \<Longrightarrow> pd_digest d = digest"
    and "FileGroupLoader_Load e (r @ CHR ''@'' # digest) = Inr (g, d) \<Longrightarrow> pd_digest d = digest"
    and "HTTPSGroupLoader_Load e client (r @ CHR ''@'' # digest) = Inr (g, d) \<Longrightarrow> pd_digest d = digest"
  using assms
  by (auto simp: FileLoader_Load_def HTTPSLoader_Load_def FileGroupLoader_Load_def HTTPSGroupLoader_Load_def
      ExtractDigest_digest res_simps dest: unmarshallResource_digest)

section \<open>Properties\<close>

text \<open>An environment in which every access fails, and small policies, for concrete instances.\<close>

definition offline :: err where
  "offline = Errorf ''offline'' []"

definition blank_env :: env where
  "blank_env = \<lparr>env_read_file = (\<lambda>_. Inl offline), env_http_get = (\<lambda>_ _. HttpFailure offline), env_load_blob = (\<lambda>_ _. Inl offline),
     env_get_policy = (\<lambda>_. Inl offline), env_get_group = (\<lambda>_. Inl offline), env_load_json = (\<lambda>raw _. Inr raw),
     env_unmarshal_policy = (\<lambda>_. Inl offline), env_unmarshal_group = (\<lambda>_. Inl offline), env_sha256 = (\<lambda>raw. ''sha256:'' @ raw),
     env_new_hash = Inr, env_org_param = (\<lambda>_. []), env_validate_policy = (\<lambda>_. Inr ()), env_validate_group = (\<lambda>_. Inr ()),
     env_url_parse = (\<lambda>_. Inl offline), env_url_resolve = (\<lambda>_ _. Inl offline), env_path_dir = (\<lambda>_. ''/policies''),
     env_path_join = (\<lambda>d f. d @ ''/'' @ f), env_eval_symlinks = Inr, env_path_rel = (\<lambda>d t. Inr (drop (length d + 1) t)),
     env_inject_boilerplate = (\<lambda>source _. Inr source)\<rparr>"

definition simple_policy :: "string \<Rightarrow> string \<Rightarrow> policy" where
  "simple_policy name body = \<lparr>pol_metadata = \<lparr>md_name = name, md_description = [], md_annotations = [], md_finding_type = None\<rparr>,
     pol_spec = \<lparr>ps_source = None, ps_type = MATERIAL_TYPE_UNSPECIFIED,
       ps_policies = [\<lparr>v2_source = SrcEmbedded body, v2_kind = MATERIAL_TYPE_UNSPECIFIED, v2_phases = []\<rparr>], ps_inputs = []\<rparr>\<rparr>"

definition remote_env :: env where
  "remote_env = blank_env\<lparr>env_get_policy := (\<lambda>r. Inr (simple_policy (pr_name r) ''package main'', ''https://cp/'' @ pr_name r, ''sha256:aa'')),
     env_read_file := (\<lambda>_. Inr ''spec''), env_unmarshal_policy := (\<lambda>_. Inr (simple_policy ''local'' ''package main''))\<rparr>"

text \<open>
  C25. What the cache in front of the control plane serves is authentic. Over any number of loads, with entries expiring or being
  evicted in between and the control plane changing its answers, a policy or group that is served for a reference is one the
  control plane answered for that very reference, at this load or at an earlier one; an error is always the answer of
  now; and a reference without a live entry gets the answer of now.
\<close>

theorem cached_loads_authentic:
  assumes "changing_loads ChainloopLoader_Load Map.empty rs xs c" and "changing_loads ChainloopGroupLoader_Load Map.empty gs ys d"
  shows "(\<forall>i<length rs. case xs ! i of Inl x \<Rightarrow> fetch_policy (fst (rs ! i)) (snd (rs ! i)) = Inl x
      | Inr v \<Rightarrow> answered fetch_policy (take (Suc i) rs) (snd (rs ! i)) v) \<and>
    (\<forall>i<length gs. case ys ! i of Inl x \<Rightarrow> fetch_group (fst (gs ! i)) (snd (gs ! i)) = Inl x
      | Inr v \<Rightarrow> answered fetch_group (take (Suc i) gs) (snd (gs ! i)) v) \<and>
    (c r = None \<longrightarrow> fst (ChainloopLoader_Load e c r) = fetch_policy e r) \<and> (d r = None \<longrightarrow> fst (ChainloopGroupLoader_Load e d r) = fetch_group e r)"
proof -
  have "ChainloopLoader_Load = (\<lambda>e. flight (fetch_policy e))" "ChainloopGroupLoader_Load = (\<lambda>e. flight (fetch_group e))"
    by (simp_all add: fun_eq_iff ChainloopLoader_flight ChainloopGroupLoader_flight)
  with assms have "changing_loads (\<lambda>e. flight (fetch_policy e)) Map.empty rs xs c"
      "changing_loads (\<lambda>e. flight (fetch_group e)) Map.empty gs ys d" by simp_all
  then show ?thesis using changing_loads_answered [of fetch_policy rs xs c] changing_loads_answered [of fetch_group gs ys d]
      flight_miss [of c r "fetch_policy e"] flight_miss [of d r "fetch_group e"]
    unfolding ChainloopLoader_flight ChainloopGroupLoader_flight by blast
qed

text \<open>The control plane changes its answer between two loads: the second one is served the first answer.\<close>

definition updated_env :: env where
  "updated_env = remote_env\<lparr>env_get_policy := (\<lambda>r. Inr (simple_policy (pr_name r) ''package other'', ''https://cp/'' @ pr_name r, ''sha256:bb''))\<rparr>"

theorem cached_loads_authentic_witness:
  "\<exists>answers c. changing_loads ChainloopLoader_Load Map.empty [(remote_env, ''sbom''), (updated_env, ''sbom'')] answers c \<and>
     (case answers ! 1 of Inl _ \<Rightarrow> False | Inr v \<Rightarrow> answered fetch_policy [(remote_env, ''sbom''), (updated_env, ''sbom'')] ''sbom'' v) \<and>
     answers ! 1 = fetch_policy remote_env ''sbom''"
proof -
  have "(case fetch_policy remote_env ''sbom'' of Inl _ \<Rightarrow> False | Inr _ \<Rightarrow> True)" by code_simp
  then obtain v where v: "fetch_policy remote_env ''sbom'' = Inr v" by (auto split: sum.splits)
  let ?c = "cache_Set Map.empty ''sbom'' v"
  have one: "ChainloopLoader_Load remote_env Map.empty ''sbom'' = (Inr v, ?c)"
    using v by (simp add: ChainloopLoader_flight flight_def cache_defs)
  have two: "ChainloopLoader_Load updated_env ?c ''sbom'' = (Inr v, ?c)" by (simp add: ChainloopLoader_flight flight_def cache_defs)
  have keep: "forgets c c" for c :: policy_cache by (simp add: forgets_def)
  have "changing_loads ChainloopLoader_Load Map.empty ([] @ [(remote_env, ''sbom'')]) ([] @ [Inr v]) ?c"
    by (rule changing_snoc, rule changing_Nil, rule keep, rule one)
  then have "changing_loads ChainloopLoader_Load Map.empty (([] @ [(remote_env, ''sbom'')]) @ [(updated_env, ''sbom'')]) (([] @ [Inr v]) @ [Inr v]) ?c"
    by (rule changing_snoc [where ?c1.0 = ?c and ?c2.0 = ?c], intro keep, intro two)
  then have run: "changing_loads ChainloopLoader_Load Map.empty [(remote_env, ''sbom''), (updated_env, ''sbom'')] [Inr v, Inr v] ?c" by simp
  note cached_loads_authentic [OF run changing_Nil, THEN conjunct1, rule_format, of 1]
  then have "answered fetch_policy [(remote_env, ''sbom''), (updated_env, ''sbom'')] ''sbom'' v" by simp
  then show ?thesis using v run by (intro exI [of _ "[Inr v, Inr v]"] exI [of _ ?c]) simp
qed

text \<open>
  A policy or group reference that pins a digest never loads other content: for files and for
  URLs, a successful load of \<open>ref@digest\<close> describes content with exactly that digest.
\<close>

theorem pinned_digest:
  assumes "CHR ''@'' \<notin> set r" and "digest \<noteq> []"
  shows "(FileLoader_Load e (r @ CHR ''@'' # digest) = Inr (p, d) \<longrightarrow> pd_digest d = digest) \<and>
         (HTTPSLoader_Load e client (r @ CHR ''@'' # digest) = Inr (p, d) \<longrightarrow> pd_digest d = digest) \<and>
         (FileGroupLoader_Load e (r @ CHR ''@'' # digest) = Inr (g, d) \<longrightarrow> pd_digest d = digest) \<and>
         (HTTPSGroupLoader_Load e client (r @ CHR ''@'' # digest) = Inr (g, d) \<longrightarrow> pd_digest d = digest)"
  using pinned_digest_loaded [OF assms] by blast

theorem pinned_digest_witness:
  "\<exists>p d. FileLoader_Load remote_env (''file://p.yaml'' @ CHR ''@'' # ''sha256:spec'') = Inr (p, d) \<and> pd_digest d = ''sha256:spec''"
proof -
  obtain p d where l: "FileLoader_Load remote_env (''file://p.yaml'' @ CHR ''@'' # ''sha256:spec'') = Inr (p, d)"
    by (simp add: FileLoader_Load_def ExtractDigest_def splitN2_def ensureScheme_def RefParts_def fileScheme_def remote_env_def
        blank_env_def unmarshallResource_def)
  with pinned_digest [of "''file://p.yaml''" "''sha256:spec''" remote_env p d] show ?thesis by auto
qed

end
