(* ===== verification/Policy_Scripts.thy ===== *)
theory Policy_Scripts
  imports Policy_Loader
begin

text \<open>
  The scripts of a policy (\<open>pkg/policies/policies.go\<close>): resolving a script reference against the
  location of the policy spec, loading its content, decoding WASM delivered as base64, and selecting
  the scripts that match a material kind.
\<close>

section \<open>Resolving script references\<close>

text \<open>
  \<open>filepath.IsLocal\<close> on Unix: not empty, not absolute, and walking its elements never climbs above
  the start.
\<close>

fun walk_local :: "nat \<Rightarrow> string list \<Rightarrow> bool" where
  "walk_local d [] = True"
| "walk_local d (p # ps) =
     (if p = [] \<or> p = ''.'' then walk_local d ps
      else if p = ''..'' then d \<noteq> 0 \<and> walk_local (d - 1) ps
      else walk_local (Suc d) ps)"

definition path_is_local :: "string \<Rightarrow> bool" where
  "path_is_local p = (p \<noteq> [] \<and> \<not> prefix ''/'' p \<and> walk_local 0 (split_char (CHR ''/'') p))"

definition ensureHTTPSURL :: "url \<Rightarrow> unit res" where
  "ensureHTTPSURL u =
     (if url_scheme u \<noteq> httpsScheme \<or> url_host u = []
      then Inl (Errorf ''only %s:// URLs are supported'' [httpsScheme]) else Inr ())"

definition parseHTTPSURL :: "env \<Rightarrow> string \<Rightarrow> url res" where
  "parseHTTPSURL e raw = bind_res (env_url_parse e raw) (\<lambda>u. bind_res (ensureHTTPSURL u) (\<lambda>_. Inr u))"

definition confineToDir :: "env \<Rightarrow> string \<Rightarrow> string \<Rightarrow> string res" where
  "confineToDir e dir ref =
     (let candidate = env_path_join e dir ref in
      case env_eval_symlinks e candidate of
        Inl x \<Rightarrow> if errors_is x ErrNotExist then Inr candidate else Inl x
      | Inr target \<Rightarrow>
          bind_res (env_eval_symlinks e dir) (\<lambda>realDir.
          case env_path_rel e realDir target of
            Inl _ \<Rightarrow> Inl (Errorf ''must be a path within the policy directory'' [])
          | Inr rel \<Rightarrow>
              if path_is_local rel then Inr target
              else Inl (Errorf ''must be a path within the policy directory'' [])))"

definition resolveScriptLocation :: "env \<Rightarrow> string \<Rightarrow> string \<Rightarrow> string res" where
  "resolveScriptLocation e ref basePath =
     (if ref = [] then Inl (Errorf ''empty reference'' [])
      else if fst (RefParts ref) \<noteq> [] then bind_res (parseHTTPSURL e ref) (\<lambda>_. Inr ref)
      else
        let (baseScheme, baseLoc) = RefParts basePath in
        if baseScheme = httpsScheme then
          bind_res (map_err (Wrapf ''invalid base URL: %w'' []) (parseHTTPSURL e basePath)) (\<lambda>baseURL.
          bind_res (env_url_resolve e baseURL ref) (\<lambda>resolved.
          bind_res (ensureHTTPSURL resolved) (\<lambda>_. Inr (url_text resolved))))
        else if baseScheme = fileScheme \<or> (baseScheme = [] \<and> baseLoc \<noteq> []) then
          (if \<not> path_is_local ref then
             Inl (Errorf ''must be a relative path within the policy directory'' [])
           else confineToDir e (env_path_dir e baseLoc) ref)
        else Inl (Errorf ''relative references are only supported for policies loaded from a file or an https URL'' []))"

definition errInvalidScriptRef :: string where
  "errInvalidScriptRef = ''invalid policy script reference''"

definition resolveScriptRef :: "env \<Rightarrow> string \<Rightarrow> string \<Rightarrow> string res" where
  "resolveScriptRef e ref basePath =
     map_err (Wrapf ''%w %q: %w'' [errInvalidScriptRef, ref]) (resolveScriptLocation e ref basePath)"

section \<open>Loading scripts\<close>

definition decodeIfBase64Wasm :: "string \<Rightarrow> string" where
  "decodeIfBase64Wasm content =
     (case b64_decode content of
        None \<Rightarrow> content
      | Some decoded \<Rightarrow> if DetectPolicyType decoded = PolicyTypeWASM then decoded else content)"

definition loadScriptContent :: "env \<Rightarrow> bool \<Rightarrow> string \<Rightarrow> string \<Rightarrow> string res" where
  "loadScriptContent e client ref basePath =
     bind_res (map_err (Wrapf ''resolving policy reference: %w'' []) (resolveScriptRef e ref basePath)) (\<lambda>scriptPath.
     bind_res (map_err (Wrapf ''loading policy content: %w'' [])
       (if fst (RefParts scriptPath) = httpsScheme then fetchRemote e client scriptPath
        else env_load_blob e (env_http_get e False) scriptPath)) (\<lambda>content.
     Inr (decodeIfBase64Wasm content)))"

definition loadPolicyScript :: "env \<Rightarrow> bool \<Rightarrow> policy_spec_v2 \<Rightarrow> string \<Rightarrow> string res" where
  "loadPolicyScript e client spec basePath =
     (case v2_source spec of
        SrcEmbedded body \<Rightarrow> Inr (decodeIfBase64Wasm body)
      | SrcRef ref \<Rightarrow> loadScriptContent e client ref basePath
      | SrcPath path \<Rightarrow> loadScriptContent e client path basePath
      | SrcNone \<Rightarrow> Inl (Errorf ''policy spec is empty'' []))"

definition loadLegacyPolicyScript :: "env \<Rightarrow> bool \<Rightarrow> policy_spec \<Rightarrow> string \<Rightarrow> string res" where
  "loadLegacyPolicyScript e client spec basePath =
     (case ps_source spec of
        Some (LegacyEmbedded body) \<Rightarrow> Inr (decodeIfBase64Wasm body)
      | Some (LegacyPath path) \<Rightarrow> loadScriptContent e client path basePath
      | None \<Rightarrow> Inl (Errorf ''policy spec is empty'' []))"

record script =
  scr_source :: string
  scr_name :: string

text \<open>Boilerplate is injected into Rego scripts only.\<close>

definition prepare_script :: "env \<Rightarrow> string \<Rightarrow> string res \<Rightarrow> script res" where
  "prepare_script e name loaded =
     bind_res (map_err (Wrapf ''failed to load policy script: %w'' []) loaded) (\<lambda>source.
     bind_res (if DetectPolicyType source = PolicyTypeRego
               then map_err (Wrapf ''failed to inject boilerplate: %w'' []) (env_inject_boilerplate e source name)
               else Inr source) (\<lambda>source'.
     Inr \<lparr>scr_source = source', scr_name = name\<rparr>))"

definition kind_matches :: "material_type \<Rightarrow> policy_spec_v2 \<Rightarrow> bool" where
  "kind_matches kind spec = (v2_kind spec = MATERIAL_TYPE_UNSPECIFIED \<or> v2_kind spec = kind)"

definition loadPolicyScriptsFromSpec ::
  "env \<Rightarrow> bool \<Rightarrow> policy \<Rightarrow> material_type \<Rightarrow> string \<Rightarrow> script list res" where
  "loadPolicyScriptsFromSpec e client policy kind basePath =
     (if ps_source (pol_spec policy) \<noteq> None then
        bind_res (prepare_script e (policy_name policy) (loadLegacyPolicyScript e client (pol_spec policy) basePath))
          (\<lambda>s. Inr [s])
      else
        map_res (\<lambda>spec. prepare_script e (policy_name policy) (loadPolicyScript e client spec basePath))
          (filter (kind_matches kind) (ps_policies (pol_spec policy))))"

section \<open>What a script reference may resolve to\<close>

definition https_url :: "url \<Rightarrow> bool" where
  "https_url u = (url_scheme u = httpsScheme \<and> url_host u \<noteq> [])"

lemma ensureHTTPSURL_iff [simp]: "ensureHTTPSURL u = Inr () \<longleftrightarrow> https_url u"
  by (simp add: ensureHTTPSURL_def https_url_def)

lemma parseHTTPSURL_iff: "parseHTTPSURL e raw = Inr u \<longleftrightarrow> env_url_parse e raw = Inr u \<and> https_url u"
  by (auto simp: parseHTTPSURL_def res_simps)

text \<open>
  The places a script may come from: an https URL with a host, given in full or relative to an
  https policy, or a path below the directory of a local policy, symbolic links followed.
\<close>

definition remote_location :: "env \<Rightarrow> string \<Rightarrow> string \<Rightarrow> string \<Rightarrow> bool" where
  "remote_location e ref basePath r =
     ((\<exists>u. env_url_parse e ref = Inr u \<and> https_url u \<and> r = ref) \<or>
      (\<exists>b u. env_url_parse e basePath = Inr b \<and> https_url b \<and> env_url_resolve e b ref = Inr u \<and>
             https_url u \<and> r = url_text u))"

definition confined :: "env \<Rightarrow> string \<Rightarrow> string \<Rightarrow> string \<Rightarrow> bool" where
  "confined e dir ref r =
     ((\<exists>x. env_eval_symlinks e (env_path_join e dir ref) = Inl x \<and> errors_is x ErrNotExist \<and>
           r = env_path_join e dir ref) \<or>
      (\<exists>realDir rel. env_eval_symlinks e (env_path_join e dir ref) = Inr r \<and>
           env_eval_symlinks e dir = Inr realDir \<and> env_path_rel e realDir r = Inr rel \<and> path_is_local rel))"

lemma confineToDir_confined: "confineToDir e dir ref = Inr r \<Longrightarrow> confined e dir ref r"
proof -
  assume ok: "confineToDir e dir ref = Inr r"
  show ?thesis
  proof (cases "env_eval_symlinks e (env_path_join e dir ref)")
    case (Inl x)
    with ok show ?thesis by (auto simp: confineToDir_def confined_def split: if_splits)
  next
    case (Inr target)
    with ok obtain realDir where rd: "env_eval_symlinks e dir = Inr realDir"
      by (auto simp: confineToDir_def Let_def bind_res_eq_Inr)
    with Inr ok show ?thesis
      by (cases "env_path_rel e realDir target") (auto simp: confineToDir_def confined_def split: if_splits)
  qed
qed

lemma resolveScriptLocation_safe:
  assumes "resolveScriptLocation e ref basePath = Inr r"
  shows "remote_location e ref basePath r \<or>
         (fst (RefParts ref) = [] \<and> fst (RefParts basePath) \<in> {fileScheme, []} \<and> path_is_local ref \<and>
          confined e (env_path_dir e (snd (RefParts basePath))) ref r)"
  using assms
  by (auto simp: resolveScriptLocation_def remote_location_def res_simps parseHTTPSURL_iff
      split: if_splits prod.splits dest: confineToDir_confined)

section \<open>WASM delivered as base64\<close>

lemma DetectPolicyType_wasm: "DetectPolicyType s = PolicyTypeWASM \<Longrightarrow> \<exists>t. s = CHR 0x00 # t"
  by (cases s) (auto simp: DetectPolicyType_def split: if_splits)

lemma b64_decode_not_wasm: "DetectPolicyType s = PolicyTypeWASM \<Longrightarrow> b64_decode s = None"
proof -
  assume "DetectPolicyType s = PolicyTypeWASM"
  then obtain t where s: "s = CHR 0x00 # t" using DetectPolicyType_wasm by blast
  have "b64_val (CHR 0x00) = None"
    by (simp add: b64_val_def)
  then have "b64_quanta (CHR 0x00 # u) = None" for u
    by (cases "CHR 0x00 # u" rule: b64_quanta.cases) auto
  then show ?thesis by (simp add: s b64_decode_def)
qed

lemma decodeIfBase64Wasm_cases:
  "DetectPolicyType s = PolicyTypeWASM \<Longrightarrow> decodeIfBase64Wasm s = s"
  "DetectPolicyType s = PolicyTypeWASM \<Longrightarrow> decodeIfBase64Wasm (b64_encode s) = s"
  "DetectPolicyType s = PolicyTypeRego \<Longrightarrow>
     decodeIfBase64Wasm s = s \<or> DetectPolicyType (decodeIfBase64Wasm s) = PolicyTypeWASM"
  by (auto simp: decodeIfBase64Wasm_def b64_roundtrip b64_decode_not_wasm split: option.splits)

lemma decodeIfBase64Wasm_idem: "decodeIfBase64Wasm (decodeIfBase64Wasm s) = decodeIfBase64Wasm s"
  by (metis decodeIfBase64Wasm_cases(1,3) policy_type.exhaust)

section \<open>The scripts of a policy\<close>

lemma prepare_script_name: "prepare_script e n l = Inr s \<Longrightarrow> scr_name s = n"
  by (auto simp: prepare_script_def res_simps)

lemma scripts_of_legacy:
  "ps_source (pol_spec p) \<noteq> None \<Longrightarrow> loadPolicyScriptsFromSpec e client p kind b = Inr ss \<Longrightarrow> length ss = 1"
  by (auto simp: loadPolicyScriptsFromSpec_def res_simps)

lemma scripts_of_kind:
  assumes "ps_source (pol_spec p) = None" and "loadPolicyScriptsFromSpec e client p kind b = Inr ss"
  shows "list_all2 (\<lambda>spec s. prepare_script e (policy_name p) (loadPolicyScript e client spec b) = Inr s)
           (filter (kind_matches kind) (ps_policies (pol_spec p))) ss"
  using assms by (simp add: loadPolicyScriptsFromSpec_def map_res_eq_Inr)

section \<open>Properties\<close>

text \<open>
  C33. A script reference never leaves where the policy comes from: it resolves to an https URL, or to
  a path under the directory of a policy loaded from a file, also when symbolic links are followed.
  A reference that cannot be resolved that way is an error.
\<close>

theorem script_refs_confined:
  assumes "resolveScriptLocation e ref basePath = Inr r"
  shows "remote_location e ref basePath r \<or>
         (fst (RefParts ref) = [] \<and> fst (RefParts basePath) \<in> {fileScheme, []} \<and> path_is_local ref \<and>
          confined e (env_path_dir e (snd (RefParts basePath))) ref r)"
  using assms by (rule resolveScriptLocation_safe)

theorem script_refs_confined_witness:
  "resolveScriptLocation blank_env ''check.rego'' ''file:///policies/p.yaml'' = Inr ''/policies/check.rego'' \<and>
   confined blank_env ''/policies'' ''check.rego'' ''/policies/check.rego'' \<and>
   (\<exists>x. resolveScriptLocation blank_env ''../secret'' ''file:///policies/p.yaml'' = Inl x)"
proof -
  have r: "resolveScriptLocation blank_env ''check.rego'' ''file:///policies/p.yaml'' = Inr ''/policies/check.rego''"
    by code_simp
  have no: "\<not> remote_location blank_env ''check.rego'' ''file:///policies/p.yaml'' ''/policies/check.rego''"
    by (simp add: remote_location_def blank_env_def)
  have "isl (resolveScriptLocation blank_env ''../secret'' ''file:///policies/p.yaml'')" by code_simp
  then have "\<exists>x. resolveScriptLocation blank_env ''../secret'' ''file:///policies/p.yaml'' = Inl x" by (auto simp: isl_def)
  with script_refs_confined [OF r] no r show ?thesis by (simp add: blank_env_def)
qed

text \<open>
  WASM policies may be delivered raw or as base64 and run the same: the loader decodes the text
  form of a WASM module, leaves a raw module alone, and changes a Rego source only if it decodes to a
  WASM module; decoding twice changes nothing.
\<close>

theorem wasm_delivery:
  "(DetectPolicyType s = PolicyTypeWASM \<longrightarrow> decodeIfBase64Wasm s = s \<and> decodeIfBase64Wasm (b64_encode s) = s) \<and>
   (DetectPolicyType s = PolicyTypeRego \<longrightarrow> decodeIfBase64Wasm s = s \<or> DetectPolicyType (decodeIfBase64Wasm s) = PolicyTypeWASM) \<and>
   decodeIfBase64Wasm (decodeIfBase64Wasm s) = decodeIfBase64Wasm s"
  using decodeIfBase64Wasm_cases decodeIfBase64Wasm_idem by blast

definition demo_wasm :: string where
  "demo_wasm = [CHR 0x00, CHR 0x61, CHR 0x73, CHR 0x6D, CHR 0x01, CHR 0x00, CHR 0x00, CHR 0x00]"

theorem wasm_delivery_witness: "decodeIfBase64Wasm (b64_encode demo_wasm) = demo_wasm"
proof -
  have "DetectPolicyType demo_wasm = PolicyTypeWASM" by code_simp
  with wasm_delivery [of demo_wasm] show ?thesis by simp
qed

end
