(* ===== verification/Attestation_Types.thy ===== *)
theory Attestation_Types
  imports Policy_Engine Contract_Types
begin

text \<open>
  The materials of an attestation in crafting state
  (\<open>pkg/attestation/crafter/api/attestation/v1/crafting_state.go\<close>): their normalized form, the
  in-toto descriptor rendered from them, and the content a policy is evaluated against.

  The record \<open>content_env\<close> holds the file system, the JSON codec and the parsers of the material
  formats that are not JSON.
\<close>

section \<open>Materials\<close>

record artifact =
  art_name :: string
  art_digest :: string
  art_is_subject :: bool
  art_content :: string

record container_image =
  ci_name :: string
  ci_digest :: string
  ci_is_subject :: bool
  ci_tag :: string
  ci_signature_digest :: string
  ci_signature_provider :: string
  ci_signature :: string
  ci_has_latest_tag :: bool

record main_component =
  mc_name :: string
  mc_kind :: string
  mc_version :: string

datatype material_body =
    MString string string \<comment> \<open>value, digest\<close>
  | MContainerImage container_image
  | MArtifact artifact
  | MSbomArtifact artifact "main_component option"
  | MNone

record material =
  mat_id :: string
  mat_body :: material_body
  mat_type :: material_type
  mat_uploaded :: bool
  mat_inline :: bool
  mat_annotations :: "string gomap"
  mat_output :: bool
  mat_required :: bool

definition CreateAnnotation :: "string \<Rightarrow> string" where
  "CreateAnnotation name = ''chainloop.'' @ name"

definition AnnotationMaterialType :: string where
  "AnnotationMaterialType = CreateAnnotation ''material.type''"
definition AnnotationMaterialName :: string where
  "AnnotationMaterialName = CreateAnnotation ''material.name''"
definition AnnotationMaterialSignature :: string where
  "AnnotationMaterialSignature = CreateAnnotation ''material.signature''"
definition AnnotationSignatureDigest :: string where
  "AnnotationSignatureDigest = CreateAnnotation ''material.signature.digest''"
definition AnnotationSignatureProvider :: string where
  "AnnotationSignatureProvider = CreateAnnotation ''material.signature.provider''"
definition AnnotationMaterialCAS :: string where
  "AnnotationMaterialCAS = CreateAnnotation ''material.cas''"
definition AnnotationMaterialInlineCAS :: string where
  "AnnotationMaterialInlineCAS = CreateAnnotation ''material.cas.inline''"
definition AnnotationContainerTag :: string where
  "AnnotationContainerTag = CreateAnnotation ''material.image.tag''"
definition AnnotationsContainerLatestTag :: string where
  "AnnotationsContainerLatestTag = CreateAnnotation ''material.image.is_latest_tag''"
definition AnnotationsSBOMMainComponentName :: string where
  "AnnotationsSBOMMainComponentName = CreateAnnotation ''material.sbom.main_component.name''"
definition AnnotationsSBOMMainComponentType :: string where
  "AnnotationsSBOMMainComponentType = CreateAnnotation ''material.sbom.main_component.type''"
definition AnnotationsSBOMMainComponentVersion :: string where
  "AnnotationsSBOMMainComponentVersion = CreateAnnotation ''material.sbom.main_component.version''"
definition AnnotationMaterialRedacted :: string where
  "AnnotationMaterialRedacted = CreateAnnotation ''material.redacted''"

lemmas annotation_defs = AnnotationMaterialType_def AnnotationMaterialName_def
  AnnotationMaterialSignature_def AnnotationSignatureDigest_def AnnotationSignatureProvider_def
  AnnotationMaterialCAS_def AnnotationMaterialInlineCAS_def AnnotationContainerTag_def
  AnnotationsContainerLatestTag_def AnnotationsSBOMMainComponentName_def
  AnnotationsSBOMMainComponentType_def AnnotationsSBOMMainComponentVersion_def
  AnnotationMaterialRedacted_def CreateAnnotation_def

section \<open>Normalized output and in-toto descriptor\<close>

record normalized =
  nm_name :: string
  nm_digest :: string
  nm_is_output :: bool
  nm_content :: string

definition NormalizedOutput :: "material \<Rightarrow> normalized res" where
  "NormalizedOutput m = (case mat_body m of
       MContainerImage a \<Rightarrow>
         Inr \<lparr>nm_name = ci_name a, nm_digest = ci_digest a, nm_is_output = ci_is_subject a, nm_content = []\<rparr>
     | MString value digest \<Rightarrow>
         Inr \<lparr>nm_name = [], nm_digest = digest, nm_is_output = False, nm_content = value\<rparr>
     | MArtifact a \<Rightarrow>
         Inr \<lparr>nm_name = art_name a, nm_digest = art_digest a, nm_is_output = art_is_subject a, nm_content = art_content a\<rparr>
     | MSbomArtifact a _ \<Rightarrow>
         Inr \<lparr>nm_name = art_name a, nm_digest = art_digest a, nm_is_output = art_is_subject a, nm_content = art_content a\<rparr>
     | MNone \<Rightarrow> Inl (Errorf ''unknown material: %s'' []))"

record resource_descriptor =
  rd_name :: string
  rd_digest :: "string gomap"
  rd_content :: string
  rd_annotations :: "any_val gomap"

text \<open>Setting an annotation only when the value is not the empty string.\<close>

definition put_nonempty :: "string \<Rightarrow> string \<Rightarrow> any_val gomap \<Rightarrow> any_val gomap" where
  "put_nonempty k v m = (if v \<noteq> [] then AList.update k (VString v) m else m)"

definition builtin_annotations :: "(material_type \<Rightarrow> string) \<Rightarrow> material \<Rightarrow> string \<Rightarrow> any_val gomap" where
  "builtin_annotations type_name m name =
     (let base = AList.update AnnotationMaterialName (VString name)
                   [(AnnotationMaterialType, VString (type_name (mat_type m)))]
      in case mat_body m of
           MContainerImage a \<Rightarrow>
             AList.update AnnotationsContainerLatestTag (VBool (ci_has_latest_tag a))
               (put_nonempty AnnotationMaterialSignature (ci_signature a)
                 (put_nonempty AnnotationSignatureProvider (ci_signature_provider a)
                   (put_nonempty AnnotationSignatureDigest (ci_signature_digest a)
                     (put_nonempty AnnotationContainerTag (ci_tag a) base))))
         | MSbomArtifact _ (Some c) \<Rightarrow>
             AList.update AnnotationsSBOMMainComponentVersion (VString (mc_version c))
               (AList.update AnnotationsSBOMMainComponentType (VString (mc_kind c))
                 (AList.update AnnotationsSBOMMainComponentName (VString (mc_name c)) base))
         | _ \<Rightarrow> base)"

text \<open>Custom annotations are added without overriding what is there.\<close>

definition add_custom :: "string gomap \<Rightarrow> any_val gomap \<Rightarrow> any_val gomap" where
  "add_custom custom m =
     fold (\<lambda>(k, v) acc. if map_of acc k = None then AList.update k (VString v) acc else acc) custom m"

definition cas_annotation :: "material \<Rightarrow> any_val gomap \<Rightarrow> any_val gomap" where
  "cas_annotation m a =
     (if mat_uploaded m then AList.update AnnotationMaterialCAS (VBool True) a
      else if mat_inline m then AList.update AnnotationMaterialInlineCAS (VBool True) a
      else a)"

record content_env =
  ce_read_file :: "string \<Rightarrow> string res"
  ce_type_name :: "material_type \<Rightarrow> string"
  ce_new_struct :: "any_val gomap \<Rightarrow> unit res"
  ce_extract_envelope :: "string \<Rightarrow> string res"   \<comment> \<open>of a DSSE envelope or a Sigstore bundle\<close>
  ce_decode_payload :: "string \<Rightarrow> string res"
  ce_project :: "material_type \<Rightarrow> string \<Rightarrow> string \<Rightarrow> string res" \<comment> \<open>kind, raw bytes, path\<close>
  ce_json_decode :: "string \<Rightarrow> any_val res"
  ce_json_encode :: "any_val gomap \<Rightarrow> resource_descriptor \<Rightarrow> string res" \<comment> \<open>with the descriptor under chainloop_metadata\<close>

definition CraftingStateToIntotoDescriptor :: "content_env \<Rightarrow> material \<Rightarrow> string \<Rightarrow> resource_descriptor res" where
  "CraftingStateToIntotoDescriptor ce m name =
     bind_res (map_err (Wrapf ''error normalizing material: %w'' []) (NormalizedOutput m)) (\<lambda>n.
     let parts = split_char (CHR '':'') (nm_digest n);
         name = (if name = [] then mat_id m else name);
         annotations = cas_annotation m
           (add_custom (mat_annotations m) (builtin_annotations (ce_type_name ce) m name))
     in if nm_digest n \<noteq> [] \<and> length parts < 2 then Inl (Errorf ''panic: index out of range'' [])
        else
          bind_res (map_err (Wrapf ''error creating annotations: %w'' []) (ce_new_struct ce annotations)) (\<lambda>_.
          Inr \<lparr>rd_name = (if nm_digest n \<noteq> [] then nm_name n else []),
               rd_digest = (if nm_digest n \<noteq> [] then [(parts ! 0, parts ! 1)] else []),
               rd_content = (if nm_digest n \<noteq> [] \<or> mat_type m = STRING then nm_content n else []),
               rd_annotations = annotations\<rparr>))"

section \<open>The content policies see\<close>

definition ErrRedactedContentRequired :: err where
  "ErrRedactedContentRequired = Errorf ''sanitized content is required to evaluate a redacted material'' []"

definition material_artifact :: "material \<Rightarrow> artifact option" where
  "material_artifact m = (case mat_body m of
     MArtifact a \<Rightarrow> Some a | MSbomArtifact a _ \<Rightarrow> Some a | _ \<Rightarrow> None)"

definition is_redacted :: "material \<Rightarrow> bool" where
  "is_redacted m = (gm_get (mat_annotations m) AnnotationMaterialRedacted = ''true'')"

definition raw_content :: "content_env \<Rightarrow> material \<Rightarrow> string \<Rightarrow> string \<Rightarrow> string res" where
  "raw_content ce m value content =
     (if content = [] \<and> is_redacted m then Inl ErrRedactedContentRequired
      else if content \<noteq> [] then Inr content
      else case material_artifact m of
        None \<Rightarrow> Inr []
      | Some a \<Rightarrow>
          if mat_inline m then Inr (art_content a)
          else if value = [] then Inl (Errorf ''artifact path required'' [])
          else if mat_type m \<noteq> HELM_CHART \<and> mat_type m \<noteq> JUNIT_XML \<and> mat_type m \<noteq> RADAMSA_CRASHES then
            map_err (Wrapf ''failed to read material content: %w'' []) (ce_read_file ce value)
          else Inr [])"

definition ingestMaterialToJSON :: "content_env \<Rightarrow> material \<Rightarrow> string \<Rightarrow> string \<Rightarrow> string res" where
  "ingestMaterialToJSON ce m raw value =
     (if mat_type m = RADAMSA_CRASHES then Inr ''{}''
      else if mat_type m \<in> {JUNIT_XML, RADAMSA_REPORT, TRUFFLEHOG_JSON, JACOCO_XML, COBERTURA_XML,
                             PITEST_XML, SYSINTERNALS_SIGCHECK, SYSINTERNALS_ACCESSCHK,
                             CERTCC_DRANZER, MSBUILD_LOG}
      then ce_project ce (mat_type m) raw value
      else Inr raw)"

definition input_map :: "any_val \<Rightarrow> any_val gomap" where
  "input_map v = (case v of VList xs \<Rightarrow> [(''elements'', VList xs)] | VMap m \<Rightarrow> m | _ \<Rightarrow> [])"

definition GetEvaluableContent :: "content_env \<Rightarrow> material \<Rightarrow> string \<Rightarrow> string \<Rightarrow> string res" where
  "GetEvaluableContent ce m value content =
     bind_res (raw_content ce m value content) (\<lambda>raw.
     bind_res (if mat_type m = ATTESTATION
               then bind_res (map_err (Wrapf ''failed to extract DSSE envelope: %w'' []) (ce_extract_envelope ce raw))
                 (\<lambda>envelope. map_err (Wrapf ''failed to decode attestation material: %w'' []) (ce_decode_payload ce envelope))
               else Inr raw) (\<lambda>raw.
     bind_res (ingestMaterialToJSON ce m raw value) (\<lambda>raw.
     let raw = (if raw = [] then ''{}'' else raw) in
     bind_res (map_err (Wrapf ''failed to parse input: %w'' []) (ce_json_decode ce raw)) (\<lambda>decoded.
     bind_res (map_err (Wrapf ''failed to add chainloop descriptor to material: %w'' [])
       (CraftingStateToIntotoDescriptor ce m [])) (\<lambda>descriptor.
     map_err (Wrapf ''failed to encode input: %w'' [])
       (ce_json_encode ce (AList.delete ''chainloop_metadata'' (input_map decoded)) descriptor))))))"

section \<open>Lemmas\<close>

text \<open>A redacted material is never evaluated against anything but the content supplied with it.\<close>

lemma redacted_fails_closed:
  "is_redacted m \<Longrightarrow> GetEvaluableContent ce m value [] = Inl ErrRedactedContentRequired"
  by (simp add: GetEvaluableContent_def raw_content_def)

lemma supplied_content_authoritative:
  assumes "content \<noteq> []"
  shows "GetEvaluableContent (ce\<lparr>ce_read_file := f\<rparr>) m value content = GetEvaluableContent ce m value content"
proof -
  let ?ce = "ce\<lparr>ce_read_file := f\<rparr>"
  have "raw_content ?ce m value content = raw_content ce m value content"
    using assms by (simp add: raw_content_def)
  moreover have "ingestMaterialToJSON ?ce m = ingestMaterialToJSON ce m"
    by (simp add: ingestMaterialToJSON_def fun_eq_iff)
  moreover have "CraftingStateToIntotoDescriptor ?ce m [] = CraftingStateToIntotoDescriptor ce m []"
    by (cases ce) (simp only: CraftingStateToIntotoDescriptor_def content_env.simps)
  ultimately show ?thesis
    by (cases ce) (simp only: GetEvaluableContent_def content_env.simps)
qed

lemma add_custom_keeps: "map_of m k = Some v \<Longrightarrow> map_of (add_custom custom m) k = Some v"
proof (induction custom arbitrary: m)
  case (Cons kv custom)
  obtain a b where kv: "kv = (a, b)" by (cases kv)
  let ?m' = "if map_of m a = None then AList.update a (VString b) m else m"
  have "map_of ?m' k = Some v"
    using Cons.prems by (auto simp: update_conv')
  with Cons.IH have "map_of (add_custom custom ?m') k = Some v" by blast
  then show ?case by (simp add: add_custom_def kv)
qed (simp add: add_custom_def)

lemma add_custom_new:
  assumes "gm_wf custom" and "map_of m k = None"
  shows "map_of (add_custom custom m) k = map_option VString (map_of custom k)"
  using assms
proof (induction custom arbitrary: m)
  case (Cons kv custom)
  obtain a v where kv: "kv = (a, v)" by (cases kv)
  with Cons.prems have wf: "gm_wf custom" and "map_of custom a = None"
    by (auto simp: gm_wf_Cons map_of_eq_None_iff)
  let ?m' = "if map_of m a = None then AList.update a (VString v) m else m"
  have step: "add_custom (kv # custom) m = add_custom custom ?m'"
    by (simp add: add_custom_def kv)
  show ?case
  proof (cases "k = a")
    case True
    with Cons.prems(2) have "map_of ?m' k = Some (VString v)" by (simp add: update_conv')
    then show ?thesis using True kv add_custom_keeps step by (metis map_of_Cons_code(2) option.simps(9))
  next
    case False
    with Cons.prems(2) have "map_of ?m' k = None" by (simp add: update_conv')
    with Cons.IH [OF wf] False kv step show ?thesis by simp
  qed
qed (simp add: add_custom_def)

lemma cas_annotation_other:
  "k \<noteq> AnnotationMaterialCAS \<Longrightarrow> k \<noteq> AnnotationMaterialInlineCAS \<Longrightarrow>
     map_of (cas_annotation m a) k = map_of a k"
  by (simp add: cas_annotation_def update_conv')

text \<open>The annotations the crafter sets itself cannot be overridden by those of the material.\<close>

lemma builtin_annotations_win:
  assumes "CraftingStateToIntotoDescriptor ce m name = Inr d"
    and "map_of (builtin_annotations (ce_type_name ce) m (if name = [] then mat_id m else name)) k = Some v"
    and "k \<noteq> AnnotationMaterialCAS" and "k \<noteq> AnnotationMaterialInlineCAS"
  shows "map_of (rd_annotations d) k = Some v"
  using assms
  by (auto simp: CraftingStateToIntotoDescriptor_def res_simps Let_def cas_annotation_other
      intro: add_custom_keeps split: if_splits)

lemma builtin_type_name:
  "map_of (builtin_annotations tn m n) AnnotationMaterialType = Some (VString (tn (mat_type m)))"
  "map_of (builtin_annotations tn m n) AnnotationMaterialName = Some (VString n)"
  by (auto simp: builtin_annotations_def Let_def put_nonempty_def update_conv' annotation_defs
      split: material_body.split option.split)

section \<open>Properties\<close>

text \<open>
  The content of a redacted material is never read from disk for a policy: with no content
  supplied the evaluation fails closed, and with content supplied the file system plays no role.
\<close>

theorem redacted_material_closed:
  assumes "is_redacted m"
  shows "GetEvaluableContent ce m value [] = Inl ErrRedactedContentRequired \<and>
         (\<forall>f content. GetEvaluableContent (ce\<lparr>ce_read_file := f\<rparr>) m value content = GetEvaluableContent ce m value content)"
  using redacted_fails_closed [OF assms] supplied_content_authoritative by metis

text \<open>
  Annotations given by the user cannot forge the built-in ones: whatever annotations a material
  carries, the rendered descriptor has the name, the kind and the other built-in values computed from
  the material (the two storage flags are set from the material too, after the others).
\<close>

theorem builtin_annotations_unforgeable:
  assumes "CraftingStateToIntotoDescriptor ce m name = Inr d"
    and "map_of (builtin_annotations (ce_type_name ce) m (if name = [] then mat_id m else name)) k = Some v"
    and "k \<noteq> AnnotationMaterialCAS" and "k \<noteq> AnnotationMaterialInlineCAS"
  shows "map_of (rd_annotations d) k = Some v"
  using assms by (rule builtin_annotations_win)

end
