(* ===== verification/Err_Group.thy ===== *)
theory Err_Group
  imports Prelude
begin

text \<open>
  The concurrency of the verifiers: \<open>errgroup.WithContext\<close> with one goroutine per task, each
  writing its own slot of a result slice, and \<open>Wait\<close>, which returns the first error reported.
  \<open>errgroup\<close> is a package of golang.org/x/sync; this is its documented behaviour. The loop of the
  caller starts the goroutines in index order, and \<open>SetLimit\<close> makes \<open>Go\<close> wait while the number of
  goroutines that run has reached the limit (a negative limit is no limit, a limit of zero lets
  none start). A goroutine ends in one step; which one is up to the scheduler. The tasks share a
  state, the caches and the scope tracker, which a goroutine reads and updates when it ends; the
  results are shown not to depend on that state. Once an error is reported the context is cancelled
  and the goroutines that run may also end without doing their work.
\<close>

section \<open>Steps of a group\<close>

record ('a, 's) group_state =
  gs_pending :: "nat list"
  gs_started :: nat
  gs_slots :: "'a option list"
  gs_err :: "err option"
  gs_shared :: 's

type_synonym ('a, 's) task = "nat \<Rightarrow> 's \<Rightarrow> 'a option res \<times> 's"

definition group_init :: "nat \<Rightarrow> 's \<Rightarrow> ('a, 's) group_state" where
  "group_init n s = \<lparr>gs_pending = [0..<n], gs_started = 0, gs_slots = replicate n None, gs_err = None, gs_shared = s\<rparr>"

definition report :: "err \<Rightarrow> err option \<Rightarrow> err option" where
  "report x first = (case first of None \<Rightarrow> Some x | Some y \<Rightarrow> Some y)"

text \<open>Task \<open>i\<close> runs to its end.\<close>

definition finish :: "('a, 's) task \<Rightarrow> nat \<Rightarrow> ('a, 's) group_state \<Rightarrow> ('a, 's) group_state" where
  "finish task i g =
     (case task i (gs_shared g) of
        (Inl x, s') \<Rightarrow> g\<lparr>gs_pending := removeAll i (gs_pending g), gs_err := report x (gs_err g), gs_shared := s'\<rparr>
      | (Inr a, s') \<Rightarrow> g\<lparr>gs_pending := removeAll i (gs_pending g), gs_slots := (gs_slots g)[i := a], gs_shared := s'\<rparr>)"

text \<open>The goroutines that run: started by \<open>Go\<close> and not over yet.\<close>

definition running :: "('a, 's) group_state \<Rightarrow> nat list" where
  "running g = filter (\<lambda>i. i < gs_started g) (gs_pending g)"

text \<open>\<open>Go\<close> returns only when the limit leaves room for one more goroutine.\<close>

definition may_start :: "int \<Rightarrow> ('a, 's) group_state \<Rightarrow> bool" where
  "may_start limit g = (limit < 0 \<or> int (length (running g)) < limit)"

inductive group_step :: "int \<Rightarrow> ('a, 's) task \<Rightarrow> ('a, 's) group_state \<Rightarrow> ('a, 's) group_state \<Rightarrow> bool" for limit task where
  starts: "gs_started g < length (gs_slots g) \<Longrightarrow> may_start limit g \<Longrightarrow>
     group_step limit task g (g\<lparr>gs_started := Suc (gs_started g)\<rparr>)"
| finishes: "i \<in> set (running g) \<Longrightarrow> group_step limit task g (finish task i g)"
| cancelled: "i \<in> set (running g) \<Longrightarrow> gs_err g \<noteq> None \<Longrightarrow>
     group_step limit task g (g\<lparr>gs_pending := removeAll i (gs_pending g)\<rparr>)"

inductive_cases group_stepE: "group_step limit task g g'"

inductive group_steps :: "int \<Rightarrow> ('a, 's) task \<Rightarrow> ('a, 's) group_state \<Rightarrow> ('a, 's) group_state \<Rightarrow> bool" for limit task where
  steps_refl: "group_steps limit task g g"
| steps_step: "group_steps limit task g g' \<Longrightarrow> group_step limit task g' g'' \<Longrightarrow> group_steps limit task g g''"

text \<open>\<open>Wait\<close> returns when no goroutine is left.\<close>

definition group_wait :: "('a, 's) group_state \<Rightarrow> 'a option list res" where
  "group_wait g = (case gs_err g of Some x \<Rightarrow> Inl x | None \<Rightarrow> Inr (gs_slots g))"

text \<open>
  A run in the order of a given schedule; this is what the verifiers execute. The schedule is any
  order of the tasks. A limit only takes orders away: the order in which the goroutines end under a
  limit is one of them, and so what holds of every schedule holds of the runs under any limit.
\<close>

definition run_group :: "nat list \<Rightarrow> ('a, 's) task \<Rightarrow> nat \<Rightarrow> 's \<Rightarrow> 'a option list res \<times> 's" where
  "run_group sched task n s =
     (let g = fold (finish task) sched (group_init n s) in (group_wait g, gs_shared g))"

definition schedule :: "nat list \<Rightarrow> nat \<Rightarrow> bool" where
  "schedule sched n = (distinct sched \<and> set sched = {0..<n})"

section \<open>Results do not depend on the schedule\<close>

lemma finish_fields:
  "gs_pending (finish task i g) = removeAll i (gs_pending g)"
  "gs_slots (finish task i g) =
     (case fst (task i (gs_shared g)) of Inl _ \<Rightarrow> gs_slots g | Inr a \<Rightarrow> (gs_slots g)[i := a])"
  "gs_err (finish task i g) =
     (case fst (task i (gs_shared g)) of Inl x \<Rightarrow> report x (gs_err g) | Inr _ \<Rightarrow> gs_err g)"
  "gs_shared (finish task i g) = snd (task i (gs_shared g))"
  "gs_started (finish task i g) = gs_started g"
  by (auto simp: finish_def split: prod.splits sum.splits)

text \<open>
  Tasks whose result does not depend on the shared state, as long as that state satisfies an
  invariant the tasks keep. \<open>outcome\<close> is the result of a task in any such state.
\<close>

locale independent_tasks =
  fixes task :: "nat \<Rightarrow> 's \<Rightarrow> 'a option res \<times> 's"
    and outcome :: "nat \<Rightarrow> 'a option res"
    and ok :: "'s \<Rightarrow> bool"
  assumes task_outcome: "ok s \<Longrightarrow> fst (task i s) = outcome i"
    and task_ok: "ok s \<Longrightarrow> ok (snd (task i s))"
begin

definition good :: "nat \<Rightarrow> ('a, 's) group_state \<Rightarrow> bool" where
  "good n g \<longleftrightarrow> ok (gs_shared g) \<and> set (gs_pending g) \<subseteq> {0..<n} \<and> length (gs_slots g) = n \<and>
     (\<forall>x. gs_err g = Some x \<longrightarrow> (\<exists>i<n. outcome i = Inl x)) \<and>
     (gs_err g = None \<longrightarrow> (\<forall>i<n. i \<notin> set (gs_pending g) \<longrightarrow> outcome i = Inr (gs_slots g ! i)))"

lemma good_init: "ok s \<Longrightarrow> good n (group_init n s)"
  by (simp add: good_def group_init_def)

lemma good_finish:
  assumes "good n g" and "i \<in> set (gs_pending g)"
  shows "good n (finish task i g)"
proof -
  have out: "fst (task i (gs_shared g)) = outcome i" and s': "ok (snd (task i (gs_shared g)))"
    using assms by (auto simp: good_def task_outcome task_ok)
  have i: "i < n" using assms by (auto simp: good_def)
  show ?thesis
  proof (cases "outcome i")
    case (Inl x)
    with assms s' out i show ?thesis
      by (auto simp: good_def finish_fields report_def split: option.splits)
  next
    case (Inr a)
    with assms s' out i show ?thesis
      by (auto simp: good_def finish_fields nth_list_update)
  qed
qed

lemma good_step: "group_step limit task g g' \<Longrightarrow> good n g \<Longrightarrow> good n g'"
proof (erule group_stepE)
  fix i assume "good n g" "g' = finish task i g" "i \<in> set (running g)"
  then show "good n g'" by (simp add: good_finish running_def)
qed (auto simp: good_def)

lemma good_steps: "group_steps limit task g g' \<Longrightarrow> good n g \<Longrightarrow> good n g'"
  by (induction rule: group_steps.induct) (blast intro: good_step)+

lemma good_final:
  assumes "good n g" and "gs_pending g = []"
  shows "case group_wait g of
      Inr slots \<Rightarrow> (\<forall>i<n. \<exists>a. outcome i = Inr a) \<and> slots = map (projr \<circ> outcome) [0..<n]
    | Inl x \<Rightarrow> \<exists>i<n. outcome i = Inl x"
proof (cases "gs_err g")
  case None
  with assms have *: "\<forall>i<n. outcome i = Inr (gs_slots g ! i)" and len: "length (gs_slots g) = n"
    by (simp_all add: good_def)
  then have "gs_slots g = map (projr \<circ> outcome) [0..<n]"
    by (intro nth_equalityI) simp_all
  moreover have "\<forall>i<n. \<exists>a. outcome i = Inr a" using * by blast
  ultimately show ?thesis using None by (simp add: group_wait_def)
next
  case (Some x)
  with assms show ?thesis by (simp add: good_def group_wait_def)
qed

text \<open>Every complete run of the group, whatever the scheduler does.\<close>

lemma any_run:
  assumes "group_steps limit task (group_init n s) g" and "gs_pending g = []" and "ok s"
  shows "case group_wait g of
      Inr slots \<Rightarrow> (\<forall>i<n. \<exists>a. outcome i = Inr a) \<and> slots = map (projr \<circ> outcome) [0..<n]
    | Inl x \<Rightarrow> \<exists>i<n. outcome i = Inl x"
  using good_final [OF good_steps [OF assms(1) good_init [OF assms(3)]] assms(2)] .

lemma fold_finish:
  assumes "good n g" and "distinct sched" and "set sched \<subseteq> set (gs_pending g)"
  shows "good n (fold (finish task) sched g) \<and>
         set (gs_pending (fold (finish task) sched g)) = set (gs_pending g) - set sched"
  using assms(2,3)
proof (induction sched rule: rev_induct)
  case Nil
  then show ?case using assms(1) by simp
next
  case (snoc i sched)
  then have IH: "good n (fold (finish task) sched g)"
    "set (gs_pending (fold (finish task) sched g)) = set (gs_pending g) - set sched" by auto
  with snoc.prems have "i \<in> set (gs_pending (fold (finish task) sched g))" by auto
  with IH show ?case
    by (auto intro: good_finish simp: finish_fields)
qed

lemma scheduled_run:
  assumes "schedule sched n" and "ok s"
  shows "good n (fold (finish task) sched (group_init n s)) \<and>
         gs_pending (fold (finish task) sched (group_init n s)) = [] \<and>
         ok (snd (run_group sched task n s))"
proof -
  have "set sched \<subseteq> set (gs_pending (group_init n s))" and "distinct sched"
    using assms(1) by (auto simp: schedule_def group_init_def)
  from fold_finish [OF good_init [OF assms(2)] this(2,1)] show ?thesis
    using assms(1) by (auto simp: schedule_def group_init_def run_group_def Let_def good_def)
qed

lemma run_group_outcome:
  assumes "schedule sched n" and "ok s"
  shows "case fst (run_group sched task n s) of
      Inr slots \<Rightarrow> (\<forall>i<n. \<exists>a. outcome i = Inr a) \<and> slots = map (projr \<circ> outcome) [0..<n]
    | Inl x \<Rightarrow> \<exists>i<n. outcome i = Inl x"
  using good_final [of n "fold (finish task) sched (group_init n s)"] scheduled_run [OF assms]
  by (simp add: run_group_def Let_def)

lemma run_group_success:
  assumes "schedule sched n" and "ok s"
  shows "fst (run_group sched task n s) = Inr slots \<longleftrightarrow>
           (\<forall>i<n. \<exists>a. outcome i = Inr a) \<and> slots = map (projr \<circ> outcome) [0..<n]"
  using run_group_outcome [OF assms]
  by (cases "fst (run_group sched task n s)") fastforce+

lemma run_group_error:
  assumes "schedule sched n" and "ok s" and "fst (run_group sched task n s) = Inl x"
  shows "\<exists>i<n. outcome i = Inl x"
  using run_group_outcome [OF assms(1,2)] assms(3) by simp

end

text \<open>Tasks over the elements of a list: the slots of a successful run are the sequential results.\<close>

lemma outcomes_map_res:
  "(\<forall>i<length xs. \<exists>a. f (xs ! i) = Inr a) \<and> slots = map (projr \<circ> (\<lambda>i. f (xs ! i))) [0..<length xs] \<longleftrightarrow>
     map_res f xs = Inr slots"
proof
  assume "(\<forall>i<length xs. \<exists>a. f (xs ! i) = Inr a) \<and> slots = map (projr \<circ> (\<lambda>i. f (xs ! i))) [0..<length xs]"
  then show "map_res f xs = Inr slots"
    by (auto simp: map_res_eq_Inr list_all2_conv_all_nth)
next
  assume "map_res f xs = Inr slots"
  then have "length slots = length xs" and all: "\<forall>i<length xs. f (xs ! i) = Inr (slots ! i)"
    by (simp_all add: map_res_eq_Inr list_all2_conv_all_nth)
  then have "slots = map (projr \<circ> (\<lambda>i. f (xs ! i))) [0..<length xs]"
    by (intro nth_equalityI) simp_all
  with all show "(\<forall>i<length xs. \<exists>a. f (xs ! i) = Inr a) \<and> slots = map (projr \<circ> (\<lambda>i. f (xs ! i))) [0..<length xs]"
    by blast
qed

text \<open>There is always a schedule, the one in index order.\<close>

lemma schedule_upt: "schedule [0..<n] n"
  by (simp add: schedule_def)

text \<open>Whatever the schedule, a slot holds what some task returned.\<close>

lemma fold_finish_slots:
  assumes "\<And>i s a s'. task i s = (Inr (Some a), s') \<Longrightarrow> P a" and "\<And>a. Some a \<in> set (gs_slots g) \<Longrightarrow> P a"
    and "Some a \<in> set (gs_slots (fold (finish task) sched g))"
  shows "P a"
  using assms(2,3)
proof (induction sched arbitrary: g)
  case (Cons i sched)
  have "P b" if b: "Some b \<in> set (gs_slots (finish task i g))" for b
  proof (cases "fst (task i (gs_shared g))")
    case (Inr r)
    with b have "Some b \<in> set (gs_slots g) \<or> Some b = r"
      using set_update_subset_insert [of "gs_slots g" i r] by (auto simp: finish_fields)
    with Inr Cons.prems(1) assms(1) show ?thesis by (metis prod.collapse)
  qed (use b Cons.prems(1) in \<open>simp add: finish_fields\<close>)
  with Cons.IH [of "finish task i g"] Cons.prems(2) show ?case by simp
qed simp

lemma run_group_slots:
  assumes "\<And>i s a s'. task i s = (Inr (Some a), s') \<Longrightarrow> P a" and "fst (run_group sched task n s) = Inr slots"
    and "Some a \<in> set slots"
  shows "P a"
  using assms(2,3) fold_finish_slots [where P = P and task = task and g = "group_init n s" and sched = sched and a = a, OF assms(1)]
  by (auto simp: run_group_def Let_def group_wait_def group_init_def split: option.splits)

lemma fold_finish_error:
  assumes "gs_err (fold (finish task) sched g) = Some x"
  shows "gs_err g = Some x \<or> (\<exists>i s s'. task i s = (Inl x, s'))"
  using assms
proof (induction sched arbitrary: g)
  case (Cons i sched)
  then have "gs_err (finish task i g) = Some x \<or> (\<exists>i s s'. task i s = (Inl x, s'))" by simp
  moreover have "gs_err g = Some x \<or> task i (gs_shared g) = (Inl x, snd (task i (gs_shared g)))"
    if "gs_err (finish task i g) = Some x"
    using that by (cases "task i (gs_shared g)") (auto simp: finish_fields report_def split: sum.splits option.splits)
  ultimately show ?case by blast
qed simp

lemma run_group_error_from:
  "fst (run_group sched task n s) = Inl x \<Longrightarrow> \<exists>i s s'. task i s = (Inl x, s')"
  using fold_finish_error [of task sched "group_init n s" x]
  by (auto simp: run_group_def Let_def group_wait_def group_init_def split: option.splits)

section \<open>The limit is kept and every run ends\<close>

text \<open>What holds of a group of \<open>n\<close> tasks in every state it reaches.\<close>

definition group_ok :: "int \<Rightarrow> nat \<Rightarrow> ('a, 's) group_state \<Rightarrow> bool" where
  "group_ok limit n g \<longleftrightarrow> length (gs_slots g) = n \<and> gs_started g \<le> n \<and> distinct (gs_pending g) \<and>
     set (gs_pending g) \<subseteq> {0..<n} \<and> {gs_started g..<n} \<subseteq> set (gs_pending g) \<and>
     (0 \<le> limit \<longrightarrow> int (length (running g)) \<le> limit)"

lemma group_ok_init: "group_ok limit n (group_init n s)"
  by (auto simp: group_ok_def group_init_def running_def)

lemma running_start:
  assumes "distinct (gs_pending g)"
  shows "length (running (g\<lparr>gs_started := Suc (gs_started g)\<rparr>)) \<le> Suc (length (running g))"
proof -
  have "set (running (g\<lparr>gs_started := Suc (gs_started g)\<rparr>)) \<subseteq> insert (gs_started g) (set (running g))"
    by (auto simp: running_def)
  from card_mono [OF _ this] show ?thesis
    using assms distinct_card [of "running g"] distinct_card [of "running (g\<lparr>gs_started := Suc (gs_started g)\<rparr>)"]
    by (simp add: running_def card_insert_if split: if_splits)
qed

lemma running_removeAll:
  "length (filter p (removeAll i xs)) \<le> length (filter p xs)"
  by (induction xs) auto

lemma ended_ok:
  assumes "group_ok limit n g" and "i \<in> set (running g)" and "gs_pending g' = removeAll i (gs_pending g)"
    and "gs_started g' = gs_started g" and "length (gs_slots g') = length (gs_slots g)"
  shows "group_ok limit n g'"
  using assms running_removeAll [of "\<lambda>i. i < gs_started g" i "gs_pending g"]
  by (auto simp: group_ok_def running_def distinct_removeAll)

lemma group_ok_step:
  assumes "group_step limit task g g'" and "group_ok limit n g"
  shows "group_ok limit n g'"
  using assms(1)
proof (cases rule: group_step.cases)
  case starts
  with assms(2) running_start [of g] show ?thesis by (simp add: group_ok_def may_start_def subset_eq) linarith
next
  case (finishes i)
  show ?thesis
    by (rule ended_ok [OF assms(2) finishes(2)]) (simp_all add: finishes(1) finish_fields split: sum.split)
next
  case (cancelled i)
  show ?thesis by (rule ended_ok [OF assms(2) cancelled(2)]) (simp_all add: cancelled(1))
qed

lemma group_ok_steps: "group_steps limit task g g' \<Longrightarrow> group_ok limit n g \<Longrightarrow> group_ok limit n g'"
  by (induction rule: group_steps.induct) (blast intro: group_ok_step)+

text \<open>Unless the limit is zero, the group can go on as long as a goroutine is left.\<close>

lemma group_can_step:
  assumes "group_ok limit n g" and "limit \<noteq> 0" and "gs_pending g \<noteq> []"
  shows "\<exists>g'. group_step limit task g g'"
proof (cases "running g")
  case (Cons i js)
  then show ?thesis using group_step.finishes [of i g limit task] by auto
next
  case Nil
  then have "hd (gs_pending g) \<ge> gs_started g"
    using assms(3) by (metis filter_empty_conv hd_in_set leI running_def)
  moreover have "hd (gs_pending g) < n" using assms(1) hd_in_set [OF assms(3)] by (auto simp: group_ok_def)
  ultimately have "gs_started g < length (gs_slots g)" using assms(1) by (simp add: group_ok_def)
  moreover have "may_start limit g" using Nil assms(2) by (auto simp: may_start_def)
  ultimately show ?thesis using group_step.starts by blast
qed

text \<open>With a limit of zero no goroutine ever starts: the caller waits in \<open>Go\<close> for ever.\<close>

lemma zero_limit_stuck: "\<not> group_step 0 task (group_init n s) g"
  by (auto simp: group_init_def running_def may_start_def elim!: group_stepE)

lemma group_step_measure:
  assumes "group_step limit task g g'"
  shows "length (gs_pending g') + (length (gs_slots g') - gs_started g') <
         length (gs_pending g) + (length (gs_slots g) - gs_started g)"
  using assms
proof (cases rule: group_step.cases)
  case (finishes i)
  then show ?thesis by (auto simp: finish_fields running_def length_removeAll_less split: sum.split)
qed (auto simp: running_def length_removeAll_less)

lemma group_terminates: "wf {(g', g). group_step limit task g g'}"
  by (rule wf_subset [OF wf_measure [of "\<lambda>g. length (gs_pending g) + (length (gs_slots g) - gs_started g)"]])
    (auto dest: group_step_measure)

end
