(* ===== verification/Policy_Verifier.thy ===== *)
theory Policy_Verifier
  imports Policy_Arguments Policy_Scripts Attestation_Types Err_Group
begin

text \<open>
  The policy verifier (\<open>pkg/policies/policies.go\<close>): its options, the choice of the policies that
  apply to a material, the evaluation of one attachment and the concurrent evaluation of all of
  them. The state is the caches, the tracker of the scopes that matched and the warnings logged
  about the scopes that did not. The order in which the goroutines finish is the argument \<open>sched\<close>.

  The record \<open>services\<close> gathers what the verifier calls: the environment of the loaders, the
  template engine, the material content environment, the findings codec, the Rego and WASM engines
  and the text of an engine error.
\<close>

section \<open>State and options\<close>

datatype eval_phase = EvalPhaseUnspecified | EvalPhaseInit | EvalPhasePush | EvalPhaseOther int

record services =
  sv_env :: env
  sv_tmpl :: template_engine
  sv_content :: content_env
  sv_findings :: finding_codec
  sv_engine :: "policy_type \<Rightarrow> engine_options \<Rightarrow> script \<Rightarrow> string \<Rightarrow> arg_value gomap \<Rightarrow> evaluation_result res"
  sv_error_text :: "err \<Rightarrow> string"

record verifier =
  pv_policies :: policies
  pv_logger :: "nat option"
  pv_conn :: "nat option"
  pv_hostnames :: "string list option"
  pv_default_gate :: bool
  pv_include_raw :: bool
  pv_enable_print :: bool
  pv_phase :: eval_phase
  pv_max_concurrency :: int
  pv_project :: string
  pv_project_version :: string
  pv_runtime_inputs :: "runtime_inputs option"
  pv_timeout :: int
  pv_public_only :: bool
  pv_guarded_client :: bool \<comment> \<open>whether \<open>httpClient\<close> is the guarded one; nil is the default client\<close>

record vstate =
  vs_policies :: policy_cache
  vs_groups :: group_cache
  vs_tracker :: "scope_tracker option"
  vs_warned :: "string list"

record verifier_options =
  vo_hostnames :: "string list option"
  vo_default_gate :: bool
  vo_include_raw :: bool
  vo_enable_print :: bool
  vo_conn :: "nat option"
  vo_phase :: eval_phase
  vo_max_concurrency :: int
  vo_policy_cache :: "policy_cache option"
  vo_group_cache :: "group_cache option"
  vo_project :: string
  vo_project_version :: string
  vo_runtime_inputs :: "runtime_inputs option"
  vo_timeout :: int
  vo_public_only :: bool

type_synonym verifier_option = "verifier_options \<Rightarrow> verifier_options"

definition pv_WithAllowedHostnames :: "string list \<Rightarrow> verifier_option" where
  "pv_WithAllowedHostnames hostnames o' = o'\<lparr>vo_hostnames := (if hostnames = [] then None else Some hostnames)\<rparr>"

definition pv_WithDefaultGate :: "bool \<Rightarrow> verifier_option" where
  "pv_WithDefaultGate g o' = o'\<lparr>vo_default_gate := g\<rparr>"

definition pv_WithIncludeRawData :: "bool \<Rightarrow> verifier_option" where
  "pv_WithIncludeRawData b o' = o'\<lparr>vo_include_raw := b\<rparr>"

definition pv_WithEnablePrint :: "bool \<Rightarrow> verifier_option" where
  "pv_WithEnablePrint b o' = o'\<lparr>vo_enable_print := b\<rparr>"

definition pv_WithGRPCConn :: "nat option \<Rightarrow> verifier_option" where
  "pv_WithGRPCConn conn o' = o'\<lparr>vo_conn := conn\<rparr>"

definition pv_WithEvalPhase :: "eval_phase \<Rightarrow> verifier_option" where
  "pv_WithEvalPhase phase o' = o'\<lparr>vo_phase := phase\<rparr>"

definition pv_WithMaxConcurrency :: "int \<Rightarrow> verifier_option" where
  "pv_WithMaxConcurrency n o' = o'\<lparr>vo_max_concurrency := n\<rparr>"

definition pv_WithPolicyCache :: "policy_cache option \<Rightarrow> verifier_option" where
  "pv_WithPolicyCache c o' = o'\<lparr>vo_policy_cache := c\<rparr>"

definition pv_WithGroupCache :: "group_cache option \<Rightarrow> verifier_option" where
  "pv_WithGroupCache c o' = o'\<lparr>vo_group_cache := c\<rparr>"

definition pv_WithProjectContext :: "string \<Rightarrow> string \<Rightarrow> verifier_option" where
  "pv_WithProjectContext name version o' = o'\<lparr>vo_project := name, vo_project_version := version\<rparr>"

definition pv_WithRuntimeInputs :: "runtime_inputs option \<Rightarrow> verifier_option" where
  "pv_WithRuntimeInputs inputs o' = o'\<lparr>vo_runtime_inputs := inputs\<rparr>"

definition pv_WithExecutionTimeout :: "int \<Rightarrow> verifier_option" where
  "pv_WithExecutionTimeout timeout o' = o'\<lparr>vo_timeout := timeout\<rparr>"

definition pv_WithPublicTargetsOnly :: verifier_option where
  "pv_WithPublicTargetsOnly o' = o'\<lparr>vo_public_only := True\<rparr>"

definition DefaultExecutionTimeout :: int where
  "DefaultExecutionTimeout = 60 * 1000000000"

definition defaultMaxConcurrency :: "int \<Rightarrow> int" where
  "defaultMaxConcurrency numCPU = max numCPU 5"

definition NewPolicyVerifier ::
  "int \<Rightarrow> policies \<Rightarrow> nat option \<Rightarrow> verifier_option list \<Rightarrow> verifier \<times> vstate" where
  "NewPolicyVerifier numCPU pols logger opts =
     (let options = fold (\<lambda>opt o'. opt o') opts
        \<lparr>vo_hostnames = None, vo_default_gate = False, vo_include_raw = False, vo_enable_print = False,
         vo_conn = None, vo_phase = EvalPhaseUnspecified, vo_max_concurrency = 0, vo_policy_cache = None,
         vo_group_cache = None, vo_project = [], vo_project_version = [], vo_runtime_inputs = None,
         vo_timeout = 0, vo_public_only = False\<rparr>
      in (\<lparr>pv_policies = pols, pv_logger = logger, pv_conn = vo_conn options,
           pv_hostnames = vo_hostnames options, pv_default_gate = vo_default_gate options,
           pv_include_raw = vo_include_raw options, pv_enable_print = vo_enable_print options,
           pv_phase = vo_phase options,
           pv_max_concurrency = (if vo_max_concurrency options \<le> 0 then defaultMaxConcurrency numCPU
                                 else vo_max_concurrency options),
           pv_project = vo_project options, pv_project_version = vo_project_version options,
           pv_runtime_inputs = vo_runtime_inputs options,
           pv_timeout = (if vo_timeout options \<le> 0 then DefaultExecutionTimeout else vo_timeout options),
           pv_public_only = vo_public_only options, pv_guarded_client = vo_public_only options\<rparr>,
          \<lparr>vs_policies = (case vo_policy_cache options of None \<Rightarrow> Map.empty | Some c \<Rightarrow> c),
           vs_groups = (case vo_group_cache options of None \<Rightarrow> Map.empty | Some c \<Rightarrow> c),
           vs_tracker = None, vs_warned = []\<rparr>))"

section \<open>Phases\<close>

definition shouldEvaluateAtPhase :: "attestation_phase list \<Rightarrow> eval_phase \<Rightarrow> bool" where
  "shouldEvaluateAtPhase phases phase =
     (if phases = [] \<or> phase = EvalPhaseUnspecified then True
      else case phase of
        EvalPhaseInit \<Rightarrow> PHASE_INIT \<in> set phases
      | EvalPhasePush \<Rightarrow> PHASE_PUSH \<in> set phases
      | _ \<Rightarrow> True)"

definition attestationPhasesForKind :: "policy_spec \<Rightarrow> material_type \<Rightarrow> attestation_phase list" where
  "attestationPhasesForKind spec kind =
     (if ps_source spec \<noteq> None then []
      else concat (map v2_phases
        (filter (\<lambda>s. v2_kind s = MATERIAL_TYPE_UNSPECIFIED \<or> v2_kind s = kind) (ps_policies spec))))"

section \<open>Running a script\<close>

definition engine_options_of :: "verifier \<Rightarrow> engine_option list" where
  "engine_options_of pv =
     (case pv_hostnames pv of None \<Rightarrow> [] | Some hs \<Rightarrow> [WithAllowedHostnames hs]) @
     (if pv_include_raw pv then [WithIncludeRawData True] else []) @
     (if pv_enable_print pv then [WithEnablePrint True] else []) @
     (case pv_logger pv of None \<Rightarrow> [] | Some l \<Rightarrow> [WithLogger (Some l)]) @
     (case pv_conn pv of None \<Rightarrow> [] | Some conn \<Rightarrow> [WithGRPCConn (Some conn)]) @
     (if pv_project pv \<noteq> [] \<or> pv_project_version pv \<noteq> []
      then [WithProjectContext (pv_project pv) (pv_project_version pv)] else []) @
     (if pv_public_only pv then [WithPublicTargetsOnly] else []) @
     [WithExecutionTimeout (pv_timeout pv)]"

definition word_char :: "char \<Rightarrow> bool" where
  "word_char c = (c = CHR ''_'' \<or>
     list_ex (\<lambda>(first, final). first \<le> c \<and> c \<le> final) [(CHR ''0'', CHR ''9''), (CHR ''A'', CHR ''Z''), (CHR ''a'', CHR ''z'')])"

definition undefined_function_text :: string where
  "undefined_function_text = ''rego_type_error: undefined function chainloop.''"

lemma builtin_rest_shorter:
  "s \<noteq> [] \<Longrightarrow> length (dropWhile p (drop (length undefined_function_text) s)) < length s"
  using length_dropWhile_le [of p "drop (length undefined_function_text) s"]
  by (cases s) (simp_all add: undefined_function_text_def)

text \<open>All matches of \<open>rego_type_error: undefined function (chainloop\.\w+)\<close>, the group of each.\<close>

function find_builtins :: "string \<Rightarrow> string list" where
  "find_builtins s =
     (if s = [] then []
      else if prefix undefined_function_text s
              \<and> takeWhile word_char (drop (length undefined_function_text) s) \<noteq> [] then
        (''chainloop.'' @ takeWhile word_char (drop (length undefined_function_text) s)) #
          find_builtins (dropWhile word_char (drop (length undefined_function_text) s))
      else find_builtins (tl s))"
  by pat_completeness auto
termination
  by (relation "measure length") (simp_all add: builtin_rest_shorter)

declare find_builtins.simps [simp del]

definition undefinedChainloopBuiltins :: "(err \<Rightarrow> string) \<Rightarrow> err \<Rightarrow> string list" where
  "undefinedChainloopBuiltins text x = find_builtins (text x)"

definition em_dash :: string where
  "em_dash = [CHR 0xE2, CHR 0x80, CHR 0x94]"

definition skip_reason_builtins :: "string list \<Rightarrow> string" where
  "skip_reason_builtins builtins =
     ''policy requires builtin functions not available in this CLI version: '' @ join_str '', '' builtins @
     '' '' @ em_dash @ '' please upgrade to the latest version''"

definition executeScript ::
  "services \<Rightarrow> verifier \<Rightarrow> script \<Rightarrow> string \<Rightarrow> string gomap \<Rightarrow> evaluation_result res" where
  "executeScript sv pv script material args =
     (let policyType = DetectPolicyType (scr_source script);
          opts = ApplyOptions (engine_options_of pv)
      in case sv_engine sv policyType opts script material (getInputArguments args) of
           Inr res \<Rightarrow> Inr res
         | Inl x \<Rightarrow>
             let builtins = undefinedChainloopBuiltins (sv_error_text sv) x in
             if builtins \<noteq> [] then
               Inr \<lparr>er_violations = [], er_skipped = True, er_skip_reason = skip_reason_builtins builtins,
                    er_ignore = False, er_raw = None\<rparr>
             else Inl (Wrapf ''failed to execute policy: %w'' [] x))"

section \<open>Evaluating one attachment\<close>

record eval_opts =
  opt_name :: string
  opt_kind :: material_type
  opt_bindings :: "string gomap"
  opt_runtime_inputs :: "runtime_inputs option"

record reference =
  rf_name :: string
  rf_digest :: string
  rf_uri :: string
  rf_org :: string

record policy_evaluation =
  pe_name :: string
  pe_material_name :: string
  pe_body :: string
  pe_sources :: "string list"
  pe_violations :: "api_violation list"
  pe_annotations :: "string gomap"
  pe_description :: string
  pe_with :: "string gomap"
  pe_runtime_overrides :: "string list"
  pe_type :: material_type
  pe_reference_name :: string
  pe_reference_digest :: string
  pe_policy_ref :: reference
  pe_skipped :: bool
  pe_skip_reasons :: "string list"
  pe_requirements :: "string list"
  pe_raw :: "(string \<times> string) list"
  pe_gate :: bool
  pe_group_ref :: "reference option"

definition policyAttachmentGate :: "policy_attachment \<Rightarrow> bool \<Rightarrow> bool" where
  "policyAttachmentGate att defaultGate = (case pa_gate att of Some g \<Rightarrow> g | None \<Rightarrow> defaultGate)"

text \<open>The names of the runtime inputs that made it into the arguments, each once, sorted.\<close>

definition runtime_input_overrides :: "string gomap \<Rightarrow> string gomap \<Rightarrow> string gomap \<Rightarrow> string list" where
  "runtime_input_overrides appendRuntime replaceRuntime args =
     sort (remdups (filter (\<lambda>k. map_of args k \<noteq> None) (map fst (appendRuntime @ replaceRuntime))))"

record script_acc =
  sa_sources :: "string list"
  sa_results :: "evaluation_result list"
  sa_raw :: "(string \<times> string) option list"
  sa_skipped :: bool
  sa_reasons :: "string list"

text \<open>The body of the loop over the scripts, given the result of the script.\<close>

definition gather_result :: "script \<Rightarrow> evaluation_result \<Rightarrow> script_acc \<Rightarrow> script_acc" where
  "gather_result script r acc =
     (let acc = (if er_raw r \<noteq> None then acc\<lparr>sa_raw := sa_raw acc @ [er_raw r]\<rparr> else acc) in
      if er_ignore r then acc
      else acc\<lparr>sa_results := sa_results acc @ [r],
               sa_reasons := (if er_skip_reason r \<noteq> [] then sa_reasons acc @ [er_skip_reason r] else sa_reasons acc),
               sa_skipped := (sa_skipped acc \<and> er_skipped r),
               sa_sources := sa_sources acc @ [b64_encode (scr_source script)]\<rparr>)"

fun run_scripts :: "(script \<Rightarrow> evaluation_result res) \<Rightarrow> script list \<Rightarrow> script_acc \<Rightarrow> script_acc res" where
  "run_scripts exec [] acc = Inr acc"
| "run_scripts exec (s # ss) acc =
     bind_res (map_err PolicyErr (exec s)) (\<lambda>r. run_scripts exec ss (gather_result s r acc))"

definition no_scripts_run :: script_acc where
  "no_scripts_run = \<lparr>sa_sources = [], sa_results = [], sa_raw = [], sa_skipped = True, sa_reasons = []\<rparr>"

text \<open>The evaluation built from the results of the scripts.\<close>

definition merge_results ::
  "services \<Rightarrow> verifier \<Rightarrow> policy_attachment \<Rightarrow> eval_opts \<Rightarrow> policy \<Rightarrow> descriptor option \<Rightarrow>
     string gomap \<Rightarrow> string list \<Rightarrow> script_acc \<Rightarrow> policy_evaluation option res" where
  "merge_results sv pv att opts policy ref args overrides acc =
     (if sa_sources acc = [] then Inr None
      else
        bind_res (map_err (\<lambda>x. PolicyErr (Wrapf ''policy %q: %w'' [policy_name policy] x))
          (engineEvaluationsToAPIViolations (sv_findings sv) (sa_results acc) (get_finding_type policy)))
        (\<lambda>(apiViolations, warnings).
        Inr (Some \<lparr>pe_name = policy_name policy, pe_material_name = opt_name opts, pe_body = [],
          pe_sources = (if ref \<noteq> None \<and> \<not> IsProviderScheme (GetURI ref) then sa_sources acc else []),
          pe_violations = apiViolations,
          pe_annotations = md_annotations (pol_metadata policy),
          pe_description = md_description (pol_metadata policy),
          pe_with = args, pe_runtime_overrides = overrides, pe_type = opt_kind opts,
          pe_reference_name = GetURI ref, pe_reference_digest = GetDigest ref,
          pe_policy_ref = \<lparr>rf_name = policy_name policy, rf_digest = GetDigest ref,
                           rf_uri = GetURI ref, rf_org = GetOrgName ref\<rparr>,
          pe_skipped = sa_skipped acc,
          pe_skip_reasons = (if sa_skipped acc then sa_reasons acc else []),
          pe_requirements = pa_requirements att,
          pe_raw = engineRawResultsToAPIRawResults (sa_raw acc),
          pe_gate = policyAttachmentGate att (pv_default_gate pv),
          pe_group_ref = None\<rparr>)))"

text \<open>From the loaded policy and its scripts to the evaluation; nothing here touches the state.\<close>

definition evaluate_policy ::
  "services \<Rightarrow> verifier \<Rightarrow> policy_attachment \<Rightarrow> string \<Rightarrow> eval_opts \<Rightarrow> policy \<Rightarrow> descriptor option \<Rightarrow>
     script list \<Rightarrow> string gomap \<Rightarrow> string gomap \<Rightarrow> policy_evaluation option res" where
  "evaluate_policy sv pv att material opts policy ref scripts appendRuntime replaceRuntime =
     (let with' = OverrideRuntimeInputs (MergeRuntimeInputs (pa_with att) appendRuntime) replaceRuntime in
      bind_res (map_err PolicyErr (ComputeArguments (sv_tmpl sv) (ps_inputs (pol_spec policy)) with' (opt_bindings opts)))
      (\<lambda>args.
      bind_res (run_scripts (\<lambda>script. executeScript sv pv script material args) scripts no_scripts_run)
      (merge_results sv pv att opts policy ref args (runtime_input_overrides appendRuntime replaceRuntime args))))"

definition evaluatePolicyAttachment ::
  "services \<Rightarrow> verifier \<Rightarrow> policy_attachment \<Rightarrow> string \<Rightarrow> eval_opts \<Rightarrow> vstate \<Rightarrow>
     policy_evaluation option res \<times> vstate" where
  "evaluatePolicyAttachment sv pv att material opts st =
     (let (loaded, c') = loadPolicySpec (sv_env sv) (pv_guarded_client pv) (vs_policies st) att;
          st1 = st\<lparr>vs_policies := c'\<rparr>
      in case loaded of
           Inl x \<Rightarrow> (Inl (PolicyErr x), st1)
         | Inr (policy, ref) \<Rightarrow>
             if \<not> shouldEvaluateAtPhase (attestationPhasesForKind (pol_spec policy) (opt_kind opts)) (pv_phase pv)
             then (Inr None, st1)
             else case loadPolicyScriptsFromSpec (sv_env sv) (pv_guarded_client pv) policy (opt_kind opts)
                         (policyLocation (get_ref att)) of
               Inl x \<Rightarrow> (Inl (PolicyErr x), st1)
             | Inr scripts \<Rightarrow>
                 let (appendRuntime, replaceRuntime, matchedScopes) =
                       forPolicy (opt_runtime_inputs opts) (policy_name policy) (get_ref att)
                 in (evaluate_policy sv pv att material opts policy ref scripts appendRuntime replaceRuntime,
                     st1\<lparr>vs_tracker := tracker_mark (vs_tracker st1) matchedScopes\<rparr>))"

section \<open>The policies that apply to a material\<close>

definition nameMatches :: "string \<Rightarrow> match_mode \<Rightarrow> string \<Rightarrow> bool" where
  "nameMatches name mode materialID = (if mode = MM_PREFIX then prefix name materialID else name = materialID)"

definition getPolicyTypes :: "policy \<Rightarrow> material_type list" where
  "getPolicyTypes p =
     (if ps_type (pol_spec p) \<noteq> MATERIAL_TYPE_UNSPECIFIED then [ps_type (pol_spec p)]
      else filter (\<lambda>k. k \<noteq> MATERIAL_TYPE_UNSPECIFIED) (map v2_kind (ps_policies (pol_spec p))))"

text \<open>The decision once the spec is loaded.\<close>

definition attachment_applies :: "policy_attachment \<Rightarrow> policy \<Rightarrow> material \<Rightarrow> bool" where
  "attachment_applies att spec m =
     (let specTypes = getPolicyTypes spec; filteredName = get_selector_name att in
      if specTypes \<noteq> [] \<and> mat_type m \<notin> set specTypes then False
      else if filteredName \<noteq> [] \<and> \<not> nameMatches filteredName (get_selector_mode att) (mat_id m) then False
      else if specTypes = [] \<and> filteredName = [] then False
      else True)"

definition load_spec ::
  "services \<Rightarrow> verifier \<Rightarrow> policy_attachment \<Rightarrow> vstate \<Rightarrow> (policy \<times> descriptor option) res \<times> vstate" where
  "load_spec sv pv att st =
     (let (r, c') = loadPolicySpec (sv_env sv) (pv_guarded_client pv) (vs_policies st) att
      in (r, st\<lparr>vs_policies := c'\<rparr>))"

definition shouldApplyPolicy ::
  "services \<Rightarrow> verifier \<Rightarrow> material \<Rightarrow> policy_attachment \<Rightarrow> vstate \<Rightarrow> bool res \<times> vstate" where
  "shouldApplyPolicy sv pv m att st =
     (let (r, st') = load_spec sv pv att st
      in (bind_res (map_err (Wrapf ''failed to load policy attachment %q: %w'' [get_ref att]) r)
            (\<lambda>(spec, _). Inr (attachment_applies att spec m)), st'))"

definition requiredPoliciesForMaterial ::
  "services \<Rightarrow> verifier \<Rightarrow> material \<Rightarrow> vstate \<Rightarrow> policy_attachment list res \<times> vstate" where
  "requiredPoliciesForMaterial sv pv m st =
     filter_st (shouldApplyPolicy sv pv m) (pols_materials (pv_policies pv)) st"

section \<open>Verifying a material and a statement\<close>

definition attachment_task ::
  "services \<Rightarrow> verifier \<Rightarrow> string \<Rightarrow> eval_opts \<Rightarrow> policy_attachment list \<Rightarrow> (policy_evaluation, vstate) task" where
  "attachment_task sv pv subject opts atts i st =
     (let (r, st') = evaluatePolicyAttachment sv pv (atts ! i) subject opts st in (map_err PolicyErr r, st'))"

definition keep_some :: "'a option list \<Rightarrow> 'a list" where
  "keep_some results = map the (filter (\<lambda>ev. ev \<noteq> None) results)"

definition material_opts :: "verifier \<Rightarrow> material \<Rightarrow> eval_opts" where
  "material_opts pv m = \<lparr>opt_name = mat_id m, opt_kind = mat_type m, opt_bindings = [],
     opt_runtime_inputs = pv_runtime_inputs pv\<rparr>"

definition VerifyMaterial ::
  "(nat \<Rightarrow> nat list) \<Rightarrow> services \<Rightarrow> verifier \<Rightarrow> material \<Rightarrow> string \<Rightarrow> string \<Rightarrow> vstate \<Rightarrow>
     policy_evaluation list res \<times> vstate" where
  "VerifyMaterial sched sv pv m artifactPath content st =
     (let (required, st1) = requiredPoliciesForMaterial sv pv m st in
      case required of
        Inl x \<Rightarrow> (Inl (PolicyErr x), st1)
      | Inr [] \<Rightarrow> (Inr [], st1)
      | Inr atts \<Rightarrow>
          (case GetEvaluableContent (sv_content sv) m artifactPath content of
             Inl x \<Rightarrow> (Inl (PolicyErr x), st1)
           | Inr subject \<Rightarrow>
               let (waited, st2) = run_group (sched (length atts))
                     (attachment_task sv pv subject (material_opts pv m) atts) (length atts)
                     (st1\<lparr>vs_tracker := Some {}\<rparr>)
               in case waited of
                    Inl x \<Rightarrow> (Inl x, st2\<lparr>vs_tracker := None\<rparr>)
                  | Inr results \<Rightarrow>
                      (Inr (keep_some results),
                       st2\<lparr>vs_tracker := None,
                           vs_warned := vs_warned st2 @ tracker_unmatched (vs_tracker st2) (pv_runtime_inputs pv)\<rparr>)))"

definition statement_opts :: eval_opts where
  "statement_opts = \<lparr>opt_name = [], opt_kind = ATTESTATION, opt_bindings = [], opt_runtime_inputs = None\<rparr>"

definition VerifyStatement ::
  "(nat \<Rightarrow> nat list) \<Rightarrow> services \<Rightarrow> verifier \<Rightarrow> string res \<Rightarrow> vstate \<Rightarrow> policy_evaluation list res \<times> vstate" where
  "VerifyStatement sched sv pv statementJSON st =
     (let atts = pols_attestation (pv_policies pv) in
      case statementJSON of
        Inl x \<Rightarrow> (Inl (PolicyErr x), st)
      | Inr json \<Rightarrow>
          let (waited, st') = run_group (sched (length atts))
                (attachment_task sv pv json statement_opts atts) (length atts) (st\<lparr>vs_tracker := None\<rparr>)
          in (bind_res waited (\<lambda>results. Inr (keep_some results)), st'))"

section \<open>What the results of the scripts become\<close>

abbreviation kept_results :: "evaluation_result list \<Rightarrow> evaluation_result list" where
  "kept_results rs \<equiv> filter (\<lambda>r. \<not> er_ignore r) rs"

definition summarises :: "script list \<Rightarrow> evaluation_result list \<Rightarrow> script_acc \<Rightarrow> script_acc \<Rightarrow> bool" where
  "summarises ss rs acc acc' =
     (sa_results acc' = sa_results acc @ kept_results rs \<and>
      sa_sources acc' = sa_sources acc @
        map (\<lambda>(s, r). b64_encode (scr_source s)) (filter (\<lambda>(s, r). \<not> er_ignore r) (zip ss rs)) \<and>
      sa_raw acc' = sa_raw acc @ filter (\<lambda>x. x \<noteq> None) (map er_raw rs) \<and>
      sa_skipped acc' = (sa_skipped acc \<and> (\<forall>r\<in>set (kept_results rs). er_skipped r)) \<and>
      sa_reasons acc' = sa_reasons acc @ filter (\<lambda>x. x \<noteq> []) (map er_skip_reason (kept_results rs)))"

lemma gather_result_fields:
  "sa_results (gather_result s r acc) = sa_results acc @ (if er_ignore r then [] else [r])"
  "sa_sources (gather_result s r acc) = sa_sources acc @ (if er_ignore r then [] else [b64_encode (scr_source s)])"
  "sa_raw (gather_result s r acc) = sa_raw acc @ (if er_raw r \<noteq> None then [er_raw r] else [])"
  "sa_skipped (gather_result s r acc) = (sa_skipped acc \<and> (er_ignore r \<or> er_skipped r))"
  "sa_reasons (gather_result s r acc) =
     sa_reasons acc @ (if er_ignore r \<or> er_skip_reason r = [] then [] else [er_skip_reason r])"
  by (simp_all add: gather_result_def Let_def)

lemma run_scripts_summary:
  "run_scripts exec ss acc = Inr acc' \<Longrightarrow>
     \<exists>rs. list_all2 (\<lambda>s r. exec s = Inr r) ss rs \<and> summarises ss rs acc acc'"
proof (induction ss arbitrary: acc)
  case Nil
  then show ?case by (auto simp: summarises_def)
next
  case (Cons s ss)
  then obtain r where r: "exec s = Inr r" and "run_scripts exec ss (gather_result s r acc) = Inr acc'"
    by (auto simp: bind_res_eq_Inr)
  with Cons.IH obtain rs where "list_all2 (\<lambda>s r. exec s = Inr r) ss rs"
    and "summarises ss rs (gather_result s r acc) acc'" by blast
  with r show ?case
    by (intro exI [of _ "r # rs"]) (auto simp: summarises_def gather_result_fields)
qed

text \<open>
  How an evaluation reports the results of the scripts of a policy: ignored scripts leave no trace
  but their raw data, at least one script is not ignored, the evaluation is skipped only if every
  remaining script was, reasons are given only then, and the violations are those of the remaining
  scripts in order.
\<close>

definition reports :: "services \<Rightarrow> policy \<Rightarrow> evaluation_result list \<Rightarrow> policy_evaluation \<Rightarrow> bool" where
  "reports sv policy rs ev =
     (kept_results rs \<noteq> [] \<and>
      (pe_skipped ev \<longleftrightarrow> (\<forall>r\<in>set (kept_results rs). er_skipped r)) \<and>
      pe_skip_reasons ev = (if pe_skipped ev then filter (\<lambda>x. x \<noteq> []) (map er_skip_reason (kept_results rs)) else []) \<and>
      map plain_part (pe_violations ev) = map violation_part (concat (map er_violations (kept_results rs))) \<and>
      map av_finding (pe_violations ev) =
        map (typed_finding (sv_findings sv) (get_finding_type policy)) (concat (map er_violations (kept_results rs))) \<and>
      pe_raw ev = keep_some (map er_raw rs))"

lemma zip_filter_empty:
  "length ss = length rs \<Longrightarrow> filter (\<lambda>(s, r). P r) (zip ss rs) = [] \<longleftrightarrow> filter P rs = []"
  by (induction ss rs rule: list_induct2) auto

lemma merge_results_reports:
  assumes "merge_results sv pv att opts policy ref args ov acc = Inr (Some ev)"
    and "summarises ss rs no_scripts_run acc" and "length ss = length rs"
  shows "reports sv policy rs ev"
proof -
  obtain ws where vs: "engineEvaluationsToAPIViolations (sv_findings sv) (sa_results acc) (get_finding_type policy)
      = Inr (pe_violations ev, ws)"
    using assms(1) by (auto simp: merge_results_def res_simps split: if_splits)
  have "sa_sources acc \<noteq> []" using assms(1) by (auto simp: merge_results_def)
  with assms(2,3) have "kept_results rs \<noteq> []"
    by (auto simp: summarises_def no_scripts_run_def zip_filter_empty)
  moreover have "sa_results acc = kept_results rs" "sa_raw acc = filter (\<lambda>x. x \<noteq> None) (map er_raw rs)"
    "sa_skipped acc = (\<forall>r\<in>set (kept_results rs). er_skipped r)"
    "sa_reasons acc = filter (\<lambda>x. x \<noteq> []) (map er_skip_reason (kept_results rs))"
    using assms(2) by (simp_all add: summarises_def no_scripts_run_def)
  moreover have "pe_skipped ev = sa_skipped acc" "pe_skip_reasons ev = (if sa_skipped acc then sa_reasons acc else [])"
    "pe_raw ev = engineRawResultsToAPIRawResults (sa_raw acc)"
    using assms(1) by (auto simp: merge_results_def res_simps split: if_splits)
  ultimately show ?thesis
    using engineEvaluations_violations [OF vs]
    by (auto simp: reports_def engineRawResultsToAPIRawResults_def keep_some_def)
qed

section \<open>An evaluation does not depend on the caches\<close>

definition state_ok :: "services \<Rightarrow> vstate \<Rightarrow> bool" where
  "state_ok sv st = (policy_cache_ok (sv_env sv) (vs_policies st) \<and> group_cache_ok (sv_env sv) (vs_groups st))"

text \<open>Evaluating an attachment from what the remotes answer, with no cache in between.\<close>

definition evaluation_of ::
  "services \<Rightarrow> verifier \<Rightarrow> string \<Rightarrow> eval_opts \<Rightarrow> policy_attachment \<Rightarrow> policy_evaluation option res" where
  "evaluation_of sv pv material opts att =
     bind_res (map_err PolicyErr (policy_of_ref (sv_env sv) (pv_guarded_client pv) att)) (\<lambda>(policy, ref).
     if \<not> shouldEvaluateAtPhase (attestationPhasesForKind (pol_spec policy) (opt_kind opts)) (pv_phase pv)
     then Inr None
     else
       bind_res (map_err PolicyErr (loadPolicyScriptsFromSpec (sv_env sv) (pv_guarded_client pv) policy
         (opt_kind opts) (policyLocation (get_ref att)))) (\<lambda>scripts.
       let (appendRuntime, replaceRuntime, _) =
             forPolicy (opt_runtime_inputs opts) (policy_name policy) (get_ref att)
       in evaluate_policy sv pv att material opts policy ref scripts appendRuntime replaceRuntime))"

lemma evaluate_answer:
  assumes "state_ok sv st"
  shows "fst (evaluatePolicyAttachment sv pv att material opts st) = evaluation_of sv pv material opts att"
proof -
  have "fst (loadPolicySpec (sv_env sv) (pv_guarded_client pv) (vs_policies st) att) =
      policy_of_ref (sv_env sv) (pv_guarded_client pv) att"
    using assms by (simp add: state_ok_def loadPolicySpec_answer)
  then show ?thesis
    by (cases "loadPolicySpec (sv_env sv) (pv_guarded_client pv) (vs_policies st) att")
      (auto simp: evaluatePolicyAttachment_def evaluation_of_def Let_def split: sum.split prod.split)
qed

lemma evaluate_caches:
  "vs_policies (snd (evaluatePolicyAttachment sv pv att material opts st)) =
     snd (loadPolicySpec (sv_env sv) (pv_guarded_client pv) (vs_policies st) att)"
  "vs_groups (snd (evaluatePolicyAttachment sv pv att material opts st)) = vs_groups st"
  by (auto simp: evaluatePolicyAttachment_def case_prod_beta Let_def split: sum.split)

lemma evaluate_keeps:
  "state_ok sv st \<Longrightarrow> state_ok sv (snd (evaluatePolicyAttachment sv pv att material opts st))"
  by (simp add: state_ok_def evaluate_caches loadPolicySpec_keeps)

definition task_outcome ::
  "services \<Rightarrow> verifier \<Rightarrow> string \<Rightarrow> eval_opts \<Rightarrow> policy_attachment \<Rightarrow> policy_evaluation option res" where
  "task_outcome sv pv material opts att = map_err PolicyErr (evaluation_of sv pv material opts att)"

interpretation attachment_tasks: independent_tasks
  "attachment_task sv pv subject opts atts" "\<lambda>i. task_outcome sv pv subject opts (atts ! i)" "state_ok sv"
  by unfold_locales
    (simp_all add: attachment_task_def task_outcome_def case_prod_beta evaluate_answer evaluate_keeps)

section \<open>The concurrent verifier refines the sequential one\<close>

lemma load_spec_laws:
  assumes "state_ok sv st"
  shows "fst (load_spec sv pv att st) = policy_of_ref (sv_env sv) (pv_guarded_client pv) att"
    and "state_ok sv (snd (load_spec sv pv att st))"
  using assms
  by (simp_all add: load_spec_def state_ok_def case_prod_beta loadPolicySpec_answer loadPolicySpec_keeps)

text \<open>Whether an attachment applies, from what the remotes answer.\<close>

definition applies_of :: "services \<Rightarrow> verifier \<Rightarrow> material \<Rightarrow> policy_attachment \<Rightarrow> bool res" where
  "applies_of sv pv m att =
     bind_res (map_err (Wrapf ''failed to load policy attachment %q: %w'' [get_ref att])
       (policy_of_ref (sv_env sv) (pv_guarded_client pv) att)) (\<lambda>(spec, _). Inr (attachment_applies att spec m))"

lemma shouldApplyPolicy_laws:
  assumes "state_ok sv st"
  shows "fst (shouldApplyPolicy sv pv m att st) = applies_of sv pv m att"
    and "state_ok sv (snd (shouldApplyPolicy sv pv m att st))"
  using load_spec_laws [OF assms]
  by (simp_all add: shouldApplyPolicy_def applies_of_def case_prod_beta)

lemma required_laws:
  assumes "state_ok sv st"
  shows "fst (requiredPoliciesForMaterial sv pv m st) = filter_res (applies_of sv pv m) (pols_materials (pv_policies pv))"
    and "state_ok sv (snd (requiredPoliciesForMaterial sv pv m st))"
  using filter_st_pure [where ok = "state_ok sv" and p = "shouldApplyPolicy sv pv m" and q = "applies_of sv pv m",
      OF shouldApplyPolicy_laws assms]
  by (simp_all add: requiredPoliciesForMaterial_def)

text \<open>The policies of a material evaluated one after the other, in the order of the contract.\<close>

definition material_spec ::
  "services \<Rightarrow> verifier \<Rightarrow> material \<Rightarrow> string \<Rightarrow> string \<Rightarrow> policy_evaluation list res" where
  "material_spec sv pv m path content =
     bind_res (map_err PolicyErr (filter_res (applies_of sv pv m) (pols_materials (pv_policies pv)))) (\<lambda>atts.
     if atts = [] then Inr []
     else
       bind_res (map_err PolicyErr (GetEvaluableContent (sv_content sv) m path content)) (\<lambda>subject.
       bind_res (map_res (task_outcome sv pv subject (material_opts pv m)) atts) (\<lambda>results.
       Inr (keep_some results))))"

definition statement_spec :: "services \<Rightarrow> verifier \<Rightarrow> string res \<Rightarrow> policy_evaluation list res" where
  "statement_spec sv pv statementJSON =
     bind_res (map_err PolicyErr statementJSON) (\<lambda>json.
     bind_res (map_res (task_outcome sv pv json statement_opts) (pols_attestation (pv_policies pv))) (\<lambda>results.
     Inr (keep_some results)))"

lemma state_ok_updates [simp]:
  "state_ok sv (st\<lparr>vs_tracker := t\<rparr>) = state_ok sv st" "state_ok sv (st\<lparr>vs_warned := w\<rparr>) = state_ok sv st"
  by (simp_all add: state_ok_def)

lemma attachments_run:
  assumes "schedule sched (length atts)" and "state_ok sv st"
  shows "fst (run_group sched (attachment_task sv pv subject opts atts) (length atts) st) = Inr slots \<longleftrightarrow>
           map_res (task_outcome sv pv subject opts) atts = Inr slots"
    and "state_ok sv (snd (run_group sched (attachment_task sv pv subject opts atts) (length atts) st))"
  using attachment_tasks.run_group_success [OF assms] attachment_tasks.scheduled_run [OF assms]
  by (simp_all add: outcomes_map_res)

text \<open>Two fallible computations that agree on success, and fail together, perhaps differently.\<close>

definition agrees :: "'a res \<Rightarrow> 'a res \<Rightarrow> bool" where
  "agrees r r' = (\<forall>a. r = Inr a \<longleftrightarrow> r' = Inr a)"

lemma agrees_refl [simp]: "agrees r r"
  by (simp add: agrees_def)

lemma agrees_bind: "agrees r r' \<Longrightarrow> agrees (bind_res r f) (bind_res r' f)"
  by (simp add: agrees_def bind_res_eq_Inr)

lemma agrees_fails: "agrees r r' \<Longrightarrow> (\<exists>x. r = Inl x) \<longleftrightarrow> (\<exists>x. r' = Inl x)"
  by (cases r; cases r') (auto simp: agrees_def)

lemma VerifyStatement_agrees:
  assumes "\<forall>n. schedule (sched n) n" and "state_ok sv st"
  shows "agrees (fst (VerifyStatement sched sv pv json st)) (statement_spec sv pv json)"
proof (cases json)
  case (Inl x)
  then show ?thesis by (simp add: VerifyStatement_def statement_spec_def)
next
  case (Inr j)
  let ?atts = "pols_attestation (pv_policies pv)"
  have "agrees (fst (run_group (sched (length ?atts)) (attachment_task sv pv j statement_opts ?atts)
      (length ?atts) (st\<lparr>vs_tracker := None\<rparr>))) (map_res (task_outcome sv pv j statement_opts) ?atts)"
    using assms attachments_run(1) [of "sched (length ?atts)"] by (simp add: agrees_def)
  then show ?thesis
    using Inr by (simp add: VerifyStatement_def statement_spec_def case_prod_beta Let_def agrees_bind)
qed

lemma VerifyMaterial_run:
  assumes "requiredPoliciesForMaterial sv pv m st = (Inr atts, st1)" and "atts \<noteq> []"
    and "GetEvaluableContent (sv_content sv) m path content = Inr subject"
  shows "fst (VerifyMaterial sched sv pv m path content st) =
     bind_res (fst (run_group (sched (length atts)) (attachment_task sv pv subject (material_opts pv m) atts)
       (length atts) (st1\<lparr>vs_tracker := Some {}\<rparr>))) (\<lambda>results. Inr (keep_some results))"
  using assms
  by (simp add: VerifyMaterial_def case_prod_beta split: list.split sum.split)

lemma VerifyMaterial_agrees:
  assumes "\<forall>n. schedule (sched n) n" and "state_ok sv st"
  shows "agrees (fst (VerifyMaterial sched sv pv m path content st)) (material_spec sv pv m path content)"
proof -
  obtain required st1 where req: "requiredPoliciesForMaterial sv pv m st = (required, st1)"
    by (cases "requiredPoliciesForMaterial sv pv m st")
  with required_laws [OF assms(2), of pv m] have spec: "required = filter_res (applies_of sv pv m) (pols_materials (pv_policies pv))"
    and ok: "state_ok sv st1" by simp_all
  show ?thesis
  proof (cases "(\<exists>x. required = Inl x) \<or> required = Inr [] \<or> (\<exists>x. GetEvaluableContent (sv_content sv) m path content = Inl x)")
    case True
    then show ?thesis
      by (auto simp: VerifyMaterial_def material_spec_def req spec [symmetric] split: list.split sum.split)
  next
    case False
    then obtain atts subject where atts: "required = Inr atts" "atts \<noteq> []"
      and subject: "GetEvaluableContent (sv_content sv) m path content = Inr subject"
      by (metis old.sum.exhaust)
    have "agrees (fst (run_group (sched (length atts)) (attachment_task sv pv subject (material_opts pv m) atts)
        (length atts) (st1\<lparr>vs_tracker := Some {}\<rparr>))) (map_res (task_outcome sv pv subject (material_opts pv m)) atts)"
      using assms(1) ok attachments_run(1) [of "sched (length atts)"] by (simp add: agrees_def)
    then show ?thesis
      using VerifyMaterial_run [OF req [unfolded atts] atts(2) subject] atts subject spec
      by (simp add: material_spec_def agrees_bind)
  qed
qed

section \<open>What an evaluation is about\<close>

lemma set_keep_some: "set (keep_some xs) = {x. Some x \<in> set xs}"
  by (force simp: keep_some_def)

lemma evaluation_subject:
  assumes "evaluatePolicyAttachment sv pv att material opts st = (Inr (Some ev), st')"
  shows "pe_material_name ev = opt_name opts \<and> pe_type ev = opt_kind opts \<and>
         pe_gate ev = policyAttachmentGate att (pv_default_gate pv)"
  using assms
  by (auto simp: evaluatePolicyAttachment_def evaluate_policy_def merge_results_def Let_def case_prod_beta bind_res_eq_Inr
      split: sum.splits if_splits)

lemma attachment_task_subject:
  "attachment_task sv pv subject opts atts i st = (Inr (Some ev), st') \<Longrightarrow> pe_material_name ev = opt_name opts"
  by (cases "evaluatePolicyAttachment sv pv (atts ! i) subject opts st")
    (auto simp: attachment_task_def dest: evaluation_subject)

lemma attachment_run_subject:
  assumes "fst (run_group sched (attachment_task sv pv subject opts atts) n st) = Inr slots"
    and "ev \<in> set (keep_some slots)"
  shows "pe_material_name ev = opt_name opts"
  using run_group_slots [where P = "\<lambda>ev. pe_material_name ev = opt_name opts", OF attachment_task_subject assms(1)] assms(2)
  by (simp add: set_keep_some)

lemma VerifyMaterial_subject:
  assumes "fst (VerifyMaterial sched sv pv m path content st) = Inr evs" and "ev \<in> set evs"
  shows "pe_material_name ev = mat_id m"
proof -
  obtain r st1 where req: "requiredPoliciesForMaterial sv pv m st = (r, st1)" by fastforce
  obtain atts where atts: "r = Inr atts" using assms(1) req by (cases r) (auto simp: VerifyMaterial_def)
  have "atts \<noteq> []" using assms req atts by (auto simp: VerifyMaterial_def)
  moreover obtain subject where "GetEvaluableContent (sv_content sv) m path content = Inr subject"
    using assms(1) req atts \<open>atts \<noteq> []\<close>
    by (cases "GetEvaluableContent (sv_content sv) m path content") (auto simp: VerifyMaterial_def split: list.splits)
  ultimately obtain slots where "fst (run_group (sched (length atts)) (attachment_task sv pv subject (material_opts pv m) atts)
      (length atts) (st1\<lparr>vs_tracker := Some {}\<rparr>)) = Inr slots" "evs = keep_some slots"
    using VerifyMaterial_run [OF req [unfolded atts]] assms(1) by (auto simp: bind_res_eq_Inr)
  with assms(2) attachment_run_subject show ?thesis by (fastforce simp: material_opts_def)
qed

lemma VerifyStatement_subject:
  assumes "fst (VerifyStatement sched sv pv json st) = Inr evs" and "ev \<in> set evs"
  shows "pe_material_name ev = []"
  using assms
  by (auto simp: VerifyStatement_def statement_opts_def case_prod_beta Let_def bind_res_eq_Inr
      dest: attachment_run_subject split: sum.splits)

section \<open>Failures are policy errors\<close>

lemma attachment_run_error:
  assumes "fst (run_group sched (attachment_task sv pv subject opts atts) n st) = Inl x"
  shows "\<exists>y. x = PolicyErr y"
  using run_group_error_from [OF assms] by (auto simp: attachment_task_def case_prod_beta map_err_eq_Inl)

lemma VerifyMaterial_error:
  assumes "fst (VerifyMaterial sched sv pv m path content st) = Inl x"
  shows "\<exists>y. x = PolicyErr y"
proof -
  obtain r st1 where req: "requiredPoliciesForMaterial sv pv m st = (r, st1)" by fastforce
  show ?thesis
  proof (cases "\<exists>atts subject. r = Inr atts \<and> atts \<noteq> [] \<and> GetEvaluableContent (sv_content sv) m path content = Inr subject")
    case True
    then show ?thesis
      using VerifyMaterial_run [of sv pv m st] req assms attachment_run_error by (fastforce simp: bind_res_eq_Inl)
  next
    case False
    then show ?thesis using assms req by (auto simp: VerifyMaterial_def split: sum.splits list.splits)
  qed
qed

section \<open>Properties\<close>

text \<open>
  C2. The concurrent verifier refines the sequential one: whatever order the goroutines finish in and
  whatever the caches hold, as long as their entries are what the control plane answers, verifying a
  material or a statement succeeds exactly when evaluating its policies one after the other in the
  order of the contract does, and with the same evaluations in the same order.
\<close>

theorem verification_refines_sequential:
  assumes "\<forall>n. schedule (sched n) n" and "state_ok sv st"
  shows "agrees (fst (VerifyMaterial sched sv pv m path content st)) (material_spec sv pv m path content) \<and>
         agrees (fst (VerifyStatement sched sv pv json st)) (statement_spec sv pv json)"
  using VerifyMaterial_agrees [OF assms] VerifyStatement_agrees [OF assms] by blast

lemma verifier_limit: "0 < pv_max_concurrency (fst (NewPolicyVerifier numCPU pols logger opts))"
  by (simp add: NewPolicyVerifier_def defaultMaxConcurrency_def Let_def less_max_iff_disj)


text \<open>
  C11. What a policy evaluation says of the scripts that ran: it belongs to the policy the attachment
  refers to, at a phase the policy asks for, every script of the material's kind was executed with
  the computed arguments, it is skipped only if every script that was not ignored was skipped, its
  violations are those of these scripts in order with their validated findings, and its gate is the
  attachment's own or else the verifier's default.
\<close>

theorem evaluation_reports:
  assumes "evaluatePolicyAttachment sv pv att material opts st = (Inr (Some ev), st')" and "state_ok sv st"
  shows "\<exists>policy ref scripts args rs.
     policy_of_ref (sv_env sv) (pv_guarded_client pv) att = Inr (policy, ref) \<and>
     shouldEvaluateAtPhase (attestationPhasesForKind (pol_spec policy) (opt_kind opts)) (pv_phase pv) \<and>
     loadPolicyScriptsFromSpec (sv_env sv) (pv_guarded_client pv) policy (opt_kind opts) (policyLocation (get_ref att)) = Inr scripts \<and>
     list_all2 (\<lambda>s r. executeScript sv pv s material args = Inr r) scripts rs \<and> reports sv policy rs ev \<and>
     pe_name ev = policy_name policy \<and> pe_with ev = args \<and> pe_material_name ev = opt_name opts \<and>
     pe_gate ev = policyAttachmentGate att (pv_default_gate pv)"
proof -
  have "evaluation_of sv pv material opts att = Inr (Some ev)"
    using evaluate_answer [OF assms(2), of pv att material opts] assms(1) by simp
  then obtain policy ref scripts ap rp where p: "policy_of_ref (sv_env sv) (pv_guarded_client pv) att = Inr (policy, ref)"
    and ph: "shouldEvaluateAtPhase (attestationPhasesForKind (pol_spec policy) (opt_kind opts)) (pv_phase pv)"
    and sc: "loadPolicyScriptsFromSpec (sv_env sv) (pv_guarded_client pv) policy (opt_kind opts) (policyLocation (get_ref att)) = Inr scripts"
    and ev: "evaluate_policy sv pv att material opts policy ref scripts ap rp = Inr (Some ev)"
    by (auto simp: evaluation_of_def res_simps case_prod_beta split: if_splits)
  from ev obtain args acc where run: "run_scripts (\<lambda>script. executeScript sv pv script material args) scripts no_scripts_run = Inr acc"
    and mg: "merge_results sv pv att opts policy ref args (runtime_input_overrides ap rp args) acc = Inr (Some ev)"
    by (auto simp: evaluate_policy_def Let_def res_simps)
  from run_scripts_summary [OF run] obtain rs where rs: "list_all2 (\<lambda>s r. executeScript sv pv s material args = Inr r) scripts rs"
    and sm: "summarises scripts rs no_scripts_run acc" by blast
  from mg have "pe_name ev = policy_name policy" "pe_with ev = args"
    by (auto simp: merge_results_def res_simps split: if_splits)
  with p ph sc rs merge_results_reports [OF mg sm list_all2_lengthD [OF rs]] evaluation_subject [OF assms(1)]
  show ?thesis by blast
qed

end
