(* ===== verification/Netguard.thy ===== *)
theory Netguard
  imports Prelude "HOL-Library.Word"
begin

text \<open>
  The network guard (\<open>pkg/netguard/netguard.go\<close>): which addresses are publicly routable, and the
  dialer that refuses every host with an address that is not. An IP address is, as in Go's
  \<open>net\<close> package, a list of 4 or 16 bytes; the predicates of that package the guard calls
  (\<open>To4\<close>, \<open>IsGlobalUnicast\<close>, \<open>IsPrivate\<close>, \<open>IPNet.Contains\<close>) are part of the model. Name
  resolution, dialling and splitting a host from a port are parameters.
\<close>

unbundle bit_operations_syntax

section \<open>Addresses of Go's net package\<close>

type_synonym byte = "8 word"
type_synonym ip = "byte list"

definition v4InV6Prefix :: ip where
  "v4InV6Prefix = [0, 0, 0, 0, 0, 0, 0, 0, 0, 0, 0xff, 0xff]"

definition To4 :: "ip \<Rightarrow> ip option" where
  "To4 ip =
     (if length ip = 4 then Some ip
      else if length ip = 16 \<and> take 12 ip = v4InV6Prefix then Some (drop 12 ip)
      else None)"

definition IPv4 :: "byte \<Rightarrow> byte \<Rightarrow> byte \<Rightarrow> byte \<Rightarrow> ip" where
  "IPv4 a b c d = v4InV6Prefix @ [a, b, c, d]"

text \<open>\<open>IP.Equal\<close> does not distinguish an IPv4 address from its IPv6 form.\<close>

definition ip_equal :: "ip \<Rightarrow> ip \<Rightarrow> bool" where
  "ip_equal x y =
     (if length x = length y then x = y
      else if length x = 4 \<and> length y = 16 then take 12 y = v4InV6Prefix \<and> x = drop 12 y
      else if length x = 16 \<and> length y = 4 then take 12 x = v4InV6Prefix \<and> drop 12 x = y
      else False)"

definition IPv4bcast :: ip where "IPv4bcast = IPv4 255 255 255 255"
definition IPv4zero :: ip where "IPv4zero = IPv4 0 0 0 0"
definition IPv6unspecified :: ip where "IPv6unspecified = [0, 0, 0, 0, 0, 0, 0, 0, 0, 0, 0, 0, 0, 0, 0, 0]"
definition IPv6loopback :: ip where "IPv6loopback = [0, 0, 0, 0, 0, 0, 0, 0, 0, 0, 0, 0, 0, 0, 0, 1]"

definition IsUnspecified :: "ip \<Rightarrow> bool" where
  "IsUnspecified ip = (ip_equal ip IPv4zero \<or> ip_equal ip IPv6unspecified)"

definition IsLoopback :: "ip \<Rightarrow> bool" where
  "IsLoopback ip = (case To4 ip of Some ip4 \<Rightarrow> ip4 ! 0 = 127 | None \<Rightarrow> ip_equal ip IPv6loopback)"

definition IsMulticast :: "ip \<Rightarrow> bool" where
  "IsMulticast ip = (case To4 ip of
       Some ip4 \<Rightarrow> (ip4 ! 0) AND 0xf0 = 0xe0
     | None \<Rightarrow> length ip = 16 \<and> ip ! 0 = 0xff)"

definition IsLinkLocalUnicast :: "ip \<Rightarrow> bool" where
  "IsLinkLocalUnicast ip = (case To4 ip of
       Some ip4 \<Rightarrow> ip4 ! 0 = 169 \<and> ip4 ! 1 = 254
     | None \<Rightarrow> length ip = 16 \<and> ip ! 0 = 0xfe \<and> (ip ! 1) AND 0xc0 = 0x80)"

definition IsGlobalUnicast :: "ip \<Rightarrow> bool" where
  "IsGlobalUnicast ip =
     ((length ip = 4 \<or> length ip = 16) \<and> \<not> ip_equal ip IPv4bcast \<and> \<not> IsUnspecified ip \<and>
      \<not> IsLoopback ip \<and> \<not> IsMulticast ip \<and> \<not> IsLinkLocalUnicast ip)"

definition IsPrivate :: "ip \<Rightarrow> bool" where
  "IsPrivate ip = (case To4 ip of
       Some ip4 \<Rightarrow> ip4 ! 0 = 10 \<or> (ip4 ! 0 = 172 \<and> (ip4 ! 1) AND 0xf0 = 16) \<or> (ip4 ! 0 = 192 \<and> ip4 ! 1 = 168)
     | None \<Rightarrow> length ip = 16 \<and> (ip ! 0) AND 0xfe = 0xfc)"

record ipnet =
  net_ip :: ip
  net_mask :: "byte list"

text \<open>\<open>CIDRMask\<close>: the leading \<open>ones\<close> bits of a mask of \<open>n\<close> bytes.\<close>

definition CIDRMask :: "nat \<Rightarrow> nat \<Rightarrow> byte list" where
  "CIDRMask ones n =
     map (\<lambda>i. if 8 * (i + 1) \<le> ones then 0xff
              else if ones \<le> 8 * i then 0
              else NOT (mask (8 - (ones - 8 * i)))) [0..<n]"

definition cidr :: "ip \<Rightarrow> nat \<Rightarrow> ipnet" where
  "cidr ip ones = \<lparr>net_ip = ip, net_mask = CIDRMask ones (length ip)\<rparr>"

text \<open>
  \<open>IPNet.Contains\<close>: an IPv4 address in either form is compared in its short form, and addresses of
  different lengths never match.
\<close>

definition net_contains :: "ipnet \<Rightarrow> ip \<Rightarrow> bool" where
  "net_contains n ip =
     (let nn = net_ip n; m = net_mask n;
          ip = (case To4 ip of Some x \<Rightarrow> x | None \<Rightarrow> ip)
      in length ip = length nn \<and>
         (\<forall>i\<in>set [0..<length ip]. (nn ! i) AND (m ! i) = (ip ! i) AND (m ! i)))"

section \<open>The guard\<close>

definition ErrBlockedTarget :: err where
  "ErrBlockedTarget = Errorf ''blocked outbound request'' []"

definition v6 :: "16 word list \<Rightarrow> ip" where
  "v6 groups = concat (map (\<lambda>g. [ucast (drop_bit 8 g), ucast g]) groups)"

definition blockedNets :: "ipnet list" where
  "blockedNets =
     [cidr [0, 0, 0, 0] 8, cidr [100, 64, 0, 0] 10, cidr [192, 0, 0, 0] 24, cidr [192, 0, 2, 0] 24,
      cidr [198, 18, 0, 0] 15, cidr [198, 51, 100, 0] 24, cidr [203, 0, 113, 0] 24, cidr [240, 0, 0, 0] 4,
      cidr (v6 [0, 0, 0, 0, 0, 0, 0, 0]) 96, cidr (v6 [0x64, 0xff9b, 0, 0, 0, 0, 0, 0]) 96,
      cidr (v6 [0x64, 0xff9b, 1, 0, 0, 0, 0, 0]) 48, cidr (v6 [0x100, 0, 0, 0, 0, 0, 0, 0]) 64,
      cidr (v6 [0x2001, 0, 0, 0, 0, 0, 0, 0]) 32, cidr (v6 [0x2001, 2, 0, 0, 0, 0, 0, 0]) 48,
      cidr (v6 [0x2001, 0xdb8, 0, 0, 0, 0, 0, 0]) 32, cidr (v6 [0x2002, 0, 0, 0, 0, 0, 0, 0]) 16]"

definition IsPubliclyRoutable :: "ip \<Rightarrow> bool" where
  "IsPubliclyRoutable ip =
     (if ip = [] then False
      else if \<not> IsGlobalUnicast ip then False
      else if IsPrivate ip then False
      else
        let ip = (case To4 ip of Some v4 \<Rightarrow> v4 | None \<Rightarrow> ip) in
        \<not> list_ex (\<lambda>blocked. net_contains blocked ip) blockedNets)"

record 'conn dial_env =
  de_split_host_port :: "string \<Rightarrow> (string \<times> string) option"
  de_resolve :: "string \<Rightarrow> ip list res"
  de_dial :: "string \<Rightarrow> ip \<Rightarrow> string \<Rightarrow> 'conn res" \<comment> \<open>network, address, port\<close>
  de_ip_text :: "ip \<Rightarrow> string"

text \<open>The loop that dials the addresses in turn; \<open>lastErr\<close> is the error of the last one.\<close>

fun dial_first :: "(ip \<Rightarrow> 'conn res) \<Rightarrow> ip list \<Rightarrow> err \<Rightarrow> 'conn res" where
  "dial_first dial [] lastErr = Inl lastErr"
| "dial_first dial (ip # ips) lastErr =
     (case dial ip of Inr conn \<Rightarrow> Inr conn | Inl x \<Rightarrow> dial_first dial ips x)"

definition nil_error :: err where
  "nil_error = Errorf [] []"

definition PublicOnlyDialContext :: "'conn dial_env \<Rightarrow> string \<Rightarrow> string \<Rightarrow> 'conn res" where
  "PublicOnlyDialContext de network addr =
     (case de_split_host_port de addr of
        None \<Rightarrow> Inl (Wrapf ''%w: malformed address %q'' [addr] ErrBlockedTarget)
      | Some (host, port) \<Rightarrow>
          bind_res (map_err (Wrapf ''resolving %q: %w'' [host]) (de_resolve de host)) (\<lambda>ips.
          if ips = [] then Inl (Wrapf ''%w: %q did not resolve to any address'' [host] ErrBlockedTarget)
          else case find (\<lambda>ip. \<not> IsPubliclyRoutable ip) ips of
            Some ip \<Rightarrow> Inl (Wrapf ''%w: %q resolves to non-public address %s'' [host, de_ip_text de ip] ErrBlockedTarget)
          | None \<Rightarrow> dial_first (\<lambda>ip. de_dial de network ip port) ips nil_error))"

section \<open>Prefixes as number ranges\<close>

text \<open>The bytes of an address as one number, most significant byte first.\<close>

fun be_val :: "byte list \<Rightarrow> nat" where
  "be_val [] = 0"
| "be_val (x # xs) = unat x * 256 ^ length xs + be_val xs"

fun prefix_eq :: "nat \<Rightarrow> byte list \<Rightarrow> byte list \<Rightarrow> bool" where
  "prefix_eq ones (x # xs) (y # ys) =
     (if 8 \<le> ones then x = y \<and> prefix_eq (ones - 8) xs ys
      else drop_bit (8 - ones) x = drop_bit (8 - ones) y)"
| "prefix_eq ones _ _ = True"

lemma be_val_bound: "be_val xs < 256 ^ length xs"
proof (induction xs)
  case (Cons x xs)
  have "unat x < 256" using unsigned_less [of x] by simp
  then have "unat x * 256 ^ length xs + be_val xs < Suc (unat x) * 256 ^ length xs"
    using Cons by simp
  also have "\<dots> \<le> 256 * 256 ^ length xs"
    using \<open>unat x < 256\<close> by (intro mult_le_mono1) simp
  finally show ?case by simp
qed simp

lemma and_mask_eq:
  fixes x y :: byte
  shows "x AND NOT (mask n) = y AND NOT (mask n) \<longleftrightarrow> drop_bit n x = drop_bit n y"
proof
  assume eq: "x AND NOT (mask n) = y AND NOT (mask n)"
  show "drop_bit n x = drop_bit n y"
  proof (rule bit_eqI)
    fix k
    have "bit (x AND NOT (mask n)) (n + k) = bit (y AND NOT (mask n)) (n + k)" by (simp only: eq)
    then show "bit (drop_bit n x) k = bit (drop_bit n y) k"
      by (cases "n + k < 8") (auto simp: bit_simps dest: bit_imp_le_length)
  qed
next
  assume eq: "drop_bit n x = drop_bit n y"
  show "x AND NOT (mask n) = y AND NOT (mask n)"
  proof (rule bit_eqI)
    fix k
    have "bit (drop_bit n x) (k - n) = bit (drop_bit n y) (k - n)" by (simp only: eq)
    then show "bit (x AND NOT (mask n)) k = bit (y AND NOT (mask n)) k"
      by (cases "n \<le> k") (auto simp: bit_simps)
  qed
qed

lemma drop_bit_unat:
  fixes x y :: byte
  shows "drop_bit n x = drop_bit n y \<longleftrightarrow> unat x div 2 ^ n = unat y div 2 ^ n"
  by (metis drop_bit_eq_div unat_drop_bit_eq word_unat_eq_iff)

lemma CIDRMask_Suc:
  "CIDRMask ones (Suc n) =
     (if 8 \<le> ones then 0xff else if ones = 0 then 0 else NOT (mask (8 - ones))) # CIDRMask (ones - 8) n"
  by (simp add: CIDRMask_def map_upt_Suc del: upt_Suc) (auto simp: algebra_simps)

lemma masked_prefix_eq:
  "length xs = length ys \<Longrightarrow>
     (\<forall>i\<in>set [0..<length xs]. (ys ! i) AND (CIDRMask ones (length xs) ! i) = (xs ! i) AND (CIDRMask ones (length xs) ! i)) \<longleftrightarrow>
     prefix_eq ones ys xs"
proof (induction xs ys arbitrary: ones rule: list_induct2)
  case (Cons x xs y ys)
  have split: "(\<forall>i\<in>set [0..<Suc n]. P i) \<longleftrightarrow> P 0 \<and> (\<forall>i\<in>set [0..<n]. P (Suc i))" for P and n :: nat
    unfolding set_upt atLeast0LessThan Ball_def lessThan_iff by (rule All_less_Suc2)
  have full: "z AND 0xff = z" for z :: byte
  proof -
    have "(0xff :: byte) = - 1" by simp
    then show ?thesis by (simp only: and.right_neutral)
  qed
  have none: "CIDRMask 0 n ! i = 0" if "i \<in> set [0..<n]" for n i
    using that by (simp add: CIDRMask_def)
  have zero: "drop_bit 8 z = 0" for z :: byte
    by (rule bit_eqI) (auto simp: bit_simps dest: bit_imp_le_length)
  have len: "length (x # xs) = Suc (length xs)" by simp
  show ?case
    unfolding len split CIDRMask_Suc nth_Cons_0 nth_Cons_Suc prefix_eq.simps
    using Cons.IH [of "ones - 8"]
    by (cases "8 \<le> ones"; cases "ones = 0") (auto simp: none zero full and_mask_eq simp del: set_upt)
qed simp

lemma div_prefix_step:
  fixes a b u v m :: nat
  assumes "u < m" and "v < m" and "m = q * p" and "0 < p"
  shows "(a * m + u) div p = (b * m + v) div p \<longleftrightarrow> a = b \<and> u div p = v div p"
proof -
  have "(a * m + u) div p = a * q + u div p" and "(b * m + v) div p = b * q + v div p"
    using assms(3,4) by (simp_all add: mult.assoc [symmetric])
  moreover have "u div p < q" and "v div p < q"
    using assms by (simp_all add: less_mult_imp_div_less)
  ultimately show ?thesis
    by (metis add_right_cancel div_mult_self3 div_less add_0 mod_mult_self3 mod_less less_nat_zero_code)
qed

lemma prefix_eq_div:
  assumes "length xs = length ys" and "ones \<le> 8 * length xs"
  shows "prefix_eq ones xs ys \<longleftrightarrow>
     be_val xs div 2 ^ (8 * length xs - ones) = be_val ys div 2 ^ (8 * length xs - ones)"
  using assms
proof (induction xs ys arbitrary: ones rule: list_induct2)
  case (Cons x xs y ys)
  let ?n = "length xs"
  have m: "(256::nat) ^ ?n = 2 ^ (8 * ?n)" by (simp add: power_mult)
  show ?case
  proof (cases "8 \<le> ones")
    case True
    let ?k = "8 * ?n - (ones - 8)"
    have le: "ones - 8 \<le> 8 * ?n" using Cons.prems True by simp
    then have "(256::nat) ^ ?n = 2 ^ (ones - 8) * 2 ^ ?k" by (simp add: m flip: power_add)
    from div_prefix_step [OF _ _ this, of "be_val xs" "be_val ys" "unat x" "unat y"]
    show ?thesis
      using Cons.IH [OF le] True Cons.hyps be_val_bound [of xs] be_val_bound [of ys]
      by (simp add: add.commute word_unat_eq_iff)
  next
    case False
    have "(unat z * 256 ^ ?n + be_val zs) div 2 ^ (8 * Suc ?n - ones) = unat z div 2 ^ (8 - ones)"
      if "length zs = ?n" for z :: byte and zs
    proof -
      have e: "(2::nat) ^ (8 * Suc ?n - ones) = 256 ^ ?n * 2 ^ (8 - ones)"
        using False by (simp add: m flip: power_add)
      have "(unat z * 256 ^ ?n + be_val zs) div 256 ^ ?n = unat z"
        using be_val_bound [of zs] that by simp
      then show ?thesis unfolding e by (simp only: div_mult2_eq)
    qed
    from this [of xs x] this [of ys y] show ?thesis
      using False Cons.hyps by (simp add: drop_bit_unat)
  qed
qed simp

text \<open>A prefix of an address is a range of numbers.\<close>

lemma net_contains_range:
  assumes "length ip = length n" and "To4 ip = Some ip \<or> To4 ip = None" and "ones \<le> 8 * length n"
  shows "net_contains (cidr n ones) ip \<longleftrightarrow>
     be_val ip div 2 ^ (8 * length n - ones) = be_val n div 2 ^ (8 * length n - ones)"
proof -
  have "(case To4 ip of Some x \<Rightarrow> x | None \<Rightarrow> ip) = ip" using assms(2) by auto
  then have "net_contains (cidr n ones) ip \<longleftrightarrow> prefix_eq ones n ip"
    using masked_prefix_eq [OF assms(1), of ones] assms(1) by (simp add: net_contains_def cidr_def Let_def)
  also have "\<dots> \<longleftrightarrow> be_val n div 2 ^ (8 * length n - ones) = be_val ip div 2 ^ (8 * length n - ones)"
    by (rule prefix_eq_div) (use assms in simp_all)
  finally show ?thesis by auto
qed

section \<open>The addresses that are publicly routable\<close>

lemma net_contains_prefix:
  assumes "length ip = length n" and "To4 ip = Some ip \<or> To4 ip = None"
  shows "net_contains (cidr n ones) ip \<longleftrightarrow> prefix_eq ones n ip"
proof -
  have "(case To4 ip of Some x \<Rightarrow> x | None \<Rightarrow> ip) = ip" using assms(2) by auto
  then show ?thesis
    using masked_prefix_eq [OF assms(1), of ones] assms(1) by (simp add: net_contains_def cidr_def Let_def)
qed

lemma net_contains_other_length:
  "To4 ip = Some ip \<or> To4 ip = None \<Longrightarrow> length ip \<noteq> length n \<Longrightarrow> \<not> net_contains (cidr n ones) ip"
  by (auto simp: net_contains_def cidr_def Let_def split: option.splits)

text \<open>Prefix and length of the ranges that are refused.\<close>

definition reserved_v4 :: "(ip \<times> nat) list" where
  "reserved_v4 =
     [([0, 0, 0, 0], 8), ([10, 0, 0, 0], 8), ([100, 64, 0, 0], 10), ([127, 0, 0, 0], 8), ([169, 254, 0, 0], 16),
      ([172, 16, 0, 0], 12), ([192, 0, 0, 0], 24), ([192, 0, 2, 0], 24), ([192, 168, 0, 0], 16),
      ([198, 18, 0, 0], 15), ([198, 51, 100, 0], 24), ([203, 0, 113, 0], 24), ([224, 0, 0, 0], 4),
      ([240, 0, 0, 0], 4)]"

definition reserved_v6 :: "(ip \<times> nat) list" where
  "reserved_v6 =
     [(v6 [0, 0, 0, 0, 0, 0, 0, 0], 96), (v6 [0x64, 0xff9b, 0, 0, 0, 0, 0, 0], 96),
      (v6 [0x64, 0xff9b, 1, 0, 0, 0, 0, 0], 48), (v6 [0x100, 0, 0, 0, 0, 0, 0, 0], 64),
      (v6 [0x2001, 0, 0, 0, 0, 0, 0, 0], 32), (v6 [0x2001, 2, 0, 0, 0, 0, 0, 0], 48),
      (v6 [0x2001, 0xdb8, 0, 0, 0, 0, 0, 0], 32), (v6 [0x2002, 0, 0, 0, 0, 0, 0, 0], 16),
      (v6 [0xfc00, 0, 0, 0, 0, 0, 0, 0], 7), (v6 [0xfe80, 0, 0, 0, 0, 0, 0, 0], 10),
      (v6 [0xff00, 0, 0, 0, 0, 0, 0, 0], 8)]"

text \<open>An address is in a range when the numbers agree above the bits the prefix leaves free.\<close>

definition in_range :: "ip \<Rightarrow> ip \<times> nat \<Rightarrow> bool" where
  "in_range ip rng = (case rng of (n, ones) \<Rightarrow>
     be_val ip div 2 ^ (8 * length n - ones) = be_val n div 2 ^ (8 * length n - ones))"

lemma masked_byte:
  fixes x c :: byte
  assumes "c AND NOT (mask n) = c"
  shows "x AND NOT (mask n) = c \<longleftrightarrow> drop_bit n x = drop_bit n c"
  using and_mask_eq [of x n c] assms by metis

lemma byte_masks:
  "(x :: byte) AND 0xf0 = 0xe0 \<longleftrightarrow> drop_bit 4 x = 14" "x AND 0xf0 = 16 \<longleftrightarrow> drop_bit 4 x = 1"
  "x AND 0xc0 = 0x80 \<longleftrightarrow> drop_bit 6 x = 2" "x AND 0xfe = 0xfc \<longleftrightarrow> drop_bit 1 x = 126"
proof -
  have neg: "(- 16 :: byte) = 0xf0" "(- 64 :: byte) = 0xc0" "(- 2 :: byte) = 0xfe" by simp_all
  show "x AND 0xf0 = 0xe0 \<longleftrightarrow> drop_bit 4 x = 14" "x AND 0xf0 = 16 \<longleftrightarrow> drop_bit 4 x = 1"
    "x AND 0xc0 = 0x80 \<longleftrightarrow> drop_bit 6 x = 2" "x AND 0xfe = 0xfc \<longleftrightarrow> drop_bit 1 x = 126"
    using masked_byte [where c = "0xe0" and n = 4 and x = x] masked_byte [where c = "16" and n = 4 and x = x]
      masked_byte [where c = "0x80" and n = 6 and x = x] masked_byte [where c = "0xfc" and n = 1 and x = x]
    by (simp_all add: mask_eq_exp_minus_1 neg)
qed

lemma routable_v4_prefix:
  "IsPubliclyRoutable [a, b, c, d] \<longleftrightarrow> (\<forall>(n, ones)\<in>set reserved_v4. \<not> prefix_eq ones n [a, b, c, d])"
proof -
  have t: "To4 [a, b, c, d] = Some [a, b, c, d]" by (simp add: To4_def)
  have nets: "list_ex (\<lambda>n. net_contains n [a, b, c, d]) blockedNets \<longleftrightarrow>
     (\<exists>(n, ones)\<in>{([0, 0, 0, 0], 8), ([100, 64, 0, 0], 10), ([192, 0, 0, 0], 24), ([192, 0, 2, 0], 24),
       ([198, 18, 0, 0], 15), ([198, 51, 100, 0], 24), ([203, 0, 113, 0], 24), ([240, 0, 0, 0], 4)}.
       prefix_eq ones n [a, b, c, d])"
    by (simp add: blockedNets_def v6_def net_contains_prefix net_contains_other_length t)
  have special: "ip_equal [a, b, c, d] IPv4bcast \<longleftrightarrow> a = 255 \<and> b = 255 \<and> c = 255 \<and> d = 255"
    "IsUnspecified [a, b, c, d] \<longleftrightarrow> a = 0 \<and> b = 0 \<and> c = 0 \<and> d = 0"
    "IsLoopback [a, b, c, d] \<longleftrightarrow> a = 127" "IsMulticast [a, b, c, d] \<longleftrightarrow> drop_bit 4 a = 14"
    "IsLinkLocalUnicast [a, b, c, d] \<longleftrightarrow> a = 169 \<and> b = 254"
    "IsPrivate [a, b, c, d] \<longleftrightarrow> a = 10 \<or> a = 172 \<and> drop_bit 4 b = 1 \<or> a = 192 \<and> b = 168"
    by (simp_all add: ip_equal_def IPv4bcast_def IsUnspecified_def IPv4zero_def IPv6unspecified_def IPv4_def
        v4InV6Prefix_def IsLoopback_def IsMulticast_def IsLinkLocalUnicast_def IsPrivate_def t byte_masks)
  show ?thesis
    unfolding IsPubliclyRoutable_def t option.case Let_def nets IsGlobalUnicast_def special reserved_v4_def
    by (simp; cases "a = 255"; cases "a = 0"; simp; argo)
qed

lemma length16: "length ip = 16 \<Longrightarrow> \<exists>x y r. ip = x # y # r \<and> length r = 14"
  by (cases ip; cases "tl ip") auto

lemma routable_v6_prefix:
  assumes "length ip = 16" and "To4 ip = None"
  shows "IsPubliclyRoutable ip \<longleftrightarrow> (\<forall>(n, ones)\<in>set reserved_v6. \<not> prefix_eq ones n ip)"
proof -
  obtain x y r where ip: "ip = x # y # r" using length16 [OF assms(1)] by blast
  have nets: "list_ex (\<lambda>n. net_contains n ip) blockedNets \<longleftrightarrow>
     (\<exists>(n, ones)\<in>set (take 8 reserved_v6). prefix_eq ones n ip)"
    using assms
    by (simp add: blockedNets_def reserved_v6_def v6_def net_contains_prefix net_contains_other_length)
  have special: "\<not> ip_equal ip IPv4bcast" "\<not> ip_equal ip IPv4zero"
    using assms by (auto simp: ip_equal_def To4_def IPv4bcast_def IPv4zero_def IPv4_def v4InV6Prefix_def)
  have low: "IsUnspecified ip \<or> IsLoopback ip \<Longrightarrow> prefix_eq 96 (v6 [0, 0, 0, 0, 0, 0, 0, 0]) ip"
    using assms special by (auto simp: IsUnspecified_def IsLoopback_def ip_equal_def IPv6unspecified_def IPv6loopback_def v6_def)
  have high: "IsMulticast ip \<longleftrightarrow> prefix_eq 8 (v6 [0xff00, 0, 0, 0, 0, 0, 0, 0]) ip"
    "IsLinkLocalUnicast ip \<longleftrightarrow> prefix_eq 10 (v6 [0xfe80, 0, 0, 0, 0, 0, 0, 0]) ip"
    "IsPrivate ip \<longleftrightarrow> prefix_eq 7 (v6 [0xfc00, 0, 0, 0, 0, 0, 0, 0]) ip"
    using assms by (auto simp: IsMulticast_def IsLinkLocalUnicast_def IsPrivate_def byte_masks v6_def ip)
  have "(\<exists>(n, ones)\<in>set reserved_v6. prefix_eq ones n ip) \<longleftrightarrow>
     (\<exists>(n, ones)\<in>set (take 8 reserved_v6). prefix_eq ones n ip) \<or> IsMulticast ip \<or> IsLinkLocalUnicast ip \<or> IsPrivate ip"
    unfolding high by (simp add: reserved_v6_def) argo
  moreover have "IsUnspecified ip \<or> IsLoopback ip \<Longrightarrow> (\<exists>(n, ones)\<in>set (take 8 reserved_v6). prefix_eq ones n ip)"
    using low by (simp add: reserved_v6_def)
  ultimately show ?thesis
    using assms special by (auto simp: IsPubliclyRoutable_def nets IsGlobalUnicast_def Let_def)
qed

lemma reserved_lengths:
  "r \<in> set reserved_v4 \<Longrightarrow> length (fst r) = 4 \<and> snd r \<le> 32"
  "r \<in> set reserved_v6 \<Longrightarrow> length (fst r) = 16 \<and> snd r \<le> 128"
  by (auto simp: reserved_v4_def reserved_v6_def v6_def)

text \<open>The form of an IPv4 address does not matter.\<close>

lemma routable_mapped: "IsPubliclyRoutable (v4InV6Prefix @ [a, b, c, d]) = IsPubliclyRoutable [a, b, c, d]"
proof -
  have t: "To4 (v4InV6Prefix @ [a, b, c, d]) = Some [a, b, c, d]" "To4 [a, b, c, d] = Some [a, b, c, d]"
    by (simp_all add: To4_def v4InV6Prefix_def)
  let ?m = "v4InV6Prefix @ [a, b, c, d]"
  have "ip_equal ?m IPv4bcast = ip_equal [a, b, c, d] IPv4bcast" "ip_equal ?m IPv4zero = ip_equal [a, b, c, d] IPv4zero"
    "\<not> ip_equal ?m IPv6unspecified" "\<not> ip_equal [a, b, c, d] IPv6unspecified"
    by (simp_all add: ip_equal_def IPv4bcast_def IPv4zero_def IPv6unspecified_def IPv4_def v4InV6Prefix_def)
  moreover have "length ?m = 16" "?m \<noteq> []" by (simp_all add: v4InV6Prefix_def)
  ultimately show ?thesis
    unfolding IsPubliclyRoutable_def IsGlobalUnicast_def IsUnspecified_def IsLoopback_def IsMulticast_def
      IsLinkLocalUnicast_def IsPrivate_def t option.case by simp
qed

lemma dial_first_Inr: "dial_first dial ips x = Inr conn \<Longrightarrow> \<exists>ip\<in>set ips. dial ip = Inr conn"
  by (induction ips arbitrary: x) (auto split: sum.splits)

section \<open>Properties\<close>

text \<open>
  C35. The IPv4 addresses the guard lets through are exactly those outside fourteen reserved ranges,
  read as ranges of 32-bit numbers; this includes the ranges the Go library checks (loopback,
  private, link-local, multicast, broadcast) and those the guard adds. The IPv6 form of an IPv4
  address is judged alike.
\<close>

theorem IsPubliclyRoutable_v4:
  "IsPubliclyRoutable [a, b, c, d] = list_all (\<lambda>r. \<not> in_range [a, b, c, d] r) reserved_v4 \<and>
   IsPubliclyRoutable (v4InV6Prefix @ [a, b, c, d]) = IsPubliclyRoutable [a, b, c, d]"
proof -
  have "prefix_eq (snd r) (fst r) [a, b, c, d] = in_range [a, b, c, d] r" if "r \<in> set reserved_v4" for r
    using reserved_lengths(1) [OF that] prefix_eq_div [of "fst r" "[a, b, c, d]" "snd r"]
    by (auto simp: in_range_def case_prod_beta)
  then show ?thesis by (auto simp: routable_v4_prefix routable_mapped case_prod_beta list_all_iff)
qed

text \<open>
  The IPv6 addresses that are not an IPv4 address in disguise are let through exactly when they
  are outside eleven reserved ranges of 128-bit numbers.
\<close>

theorem IsPubliclyRoutable_v6:
  assumes "length ip = 16" and "take 12 ip \<noteq> v4InV6Prefix"
  shows "IsPubliclyRoutable ip = (\<forall>r\<in>set reserved_v6. \<not> in_range ip r)"
proof -
  have "prefix_eq (snd r) (fst r) ip = in_range ip r" if "r \<in> set reserved_v6" for r
    using reserved_lengths(2) [OF that] prefix_eq_div [of "fst r" ip "snd r"] assms(1)
    by (auto simp: in_range_def case_prod_beta)
  moreover have "To4 ip = None" using assms by (simp add: To4_def)
  ultimately show ?thesis using assms(1) by (auto simp: routable_v6_prefix case_prod_beta)
qed

theorem IsPubliclyRoutable_v6_witness:
  "IsPubliclyRoutable (v6 [0x2606, 0x4700, 0, 0, 0, 0, 0, 0x1111]) \<and>
   list_all (\<lambda>r. \<not> in_range (v6 [0x2606, 0x4700, 0, 0, 0, 0, 0, 0x1111]) r) reserved_v6"
proof -
  have "IsPubliclyRoutable (v6 [0x2606, 0x4700, 0, 0, 0, 0, 0, 0x1111])" by code_simp
  moreover have "length (v6 [0x2606, 0x4700, 0, 0, 0, 0, 0, 0x1111]) = 16"
    and "take 12 (v6 [0x2606, 0x4700, 0, 0, 0, 0, 0, 0x1111]) \<noteq> v4InV6Prefix"
    by (simp_all add: v6_def v4InV6Prefix_def)
  ultimately show ?thesis using IsPubliclyRoutable_v6 unfolding list_all_iff by blast
qed

text \<open>
  C34. The guarded dialer connects only to an address it has checked: the connection it returns was
  opened to one of the addresses the host resolved to, all of which are publicly routable. A host
  with any address that is not is refused with \<open>ErrBlockedTarget\<close>, and nothing is dialled.
\<close>

theorem PublicOnlyDialContext_safe:
  "(PublicOnlyDialContext de network addr = Inr conn \<longrightarrow>
      (\<exists>host port ips ip. de_split_host_port de addr = Some (host, port) \<and> de_resolve de host = Inr ips \<and>
         ip \<in> set ips \<and> (\<forall>x\<in>set ips. IsPubliclyRoutable x) \<and> de_dial de network ip port = Inr conn)) \<and>
   (de_split_host_port de addr = Some (host, port) \<and> de_resolve de host = Inr ips \<and>
      (ips = [] \<or> (\<exists>x\<in>set ips. \<not> IsPubliclyRoutable x)) \<longrightarrow>
      (\<exists>e. \<forall>dial. PublicOnlyDialContext (de\<lparr>de_dial := dial\<rparr>) network addr = Inl e \<and> errors_is e ErrBlockedTarget))"
proof (intro conjI impI)
  assume "PublicOnlyDialContext de network addr = Inr conn"
  then show "\<exists>host port ips ip. de_split_host_port de addr = Some (host, port) \<and> de_resolve de host = Inr ips \<and>
      ip \<in> set ips \<and> (\<forall>x\<in>set ips. IsPubliclyRoutable x) \<and> de_dial de network ip port = Inr conn"
    by (auto simp: PublicOnlyDialContext_def res_simps find_None_iff split: option.splits if_splits dest!: dial_first_Inr)
      blast
next
  assume bad: "de_split_host_port de addr = Some (host, port) \<and> de_resolve de host = Inr ips \<and>
      (ips = [] \<or> (\<exists>x\<in>set ips. \<not> IsPubliclyRoutable x))"
  then have "ips = [] \<or> (\<exists>ip. find (\<lambda>ip. \<not> IsPubliclyRoutable ip) ips = Some ip)"
    by (metis (no_types, lifting) find_None_iff option.exhaust)
  with bad show "\<exists>e. \<forall>dial. PublicOnlyDialContext (de\<lparr>de_dial := dial\<rparr>) network addr = Inl e \<and> errors_is e ErrBlockedTarget"
    by (auto simp: PublicOnlyDialContext_def ErrBlockedTarget_def)
qed

definition example_dialer :: "nat dial_env" where
  "example_dialer =
     \<lparr>de_split_host_port = (\<lambda>_. Some (''example.com'', ''443'')),
      de_resolve = (\<lambda>host. Inr [[93, 184, 216, 34]]),
      de_dial = (\<lambda>network ip port. Inr (length port)),
      de_ip_text = (\<lambda>_. [])\<rparr>"

theorem PublicOnlyDialContext_safe_witness:
  "PublicOnlyDialContext example_dialer ''tcp'' ''example.com:443'' = Inr 3 \<and>
   (\<exists>host port ips ip. de_split_host_port example_dialer ''example.com:443'' = Some (host, port) \<and>
      de_resolve example_dialer host = Inr ips \<and> ip \<in> set ips \<and> list_all IsPubliclyRoutable ips \<and>
      de_dial example_dialer ''tcp'' ip port = Inr 3)"
proof -
  have "PublicOnlyDialContext example_dialer ''tcp'' ''example.com:443'' = Inr 3" by code_simp
  then show ?thesis using PublicOnlyDialContext_safe [of example_dialer "''tcp''" "''example.com:443''" 3]
    unfolding list_all_iff by blast
qed

end
