(* ===== verification/Policy_Groups.thy ===== *)
theory Policy_Groups
  imports Policy_Verifier Netguard
begin

text \<open>
  Policy groups (\<open>pkg/policies/policy_groups.go\<close>): a group attachment is loaded, its arguments are
  computed once and bound in the arguments of its policies, and the policies that apply are
  evaluated like those of the contract, with the gate and the skip list of the group attachment.
\<close>

section \<open>Definitions\<close>

definition applyGroupGate :: "policy_attachment \<Rightarrow> group_attachment \<Rightarrow> policy_attachment" where
  "applyGroupGate policyAtt groupAtt =
     (case ga_gate groupAtt of None \<Rightarrow> policyAtt | Some g \<Rightarrow> policyAtt\<lparr>pa_gate := Some g\<rparr>)"

definition InterpolateGroupMaterial :: "template_engine \<Rightarrow> group_material \<Rightarrow> string gomap \<Rightarrow> group_material res" where
  "InterpolateGroupMaterial tmpl gm bindings =
     bind_res (ApplyBinding tmpl (gm_name gm) bindings) (\<lambda>name. Inr (gm\<lparr>gm_name := name\<rparr>))"

text \<open>Groups ignore the selector of an attachment and apply policies without a type to everything.\<close>

definition group_policy_applies :: "policy \<Rightarrow> material \<Rightarrow> bool" where
  "group_policy_applies spec m =
     (let specTypes = getPolicyTypes spec in
      if specTypes \<noteq> [] \<and> mat_type m \<in> set specTypes then True
      else if specTypes = [] then True
      else False)"

definition group_shouldApplyPolicy ::
  "services \<Rightarrow> verifier \<Rightarrow> material \<Rightarrow> policy_attachment \<Rightarrow> vstate \<Rightarrow> bool res \<times> vstate" where
  "group_shouldApplyPolicy sv pv m att st =
     (let (r, st') = load_spec sv pv att st
      in (bind_res (map_err (Wrapf ''failed to load policy attachment %q: %w'' [get_ref att]) r)
            (\<lambda>(spec, _). Inr (group_policy_applies spec m)), st'))"

fun group_requiredPolicies ::
  "services \<Rightarrow> verifier \<Rightarrow> material \<Rightarrow> string gomap \<Rightarrow> group_material list \<Rightarrow> vstate \<Rightarrow>
     policy_attachment list res \<times> vstate" where
  "group_requiredPolicies sv pv m groupArgs [] st = (Inr [], st)"
| "group_requiredPolicies sv pv m groupArgs (groupMaterial # gms) st =
     (case InterpolateGroupMaterial (sv_tmpl sv) groupMaterial groupArgs of
        Inl x \<Rightarrow> (Inl x, st)
      | Inr gm \<Rightarrow>
          if gm_name gm \<noteq> [] \<and> \<not> nameMatches (gm_name gm) (gm_match_mode gm) (mat_id m)
          then group_requiredPolicies sv pv m groupArgs gms st
          else
            (case filter_st (group_shouldApplyPolicy sv pv m) (gm_policies gm) st of
               (Inl x, st') \<Rightarrow> (Inl x, st')
             | (Inr atts, st') \<Rightarrow>
                 (let (r, st'') = group_requiredPolicies sv pv m groupArgs gms st'
                  in (bind_res r (\<lambda>rest. Inr (atts @ rest)), st''))))"

definition shouldSkipPolicy ::
  "services \<Rightarrow> verifier \<Rightarrow> policy_attachment \<Rightarrow> string list \<Rightarrow> vstate \<Rightarrow> (bool \<times> string) res \<times> vstate" where
  "shouldSkipPolicy sv pv att skipList st =
     (if skipList = [] then (Inr (False, []), st)
      else
        let (r, st') = load_spec sv pv att st
        in (bind_res (map_err (Wrapf ''failed to load policy to get name: %w'' []) r) (\<lambda>(policy, _).
              Inr (if policy_name policy \<in> set skipList then (True, policy_name policy) else (False, []))), st'))"

definition group_reference :: "policy_group \<Rightarrow> descriptor \<Rightarrow> reference" where
  "group_reference grp desc =
     \<lparr>rf_name = md_name (pg_metadata grp), rf_digest = pd_digest desc, rf_uri = pd_uri desc, rf_org = pd_org desc\<rparr>"

definition group_task ::
  "services \<Rightarrow> verifier \<Rightarrow> group_attachment \<Rightarrow> policy_group \<Rightarrow> descriptor \<Rightarrow> string \<Rightarrow> eval_opts \<Rightarrow>
     policy_attachment list \<Rightarrow> (policy_evaluation, vstate) task" where
  "group_task sv pv groupAtt grp desc subject opts atts i st =
     (case shouldSkipPolicy sv pv (atts ! i) (ga_skip groupAtt) st of
        (Inl x, st') \<Rightarrow> (Inl (PolicyErr (Wrapf ''failed to check if policy should be skipped: %w'' [] x)), st')
      | (Inr (True, _), st') \<Rightarrow> (Inr None, st')
      | (Inr (False, _), st') \<Rightarrow>
          (let (r, st'') = evaluatePolicyAttachment sv pv (applyGroupGate (atts ! i) groupAtt) subject opts st'
           in (bind_res (map_err PolicyErr r) (\<lambda>ev.
                 Inr (map_option (\<lambda>e. e\<lparr>pe_group_ref := Some (group_reference grp desc)\<rparr>) ev)), st'')))"

definition load_group ::
  "services \<Rightarrow> verifier \<Rightarrow> group_attachment \<Rightarrow> vstate \<Rightarrow> (policy_group \<times> descriptor) res \<times> vstate" where
  "load_group sv pv att st =
     (let (r, c') = LoadPolicyGroup (sv_env sv) (pv_guarded_client pv) (vs_groups st) att
      in (r, st\<lparr>vs_groups := c'\<rparr>))"

definition group_opts :: "string \<Rightarrow> material_type \<Rightarrow> string gomap \<Rightarrow> eval_opts" where
  "group_opts name kind groupArgs =
     \<lparr>opt_name = name, opt_kind = kind, opt_bindings = groupArgs, opt_runtime_inputs = None\<rparr>"

text \<open>The body of the loop of \<open>VerifyMaterial\<close> for one group attachment.\<close>

definition verify_material_group ::
  "(nat \<Rightarrow> nat list) \<Rightarrow> services \<Rightarrow> verifier \<Rightarrow> material \<Rightarrow> string \<Rightarrow> string \<Rightarrow> group_attachment \<Rightarrow> vstate \<Rightarrow>
     policy_evaluation list res \<times> vstate" where
  "verify_material_group sched sv pv m path content groupAtt st =
     (case load_group sv pv groupAtt st of
        (Inl x, st1) \<Rightarrow> (Inl (PolicyErr x), st1)
      | (Inr (grp, desc), st1) \<Rightarrow>
          (case ComputeArguments (sv_tmpl sv) (pg_inputs grp) (ga_with groupAtt) [] of
             Inl x \<Rightarrow> (Inl (PolicyErr x), st1)
           | Inr groupArgs \<Rightarrow>
               (case group_requiredPolicies sv pv m groupArgs (pg_materials grp) st1 of
                  (Inl x, st2) \<Rightarrow> (Inl (PolicyErr x), st2)
                | (Inr atts, st2) \<Rightarrow>
                    if atts = [] then (Inr [], st2)
                    else
                      (case GetEvaluableContent (sv_content sv) m path content of
                         Inl x \<Rightarrow> (Inl (PolicyErr x), st2)
                       | Inr subject \<Rightarrow>
                           (let (waited, st3) = run_group (sched (length atts))
                                  (group_task sv pv groupAtt grp desc subject
                                     (group_opts (mat_id m) (mat_type m) groupArgs) atts) (length atts) st2
                            in (bind_res waited (\<lambda>results. Inr (keep_some results)), st3))))))"

text \<open>
  The body of the loop of \<open>VerifyStatement\<close>. A group that does not load is skipped, unless the
  network guard refused its target.
\<close>

definition verify_statement_group ::
  "(nat \<Rightarrow> nat list) \<Rightarrow> services \<Rightarrow> verifier \<Rightarrow> string res \<Rightarrow> group_attachment \<Rightarrow> vstate \<Rightarrow>
     policy_evaluation list res \<times> vstate" where
  "verify_statement_group sched sv pv statementJSON groupAtt st =
     (case load_group sv pv groupAtt st of
        (Inl x, st1) \<Rightarrow> if errors_is x ErrBlockedTarget then (Inl (PolicyErr x), st1) else (Inr [], st1)
      | (Inr (grp, desc), st1) \<Rightarrow>
          (case ComputeArguments (sv_tmpl sv) (pg_inputs grp) (ga_with groupAtt) [] of
             Inl x \<Rightarrow> (Inl (PolicyErr x), st1)
           | Inr groupArgs \<Rightarrow>
               (case statementJSON of
                  Inl x \<Rightarrow> (Inl (PolicyErr x), st1)
                | Inr json \<Rightarrow>
                    (let atts = pg_attestation grp;
                         (waited, st2) = run_group (sched (length atts))
                           (group_task sv pv groupAtt grp desc json (group_opts [] ATTESTATION groupArgs) atts)
                           (length atts) st1
                     in (bind_res waited (\<lambda>results. Inr (keep_some results)), st2)))))"

text \<open>The loop over the group attachments: results are appended, the first error ends it.\<close>

fun verify_groups ::
  "(nat \<Rightarrow> group_attachment \<Rightarrow> vstate \<Rightarrow> policy_evaluation list res \<times> vstate) \<Rightarrow> group_attachment list \<Rightarrow>
     vstate \<Rightarrow> policy_evaluation list res \<times> vstate" where
  "verify_groups body [] st = (Inr [], st)"
| "verify_groups body (g # gs) st =
     (case body 0 g st of
        (Inl x, st') \<Rightarrow> (Inl x, st')
      | (Inr evs, st') \<Rightarrow>
          (let (r, st'') = verify_groups (\<lambda>i. body (Suc i)) gs st' in (bind_res r (\<lambda>rest. Inr (evs @ rest)), st'')))"

definition group_VerifyMaterial ::
  "(nat \<Rightarrow> nat \<Rightarrow> nat list) \<Rightarrow> services \<Rightarrow> verifier \<Rightarrow> group_attachment list \<Rightarrow> material \<Rightarrow> string \<Rightarrow> string \<Rightarrow> vstate \<Rightarrow>
     policy_evaluation list res \<times> vstate" where
  "group_VerifyMaterial sched sv pv groupAtts m path content st =
     verify_groups (\<lambda>i. verify_material_group (sched i) sv pv m path content) groupAtts (st\<lparr>vs_tracker := None\<rparr>)"

definition group_VerifyStatement ::
  "(nat \<Rightarrow> nat \<Rightarrow> nat list) \<Rightarrow> services \<Rightarrow> verifier \<Rightarrow> group_attachment list \<Rightarrow> string res \<Rightarrow> vstate \<Rightarrow>
     policy_evaluation list res \<times> vstate" where
  "group_VerifyStatement sched sv pv groupAtts statementJSON st =
     verify_groups (\<lambda>i. verify_statement_group (sched i) sv pv statementJSON) groupAtts (st\<lparr>vs_tracker := None\<rparr>)"

section \<open>Groups do not depend on the caches or on the scheduler\<close>

definition skip_of :: "services \<Rightarrow> verifier \<Rightarrow> policy_attachment \<Rightarrow> string list \<Rightarrow> (bool \<times> string) res" where
  "skip_of sv pv att skipList =
     (if skipList = [] then Inr (False, [])
      else
        bind_res (map_err (Wrapf ''failed to load policy to get name: %w'' [])
          (policy_of_ref (sv_env sv) (pv_guarded_client pv) att)) (\<lambda>(policy, _).
        Inr (if policy_name policy \<in> set skipList then (True, policy_name policy) else (False, []))))"

lemma shouldSkipPolicy_laws:
  assumes "state_ok sv st"
  shows "fst (shouldSkipPolicy sv pv att skips st) = skip_of sv pv att skips"
    and "state_ok sv (snd (shouldSkipPolicy sv pv att skips st))"
  using load_spec_laws [OF assms] assms
  by (simp_all add: shouldSkipPolicy_def skip_of_def case_prod_beta)

definition group_outcome ::
  "services \<Rightarrow> verifier \<Rightarrow> group_attachment \<Rightarrow> policy_group \<Rightarrow> descriptor \<Rightarrow> string \<Rightarrow> eval_opts \<Rightarrow>
     policy_attachment \<Rightarrow> policy_evaluation option res" where
  "group_outcome sv pv groupAtt grp desc subject opts att =
     bind_res (map_err (\<lambda>x. PolicyErr (Wrapf ''failed to check if policy should be skipped: %w'' [] x))
       (skip_of sv pv att (ga_skip groupAtt))) (\<lambda>(skip, _).
     if skip then Inr None
     else
       bind_res (map_err PolicyErr (evaluation_of sv pv subject opts (applyGroupGate att groupAtt))) (\<lambda>ev.
       Inr (map_option (\<lambda>e. e\<lparr>pe_group_ref := Some (group_reference grp desc)\<rparr>) ev)))"

lemma group_task_laws:
  assumes "state_ok sv st"
  shows "fst (group_task sv pv groupAtt grp desc subject opts atts i st) =
           group_outcome sv pv groupAtt grp desc subject opts (atts ! i) \<and>
         state_ok sv (snd (group_task sv pv groupAtt grp desc subject opts atts i st))"
proof -
  obtain r st' where s: "shouldSkipPolicy sv pv (atts ! i) (ga_skip groupAtt) st = (r, st')" by fastforce
  with shouldSkipPolicy_laws [OF assms] have "skip_of sv pv (atts ! i) (ga_skip groupAtt) = r" "state_ok sv st'"
    by (metis fst_conv, metis snd_conv)
  then show ?thesis
    by (auto simp: group_task_def group_outcome_def s case_prod_beta evaluate_answer evaluate_keeps
        split: sum.split bool.split)
qed

interpretation group_tasks: independent_tasks
  "group_task sv pv groupAtt grp desc subject opts atts"
  "\<lambda>i. group_outcome sv pv groupAtt grp desc subject opts (atts ! i)" "state_ok sv"
  by unfold_locales (simp_all add: group_task_laws)

lemma group_run:
  assumes "schedule sched (length atts)" and "state_ok sv st"
  shows "agrees (fst (run_group sched (group_task sv pv groupAtt grp desc subject opts atts) (length atts) st))
           (map_res (group_outcome sv pv groupAtt grp desc subject opts) atts)"
    and "state_ok sv (snd (run_group sched (group_task sv pv groupAtt grp desc subject opts atts) (length atts) st))"
  using group_tasks.run_group_success [OF assms] group_tasks.scheduled_run [OF assms]
  by (simp_all add: outcomes_map_res agrees_def)

lemma load_group_laws:
  assumes "state_ok sv st"
  shows "fst (load_group sv pv att st) = group_of_ref (sv_env sv) (pv_guarded_client pv) att"
    and "state_ok sv (snd (load_group sv pv att st))"
  using assms
  by (simp_all add: load_group_def state_ok_def case_prod_beta LoadPolicyGroup_answer LoadPolicyGroup_keeps)

section \<open>The policies of a group that apply to a material\<close>

definition group_applies_of :: "services \<Rightarrow> verifier \<Rightarrow> material \<Rightarrow> policy_attachment \<Rightarrow> bool res" where
  "group_applies_of sv pv m att =
     bind_res (map_err (Wrapf ''failed to load policy attachment %q: %w'' [get_ref att])
       (policy_of_ref (sv_env sv) (pv_guarded_client pv) att)) (\<lambda>(spec, _). Inr (group_policy_applies spec m))"

lemma group_shouldApply_laws:
  assumes "state_ok sv st"
  shows "fst (group_shouldApplyPolicy sv pv m att st) = group_applies_of sv pv m att"
    and "state_ok sv (snd (group_shouldApplyPolicy sv pv m att st))"
  using load_spec_laws [OF assms]
  by (simp_all add: group_shouldApplyPolicy_def group_applies_of_def case_prod_beta)

definition group_material_policies ::
  "services \<Rightarrow> verifier \<Rightarrow> material \<Rightarrow> string gomap \<Rightarrow> group_material \<Rightarrow> policy_attachment list res" where
  "group_material_policies sv pv m groupArgs groupMaterial =
     bind_res (InterpolateGroupMaterial (sv_tmpl sv) groupMaterial groupArgs) (\<lambda>gm.
     if gm_name gm \<noteq> [] \<and> \<not> nameMatches (gm_name gm) (gm_match_mode gm) (mat_id m) then Inr []
     else filter_res (group_applies_of sv pv m) (gm_policies gm))"

lemma group_required_laws:
  "state_ok sv st \<Longrightarrow>
     fst (group_requiredPolicies sv pv m groupArgs gms st) =
       bind_res (map_res (group_material_policies sv pv m groupArgs) gms) (\<lambda>attss. Inr (concat attss)) \<and>
     state_ok sv (snd (group_requiredPolicies sv pv m groupArgs gms st))"
proof (induction gms arbitrary: st)
  case (Cons groupMaterial gms)
  show ?case
  proof (cases "InterpolateGroupMaterial (sv_tmpl sv) groupMaterial groupArgs")
    case (Inl x)
    then show ?thesis using Cons.prems by (simp add: group_material_policies_def)
  next
    case (Inr gm)
    obtain r st' where f: "filter_st (group_shouldApplyPolicy sv pv m) (gm_policies gm) st = (r, st')" by fastforce
    with filter_st_pure [where ok = "state_ok sv" and p = "group_shouldApplyPolicy sv pv m", OF group_shouldApply_laws Cons.prems]
    have "filter_res (group_applies_of sv pv m) (gm_policies gm) = r" "state_ok sv st'"
      by (metis fst_conv, metis snd_conv)
    moreover from Inr this(1) have "group_material_policies sv pv m groupArgs groupMaterial =
        (if gm_name gm \<noteq> [] \<and> \<not> nameMatches (gm_name gm) (gm_match_mode gm) (mat_id m) then Inr [] else r)"
      by (simp add: group_material_policies_def)
    ultimately show ?thesis
      using Inr f Cons.IH [of st'] Cons.IH [OF Cons.prems]
      by (cases r; cases "map_res (group_material_policies sv pv m groupArgs) gms") (auto simp: case_prod_beta)
  qed
qed simp

section \<open>Sequential specification\<close>

definition group_material_spec ::
  "services \<Rightarrow> verifier \<Rightarrow> material \<Rightarrow> string \<Rightarrow> string \<Rightarrow> group_attachment \<Rightarrow> policy_evaluation list res" where
  "group_material_spec sv pv m path content groupAtt =
     bind_res (map_err PolicyErr (group_of_ref (sv_env sv) (pv_guarded_client pv) groupAtt)) (\<lambda>(grp, desc).
     bind_res (map_err PolicyErr (ComputeArguments (sv_tmpl sv) (pg_inputs grp) (ga_with groupAtt) [])) (\<lambda>groupArgs.
     bind_res (map_err PolicyErr (map_res (group_material_policies sv pv m groupArgs) (pg_materials grp))) (\<lambda>attss.
     if concat attss = [] then Inr []
     else
       bind_res (map_err PolicyErr (GetEvaluableContent (sv_content sv) m path content)) (\<lambda>subject.
       bind_res (map_res (group_outcome sv pv groupAtt grp desc subject
         (group_opts (mat_id m) (mat_type m) groupArgs)) (concat attss)) (\<lambda>results.
       Inr (keep_some results))))))"

definition group_statement_spec ::
  "services \<Rightarrow> verifier \<Rightarrow> string res \<Rightarrow> group_attachment \<Rightarrow> policy_evaluation list res" where
  "group_statement_spec sv pv statementJSON groupAtt =
     (case group_of_ref (sv_env sv) (pv_guarded_client pv) groupAtt of
        Inl x \<Rightarrow> if errors_is x ErrBlockedTarget then Inl (PolicyErr x) else Inr []
      | Inr (grp, desc) \<Rightarrow>
          bind_res (map_err PolicyErr (ComputeArguments (sv_tmpl sv) (pg_inputs grp) (ga_with groupAtt) [])) (\<lambda>groupArgs.
          bind_res (map_err PolicyErr statementJSON) (\<lambda>json.
          bind_res (map_res (group_outcome sv pv groupAtt grp desc json (group_opts [] ATTESTATION groupArgs))
            (pg_attestation grp)) (\<lambda>results.
          Inr (keep_some results)))))"

lemma verify_material_group_laws:
  assumes "\<forall>n. schedule (sched n) n" and "state_ok sv st"
  shows "agrees (fst (verify_material_group sched sv pv m path content groupAtt st))
           (group_material_spec sv pv m path content groupAtt) \<and>
         state_ok sv (snd (verify_material_group sched sv pv m path content groupAtt st))"
proof -
  obtain r st1 where l: "load_group sv pv groupAtt st = (r, st1)" by fastforce
  with load_group_laws [OF assms(2)] have r: "group_of_ref (sv_env sv) (pv_guarded_client pv) groupAtt = r"
    and ok1: "state_ok sv st1" by (metis fst_conv, metis snd_conv)
  show ?thesis
  proof (cases "\<exists>grp desc groupArgs. r = Inr (grp, desc) \<and>
      ComputeArguments (sv_tmpl sv) (pg_inputs grp) (ga_with groupAtt) [] = Inr groupArgs")
    case False
    then show ?thesis
      using r ok1 by (auto simp: verify_material_group_def group_material_spec_def l split: sum.split)
  next
    case True
    then obtain grp desc groupArgs where g: "r = Inr (grp, desc)"
      "ComputeArguments (sv_tmpl sv) (pg_inputs grp) (ga_with groupAtt) [] = Inr groupArgs" by blast
    obtain q st2 where q: "group_requiredPolicies sv pv m groupArgs (pg_materials grp) st1 = (q, st2)" by fastforce
    with group_required_laws [OF ok1, of pv m groupArgs "pg_materials grp"]
    have req: "q = bind_res (map_res (group_material_policies sv pv m groupArgs) (pg_materials grp)) (\<lambda>attss. Inr (concat attss))"
      and ok2: "state_ok sv st2" by simp_all
    show ?thesis
    proof (cases "map_res (group_material_policies sv pv m groupArgs) (pg_materials grp)")
      case (Inl x)
      then show ?thesis
        using r ok2 g q req by (auto simp: verify_material_group_def group_material_spec_def l)
    next
      case (Inr attss)
      then show ?thesis
        using r ok2 g q req group_run [OF spec [OF assms(1)] ok2]
        by (cases "concat attss = []"; cases "GetEvaluableContent (sv_content sv) m path content")
          (simp_all add: verify_material_group_def group_material_spec_def l case_prod_beta Let_def agrees_bind
            del: concat_eq_Nil_conv)
    qed
  qed
qed

lemma verify_statement_group_laws:
  assumes "\<forall>n. schedule (sched n) n" and "state_ok sv st"
  shows "agrees (fst (verify_statement_group sched sv pv json groupAtt st))
           (group_statement_spec sv pv json groupAtt) \<and>
         state_ok sv (snd (verify_statement_group sched sv pv json groupAtt st))"
proof -
  obtain r st1 where l: "load_group sv pv groupAtt st = (r, st1)" by fastforce
  with load_group_laws [OF assms(2)] have r: "group_of_ref (sv_env sv) (pv_guarded_client pv) groupAtt = r"
    and ok1: "state_ok sv st1" by (metis fst_conv, metis snd_conv)
  show ?thesis
    using r ok1 group_run [OF spec [OF assms(1)] ok1]
    by (cases json) (auto simp: verify_statement_group_def group_statement_spec_def l case_prod_beta Let_def
        agrees_bind split: sum.split)
qed

lemma verify_groups_laws:
  assumes "\<And>i g st. state_ok sv st \<Longrightarrow> agrees (fst (body i g st)) (spec g) \<and> state_ok sv (snd (body i g st))"
    and "state_ok sv st"
  shows "agrees (fst (verify_groups body gs st)) (bind_res (map_res spec gs) (\<lambda>evss. Inr (concat evss)))"
  using assms
proof (induction gs arbitrary: body st)
  case (Cons g gs)
  obtain r st' where b: "body 0 g st = (r, st')" by fastforce
  with Cons.prems(1) [OF Cons.prems(2), of 0 g] have ag: "agrees r (spec g)" and ok: "state_ok sv st'" by simp_all
  from Cons.IH [of "\<lambda>i. body (Suc i)", OF Cons.prems(1) ok]
  have IH: "agrees (fst (verify_groups (\<lambda>i. body (Suc i)) gs st')) (bind_res (map_res spec gs) (\<lambda>evss. Inr (concat evss)))"
    by blast
  show ?case
  proof (cases r)
    case (Inl x)
    with ag show ?thesis by (cases "spec g") (auto simp: b agrees_def)
  next
    case (Inr evs)
    with ag have "spec g = Inr evs" by (auto simp: agrees_def)
    with Inr IH show ?thesis by (auto simp: b agrees_def bind_res_eq_Inr case_prod_beta)
  qed
qed simp

section \<open>What the evaluations of a group are about\<close>

lemma group_task_subject:
  assumes "group_task sv pv groupAtt grp desc subject opts atts i st = (Inr (Some ev), st')"
  shows "pe_material_name ev = opt_name opts"
proof -
  obtain nm st1 r st2 where "shouldSkipPolicy sv pv (atts ! i) (ga_skip groupAtt) st = (Inr (False, nm), st1)"
    and e: "evaluatePolicyAttachment sv pv (applyGroupGate (atts ! i) groupAtt) subject opts st1 = (r, st2)"
    using assms by (auto simp: group_task_def case_prod_beta split: prod.splits sum.splits bool.splits) (metis prod.collapse)
  with assms obtain e' where "r = Inr (Some e')" "ev = e'\<lparr>pe_group_ref := Some (group_reference grp desc)\<rparr>"
    by (auto simp: group_task_def bind_res_eq_Inr)
  with evaluation_subject e show ?thesis by fastforce
qed

lemma group_run_subject:
  assumes "fst (run_group sched (group_task sv pv groupAtt grp desc subject opts atts) n st) = Inr slots"
    and "ev \<in> set (keep_some slots)"
  shows "pe_material_name ev = opt_name opts"
  using run_group_slots [where P = "\<lambda>ev. pe_material_name ev = opt_name opts", OF group_task_subject assms(1)] assms(2)
  by (simp add: set_keep_some)

lemma verify_groups_subject:
  assumes "\<And>i g st evs ev. fst (body i g st) = Inr evs \<Longrightarrow> ev \<in> set evs \<Longrightarrow> P ev"
    and "fst (verify_groups body gs st) = Inr evs" and "ev \<in> set evs"
  shows "P ev"
  using assms
proof (induction gs arbitrary: body st evs)
  case (Cons g gs)
  obtain r1 st1 where b: "body 0 g st = (r1, st1)" by fastforce
  with Cons.prems(2) obtain e1 e2 where r1: "r1 = Inr e1"
    and r: "fst (verify_groups (\<lambda>i. body (Suc i)) gs st1) = Inr e2" and evs: "evs = e1 @ e2"
    by (auto simp: case_prod_beta bind_res_eq_Inr split: sum.splits)
  from Cons.prems(3) evs consider "ev \<in> set e1" | "ev \<in> set e2" by auto
  then show ?case
  proof cases
    case 1
    then show ?thesis using Cons.prems(1) [of 0 g st e1 ev] b r1 by simp
  next
    case 2
    then show ?thesis using Cons.IH [of "\<lambda>i. body (Suc i)" st1 e2] Cons.prems(1) r by blast
  qed
qed simp

lemma group_VerifyMaterial_subject:
  assumes "fst (group_VerifyMaterial sched sv pv gs m path content st) = Inr evs" and "ev \<in> set evs"
  shows "pe_material_name ev = mat_id m"
  using assms(1) [unfolded group_VerifyMaterial_def] assms(2)
proof (rule verify_groups_subject [rotated 1])
  fix i g st evs ev
  assume "fst (verify_material_group (sched i) sv pv m path content g st) = Inr evs" "ev \<in> set evs"
  then show "pe_material_name ev = mat_id m"
    by (auto simp: verify_material_group_def case_prod_beta Let_def bind_res_eq_Inr group_opts_def
        split: prod.splits sum.splits if_splits dest: group_run_subject)
qed

lemma group_VerifyStatement_subject:
  assumes "fst (group_VerifyStatement sched sv pv gs json st) = Inr evs" and "ev \<in> set evs"
  shows "pe_material_name ev = []"
  using assms(1) [unfolded group_VerifyStatement_def] assms(2)
proof (rule verify_groups_subject [rotated 1])
  fix i g st evs ev
  assume "fst (verify_statement_group (sched i) sv pv json g st) = Inr evs" "ev \<in> set evs"
  then show "pe_material_name ev = []"
    by (auto simp: verify_statement_group_def case_prod_beta Let_def bind_res_eq_Inr group_opts_def
        split: prod.splits sum.splits if_splits dest: group_run_subject)
qed

section \<open>Failures are policy errors\<close>

lemma group_run_error:
  assumes "fst (run_group sched (group_task sv pv groupAtt grp desc subject opts atts) n st) = Inl x"
  shows "\<exists>y. x = PolicyErr y"
proof -
  obtain i s s' where t: "group_task sv pv groupAtt grp desc subject opts atts i s = (Inl x, s')"
    using run_group_error_from [OF assms] by blast
  obtain r s1 where k: "shouldSkipPolicy sv pv (atts ! i) (ga_skip groupAtt) s = (r, s1)" by fastforce
  obtain e s2 where e: "evaluatePolicyAttachment sv pv (applyGroupGate (atts ! i) groupAtt) subject opts s1 = (e, s2)" by fastforce
  show ?thesis
    using t k e by (auto simp: group_task_def bind_res_eq_Inl map_err_eq_Inl split: sum.splits bool.splits)
qed

lemma verify_groups_error:
  assumes "\<And>i g st x. fst (body i g st) = Inl x \<Longrightarrow> \<exists>y. x = PolicyErr y"
    and "fst (verify_groups body gs st) = Inl x"
  shows "\<exists>y. x = PolicyErr y"
  using assms
proof (induction gs arbitrary: body st)
  case (Cons g gs)
  obtain r1 st1 where b: "body 0 g st = (r1, st1)" by fastforce
  show ?case
  proof (cases r1)
    case (Inl y)
    then show ?thesis using Cons.prems(1) [of 0 g st y] Cons.prems(2) b by simp
  next
    case (Inr evs)
    then have "fst (verify_groups (\<lambda>i. body (Suc i)) gs st1) = Inl x"
      using Cons.prems(2) b by (auto simp: case_prod_beta bind_res_eq_Inl)
    with Cons.IH [of "\<lambda>i. body (Suc i)" st1] Cons.prems(1) show ?thesis by blast
  qed
qed simp

lemma group_VerifyMaterial_error:
  assumes "fst (group_VerifyMaterial sched sv pv gs m path content st) = Inl x"
  shows "\<exists>y. x = PolicyErr y"
  using assms [unfolded group_VerifyMaterial_def]
proof (rule verify_groups_error [rotated 1])
  fix i g st x
  assume "fst (verify_material_group (sched i) sv pv m path content g st) = Inl x"
  then show "\<exists>y. x = PolicyErr y"
    by (auto simp: verify_material_group_def case_prod_beta Let_def bind_res_eq_Inl
        split: prod.splits sum.splits if_splits dest: group_run_error)
qed

section \<open>Properties\<close>

lemma group_agrees:
  assumes "\<forall>i n. schedule (sched i n) n" and "state_ok sv st"
  shows "agrees (fst (group_VerifyMaterial sched sv pv gs m path content st))
           (bind_res (map_res (group_material_spec sv pv m path content) gs) (\<lambda>evss. Inr (concat evss))) \<and>
         agrees (fst (group_VerifyStatement sched sv pv gs json st))
           (bind_res (map_res (group_statement_spec sv pv json) gs) (\<lambda>evss. Inr (concat evss)))"
  using assms verify_groups_laws [of sv "\<lambda>i. verify_material_group (sched i) sv pv m path content"]
    verify_groups_laws [of sv "\<lambda>i. verify_statement_group (sched i) sv pv json"]
  by (simp add: group_VerifyMaterial_def group_VerifyStatement_def verify_material_group_laws verify_statement_group_laws)

text \<open>
  C12. Verifying the policy groups of a contract refines the sequential specification: load the group,
  compute its arguments, choose and evaluate its policies in order, with the gate and the skip list
  of the group attachment. Neither the schedules nor the caches make a difference.
\<close>

theorem group_verification:
  assumes "\<forall>i n. schedule (sched i n) n" and "state_ok sv st"
  shows "agrees (fst (group_VerifyMaterial sched sv pv gs m path content st))
           (bind_res (map_res (group_material_spec sv pv m path content) gs) (\<lambda>evss. Inr (concat evss))) \<and>
         agrees (fst (group_VerifyStatement sched sv pv gs json st))
           (bind_res (map_res (group_statement_spec sv pv json) gs) (\<lambda>evss. Inr (concat evss)))"
  using assms by (rule group_agrees)

text \<open>
  C27. A policy group behind an address the network guard refuses fails the verification, of a
  material and of the statement: it is never treated as a group that is merely missing.
\<close>

theorem blocked_groups_fail_closed:
  assumes "\<forall>i n. schedule (sched i n) n" and "state_ok sv st" and "groupAtt \<in> set gs"
    and "group_of_ref (sv_env sv) (pv_guarded_client pv) groupAtt = Inl x" and "errors_is x ErrBlockedTarget"
  shows "(\<exists>e. fst (group_VerifyMaterial sched sv pv gs m path content st) = Inl e) \<and>
         (\<exists>e. fst (group_VerifyStatement sched sv pv gs json st) = Inl e)"
proof -
  have m: "group_material_spec sv pv m path content groupAtt = Inl (PolicyErr x)"
    and s: "group_statement_spec sv pv json groupAtt = Inl (PolicyErr x)"
    using assms by (simp_all add: group_material_spec_def group_statement_spec_def)
  from map_res_fails [OF assms(3), of "group_material_spec sv pv m path content", OF m]
    map_res_fails [OF assms(3), of "group_statement_spec sv pv json", OF s]
  obtain a b where "map_res (group_material_spec sv pv m path content) gs = Inl a"
    "map_res (group_statement_spec sv pv json) gs = Inl b" by blast
  then show ?thesis
    using group_agrees [OF assms(1,2), of pv gs m path content json] agrees_fails by fastforce
qed

end
