(* ===== verification/Public_Targets.thy ===== *)
theory Public_Targets
  imports Policy_Groups
begin

text \<open>
  The public-targets-only mode of the verifier (\<open>WithPublicTargetsOnly\<close> of \<open>pkg/policies/policies.go\<close>):
  every request of the loaders and of the script fetches goes through the guarded client of
  \<open>pkg/netguard\<close>. This is a noninterference argument: what the default client would answer makes no
  difference to any result.
\<close>

section \<open>The default client is never asked\<close>

text \<open>The same environment with other answers of the default client.\<close>

definition default_client_answers :: "(string \<Rightarrow> http_outcome) \<Rightarrow> env \<Rightarrow> env" where
  "default_client_answers answers e =
     e\<lparr>env_http_get := (\<lambda>guarded u. if guarded then env_http_get e True u else answers u)\<rparr>"

lemma guarded_fetch: "fetchRemote (default_client_answers answers e) True = fetchRemote e True"
  by (intro ext) (simp add: fetchRemote_def default_client_answers_def)

lemma unmarshal_guarded: "unmarshallResource (default_client_answers answers e) = unmarshallResource e"
  by (intro ext) (simp add: unmarshallResource_def default_client_answers_def)

lemma fetch_policy_guarded: "fetch_policy (default_client_answers answers e) = fetch_policy e"
  by (intro ext) (simp add: fetch_policy_def describe_answer_def [abs_def] default_client_answers_def)

lemma fetch_group_guarded: "fetch_group (default_client_answers answers e) = fetch_group e"
  by (intro ext) (simp add: fetch_group_def describe_answer_def [abs_def] default_client_answers_def)

lemma unchanged_fields:
  "env_read_file (default_client_answers answers e) = env_read_file e"
  "env_load_blob (default_client_answers answers e) = env_load_blob e"
  "env_unmarshal_policy (default_client_answers answers e) = env_unmarshal_policy e"
  "env_unmarshal_group (default_client_answers answers e) = env_unmarshal_group e"
  "env_validate_policy (default_client_answers answers e) = env_validate_policy e"
  "env_validate_group (default_client_answers answers e) = env_validate_group e"
  "env_inject_boilerplate (default_client_answers answers e) = env_inject_boilerplate e"
  "env_url_parse (default_client_answers answers e) = env_url_parse e"
  "env_url_resolve (default_client_answers answers e) = env_url_resolve e"
  "env_path_dir (default_client_answers answers e) = env_path_dir e"
  "env_path_join (default_client_answers answers e) = env_path_join e"
  "env_eval_symlinks (default_client_answers answers e) = env_eval_symlinks e"
  "env_path_rel (default_client_answers answers e) = env_path_rel e"
  by (simp_all add: default_client_answers_def)

lemma resolve_guarded: "resolveScriptRef (default_client_answers answers e) = resolveScriptRef e"
  by (intro ext) (unfold resolveScriptRef_def resolveScriptLocation_def confineToDir_def parseHTTPSURL_def unchanged_fields, rule refl)

lemma loadPolicySpec_guarded: "loadPolicySpec (default_client_answers answers e) True c att = loadPolicySpec e True c att"
  by (simp add: loadPolicySpec_def loader_Load_def FileLoader_Load_def HTTPSLoader_Load_def guarded_fetch
    ChainloopLoader_flight unmarshal_guarded fetch_policy_guarded unchanged_fields split: sum.split loader_kind.split)

lemma LoadPolicyGroup_guarded: "LoadPolicyGroup (default_client_answers answers e) True c att = LoadPolicyGroup e True c att"
  by (simp add: LoadPolicyGroup_def group_loader_Load_def FileGroupLoader_Load_def HTTPSGroupLoader_Load_def
    guarded_fetch ChainloopGroupLoader_flight unmarshal_guarded fetch_group_guarded unchanged_fields
    split: sum.split loader_kind.split)

text \<open>
  What the libraries document: \<open>url.Parse\<close> keeps the scheme of its input and \<open>String\<close> writes it back, paths of \<open>filepath.Join\<close> and
  \<open>filepath.EvalSymlinks\<close> are clean, so that they have no double slash, and \<open>blob.LoadFileOrURL\<close> asks the default
  client for \<open>http\<close> and \<open>https\<close> references only.
\<close>

definition library_laws :: "env \<Rightarrow> bool" where
  "library_laws e \<longleftrightarrow>
     (\<forall>r u. env_url_parse e r = Inr u \<longrightarrow> fst (RefParts r) = httpScheme \<longrightarrow> url_scheme u = httpScheme) \<and>
     (\<forall>base r u. env_url_resolve e base r = Inr u \<longrightarrow> url_scheme u = httpsScheme \<longrightarrow> url_host u \<noteq> [] \<longrightarrow> fst (RefParts (url_text u)) = httpsScheme) \<and>
     (\<forall>dir r. fst (RefParts (env_path_join e dir r)) = []) \<and>
     (\<forall>p q. env_eval_symlinks e p = Inr q \<longrightarrow> fst (RefParts q) = []) \<and>
     (\<forall>get get' p. fst (RefParts p) \<noteq> httpScheme \<longrightarrow> fst (RefParts p) \<noteq> httpsScheme \<longrightarrow> env_load_blob e get p = env_load_blob e get' p)"

lemma script_location_scheme:
  assumes "resolveScriptLocation e ref basePath = Inr r" and "library_laws e"
  shows "fst (RefParts r) \<noteq> httpScheme"
proof -
  have schemes: "httpScheme \<noteq> httpsScheme" "httpScheme \<noteq> []" by (simp_all add: httpScheme_def httpsScheme_def)
  show ?thesis
  proof (cases "fst (RefParts ref) = []")
    case False
    then obtain u where "r = ref" "env_url_parse e ref = Inr u" "url_scheme u = httpsScheme"
      using assms(1) by (auto simp: resolveScriptLocation_def parseHTTPSURL_def ensureHTTPSURL_def bind_res_eq_Inr split: if_splits)
    then show ?thesis using assms(2) schemes(1) unfolding library_laws_def by metis
  next
    case True
    then consider (url) base u where "env_url_resolve e base ref = Inr u" "url_scheme u = httpsScheme" "url_host u \<noteq> []" "r = url_text u"
      | (path) dir where "confineToDir e dir ref = Inr r"
      using assms(1) by (auto simp: resolveScriptLocation_def ensureHTTPSURL_def bind_res_eq_Inr split: if_splits prod.splits)
    then show ?thesis
    proof cases
      case url
      then show ?thesis using assms(2) schemes(1) unfolding library_laws_def by metis
    next
      case path
      have "r = env_path_join e dir ref \<or> (\<exists>p. env_eval_symlinks e p = Inr r)"
      proof (cases "env_eval_symlinks e (env_path_join e dir ref)")
        case (Inr target)
        then obtain realDir where "(case env_path_rel e realDir target of Inl _ \<Rightarrow> Inl (Errorf ''must be a path within the policy directory'' [])
            | Inr rel \<Rightarrow> if path_is_local rel then Inr target else Inl (Errorf ''must be a path within the policy directory'' [])) = Inr r"
          using path by (auto simp: confineToDir_def Let_def bind_res_eq_Inr)
        then have "r = target" by (cases "env_path_rel e realDir target") (auto split: if_splits)
        then show ?thesis using Inr by blast
      qed (use path in \<open>auto simp: confineToDir_def Let_def split: if_splits\<close>)
      then have "fst (RefParts r) = []" using assms(2) unfolding library_laws_def by metis
      then show ?thesis using schemes(2) by simp
    qed
  qed
qed

lemma content_guarded:
  assumes "library_laws e"
  shows "loadScriptContent (default_client_answers answers e) True = loadScriptContent e True"
proof (intro ext)
  fix ref basePath
  show "loadScriptContent (default_client_answers answers e) True ref basePath = loadScriptContent e True ref basePath"
  proof (cases "resolveScriptLocation e ref basePath")
    case (Inr r)
    have "fst (RefParts r) \<noteq> httpScheme" by (rule script_location_scheme [OF Inr assms])
    then have "fst (RefParts r) \<noteq> httpsScheme \<Longrightarrow> env_load_blob e get r = env_load_blob e get' r" for get get'
      using assms unfolding library_laws_def by blast
    then have "fst (RefParts r) \<noteq> httpsScheme \<Longrightarrow>
        env_load_blob e (env_http_get (default_client_answers answers e) False) r = env_load_blob e (env_http_get e False) r" by blast
    then show ?thesis using Inr
      by (simp add: loadScriptContent_def resolve_guarded resolveScriptRef_def guarded_fetch unchanged_fields)
  qed (simp add: loadScriptContent_def resolve_guarded resolveScriptRef_def)
qed

lemma script_guarded:
  "library_laws e \<Longrightarrow> loadPolicyScript (default_client_answers answers e) True = loadPolicyScript e True"
  by (intro ext) (simp add: loadPolicyScript_def content_guarded split: script_source.split)

lemma legacy_guarded:
  "library_laws e \<Longrightarrow> loadLegacyPolicyScript (default_client_answers answers e) True = loadLegacyPolicyScript e True"
  by (intro ext) (simp add: loadLegacyPolicyScript_def content_guarded split: option.split legacy_source.split)

lemma prepare_guarded: "prepare_script (default_client_answers answers e) = prepare_script e"
  by (intro ext) (simp add: prepare_script_def unchanged_fields cong: if_cong)

lemma scripts_guarded:
  "library_laws e \<Longrightarrow> loadPolicyScriptsFromSpec (default_client_answers answers e) True = loadPolicyScriptsFromSpec e True"
  by (intro ext) (simp add: loadPolicyScriptsFromSpec_def script_guarded legacy_guarded prepare_guarded)

abbreviation rewired :: "(string \<Rightarrow> http_outcome) \<Rightarrow> services \<Rightarrow> services" where
  "rewired answers sv \<equiv> sv\<lparr>sv_env := default_client_answers answers (sv_env sv)\<rparr>"

lemma rewired_fields:
  "sv_tmpl (rewired answers sv) = sv_tmpl sv" "sv_content (rewired answers sv) = sv_content sv"
  "sv_findings (rewired answers sv) = sv_findings sv" "sv_engine (rewired answers sv) = sv_engine sv"
  "sv_error_text (rewired answers sv) = sv_error_text sv"
  "sv_env (rewired answers sv) = default_client_answers answers (sv_env sv)"
  by simp_all

lemma evaluate_guarded:
  assumes "pv_guarded_client pv" and "library_laws (sv_env sv)"
  shows "evaluatePolicyAttachment (rewired answers sv) pv = evaluatePolicyAttachment sv pv"
  by (intro ext) (unfold evaluatePolicyAttachment_def evaluate_policy_def executeScript_def merge_results_def
    rewired_fields eqTrueI [OF assms(1)] loadPolicySpec_guarded scripts_guarded [OF assms(2)], rule refl)

lemma load_spec_guarded:
  assumes "pv_guarded_client pv" and "library_laws (sv_env sv)"
  shows "load_spec (rewired answers sv) pv = load_spec sv pv"
  using assms by (intro ext) (simp add: load_spec_def loadPolicySpec_guarded)



lemma attachment_task_guarded:
  assumes "pv_guarded_client pv" and "library_laws (sv_env sv)"
  shows "attachment_task (rewired answers sv) pv = attachment_task sv pv"
  by (intro ext) (simp only: attachment_task_def evaluate_guarded [OF assms])

lemma shouldApplyPolicy_guarded:
  assumes "pv_guarded_client pv" and "library_laws (sv_env sv)"
  shows "shouldApplyPolicy (rewired answers sv) pv = shouldApplyPolicy sv pv"
  by (intro ext) (simp only: shouldApplyPolicy_def load_spec_guarded [OF assms])

lemma VerifyMaterial_guarded:
  assumes "pv_guarded_client pv" and "library_laws (sv_env sv)"
  shows "VerifyMaterial sched (rewired answers sv) pv = VerifyMaterial sched sv pv"
  by (intro ext) (unfold VerifyMaterial_def requiredPoliciesForMaterial_def rewired_fields
    attachment_task_guarded [OF assms] shouldApplyPolicy_guarded [OF assms], rule refl)

lemma VerifyStatement_guarded:
  assumes "pv_guarded_client pv" and "library_laws (sv_env sv)"
  shows "VerifyStatement sched (rewired answers sv) pv = VerifyStatement sched sv pv"
  by (intro ext) (unfold VerifyStatement_def attachment_task_guarded [OF assms], rule refl)

lemma load_group_guarded:
  assumes "pv_guarded_client pv" and "library_laws (sv_env sv)"
  shows "load_group (rewired answers sv) pv = load_group sv pv"
  using assms by (intro ext) (simp add: load_group_def LoadPolicyGroup_guarded)

lemma group_task_guarded:
  assumes "pv_guarded_client pv" and "library_laws (sv_env sv)"
  shows "group_task (rewired answers sv) pv = group_task sv pv"
  by (intro ext) (unfold group_task_def shouldSkipPolicy_def evaluate_guarded [OF assms] load_spec_guarded [OF assms], rule refl)

lemma group_shouldApply_guarded:
  assumes "pv_guarded_client pv" and "library_laws (sv_env sv)"
  shows "group_shouldApplyPolicy (rewired answers sv) pv = group_shouldApplyPolicy sv pv"
  by (intro ext) (simp only: group_shouldApplyPolicy_def load_spec_guarded [OF assms])

lemma group_required_guarded:
  assumes "pv_guarded_client pv" and "library_laws (sv_env sv)"
  shows "group_requiredPolicies (rewired answers sv) pv m groupArgs gms = group_requiredPolicies sv pv m groupArgs gms"
proof (induction gms)
  case Nil
  show ?case by (intro ext) simp
next
  case (Cons gm gms)
  show ?case by (intro ext) (unfold group_requiredPolicies.simps group_shouldApply_guarded [OF assms] Cons.IH rewired_fields, rule refl)
qed

lemma material_group_guarded:
  assumes "pv_guarded_client pv" and "library_laws (sv_env sv)"
  shows "verify_material_group sched (rewired answers sv) pv = verify_material_group sched sv pv"
  by (intro ext) (unfold verify_material_group_def load_group_guarded [OF assms] group_task_guarded [OF assms]
    group_required_guarded [OF assms] rewired_fields, rule refl)

lemma statement_group_guarded:
  assumes "pv_guarded_client pv" and "library_laws (sv_env sv)"
  shows "verify_statement_group sched (rewired answers sv) pv = verify_statement_group sched sv pv"
  by (intro ext) (unfold verify_statement_group_def load_group_guarded [OF assms] group_task_guarded [OF assms]
    rewired_fields, rule refl)

section \<open>Property\<close>

text \<open>
  C26. A verifier built with public targets only never uses the default HTTP client, neither for policies and groups nor for the
  scripts they refer to: results, errors and caches are the same whatever that client would answer, for materials, statements
  and groups, and the engines are told to refuse other targets too.
\<close>

theorem public_targets_only:
  assumes "fst (NewPolicyVerifier numCPU pols logger opts) = pv" and "pv_public_only pv" and laws: "library_laws (sv_env sv)"
  shows "VerifyMaterial sched (rewired answers sv) pv m path content st = VerifyMaterial sched sv pv m path content st \<and>
         VerifyStatement sched (rewired answers sv) pv json st = VerifyStatement sched sv pv json st \<and>
         group_VerifyMaterial scheds (rewired answers sv) pv gs m path content st =
           group_VerifyMaterial scheds sv pv gs m path content st \<and>
         group_VerifyStatement scheds (rewired answers sv) pv gs json st = group_VerifyStatement scheds sv pv gs json st \<and>
         eo_public_only (ApplyOptions (engine_options_of pv))"
proof -
  have g: "pv_guarded_client pv"
    using assms(1,2) by (auto simp: NewPolicyVerifier_def Let_def)
  have "eo_public_only (ApplyOptions (engine_options_of pv))"
    using assms(2) by (simp add: ApplyOptions_def engine_options_of_def option_defs Let_def split: option.split)
  then show ?thesis
    by (simp add: VerifyMaterial_guarded [OF g laws] VerifyStatement_guarded [OF g laws] group_VerifyMaterial_def group_VerifyStatement_def
      material_group_guarded [OF g laws] statement_group_guarded [OF g laws])
qed

end
