(* ===== verification/Contract_Validation.thy ===== *)
theory Contract_Validation
  imports Policy_Loader
begin

text \<open>
  Validation of workflow contracts
  (\<open>app/controlplane/api/workflowcontract/v1/crafting_schema_validations.go\<close>): unique material
  names, well-formed policy references, and the downgrade of a version 2 contract to version 1.

  The digest parser of the container registry library, \<open>url.Parse\<close> and the DNS-1123 check of the
  Kubernetes library are the fields of the record \<open>ref_checks\<close>.
\<close>

section \<open>Definitions\<close>

record parsed_url =
  pu_path :: string
  pu_host :: string

record ref_checks =
  rc_new_hash :: "string \<Rightarrow> unit res"
  rc_parse_url :: "string \<Rightarrow> parsed_url res"
  rc_dns_label :: "string \<Rightarrow> string list" \<comment> \<open>\<open>IsDNS1123Label\<close>: the violations found\<close>

fun unique_names :: "schema_material list \<Rightarrow> string set \<Rightarrow> unit res" where
  "unique_names [] seen = Inr ()"
| "unique_names (m # ms) seen =
     (if sm_name m \<in> seen then Inl (Errorf ''material with name=%s is duplicated'' [sm_name m])
      else unique_names ms (insert (sm_name m) seen))"

definition ValidateUniqueMaterialName :: "crafting_schema \<Rightarrow> unit res" where
  "ValidateUniqueMaterialName schema = unique_names (ss_materials schema) {}"

definition ValidateUniqueMaterialNameV2 :: "crafting_schema_v2 \<Rightarrow> unit res" where
  "ValidateUniqueMaterialNameV2 contract = (case v2s_spec contract of
       None \<Rightarrow> Inr () | Some spec \<Rightarrow> unique_names (ss_materials spec) {})"

definition validateIsDNS1123 :: "ref_checks \<Rightarrow> string \<Rightarrow> unit res" where
  "validateIsDNS1123 rc name =
     (if rc_dns_label rc name \<noteq> [] then Inl (Errorf ''%q: %s'' (name # rc_dns_label rc name)) else Inr ())"

text \<open>The provider, organization and name of a reference without scheme and digest.\<close>

definition split_provider :: "string \<Rightarrow> string \<times> string \<times> string" where
  "split_provider refValue =
     (let (providerName, policyName) = (case splitN2 '':'' refValue of [p, n] \<Rightarrow> (p, n) | parts \<Rightarrow> ([], hd parts));
          (orgName, policyName) = (case splitN2 ''/'' policyName of [o', n] \<Rightarrow> (o', n) | _ \<Rightarrow> ([], policyName))
      in (providerName, orgName, policyName))"

definition validate_chainloop_ref :: "ref_checks \<Rightarrow> string \<Rightarrow> unit res" where
  "validate_chainloop_ref rc refValue =
     (let (providerName, orgName, policyName) = split_provider refValue in
      bind_res (map_err (Wrapf ''invalid policy name: %w'' []) (validateIsDNS1123 rc policyName)) (\<lambda>_.
      bind_res (if providerName \<noteq> [] then map_err (Wrapf ''invalid provider name: %w'' []) (validateIsDNS1123 rc providerName)
                else Inr ()) (\<lambda>_.
      if orgName \<noteq> [] then map_err (Wrapf ''invalid organization name: %w'' []) (validateIsDNS1123 rc orgName)
      else Inr ())))"

definition validate_file_ref :: "ref_checks \<Rightarrow> string \<Rightarrow> unit res" where
  "validate_file_ref rc ref =
     bind_res (map_err (Wrapf ''invalid reference: %w'' []) (rc_parse_url rc ref)) (\<lambda>u.
     let path = (if pu_path u = [] then pu_host u else pu_path u) in
     if path = [] then Inl (Errorf ''invalid file reference %q'' [])
     else if path_ext path = [] then Inl (Errorf ''missing extension'' [])
     else Inr ())"

definition validate_http_ref :: "ref_checks \<Rightarrow> string \<Rightarrow> unit res" where
  "validate_http_ref rc ref =
     bind_res (map_err (Wrapf ''invalid reference: %w'' []) (rc_parse_url rc ref)) (\<lambda>u.
     if pu_path u = [] then Inl (Errorf ''path is empty'' [])
     else if path_ext (pu_path u) = [] then Inl (Errorf ''missing extension'' [])
     else Inr ())"

text \<open>The digest suffix, if there is one, is checked and removed.\<close>

definition strip_digest :: "ref_checks \<Rightarrow> string \<Rightarrow> string res" where
  "strip_digest rc ref = (case splitN2 ''@'' ref of
       [_, rawDigest] \<Rightarrow>
         bind_res (map_err (Wrapf ''invalid digest, want policy-ref@sha256:[hex]: %w'' []) (rc_new_hash rc rawDigest))
           (\<lambda>_. Inr (trim_suffix ref (''@'' @ rawDigest)))
     | _ \<Rightarrow> Inr ref)"

definition validate_scheme :: "ref_checks \<Rightarrow> string \<Rightarrow> unit res" where
  "validate_scheme rc ref =
     (let (scheme, refValue) = (case splitN2 ''://'' ref of [a, b] \<Rightarrow> (a, b) | refParts \<Rightarrow> ([], hd refParts)) in
      if scheme = ''file'' then validate_file_ref rc ref
      else if scheme = ''http'' \<or> scheme = ''https'' then validate_http_ref rc ref
      else if scheme = ''chainloop'' \<or> scheme = [] then validate_chainloop_ref rc refValue
      else Inl (Errorf ''unsupported protocol: %s'' [scheme]))"

definition ValidatePolicyAttachmentRef :: "ref_checks \<Rightarrow> string \<Rightarrow> unit res" where
  "ValidatePolicyAttachmentRef rc ref =
     (if ref = [] then Inl (Errorf ''reference is empty'' [])
      else bind_res (strip_digest rc ref) (validate_scheme rc))"

fun validate_refs :: "ref_checks \<Rightarrow> policy_attachment list \<Rightarrow> unit res" where
  "validate_refs rc [] = Inr ()"
| "validate_refs rc (att # atts) =
     bind_res (if get_ref att \<noteq> []
               then map_err (Wrapf ''invalid reference %q: %w'' [get_ref att]) (ValidatePolicyAttachmentRef rc (get_ref att))
               else Inr ()) (\<lambda>_. validate_refs rc atts)"

definition get_policies :: "policies option \<Rightarrow> policies" where
  "get_policies p = (case p of None \<Rightarrow> \<lparr>pols_materials = [], pols_attestation = []\<rparr> | Some q \<Rightarrow> q)"

definition ValidatePolicyAttachments :: "ref_checks \<Rightarrow> crafting_schema \<Rightarrow> unit res" where
  "ValidatePolicyAttachments rc schema =
     (let p = get_policies (ss_policies schema) in validate_refs rc (pols_attestation p @ pols_materials p))"

definition ValidatePolicyAttachmentsV2 :: "ref_checks \<Rightarrow> crafting_schema_v2 \<Rightarrow> unit res" where
  "ValidatePolicyAttachmentsV2 rc contract = (case v2s_spec contract of
       None \<Rightarrow> Inr ()
     | Some spec \<Rightarrow> (case ss_policies spec of
           None \<Rightarrow> Inr ()
         | Some p \<Rightarrow> validate_refs rc (pols_attestation p @ pols_materials p)))"

definition ToV1 :: "crafting_schema_v2 option \<Rightarrow> crafting_schema option" where
  "ToV1 contract = (case contract of
       None \<Rightarrow> None
     | Some c \<Rightarrow> (case v2s_spec c of
           None \<Rightarrow> None
         | Some spec \<Rightarrow> Some \<lparr>ss_materials = ss_materials spec, ss_env_allow_list = ss_env_allow_list spec,
             ss_runner = ss_runner spec, ss_policies = ss_policies spec,
             ss_policy_groups = ss_policy_groups spec, ss_annotations = ss_annotations spec,
             ss_schema_version = ''v1''\<rparr>))"

definition CraftingMaterialInValidationOrder :: "material_type list" where
  "CraftingMaterialInValidationOrder =
     [OPENVEX, SBOM_CYCLONEDX_JSON, SBOM_SPDX_JSON, CSAF_VEX, CSAF_INFORMATIONAL_ADVISORY,
      CSAF_SECURITY_ADVISORY, CSAF_SECURITY_INCIDENT_RESPONSE, GITLAB_SECURITY_REPORT, GITLEAKS_JSON,
      YELP_DETECT_SECRETS_BASELINE, SYSINTERNALS_SIGCHECK, OSSF_SCORECARD_JSON, OPENAPI_SPEC,
      ASYNCAPI_SPEC, GRAPHQL_SPEC, JUNIT_XML, JACOCO_XML, COBERTURA_XML, PITEST_XML, HELM_CHART, SARIF,
      BLACKDUCK_SCA_JSON, TWISTCLI_SCAN_JSON, ZAP_DAST_ZIP, SLSA_PROVENANCE, CHAINLOOP_RUNNER_CONTEXT,
      CHAINLOOP_AI_AGENT_CONFIG, CHAINLOOP_AI_CODING_SESSION, CHAINLOOP_AI_SECURITY_CONTEXT, ATTESTATION,
      CONTAINER_IMAGE, ARTIFACT, STRING]"

section \<open>Lemmas\<close>

lemma unique_names_iff:
  "unique_names ms seen = Inr () \<longleftrightarrow> distinct (map sm_name ms) \<and> sm_name ` set ms \<inter> seen = {}"
  by (induction ms arbitrary: seen) auto

lemma unique_names_error:
  "unique_names ms seen = Inl e \<Longrightarrow> \<exists>n. e = Errorf ''material with name=%s is duplicated'' [n]"
  by (induction ms arbitrary: seen) (auto split: if_splits)

lemma validate_refs_iff:
  "validate_refs rc atts = Inr () \<longleftrightarrow>
     (\<forall>att\<in>set atts. get_ref att \<noteq> [] \<longrightarrow> ValidatePolicyAttachmentRef rc (get_ref att) = Inr ())"
  by (induction atts) (auto simp: res_simps)

lemma trim_suffix_append: "trim_suffix (a @ b) b = a"
proof -
  have "suffix b (a @ b)" by (simp add: suffix_def)
  then show ?thesis by (simp add: trim_suffix_def)
qed

text \<open>The reference the checks see is the one the loaders see, without its digest.\<close>

lemma strip_digest_eq: "strip_digest rc ref = Inr r \<Longrightarrow> r = fst (ExtractDigest ref)"
proof (rule splitN2_cases [of "''@''" ref])
  fix a b assume "strip_digest rc ref = Inr r" "splitN2 ''@'' ref = [a, b]" "ref = a @ ''@'' @ b"
  then show ?thesis
    using trim_suffix_append [of a "''@'' @ b"] by (auto simp: ExtractDigest_def strip_digest_def res_simps)
qed (simp add: ExtractDigest_def strip_digest_def)

lemma validate_scheme_eq:
  "validate_scheme rc r =
     (let scheme = fst (RefParts r) in
      if scheme = fileScheme then validate_file_ref rc r
      else if scheme = httpScheme \<or> scheme = httpsScheme then validate_http_ref rc r
      else if scheme = chainloopScheme \<or> scheme = [] then validate_chainloop_ref rc (snd (RefParts r))
      else Inl (Errorf ''unsupported protocol: %s'' [scheme]))"
  by (simp add: validate_scheme_def RefParts_def scheme_defs case_prod_beta Let_def)

lemma validated_ref:
  "ValidatePolicyAttachmentRef rc ref = Inr () \<Longrightarrow>
     ref \<noteq> [] \<and> validate_scheme rc (fst (ExtractDigest ref)) = Inr ()"
  by (auto simp: ValidatePolicyAttachmentRef_def res_simps split: if_splits dest: strip_digest_eq)

lemma validated_scheme:
  "validate_scheme rc r = Inr () \<Longrightarrow> fst (RefParts r) \<in> {fileScheme, httpScheme, httpsScheme, chainloopScheme, []}"
  by (auto simp: validate_scheme_eq Let_def split: if_splits)

lemma split_once_extend: "split_once sep s = Some (x, y) \<Longrightarrow> split_once sep (s @ t) = Some (x, y @ t)"
proof (induction sep s arbitrary: x rule: split_once.induct)
  case (1 sep)
  then show ?case by (cases t) (auto split: if_splits)
next
  case (2 sep c s)
  have len: "length sep \<le> length (c # s)"
    using split_once_Some [OF 2(2)] by simp
  have "prefix sep ((c # s) @ t) \<longleftrightarrow> prefix sep (c # s)"
  proof
    assume "prefix sep ((c # s) @ t)"
    then show "prefix sep (c # s)" by (rule prefix_length_prefix) (use len in simp_all)
  qed (rule prefix_prefix)
  moreover have "drop (length sep) ((c # s) @ t) = drop (length sep) (c # s) @ t"
    using len by (simp only: drop_append) simp
  ultimately show ?case using 2 by (auto split: if_splits)
qed

lemma sublist_no_at:
  assumes "sublist ''://'' (a @ CHR ''@'' # d)" and "CHR ''/'' \<notin> set d"
  shows "sublist ''://'' a"
proof -
  from assms(1) have "sublist ''://'' a \<or> sublist ''://'' (CHR ''@'' # d) \<or>
      (\<exists>xs ys. ''://'' = xs @ ys \<and> suffix xs a \<and> prefix ys (CHR ''@'' # d))"
    by (simp only: sublist_append)
  moreover have "CHR ''/'' \<notin> set (CHR ''@'' # d)" using assms(2) by simp
  then have "\<not> sublist ''://'' (CHR ''@'' # d)"
    by (metis list.set_intros(1,2) set_mono_sublist subset_iff)
  moreover have "suffix xs a \<Longrightarrow> sublist ''://'' a" if "''://'' = xs @ ys" "prefix ys (CHR ''@'' # d)" for xs ys
  proof (cases ys)
    case Nil
    with that show "suffix xs a \<Longrightarrow> sublist ''://'' a" by (auto intro: suffix_imp_sublist)
  next
    case (Cons y zs)
    with that have "CHR ''@'' \<in> set ''://''" by (metis in_set_conv_decomp prefix_Cons list.inject list.distinct(1))
    then show "suffix xs a \<Longrightarrow> sublist ''://'' a" by simp
  qed
  ultimately show ?thesis by blast
qed

text \<open>A digest without a slash does not change the scheme of a reference.\<close>

lemma RefParts_digest:
  assumes "CHR ''/'' \<notin> set d"
  shows "fst (RefParts (a @ CHR ''@'' # d)) = fst (RefParts a)"
proof (cases "split_once ''://'' a")
  case None
  then have "\<not> sublist ''://'' (a @ CHR ''@'' # d)"
    using sublist_no_at [OF _ assms] by (auto simp: split_once_None)
  with None show ?thesis by (simp add: RefParts_plain split_once_None)
next
  case (Some p)
  obtain x y where p: "p = (x, y)" by fastforce
  with Some split_once_extend [of "''://''" a x y "CHR ''@'' # d"] show ?thesis
    by (simp add: RefParts_def splitN2_def)
qed

text \<open>What the container registry library documents of a digest: it is an algorithm, a colon and hex digits.\<close>

definition digest_no_slash :: "ref_checks \<Rightarrow> bool" where
  "digest_no_slash rc = (\<forall>d. rc_new_hash rc d = Inr () \<longrightarrow> CHR ''/'' \<notin> set d)"

lemma validated_digest:
  assumes "ValidatePolicyAttachmentRef rc ref = Inr ()" and "digest_no_slash rc"
  shows "fst (RefParts ref) = fst (RefParts (fst (ExtractDigest ref)))"
proof (rule splitN2_cases [of "''@''" ref])
  fix a d assume sp: "splitN2 ''@'' ref = [a, d]" and ref: "ref = a @ ''@'' @ d"
  with assms(1) have "rc_new_hash rc d = Inr ()"
    by (auto simp: ValidatePolicyAttachmentRef_def strip_digest_def res_simps split: if_splits)
  with assms(2) have "CHR ''/'' \<notin> set d" by (simp add: digest_no_slash_def)
  moreover have "fst (ExtractDigest ref) = a" by (simp add: ExtractDigest_def sp)
  ultimately show ?thesis using RefParts_digest [of d a] ref by simp
qed (simp add: ExtractDigest_def)

text \<open>A loader that can be used for the reference: its own check of the scheme passes.\<close>

definition loader_accepts :: "loader_kind \<Rightarrow> string \<Rightarrow> bool" where
  "loader_accepts k ref = (case k of
       EmbeddedLoader \<Rightarrow> False
     | ChainloopLoader \<Rightarrow> IsProviderScheme ref
     | FileLoader \<Rightarrow> (\<exists>p. ensureScheme (fst (ExtractDigest ref)) [fileScheme] = Inr p)
     | HTTPSLoader \<Rightarrow> (\<exists>p. ensureScheme (fst (ExtractDigest ref)) [httpScheme, httpsScheme] = Inr p))"

lemma validated_loader:
  assumes "ValidatePolicyAttachmentRef rc (get_ref att) = Inr ()" and "digest_no_slash rc" and "get_embedded att = None"
  shows "\<exists>k. getLoader att = Inr k \<and> loader_accepts k (get_ref att)"
proof -
  let ?s = "fst (RefParts (get_ref att))"
  have s: "?s = fst (RefParts (fst (ExtractDigest (get_ref att))))" by (rule validated_digest [OF assms(1,2)])
  have "get_ref att \<noteq> []" and "?s \<in> {fileScheme, httpScheme, httpsScheme, chainloopScheme, []}"
    using validated_ref [OF assms(1)] validated_scheme s by auto
  with assms(3) s show ?thesis
    by (auto simp: getLoader_def loader_accepts_def ensureScheme_def IsProviderScheme_def scheme_defs Let_def
        case_prod_beta)
qed

section \<open>Properties\<close>

text \<open>
  Downgrading a version 2 contract loses nothing the validation looks at: the version 1 contract
  has the same verdict on material names, which is that no name is repeated, and on policy references.
\<close>

theorem downgrade_keeps_verdicts:
  assumes "ToV1 (Some c) = Some s"
  shows "ValidateUniqueMaterialNameV2 c = ValidateUniqueMaterialName s \<and>
         ValidatePolicyAttachmentsV2 rc c = ValidatePolicyAttachments rc s \<and>
         (ValidateUniqueMaterialNameV2 c = Inr () \<longleftrightarrow> distinct (map sm_name (ss_materials s)))"
  using assms
  by (auto simp: ToV1_def ValidateUniqueMaterialNameV2_def ValidateUniqueMaterialName_def ValidatePolicyAttachmentsV2_def
      ValidatePolicyAttachments_def get_policies_def unique_names_iff split: option.splits)

text \<open>
  C37. The policy attachments of a contract that passes the validation of its attachments, of either version, can be
  loaded from: every reference of an attachment selects a loader, and the loader's own check of it passes. References to
  policy groups are not part of that validation.
\<close>

theorem validated_refs_have_loaders:
  assumes "ValidatePolicyAttachments rc schema = Inr () \<or> ToV1 (Some c) = Some schema \<and> ValidatePolicyAttachmentsV2 rc c = Inr ()"
    and "digest_no_slash rc"
    and "att \<in> set (pols_attestation (get_policies (ss_policies schema)) @ pols_materials (get_policies (ss_policies schema)))"
    and "get_ref att \<noteq> []"
  shows "\<exists>k. getLoader att = Inr k \<and> loader_accepts k (get_ref att)"
proof (rule validated_loader)
  have "ValidatePolicyAttachments rc schema = Inr ()" using assms(1) downgrade_keeps_verdicts by metis
  then show "ValidatePolicyAttachmentRef rc (get_ref att) = Inr ()"
    using assms(3,4) by (auto simp: ValidatePolicyAttachments_def Let_def validate_refs_iff)
  show "get_embedded att = None"
    using assms(4) by (simp add: get_ref_def get_embedded_def split: policy_source.splits)
qed (rule assms(2))

end
