(* ===== verification/Crafting_State.thy ===== *)
theory Crafting_State
  imports Policy_Groups Contract_Validation
begin

text \<open>
  The crafting state of an attestation
  (\<open>pkg/attestation/crafter/api/attestation/v1/crafting_state.go\<close> and
  \<open>crafting_state_validations.go\<close>): the attestation being built, the contract it is built for in
  either schema version, and the check that every required material is there.
\<close>

section \<open>State\<close>

record workflow_metadata =
  wf_name :: string
  wf_project :: string
  wf_version :: string            \<comment> \<open>\<open>GetVersion().GetVersion()\<close>\<close>
  wf_project_version :: string    \<comment> \<open>the deprecated flat field\<close>

record attestation =
  att_workflow :: workflow_metadata
  att_materials :: "material gomap"
  att_annotations :: "string gomap"
  att_env_vars :: "string gomap"
  att_evaluations :: "policy_evaluation list"
  att_block_on_violation :: bool
  att_bypass_policy_check :: bool
  att_allowed_hostnames :: "string list"
  att_skip_runner_env :: bool

datatype schema = InputSchema crafting_schema | SchemaV2 crafting_schema_v2 | NoSchema

record crafting_state =
  cs_attestation :: attestation
  cs_schema :: schema
  cs_dry_run :: bool

definition GetEnvAllowList :: "crafting_state \<Rightarrow> string list" where
  "GetEnvAllowList state = (case cs_schema state of
       InputSchema s \<Rightarrow> ss_env_allow_list s
     | SchemaV2 c \<Rightarrow> (case v2s_spec c of Some spec \<Rightarrow> ss_env_allow_list spec | None \<Rightarrow> [])
     | NoSchema \<Rightarrow> [])"

definition cs_GetMaterials :: "crafting_state \<Rightarrow> schema_material list" where
  "cs_GetMaterials state = (case cs_schema state of
       InputSchema s \<Rightarrow> ss_materials s
     | SchemaV2 c \<Rightarrow> (case v2s_spec c of Some spec \<Rightarrow> ss_materials spec | None \<Rightarrow> [])
     | NoSchema \<Rightarrow> [])"

definition cs_GetAnnotations :: "crafting_state \<Rightarrow> contract_annotation list" where
  "cs_GetAnnotations state = (case cs_schema state of
       InputSchema s \<Rightarrow> ss_annotations s
     | SchemaV2 c \<Rightarrow> (case v2s_spec c of Some spec \<Rightarrow> ss_annotations spec | None \<Rightarrow> [])
     | NoSchema \<Rightarrow> [])"

definition GetPolicyGroups :: "crafting_state \<Rightarrow> group_attachment list" where
  "GetPolicyGroups state = (case cs_schema state of
       InputSchema s \<Rightarrow> ss_policy_groups s
     | SchemaV2 c \<Rightarrow> (case v2s_spec c of Some spec \<Rightarrow> ss_policy_groups spec | None \<Rightarrow> [])
     | NoSchema \<Rightarrow> [])"

definition GetPolicies :: "crafting_state \<Rightarrow> policies option" where
  "GetPolicies state = (case cs_schema state of
       InputSchema s \<Rightarrow> ss_policies s
     | SchemaV2 c \<Rightarrow> (case v2s_spec c of Some spec \<Rightarrow> ss_policies spec | None \<Rightarrow> None)
     | NoSchema \<Rightarrow> None)"

lemmas schema_getter_defs = GetEnvAllowList_def cs_GetMaterials_def cs_GetAnnotations_def
  GetPolicyGroups_def GetPolicies_def

section \<open>Completeness of an attestation\<close>

record presence =
  pr_missing :: "string list"
  pr_members :: "string list gomap"
  pr_satisfied :: "string set"
  pr_order :: "string list"

definition group_members :: "string list gomap \<Rightarrow> string \<Rightarrow> string list" where
  "group_members m g = (case map_of m g of None \<Rightarrow> [] | Some ns \<Rightarrow> ns)"

definition presence_step :: "string set \<Rightarrow> schema_material \<Rightarrow> presence \<Rightarrow> presence" where
  "presence_step craftedNames m p =
     (let crafted = sm_name m \<in> craftedNames; g = sm_group m in
      if g \<noteq> [] then
        p\<lparr>pr_order := (if map_of (pr_members p) g = None then pr_order p @ [g] else pr_order p),
          pr_members := AList.update g (group_members (pr_members p) g @ [sm_name m]) (pr_members p),
          pr_satisfied := (if crafted then insert g (pr_satisfied p) else pr_satisfied p)\<rparr>
      else if \<not> crafted \<and> \<not> sm_optional m then p\<lparr>pr_missing := pr_missing p @ [sm_name m]\<rparr>
      else p)"

definition presence_of :: "schema_material list \<Rightarrow> string set \<Rightarrow> presence" where
  "presence_of expected craftedNames =
     fold (presence_step craftedNames) expected
       \<lparr>pr_missing = [], pr_members = [], pr_satisfied = {}, pr_order = []\<rparr>"

text \<open>\<open>%q\<close> of a group name: a DNS-1123 label has no character to escape.\<close>

definition quoted :: "string \<Rightarrow> string" where
  "quoted s = CHR 0x22 # s @ [CHR 0x22]"

definition presence_errors :: "presence \<Rightarrow> string list" where
  "presence_errors p =
     (if pr_missing p \<noteq> []
      then [''some materials have not been crafted yet: '' @ join_str '', '' (pr_missing p)] else []) @
     map (\<lambda>g. ''at least one material from group '' @ quoted g @ '' is required: '' @ join_str '', '' (group_members (pr_members p) g))
       (filter (\<lambda>g. g \<notin> pr_satisfied p) (pr_order p))"

definition ValidateMaterialsPresence :: "schema_material list \<Rightarrow> string set \<Rightarrow> unit res" where
  "ValidateMaterialsPresence expected craftedNames =
     (let errs = presence_errors (presence_of expected craftedNames) in
      if errs \<noteq> [] then Inl (Errorf (join_str ''; '' errs) []) else Inr ())"

definition ValidateComplete :: "(crafting_state \<Rightarrow> unit res) \<Rightarrow> crafting_state \<Rightarrow> bool \<Rightarrow> unit res" where
  "ValidateComplete validate state dryRun =
     bind_res (if \<not> dryRun then map_err (Wrapf ''invalid crafting state: %w'' []) (validate state) else Inr ()) (\<lambda>_.
     ValidateMaterialsPresence (cs_GetMaterials state) (fst ` set (att_materials (cs_attestation state))))"

section \<open>Lemmas\<close>

text \<open>What the contract asks for: ungrouped required materials, and one member of each group.\<close>

definition materials_present :: "schema_material list \<Rightarrow> string set \<Rightarrow> bool" where
  "materials_present expected craftedNames =
     ((\<forall>m\<in>set expected. sm_group m = [] \<and> \<not> sm_optional m \<longrightarrow> sm_name m \<in> craftedNames) \<and>
      (\<forall>m\<in>set expected. sm_group m \<noteq> [] \<longrightarrow>
         (\<exists>m'\<in>set expected. sm_group m' = sm_group m \<and> sm_name m' \<in> craftedNames)))"

abbreviation grouped :: "schema_material list \<Rightarrow> schema_material list" where
  "grouped ms \<equiv> filter (\<lambda>m. sm_group m \<noteq> []) ms"

definition presence_inv :: "string set \<Rightarrow> schema_material list \<Rightarrow> presence \<Rightarrow> bool" where
  "presence_inv craftedNames ms p =
     (pr_missing p = map sm_name (filter (\<lambda>m. sm_group m = [] \<and> \<not> sm_optional m \<and> sm_name m \<notin> craftedNames) ms) \<and>
      set (pr_order p) = sm_group ` set (grouped ms) \<and>
      dom (map_of (pr_members p)) = set (pr_order p) \<and>
      pr_satisfied p = sm_group ` set (filter (\<lambda>m. sm_name m \<in> craftedNames) (grouped ms)))"

lemma presence_step_inv:
  assumes "presence_inv craftedNames ms p"
  shows "presence_inv craftedNames (ms @ [m]) (presence_step craftedNames m p)"
proof (cases "sm_group m = []")
  case True
  with assms show ?thesis by (simp add: presence_inv_def presence_step_def Let_def)
next
  case False
  with assms have "map_of (pr_members p) (sm_group m) = None \<longleftrightarrow> sm_group m \<notin> set (pr_order p)"
    by (metis domIff presence_inv_def)
  then have "set (pr_order (presence_step craftedNames m p)) = insert (sm_group m) (set (pr_order p))"
    using False by (auto simp: presence_step_def Let_def)
  moreover have "dom (map_of (pr_members (presence_step craftedNames m p))) = insert (sm_group m) (dom (map_of (pr_members p)))"
    using False by (simp add: presence_step_def Let_def update_conv')
  ultimately show ?thesis
    using assms False by (simp add: presence_inv_def) (simp add: presence_step_def Let_def)
qed

lemma presence_of_inv: "presence_inv craftedNames ms (presence_of ms craftedNames)"
proof (induction ms rule: rev_induct)
  case (snoc m ms)
  then show ?case by (simp add: presence_of_def presence_step_inv)
qed (simp add: presence_of_def presence_inv_def)

lemma presence_errors_Nil: "presence_errors p = [] \<longleftrightarrow> pr_missing p = [] \<and> set (pr_order p) \<subseteq> pr_satisfied p"
  by (auto simp: presence_errors_def filter_empty_conv)

lemma ValidateMaterialsPresence_iff:
  "ValidateMaterialsPresence expected craftedNames = Inr () \<longleftrightarrow> materials_present expected craftedNames"
proof -
  let ?p = "presence_of expected craftedNames"
  have inv: "presence_inv craftedNames expected ?p" by (rule presence_of_inv)
  then have "pr_missing ?p = [] \<longleftrightarrow>
      (\<forall>m\<in>set expected. sm_group m = [] \<and> \<not> sm_optional m \<longrightarrow> sm_name m \<in> craftedNames)"
    by (auto simp: presence_inv_def filter_empty_conv)
  moreover have "set (pr_order ?p) \<subseteq> pr_satisfied ?p \<longleftrightarrow> (\<forall>m\<in>set expected. sm_group m \<noteq> [] \<longrightarrow>
      (\<exists>m'\<in>set expected. sm_group m' = sm_group m \<and> sm_name m' \<in> craftedNames))"
  proof -
    have "set (pr_order ?p) \<subseteq> pr_satisfied ?p \<longleftrightarrow>
        (\<forall>m\<in>set (grouped expected). sm_group m \<in> sm_group ` set (filter (\<lambda>m. sm_name m \<in> craftedNames) (grouped expected)))"
      using inv by (simp add: presence_inv_def image_subset_iff)
    also have "\<dots> \<longleftrightarrow> (\<forall>m\<in>set expected. sm_group m \<noteq> [] \<longrightarrow>
        (\<exists>m'\<in>set expected. sm_group m' = sm_group m \<and> sm_name m' \<in> craftedNames))"
      by (fastforce simp: image_iff)
    finally show ?thesis .
  qed
  moreover have "ValidateMaterialsPresence expected craftedNames = Inr () \<longleftrightarrow>
      pr_missing ?p = [] \<and> set (pr_order ?p) \<subseteq> pr_satisfied ?p"
    by (simp add: ValidateMaterialsPresence_def Let_def presence_errors_Nil)
  ultimately show ?thesis unfolding materials_present_def by blast
qed

text \<open>The order of the contract does not matter, and runtime materials never hurt.\<close>

lemma materials_present_mono:
  "materials_present expected craftedNames \<Longrightarrow> craftedNames \<subseteq> names' \<Longrightarrow> materials_present expected names'"
  unfolding materials_present_def by blast

section \<open>Properties\<close>

text \<open>
  C36. An attestation is complete exactly when the crafting state is valid, or it is a dry run, and the
  contract is satisfied: every required material outside a group is there, and at least one material
  of each group.
\<close>

theorem complete_iff_contract_satisfied:
  "ValidateComplete validate state dryRun = Inr () \<longleftrightarrow>
     (dryRun \<or> validate state = Inr ()) \<and>
     materials_present (cs_GetMaterials state) (fst ` set (att_materials (cs_attestation state)))"
  by (auto simp: ValidateComplete_def bind_res_eq_Inr ValidateMaterialsPresence_iff)

end
