(* ===== verification/Biz_Errors.thy ===== *)
theory Biz_Errors
  imports Prelude
begin

text \<open>
  The error types of the control plane (\<open>app/controlplane/pkg/biz/errors.go\<close>). None of them has an
  \<open>Unwrap\<close> method, so \<open>errors.As\<close> finds the type and stops there.
\<close>

definition NewErrNotFound :: "string \<Rightarrow> err" where
  "NewErrNotFound entity = TypedErr ''ErrNotFound'' (Errorf ''%s not found'' [entity])"

definition NewErrInvalidUUID :: "err \<Rightarrow> err" where
  "NewErrInvalidUUID x = TypedErr ''ErrInvalidUUID'' (Wrapf ''invalid UUID: %s'' [] x)"

definition NewErrValidation :: "err \<Rightarrow> err" where
  "NewErrValidation x = TypedErr ''ErrValidation'' (Wrapf ''validation error: %s'' [] x)"

definition NewErrValidationStr :: "string \<Rightarrow> err" where
  "NewErrValidationStr m = NewErrValidation (Errorf m [])"

definition NewErrUnauthorized :: "err \<Rightarrow> err" where
  "NewErrUnauthorized x = TypedErr ''ErrUnauthorized'' (Wrapf ''authorization error: %s'' [] x)"

definition NewErrUnauthorizedStr :: "string \<Rightarrow> err" where
  "NewErrUnauthorizedStr m = NewErrUnauthorized (Errorf m [])"

definition NewErrReferrerAmbiguous :: "string \<Rightarrow> string list \<Rightarrow> err" where
  "NewErrReferrerAmbiguous digest kinds =
     TypedErr ''ErrAmbiguousReferrer'' (Errorf ''digest %s present in %d kinds %q'' (digest # kinds))"

definition NewErrAlreadyExistsStr :: "string \<Rightarrow> err" where
  "NewErrAlreadyExistsStr m = TypedErr ''ErrAlreadyExists'' (Wrapf ''duplicated: %s'' [] (Errorf m []))"

definition NewErrReleasedVersionImmutable :: "string \<Rightarrow> err" where
  "NewErrReleasedVersionImmutable version = TypedErr ''ErrReleasedVersionImmutable''
     (Errorf ''version %q is released and immutable: attestations cannot be added'' [version])"

definition NewErrNotImplemented :: "string \<Rightarrow> err" where
  "NewErrNotImplemented m = TypedErr ''ErrNotImplemented'' (Errorf ''not implemented: %s'' [m])"

definition IsErrReleasedVersionImmutable :: "err \<Rightarrow> bool" where
  "IsErrReleasedVersionImmutable x = errors_as x ''ErrReleasedVersionImmutable''"
definition IsErrNotImplemented :: "err \<Rightarrow> bool" where "IsErrNotImplemented x = errors_as x ''ErrNotImplemented''"
definition IsNotFound :: "err \<Rightarrow> bool" where "IsNotFound x = errors_as x ''ErrNotFound''"
definition IsErrValidation :: "err \<Rightarrow> bool" where "IsErrValidation x = errors_as x ''ErrValidation''"
definition IsErrUnauthorized :: "err \<Rightarrow> bool" where "IsErrUnauthorized x = errors_as x ''ErrUnauthorized''"
definition IsErrAlreadyExists :: "err \<Rightarrow> bool" where "IsErrAlreadyExists x = errors_as x ''ErrAlreadyExists''"
definition IsErrAmbiguousReferrer :: "err \<Rightarrow> bool" where
  "IsErrAmbiguousReferrer x = errors_as x ''ErrAmbiguousReferrer''"

lemmas biz_error_defs = NewErrNotFound_def NewErrInvalidUUID_def NewErrValidation_def NewErrValidationStr_def
  NewErrUnauthorized_def NewErrUnauthorizedStr_def NewErrReferrerAmbiguous_def NewErrAlreadyExistsStr_def
  NewErrReleasedVersionImmutable_def NewErrNotImplemented_def IsErrReleasedVersionImmutable_def IsErrNotImplemented_def
  IsNotFound_def IsErrValidation_def IsErrUnauthorized_def IsErrAlreadyExists_def IsErrAmbiguousReferrer_def

text \<open>A run-time panic, which the server reports as an error of the request.\<close>

definition go_panic :: "string \<Rightarrow> err" where
  "go_panic what = TypedErr ''panic'' (Errorf what [])"

text \<open>Each constructor is recognised by its own test and by no other.\<close>

lemma biz_error_kinds [simp]:
  "IsNotFound (NewErrNotFound a)" "\<not> IsErrValidation (NewErrNotFound a)" "\<not> IsErrUnauthorized (NewErrNotFound a)"
  "IsErrValidation (NewErrValidation x)" "\<not> IsNotFound (NewErrValidation x)" "\<not> IsErrUnauthorized (NewErrValidation x)"
  "IsErrUnauthorized (NewErrUnauthorizedStr m)" "\<not> IsNotFound (NewErrUnauthorizedStr m)"
  "IsErrAmbiguousReferrer (NewErrReferrerAmbiguous d ks)" "\<not> IsErrUnauthorized (NewErrReferrerAmbiguous d ks)"
  "IsErrAlreadyExists (NewErrAlreadyExistsStr m)"
  "\<not> IsErrUnauthorized (NewErrValidationStr m)" "IsErrValidation (NewErrValidationStr m)"
  by (simp_all add: biz_error_defs)

end
