(* ===== verification/Attestation_State.thy ===== *)
theory Attestation_State
  imports Crafting_State Netguard Biz_Errors
begin

text \<open>
  Where the crafting state lives between two commands: the \<open>StateManager\<close> interface of the crafter
  (\<open>pkg/attestation/crafter/crafter.go\<close>) and its two implementations, the file system one and the
  remote one (\<open>statemanager/filesystem\<close>, \<open>statemanager/remote\<close>), and behind the remote one the
  control plane: the use case that encrypts the state (\<open>app/controlplane/pkg/biz/attestationstate.go\<close>)
  and the repository that stores it under optimistic locking
  (\<open>app/controlplane/pkg/data/attestationstate.go\<close>).

  Key derivation, the AES block function, SHA-256 and the protobuf codecs are parameters; the CFB
  mode of \<open>crypto/cipher\<close> is modelled. Random bytes are drawn from a stream in the server state.
\<close>

section \<open>Encryption at rest\<close>

type_synonym bytes = "byte list"

record state_env =
  se_uuid_parse :: "string \<Rightarrow> string res"
  se_marshal :: "crafting_state \<Rightarrow> bytes res"
  se_unmarshal :: "bytes \<Rightarrow> crafting_state res"
  se_derive_key :: "string \<Rightarrow> bytes \<Rightarrow> bytes"   \<comment> \<open>PBKDF2 of the passphrase and the salt\<close>
  se_block :: "bytes \<Rightarrow> bytes \<Rightarrow> bytes"         \<comment> \<open>AES: key, block of 16 bytes\<close>
  se_digest :: "bytes \<Rightarrow> string"

definition saltSize :: nat where "saltSize = 16"
definition aes_BlockSize :: nat where "aes_BlockSize = 16"
definition maxEncryptedSize :: nat where "maxEncryptedSize = 6 * 1024 * 1024"

definition magic :: bytes where
  "magic = map (\<lambda>c. of_nat (of_char c)) ''MagicPrefix__''"

lemmas size_defs = saltSize_def aes_BlockSize_def maxEncryptedSize_def

definition xor_bytes :: "bytes \<Rightarrow> bytes \<Rightarrow> bytes" where
  "xor_bytes xs ks = map2 (\<lambda>x k. x XOR k) xs ks"

text \<open>
  Cipher feedback: the key stream of a block is the encryption of the previous ciphertext block, the
  first of which is the initialization vector. The last block may be short.
\<close>

function cfb_encrypt :: "(bytes \<Rightarrow> bytes) \<Rightarrow> bytes \<Rightarrow> bytes \<Rightarrow> bytes" where
  "cfb_encrypt E iv data =
     (if data = [] then []
      else
        let c = xor_bytes (take 16 data) (E iv) in c @ cfb_encrypt E c (drop 16 data))"
  by pat_completeness auto
termination by (relation "measure (\<lambda>(E, iv, data). length data)") auto

function cfb_decrypt :: "(bytes \<Rightarrow> bytes) \<Rightarrow> bytes \<Rightarrow> bytes \<Rightarrow> bytes" where
  "cfb_decrypt E iv data =
     (if data = [] then []
      else
        let c = take 16 data in xor_bytes c (E iv) @ cfb_decrypt E c (drop 16 data))"
  by pat_completeness auto
termination by (relation "measure (\<lambda>(E, iv, data). length data)") auto

declare cfb_encrypt.simps [simp del] cfb_decrypt.simps [simp del]

definition encrypt :: "state_env \<Rightarrow> bytes \<Rightarrow> string \<Rightarrow> bytes res \<Rightarrow> bytes res \<Rightarrow> bytes res" where
  "encrypt se data passphrase salt_draw iv_draw =
     (if length data > maxEncryptedSize then Inl (Errorf ''value too large'' [])
      else
        bind_res salt_draw (\<lambda>salt.
        bind_res iv_draw (\<lambda>iv.
        let key = se_derive_key se passphrase salt in
        Inr (salt @ iv @ cfb_encrypt (se_block se key) iv (magic @ data)))))"

definition ErrInvalidPassphrase :: err where
  "ErrInvalidPassphrase = TypedErr ''ErrInvalidPassphrase'' (Errorf ''the attestation state was created with a different token'' [])"

definition decrypt :: "state_env \<Rightarrow> bytes \<Rightarrow> string \<Rightarrow> bytes res" where
  "decrypt se ciphertext passphrase =
     (if length ciphertext \<le> saltSize then Inl (Errorf ''encrypted data too short'' [])
      else
        let salt = take saltSize ciphertext; ciphertext = drop saltSize ciphertext;
            key = se_derive_key se passphrase salt
        in if length ciphertext < aes_BlockSize then Inl (Errorf ''ciphertext too short'' [])
           else
             let iv = take aes_BlockSize ciphertext;
                 plain = cfb_decrypt (se_block se key) iv (drop aes_BlockSize ciphertext)
             in if length plain < length magic then Inl ErrInvalidPassphrase
                else if take (length magic) plain \<noteq> magic then Inl ErrInvalidPassphrase
                else Inr (drop (length magic) plain))"

section \<open>The repository\<close>

record run_row =
  rr_workflow :: string
  rr_state :: "bytes option"

text \<open>
  The network between a client and the control plane: a request may get lost before it is served,
  and the response may get lost after it was. The client sees an error either way.
\<close>

datatype net_fault = RequestLost err | ResponseLost err

record server =
  sr_runs :: "string \<Rightarrow> run_row option"
  sr_random :: "nat \<Rightarrow> bytes res"  \<comment> \<open>the draws of 16 random bytes still to come\<close>
  sr_drawn :: nat
  sr_net :: "nat \<Rightarrow> net_fault option"  \<comment> \<open>what happens to the n-th request that changes the state\<close>
  sr_calls :: nat

definition ErrAttestationStateConflict :: "string \<Rightarrow> string \<Rightarrow> err" where
  "ErrAttestationStateConflict got want = Errorf ''the provided base digest does not match the stored state, it might have changed, got=%q, want=%q'' [got, want]"

definition repo_Initialized :: "server \<Rightarrow> string \<Rightarrow> bool" where
  "repo_Initialized sr runID = (case sr_runs sr runID of Some row \<Rightarrow> rr_state row \<noteq> None | None \<Rightarrow> False)"

text \<open>One transaction: the row is locked while its digest is compared and the state replaced.\<close>

definition repo_Save :: "state_env \<Rightarrow> server \<Rightarrow> string \<Rightarrow> bytes \<Rightarrow> string \<Rightarrow> string res \<times> server" where
  "repo_Save se sr runID state baseDigest =
     (case (if baseDigest \<noteq> [] then
              (case sr_runs sr runID of
                 Some row \<Rightarrow> (case rr_state row of
                     Some stored \<Rightarrow>
                       if baseDigest \<noteq> se_digest se stored
                       then Inl (ErrAttestationStateConflict (se_digest se stored) baseDigest) else Inr ()
                   | None \<Rightarrow> Inl (NewErrNotFound ''attestation state''))
               | None \<Rightarrow> Inl (NewErrNotFound ''attestation state''))
            else Inr ()) of
        Inl x \<Rightarrow> (Inl x, sr)
      | Inr _ \<Rightarrow>
          (case sr_runs sr runID of
             None \<Rightarrow> (Inl (NewErrNotFound ''workflow run''), sr)
           | Some row \<Rightarrow>
               (Inr (se_digest se state), sr\<lparr>sr_runs := (sr_runs sr)(runID \<mapsto> row\<lparr>rr_state := Some state\<rparr>)\<rparr>)))"

definition repo_Read :: "state_env \<Rightarrow> server \<Rightarrow> string \<Rightarrow> (bytes \<times> string) res" where
  "repo_Read se sr runID =
     (case sr_runs sr runID of
        None \<Rightarrow> Inl (NewErrNotFound ''attestation state'')
      | Some row \<Rightarrow> (case rr_state row of
            None \<Rightarrow> Inl (NewErrNotFound ''attestation state'')
          | Some stored \<Rightarrow> Inr (stored, se_digest se stored)))"

definition repo_Reset :: "server \<Rightarrow> string \<Rightarrow> unit res \<times> server" where
  "repo_Reset sr runID =
     (case sr_runs sr runID of
        None \<Rightarrow> (Inl (NewErrNotFound ''attestation state''), sr)
      | Some row \<Rightarrow> (Inr (), sr\<lparr>sr_runs := (sr_runs sr)(runID \<mapsto> row\<lparr>rr_state := None\<rparr>)\<rparr>))"

section \<open>The use case\<close>

definition checkWorkflowRunInWorkflow :: "state_env \<Rightarrow> server \<Rightarrow> string \<Rightarrow> string \<Rightarrow> string res" where
  "checkWorkflowRunInWorkflow se sr workflowID runID =
     bind_res (map_err NewErrInvalidUUID (se_uuid_parse se workflowID)) (\<lambda>workflowUUID.
     bind_res (map_err NewErrInvalidUUID (se_uuid_parse se runID)) (\<lambda>runUUID.
     case sr_runs sr runUUID of
       None \<Rightarrow> Inl (NewErrNotFound ''workflow run'')
     | Some row \<Rightarrow> if rr_workflow row \<noteq> workflowUUID then Inl (NewErrNotFound ''workflow run'') else Inr runUUID))"

definition uc_Initialized :: "state_env \<Rightarrow> server \<Rightarrow> string \<Rightarrow> string \<Rightarrow> bool res" where
  "uc_Initialized se sr workflowID runID =
     bind_res (map_err (Wrapf ''failed to check workflow run: %w'' []) (checkWorkflowRunInWorkflow se sr workflowID runID))
       (\<lambda>runUUID. Inr (repo_Initialized sr runUUID))"

definition uc_Save ::
  "state_env \<Rightarrow> server \<Rightarrow> string \<Rightarrow> string \<Rightarrow> crafting_state \<Rightarrow> string \<Rightarrow> string \<Rightarrow> string res \<times> server" where
  "uc_Save se sr workflowID runID state passphrase baseDigest =
     (case bind_res (map_err (Wrapf ''failed to check workflow run: %w'' []) (checkWorkflowRunInWorkflow se sr workflowID runID))
             (\<lambda>runUUID.
           bind_res (map_err (Wrapf ''failed to marshal attestation state: %w'' []) (se_marshal se state)) (\<lambda>raw.
           if passphrase = [] then Inl (NewErrValidationStr ''passphrase is required'')
           else
             bind_res (map_err (Wrapf ''failed to encrypt attestation state: %w'' [])
               (encrypt se raw passphrase (sr_random sr (sr_drawn sr)) (sr_random sr (sr_drawn sr + 1))))
             (\<lambda>encrypted. Inr (runUUID, encrypted)))) of
        Inl x \<Rightarrow> (Inl x, sr)
      | Inr (runUUID, encrypted) \<Rightarrow>
          (let (r, sr') = repo_Save se (sr\<lparr>sr_drawn := sr_drawn sr + 2\<rparr>) runUUID encrypted baseDigest
           in (map_err (Wrapf ''failed to save attestation state: %w'' []) r, sr')))"

definition uc_Read :: "state_env \<Rightarrow> server \<Rightarrow> string \<Rightarrow> string \<Rightarrow> string \<Rightarrow> (crafting_state \<times> string) res" where
  "uc_Read se sr workflowID runID passphrase =
     bind_res (map_err (Wrapf ''failed to check workflow run: %w'' []) (checkWorkflowRunInWorkflow se sr workflowID runID)) (\<lambda>runUUID.
     bind_res (map_err (Wrapf ''failed to read attestation state: %w'' []) (repo_Read se sr runUUID)) (\<lambda>(res, digest).
     bind_res (map_err (Wrapf ''failed to decrypt attestation state: %w'' []) (decrypt se res passphrase)) (\<lambda>decrypted.
     bind_res (map_err (Wrapf ''failed to unmarshal attestation state: %w'' []) (se_unmarshal se decrypted)) (\<lambda>state.
     Inr (state, digest)))))"

definition uc_Reset :: "state_env \<Rightarrow> server \<Rightarrow> string \<Rightarrow> string \<Rightarrow> unit res \<times> server" where
  "uc_Reset se sr workflowID runID =
     (case map_err (Wrapf ''failed to check workflow run: %w'' []) (checkWorkflowRunInWorkflow se sr workflowID runID) of
        Inl x \<Rightarrow> (Inl x, sr)
      | Inr runUUID \<Rightarrow>
          (let (r, sr') = repo_Reset sr runUUID
           in (map_err (Wrapf ''failed to reset attestation state: %w'' []) r, sr')))"

section \<open>State managers\<close>

record versioned =
  vcs_state :: crafting_state
  vcs_checksum :: string

record 'h state_manager =
  sm_Initialized :: "'h \<Rightarrow> string \<Rightarrow> bool res"
  sm_Write :: "'h \<Rightarrow> string \<Rightarrow> versioned \<Rightarrow> versioned res \<times> 'h"
  sm_Read :: "'h \<Rightarrow> string \<Rightarrow> versioned res"
  sm_Reset :: "'h \<Rightarrow> string \<Rightarrow> unit res \<times> 'h"

text \<open>
  The remote manager: the requests carry the workflow and the passphrase of the caller's token. A
  response without digest comes from an old server and leaves the checksum as it is. A request that
  changes the state may fail on the network with or without having been served; one that only reads
  changes nothing whether or not its answer arrives.
\<close>

definition rpc :: "(server \<Rightarrow> 'a res \<times> server) \<Rightarrow> server \<Rightarrow> 'a res \<times> server" where
  "rpc call sr =
     (let sr' = sr\<lparr>sr_calls := sr_calls sr + 1\<rparr> in
      case sr_net sr (sr_calls sr) of
        None \<Rightarrow> call sr'
      | Some (RequestLost x) \<Rightarrow> (Inl x, sr')
      | Some (ResponseLost x) \<Rightarrow> (Inl x, snd (call sr')))"

definition remote_Initialized :: "state_env \<Rightarrow> string \<Rightarrow> server \<Rightarrow> string \<Rightarrow> bool res" where
  "remote_Initialized se workflowID sr key =
     (if key = [] then Inl (Errorf ''key cannot be empty'' [])
      else map_err (Wrapf ''failed to check state: %w'' []) (uc_Initialized se sr workflowID key))"

definition remote_Write ::
  "state_env \<Rightarrow> string \<Rightarrow> string \<Rightarrow> server \<Rightarrow> string \<Rightarrow> versioned \<Rightarrow> versioned res \<times> server" where
  "remote_Write se workflowID passphrase sr key state =
     (if key = [] then (Inl (Errorf ''key cannot be empty'' []), sr)
      else
        let (r, sr') = rpc (\<lambda>sr. uc_Save se sr workflowID key (vcs_state state) passphrase (vcs_checksum state)) sr
        in (bind_res (map_err (Wrapf ''failed to save state: %w'' []) r) (\<lambda>d.
              Inr (if d \<noteq> [] then state\<lparr>vcs_checksum := d\<rparr> else state)), sr'))"

definition remote_Read :: "state_env \<Rightarrow> string \<Rightarrow> string \<Rightarrow> server \<Rightarrow> string \<Rightarrow> versioned res" where
  "remote_Read se workflowID passphrase sr key =
     (if key = [] then Inl (Errorf ''key cannot be empty'' [])
      else
        bind_res (map_err (Wrapf ''failed to read state: %w'' []) (uc_Read se sr workflowID key passphrase)) (\<lambda>(state, digest).
        Inr \<lparr>vcs_state = state, vcs_checksum = digest\<rparr>))"

definition remote_Reset :: "state_env \<Rightarrow> string \<Rightarrow> server \<Rightarrow> string \<Rightarrow> unit res \<times> server" where
  "remote_Reset se workflowID sr key =
     (if key = [] then (Inl (Errorf ''key cannot be empty'' []), sr)
      else
        let (r, sr') = rpc (\<lambda>sr. uc_Reset se sr workflowID key) sr
        in (map_err (Wrapf ''failed to reset state: %w'' []) r, sr'))"

definition remote_manager :: "state_env \<Rightarrow> string \<Rightarrow> string \<Rightarrow> server state_manager" where
  "remote_manager se workflowID passphrase =
     \<lparr>sm_Initialized = remote_Initialized se workflowID, sm_Write = remote_Write se workflowID passphrase,
      sm_Read = remote_Read se workflowID passphrase, sm_Reset = remote_Reset se workflowID\<rparr>"

text \<open>
  The file system manager: a single file whatever the key. A path may be faulty (permissions, a
  missing directory), which every operation on it reports. \<open>os.Create\<close> truncates the file before
  it is written, and the write may fail (a full disk) after a part of the bytes.
\<close>

record file_system =
  fs_files :: "string \<Rightarrow> string option"
  fs_fault :: "string \<Rightarrow> err option"
  fs_torn :: "nat \<Rightarrow> (nat \<times> err) option"  \<comment> \<open>the n-th write stops after so many bytes\<close>
  fs_writes :: nat

record json_codec =
  jc_marshal :: "crafting_state \<Rightarrow> string res"
  jc_unmarshal :: "string \<Rightarrow> crafting_state res"

definition ErrStateNotFound :: "string \<Rightarrow> err" where
  "ErrStateNotFound path = Errorf ''state not found in path %s'' [path]"

definition fs_Initialized :: "string \<Rightarrow> file_system \<Rightarrow> string \<Rightarrow> bool res" where
  "fs_Initialized statePath fs key =
     (case fs_fault fs statePath of
        Some x \<Rightarrow> Inl (Wrapf ''failed to check state file: %w'' [] x)
      | None \<Rightarrow> Inr (fs_files fs statePath \<noteq> None))"

definition fs_Write :: "json_codec \<Rightarrow> string \<Rightarrow> file_system \<Rightarrow> string \<Rightarrow> versioned \<Rightarrow> versioned res \<times> file_system" where
  "fs_Write jc statePath fs key state =
     (case jc_marshal jc (vcs_state state) of
        Inl x \<Rightarrow> (Inl (Wrapf ''failed to marshal state: %w'' [] x), fs)
      | Inr raw \<Rightarrow>
          (case fs_fault fs statePath of
             Some x \<Rightarrow> (Inl (Wrapf ''failed to create state file: %w'' [] x), fs)
           | None \<Rightarrow>
               (case fs_torn fs (fs_writes fs) of
                  Some (n, x) \<Rightarrow>
                    (Inl (Wrapf ''failed to write state file: %w'' [] x),
                     fs\<lparr>fs_files := (fs_files fs)(statePath \<mapsto> take n raw), fs_writes := fs_writes fs + 1\<rparr>)
                | None \<Rightarrow> (Inr state, fs\<lparr>fs_files := (fs_files fs)(statePath \<mapsto> raw), fs_writes := fs_writes fs + 1\<rparr>))))"

definition fs_Read :: "json_codec \<Rightarrow> string \<Rightarrow> file_system \<Rightarrow> string \<Rightarrow> versioned res" where
  "fs_Read jc statePath fs key =
     (case fs_fault fs statePath of
        Some x \<Rightarrow> Inl (Wrapf ''failed to open state file: %w'' [] x)
      | None \<Rightarrow> (case fs_files fs statePath of
            None \<Rightarrow> Inl (ErrStateNotFound statePath)
          | Some raw \<Rightarrow>
              bind_res (map_err (Wrapf ''failed to unmarshal state: %w'' []) (jc_unmarshal jc raw)) (\<lambda>state.
              Inr \<lparr>vcs_state = state, vcs_checksum = []\<rparr>)))"

definition fs_Reset :: "string \<Rightarrow> file_system \<Rightarrow> string \<Rightarrow> unit res \<times> file_system" where
  "fs_Reset statePath fs key =
     (case fs_fault fs statePath of
        Some x \<Rightarrow> (Inl (Wrapf ''failed to remove state file: %w'' [] x), fs)
      | None \<Rightarrow> (case fs_files fs statePath of
            None \<Rightarrow> (Inl (ErrStateNotFound statePath), fs)
          | Some _ \<Rightarrow> (Inr (), fs\<lparr>fs_files := (fs_files fs)(statePath := None)\<rparr>)))"

definition filesystem_manager :: "json_codec \<Rightarrow> string \<Rightarrow> file_system state_manager" where
  "filesystem_manager jc statePath =
     \<lparr>sm_Initialized = fs_Initialized statePath, sm_Write = fs_Write jc statePath,
      sm_Read = fs_Read jc statePath, sm_Reset = fs_Reset statePath\<rparr>"

section \<open>Decryption inverts encryption\<close>

text \<open>The block function yields full blocks, as AES does.\<close>

definition full_blocks :: "state_env \<Rightarrow> bool" where
  "full_blocks se = (\<forall>key b. length (se_block se key b) = 16)"

lemma length_xor_bytes [simp]: "length (xor_bytes xs ks) = min (length xs) (length ks)"
  by (simp add: xor_bytes_def)

lemma xor_bytes_twice: "length xs \<le> length ks \<Longrightarrow> xor_bytes (xor_bytes xs ks) ks = xs"
  by (rule nth_equalityI) (simp_all add: xor_bytes_def xor.assoc)

lemma length_cfb_encrypt: "(\<And>b. length (E b) = 16) \<Longrightarrow> length (cfb_encrypt E iv data) = length data"
proof (induction E iv data rule: cfb_encrypt.induct)
  case (1 E iv data)
  show ?case
  proof (cases "data = []")
    case False
    with 1(1) [OF False refl 1(2)] 1(2) show ?thesis
      by (subst cfb_encrypt.simps) (simp add: Let_def)
  qed (simp add: cfb_encrypt.simps)
qed

lemma cfb_roundtrip:
  "(\<And>b. length (E b) = 16) \<Longrightarrow> cfb_decrypt E iv (cfb_encrypt E iv data) = data"
proof (induction E iv data rule: cfb_encrypt.induct)
  case (1 E iv data)
  show ?case
  proof (cases "data = []")
    case True
    then show ?thesis by (simp add: cfb_encrypt.simps cfb_decrypt.simps)
  next
    case False
    let ?c = "xor_bytes (take 16 data) (E iv)"
    have enc: "cfb_encrypt E iv data = ?c @ cfb_encrypt E ?c (drop 16 data)"
      using False by (subst cfb_encrypt.simps) (simp add: Let_def)
    have len: "length ?c = min (length data) 16" using 1(2) by simp
    have rest: "length (drop 16 data) > 0 \<longrightarrow> length ?c = 16" using len by auto
    have empty: "cfb_encrypt E ?c [] = []" by (simp add: cfb_encrypt.simps)
    have "take 16 (cfb_encrypt E iv data) = ?c" "drop 16 (cfb_encrypt E iv data) = cfb_encrypt E ?c (drop 16 data)"
      unfolding enc using rest len empty by (cases "drop 16 data = []"; simp)+
    moreover have "cfb_encrypt E iv data \<noteq> []"
      using length_cfb_encrypt [of E iv data, OF 1(2)] False by auto
    ultimately have "cfb_decrypt E iv (cfb_encrypt E iv data) =
        xor_bytes ?c (E iv) @ cfb_decrypt E ?c (cfb_encrypt E ?c (drop 16 data))"
      by (subst cfb_decrypt.simps) (simp add: Let_def)
    also have "\<dots> = take 16 data @ drop 16 data"
      using 1(1) [OF False refl 1(2)] 1(2) by (simp add: xor_bytes_twice)
    finally show ?thesis by simp
  qed
qed

lemma decrypt_encrypt:
  assumes "full_blocks se" and "encrypt se data pass salt_draw iv_draw = Inr c"
    and "\<And>b. salt_draw = Inr b \<Longrightarrow> length b = saltSize" and "\<And>b. iv_draw = Inr b \<Longrightarrow> length b = aes_BlockSize"
  shows "decrypt se c pass = Inr data"
proof -
  from assms(2) obtain salt iv where s: "salt_draw = Inr salt" and i: "iv_draw = Inr iv"
    and c: "c = salt @ iv @ cfb_encrypt (se_block se (se_derive_key se pass salt)) iv (magic @ data)"
    by (auto simp: encrypt_def res_simps split: if_splits)
  have l: "length salt = saltSize" "length iv = aes_BlockSize" using assms(3,4) s i by auto
  have "cfb_decrypt (se_block se k) iv (cfb_encrypt (se_block se k) iv (magic @ data)) = magic @ data" for k
    using assms(1) by (intro cfb_roundtrip) (simp add: full_blocks_def)
  then show ?thesis
    using l by (simp add: decrypt_def c Let_def size_defs)
qed

section \<open>The contract of a state manager\<close>

text \<open>
  What the crafter relies on: a state that was written is the one read back, and a state that was
  reset is gone. A write that failed has either not happened, so that the store reads as before, or
  has happened completely, or, in a store that can be \<open>torn\<close>, leaves nothing that can be read; it
  never leaves a third state. \<open>good\<close> are the states the serialization keeps, \<open>okh\<close> the managers
  whose environment behaves.
\<close>

locale state_store =
  fixes sm :: "'h state_manager"
    and good :: "crafting_state \<Rightarrow> bool"
    and okh :: "'h \<Rightarrow> bool"
    and torn :: bool
  assumes write_ok: "okh h \<Longrightarrow> okh (snd (sm_Write sm h key v))"
    and write_keeps: "sm_Write sm h key v = (Inr v', h') \<Longrightarrow> vcs_state v' = vcs_state v"
    and read_written: "okh h \<Longrightarrow> good (vcs_state v) \<Longrightarrow> sm_Write sm h key v = (Inr v', h') \<Longrightarrow>
      \<exists>c. sm_Read sm h' key = Inr \<lparr>vcs_state = vcs_state v, vcs_checksum = c\<rparr>"
    and write_failed: "okh h \<Longrightarrow> good (vcs_state v) \<Longrightarrow> sm_Write sm h key v = (Inl x, h') \<Longrightarrow>
      sm_Read sm h' key = sm_Read sm h key \<or>
      (\<exists>c. sm_Read sm h' key = Inr \<lparr>vcs_state = vcs_state v, vcs_checksum = c\<rparr>) \<or>
      torn \<and> (\<exists>y. sm_Read sm h' key = Inl y)"
    and read_reset: "sm_Reset sm h key = (Inr u, h') \<Longrightarrow> \<exists>x. sm_Read sm h' key = Inl x"
    and reset_failed: "sm_Reset sm h key = (Inl x, h') \<Longrightarrow>
      sm_Read sm h' key = sm_Read sm h key \<or> (\<exists>y. sm_Read sm h' key = Inl y)"
    and reset_ok: "okh h \<Longrightarrow> okh (snd (sm_Reset sm h key))"

definition json_good :: "json_codec \<Rightarrow> crafting_state \<Rightarrow> bool" where
  "json_good jc s = (\<forall>raw. jc_marshal jc s = Inr raw \<longrightarrow> jc_unmarshal jc raw = Inr s)"

text \<open>A message is a JSON object, from its opening to its closing brace: cut short it does not parse.\<close>

definition json_framed :: "json_codec \<Rightarrow> bool" where
  "json_framed jc = (\<forall>s raw n. jc_marshal jc s = Inr raw \<longrightarrow> n < length raw \<longrightarrow> (\<exists>x. jc_unmarshal jc (take n raw) = Inl x))"

lemma torn_file:
  assumes "json_good jc s" and "json_framed jc" and "jc_marshal jc s = Inr raw"
  shows "jc_unmarshal jc (take n raw) = Inr s \<or> (\<exists>x. jc_unmarshal jc (take n raw) = Inl x)"
  using assms by (cases "n < length raw") (auto simp: json_good_def json_framed_def)

interpretation filesystem_store: state_store "filesystem_manager jc path" "json_good jc" "\<lambda>h. json_framed jc" True
proof
  fix h key v x h'
  assume ok: "json_framed jc" "json_good jc (vcs_state v)" and w: "sm_Write (filesystem_manager jc path) h key v = (Inl x, h')"
  show "sm_Read (filesystem_manager jc path) h' key = sm_Read (filesystem_manager jc path) h key \<or>
      (\<exists>c. sm_Read (filesystem_manager jc path) h' key = Inr \<lparr>vcs_state = vcs_state v, vcs_checksum = c\<rparr>) \<or>
      True \<and> (\<exists>y. sm_Read (filesystem_manager jc path) h' key = Inl y)"
  proof (cases "h' = h")
    case False
    with w obtain raw n where m: "jc_marshal jc (vcs_state v) = Inr raw" and f: "fs_fault h path = None"
      and h': "h' = h\<lparr>fs_files := (fs_files h)(path \<mapsto> take n raw), fs_writes := fs_writes h + 1\<rparr>"
      by (auto simp: filesystem_manager_def fs_Write_def split: sum.splits option.splits)
    from torn_file [OF ok(2,1) m, of n] f show ?thesis
      by (auto simp: filesystem_manager_def fs_Read_def h')
  qed simp
qed (auto simp: filesystem_manager_def fs_Write_def fs_Read_def fs_Reset_def json_good_def
      split: sum.splits option.splits)

text \<open>The remote store needs full AES blocks, full random draws, and a codec that round-trips.\<close>

definition proto_good :: "state_env \<Rightarrow> crafting_state \<Rightarrow> bool" where
  "proto_good se s = (full_blocks se \<and> (\<forall>raw. se_marshal se s = Inr raw \<longrightarrow> se_unmarshal se raw = Inr s))"

definition good_random :: "server \<Rightarrow> bool" where
  "good_random sr = (\<forall>n b. sr_random sr n = Inr b \<longrightarrow> length b = 16)"

lemma repo_Save_laws:
  "sr_random (snd (repo_Save se sr run st base)) = sr_random sr"
  "repo_Save se sr run st base = (Inl x, sr') \<Longrightarrow> sr' = sr"
  "repo_Save se sr run st base = (Inr d, sr') \<Longrightarrow> d = se_digest se st \<and>
     (\<exists>row. sr_runs sr run = Some row \<and> sr' = sr\<lparr>sr_runs := (sr_runs sr)(run \<mapsto> row\<lparr>rr_state := Some st\<rparr>)\<rparr>)"
  by (auto simp: repo_Save_def split: sum.splits option.splits)

lemma uc_Save_success:
  assumes "uc_Save se sr wid run state pass base = (Inr d, sr')"
  obtains uuid raw c where "checkWorkflowRunInWorkflow se sr wid run = Inr uuid" and "se_marshal se state = Inr raw"
    and "encrypt se raw pass (sr_random sr (sr_drawn sr)) (sr_random sr (sr_drawn sr + 1)) = Inr c"
    and "repo_Save se (sr\<lparr>sr_drawn := sr_drawn sr + 2\<rparr>) uuid c base = (Inr d, sr')"
  using assms
  by (auto simp: uc_Save_def res_simps case_prod_beta prod_eq_iff split: sum.splits if_splits)

lemma uc_Save_random: "sr_random (snd (uc_Save se sr wid run state pass base)) = sr_random sr"
  by (auto simp: uc_Save_def case_prod_beta repo_Save_laws split: sum.splits)

lemma uc_Save_failed: "uc_Save se sr wid run state pass base = (Inl x, sr') \<Longrightarrow> sr_runs sr' = sr_runs sr"
  by (auto simp: uc_Save_def case_prod_beta prod_eq_iff map_err_eq_Inl split: sum.splits)
    (metis repo_Save_laws(2) prod.collapse server.ext_inject server.surjective server.update_convs(3))

lemma rpc_cases:
  assumes "rpc call sr = (r, sr')"
  shows "r = fst (call (sr\<lparr>sr_calls := sr_calls sr + 1\<rparr>)) \<and> sr' = snd (call (sr\<lparr>sr_calls := sr_calls sr + 1\<rparr>)) \<or>
    (\<exists>x. r = Inl x) \<and> (sr' = sr\<lparr>sr_calls := sr_calls sr + 1\<rparr> \<or> sr' = snd (call (sr\<lparr>sr_calls := sr_calls sr + 1\<rparr>)))"
  using assms by (auto simp: rpc_def Let_def split: option.splits net_fault.splits)

lemma rpc_success: "rpc call sr = (Inr a, sr') \<Longrightarrow> call (sr\<lparr>sr_calls := sr_calls sr + 1\<rparr>) = (Inr a, sr')"
  using rpc_cases [of call sr "Inr a" sr'] by (cases "call (sr\<lparr>sr_calls := sr_calls sr + 1\<rparr>)") auto

text \<open>What only looks at the runs does not see the other counters.\<close>

lemma runs_only:
  "sr_runs sr' = sr_runs sr \<Longrightarrow> checkWorkflowRunInWorkflow se sr' = checkWorkflowRunInWorkflow se sr"
  "sr_runs sr' = sr_runs sr \<Longrightarrow> remote_Read se wid pass sr' = remote_Read se wid pass sr"
  by (simp_all add: fun_eq_iff checkWorkflowRunInWorkflow_def remote_Read_def uc_Read_def repo_Read_def)

lemma check_row_state:
  assumes "checkWorkflowRunInWorkflow se sr wid run = Inr uuid" and "sr_runs sr uuid = Some row"
    and "sr_runs sr' = (sr_runs sr)(uuid \<mapsto> row\<lparr>rr_state := b\<rparr>)"
  shows "checkWorkflowRunInWorkflow se sr' wid run = Inr uuid"
proof -
  from assms(1,2) have "se_uuid_parse se wid = Inr (rr_workflow row)" "se_uuid_parse se run = Inr uuid"
    by (auto simp: checkWorkflowRunInWorkflow_def bind_res_eq_Inr split: option.splits if_splits)
  with assms(3) show ?thesis by (simp add: checkWorkflowRunInWorkflow_def)
qed

lemma uc_Read_saved:
  assumes "uc_Save se sr wid run state pass base = (Inr d, sr')" and "proto_good se state" and "good_random sr"
  shows "uc_Read se sr' wid run pass = Inr (state, d)"
proof -
  obtain uuid raw c where chk: "checkWorkflowRunInWorkflow se sr wid run = Inr uuid" and m: "se_marshal se state = Inr raw"
    and enc: "encrypt se raw pass (sr_random sr (sr_drawn sr)) (sr_random sr (sr_drawn sr + 1)) = Inr c"
    and save: "repo_Save se (sr\<lparr>sr_drawn := sr_drawn sr + 2\<rparr>) uuid c base = (Inr d, sr')"
    using assms(1) by (rule uc_Save_success)
  from repo_Save_laws(3) [OF save] obtain row where row: "sr_runs sr uuid = Some row" and d: "d = se_digest se c"
    and sr': "sr_runs sr' = (sr_runs sr)(uuid \<mapsto> row\<lparr>rr_state := Some c\<rparr>)" by auto
  have "decrypt se c pass = Inr raw"
    using assms(2,3) by (intro decrypt_encrypt [OF _ enc]) (auto simp: proto_good_def good_random_def size_defs)
  moreover have "se_unmarshal se raw = Inr state" using assms(2) m by (simp add: proto_good_def)
  ultimately show ?thesis
    using check_row_state [OF chk row sr'] by (simp add: uc_Read_def repo_Read_def sr' d)
qed

lemma remote_Write_call:
  assumes "remote_Write se wid pass sr key v = (r, sr')" and "key \<noteq> []"
  obtains q where "rpc (\<lambda>sr. uc_Save se sr wid key (vcs_state v) pass (vcs_checksum v)) sr = (q, sr')"
    and "r = bind_res (map_err (Wrapf ''failed to save state: %w'' []) q) (\<lambda>d.
           Inr (if d \<noteq> [] then v\<lparr>vcs_checksum := d\<rparr> else v))"
  using assms by (auto simp: remote_Write_def Let_def split: prod.splits)

lemma remote_Write_saved:
  assumes "remote_Write se wid pass sr key v = (Inr v', sr')"
  obtains d where "key \<noteq> []" and "v' = (if d \<noteq> [] then v\<lparr>vcs_checksum := d\<rparr> else v)"
    and "uc_Save se (sr\<lparr>sr_calls := sr_calls sr + 1\<rparr>) wid key (vcs_state v) pass (vcs_checksum v) = (Inr d, sr')"
proof -
  have key: "key \<noteq> []" using assms by (auto simp: remote_Write_def)
  with assms obtain q where q: "rpc (\<lambda>sr. uc_Save se sr wid key (vcs_state v) pass (vcs_checksum v)) sr = (q, sr')"
    and "Inr v' = bind_res (map_err (Wrapf ''failed to save state: %w'' []) q) (\<lambda>d.
           Inr (if d \<noteq> [] then v\<lparr>vcs_checksum := d\<rparr> else v))"
    by (rule remote_Write_call)
  then obtain d where d: "q = Inr d" "v' = (if d \<noteq> [] then v\<lparr>vcs_checksum := d\<rparr> else v)"
    by (cases q) auto
  show thesis by (rule that [OF key d(2) rpc_success [OF q [unfolded d(1)]]])
qed

text \<open>A write that failed changed no run, or its response was lost after the state was saved.\<close>

lemma remote_Write_failed:
  assumes "remote_Write se wid pass sr key v = (Inl x, sr')"
  shows "sr_runs sr' = sr_runs sr \<or>
    (\<exists>d. key \<noteq> [] \<and> uc_Save se (sr\<lparr>sr_calls := sr_calls sr + 1\<rparr>) wid key (vcs_state v) pass (vcs_checksum v) = (Inr d, sr'))"
proof (cases "key = []")
  case False
  let ?save = "uc_Save se (sr\<lparr>sr_calls := sr_calls sr + 1\<rparr>) wid key (vcs_state v) pass (vcs_checksum v)"
  obtain q where q: "rpc (\<lambda>sr. uc_Save se sr wid key (vcs_state v) pass (vcs_checksum v)) sr = (q, sr')"
    using assms False by (rule remote_Write_call)
  from rpc_cases [OF q] have "sr' = sr\<lparr>sr_calls := sr_calls sr + 1\<rparr> \<or> sr' = snd ?save" by blast
  moreover have "sr_runs sr' = sr_runs sr" if "?save = (Inl y, sr')" for y
    using uc_Save_failed [OF that] by simp
  ultimately show ?thesis using False by (cases ?save; cases "fst ?save") auto
qed (use assms in \<open>simp add: remote_Write_def\<close>)

lemma remote_write_keeps: "remote_Write se wid pass sr key v = (Inr v', sr') \<Longrightarrow> vcs_state v' = vcs_state v"
  by (auto elim: remote_Write_saved)

lemma uc_Saved_read:
  assumes "uc_Save se (sr\<lparr>sr_calls := n\<rparr>) wid key (vcs_state v) pass (vcs_checksum v) = (Inr d, sr')" and "key \<noteq> []"
    and "proto_good se (vcs_state v)" and "good_random sr"
  shows "remote_Read se wid pass sr' key = Inr \<lparr>vcs_state = vcs_state v, vcs_checksum = d\<rparr>"
  using uc_Read_saved [OF assms(1,3)] assms(2,4) by (simp add: remote_Read_def good_random_def)

lemma remote_reset:
  assumes "uc_Reset se sr wid key = (Inr u, sr')"
  shows "\<exists>x. remote_Read se wid pass sr' key = Inl x"
proof -
  obtain uuid where chk: "checkWorkflowRunInWorkflow se sr wid key = Inr uuid" and rs: "repo_Reset sr uuid = (Inr (), sr')"
    using assms by (auto simp: uc_Reset_def case_prod_beta Let_def prod_eq_iff split: sum.splits)
  from rs obtain row where row: "sr_runs sr uuid = Some row" and sr': "sr_runs sr' = (sr_runs sr)(uuid \<mapsto> row\<lparr>rr_state := None\<rparr>)"
    by (auto simp: repo_Reset_def split: option.splits)
  with check_row_state [OF chk row sr'] show ?thesis by (simp add: remote_Read_def uc_Read_def repo_Read_def)
qed

lemma uc_Reset_failed: "uc_Reset se sr wid key = (Inl x, sr') \<Longrightarrow> sr' = sr"
  by (auto simp: uc_Reset_def repo_Reset_def case_prod_beta Let_def map_err_eq_Inl prod_eq_iff split: sum.splits option.splits)

lemma uc_Reset_random: "sr_random (snd (uc_Reset se sr wid key)) = sr_random sr"
  by (auto simp: uc_Reset_def repo_Reset_def case_prod_beta Let_def split: sum.splits option.splits)

interpretation remote_store: state_store "remote_manager se wid pass" "proto_good se" good_random False
proof
  fix h key v
  assume ok: "good_random h"
  obtain r h' where w: "remote_Write se wid pass h key v = (r, h')" by fastforce
  have "sr_random h' = sr_random h"
  proof (cases "key = []")
    case False
    with w obtain q where "rpc (\<lambda>sr. uc_Save se sr wid key (vcs_state v) pass (vcs_checksum v)) h = (q, h')"
      by (rule remote_Write_call)
    from rpc_cases [OF this] show ?thesis by (auto simp: uc_Save_random)
  qed (use w in \<open>simp add: remote_Write_def\<close>)
  then show "good_random (snd (sm_Write (remote_manager se wid pass) h key v))"
    using ok w by (simp add: remote_manager_def good_random_def)
next
  fix h key v v' h'
  assume "sm_Write (remote_manager se wid pass) h key v = (Inr v', h')"
  then show "vcs_state v' = vcs_state v" by (auto simp: remote_manager_def dest: remote_write_keeps)
next
  fix h key v v' h'
  assume ok: "good_random h" "proto_good se (vcs_state v)" and "sm_Write (remote_manager se wid pass) h key v = (Inr v', h')"
  then have "remote_Write se wid pass h key v = (Inr v', h')" by (simp add: remote_manager_def)
  then obtain d where "key \<noteq> []"
    "uc_Save se (h\<lparr>sr_calls := sr_calls h + 1\<rparr>) wid key (vcs_state v) pass (vcs_checksum v) = (Inr d, h')"
    by (rule remote_Write_saved)
  from uc_Saved_read [OF this(2,1) ok(2,1)]
  show "\<exists>c. sm_Read (remote_manager se wid pass) h' key = Inr \<lparr>vcs_state = vcs_state v, vcs_checksum = c\<rparr>"
    by (simp add: remote_manager_def)
next
  fix h key v x h'
  assume ok: "good_random h" "proto_good se (vcs_state v)" and w: "sm_Write (remote_manager se wid pass) h key v = (Inl x, h')"
  then have "remote_Write se wid pass h key v = (Inl x, h')" by (simp add: remote_manager_def)
  from remote_Write_failed [OF this] consider "sr_runs h' = sr_runs h"
    | d where "key \<noteq> []" "uc_Save se (h\<lparr>sr_calls := sr_calls h + 1\<rparr>) wid key (vcs_state v) pass (vcs_checksum v) = (Inr d, h')"
    by blast
  then show "sm_Read (remote_manager se wid pass) h' key = sm_Read (remote_manager se wid pass) h key \<or>
      (\<exists>c. sm_Read (remote_manager se wid pass) h' key = Inr \<lparr>vcs_state = vcs_state v, vcs_checksum = c\<rparr>) \<or>
      False \<and> (\<exists>y. sm_Read (remote_manager se wid pass) h' key = Inl y)"
  proof cases
    case 1
    from runs_only(2) [OF this] show ?thesis by (simp add: remote_manager_def)
  next
    case 2
    from uc_Saved_read [OF 2(2,1) ok(2,1)] show ?thesis by (simp add: remote_manager_def)
  qed
next
  fix h key u h'
  assume r: "sm_Reset (remote_manager se wid pass) h key = (Inr u, h')"
  then have "rpc (\<lambda>sr. uc_Reset se sr wid key) h = (Inr u, h')"
    by (auto simp: remote_manager_def remote_Reset_def split: prod.splits if_splits)
  from remote_reset [OF rpc_success [OF this]]
  show "\<exists>x. sm_Read (remote_manager se wid pass) h' key = Inl x" by (simp add: remote_manager_def)
next
  fix h key x h'
  assume w: "sm_Reset (remote_manager se wid pass) h key = (Inl x, h')"
  let ?reset = "uc_Reset se (h\<lparr>sr_calls := sr_calls h + 1\<rparr>) wid key"
  have "h' = h \<or> h' = h\<lparr>sr_calls := sr_calls h + 1\<rparr> \<or> h' = snd ?reset"
    using w rpc_cases [of "\<lambda>sr. uc_Reset se sr wid key" h]
    by (fastforce simp: remote_manager_def remote_Reset_def split: prod.splits if_splits)
  moreover have "(\<exists>y. ?reset = (Inl y, snd ?reset)) \<or> ?reset = (Inr (), snd ?reset)"
    by (cases "fst ?reset") (simp_all add: prod_eq_iff)
  ultimately show "sm_Read (remote_manager se wid pass) h' key = sm_Read (remote_manager se wid pass) h key \<or>
      (\<exists>y. sm_Read (remote_manager se wid pass) h' key = Inl y)"
    using runs_only(2) [of h' h se wid pass] remote_reset [of se _ wid key "()" h' pass] uc_Reset_failed
    by (fastforce simp: remote_manager_def)
next
  fix h key
  assume "good_random h"
  then show "good_random (snd (sm_Reset (remote_manager se wid pass) h key))"
    using rpc_cases [of "\<lambda>sr. uc_Reset se sr wid key" h]
    by (cases "rpc (\<lambda>sr. uc_Reset se sr wid key) h")
      (auto simp: remote_manager_def remote_Reset_def good_random_def uc_Reset_random)
qed

section \<open>Several clients on one attestation\<close>

text \<open>
  Any number of clients of one workflow run, each with a local copy of the state. \<open>cl_base\<close> is a
  ghost: the stored bytes the copy was derived from, by the last read or the last successful write.
\<close>

record client =
  cl_copy :: "versioned option"
  cl_base :: "bytes option"

record att_system =
  sys_server :: server
  sys_client :: "nat \<Rightarrow> client"

definition stored_state :: "state_env \<Rightarrow> server \<Rightarrow> string \<Rightarrow> bytes option" where
  "stored_state se sr run = (case se_uuid_parse se run of
       Inl _ \<Rightarrow> None | Inr uuid \<Rightarrow> Option.bind (sr_runs sr uuid) rr_state)"

inductive client_step ::
  "state_env \<Rightarrow> string \<Rightarrow> (nat \<Rightarrow> string) \<Rightarrow> string \<Rightarrow> att_system \<Rightarrow> att_system \<Rightarrow> bool"
  for se wid pass run where
  step_read: "remote_Read se wid (pass i) (sys_server y) run = Inr v \<Longrightarrow>
     client_step se wid pass run y (y\<lparr>sys_client := (sys_client y)
       (i := \<lparr>cl_copy = Some v, cl_base = stored_state se (sys_server y) run\<rparr>)\<rparr>)"
| step_edit: "cl_copy (sys_client y i) = Some v \<Longrightarrow>
     client_step se wid pass run y (y\<lparr>sys_client := (sys_client y)
       (i := (sys_client y i)\<lparr>cl_copy := Some (v\<lparr>vcs_state := s\<rparr>)\<rparr>)\<rparr>)"
| step_write: "cl_copy (sys_client y i) = Some v \<Longrightarrow>
     remote_Write se wid (pass i) (sys_server y) run v = (Inr v', sr') \<Longrightarrow>
     client_step se wid pass run y \<lparr>sys_server = sr', sys_client = (sys_client y)
       (i := \<lparr>cl_copy = Some v', cl_base = stored_state se sr' run\<rparr>)\<rparr>"
| step_write_failed: "cl_copy (sys_client y i) = Some v \<Longrightarrow>
     remote_Write se wid (pass i) (sys_server y) run v = (Inl x, sr') \<Longrightarrow>
     client_step se wid pass run y (y\<lparr>sys_server := sr'\<rparr>)"

inductive client_run ::
  "state_env \<Rightarrow> string \<Rightarrow> (nat \<Rightarrow> string) \<Rightarrow> string \<Rightarrow> att_system \<Rightarrow> att_system \<Rightarrow> bool"
  for se wid pass run where
  run_start: "(\<forall>i. cl_copy (sys_client y i) = None) \<Longrightarrow> client_run se wid pass run y y"
| run_step: "client_run se wid pass run y0 y \<Longrightarrow> client_step se wid pass run y y' \<Longrightarrow> client_run se wid pass run y0 y'"

text \<open>SHA-256 in hex: never empty, and taken to be free of collisions.\<close>

definition digest_ok :: "state_env \<Rightarrow> bool" where
  "digest_ok se = ((\<forall>b. se_digest se b \<noteq> []) \<and> inj (se_digest se))"

definition synced :: "state_env \<Rightarrow> client \<Rightarrow> bool" where
  "synced se c = (\<forall>v. cl_copy c = Some v \<longrightarrow> vcs_checksum v \<noteq> [] \<longrightarrow>
     (\<exists>b. cl_base c = Some b \<and> vcs_checksum v = se_digest se b))"

lemma checkWorkflowRun_uuid: "checkWorkflowRunInWorkflow se sr wid run = Inr uuid \<Longrightarrow> se_uuid_parse se run = Inr uuid"
  by (auto simp: checkWorkflowRunInWorkflow_def bind_res_eq_Inr split: option.splits if_splits)

lemma remote_Read_checksum:
  assumes "remote_Read se wid p sr run = Inr v"
  shows "\<exists>b. stored_state se sr run = Some b \<and> vcs_checksum v = se_digest se b"
proof -
  from assms obtain uuid b d where "checkWorkflowRunInWorkflow se sr wid run = Inr uuid"
    and "repo_Read se sr uuid = Inr (b, d)" and "vcs_checksum v = d"
    by (auto simp: remote_Read_def uc_Read_def res_simps case_prod_beta split: if_splits)
  then show ?thesis
    using checkWorkflowRun_uuid [of se sr wid run uuid]
    by (auto simp: repo_Read_def stored_state_def split: option.splits)
qed

lemma saved_base:
  assumes "uc_Save se (sr\<lparr>sr_calls := n\<rparr>) wid run st p base = (Inr d, sr')"
  obtains uuid b s1 where "se_uuid_parse se run = Inr uuid" and "sr_runs s1 = sr_runs sr" and "d = se_digest se b"
    and "repo_Save se s1 uuid b base = (Inr d, sr')" and "stored_state se sr' run = Some b"
proof -
  from assms obtain uuid raw b where "checkWorkflowRunInWorkflow se (sr\<lparr>sr_calls := n\<rparr>) wid run = Inr uuid"
    and save: "repo_Save se (sr\<lparr>sr_calls := n, sr_drawn := sr_drawn sr + 2\<rparr>) uuid b base = (Inr d, sr')"
    by (elim uc_Save_success) simp
  then have uuid: "se_uuid_parse se run = Inr uuid" using checkWorkflowRun_uuid by blast
  from repo_Save_laws(3) [OF save] have "d = se_digest se b" "stored_state se sr' run = Some b"
    by (auto simp: stored_state_def uuid)
  with that [OF uuid _ _ save] show thesis by simp
qed

lemma remote_Write_success:
  assumes "remote_Write se wid p sr run v = (Inr v', sr')"
  obtains uuid b s1 where "se_uuid_parse se run = Inr uuid"
    and "sr_runs s1 = sr_runs sr" and "repo_Save se s1 uuid b (vcs_checksum v) = (Inr (se_digest se b), sr')"
    and "stored_state se sr' run = Some b"
    and "v' = (if se_digest se b \<noteq> [] then v\<lparr>vcs_checksum := se_digest se b\<rparr> else v)"
proof -
  from assms obtain d where v': "v' = (if d \<noteq> [] then v\<lparr>vcs_checksum := d\<rparr> else v)"
    and s: "uc_Save se (sr\<lparr>sr_calls := sr_calls sr + 1\<rparr>) wid run (vcs_state v) p (vcs_checksum v) = (Inr d, sr')"
    by (rule remote_Write_saved)
  from s obtain uuid b s1 where "se_uuid_parse se run = Inr uuid" "sr_runs s1 = sr_runs sr" "d = se_digest se b"
    "repo_Save se s1 uuid b (vcs_checksum v) = (Inr d, sr')" "stored_state se sr' run = Some b" by (rule saved_base)
  with that v' show thesis by blast
qed

lemma step_synced:
  assumes "client_step se wid pass run y y'" and "digest_ok se" and "\<forall>i. synced se (sys_client y i)"
  shows "\<forall>i. synced se (sys_client y' i)"
  using assms(1)
proof cases
  case (step_read i v)
  with remote_Read_checksum [OF step_read(2)] assms(3) show ?thesis by (auto simp: synced_def)
next
  case (step_edit i v s)
  with assms(3) show ?thesis by (auto simp: synced_def)
next
  case (step_write i v v' sr')
  from step_write(3) obtain uuid b where "stored_state se sr' run = Some b"
    "v' = (if se_digest se b \<noteq> [] then v\<lparr>vcs_checksum := se_digest se b\<rparr> else v)"
    by (rule remote_Write_success)
  with step_write assms(2,3) show ?thesis by (auto simp: synced_def digest_ok_def)
next
  case (step_write_failed i v x sr')
  with assms(3) show ?thesis by (auto simp: synced_def)
qed

lemma run_synced: "client_run se wid pass run y0 y \<Longrightarrow> digest_ok se \<Longrightarrow> \<forall>i. synced se (sys_client y i)"
proof (induction rule: client_run.induct)
  case (run_start y)
  then show ?case by (simp add: synced_def)
next
  case (run_step y0 y y')
  then show ?case by (auto dest: step_synced)
qed

lemma repo_Save_base:
  "repo_Save se sr uuid st base = (Inr d, sr') \<Longrightarrow> base \<noteq> [] \<Longrightarrow>
     \<exists>b. Option.bind (sr_runs sr uuid) rr_state = Some b \<and> base = se_digest se b"
  by (auto simp: repo_Save_def split: sum.splits option.splits if_splits)

lemma save_replaces_base:
  assumes "client_run se wid pass run y0 y" and "digest_ok se"
    and "cl_copy (sys_client y i) = Some v" and "vcs_checksum v \<noteq> []"
    and "uc_Save se ((sys_server y)\<lparr>sr_calls := n\<rparr>) wid run st p (vcs_checksum v) = (Inr d, sr')"
  shows "stored_state se (sys_server y) run = cl_base (sys_client y i)"
proof -
  from assms(5) obtain uuid b s1 where uuid: "se_uuid_parse se run = Inr uuid" and s1: "sr_runs s1 = sr_runs (sys_server y)"
    and save: "repo_Save se s1 uuid b (vcs_checksum v) = (Inr d, sr')"
    by (rule saved_base)
  from repo_Save_base [OF save assms(4)] obtain c where
    c: "stored_state se (sys_server y) run = Some c" "vcs_checksum v = se_digest se c"
    by (auto simp: stored_state_def uuid s1)
  moreover from run_synced [OF assms(1,2)] assms(3,4) obtain d where
    "cl_base (sys_client y i) = Some d" "vcs_checksum v = se_digest se d" by (auto simp: synced_def)
  ultimately show ?thesis using assms(2) by (auto simp: digest_ok_def inj_def)
qed

section \<open>Properties\<close>

lemma remote_Read_written:
  assumes "remote_Write se wid pass sr key v = (Inr v', sr')" and "proto_good se (vcs_state v)" and "good_random sr"
    and "digest_ok se"
  shows "remote_Read se wid pass sr' key = Inr v' \<and> vcs_state v' = vcs_state v"
proof -
  from assms(1) obtain d where key: "key \<noteq> []" and v': "v' = (if d \<noteq> [] then v\<lparr>vcs_checksum := d\<rparr> else v)"
    and s: "uc_Save se (sr\<lparr>sr_calls := sr_calls sr + 1\<rparr>) wid key (vcs_state v) pass (vcs_checksum v) = (Inr d, sr')"
    by (rule remote_Write_saved)
  from saved_base [OF s] assms(4) have "d \<noteq> []" by (metis digest_ok_def)
  with uc_Saved_read [OF s key assms(2,3)] v' show ?thesis by simp
qed

text \<open>
  C9. No lost updates: among any number of clients of one attestation that read, edit and write in any
  order, their requests and responses perhaps lost on the way, a client whose copy is not based on what
  is now stored cannot overwrite it. Its write fails, and the stored rows stay as they are.
\<close>

theorem no_lost_updates:
  assumes "client_run se wid pass run y0 y" and "digest_ok se"
    and "cl_copy (sys_client y i) = Some v" and "vcs_checksum v \<noteq> []"
    and "stored_state se (sys_server y) run \<noteq> cl_base (sys_client y i)"
  shows "\<exists>x sr'. remote_Write se wid (pass i) (sys_server y) run v = (Inl x, sr') \<and> sr_runs sr' = sr_runs (sys_server y)"
proof -
  have stale: "uc_Save se ((sys_server y)\<lparr>sr_calls := n\<rparr>) wid run (vcs_state v) (pass i) (vcs_checksum v) \<noteq> (Inr d, sr')" for n d sr'
    using save_replaces_base [OF assms(1-4)] assms(5) by blast
  obtain r sr' where w: "remote_Write se wid (pass i) (sys_server y) run v = (r, sr')" by fastforce
  show ?thesis
  proof (cases r)
    case (Inl x)
    with w remote_Write_failed [of se wid "pass i" "sys_server y" run v x sr'] stale show ?thesis by blast
  next
    case (Inr v')
    with w stale show ?thesis by (auto elim: remote_Write_saved)
  qed
qed

text \<open>
  C31. A state saved through the control plane, encrypted there under the caller's passphrase, is read
  back as it was written, with the checksum the writer was given.
\<close>

theorem remote_state_roundtrip:
  assumes "remote_Write se wid pass sr key v = (Inr v', sr')" and "proto_good se (vcs_state v)" and "good_random sr"
    and "digest_ok se"
  shows "remote_Read se wid pass sr' key = Inr v' \<and> vcs_state v' = vcs_state v"
  using assms by (rule remote_Read_written)

text \<open>
  C32. A token of one workflow never reaches the attestation state of another: reading, saving,
  resetting and asking about a run of another workflow all fail, and the server is left alone.
\<close>

theorem attestation_state_isolated:
  assumes "se_uuid_parse se wid = Inr workflow" and "se_uuid_parse se run = Inr uuid"
    and "sr_runs sr uuid = Some row" and "rr_workflow row \<noteq> workflow"
  shows "\<exists>x. uc_Read se sr wid run pass = Inl x \<and> uc_Save se sr wid run state pass base = (Inl x, sr) \<and>
     uc_Reset se sr wid run = (Inl x, sr) \<and> uc_Initialized se sr wid run = Inl x \<and> errors_is x (NewErrNotFound ''workflow run'')"
  using assms
  by (simp add: uc_Read_def uc_Save_def uc_Reset_def uc_Initialized_def checkWorkflowRunInWorkflow_def NewErrNotFound_def)

end
