(* ===== verification/Material_Names.thy ===== *)
theory Material_Names
  imports Go_Strings Contract_Types
begin

text \<open>
  Names of the materials an archive is exploded into
  (\<open>pkg/attestation/crafter/materials/archive.go\<close>): normalizing entry paths, turning arbitrary text
  into a DNS-1123 name, and the allocator that hands out unused names.
\<close>

section \<open>Archive entries\<close>

definition NormalizeArchivePath :: "string \<Rightarrow> string" where
  "NormalizeArchivePath name = map (\<lambda>c. if c = CHR 0x5C then CHR ''/'' else c) name"

text \<open>\<open>path.Base\<close>: the last element, a dot for the empty path and a slash for slashes only.\<close>

definition path_Base :: "string \<Rightarrow> string" where
  "path_Base p =
     (if p = [] then ''.''
      else
        let t = dropWhile (\<lambda>c. c = CHR ''/'') (rev p);
            base = rev (takeWhile (\<lambda>c. c \<noteq> CHR ''/'') t)
        in if base = [] then ''/'' else base)"

definition ArchiveEntryBaseName :: "string \<Rightarrow> string" where
  "ArchiveEntryBaseName name = path_Base (NormalizeArchivePath name)"

definition explodableKinds :: "material_type list" where
  "explodableKinds = [SBOM_CYCLONEDX_JSON, SBOM_SPDX_JSON, SARIF]"

definition IsExplodableKind :: "(material_type \<Rightarrow> string) \<Rightarrow> string \<Rightarrow> bool" where
  "IsExplodableKind type_name kind = (kind \<in> type_name ` set explodableKinds)"

section \<open>Sanitizing names\<close>

definition is_lower :: "char \<Rightarrow> bool" where
  "is_lower c = (CHR ''a'' \<le> c \<and> c \<le> CHR ''z'')"

definition is_digit :: "char \<Rightarrow> bool" where
  "is_digit c = (CHR ''0'' \<le> c \<and> c \<le> CHR ''9'')"

definition name_char :: "char \<Rightarrow> bool" where
  "name_char c = (is_lower c \<or> is_digit c)"

definition ascii_upper :: "char \<Rightarrow> bool" where
  "ascii_upper c = (CHR ''A'' \<le> c \<and> c \<le> CHR ''Z'')"

definition ascii_lower :: "char \<Rightarrow> char" where
  "ascii_lower c = char_of (of_char c + 32 :: nat)"

text \<open>
  The lower case of the rune at the front of a string, if it is one of the characters a name may
  have. Besides the ASCII letters, the dotted capital I and the Kelvin sign have an ASCII lower case.
\<close>

definition lower_rune :: "string \<Rightarrow> char option" where
  "lower_rune s = (case s of [] \<Rightarrow> None | c # _ \<Rightarrow>
     if name_char c then Some c
     else if ascii_upper c then Some (ascii_lower c)
     else if prefix [CHR 0xC4, CHR 0xB0] s then Some (CHR ''i'')
     else if prefix [CHR 0xE2, CHR 0x84, CHR 0xAA] s then Some (CHR ''k'')
     else None)"

function lower_runes :: "string \<Rightarrow> char option list" where
  "lower_runes s = (if s = [] then [] else lower_rune s # lower_runes (drop (max 1 (rune_len s)) s))"
  by pat_completeness auto
termination by (relation "measure length") auto

declare lower_runes.simps [simp del]

text \<open>The loop over the runes: the name built so far and whether a hyphen is pending.\<close>

fun sanitize :: "char option list \<Rightarrow> bool \<Rightarrow> string \<Rightarrow> string" where
  "sanitize [] pendingHyphen b = b"
| "sanitize (Some r # rs) pendingHyphen b =
     sanitize rs False ((if pendingHyphen \<and> b \<noteq> [] then b @ ''-'' else b) @ [r])"
| "sanitize (None # rs) pendingHyphen b = sanitize rs True b"

definition SanitizeMaterialName :: "string \<Rightarrow> string" where
  "SanitizeMaterialName s = sanitize (lower_runes s) False []"

section \<open>The allocator\<close>

definition digit_char :: "nat \<Rightarrow> char" where
  "digit_char d = char_of (48 + d)"

fun decimal :: "nat \<Rightarrow> string" where
  "decimal n = (if n < 10 then [digit_char n] else decimal (n div 10) @ [digit_char (n mod 10)])"

declare decimal.simps [simp del]

record name_allocator =
  na_used :: "string list"
  na_named :: "nat gomap"

definition NewNameAllocator :: "string list \<Rightarrow> name_allocator" where
  "NewNameAllocator existing = \<lparr>na_used = existing, na_named = []\<rparr>"

definition candidate :: "string \<Rightarrow> nat \<Rightarrow> string" where
  "candidate b n = (if n > 0 then b @ ''-'' @ decimal n else b)"

definition next_suffix :: "nat gomap \<Rightarrow> string \<Rightarrow> nat" where
  "next_suffix named b = (case map_of named b of None \<Rightarrow> 0 | Some n \<Rightarrow> n)"

partial_function (option) allocate :: "string \<Rightarrow> name_allocator \<Rightarrow> (string \<times> name_allocator) option" where
  "allocate b a =
     (let n = next_suffix (na_named a) b;
          a = a\<lparr>na_named := AList.update b (n + 1) (na_named a)\<rparr>
      in if candidate b n \<notin> set (na_used a) then Some (candidate b n, a\<lparr>na_used := candidate b n # na_used a\<rparr>)
         else allocate b a)"

declare allocate.simps [code]

definition defaultMaterialName :: string where
  "defaultMaterialName = ''material''"

definition name_base :: "string \<Rightarrow> string" where
  "name_base base = (let s = SanitizeMaterialName base in if s \<noteq> [] then s else defaultMaterialName)"

definition AllocateNamed :: "string \<Rightarrow> name_allocator \<Rightarrow> (string \<times> name_allocator) option" where
  "AllocateNamed base a = allocate (name_base base) a"

section \<open>Names are DNS-1123 labels\<close>

text \<open>The pattern \<open>^[a-z0-9]([-a-z0-9]*[a-z0-9])?$\<close> of the contract.\<close>

definition dns_name :: "string \<Rightarrow> bool" where
  "dns_name s = (s \<noteq> [] \<and> (\<forall>c\<in>set s. name_char c \<or> c = CHR ''-'') \<and> name_char (hd s) \<and> name_char (last s))"

lemma char_le_nat: "(c :: char) \<le> d \<longleftrightarrow> (of_char c :: nat) \<le> of_char d"
  by (simp add: less_eq_char_def)

lemma ascii_lower_name: "ascii_upper c \<Longrightarrow> name_char (ascii_lower c)"
proof -
  assume "ascii_upper c"
  then have r: "65 \<le> (of_char c :: nat)" "(of_char c :: nat) \<le> 90"
    by (simp_all add: ascii_upper_def char_le_nat)
  have "(of_char (ascii_lower c) :: nat) = of_char c + 32"
    unfolding ascii_lower_def of_char_of using r by simp
  with r show ?thesis by (simp add: name_char_def is_lower_def char_le_nat)
qed

lemma lower_rune_name: "lower_rune s = Some c \<Longrightarrow> name_char c"
proof -
  have "name_char (CHR ''i'')" "name_char (CHR ''k'')" by (simp_all add: name_char_def is_lower_def)
  moreover assume "lower_rune s = Some c"
  ultimately show ?thesis
    by (auto simp: lower_rune_def ascii_lower_name split: list.splits if_splits)
qed

lemma lower_runes_name: "Some c \<in> set (lower_runes s) \<Longrightarrow> name_char c"
proof (induction s rule: lower_runes.induct)
  case (1 s)
  then show ?case
    by (subst (asm) (2) lower_runes.simps) (auto split: if_splits dest: lower_rune_name [OF sym])
qed

lemma dns_name_snoc: "dns_name b \<Longrightarrow> name_char r \<Longrightarrow> dns_name (b @ [r]) \<and> dns_name (b @ ''-'' @ [r])"
  by (auto simp: dns_name_def)

lemma sanitize_dns:
  "(\<forall>c. Some c \<in> set rs \<longrightarrow> name_char c) \<Longrightarrow> b = [] \<or> dns_name b \<Longrightarrow>
     sanitize rs p b = [] \<or> dns_name (sanitize rs p b)"
proof (induction rs p b rule: sanitize.induct)
  case (2 r rs p b)
  then have "name_char r" by simp
  then have "dns_name ((if p \<and> b \<noteq> [] then b @ ''-'' else b) @ [r])"
    using 2(3) dns_name_snoc [of b r] by (auto simp: dns_name_def)
  with 2 show ?case by simp
qed auto

lemma Sanitize_dns: "SanitizeMaterialName s = [] \<or> dns_name (SanitizeMaterialName s)"
  unfolding SanitizeMaterialName_def by (rule sanitize_dns) (auto dest: lower_runes_name)

lemma name_base_dns: "dns_name (name_base base)"
  using Sanitize_dns [of base]
  by (auto simp: name_base_def Let_def defaultMaterialName_def dns_name_def name_char_def is_lower_def)

section \<open>The allocator always finds an unused name\<close>

lemma digit_char_inj: "a < 10 \<Longrightarrow> b < 10 \<Longrightarrow> digit_char a = digit_char b \<longleftrightarrow> a = b"
proof -
  assume "a < 10" "b < 10"
  then have "(of_char (digit_char a) :: nat) = 48 + a" "(of_char (digit_char b) :: nat) = 48 + b"
    by (simp_all add: digit_char_def)
  then show ?thesis by (metis add_left_cancel)
qed

lemma digit_char_name: "d < 10 \<Longrightarrow> name_char (digit_char d)"
proof -
  assume "d < 10"
  moreover from this have "(of_char (digit_char d) :: nat) = 48 + d" by (simp add: digit_char_def)
  ultimately show ?thesis by (simp add: name_char_def is_digit_def char_le_nat)
qed

lemma decimal_Nil [simp]: "decimal n \<noteq> []"
  by (subst decimal.simps) simp

lemma decimal_parts:
  "last (decimal n) = digit_char (n mod 10)" "butlast (decimal n) = (if n < 10 then [] else decimal (n div 10))"
  by (subst decimal.simps, simp)+

lemma decimal_inj: "decimal n = decimal m \<longleftrightarrow> n = m"
proof
  show "decimal n = decimal m \<Longrightarrow> n = m"
  proof (induction n arbitrary: m rule: less_induct)
    case (less n)
    have mods: "n mod 10 = m mod 10"
      using arg_cong [OF less.prems, of last] by (simp add: decimal_parts digit_char_inj)
    have "n div 10 = m div 10"
    proof (cases "n < 10 \<or> m < 10")
      case True
      with arg_cong [OF less.prems, of butlast] have "n < 10 \<and> m < 10"
        by (auto simp: decimal_parts split: if_splits) (metis decimal_Nil)+
      then show ?thesis by simp
    next
      case False
      with arg_cong [OF less.prems, of butlast] have "decimal (n div 10) = decimal (m div 10)"
        by (simp add: decimal_parts)
      with less.IH [of "n div 10" "m div 10"] False show ?thesis by simp
    qed
    with mods show ?case by (metis div_mod_decomp)
  qed
qed simp

lemma decimal_name: "c \<in> set (decimal n) \<Longrightarrow> name_char c"
  by (induction n rule: decimal.induct)
    (subst (asm) (2) decimal.simps, auto split: if_splits intro: digit_char_name)

lemma candidate_inj: "candidate b n = candidate b m \<longleftrightarrow> n = m"
  by (auto simp: candidate_def decimal_inj)

lemma candidate_dns: "dns_name b \<Longrightarrow> dns_name (candidate b n)"
  by (auto simp: candidate_def dns_name_def decimal_name decimal_name [OF last_in_set [OF decimal_Nil]])

lemma allocate_found:
  assumes "candidate b k \<notin> set (na_used a)" and "next_suffix (na_named a) b \<le> k"
  shows "\<exists>c a'. allocate b a = Some (c, a') \<and> c \<notin> set (na_used a) \<and> na_used a' = c # na_used a \<and>
           (\<exists>j. c = candidate b j)"
  using assms
proof (induction "k - next_suffix (na_named a) b" arbitrary: a)
  case 0
  then have "next_suffix (na_named a) b = k" by simp
  with 0 show ?case by (subst allocate.simps) auto
next
  case (Suc x)
  let ?n = "next_suffix (na_named a) b"
  let ?a = "a\<lparr>na_named := AList.update b (?n + 1) (na_named a)\<rparr>"
  show ?case
  proof (cases "candidate b ?n \<in> set (na_used a)")
    case True
    have "next_suffix (na_named ?a) b = ?n + 1" by (simp add: next_suffix_def update_conv')
    with Suc.hyps(1) [of ?a] Suc.hyps(2) Suc.prems True show ?thesis
      by (subst allocate.simps) (simp add: Let_def)
  next
    case False
    then show ?thesis by (subst allocate.simps) (auto simp: Let_def)
  qed
qed

lemma unused_candidate: "\<exists>k\<ge>n. candidate b k \<notin> set used"
proof (rule ccontr)
  assume "\<not> (\<exists>k\<ge>n. candidate b k \<notin> set used)"
  then have "candidate b ` {n..} \<subseteq> set used" by auto
  moreover have "inj_on (candidate b) {n..}" by (simp add: inj_on_def candidate_inj)
  ultimately have "finite {n..}" using finite_subset finite_imageD by blast
  then show False by (simp add: infinite_Ici)
qed

lemma allocate_total:
  "\<exists>c a'. allocate b a = Some (c, a') \<and> c \<notin> set (na_used a) \<and> na_used a' = c # na_used a \<and> (\<exists>j. c = candidate b j)"
  using unused_candidate [of "next_suffix (na_named a) b" b "na_used a"] allocate_found by blast

text \<open>A sequence of allocations, as the archive path makes them.\<close>

fun allocate_all :: "string list \<Rightarrow> name_allocator \<Rightarrow> (string list \<times> name_allocator) option" where
  "allocate_all [] a = Some ([], a)"
| "allocate_all (b # bs) a = (case AllocateNamed b a of
       None \<Rightarrow> None
     | Some (c, a') \<Rightarrow> map_option (\<lambda>(cs, a''). (c # cs, a'')) (allocate_all bs a'))"

lemma allocate_all_total:
  "\<exists>cs a'. allocate_all bs a = Some (cs, a') \<and> length cs = length bs \<and> distinct cs \<and>
     set cs \<inter> set (na_used a) = {} \<and> (\<forall>c\<in>set cs. dns_name c) \<and> set (na_used a') = set (na_used a) \<union> set cs"
proof (induction bs arbitrary: a)
  case (Cons b bs)
  obtain c a1 j where c: "AllocateNamed b a = Some (c, a1)" "c \<notin> set (na_used a)" "na_used a1 = c # na_used a"
    "c = candidate (name_base b) j"
    using allocate_total [of "name_base b" a] by (auto simp: AllocateNamed_def)
  moreover obtain cs a2 where "allocate_all bs a1 = Some (cs, a2)" "length cs = length bs" "distinct cs"
    "set cs \<inter> set (na_used a1) = {}" "\<forall>c\<in>set cs. dns_name c" "set (na_used a2) = set (na_used a1) \<union> set cs"
    using Cons.IH [of a1] by blast
  ultimately show ?case
    using candidate_dns [OF name_base_dns, of b j] by (intro exI [of _ "c # cs"] exI [of _ a2]) auto
qed simp

section \<open>Properties\<close>

text \<open>
  C40. The allocator never runs out: any sequence of requests, for any names and whatever names are in
  use, is answered, with names that are new, all different, and valid DNS-1123 names.
\<close>

theorem allocator_total:
  "\<exists>names a'. allocate_all bases a = Some (names, a') \<and> length names = length bases \<and> distinct names \<and>
     set names \<inter> set (na_used a) = {} \<and> list_all dns_name names"
  using allocate_all_total [of bases a] by (auto simp: list_all_iff)

end
