(* ===== verification/Crafter.thy ===== *)
theory Crafter
  imports Attestation_State Material_Names
begin

text \<open>
  The crafter (\<open>pkg/attestation/crafter/crafter.go\<close>): loading the crafting state, adding one
  material or all entries of an archive, evaluating the attestation policies, and completing the
  attestation. The state is the loaded copy and the handle of the state manager.

  The record \<open>crafter_env\<close> holds the policy services, the constructors of the crafters of the single
  material kinds (\<open>materials/*.go\<close>), validation of messages, and the archive reader. The schedules of the policy
  evaluations are arguments of it too.
\<close>

section \<open>State\<close>

record craft_result =
  crf_material :: material
  crf_content :: string \<comment> \<open>the bytes the policies must see, empty for nil\<close>

record crafter_env =
  ck_services :: services
  ck_num_cpu :: int
  ck_logger :: "nat option"
  ck_sched_groups :: "nat \<Rightarrow> nat \<Rightarrow> nat list"
  ck_sched_policies :: "nat \<Rightarrow> nat list"
  ck_kind_crafter :: "schema_material \<Rightarrow> (string \<Rightarrow> craft_result res) res"
  ck_validate_schema_material :: "schema_material \<Rightarrow> unit res"
  ck_validate_material :: "material \<Rightarrow> unit res"
  ck_validate_state :: "crafting_state \<Rightarrow> unit res"
  ck_kind_of_name :: "string \<Rightarrow> material_type option"
  ck_kind_name :: "material_type \<Rightarrow> string"
  ck_is_conflict :: "err \<Rightarrow> bool"          \<comment> \<open>\<open>IsAttestationStateErrorConflict\<close>, generated\<close>
  ck_is_validation_error :: "err \<Rightarrow> bool"  \<comment> \<open>the error type of \<open>protovalidate\<close>\<close>
  ck_now :: "string \<Rightarrow> string" \<comment> \<open>the clock when a material of the kind is added, nanoseconds in decimal\<close>
  ck_walk_archive :: "string \<Rightarrow> string list res" \<comment> \<open>the entry names, in archive order\<close>
  ck_tmp_path :: "nat \<Rightarrow> string \<Rightarrow> string"    \<comment> \<open>the temporary file of the n-th entry\<close>

record 'h crafter =
  cr_state :: "versioned option"
  cr_store :: 'h

definition ErrAttestationStateNotLoaded :: err where
  "ErrAttestationStateNotLoaded = Errorf ''crafting state not loaded'' []"

definition set_attestation :: "(attestation \<Rightarrow> attestation) \<Rightarrow> versioned \<Rightarrow> versioned" where
  "set_attestation f v = v\<lparr>vcs_state := (vcs_state v)\<lparr>cs_attestation := f (cs_attestation (vcs_state v))\<rparr>\<rparr>"

abbreviation v_attestation :: "versioned \<Rightarrow> attestation" where
  "v_attestation v \<equiv> cs_attestation (vcs_state v)"

text \<open>
  The message a failed load leaves behind. Getters of a nil message return zero values, so a nil
  attestation reads like this record.
\<close>

definition empty_attestation :: attestation where
  "empty_attestation =
     \<lparr>att_workflow = \<lparr>wf_name = [], wf_project = [], wf_version = [], wf_project_version = []\<rparr>,
      att_materials = [], att_annotations = [], att_env_vars = [], att_evaluations = [],
      att_block_on_violation = False, att_bypass_policy_check = False, att_allowed_hostnames = [],
      att_skip_runner_env = False\<rparr>"

definition empty_versioned :: versioned where
  "empty_versioned =
     \<lparr>vcs_state = \<lparr>cs_attestation = empty_attestation, cs_schema = NoSchema, cs_dry_run = False\<rparr>, vcs_checksum = []\<rparr>"

definition LoadCraftingState :: "'h state_manager \<Rightarrow> string \<Rightarrow> 'h crafter \<Rightarrow> unit res \<times> 'h crafter" where
  "LoadCraftingState sm attestationID c =
     (case sm_Read sm (cr_store c) attestationID of
        Inl x \<Rightarrow> (Inl (Wrapf ''failed to load crafting state: %w'' [] x), c\<lparr>cr_state := Some empty_versioned\<rparr>)
      | Inr v \<Rightarrow> (Inr (), c\<lparr>cr_state := Some v\<rparr>))"

definition write_state :: "'h state_manager \<Rightarrow> string \<Rightarrow> versioned \<Rightarrow> 'h crafter \<Rightarrow> unit res \<times> 'h crafter" where
  "write_state sm attestationID v c =
     (case sm_Write sm (cr_store c) attestationID v of
        (Inl x, h') \<Rightarrow> (Inl (Wrapf ''failed to persist crafting state: %w'' [] x), c\<lparr>cr_state := Some v, cr_store := h'\<rparr>)
      | (Inr v', h') \<Rightarrow> (Inr (), c\<lparr>cr_state := Some v', cr_store := h'\<rparr>))"

section \<open>Starting an attestation\<close>

text \<open>The CI runner: whether its environment is there, and the variables it finds, or its errors.\<close>

record runner =
  rn_CheckEnv :: bool
  rn_ResolveEnvVars :: "string list + string gomap"

record init_opts =
  io_workflow :: "workflow_metadata option"
  io_schema_v1 :: "crafting_schema option"
  io_schema_v2 :: "crafting_schema_v2 option"
  io_dry_run :: bool
  io_runner :: "runner option"
  io_block_on_violation :: bool
  io_allowed_hostnames :: "string list"
  io_skip_runner_env :: bool
  io_pr_mode :: bool

definition AnnotationIsPullRequest :: string where
  "AnnotationIsPullRequest = ''chainloop.dev/is-pull-request''"

text \<open>
  The first state of an attestation. The head commit is read from the repository in the working
  directory, \<open>head\<close>, which may fail; it is not a part of the state modelled here, nor are the signing
  options, the authentication and the runner's description.
\<close>

definition initialCraftingState :: "unit res \<Rightarrow> init_opts \<Rightarrow> crafting_state res" where
  "initialCraftingState head opts =
     (case (io_workflow opts, io_runner opts) of
        (Some wfInfo, Some _) \<Rightarrow>
          (if io_schema_v1 opts = None \<and> io_schema_v2 opts = None then Inl (Errorf ''required init options not provided'' [])
           else
             bind_res (map_err (Wrapf ''getting git commit hash: %w'' []) head) (\<lambda>_.
             Inr \<lparr>cs_attestation = empty_attestation\<lparr>att_workflow := wfInfo,
                    att_block_on_violation := io_block_on_violation opts,
                    att_allowed_hostnames := io_allowed_hostnames opts,
                    att_skip_runner_env := io_skip_runner_env opts,
                    att_annotations := (if io_pr_mode opts then [(AnnotationIsPullRequest, ''true'')] else [])\<rparr>,
                  cs_schema = (case io_schema_v2 opts of
                      Some c \<Rightarrow> SchemaV2 c
                    | None \<Rightarrow> (case io_schema_v1 opts of Some s \<Rightarrow> InputSchema s | None \<Rightarrow> NoSchema)),
                  cs_dry_run = io_dry_run opts\<rparr>))
      | _ \<Rightarrow> Inl (Errorf ''required init options not provided'' []))"

definition initCraftingStateFile ::
  "'h state_manager \<Rightarrow> unit res \<Rightarrow> init_opts \<Rightarrow> string \<Rightarrow> 'h crafter \<Rightarrow> unit res \<times> 'h crafter" where
  "initCraftingStateFile sm head opts attestationID c =
     (case initialCraftingState head opts of
        Inl x \<Rightarrow> (Inl (Wrapf ''initializing crafting state: %w'' [] x), c)
      | Inr state \<Rightarrow>
          (case sm_Write sm (cr_store c) attestationID \<lparr>vcs_state = state, vcs_checksum = []\<rparr> of
             (Inl x, h') \<Rightarrow> (Inl (Wrapf ''failed to persist crafting state: %w'' [] x), c\<lparr>cr_store := h'\<rparr>)
           | (Inr _, h') \<Rightarrow> LoadCraftingState sm attestationID (c\<lparr>cr_store := h'\<rparr>)))"

definition crafter_Init ::
  "'h state_manager \<Rightarrow> unit res \<Rightarrow> init_opts \<Rightarrow> string \<Rightarrow> 'h crafter \<Rightarrow> unit res \<times> 'h crafter" where
  "crafter_Init sm head opts attestationID c =
     (if io_schema_v1 opts = None \<and> io_schema_v2 opts = None then (Inl (Errorf ''schema is nil'' []), c)
      else if io_workflow opts = None then (Inl (Errorf ''workflow metadata is nil'' []), c)
      else initCraftingStateFile sm head opts attestationID c)"

definition ErrRunnerContextNotFound :: err where
  "ErrRunnerContextNotFound = Errorf ''the runner environment doesn't match the required runner type'' []"

text \<open>The variables of the contract's allow list, all of which must be set.\<close>

fun allowed_env :: "(string \<Rightarrow> string) \<Rightarrow> string list \<Rightarrow> string gomap \<Rightarrow> string gomap res" where
  "allowed_env getenv [] env = Inr env"
| "allowed_env getenv (want # wants) env =
     (if getenv want \<noteq> [] then allowed_env getenv wants (AList.update want (getenv want) env)
      else Inl (Errorf ''required env variables not present %q'' [want]))"

definition ResolveEnvVars ::
  "'h state_manager \<Rightarrow> runner \<Rightarrow> (string \<Rightarrow> string) \<Rightarrow> string \<Rightarrow> 'h crafter \<Rightarrow> unit res \<times> 'h crafter" where
  "ResolveEnvVars sm rn getenv attestationID c =
     (case cr_state c of
        None \<Rightarrow> (Inl ErrAttestationStateNotLoaded, c)
      | Some v \<Rightarrow>
          if \<not> rn_CheckEnv rn then
            (Inl (Wrapf ''couldn't detect the environment %q. Is the crafting process happening in the target env? - %w'' []
               ErrRunnerContextNotFound), c)
          else
            (case (if att_skip_runner_env (v_attestation v) then Inr [] else rn_ResolveEnvVars rn) of
               Inl errs \<Rightarrow> (Inl (Errorf ''error while resolving runner environment variables: %s'' [concat (map (\<lambda>e. e @ [CHR 10]) errs)]), c)
             | Inr found \<Rightarrow>
                 (case allowed_env getenv (GetEnvAllowList (vcs_state v)) found of
                    Inl x \<Rightarrow> (Inl x, c)
                  | Inr env \<Rightarrow>
                      write_state sm attestationID (set_attestation (\<lambda>att. att\<lparr>att_env_vars := env\<rparr>) v) c)))"

section \<open>Crafting one material\<close>

text \<open>\<open>materials.Craft\<close>: the crafter of the kind, then what the contract says about the material.\<close>

definition Craft :: "crafter_env \<Rightarrow> schema_material \<Rightarrow> string \<Rightarrow> craft_result res" where
  "Craft ck m value =
     bind_res (map_err (Wrapf ''validating material: %w'' []) (ck_validate_schema_material ck m)) (\<lambda>_.
     if sm_type m = MATERIAL_TYPE_UNSPECIFIED then Inl (Errorf ''material of type %q not supported yet'' [])
     else
       bind_res (ck_kind_crafter ck m) (\<lambda>craft.
       bind_res (map_err (Wrapf ''crafting material: %w'' []) (craft value)) (\<lambda>res.
       let mt = crf_material res;
           anns = fold (\<lambda>a acc. AList.update (ann_name a) (ann_value a) acc) (sm_annotations m) (mat_annotations mt)
       in Inr (res\<lparr>crf_material := mt\<lparr>mat_annotations := anns, mat_id := sm_name m, mat_output := sm_output m,
                                   mat_required := \<not> sm_optional m\<rparr>\<rparr>))))"

text \<open>Annotations given at run time never replace a value that is set.\<close>

definition add_runtime_annotations :: "string gomap \<Rightarrow> string gomap \<Rightarrow> string gomap" where
  "add_runtime_annotations runtime anns =
     fold (\<lambda>(kr, vr) acc. if gm_get acc kr \<noteq> [] then acc else AList.update kr vr acc) runtime anns"

definition missing_annotation :: "string gomap \<Rightarrow> string option" where
  "missing_annotation anns = map_option fst (find (\<lambda>(k, v). v = []) anns)"

definition projectContext :: "versioned \<Rightarrow> string \<times> string" where
  "projectContext v =
     (let w = att_workflow (v_attestation v)
      in (wf_project w, if wf_version w = [] then wf_project_version w else wf_version w))"

definition verifier_opts :: "versioned \<Rightarrow> verifier_option list" where
  "verifier_opts v =
     [pv_WithAllowedHostnames (att_allowed_hostnames (v_attestation v)),
      pv_WithDefaultGate (att_block_on_violation (v_attestation v)),
      pv_WithProjectContext (fst (projectContext v)) (snd (projectContext v))]"

definition crafter_verifier :: "crafter_env \<Rightarrow> versioned \<Rightarrow> verifier_option list \<Rightarrow> verifier \<times> vstate" where
  "crafter_verifier ck v more_opts =
     NewPolicyVerifier (ck_num_cpu ck) (get_policies (GetPolicies (vcs_state v))) (ck_logger ck)
       (verifier_opts v @ more_opts)"

definition verify_groups_on ::
  "crafter_env \<Rightarrow> versioned \<Rightarrow> material \<Rightarrow> string \<Rightarrow> string \<Rightarrow> policy_evaluation list res" where
  "verify_groups_on ck v mt value content =
     (let (pv, st) = crafter_verifier ck v [] in
      map_err (Wrapf ''error applying policy groups to material: %w'' [])
        (fst (group_VerifyMaterial (ck_sched_groups ck) (ck_services ck) pv (GetPolicyGroups (vcs_state v)) mt value content st)))"

definition verify_policies_on ::
  "crafter_env \<Rightarrow> versioned \<Rightarrow> runtime_inputs option \<Rightarrow> material \<Rightarrow> string \<Rightarrow> string \<Rightarrow> policy_evaluation list res" where
  "verify_policies_on ck v inputs mt value content =
     (let (pv, st) = crafter_verifier ck v [pv_WithRuntimeInputs inputs] in
      map_err (Wrapf ''error applying policies to material: %w'' [])
        (fst (VerifyMaterial (ck_sched_policies ck) (ck_services ck) pv mt value content st)))"

record add_opts =
  ao_runtime_inputs :: "runtime_inputs option"
  ao_record_source_archive :: bool

definition craft_annotated :: "crafter_env \<Rightarrow> schema_material \<Rightarrow> string \<Rightarrow> string gomap \<Rightarrow> craft_result res" where
  "craft_annotated ck m value runtimeAnnotations =
     bind_res (Craft ck m value) (\<lambda>crafted.
     let mt = crf_material crafted;
         mt = mt\<lparr>mat_annotations := add_runtime_annotations runtimeAnnotations (mat_annotations mt)\<rparr>
     in case missing_annotation (mat_annotations mt) of
          Some k \<Rightarrow> Inl (Errorf ''annotations %q required for material %q'' [k, sm_name m])
        | None \<Rightarrow>
            bind_res (map_err (Wrapf ''validation error: %w'' []) (ck_validate_material ck mt)) (\<lambda>_.
            Inr (crafted\<lparr>crf_material := mt\<rparr>)))"

definition drop_evaluations :: "string \<Rightarrow> attestation \<Rightarrow> attestation" where
  "drop_evaluations name att = att\<lparr>att_evaluations := filter (\<lambda>e. pe_material_name e \<noteq> name) (att_evaluations att)\<rparr>"

definition append_evaluations :: "policy_evaluation list \<Rightarrow> attestation \<Rightarrow> attestation" where
  "append_evaluations evs att = att\<lparr>att_evaluations := att_evaluations att @ evs\<rparr>"

definition put_material :: "string \<Rightarrow> material \<Rightarrow> attestation \<Rightarrow> attestation" where
  "put_material name mt att = att\<lparr>att_materials := AList.update name mt (att_materials att)\<rparr>"

text \<open>
  \<open>stageMaterial\<close> changes the copy in memory only. When a verifier fails, the evaluations it has
  already dropped or stored stay that way, as in the code.
\<close>

definition stageMaterial ::
  "crafter_env \<Rightarrow> add_opts \<Rightarrow> schema_material \<Rightarrow> string \<Rightarrow> string gomap \<Rightarrow> versioned \<Rightarrow> material res \<times> versioned" where
  "stageMaterial ck opts m value runtimeAnnotations v =
     (case craft_annotated ck m value runtimeAnnotations of
        Inl x \<Rightarrow> (Inl x, v)
      | Inr crafted \<Rightarrow>
          let mt = crf_material crafted; v1 = set_attestation (drop_evaluations (sm_name m)) v in
          case verify_groups_on ck v1 mt value (crf_content crafted) of
            Inl x \<Rightarrow> (Inl x, v1)
          | Inr groupResults \<Rightarrow>
              let v2 = set_attestation (append_evaluations groupResults) v1 in
              case verify_policies_on ck v2 (ao_runtime_inputs opts) mt value (crf_content crafted) of
                Inl x \<Rightarrow> (Inl x, v2)
              | Inr results \<Rightarrow>
                  (Inr mt, set_attestation (put_material (sm_name m) mt) (set_attestation (append_evaluations results) v2)))"

definition addMaterial ::
  "crafter_env \<Rightarrow> 'h state_manager \<Rightarrow> add_opts \<Rightarrow> schema_material \<Rightarrow> string \<Rightarrow> string \<Rightarrow> string gomap \<Rightarrow>
     versioned \<Rightarrow> 'h crafter \<Rightarrow> material res \<times> 'h crafter" where
  "addMaterial ck sm opts m attestationID value runtimeAnnotations v c =
     (case stageMaterial ck opts m value runtimeAnnotations v of
        (Inl x, v') \<Rightarrow> (Inl x, c\<lparr>cr_state := Some v'\<rparr>)
      | (Inr mt, v') \<Rightarrow> (let (r, c') = write_state sm attestationID v' c in (bind_res r (\<lambda>_. Inr mt), c')))"

definition contract_free_material :: "crafter_env \<Rightarrow> string \<Rightarrow> string \<Rightarrow> schema_material res" where
  "contract_free_material ck kind name =
     (case ck_kind_of_name ck kind of
        None \<Rightarrow> Inl (Errorf ''%q kind not found. Available options are %q'' [kind])
      | Some t \<Rightarrow> Inr \<lparr>sm_type = t, sm_name = (if name = [] then ''material-'' @ ck_now ck kind else name), sm_optional = True,
                        sm_output = False, sm_annotations = [], sm_skip_upload = False, sm_group = []\<rparr>)"

definition AddMaterialContractFree ::
  "crafter_env \<Rightarrow> 'h state_manager \<Rightarrow> add_opts \<Rightarrow> string \<Rightarrow> string \<Rightarrow> string \<Rightarrow> string \<Rightarrow> string gomap \<Rightarrow>
     'h crafter \<Rightarrow> material res \<times> 'h crafter" where
  "AddMaterialContractFree ck sm opts attestationID kind name value runtimeAnnotations c =
     (case cr_state c of
        None \<Rightarrow> (Inl (Wrapf ''adding materials outisde the contract: %w'' [] ErrAttestationStateNotLoaded), c)
      | Some v \<Rightarrow> (case contract_free_material ck kind name of
            Inl x \<Rightarrow> (Inl x, c)
          | Inr m \<Rightarrow> addMaterial ck sm opts m attestationID value runtimeAnnotations v c))"

text \<open>The loop over the contract keeps the last material with the key.\<close>

definition contract_material :: "versioned \<Rightarrow> string \<Rightarrow> schema_material option" where
  "contract_material v key = find (\<lambda>d. sm_name d = key) (rev (cs_GetMaterials (vcs_state v)))"

definition AddMaterialFromContract ::
  "crafter_env \<Rightarrow> 'h state_manager \<Rightarrow> add_opts \<Rightarrow> string \<Rightarrow> string \<Rightarrow> string \<Rightarrow> string gomap \<Rightarrow>
     'h crafter \<Rightarrow> material res \<times> 'h crafter" where
  "AddMaterialFromContract ck sm opts attestationID key value runtimeAnnotations c =
     (case cr_state c of
        None \<Rightarrow> (Inl (Wrapf ''adding materials outisde from contract: %w'' [] ErrAttestationStateNotLoaded), c)
      | Some v \<Rightarrow> (case contract_material v key of
            None \<Rightarrow> (Inl (Errorf ''material with id %q not found in the schema'' [key]), c)
          | Some m \<Rightarrow> addMaterial ck sm opts m attestationID value runtimeAnnotations v c))"

definition IsMaterialInContract :: "'h crafter \<Rightarrow> string \<Rightarrow> bool" where
  "IsMaterialInContract c key = (case cr_state c of
       None \<Rightarrow> False | Some v \<Rightarrow> list_ex (\<lambda>d. sm_name d = key) (cs_GetMaterials (vcs_state v)))"

section \<open>Probing the kinds\<close>

text \<open>\<open>errors.As\<close>: some error of the chain has the wanted type.\<close>

fun errors_as :: "(err \<Rightarrow> bool) \<Rightarrow> err \<Rightarrow> bool" where
  "errors_as P (Errorf f as) = P (Errorf f as)"
| "errors_as P (Wrapf f as e) = (P (Wrapf f as e) \<or> errors_as P e)"
| "errors_as P (PolicyErr e) = (P (PolicyErr e) \<or> errors_as P e)"

fun is_policy_error :: "err \<Rightarrow> bool" where
  "is_policy_error (PolicyErr e) = True"
| "is_policy_error _ = False"

definition ErrBaseUploadAndCraft :: err where
  "ErrBaseUploadAndCraft = Errorf ''upload and craft error'' []"

definition stops_probing :: "crafter_env \<Rightarrow> err \<Rightarrow> bool" where
  "stops_probing ck x =
     (errors_is x ErrBaseUploadAndCraft \<or> errors_as is_policy_error x \<or> ck_is_conflict ck x \<or>
      errors_as (ck_is_validation_error ck) x)"

fun probe_kinds ::
  "crafter_env \<Rightarrow> 'h state_manager \<Rightarrow> add_opts \<Rightarrow> string \<Rightarrow> string \<Rightarrow> string \<Rightarrow> string gomap \<Rightarrow> material_type list \<Rightarrow>
     'h crafter \<Rightarrow> material res \<times> 'h crafter" where
  "probe_kinds ck sm opts attestationID name value runtimeAnnotations [] c =
     (Inl (Errorf ''failed to auto-discover material kind'' []), c)"
| "probe_kinds ck sm opts attestationID name value runtimeAnnotations (kind # kinds) c =
     (case AddMaterialContractFree ck sm opts attestationID (ck_kind_name ck kind) name value runtimeAnnotations c of
        (Inr m, c') \<Rightarrow> (Inr m, c')
      | (Inl x, c') \<Rightarrow>
          if stops_probing ck x then (Inl x, c')
          else probe_kinds ck sm opts attestationID name value runtimeAnnotations kinds c')"

definition AddMaterialContactFreeWithAutoDetectedKind ::
  "crafter_env \<Rightarrow> 'h state_manager \<Rightarrow> add_opts \<Rightarrow> string \<Rightarrow> string \<Rightarrow> string \<Rightarrow> string gomap \<Rightarrow>
     'h crafter \<Rightarrow> material res \<times> 'h crafter" where
  "AddMaterialContactFreeWithAutoDetectedKind ck sm opts attestationID name value runtimeAnnotations c =
     probe_kinds ck sm opts attestationID name value runtimeAnnotations CraftingMaterialInValidationOrder c"

section \<open>Archives\<close>

definition AnnotationMaterialReferences :: string where
  "AnnotationMaterialReferences = ''chainloop.material.references''"

definition AppendReferences :: "string \<Rightarrow> string list \<Rightarrow> string" where
  "AppendReferences existing names =
     (let refs = (if existing \<noteq> [] then split_char (CHR '','') existing else [])
      in join_str '','' (fold (\<lambda>n refs. if n \<in> set refs then refs else refs @ [n]) names refs))"

record archive_entry =
  ae_name :: string
  ae_sort_key :: string
  ae_tmp_path :: string

text \<open>The entries in the order they are named and staged: sorted by normalized path, ties in archive order.\<close>

definition archive_entries :: "crafter_env \<Rightarrow> string list \<Rightarrow> archive_entry list" where
  "archive_entries ck names =
     sort_key ae_sort_key
       (map (\<lambda>(i, name). \<lparr>ae_name = name, ae_sort_key = NormalizeArchivePath name,
                          ae_tmp_path = ck_tmp_path ck i (ArchiveEntryBaseName name)\<rparr>) (enumerate 0 names))"

record archive_run =
  ar_allocator :: name_allocator
  ar_staged :: "string list"
  ar_result :: "material list"
  ar_state :: versioned

definition archive_material :: "material_type \<Rightarrow> string \<Rightarrow> schema_material" where
  "archive_material kind name = \<lparr>sm_type = kind, sm_name = name, sm_optional = True, sm_output = False,
     sm_annotations = [], sm_skip_upload = False, sm_group = []\<rparr>"

text \<open>The allocator always answers (\<open>allocate_total\<close>).\<close>

definition next_name :: "string \<Rightarrow> name_allocator \<Rightarrow> string \<times> name_allocator" where
  "next_name base a = the (AllocateNamed base a)"

fun stage_entries ::
  "crafter_env \<Rightarrow> add_opts \<Rightarrow> material_type \<Rightarrow> string \<Rightarrow> string gomap \<Rightarrow> archive_entry list \<Rightarrow> archive_run \<Rightarrow>
     unit res \<times> archive_run" where
  "stage_entries ck opts kind namePrefix runtimeAnnotations [] r = (Inr (), r)"
| "stage_entries ck opts kind namePrefix runtimeAnnotations (e # es) r =
     (let (matName, a') = next_name namePrefix (ar_allocator r);
          (staged, v') = stageMaterial ck opts (archive_material kind matName) (ae_tmp_path e) runtimeAnnotations (ar_state r);
          r' = r\<lparr>ar_allocator := a', ar_state := v'\<rparr>
      in case staged of
           Inl x \<Rightarrow> (Inl (Wrapf ''staging entry %q as material %q: %w'' [ae_name e, matName] x), r')
         | Inr mt \<Rightarrow> stage_entries ck opts kind namePrefix runtimeAnnotations es
             (r'\<lparr>ar_staged := ar_staged r @ [matName], ar_result := ar_result r @ [mt]\<rparr>))"

text \<open>
  The edge back from an exploded material to its archive. The materials of the result and those of
  the attestation are the same objects in the code, so both change.
\<close>

definition add_reference :: "string \<Rightarrow> material \<Rightarrow> material" where
  "add_reference name mt =
     mt\<lparr>mat_annotations := AList.update AnnotationMaterialReferences
          (AppendReferences (gm_get (mat_annotations mt) AnnotationMaterialReferences) [name]) (mat_annotations mt)\<rparr>"

definition link_back :: "string \<Rightarrow> archive_run \<Rightarrow> archive_run" where
  "link_back archiveName r =
     r\<lparr>ar_result := map (add_reference archiveName) (ar_result r),
       ar_state := set_attestation (\<lambda>att. att\<lparr>att_materials :=
         map (\<lambda>(k, mt). (k, if k \<in> set (ar_staged r) then add_reference archiveName mt else mt)) (att_materials att)\<rparr>)
         (ar_state r)\<rparr>"

definition record_archive ::
  "crafter_env \<Rightarrow> add_opts \<Rightarrow> string \<Rightarrow> string \<Rightarrow> archive_run \<Rightarrow> unit res \<times> archive_run" where
  "record_archive ck opts namePrefix archivePath r =
     (let s = SanitizeMaterialName namePrefix;
          archiveBase = (if s \<noteq> [] then s else ''material'');
          (archiveName, a') = next_name (archiveBase @ ''-archive'') (ar_allocator r);
          (staged, v') = stageMaterial ck opts (archive_material EVIDENCE archiveName) archivePath
            [(AnnotationMaterialReferences, join_str '','' (map mat_id (ar_result r)))] (ar_state r);
          r' = r\<lparr>ar_allocator := a', ar_state := v'\<rparr>
      in case staged of
           Inl x \<Rightarrow> (Inl (Wrapf ''recording source archive %q as evidence %q: %w'' [archivePath, archiveName] x), r')
         | Inr _ \<Rightarrow>
             (let linked = link_back archiveName r'
              in (Inr (), linked\<lparr>ar_staged := ar_staged r @ [archiveName]\<rparr>)))"

text \<open>
  Staging only adds evaluations of new materials, so the prefix is always there
  (\<open>staged_run\<close> below); slicing past the length does not arise.
\<close>

definition rollback :: "nat \<Rightarrow> archive_run \<Rightarrow> versioned" where
  "rollback checkpoint r =
     set_attestation (\<lambda>att. att\<lparr>att_materials := fold AList.delete (ar_staged r) (att_materials att),
                               att_evaluations := take checkpoint (att_evaluations att)\<rparr>) (ar_state r)"

definition stage_archive ::
  "crafter_env \<Rightarrow> add_opts \<Rightarrow> material_type \<Rightarrow> string \<Rightarrow> string \<Rightarrow> string gomap \<Rightarrow> archive_entry list \<Rightarrow> archive_run \<Rightarrow>
     unit res \<times> archive_run" where
  "stage_archive ck opts kind namePrefix archivePath runtimeAnnotations entries r =
     (case stage_entries ck opts kind namePrefix runtimeAnnotations entries r of
        (Inl x, r1) \<Rightarrow> (Inl x, r1)
      | (Inr _, r1) \<Rightarrow>
          if ao_record_source_archive opts then record_archive ck opts namePrefix archivePath r1 else (Inr (), r1))"

definition AddMaterialsFromArchive ::
  "crafter_env \<Rightarrow> 'h state_manager \<Rightarrow> add_opts \<Rightarrow> string \<Rightarrow> string \<Rightarrow> string \<Rightarrow> string \<Rightarrow> string gomap \<Rightarrow>
     'h crafter \<Rightarrow> material list res \<times> 'h crafter" where
  "AddMaterialsFromArchive ck sm opts attestationID kind namePrefix archivePath runtimeAnnotations c =
     (case cr_state c of
        None \<Rightarrow> (Inl (Wrapf ''adding materials from archive: %w'' [] ErrAttestationStateNotLoaded), c)
      | Some v \<Rightarrow>
          (case ck_kind_of_name ck kind of
             None \<Rightarrow> (Inl (Errorf ''%q kind not found. Available options are %q'' [kind]), c)
           | Some materialKind \<Rightarrow>
               (case ck_walk_archive ck archivePath of
                  Inl x \<Rightarrow> (Inl (Wrapf ''expanding archive %q: %w'' [archivePath] x), c)
                | Inr [] \<Rightarrow> (Inl (Errorf ''archive %q contains no processable entries'' [archivePath]), c)
                | Inr names \<Rightarrow>
                    (let checkpoint = length (att_evaluations (v_attestation v));
                         start = \<lparr>ar_allocator = NewNameAllocator (map fst (att_materials (v_attestation v))),
                                  ar_staged = [], ar_result = [], ar_state = v\<rparr>
                     in case stage_archive ck opts materialKind namePrefix archivePath runtimeAnnotations
                               (archive_entries ck names) start of
                          (Inl x, r) \<Rightarrow> (Inl x, c\<lparr>cr_state := Some (rollback checkpoint r)\<rparr>)
                        | (Inr _, r) \<Rightarrow>
                            (case write_state sm attestationID (ar_state r) c of
                               (Inl x, c') \<Rightarrow> (Inl x, c'\<lparr>cr_state := Some (rollback checkpoint r)\<rparr>)
                             | (Inr _, c') \<Rightarrow> (Inr (ar_result r), c'))))))"

section \<open>Attestation policies\<close>

definition maps_Equal :: "string gomap \<Rightarrow> string gomap \<Rightarrow> bool" where
  "maps_Equal m n = (length m = length n \<and> list_all (\<lambda>(k, v). map_of n k = Some v) m)"

definition policyEvalMatches :: "policy_evaluation \<Rightarrow> policy_evaluation \<Rightarrow> bool" where
  "policyEvalMatches a b = (pe_policy_ref a = pe_policy_ref b \<and> maps_Equal (pe_with a) (pe_with b))"

definition add_new :: "policy_evaluation \<Rightarrow> policy_evaluation list \<Rightarrow> policy_evaluation list" where
  "add_new ev evs = (if list_ex (\<lambda>existing. policyEvalMatches existing ev) evs then evs else evs @ [ev])"

definition keep_existing :: "policy_evaluation \<Rightarrow> policy_evaluation list \<Rightarrow> policy_evaluation list" where
  "keep_existing ev evs = (if pe_material_name ev \<noteq> [] then evs @ [ev] else add_new ev evs)"

definition merge_evaluations :: "policy_evaluation list \<Rightarrow> policy_evaluation list \<Rightarrow> policy_evaluation list" where
  "merge_evaluations evaluated existing = fold keep_existing existing (fold add_new evaluated [])"

definition EvaluateAttestationPolicies ::
  "crafter_env \<Rightarrow> 'h state_manager \<Rightarrow> string \<Rightarrow> string res \<Rightarrow> eval_phase \<Rightarrow> versioned \<Rightarrow> 'h crafter \<Rightarrow>
     unit res \<times> 'h crafter" where
  "EvaluateAttestationPolicies ck sm attestationID statementJSON phase v c =
     (let (pv, st) = crafter_verifier ck v [pv_WithEvalPhase phase] in
      case fst (VerifyStatement (ck_sched_policies ck) (ck_services ck) pv statementJSON st) of
        Inl x \<Rightarrow> (Inl (Wrapf ''evaluating policies in statement: %w'' [] x), c)
      | Inr policyEvaluations \<Rightarrow>
          (case fst (group_VerifyStatement (ck_sched_groups ck) (ck_services ck) pv (GetPolicyGroups (vcs_state v)) statementJSON st) of
             Inl x \<Rightarrow> (Inl (Wrapf ''evaluating policy groups in statement: %w'' [] x), c)
           | Inr policyGroupResults \<Rightarrow>
               write_state sm attestationID
                 (set_attestation (\<lambda>att. att\<lparr>att_evaluations :=
                    merge_evaluations (policyEvaluations @ policyGroupResults) (att_evaluations att)\<rparr>) v) c))"

definition ValidateAttestation :: "crafter_env \<Rightarrow> 'h crafter \<Rightarrow> unit res" where
  "ValidateAttestation ck c = (case cr_state c of
       None \<Rightarrow> Inl ErrAttestationStateNotLoaded
     | Some v \<Rightarrow> ValidateComplete (ck_validate_state ck) (vcs_state v) (cs_dry_run (vcs_state v)))"

section \<open>Lemmas on staging\<close>

lemma set_attestation_simps [simp]:
  "v_attestation (set_attestation f v) = f (v_attestation v)"
  "vcs_checksum (set_attestation f v) = vcs_checksum v"
  "cs_schema (vcs_state (set_attestation f v)) = cs_schema (vcs_state v)"
  "set_attestation f (set_attestation g v) = set_attestation (f \<circ> g) v"
  by (simp_all add: set_attestation_def)

lemma set_attestation_cong: "f (v_attestation v) = g (v_attestation v) \<Longrightarrow> set_attestation f v = set_attestation g v"
  by (simp add: set_attestation_def)

lemma set_attestation_same: "f (v_attestation v) = v_attestation v \<Longrightarrow> set_attestation f v = v"
  by (simp add: set_attestation_def)

lemma craft_annotated_name: "craft_annotated ck m value ra = Inr crafted \<Longrightarrow> mat_id (crf_material crafted) = sm_name m"
  by (auto simp: craft_annotated_def Craft_def Let_def bind_res_eq_Inr split: option.splits if_splits)

lemma verify_on_subject:
  "verify_groups_on ck v mt value content = Inr evs \<Longrightarrow> ev \<in> set evs \<Longrightarrow> pe_material_name ev = mat_id mt"
  "verify_policies_on ck v inputs mt value content = Inr evs \<Longrightarrow> ev \<in> set evs \<Longrightarrow> pe_material_name ev = mat_id mt"
  by (auto simp: verify_groups_on_def verify_policies_on_def case_prod_beta
      dest: group_VerifyMaterial_subject VerifyMaterial_subject)

lemma append_evaluations_twice [simp]: "append_evaluations es (append_evaluations ds att) = append_evaluations (ds @ es) att"
  by (simp add: append_evaluations_def)

text \<open>The evaluations of a material, from the contract: those of its groups, then those of its policies.\<close>

definition material_evaluations ::
  "crafter_env \<Rightarrow> add_opts \<Rightarrow> versioned \<Rightarrow> material \<Rightarrow> string \<Rightarrow> string \<Rightarrow> policy_evaluation list res" where
  "material_evaluations ck opts v mt value content =
     bind_res (verify_groups_on ck v mt value content) (\<lambda>gs.
     bind_res (verify_policies_on ck v (ao_runtime_inputs opts) mt value content) (\<lambda>ps. Inr (gs @ ps)))"

lemma verifier_ignores_evaluations:
  "crafter_verifier ck (set_attestation (drop_evaluations n) v) = crafter_verifier ck v"
  "crafter_verifier ck (set_attestation (append_evaluations evs) v) = crafter_verifier ck v"
  "GetPolicyGroups (vcs_state (set_attestation (drop_evaluations n) v)) = GetPolicyGroups (vcs_state v)"
  by (simp_all add: fun_eq_iff crafter_verifier_def verifier_opts_def projectContext_def schema_getter_defs drop_evaluations_def
      append_evaluations_def set_attestation_def)

lemma verify_ignores_evaluations:
  "verify_groups_on ck (set_attestation (drop_evaluations n) v) = verify_groups_on ck v"
  "verify_policies_on ck (set_attestation (append_evaluations gs) (set_attestation (drop_evaluations n) v)) =
     verify_policies_on ck v"
  by (intro ext, simp add: verify_groups_on_def verifier_ignores_evaluations)
    (intro ext, simp only: verify_policies_on_def verifier_ignores_evaluations)

lemma stage_evaluates:
  assumes "craft_annotated ck m value ra = Inr crafted"
    and "material_evaluations ck opts v (crf_material crafted) value (crf_content crafted) = Inr evs"
  shows "stageMaterial ck opts m value ra v = (Inr (crf_material crafted), set_attestation
    (\<lambda>att. put_material (sm_name m) (crf_material crafted) (append_evaluations evs (drop_evaluations (sm_name m) att))) v)"
  using assms unfolding stageMaterial_def Let_def verify_ignores_evaluations material_evaluations_def
  by (auto simp: bind_res_eq_Inr comp_def)

lemma material_evaluations_subject:
  "material_evaluations ck opts v mt value content = Inr evs \<Longrightarrow> e \<in> set evs \<Longrightarrow> pe_material_name e = mat_id mt"
  by (auto simp: material_evaluations_def bind_res_eq_Inr dest: verify_on_subject)

lemma stage_evaluated:
  assumes "stageMaterial ck opts m value ra v = (Inr mt, v')"
  obtains crafted evs where "craft_annotated ck m value ra = Inr crafted" and "mt = crf_material crafted"
    and "material_evaluations ck opts v mt value (crf_content crafted) = Inr evs"
    and "v' = set_attestation (\<lambda>att. put_material (sm_name m) mt (append_evaluations evs (drop_evaluations (sm_name m) att))) v"
proof -
  obtain crafted gs ps where c: "craft_annotated ck m value ra = Inr crafted" "mt = crf_material crafted"
    and gs: "verify_groups_on ck v mt value (crf_content crafted) = Inr gs"
    and ps: "verify_policies_on ck v (ao_runtime_inputs opts) mt value (crf_content crafted) = Inr ps"
    and v': "v' = set_attestation (put_material (sm_name m) mt) (set_attestation (append_evaluations ps)
        (set_attestation (append_evaluations gs) (set_attestation (drop_evaluations (sm_name m)) v)))"
    using assms unfolding stageMaterial_def Let_def verify_ignores_evaluations by (auto split: sum.splits)
  have "v' = set_attestation (\<lambda>att. put_material (sm_name m) mt (append_evaluations (gs @ ps) (drop_evaluations (sm_name m) att))) v"
    by (simp add: v' comp_def)
  with that [of crafted "gs @ ps"] c gs ps show thesis by (simp add: material_evaluations_def)
qed

lemma stage_success:
  assumes "stageMaterial ck opts m value ra v = (Inr mt, v')"
  obtains evs where "mat_id mt = sm_name m" and "\<forall>e\<in>set evs. pe_material_name e = sm_name m"
    and "v' = set_attestation (\<lambda>att. put_material (sm_name m) mt (append_evaluations evs (drop_evaluations (sm_name m) att))) v"
  using stage_evaluated [OF assms] by (metis craft_annotated_name material_evaluations_subject)

lemma stage_failure:
  assumes "stageMaterial ck opts m value ra v = (Inl x, v')"
  shows "v' = v \<or> (\<exists>evs. (\<forall>e\<in>set evs. pe_material_name e = sm_name m) \<and>
    v' = set_attestation (\<lambda>att. append_evaluations evs (drop_evaluations (sm_name m) att)) v)"
proof (cases "craft_annotated ck m value ra")
  case (Inl y)
  then show ?thesis using assms by (simp add: stageMaterial_def)
next
  case (Inr crafted)
  let ?v1 = "set_attestation (drop_evaluations (sm_name m)) v"
  have id: "mat_id (crf_material crafted) = sm_name m" using craft_annotated_name [OF Inr] .
  have empty: "append_evaluations [] = id" by (simp add: fun_eq_iff append_evaluations_def)
  show ?thesis
  proof (cases "verify_groups_on ck ?v1 (crf_material crafted) value (crf_content crafted)")
    case (Inl y)
    then show ?thesis using assms Inr by (intro disjI2 exI [of _ "[]"]) (simp add: stageMaterial_def empty Let_def)
  next
    case (Inr gs)
    then show ?thesis
      using assms \<open>craft_annotated ck m value ra = Inr crafted\<close> id
      by (intro disjI2 exI [of _ gs])
        (auto simp: stageMaterial_def Let_def comp_def dest: verify_on_subject(1) split: sum.splits)
  qed
qed

section \<open>Archives are added as a whole or not at all\<close>

text \<open>Evaluations in the state belong to the attestation or to a material that is there.\<close>

definition evaluations_owned :: "attestation \<Rightarrow> bool" where
  "evaluations_owned att =
     (\<forall>e\<in>set (att_evaluations att). pe_material_name e = [] \<or> pe_material_name e \<in> fst ` set (att_materials att))"

definition extended :: "(string \<times> material) list \<Rightarrow> policy_evaluation list \<Rightarrow> attestation \<Rightarrow> attestation" where
  "extended ms evs att = att\<lparr>att_materials := att_materials att @ ms, att_evaluations := att_evaluations att @ evs\<rparr>"

text \<open>
  A run that can be rolled back: the state is the old one with materials and evaluations appended,
  and the names of the materials are new. A run that can continue has, besides, evaluations of its
  own materials only, and an allocator that knows all names in use.
\<close>

definition undoable :: "versioned \<Rightarrow> archive_run \<Rightarrow> bool" where
  "undoable v r = (\<exists>ms evs. ar_state r = set_attestation (extended ms evs) v \<and> map fst ms = ar_staged r \<and>
     distinct (ar_staged r) \<and> set (ar_staged r) \<inter> fst ` set (att_materials (v_attestation v)) = {})"

definition staged_run :: "versioned \<Rightarrow> (string \<times> material) list \<Rightarrow> policy_evaluation list \<Rightarrow> archive_run \<Rightarrow> bool" where
  "staged_run v ms evs r =
     (ar_state r = set_attestation (extended ms evs) v \<and> map fst ms = ar_staged r \<and> map snd ms = ar_result r \<and>
      map mat_id (ar_result r) = ar_staged r \<and>
      distinct (ar_staged r) \<and> set (ar_staged r) \<inter> fst ` set (att_materials (v_attestation v)) = {} \<and>
      (\<forall>n\<in>set (ar_staged r). dns_name n) \<and>
      (\<forall>e\<in>set evs. pe_material_name e \<in> set (ar_staged r)) \<and>
      set (na_used (ar_allocator r)) = fst ` set (att_materials (v_attestation v)) \<union> set (ar_staged r))"

lemma update_fresh: "k \<notin> fst ` set al \<Longrightarrow> AList.update k x al = al @ [(k, x)]"
  by (induction al) auto

lemma delete_fresh: "k \<notin> fst ` set al \<Longrightarrow> AList.delete k al = al"
  by (induction al) (auto simp: AList.delete_eq)

lemma delete_staged:
  "set (map fst ms) \<inter> fst ` set al = {} \<Longrightarrow> distinct (map fst ms) \<Longrightarrow> fold AList.delete (map fst ms) (al @ ms) = al"
proof (induction ms rule: list.induct)
  case (Cons kx ms)
  obtain k x where kx: "kx = (k, x)" by (cases kx)
  have "AList.delete k (al @ (k, x) # ms) = al @ ms"
    using Cons.prems kx delete_fresh [of k al] delete_fresh [of k ms] by (auto simp: AList.delete_eq)
  with Cons kx show ?case by simp
qed simp

lemma rollback_undoable:
  assumes "undoable v r"
  shows "rollback (length (att_evaluations (v_attestation v))) r = v"
proof -
  from assms obtain ms evs where "ar_state r = set_attestation (extended ms evs) v" "map fst ms = ar_staged r"
    "distinct (ar_staged r)" "set (ar_staged r) \<inter> fst ` set (att_materials (v_attestation v)) = {}"
    by (auto simp: undoable_def)
  with delete_staged [of ms "att_materials (v_attestation v)"] show ?thesis
    by (auto simp: rollback_def extended_def intro!: set_attestation_same)
qed

lemma staged_undoable: "staged_run v ms evs r \<Longrightarrow> undoable v r"
  unfolding staged_run_def undoable_def by blast

lemma next_name_fresh:
  assumes "next_name base a = (name, a')"
  shows "name \<notin> set (na_used a) \<and> na_used a' = name # na_used a \<and> dns_name name"
proof -
  obtain c a1 j where "allocate (name_base base) a = Some (c, a1)" "c \<notin> set (na_used a)" "na_used a1 = c # na_used a"
    "c = candidate (name_base base) j" using allocate_total by blast
  then show ?thesis
    using assms candidate_dns name_base_dns by (auto simp: next_name_def AllocateNamed_def)
qed

lemma drop_fresh:
  assumes "staged_run v ms evs r" and "evaluations_owned (v_attestation v)" and "next_name base (ar_allocator r) = (name, a')"
  shows "drop_evaluations name (extended ms evs (v_attestation v)) = extended ms evs (v_attestation v)"
proof -
  have "name \<noteq> []" "name \<notin> fst ` set (att_materials (v_attestation v))" "name \<notin> set (ar_staged r)"
    using next_name_fresh [OF assms(3)] assms(1) by (auto simp: staged_run_def dns_name_def)
  then have "\<forall>e\<in>set (att_evaluations (extended ms evs (v_attestation v))). pe_material_name e \<noteq> name"
    using assms(1,2) by (auto simp: staged_run_def evaluations_owned_def extended_def)
  then show ?thesis by (simp add: drop_evaluations_def)
qed

lemma stage_fresh_success:
  assumes run: "staged_run v ms evs r" and owned: "evaluations_owned (v_attestation v)"
    and nm: "next_name base (ar_allocator r) = (name, a')"
    and "stageMaterial ck opts (archive_material kind name) value ra (ar_state r) = (Inr mt, v')"
  shows "\<exists>evs'. staged_run v (ms @ [(name, mt)]) (evs @ evs')
           (r\<lparr>ar_allocator := a', ar_state := v', ar_staged := ar_staged r @ [name], ar_result := ar_result r @ [mt]\<rparr>)"
proof -
  note fresh = next_name_fresh [OF nm] drop_fresh [OF run owned nm]
  obtain evs' where e: "mat_id mt = name" "\<forall>e\<in>set evs'. pe_material_name e = name"
    and v': "v' = set_attestation (\<lambda>att. put_material name mt (append_evaluations evs' (drop_evaluations name att))) (ar_state r)"
    using stage_success [OF assms(4)] by (auto simp: archive_material_def)
  have keys: "name \<notin> fst ` set (att_materials (extended ms evs (v_attestation v)))"
    using run fresh(1) by (simp add: staged_run_def extended_def image_Un flip: set_map)
  have "v' = set_attestation (extended (ms @ [(name, mt)]) (evs @ evs')) v"
    using run fresh(2) keys unfolding v' staged_run_def
    by (auto simp: comp_def put_material_def append_evaluations_def update_fresh extended_def intro!: set_attestation_cong)
  with run fresh(1) e show ?thesis
    by (intro exI [of _ evs']) (auto simp: staged_run_def)
qed

lemma stage_fresh_failure:
  assumes run: "staged_run v ms evs r" and owned: "evaluations_owned (v_attestation v)"
    and nm: "next_name base (ar_allocator r) = (name, a')"
    and st: "stageMaterial ck opts (archive_material kind name) value ra (ar_state r) = (Inl x, v')"
  shows "undoable v (r\<lparr>ar_allocator := a', ar_state := v'\<rparr>)"
proof -
  have "\<exists>evs'. v' = set_attestation (extended ms (evs @ evs')) v"
    using stage_failure [OF st]
  proof
    assume "v' = ar_state r"
    with run show ?thesis by (intro exI [of _ "[]"]) (simp add: staged_run_def)
  next
    assume "\<exists>evs. (\<forall>e\<in>set evs. pe_material_name e = sm_name (archive_material kind name)) \<and>
      v' = set_attestation (\<lambda>att. append_evaluations evs (drop_evaluations (sm_name (archive_material kind name)) att)) (ar_state r)"
    then obtain evs' where "v' = set_attestation (\<lambda>att. append_evaluations evs' (drop_evaluations name att)) (ar_state r)"
      by (auto simp: archive_material_def)
    then show ?thesis
      using run drop_fresh [OF run owned nm]
      by (intro exI [of _ evs'])
        (auto simp: staged_run_def comp_def append_evaluations_def extended_def intro!: set_attestation_cong)
  qed
  with run show ?thesis by (auto simp: undoable_def staged_run_def)
qed

lemma stage_entries_run:
  assumes "evaluations_owned (v_attestation v)" and "staged_run v ms evs r"
  shows "case stage_entries ck opts kind pfx ra es r of
      (Inl x, r') \<Rightarrow> undoable v r'
    | (Inr _, r') \<Rightarrow> \<exists>ms' evs'. staged_run v (ms @ ms') (evs @ evs') r' \<and> length ms' = length es"
  using assms(2)
proof (induction es arbitrary: r ms evs)
  case Nil
  then show ?case by (auto intro!: exI [of _ "[]"])
next
  case (Cons e es)
  obtain name a' where nm: "next_name pfx (ar_allocator r) = (name, a')" by fastforce
  obtain s v' where st: "stageMaterial ck opts (archive_material kind name) (ae_tmp_path e) ra (ar_state r) = (s, v')" by fastforce
  show ?case
  proof (cases s)
    case (Inl x)
    with stage_fresh_failure [OF Cons.prems assms(1) nm] st nm show ?thesis by simp
  next
    case (Inr mt)
    let ?r = "r\<lparr>ar_allocator := a', ar_state := v', ar_staged := ar_staged r @ [name], ar_result := ar_result r @ [mt]\<rparr>"
    obtain evs1 where run: "staged_run v (ms @ [(name, mt)]) (evs @ evs1) ?r"
      using stage_fresh_success [OF Cons.prems assms(1) nm] st Inr by blast
    have eq: "stage_entries ck opts kind pfx ra (e # es) r = stage_entries ck opts kind pfx ra es ?r"
      using nm st Inr by simp
    show ?thesis
    proof (cases "stage_entries ck opts kind pfx ra es ?r")
      case (Pair q r')
      show ?thesis
      proof (cases q)
        case (Inl x)
        then show ?thesis using Cons.IH [OF run] Pair eq by simp
      next
        case (Inr u)
        then obtain ms' evs' where "staged_run v ((ms @ [(name, mt)]) @ ms') ((evs @ evs1) @ evs') r'" "length ms' = length es"
          using Cons.IH [OF run] Pair by auto
        then show ?thesis
          using eq Pair Inr by (auto intro!: exI [of _ "(name, mt) # ms'"] exI [of _ "evs1 @ evs'"])
      qed
    qed
  qed
qed

text \<open>The state after the whole archive is staged: materials under new names, evaluations of those only.\<close>

definition archive_added :: "versioned \<Rightarrow> (string \<times> material) list \<Rightarrow> policy_evaluation list \<Rightarrow> archive_run \<Rightarrow> bool" where
  "archive_added v ms evs r =
     (ar_state r = set_attestation (extended ms evs) v \<and> map fst ms = ar_staged r \<and> prefix (ar_result r) (map snd ms) \<and>
      distinct (map fst ms) \<and> set (map fst ms) \<inter> fst ` set (att_materials (v_attestation v)) = {} \<and>
      map mat_id (map snd ms) = map fst ms \<and>
      (\<forall>n\<in>set (map fst ms). dns_name n) \<and> (\<forall>e\<in>set evs. pe_material_name e \<in> set (map fst ms)))"

lemma staged_added: "staged_run v ms evs r \<Longrightarrow> archive_added v ms evs r"
  unfolding staged_run_def archive_added_def by simp

lemma added_undoable: "archive_added v ms evs r \<Longrightarrow> undoable v r"
  unfolding archive_added_def undoable_def by metis

lemma link_materials:
  assumes "set (map fst ms) \<inter> fst ` set al = {}" and "k \<notin> set (map fst ms)"
  shows "map (\<lambda>(k, mt). (k, if k \<in> set (map fst ms) then f mt else mt)) (al @ ms @ [(k, x)]) =
         al @ map (\<lambda>(k, mt). (k, f mt)) ms @ [(k, x)]"
proof -
  have "map (\<lambda>(k, mt). (k, if k \<in> set (map fst ms) then f mt else mt)) al = map id al"
    using assms(1) by (intro map_cong) force+
  moreover have "map (\<lambda>(k, mt). (k, if k \<in> set (map fst ms) then f mt else mt)) ms = map (\<lambda>(k, mt). (k, f mt)) ms"
    by (intro map_cong) force+
  ultimately show ?thesis using assms(2) by simp
qed

lemma map_second:
  "map fst (map (\<lambda>(k, x). (k, f x)) ms) = map fst ms" "map snd (map (\<lambda>(k, x). (k, f x)) ms) = map f (map snd ms)"
  by (induction ms) auto

lemma record_archive_run:
  assumes run: "staged_run v ms evs r" and owned: "evaluations_owned (v_attestation v)"
  shows "case record_archive ck opts pfx path r of
      (Inl x, r') \<Rightarrow> undoable v r'
    | (Inr _, r') \<Rightarrow> (\<exists>ms' evs'. archive_added v ms' evs' r') \<and> length (ar_result r') = length (ar_result r)"
proof -
  define base where "base = (if SanitizeMaterialName pfx \<noteq> [] then SanitizeMaterialName pfx else ''material'') @ ''-archive''"
  define refs where "refs = [(AnnotationMaterialReferences, join_str '','' (map mat_id (ar_result r)))]"
  obtain name a' where nm: "next_name base (ar_allocator r) = (name, a')" by fastforce
  obtain s v' where st: "stageMaterial ck opts (archive_material EVIDENCE name) path refs (ar_state r) = (s, v')" by fastforce
  have rec: "record_archive ck opts pfx path r = (case s of
      Inl x \<Rightarrow> (Inl (Wrapf ''recording source archive %q as evidence %q: %w'' [path, name] x), r\<lparr>ar_allocator := a', ar_state := v'\<rparr>)
    | Inr _ \<Rightarrow> (Inr (), (link_back name (r\<lparr>ar_allocator := a', ar_state := v'\<rparr>))\<lparr>ar_staged := ar_staged r @ [name]\<rparr>))"
    using nm st by (cases s) (simp_all add: record_archive_def base_def refs_def Let_def)
  show ?thesis
  proof (cases s)
    case (Inl x)
    with stage_fresh_failure [OF run owned nm] st rec show ?thesis by simp
  next
    case (Inr mt)
    obtain evs1 where full: "staged_run v (ms @ [(name, mt)]) (evs @ evs1)
        (r\<lparr>ar_allocator := a', ar_state := v', ar_staged := ar_staged r @ [name], ar_result := ar_result r @ [mt]\<rparr>)"
      using stage_fresh_success [OF run owned nm] st Inr by blast
    let ?ms = "map (\<lambda>(k, mt). (k, add_reference name mt)) ms @ [(name, mt)]"
    let ?r = "(link_back name (r\<lparr>ar_allocator := a', ar_state := v'\<rparr>))\<lparr>ar_staged := ar_staged r @ [name]\<rparr>"
    have keys: "map fst ?ms = ar_staged r @ [name]" "map snd ?ms = map (add_reference name) (ar_result r) @ [mt]"
      using run map_second [of "add_reference name" ms] by (simp_all add: staged_run_def del: map_map)
    have staged: "ar_staged r = map fst ms" using run by (simp add: staged_run_def)
    have "v' = set_attestation (extended (ms @ [(name, mt)]) (evs @ evs1)) v" using full by (simp add: staged_run_def)
    then have "ar_state ?r = set_attestation (extended ?ms (evs @ evs1)) v"
      using full link_materials [of ms "att_materials (v_attestation v)" name "add_reference name" mt]
      unfolding link_back_def staged_run_def
      by (auto simp: comp_def extended_def staged simp del: map_append intro!: set_attestation_cong)
    moreover have "map mat_id (map (add_reference name) (ar_result r) @ [mt]) = ar_staged r @ [name]"
      using full by (simp add: staged_run_def comp_def add_reference_def)
    ultimately have "archive_added v ?ms (evs @ evs1) ?r"
      unfolding archive_added_def keys using full by (auto simp: staged_run_def link_back_def)
    moreover have "length (ar_result ?r) = length (ar_result r)" by (simp add: link_back_def)
    ultimately show ?thesis using rec Inr by auto
  qed
qed

lemma stage_archive_run:
  assumes "evaluations_owned (v_attestation v)"
    and "start = \<lparr>ar_allocator = NewNameAllocator (map fst (att_materials (v_attestation v))), ar_staged = [], ar_result = [], ar_state = v\<rparr>"
  shows "case stage_archive ck opts kind pfx path ra es start of
      (Inl x, r) \<Rightarrow> undoable v r
    | (Inr _, r) \<Rightarrow> (\<exists>ms evs. archive_added v ms evs r) \<and> length (ar_result r) = length es"
proof -
  have start: "staged_run v [] [] start"
    by (auto simp: assms(2) staged_run_def NewNameAllocator_def extended_def intro!: set_attestation_same [symmetric])
  obtain q r where q: "stage_entries ck opts kind pfx ra es start = (q, r)" by fastforce
  show ?thesis
  proof (cases q)
    case (Inl x)
    then show ?thesis using stage_entries_run [where ck = ck and opts = opts and kind = kind and pfx = pfx and ra = ra and es = es, OF assms(1) start] q by (simp add: stage_archive_def)
  next
    case (Inr u)
    then obtain ms evs where run: "staged_run v ms evs r" and len: "length ms = length es"
      using stage_entries_run [where ck = ck and opts = opts and kind = kind and pfx = pfx and ra = ra and es = es, OF assms(1) start] q by auto
    have "length (ar_result r) = length es" using run len unfolding staged_run_def by (metis length_map)
    then show ?thesis
      using staged_added [OF run] record_archive_run [where ck = ck and opts = opts and pfx = pfx and path = path, OF run assms(1)] q Inr
      by (auto simp: stage_archive_def split: sum.splits prod.splits)
  qed
qed

lemma archive_entries_length [simp]: "length (archive_entries ck names) = length names"
  by (simp add: archive_entries_def)

lemma added_owned:
  assumes "archive_added v ms evs r" and "evaluations_owned (v_attestation v)"
  shows "evaluations_owned (v_attestation (ar_state r))"
  using assms by (auto simp: archive_added_def evaluations_owned_def extended_def image_Un simp flip: set_map)

section \<open>Annotations\<close>

lemma runtime_annotations_lookup:
  assumes "gm_wf rt"
  shows "map_of (add_runtime_annotations rt anns) k =
     (if gm_get anns k \<noteq> [] then map_of anns k else case map_of rt k of Some x \<Rightarrow> Some x | None \<Rightarrow> map_of anns k)"
  using assms
proof (induction rt arbitrary: anns)
  case (Cons kv rt)
  obtain a b where kv: "kv = (a, b)" by (cases kv)
  define anns' where "anns' = (if gm_get anns a \<noteq> [] then anns else AList.update a b anns)"
  have step: "add_runtime_annotations (kv # rt) anns = add_runtime_annotations rt anns'"
    by (simp add: add_runtime_annotations_def kv anns'_def)
  from Cons.prems kv have rt: "gm_wf rt" "map_of rt a = None" by (auto simp: gm_wf_Cons map_of_eq_None_iff)
  show ?case
    unfolding step Cons.IH [OF rt(1)] using rt kv
    by (cases "k = a") (auto simp: anns'_def gm_get_def update_conv' split: option.splits)
qed (simp add: add_runtime_annotations_def)

lemma contract_annotations_lookup:
  assumes "distinct (map ann_name as)" and "a \<in> set as"
  shows "map_of (fold (\<lambda>a acc. AList.update (ann_name a) (ann_value a) acc) as base) (ann_name a) = Some (ann_value a)"
proof -
  have keep: "k \<notin> ann_name ` set bs \<Longrightarrow>
      map_of (fold (\<lambda>a acc. AList.update (ann_name a) (ann_value a) acc) bs base) k = map_of base k" for k bs base
    by (induction bs arbitrary: base) (auto simp: update_conv')
  from assms show ?thesis
    by (induction as arbitrary: base) (auto simp: keep update_conv')
qed

lemma craft_annotated_fields:
  assumes "craft_annotated ck m value rt = Inr r"
  obtains base where "mat_annotations (crf_material r) =
      add_runtime_annotations rt (fold (\<lambda>a acc. AList.update (ann_name a) (ann_value a) acc) (sm_annotations m) base)"
    and "\<forall>(k, x)\<in>set (mat_annotations (crf_material r)). x \<noteq> []"
proof -
  obtain crafted where crafted: "Craft ck m value = Inr crafted"
    and r: "mat_annotations (crf_material r) = add_runtime_annotations rt (mat_annotations (crf_material crafted))"
    and all: "missing_annotation (mat_annotations (crf_material r)) = None"
    using assms by (auto simp: craft_annotated_def Let_def bind_res_eq_Inr split: option.splits)
  from crafted obtain base where "mat_annotations (crf_material crafted) =
      fold (\<lambda>a acc. AList.update (ann_name a) (ann_value a) acc) (sm_annotations m) base"
    by (auto simp: Craft_def Let_def bind_res_eq_Inr split: if_splits)
  with that [of base] r all show thesis by (auto simp: missing_annotation_def find_None_iff)
qed

section \<open>Merging the evaluations of an attestation\<close>

abbreviation about_attestation :: "policy_evaluation \<Rightarrow> bool" where
  "about_attestation e \<equiv> pe_material_name e = []"

text \<open>The evaluations of the attestation come before those of its materials.\<close>

definition attestation_first :: "policy_evaluation list \<Rightarrow> bool" where
  "attestation_first evs \<longleftrightarrow> evs = filter about_attestation evs @ filter (\<lambda>e. \<not> about_attestation e) evs"

definition no_repeats :: "policy_evaluation list \<Rightarrow> bool" where
  "no_repeats evs \<longleftrightarrow> (\<forall>j<length evs. \<forall>i<j. \<not> policyEvalMatches (evs ! i) (evs ! j))"

lemma maps_Equal_refl: "gm_wf m \<Longrightarrow> maps_Equal m m"
  by (auto simp: maps_Equal_def list_all_iff gm_wf_def)

lemma no_repeats_snoc: "no_repeats (evs @ [e]) \<longleftrightarrow> no_repeats evs \<and> (\<forall>d\<in>set evs. \<not> policyEvalMatches d e)"
  by (fastforce simp: no_repeats_def nth_append less_Suc_eq in_set_conv_nth)

lemma fold_add_new:
  "no_repeats acc \<Longrightarrow> no_repeats (fold add_new evs acc) \<and> prefix acc (fold add_new evs acc) \<and>
     set (fold add_new evs acc) \<subseteq> set acc \<union> set evs"
proof (induction evs arbitrary: acc)
  case (Cons e evs)
  have "no_repeats (add_new e acc)" "prefix acc (add_new e acc)" "set (add_new e acc) \<subseteq> insert e (set acc)"
    using Cons.prems by (auto simp: add_new_def no_repeats_snoc list_ex_iff)
  with Cons.IH [of "add_new e acc"] show ?case by (auto intro: prefix_order.trans)
qed simp

lemma add_new_keeps: "set acc \<subseteq> set (fold add_new evs acc)"
proof (induction evs arbitrary: acc)
  case (Cons e evs)
  have "set acc \<subseteq> set (add_new e acc)" by (auto simp: add_new_def)
  with Cons.IH [of "add_new e acc"] show ?case by auto
qed simp

lemma fold_add_new_covers:
  "e \<in> set evs \<Longrightarrow> gm_wf (pe_with e) \<Longrightarrow> \<exists>d\<in>set (fold add_new evs acc). policyEvalMatches d e"
proof (induction evs arbitrary: acc)
  case (Cons x evs)
  show ?case
  proof (cases "e = x")
    case True
    then have "\<exists>d\<in>set (add_new x acc). policyEvalMatches d e"
      using Cons.prems(2) by (auto simp: add_new_def list_ex_iff policyEvalMatches_def maps_Equal_refl)
    with add_new_keeps [of "add_new x acc" evs] show ?thesis by auto
  next
    case False
    with Cons show ?thesis by simp
  qed
qed simp

lemma fold_keep_material:
  "\<forall>e\<in>set ms. \<not> about_attestation e \<Longrightarrow> fold keep_existing ms acc = acc @ ms"
  by (induction ms arbitrary: acc) (auto simp: keep_existing_def)

lemma fold_keep_attestation:
  "\<forall>e\<in>set as. about_attestation e \<Longrightarrow> fold keep_existing as acc = fold add_new as acc"
  by (induction as arbitrary: acc) (auto simp: keep_existing_def)

lemma merge_evaluations_split:
  assumes "attestation_first existing"
  shows "merge_evaluations evaluated existing =
     fold add_new (filter about_attestation existing) (fold add_new evaluated []) @
       filter (\<lambda>e. \<not> about_attestation e) existing"
proof -
  let ?A = "filter about_attestation existing" and ?M = "filter (\<lambda>e. \<not> about_attestation e) existing"
  have "merge_evaluations evaluated existing = fold keep_existing (?A @ ?M) (fold add_new evaluated [])"
    using assms by (simp add: merge_evaluations_def attestation_first_def)
  then show ?thesis by (simp add: fold_keep_material fold_keep_attestation)
qed

text \<open>What a round of attestation policies leaves in the state.\<close>

definition merged_ok :: "policy_evaluation list \<Rightarrow> policy_evaluation list \<Rightarrow> policy_evaluation list \<Rightarrow> bool" where
  "merged_ok evaluated existing r \<longleftrightarrow>
     attestation_first r \<and>
     filter (\<lambda>e. \<not> about_attestation e) r = filter (\<lambda>e. \<not> about_attestation e) existing \<and>
     no_repeats (filter about_attestation r) \<and>
     prefix (fold add_new evaluated []) r \<and>
     set r \<subseteq> set evaluated \<union> set existing \<and>
     (\<forall>e\<in>set evaluated \<union> set existing. about_attestation e \<longrightarrow> gm_wf (pe_with e) \<longrightarrow>
        (\<exists>d\<in>set r. about_attestation d \<and> policyEvalMatches d e))"

lemma merge_evaluations_ok:
  assumes "attestation_first existing" and "\<forall>e\<in>set evaluated. about_attestation e"
  shows "merged_ok evaluated existing (merge_evaluations evaluated existing)"
proof -
  let ?A = "filter about_attestation existing" and ?M = "filter (\<lambda>e. \<not> about_attestation e) existing"
  define D where "D = fold add_new evaluated []"
  define R where "R = fold add_new ?A D"
  have D: "no_repeats D" "set D \<subseteq> set evaluated"
    using fold_add_new [of "[]" evaluated] by (auto simp: D_def no_repeats_def)
  have R: "no_repeats R" "prefix D R" "set R \<subseteq> set evaluated \<union> set ?A"
    using fold_add_new [OF D(1), of ?A] D(2) by (auto simp: R_def)
  have att: "\<forall>e\<in>set R. about_attestation e" using R(3) assms(2) by auto
  then have f: "filter about_attestation R = R" "filter (\<lambda>e. \<not> about_attestation e) R = []"
    by (simp_all add: filter_empty_conv)
  have cover: "\<exists>d\<in>set R. policyEvalMatches d e"
    if "e \<in> set evaluated \<union> set ?A" and wf: "gm_wf (pe_with e)" for e
    using that(1)
  proof
    assume "e \<in> set evaluated"
    with fold_add_new_covers [OF _ wf, of evaluated "[]"] R(2) show ?thesis
      by (auto simp: D_def [symmetric] dest: set_mono_prefix)
  next
    assume "e \<in> set ?A"
    with fold_add_new_covers [OF _ wf, of ?A D] show ?thesis by (auto simp: R_def)
  qed
  have all: "\<forall>e\<in>set evaluated \<union> set existing. about_attestation e \<longrightarrow> gm_wf (pe_with e) \<longrightarrow>
      (\<exists>d\<in>set (R @ ?M). about_attestation d \<and> policyEvalMatches d e)"
  proof (intro ballI impI)
    fix e assume "e \<in> set evaluated \<union> set existing" "about_attestation e" "gm_wf (pe_with e)"
    with cover [of e] att show "\<exists>d\<in>set (R @ ?M). about_attestation d \<and> policyEvalMatches d e" by auto
  qed
  show ?thesis
    using f R all unfolding merged_ok_def merge_evaluations_split [OF assms(1)] D_def [symmetric] R_def [symmetric]
    by (auto simp: attestation_first_def filter_empty_conv intro: prefix_order.trans)
qed

section \<open>The crafter on a state manager\<close>

text \<open>
  The materials and evaluations of a whole archive: one material per entry, and perhaps the archive
  itself, under new, distinct DNS-1123 names, and evaluations of these materials only.
\<close>

definition complete_archive ::
  "crafter_env \<Rightarrow> string \<Rightarrow> versioned \<Rightarrow> (string \<times> material) list \<Rightarrow> policy_evaluation list \<Rightarrow> bool" where
  "complete_archive ck path v ms evs \<longleftrightarrow>
     (\<exists>names. ck_walk_archive ck path = Inr names \<and> names \<noteq> [] \<and> length names \<le> length ms) \<and> distinct (map fst ms) \<and>
     (\<forall>n\<in>set (map fst ms). dns_name n \<and> n \<notin> fst ` set (att_materials (v_attestation v))) \<and>
     map mat_id (map snd ms) = map fst ms \<and> (\<forall>e\<in>set evs. pe_material_name e \<in> set (map fst ms))"

text \<open>
  What the store may hold after a failed archive: nothing was written at all, or the write of the
  whole archive failed. Then the store reads as before, or as the state with the whole archive (the
  write was done and only its answer was lost), or, where a write can be torn, as no state at all.
\<close>

definition all_or_nothing ::
  "'h state_manager \<Rightarrow> bool \<Rightarrow> crafter_env \<Rightarrow> string \<Rightarrow> string \<Rightarrow> versioned \<Rightarrow> 'h \<Rightarrow> 'h \<Rightarrow> bool" where
  "all_or_nothing sm torn ck path key v h h' \<longleftrightarrow> h' = h \<or>
     (\<exists>ms evs. complete_archive ck path v ms evs \<and>
        (sm_Read sm h' key = sm_Read sm h key \<or>
         (\<exists>d. sm_Read sm h' key = Inr \<lparr>vcs_state = vcs_state (set_attestation (extended ms evs) v), vcs_checksum = d\<rparr>) \<or>
         torn \<and> (\<exists>y. sm_Read sm h' key = Inl y)))"

context state_store
begin

lemma write_state_success:
  assumes "write_state sm key v c = (Inr u, c')"
  shows "\<exists>w. cr_state c' = Some w \<and> vcs_state w = vcs_state v"
    and "okh (cr_store c) \<Longrightarrow> good (vcs_state v) \<Longrightarrow>
      \<exists>w. LoadCraftingState sm key c' = (Inr (), c'\<lparr>cr_state := Some w\<rparr>) \<and> vcs_state w = vcs_state v"
proof -
  obtain w h where w: "sm_Write sm (cr_store c) key v = (Inr w, h)" and c': "c' = c\<lparr>cr_state := Some w, cr_store := h\<rparr>"
    using assms by (auto simp: write_state_def split: prod.splits sum.splits)
  show "\<exists>w. cr_state c' = Some w \<and> vcs_state w = vcs_state v"
    using write_keeps [OF w] c' by simp
  show "\<exists>w. LoadCraftingState sm key c' = (Inr (), c'\<lparr>cr_state := Some w\<rparr>) \<and> vcs_state w = vcs_state v"
    if "okh (cr_store c)" and "good (vcs_state v)"
    using read_written [OF that w] c' by (auto simp: LoadCraftingState_def)
qed

lemma write_state_failure:
  assumes "write_state sm key v c = (Inl x, c')"
  obtains y where "sm_Write sm (cr_store c) key v = (Inl y, cr_store c')"
  using assms by (auto simp: write_state_def split: prod.splits sum.splits)

lemma archive_failure:
  assumes "AddMaterialsFromArchive ck sm opts key kind pfx path ra c = (Inl x, c')"
    and "cr_state c = Some v" and "evaluations_owned (v_attestation v)"
  shows "cr_state c' = Some v \<and> (cr_store c' = cr_store c \<or>
    (\<exists>ms evs y. complete_archive ck path v ms evs \<and>
       sm_Write sm (cr_store c) key (set_attestation (extended ms evs) v) = (Inl y, cr_store c')))"
proof (cases "\<exists>t n ns. ck_kind_of_name ck kind = Some t \<and> ck_walk_archive ck path = Inr (n # ns)")
  case False
  then have "c' = c"
    using assms(1,2) by (auto simp: AddMaterialsFromArchive_def split: option.splits sum.splits list.splits)
  then show ?thesis using assms(2) by simp
next
  case True
  then obtain t n ns where t: "ck_kind_of_name ck kind = Some t" and ns: "ck_walk_archive ck path = Inr (n # ns)" by blast
  define start where "start = \<lparr>ar_allocator = NewNameAllocator (map fst (att_materials (v_attestation v))), ar_staged = [], ar_result = [], ar_state = v\<rparr>"
  obtain q r where q: "stage_archive ck opts t pfx path ra (archive_entries ck (n # ns)) start = (q, r)" by fastforce
  note run = stage_archive_run [where ck = ck and opts = opts and kind = t and pfx = pfx and path = path and ra = ra
        and es = "archive_entries ck (n # ns)", OF assms(3) start_def, unfolded q, simplified]
  have undo: "rollback (length (att_evaluations (v_attestation v))) r = v"
    using run by (cases q) (auto dest: added_undoable rollback_undoable)
  show ?thesis
  proof (cases q)
    case (Inl y)
    then show ?thesis
      using assms(1,2) t ns q undo by (auto simp: AddMaterialsFromArchive_def Let_def start_def [symmetric])
  next
    case (Inr u)
    obtain w c1 where wr: "write_state sm key (ar_state r) c = (w, c1)" by fastforce
    with assms(1,2) t ns q Inr undo obtain y where w: "w = Inl y" and c': "c' = c1\<lparr>cr_state := Some v\<rparr>"
      by (auto simp: AddMaterialsFromArchive_def Let_def start_def [symmetric] split: sum.splits)
    obtain ms evs where added: "archive_added v ms evs r" "length (ar_result r) = Suc (length ns)" using run Inr by auto
    then have a: "prefix (ar_result r) (map snd ms)" "distinct (map fst ms)" "map mat_id (map snd ms) = map fst ms"
      "\<forall>n\<in>set (map fst ms). dns_name n \<and> n \<notin> fst ` set (att_materials (v_attestation v))"
      "\<forall>e\<in>set evs. pe_material_name e \<in> set (map fst ms)" unfolding archive_added_def by blast+
    have "length (n # ns) \<le> length ms" using prefix_length_le [OF a(1)] added(2) by simp
    with a ns have "complete_archive ck path v ms evs" unfolding complete_archive_def by blast
    moreover obtain y where "sm_Write sm (cr_store c) key (ar_state r) = (Inl y, cr_store c1)"
      using wr [unfolded w] by (rule write_state_failure)
    ultimately show ?thesis using added(1) c' by (auto simp: archive_added_def)
  qed
qed

lemma archive_atomic:
  assumes "AddMaterialsFromArchive ck sm opts key kind pfx path ra c = (Inl x, c')"
    and "cr_state c = Some v" and "evaluations_owned (v_attestation v)" and "okh (cr_store c)" and "\<forall>s. good s"
  shows "cr_state c' = Some v \<and> all_or_nothing sm torn ck path key v (cr_store c) (cr_store c')"
proof -
  from archive_failure [OF assms(1-3)] consider "cr_state c' = Some v" "cr_store c' = cr_store c"
    | ms evs y where "cr_state c' = Some v" "complete_archive ck path v ms evs"
      "sm_Write sm (cr_store c) key (set_attestation (extended ms evs) v) = (Inl y, cr_store c')" by blast
  then show ?thesis
  proof cases
    case 2
    from write_failed [OF assms(4) _ 2(3)] assms(5) 2(1,2) show ?thesis
      unfolding all_or_nothing_def by blast
  qed (simp add: all_or_nothing_def)
qed

lemma archive_success:
  assumes "AddMaterialsFromArchive ck sm opts key kind pfx path ra c = (Inr mts, c')"
    and "cr_state c = Some v" and "evaluations_owned (v_attestation v)"
  shows "\<exists>names w ms evs. ck_walk_archive ck path = Inr names \<and> length mts = length names \<and> prefix mts (map snd ms) \<and>
    distinct (map fst ms) \<and> (\<forall>n\<in>set (map fst ms). dns_name n \<and> n \<notin> fst ` set (att_materials (v_attestation v))) \<and>
    map mat_id (map snd ms) = map fst ms \<and> (\<forall>e\<in>set evs. pe_material_name e \<in> set (map fst ms)) \<and>
    cr_state c' = Some w \<and> v_attestation w = extended ms evs (v_attestation v) \<and> evaluations_owned (v_attestation w)"
proof -
  obtain t n ns where t: "ck_kind_of_name ck kind = Some t" and ns: "ck_walk_archive ck path = Inr (n # ns)"
    using assms(1,2) by (auto simp: AddMaterialsFromArchive_def split: option.splits sum.splits list.splits)
  define start where "start = \<lparr>ar_allocator = NewNameAllocator (map fst (att_materials (v_attestation v))), ar_staged = [], ar_result = [], ar_state = v\<rparr>"
  obtain q r where q: "stage_archive ck opts t pfx path ra (archive_entries ck (n # ns)) start = (q, r)" by fastforce
  obtain u where u: "q = Inr u" and wr: "write_state sm key (ar_state r) c = (Inr (), c')" and mts: "mts = ar_result r"
    using assms(1,2) t ns q
    by (cases q) (auto simp: AddMaterialsFromArchive_def Let_def start_def [symmetric] split: sum.splits prod.splits)
  obtain ms evs where added: "archive_added v ms evs r" and len: "length (ar_result r) = length (n # ns)"
    using stage_archive_run [where ck = ck and opts = opts and kind = t and pfx = pfx and path = path and ra = ra
        and es = "archive_entries ck (n # ns)", OF assms(3) start_def] q u by auto
  have names: "\<forall>n\<in>set (map fst ms). dns_name n \<and> n \<notin> fst ` set (att_materials (v_attestation v))" "distinct (map fst ms)"
    and pre: "prefix mts (map snd ms)" and st: "ar_state r = set_attestation (extended ms evs) v"
    and ids: "map mat_id (map snd ms) = map fst ms" and evs: "\<forall>e\<in>set evs. pe_material_name e \<in> set (map fst ms)"
    using added unfolding archive_added_def mts by blast+
  obtain w where w: "cr_state c' = Some w" "vcs_state w = vcs_state (ar_state r)" using write_state_success(1) [OF wr] by blast
  then have att: "v_attestation w = extended ms evs (v_attestation v)" using st by simp
  have "evaluations_owned (v_attestation w)" using added_owned [OF added assms(3)] w(2) by simp
  with names pre ids evs w(1) att len ns mts show ?thesis
    by (intro exI [of _ "n # ns"] exI [of _ w] exI [of _ ms] exI [of _ evs]) simp
qed

text \<open>What adding a material does to the state, in memory and in the store.\<close>

lemma addMaterial_success:
  assumes "addMaterial ck sm opts m key value ra v c = (Inr mt, c')"
  obtains w crafted evs where "cr_state c' = Some w" and "craft_annotated ck m value ra = Inr crafted"
    and "mt = crf_material crafted" and "material_evaluations ck opts v mt value (crf_content crafted) = Inr evs"
    and "v_attestation w = put_material (sm_name m) mt (append_evaluations evs (drop_evaluations (sm_name m) (v_attestation v)))"
    and "okh (cr_store c) \<Longrightarrow> good (vcs_state w) \<Longrightarrow>
        \<exists>w'. LoadCraftingState sm key c' = (Inr (), c'\<lparr>cr_state := Some w'\<rparr>) \<and> vcs_state w' = vcs_state w"
proof -
  obtain v' where st: "stageMaterial ck opts m value ra v = (Inr mt, v')" and wr: "write_state sm key v' c = (Inr (), c')"
    using assms by (auto simp: addMaterial_def case_prod_beta bind_res_eq_Inr prod_eq_iff split: prod.splits sum.splits)
  obtain crafted evs where evs: "craft_annotated ck m value ra = Inr crafted" "mt = crf_material crafted"
    "material_evaluations ck opts v mt value (crf_content crafted) = Inr evs"
    "v' = set_attestation (\<lambda>att. put_material (sm_name m) mt (append_evaluations evs (drop_evaluations (sm_name m) att))) v"
    using stage_evaluated [OF st] .
  from write_state_success(1) [OF wr] obtain w where "cr_state c' = Some w" "vcs_state w = vcs_state v'" by blast
  with evs write_state_success(2) [OF wr] that [of w crafted evs] show thesis by simp
qed

lemma evaluate_attestation_success:
  assumes "EvaluateAttestationPolicies ck sm key json phase v c = (Inr u, c')"
    and "attestation_first (att_evaluations (v_attestation v))"
    and "crafter_verifier ck v [pv_WithEvalPhase phase] = (pv, st)"
  obtains w es gs where "cr_state c' = Some w"
    and "fst (VerifyStatement (ck_sched_policies ck) (ck_services ck) pv json st) = Inr es"
    and "fst (group_VerifyStatement (ck_sched_groups ck) (ck_services ck) pv (GetPolicyGroups (vcs_state v)) json st) = Inr gs"
    and "att_materials (v_attestation w) = att_materials (v_attestation v)"
    and "merged_ok (es @ gs) (att_evaluations (v_attestation v)) (att_evaluations (v_attestation w))"
proof -
  obtain es gs where es: "fst (VerifyStatement (ck_sched_policies ck) (ck_services ck) pv json st) = Inr es"
    and gs: "fst (group_VerifyStatement (ck_sched_groups ck) (ck_services ck) pv (GetPolicyGroups (vcs_state v)) json st) = Inr gs"
    and wr: "write_state sm key (set_attestation (\<lambda>att. att\<lparr>att_evaluations :=
        merge_evaluations (es @ gs) (att_evaluations att)\<rparr>) v) c = (Inr u, c')"
    using assms(1,3) by (auto simp: EvaluateAttestationPolicies_def split: sum.splits)
  have "\<forall>e\<in>set (es @ gs). about_attestation e"
    using VerifyStatement_subject [OF es] group_VerifyStatement_subject [OF gs] by auto
  with write_state_success(1) [OF wr] merge_evaluations_ok [OF assms(2), of "es @ gs"] that es gs show thesis by fastforce
qed

end

section \<open>Properties\<close>

text \<open>
  C10. Exploding an archive is all or nothing, with the remote and with the file manager. When it fails,
  the attestation in memory is exactly what it was. Unless every entry was staged and only the final
  write failed, the store was not touched. After a failed write the store reads as before or as the
  state with the whole archive, which happens when the response of the control plane is lost; a file
  cut short by a failed write may also be unreadable. A part of an archive is never stored.
\<close>

theorem archive_all_or_nothing:
  assumes "evaluations_owned (v_attestation v)" and "\<forall>s. proto_good se s" and "\<forall>s. json_good jc s" and "json_framed jc"
    and "cr_state c = Some v" and "good_random (cr_store c)" and "cr_state f = Some v"
  shows "(AddMaterialsFromArchive ck (remote_manager se wid pass) opts key kind pfx path ra c = (Inl x, c') \<longrightarrow>
           cr_state c' = Some v \<and>
           all_or_nothing (remote_manager se wid pass) False ck path key v (cr_store c) (cr_store c')) \<and>
         (AddMaterialsFromArchive ck (filesystem_manager jc file) opts key kind pfx path ra f = (Inl y, f') \<longrightarrow>
           cr_state f' = Some v \<and>
           all_or_nothing (filesystem_manager jc file) True ck path key v (cr_store f) (cr_store f'))"
proof (rule conjI; rule impI)
  assume "AddMaterialsFromArchive ck (remote_manager se wid pass) opts key kind pfx path ra c = (Inl x, c')"
  then show "cr_state c' = Some v \<and> all_or_nothing (remote_manager se wid pass) False ck path key v (cr_store c) (cr_store c')"
    using assms(5,1,6,2) by (rule remote_store.archive_atomic)
next
  assume "AddMaterialsFromArchive ck (filesystem_manager jc file) opts key kind pfx path ra f = (Inl y, f')"
  then show "cr_state f' = Some v \<and> all_or_nothing (filesystem_manager jc file) True ck path key v (cr_store f) (cr_store f')"
    using assms(7,1,4,3) by (rule filesystem_store.archive_atomic)
qed

text \<open>
  An exploded archive becomes one material per entry, under new, distinct DNS-1123 names, next to
  what was there: no material or evaluation of the attestation is replaced, and every new evaluation
  is of a new material.
\<close>

theorem archive_adds_every_entry:
  assumes "AddMaterialsFromArchive ck (remote_manager se wid pass) opts key kind pfx path ra c = (Inr mts, c')"
    and "cr_state c = Some v" and "evaluations_owned (v_attestation v)"
  shows "\<exists>names w ms evs. ck_walk_archive ck path = Inr names \<and> length mts = length names \<and> prefix mts (map snd ms) \<and>
    distinct (map fst ms) \<and> (\<forall>n\<in>set (map fst ms). dns_name n \<and> n \<notin> fst ` set (att_materials (v_attestation v))) \<and>
    map mat_id (map snd ms) = map fst ms \<and> (\<forall>e\<in>set evs. pe_material_name e \<in> set (map fst ms)) \<and>
    cr_state c' = Some w \<and> att_materials (v_attestation w) = att_materials (v_attestation v) @ ms \<and>
    att_evaluations (v_attestation w) = att_evaluations (v_attestation v) @ evs"
proof -
  from remote_store.archive_success [OF assms] obtain names w ms evs where
    "ck_walk_archive ck path = Inr names" "length mts = length names" "prefix mts (map snd ms)" "distinct (map fst ms)"
    "\<forall>n\<in>set (map fst ms). dns_name n \<and> n \<notin> fst ` set (att_materials (v_attestation v))"
    "map mat_id (map snd ms) = map fst ms" "\<forall>e\<in>set evs. pe_material_name e \<in> set (map fst ms)"
    "cr_state c' = Some w" "v_attestation w = extended ms evs (v_attestation v)" by blast
  then show ?thesis
    by (intro exI [of _ names] exI [of _ w] exI [of _ ms] exI [of _ evs]) (simp add: extended_def)
qed

text \<open>
  C24. Adding a material replaces that material and nothing else: the others and their evaluations
  stay, the evaluations of the material are those of its new version, and what a later command loads
  from the store is the state the crafter holds.
\<close>

theorem add_material_replaces:
  assumes "addMaterial ck (remote_manager se wid pass) opts m key value ra v c = (Inr mt, c')"
    and "good_random (cr_store c)" and "\<forall>s. proto_good se s"
  shows "\<exists>w w' crafted evs. cr_state c' = Some w \<and> craft_annotated ck m value ra = Inr crafted \<and> mt = crf_material crafted \<and>
     mat_id mt = sm_name m \<and>
     map_of (att_materials (v_attestation w)) = (map_of (att_materials (v_attestation v)))(sm_name m \<mapsto> mt) \<and>
     material_evaluations ck opts v mt value (crf_content crafted) = Inr evs \<and>
     att_evaluations (v_attestation w) = filter (\<lambda>e. pe_material_name e \<noteq> sm_name m) (att_evaluations (v_attestation v)) @ evs \<and>
     LoadCraftingState (remote_manager se wid pass) key c' = (Inr (), c'\<lparr>cr_state := Some w'\<rparr>) \<and> vcs_state w' = vcs_state w"
proof -
  from remote_store.addMaterial_success [OF assms(1)] obtain w crafted evs where
    w: "cr_state c' = Some w" "craft_annotated ck m value ra = Inr crafted" "mt = crf_material crafted"
    "material_evaluations ck opts v mt value (crf_content crafted) = Inr evs"
    "v_attestation w = put_material (sm_name m) mt (append_evaluations evs (drop_evaluations (sm_name m) (v_attestation v)))"
    and l: "\<exists>w'. LoadCraftingState (remote_manager se wid pass) key c' = (Inr (), c'\<lparr>cr_state := Some w'\<rparr>) \<and> vcs_state w' = vcs_state w"
    using assms(2,3) by metis
  from l obtain w' where "LoadCraftingState (remote_manager se wid pass) key c' = (Inr (), c'\<lparr>cr_state := Some w'\<rparr>)"
    "vcs_state w' = vcs_state w" by blast
  with w craft_annotated_name [OF w(2)] show ?thesis
    by (intro exI [of _ w] exI [of _ w'] exI [of _ crafted] exI [of _ evs])
      (simp add: put_material_def append_evaluations_def drop_evaluations_def update_conv')
qed

text \<open>
  Annotations of a material: a value the contract sets always wins over one given at run time, a
  runtime value fills an annotation the contract leaves empty, and no annotation of an accepted
  material is empty.
\<close>

theorem contract_annotations_win:
  assumes "craft_annotated ck m value rt = Inr r" and "distinct (map ann_name (sm_annotations m))"
    and "a \<in> set (sm_annotations m)" and "gm_wf rt"
  shows "map_of (mat_annotations (crf_material r)) (ann_name a) =
           (if ann_value a \<noteq> [] then Some (ann_value a) else map_of rt (ann_name a)) \<and>
         [] \<notin> snd ` set (mat_annotations (crf_material r))"
proof -
  obtain base where b: "mat_annotations (crf_material r) =
      add_runtime_annotations rt (fold (\<lambda>a acc. AList.update (ann_name a) (ann_value a) acc) (sm_annotations m) base)"
    and ne: "\<forall>(k, x)\<in>set (mat_annotations (crf_material r)). x \<noteq> []"
    using craft_annotated_fields [OF assms(1)] .
  have "[] \<notin> snd ` set (mat_annotations (crf_material r))" using ne by auto
  moreover from this have "map_of (mat_annotations (crf_material r)) (ann_name a) \<noteq> Some []"
    by (metis image_eqI map_of_SomeD snd_conv)
  ultimately show ?thesis
    using contract_annotations_lookup [OF assms(2,3), of base] runtime_annotations_lookup [OF assms(4)] b
    by (auto simp: gm_get_def split: option.splits)
qed

text \<open>
  C30. Evaluating the policies of the attestation again leaves every material and its evaluations
  alone, lists the evaluations of the attestation first and each policy with its arguments once, gives
  the new results precedence, and forgets no policy that was evaluated before.
\<close>

theorem attestation_evaluations_merged:
  assumes "EvaluateAttestationPolicies ck (remote_manager se wid pass) key json phase v c = (Inr u, c')"
    and "attestation_first (att_evaluations (v_attestation v))"
    and "crafter_verifier ck v [pv_WithEvalPhase phase] = (pv, st)"
  shows "\<exists>w es gs. cr_state c' = Some w \<and> fst (VerifyStatement (ck_sched_policies ck) (ck_services ck) pv json st) = Inr es \<and>
     fst (group_VerifyStatement (ck_sched_groups ck) (ck_services ck) pv (GetPolicyGroups (vcs_state v)) json st) = Inr gs \<and>
     att_materials (v_attestation w) = att_materials (v_attestation v) \<and>
     merged_ok (es @ gs) (att_evaluations (v_attestation v)) (att_evaluations (v_attestation w))"
  using remote_store.evaluate_attestation_success [OF assms] by metis

end
