(* ===== verification/Attestation_Add.thy ===== *)
theory Attestation_Add
  imports Crafter
begin

text \<open>
  The action behind \<open>attestation add\<close> (\<open>app/cli/pkg/action/attestation_add.go\<close>): runtime policy
  inputs from flags and files, the choice between exploding an archive and the four ways to add one
  material, and the evidence materials that record the input files. The end of the theory shows what
  holds of the stored state after any sequence of such commands.
\<close>

section \<open>Runtime inputs\<close>

record policy_input_file =
  pif_policy :: string
  pif_input :: string
  pif_file :: string
  pif_column :: string

record inline_input =
  pin_policy :: string
  pin_input :: string
  pin_value :: string

text \<open>
  What the action needs from outside: the reader of a column of a file (\<open>ExtractColumnValues\<close>), the
  detector of archives, the connection to the artifact storage, and the names of the kinds.
\<close>

record add_env =
  ad_column :: "string \<Rightarrow> string \<Rightarrow> string list res"
  ad_detect_archive :: "string \<Rightarrow> bool res"
  ad_cas_backend :: "unit res"
  ad_type_name :: "material_type \<Rightarrow> string"

definition addAppendInput :: "string \<Rightarrow> string \<Rightarrow> string \<Rightarrow> runtime_inputs \<Rightarrow> runtime_inputs" where
  "addAppendInput policy input value ri =
     (if policy = [] then ri\<lparr>ri_global := MergeRuntimeInputs (ri_global ri) [(input, value)]\<rparr>
      else ri\<lparr>ri_scoped := AList.update policy
             (MergeRuntimeInputs (scope_values (ri_scoped ri) policy) [(input, value)]) (ri_scoped ri)\<rparr>)"

definition addOverrideInput :: "string \<Rightarrow> string \<Rightarrow> string \<Rightarrow> runtime_inputs \<Rightarrow> runtime_inputs" where
  "addOverrideInput policy input value ri =
     (if policy = [] then ri\<lparr>ri_global_override := AList.update input value (ri_global_override ri)\<rparr>
      else ri\<lparr>ri_scoped_override := AList.update policy
             (AList.update input value (scope_values (ri_scoped_override ri) policy)) (ri_scoped_override ri)\<rparr>)"

fun add_file_inputs :: "add_env \<Rightarrow> policy_input_file list \<Rightarrow> runtime_inputs \<Rightarrow> runtime_inputs res" where
  "add_file_inputs ad [] ri = Inr ri"
| "add_file_inputs ad (pif # pifs) ri =
     bind_res (map_err (Wrapf ''extracting %q from %q: %w'' [pif_column pif, pif_file pif])
       (ad_column ad (pif_file pif) (pif_column pif))) (\<lambda>values.
     add_file_inputs ad pifs (addAppendInput (pif_policy pif) (pif_input pif) (join_str newline values) ri))"

definition no_runtime_inputs :: runtime_inputs where
  "no_runtime_inputs = \<lparr>ri_global = [], ri_scoped = [], ri_global_override = [], ri_scoped_override = []\<rparr>"

definition buildRuntimeInputs ::
  "add_env \<Rightarrow> policy_input_file list \<Rightarrow> inline_input list \<Rightarrow> runtime_inputs option res" where
  "buildRuntimeInputs ad policyInputFiles policyInputs =
     (if policyInputFiles = [] \<and> policyInputs = [] then Inr None
      else
        bind_res (add_file_inputs ad policyInputFiles no_runtime_inputs) (\<lambda>ri.
        Inr (Some (fold (\<lambda>p. addOverrideInput (pin_policy p) (pin_input p) (pin_value p)) policyInputs ri))))"

definition runtimeInputAddOpts :: "runtime_inputs option \<Rightarrow> add_opts" where
  "runtimeInputAddOpts runtimeInputs =
     \<lparr>ao_runtime_inputs = (if ri_empty runtimeInputs then None else runtimeInputs), ao_record_source_archive = False\<rparr>"

definition withSourceArchiveEvidence :: "add_opts \<Rightarrow> add_opts" where
  "withSourceArchiveEvidence opts = opts\<lparr>ao_record_source_archive := True\<rparr>"

definition shouldExplode :: "add_env \<Rightarrow> string \<Rightarrow> string \<Rightarrow> bool res" where
  "shouldExplode ad materialType value =
     (if \<not> IsExplodableKind (ad_type_name ad) materialType then Inr False else ad_detect_archive ad value)"

section \<open>Evidence of the input files\<close>

definition AnnotationPolicyInput :: string where
  "AnnotationPolicyInput = ''chainloop.material.policy_input''"

definition sanitizeMaterialNamePart :: "string \<Rightarrow> string" where
  "sanitizeMaterialNamePart s = (let name = SanitizeMaterialName s in if name \<noteq> [] then name else ''input'')"

fun number_repeated :: "string list \<Rightarrow> string list \<Rightarrow> string list \<Rightarrow> string list" where
  "number_repeated all seen [] = []"
| "number_repeated all seen (b # bs) =
     (if count_list all b > 1 then b @ ''-'' @ decimal (count_list seen b + 1) else b) #
       number_repeated all (b # seen) bs"

definition policyInputEvidenceNames :: "string \<Rightarrow> policy_input_file list \<Rightarrow> string list" where
  "policyInputEvidenceNames materialName policyInputFiles =
     (let base = map (\<lambda>pif. materialName @ ''-'' @ sanitizeMaterialNamePart (pif_input pif)) policyInputFiles
      in number_repeated base [] base)"

definition addReference :: "string list \<Rightarrow> material \<Rightarrow> material" where
  "addReference names m =
     (if names = [] then m
      else m\<lparr>mat_annotations := AList.update AnnotationMaterialReferences
             (AppendReferences (gm_get (mat_annotations m) AnnotationMaterialReferences) names) (mat_annotations m)\<rparr>)"

text \<open>The subject is the object held in the crafting state, so the edge back is added there.\<close>

definition reference_in_state :: "string \<Rightarrow> string list \<Rightarrow> versioned \<Rightarrow> versioned" where
  "reference_in_state subject names v =
     set_attestation (\<lambda>att. att\<lparr>att_materials :=
       map (\<lambda>(k, m). (k, if k = subject then addReference names m else m)) (att_materials att)\<rparr>) v"

fun add_evidence ::
  "crafter_env \<Rightarrow> 'h state_manager \<Rightarrow> string \<Rightarrow> string \<Rightarrow> (policy_input_file \<times> string) list \<Rightarrow> 'h crafter \<Rightarrow>
     unit res \<times> 'h crafter" where
  "add_evidence ck sm attestationID subject [] c = (Inr (), c)"
| "add_evidence ck sm attestationID subject ((pif, name) # rest) c =
     (case AddMaterialContractFree ck sm (runtimeInputAddOpts None) attestationID (ck_kind_name ck EVIDENCE) name (pif_file pif)
             [(AnnotationMaterialReferences, subject), (AnnotationPolicyInput, pif_input pif)] c of
        (Inl x, c') \<Rightarrow> (Inl (Wrapf ''adding evidence material %q: %w'' [name] x), c')
      | (Inr _, c') \<Rightarrow> add_evidence ck sm attestationID subject rest c')"

definition addPolicyInputEvidence ::
  "crafter_env \<Rightarrow> 'h state_manager \<Rightarrow> string \<Rightarrow> material \<Rightarrow> policy_input_file list \<Rightarrow> 'h crafter \<Rightarrow>
     unit res \<times> 'h crafter" where
  "addPolicyInputEvidence ck sm attestationID subject policyInputFiles c =
     (let names = policyInputEvidenceNames (mat_id subject) policyInputFiles
      in add_evidence ck sm attestationID (mat_id subject) (zip policyInputFiles names)
           (c\<lparr>cr_state := map_option (reference_in_state (mat_id subject) names) (cr_state c)\<rparr>))"

section \<open>The action\<close>

record status_material =
  stm_name :: string
  stm_type :: string
  stm_annotations :: "(string \<times> string) list"
  stm_value :: string
  stm_hash :: string
  stm_tag :: string
  stm_set :: bool
  stm_output :: bool
  stm_required :: bool

definition setMaterialValue :: "material \<Rightarrow> status_material \<Rightarrow> status_material res" where
  "setMaterialValue w r =
     bind_res (case mat_body w of
         MString value digest \<Rightarrow> Inr (value, digest)
       | MContainerImage ci \<Rightarrow> Inr (ci_name ci, ci_digest ci)
       | MArtifact a \<Rightarrow> Inr (art_name a, art_digest a)
       | MSbomArtifact a _ \<Rightarrow> Inr (art_name a, art_digest a)
       | MNone \<Rightarrow> Inl (Errorf ''unknown material type: %T'' []))
     (\<lambda>(value, hash). Inr (r\<lparr>stm_value := value, stm_hash := hash, stm_set := True,
        stm_tag := (case mat_body w of MContainerImage ci \<Rightarrow> ci_tag ci | _ \<Rightarrow> [])\<rparr>))"

definition attMaterialToAction :: "(material_type \<Rightarrow> string) \<Rightarrow> material \<Rightarrow> status_material res" where
  "attMaterialToAction type_name m =
     map_err (Wrapf ''setting material value: %w'' [])
       (setMaterialValue m \<lparr>stm_name = mat_id m, stm_type = type_name (mat_type m), stm_annotations = mat_annotations m,
          stm_value = [], stm_hash = [], stm_tag = [], stm_set = False, stm_output = mat_output m,
          stm_required = mat_required m\<rparr>)"

definition ErrAttestationNotInitialized :: err where
  "ErrAttestationNotInitialized = Errorf ''attestation not yet initialized'' []"

text \<open>Which way a single material is added.\<close>

definition add_single ::
  "crafter_env \<Rightarrow> 'h state_manager \<Rightarrow> add_opts \<Rightarrow> string \<Rightarrow> string \<Rightarrow> string \<Rightarrow> string \<Rightarrow> string gomap \<Rightarrow>
     'h crafter \<Rightarrow> material res \<times> 'h crafter" where
  "add_single ck sm addOpts attestationID materialName materialValue materialType annotations c =
     (if materialName = [] \<and> materialType = [] then
        AddMaterialContactFreeWithAutoDetectedKind ck sm addOpts attestationID [] materialValue annotations c
      else if materialName \<noteq> [] \<and> IsMaterialInContract c materialName then
        AddMaterialFromContract ck sm addOpts attestationID materialName materialValue annotations c
      else if materialName \<noteq> [] \<and> materialType = [] then
        AddMaterialContactFreeWithAutoDetectedKind ck sm addOpts attestationID materialName materialValue annotations c
      else
        AddMaterialContractFree ck sm addOpts attestationID materialType materialName materialValue annotations c)"

definition convert_archive :: "add_env \<Rightarrow> material list res \<Rightarrow> status_material list res" where
  "convert_archive ad added =
     bind_res (map_err (Wrapf ''adding materials from archive: %w'' []) added)
       (map_res (\<lambda>m. map_err (Wrapf ''converting material to action: %w'' []) (attMaterialToAction (ad_type_name ad) m)))"

definition add_and_record ::
  "crafter_env \<Rightarrow> add_env \<Rightarrow> 'h state_manager \<Rightarrow> add_opts \<Rightarrow> string \<Rightarrow> string \<Rightarrow> string \<Rightarrow> string \<Rightarrow> string gomap \<Rightarrow>
     policy_input_file list \<Rightarrow> 'h crafter \<Rightarrow> status_material list res \<times> 'h crafter" where
  "add_and_record ck ad sm addOpts attestationID materialName materialValue materialType annotations policyInputFiles c =
     (case add_single ck sm addOpts attestationID materialName materialValue materialType annotations c of
        (Inl x, c') \<Rightarrow> (Inl (Wrapf ''adding material: %w'' [] x), c')
      | (Inr mt, c') \<Rightarrow>
          (case addPolicyInputEvidence ck sm attestationID mt policyInputFiles c' of
             (Inl x, c'') \<Rightarrow> (Inl (Wrapf ''recording policy input evidence: %w'' [] x), c'')
           | (Inr _, c'') \<Rightarrow>
               (bind_res (map_err (Wrapf ''converting material to action: %w'' [])
                  (attMaterialToAction (ad_type_name ad)
                     (addReference (policyInputEvidenceNames (mat_id mt) policyInputFiles) mt)))
                  (\<lambda>r. Inr [r]), c'')))"

definition AttestationAdd_Run ::
  "crafter_env \<Rightarrow> add_env \<Rightarrow> 'h state_manager \<Rightarrow> string \<Rightarrow> string \<Rightarrow> string \<Rightarrow> string \<Rightarrow> string gomap \<Rightarrow>
     policy_input_file list \<Rightarrow> inline_input list \<Rightarrow> 'h \<Rightarrow> status_material list res \<times> 'h crafter" where
  "AttestationAdd_Run ck ad sm attestationID materialName materialValue materialType annotations policyInputFiles policyInputs h =
     (let c = \<lparr>cr_state = None, cr_store = h\<rparr> in
      case buildRuntimeInputs ad policyInputFiles policyInputs of
        Inl x \<Rightarrow> (Inl x, c)
      | Inr runtimeInputs \<Rightarrow>
          (case sm_Initialized sm h attestationID of
             Inl x \<Rightarrow> (Inl (Wrapf ''checking if attestation is already initialized: %w'' [] x), c)
           | Inr False \<Rightarrow> (Inl ErrAttestationNotInitialized, c)
           | Inr True \<Rightarrow>
               (case LoadCraftingState sm attestationID c of
                  (Inl x, c1) \<Rightarrow> (Inl x, c1)
                | (Inr _, c1) \<Rightarrow>
                    (let dryRun = (case cr_state c1 of Some v \<Rightarrow> cs_dry_run (vcs_state v) | None \<Rightarrow> False);
                         addOpts = runtimeInputAddOpts runtimeInputs
                     in case (if dryRun then Inr () else ad_cas_backend ad) of
                          Inl x \<Rightarrow> (Inl (Wrapf ''failed to get CAS backend: %w'' [] x), c1)
                        | Inr _ \<Rightarrow>
                            (case shouldExplode ad materialType materialValue of
                               Inl x \<Rightarrow> (Inl (Wrapf ''detecting archive: %w'' [] x), c1)
                             | Inr True \<Rightarrow>
                                 (let (added, c2) = AddMaterialsFromArchive ck sm (withSourceArchiveEvidence addOpts)
                                        attestationID materialType materialName materialValue annotations c1
                                  in (convert_archive ad added, c2))
                             | Inr False \<Rightarrow>
                                 add_and_record ck ad sm addOpts attestationID materialName materialValue materialType
                                   annotations policyInputFiles c1)))))"

section \<open>The invariant of the crafting state\<close>

text \<open>
  One material per name and stored under its own id, evaluations only of the attestation and of
  materials that are there, those of the attestation first.
\<close>

definition crafting_inv :: "attestation \<Rightarrow> bool" where
  "crafting_inv att \<longleftrightarrow> gm_wf (att_materials att) \<and> (\<forall>(k, m)\<in>set (att_materials att). mat_id m = k) \<and>
     evaluations_owned att \<and> attestation_first (att_evaluations att)"

text \<open>The contract's rule for names of materials, which validation enforces: they are not empty.\<close>

definition names_validated :: "crafter_env \<Rightarrow> bool" where
  "names_validated ck = (\<forall>m. ck_validate_schema_material ck m = Inr () \<longrightarrow> sm_name m \<noteq> [])"

lemma attestation_first_iff:
  "attestation_first evs \<longleftrightarrow>
     (\<exists>as ms. evs = as @ ms \<and> (\<forall>e\<in>set as. about_attestation e) \<and> (\<forall>e\<in>set ms. \<not> about_attestation e))"
proof
  assume "attestation_first evs"
  then show "\<exists>as ms. evs = as @ ms \<and> (\<forall>e\<in>set as. about_attestation e) \<and> (\<forall>e\<in>set ms. \<not> about_attestation e)"
    unfolding attestation_first_def 
    by (intro exI [of _ "filter about_attestation evs"] exI [of _ "filter (\<lambda>e. \<not> about_attestation e) evs"]) simp
next
  assume "\<exists>as ms. evs = as @ ms \<and> (\<forall>e\<in>set as. about_attestation e) \<and> (\<forall>e\<in>set ms. \<not> about_attestation e)"
  then show "attestation_first evs" by (auto simp: attestation_first_def filter_empty_conv)
qed

lemma attestation_first_filter: "attestation_first evs \<Longrightarrow> attestation_first (filter P evs)"
  unfolding attestation_first_iff by (metis (mono_tags, lifting) filter_append filter_is_subset subsetD)

lemma attestation_first_append:
  assumes "attestation_first evs" and "\<forall>e\<in>set es. \<not> about_attestation e"
  shows "attestation_first (evs @ es)"
proof -
  have "filter about_attestation es = []" "filter (\<lambda>e. \<not> about_attestation e) es = es"
    using assms(2) by (simp_all add: filter_empty_conv)
  with assms(1) show ?thesis by (simp add: attestation_first_def)
qed

lemma update_material_id:
  assumes "gm_wf al" and "\<forall>(k, m)\<in>set al. mat_id m = k" and "mat_id mt = n"
  shows "\<forall>(k, m)\<in>set (AList.update n mt al). mat_id m = k"
proof -
  have "mat_id m = k" if "map_of (AList.update n mt al) k = Some m" for k m
    using that assms(2,3) by (auto simp: update_conv' split: if_splits dest: map_of_SomeD)
  moreover have "distinct (map fst (AList.update n mt al))"
    using assms(1) by (simp add: gm_wf_def distinct_update)
  ultimately show ?thesis by auto
qed

lemma crafting_inv_put:
  assumes "crafting_inv att" and "mat_id mt = n" and "n \<noteq> []" and "\<forall>e\<in>set evs. pe_material_name e = n"
  shows "crafting_inv (put_material n mt (append_evaluations evs (drop_evaluations n att)))"
proof -
  let ?kept = "filter (\<lambda>e. pe_material_name e \<noteq> n) (att_evaluations att)"
  have "attestation_first (?kept @ evs)"
    using assms by (intro attestation_first_append attestation_first_filter) (auto simp: crafting_inv_def)
  moreover have "\<forall>(k, m)\<in>set (AList.update n mt (att_materials att)). mat_id m = k"
    using assms by (intro update_material_id) (auto simp: crafting_inv_def)
  ultimately show ?thesis
    using assms
    by (auto simp: crafting_inv_def put_material_def append_evaluations_def drop_evaluations_def evaluations_owned_def
        dom_update)
qed

lemma crafting_inv_extended:
  assumes "crafting_inv att" and "distinct (map fst ms)" and "\<forall>n\<in>set (map fst ms). dns_name n \<and> n \<notin> fst ` set (att_materials att)"
    and "map mat_id (map snd ms) = map fst ms" and "\<forall>e\<in>set evs. pe_material_name e \<in> set (map fst ms)"
    and "evaluations_owned (extended ms evs att)"
  shows "crafting_inv (extended ms evs att)"
proof -
  have "mat_id m = k" if "(k, m) \<in> set ms" for k m
    using assms(4) that by (auto simp: map_eq_conv)
  moreover have "\<forall>e\<in>set evs. \<not> about_attestation e" using assms(3,5) by (metis dns_name_def)
  then have "attestation_first (att_evaluations att @ evs)"
    using assms(1) by (intro attestation_first_append) (simp_all add: crafting_inv_def)
  moreover have "fst ` set (att_materials att) \<inter> set (map fst ms) = {}" using assms(3) by blast
  then have "gm_wf (att_materials att @ ms)"
    using assms(1,2) by (simp add: crafting_inv_def gm_wf_def)
  ultimately show ?thesis using assms(1,6) by (auto simp: crafting_inv_def extended_def)
qed

lemma crafting_inv_merged:
  assumes "crafting_inv (v_attestation v)" and "att_materials (v_attestation w) = att_materials (v_attestation v)"
    and "merged_ok evaluated (att_evaluations (v_attestation v)) (att_evaluations (v_attestation w))"
    and "\<forall>e\<in>set evaluated. about_attestation e"
  shows "crafting_inv (v_attestation w)"
proof -
  have "attestation_first (att_evaluations (v_attestation w))"
    and sub: "set (att_evaluations (v_attestation w)) \<subseteq> set evaluated \<union> set (att_evaluations (v_attestation v))"
    using assms(3) by (simp_all add: merged_ok_def)
  moreover have "evaluations_owned (v_attestation w)"
    using assms(1,2,4) sub unfolding crafting_inv_def evaluations_owned_def by auto
  ultimately show ?thesis using assms(1,2) by (simp add: crafting_inv_def)
qed

lemma crafting_inv_reference:
  assumes "crafting_inv (v_attestation v)"
  shows "crafting_inv (v_attestation (reference_in_state s names v))"
proof -
  let ?al = "att_materials (v_attestation v)"
  let ?al' = "map (\<lambda>(k, m). (k, if k = s then addReference names m else m)) ?al"
  have "map fst (map (\<lambda>(k, m). (k, if k = s then addReference names m else m)) al) = map fst al" for al :: "material gomap"
    by (induction al) auto
  then have keys: "map fst ?al' = map fst ?al" .
  then have "fst ` set ?al' = fst ` set ?al" "gm_wf ?al' = gm_wf ?al" unfolding gm_wf_def by (metis set_map, metis)
  moreover have "\<forall>(k, m)\<in>set ?al'. mat_id m = k"
    using assms by (auto simp: crafting_inv_def addReference_def)
  ultimately show ?thesis
    using assms unfolding crafting_inv_def reference_in_state_def evaluations_owned_def by simp
qed

section \<open>The stored state after any sequence of commands\<close>

definition stored_ok :: "'h state_manager \<Rightarrow> string \<Rightarrow> 'h \<Rightarrow> bool" where
  "stored_ok sm key h = (\<forall>v. sm_Read sm h key = Inr v \<longrightarrow> crafting_inv (v_attestation v))"

definition mem_ok :: "'h crafter \<Rightarrow> bool" where
  "mem_ok c = (\<forall>v. cr_state c = Some v \<longrightarrow> crafting_inv (v_attestation v))"

text \<open>
  After a failure that is not a policy error, the copy in memory is still sound; after a policy
  error only the store is.
\<close>

definition outcome_ok :: "'h state_manager \<Rightarrow> ('h \<Rightarrow> bool) \<Rightarrow> string \<Rightarrow> 'a res \<Rightarrow> 'h crafter \<Rightarrow> bool" where
  "outcome_ok sm okh key r c \<longleftrightarrow> okh (cr_store c) \<and> stored_ok sm key (cr_store c) \<and>
     (mem_ok c \<or> (\<exists>x. r = Inl x \<and> errors_as is_policy_error x))"

lemma verify_on_error:
  "verify_groups_on ck v mt value content = Inl x \<Longrightarrow> errors_as is_policy_error x"
  "verify_policies_on ck v inputs mt value content = Inl x \<Longrightarrow> errors_as is_policy_error x"
  by (auto simp: verify_groups_on_def verify_policies_on_def case_prod_beta map_err_eq_Inl
      dest!: group_VerifyMaterial_error VerifyMaterial_error)

lemma stage_other_failure:
  assumes "stageMaterial ck opts m value ra v = (Inl x, v')" and "\<not> errors_as is_policy_error x"
  shows "v' = v"
  using assms by (auto simp: stageMaterial_def Let_def split: sum.splits dest: verify_on_error)

lemma stage_named:
  assumes "stageMaterial ck opts m value ra v = (Inr mt, v')" and "names_validated ck"
  shows "sm_name m \<noteq> []"
proof -
  obtain crafted where "craft_annotated ck m value ra = Inr crafted"
    using assms(1) by (auto simp: stageMaterial_def split: sum.splits)
  then have "ck_validate_schema_material ck m = Inr ()"
    by (auto simp: craft_annotated_def Craft_def bind_res_eq_Inr)
  with assms(2) show ?thesis by (simp add: names_validated_def)
qed

lemma crafting_inv_empty [simp]: "crafting_inv empty_attestation"
  by (simp add: crafting_inv_def empty_attestation_def evaluations_owned_def attestation_first_def)

lemma complete_archive_inv:
  assumes "crafting_inv (v_attestation v)" and "complete_archive ck path v ms evs"
  shows "crafting_inv (v_attestation (set_attestation (extended ms evs) v))"
proof -
  have a: "distinct (map fst ms)" "\<forall>n\<in>set (map fst ms). dns_name n \<and> n \<notin> fst ` set (att_materials (v_attestation v))"
    "map mat_id (map snd ms) = map fst ms" "\<forall>e\<in>set evs. pe_material_name e \<in> set (map fst ms)"
    using assms(2) unfolding complete_archive_def by blast+
  have "evaluations_owned (v_attestation v)" using assms(1) by (simp add: crafting_inv_def)
  with a(4) have "evaluations_owned (extended ms evs (v_attestation v))"
    by (auto simp: evaluations_owned_def extended_def image_Un simp flip: set_map)
  from crafting_inv_extended [OF assms(1) a this] show ?thesis by simp
qed

context state_store
begin

lemma write_state_ok:
  assumes "write_state sm key v c = (r, c')" and "crafting_inv (v_attestation v)"
    and "okh (cr_store c)" and "stored_ok sm key (cr_store c)" and "\<forall>s. good s"
  shows "okh (cr_store c') \<and> stored_ok sm key (cr_store c') \<and> mem_ok c'"
proof -
  obtain w h where w: "sm_Write sm (cr_store c) key v = (w, h)" by fastforce
  then have okh: "okh h" using write_ok [OF assms(3), of key v] by simp
  show ?thesis
  proof (cases w)
    case (Inl x)
    then show ?thesis
      using assms(1,2,4,5) w okh write_failed [OF assms(3), of v key x h]
      by (auto simp: write_state_def stored_ok_def mem_ok_def)
  next
    case (Inr u)
    then obtain d where "sm_Read sm h key = Inr \<lparr>vcs_state = vcs_state v, vcs_checksum = d\<rparr>"
      using read_written [of "cr_store c" v key u h] w assms(3,5) by blast
    then show ?thesis
      using assms(1,2) w Inr okh write_keeps [of "cr_store c" key v u h]
      by (auto simp: write_state_def stored_ok_def mem_ok_def)
  qed
qed

lemma addMaterial_ok:
  assumes "addMaterial ck sm opts m key value ra v c = (r, c')" and "crafting_inv (v_attestation v)"
    and "okh (cr_store c)" and "stored_ok sm key (cr_store c)" and "\<forall>s. good s" and "names_validated ck"
  shows "outcome_ok sm okh key r c'"
proof -
  obtain s v' where st: "stageMaterial ck opts m value ra v = (s, v')" by fastforce
  show ?thesis
  proof (cases s)
    case (Inl x)
    then show ?thesis
      using assms st stage_other_failure [of ck opts m "value" ra v x v'] by (auto simp: addMaterial_def outcome_ok_def mem_ok_def)
  next
    case (Inr mt)
    obtain evs where "mat_id mt = sm_name m" "\<forall>e\<in>set evs. pe_material_name e = sm_name m"
      "v' = set_attestation (\<lambda>att. put_material (sm_name m) mt (append_evaluations evs (drop_evaluations (sm_name m) att))) v"
      using st Inr by (auto elim: stage_success)
    then have "crafting_inv (v_attestation v')"
      using crafting_inv_put [OF assms(2)] stage_named [of ck opts m "value" ra v mt v'] st Inr assms(6) by simp
    moreover obtain r1 c1 where wr: "write_state sm key v' c = (r1, c1)" by fastforce
    ultimately show ?thesis
      using write_state_ok [OF wr] assms st Inr by (auto simp: addMaterial_def outcome_ok_def)
  qed
qed

lemma AddMaterialContractFree_ok:
  assumes "AddMaterialContractFree ck sm opts key kind name value ra c = (r, c')"
    and "okh (cr_store c)" and "stored_ok sm key (cr_store c)" and "mem_ok c" and "\<forall>s. good s" and "names_validated ck"
  shows "outcome_ok sm okh key r c'"
  using assms addMaterial_ok
  by (fastforce simp: AddMaterialContractFree_def outcome_ok_def mem_ok_def split: option.splits sum.splits)

lemma AddMaterialFromContract_ok:
  assumes "AddMaterialFromContract ck sm opts key name value ra c = (r, c')"
    and "okh (cr_store c)" and "stored_ok sm key (cr_store c)" and "mem_ok c" and "\<forall>s. good s" and "names_validated ck"
  shows "outcome_ok sm okh key r c'"
  using assms addMaterial_ok
  by (fastforce simp: AddMaterialFromContract_def outcome_ok_def mem_ok_def split: option.splits)

lemma probe_kinds_ok:
  assumes "probe_kinds ck sm opts key name value ra kinds c = (r, c')"
    and "okh (cr_store c)" and "stored_ok sm key (cr_store c)" and "mem_ok c" and "\<forall>s. good s" and "names_validated ck"
  shows "outcome_ok sm okh key r c'"
  using assms(1-4)
proof (induction kinds arbitrary: c)
  case Nil
  then show ?case by (simp add: outcome_ok_def)
next
  case (Cons kind kinds)
  obtain r1 c1 where add: "AddMaterialContractFree ck sm opts key (ck_kind_name ck kind) name value ra c = (r1, c1)" by fastforce
  from AddMaterialContractFree_ok [OF add Cons.prems(2-4) assms(5,6)] have ok: "outcome_ok sm okh key r1 c1" .
  show ?case
  proof (cases "\<exists>x. r1 = Inl x \<and> \<not> stops_probing ck x")
    case True
    with ok have "okh (cr_store c1)" "stored_ok sm key (cr_store c1)" "mem_ok c1"
      by (auto simp: outcome_ok_def stops_probing_def)
    with Cons.IH [of c1] Cons.prems(1) True add show ?thesis by auto
  next
    case False
    with ok Cons.prems(1) add show ?thesis by (auto split: sum.splits if_splits)
  qed
qed

lemma archive_ok:
  assumes "AddMaterialsFromArchive ck sm opts key kind pfx path ra c = (r, c')"
    and "okh (cr_store c)" and "stored_ok sm key (cr_store c)" and "mem_ok c" and "\<forall>s. good s"
  shows "outcome_ok sm okh key r c'"
proof (cases "cr_state c")
  case None
  then show ?thesis using assms by (auto simp: AddMaterialsFromArchive_def outcome_ok_def)
next
  case (Some v)
  then have inv: "crafting_inv (v_attestation v)" using assms(4) by (simp add: mem_ok_def)
  then have owned: "evaluations_owned (v_attestation v)" by (simp add: crafting_inv_def)
  have okh: "okh (cr_store c')"
    using assms(1,2) write_ok [OF assms(2)]
    by (auto simp: AddMaterialsFromArchive_def write_state_def Let_def split: option.splits sum.splits list.splits prod.splits)
      (metis snd_conv)+
  show ?thesis
  proof (cases r)
    case (Inl x)
    then have a: "cr_state c' = Some v" "all_or_nothing sm torn ck path key v (cr_store c) (cr_store c')"
      using archive_atomic [OF _ Some owned assms(2,5)] assms(1) by blast+
    have "stored_ok sm key (cr_store c')"
      using a(2) assms(3) complete_archive_inv [OF inv, of ck path]
      by (auto simp: all_or_nothing_def stored_ok_def)
    with a(1) inv okh show ?thesis by (auto simp: outcome_ok_def mem_ok_def)
  next
    case (Inr mts)
    obtain names w ms evs where "distinct (map fst ms)"
      "\<forall>n\<in>set (map fst ms). dns_name n \<and> n \<notin> fst ` set (att_materials (v_attestation v))"
      "map mat_id (map snd ms) = map fst ms" "\<forall>e\<in>set evs. pe_material_name e \<in> set (map fst ms)" and w: "cr_state c' = Some w"
      "v_attestation w = extended ms evs (v_attestation v)" "evaluations_owned (v_attestation w)"
      using archive_success [OF _ Some owned] assms(1) Inr by metis
    then have "crafting_inv (v_attestation w)" using crafting_inv_extended [OF inv] by simp
    moreover have "\<exists>d. sm_Read sm (cr_store c') key = Inr \<lparr>vcs_state = vcs_state w, vcs_checksum = d\<rparr>"
      using assms(1) Some Inr w(1) read_written [OF assms(2)] assms(5) write_keeps
      by (auto simp: AddMaterialsFromArchive_def write_state_def Let_def split: option.splits sum.splits list.splits prod.splits)
    ultimately show ?thesis using okh w(1) Inr by (auto simp: outcome_ok_def stored_ok_def mem_ok_def)
  qed
qed

lemma add_evidence_ok:
  assumes "add_evidence ck sm key subject pifs c = (r, c')"
    and "okh (cr_store c)" and "stored_ok sm key (cr_store c)" and "mem_ok c" and "\<forall>s. good s" and "names_validated ck"
  shows "okh (cr_store c') \<and> stored_ok sm key (cr_store c')"
  using assms(1-4)
proof (induction pifs arbitrary: c)
  case (Cons p pifs)
  obtain pif name where p: "p = (pif, name)" by fastforce
  obtain r1 c1 where add: "AddMaterialContractFree ck sm (runtimeInputAddOpts None) key (ck_kind_name ck EVIDENCE) name (pif_file pif)
      [(AnnotationMaterialReferences, subject), (AnnotationPolicyInput, pif_input pif)] c = (r1, c1)" by fastforce
  have "outcome_ok sm okh key r1 c1"
    using AddMaterialContractFree_ok [OF add Cons.prems(2-4) assms(5,6)] .
  with Cons p add show ?case by (auto simp: outcome_ok_def split: sum.splits)
qed simp

lemma add_single_ok:
  assumes "add_single ck sm opts key name value kind ra c = (r, c')"
    and "okh (cr_store c)" and "stored_ok sm key (cr_store c)" and "mem_ok c" and "\<forall>s. good s" and "names_validated ck"
  shows "outcome_ok sm okh key r c'"
  using assms(1) probe_kinds_ok [OF _ assms(2-)] AddMaterialFromContract_ok [OF _ assms(2-)]
    AddMaterialContractFree_ok [OF _ assms(2-)]
  by (auto simp: add_single_def AddMaterialContactFreeWithAutoDetectedKind_def split: if_splits)

lemma add_and_record_ok:
  assumes "add_and_record ck ad sm opts key name value kind ra pifs c = (r, c')"
    and "okh (cr_store c)" and "stored_ok sm key (cr_store c)" and "mem_ok c" and "\<forall>s. good s" and "names_validated ck"
  shows "okh (cr_store c') \<and> stored_ok sm key (cr_store c')"
proof -
  obtain r1 c1 where single: "add_single ck sm opts key name value kind ra c = (r1, c1)" by fastforce
  have ok: "outcome_ok sm okh key r1 c1" using add_single_ok [OF single assms(2-)] .
  show ?thesis
  proof (cases r1)
    case (Inl x)
    with assms(1) single ok show ?thesis by (auto simp: add_and_record_def outcome_ok_def)
  next
    case (Inr mt)
    obtain r2 c2 where ev: "addPolicyInputEvidence ck sm key mt pifs c1 = (r2, c2)" by fastforce
    have c1: "mem_ok c1" "okh (cr_store c1)" "stored_ok sm key (cr_store c1)"
      using ok Inr by (simp_all add: outcome_ok_def)
    then have "mem_ok (c1\<lparr>cr_state := map_option (reference_in_state s names) (cr_state c1)\<rparr>)" for s names
      using crafting_inv_reference by (auto simp: mem_ok_def)
    with add_evidence_ok [OF ev [unfolded addPolicyInputEvidence_def Let_def]] c1(2,3) assms(5,6)
    have "okh (cr_store c2) \<and> stored_ok sm key (cr_store c2)" by simp
    with assms(1) single Inr ev show ?thesis by (auto simp: add_and_record_def split: sum.splits)
  qed
qed

lemma LoadCraftingState_ok:
  assumes "LoadCraftingState sm key c = (r, c')" and "stored_ok sm key (cr_store c)"
  shows "mem_ok c' \<and> cr_store c' = cr_store c"
  using assms by (auto simp: LoadCraftingState_def stored_ok_def mem_ok_def empty_versioned_def split: sum.splits)

lemma AttestationAdd_Run_ok:
  assumes "AttestationAdd_Run ck ad sm key name value kind ra pifs pins h = (r, c')"
    and "okh h" and "stored_ok sm key h" and "\<forall>s. good s" and "names_validated ck"
  shows "okh (cr_store c') \<and> stored_ok sm key (cr_store c')"
proof -
  obtain l c1 where load: "LoadCraftingState sm key \<lparr>cr_state = None, cr_store = h\<rparr> = (l, c1)" by fastforce
  have c1: "mem_ok c1" "okh (cr_store c1)" "stored_ok sm key (cr_store c1)"
    using LoadCraftingState_ok [OF load] assms(2,3) by simp_all
  have a: "okh (cr_store c2) \<and> stored_ok sm key (cr_store c2)"
    if "AddMaterialsFromArchive ck sm (withSourceArchiveEvidence (runtimeInputAddOpts ri)) key kind name value ra c1 = (r2, c2)"
    for ri r2 c2
    using archive_ok [OF that c1(2,3,1) assms(4)] by (simp add: outcome_ok_def)
  have s: "okh (cr_store c2) \<and> stored_ok sm key (cr_store c2)"
    if "add_and_record ck ad sm (runtimeInputAddOpts ri) key name value kind ra pifs c1 = (r2, c2)" for ri r2 c2
    using add_and_record_ok [OF that c1(2,3,1) assms(4,5)] .
  show ?thesis
    using assms(1-3) load c1(2,3)
    by (auto simp: AttestationAdd_Run_def Let_def split: sum.splits bool.splits if_splits prod.splits dest: a s)
qed

lemma evaluate_ok:
  assumes "EvaluateAttestationPolicies ck sm key json phase v c = (r, c')" and "crafting_inv (v_attestation v)"
    and "okh (cr_store c)" and "stored_ok sm key (cr_store c)" and "\<forall>s. good s"
  shows "okh (cr_store c') \<and> stored_ok sm key (cr_store c')"
proof -
  obtain pv st where pv: "crafter_verifier ck v [pv_WithEvalPhase phase] = (pv, st)" by fastforce
  show ?thesis
  proof (cases "\<exists>es gs. fst (VerifyStatement (ck_sched_policies ck) (ck_services ck) pv json st) = Inr es \<and>
      fst (group_VerifyStatement (ck_sched_groups ck) (ck_services ck) pv (GetPolicyGroups (vcs_state v)) json st) = Inr gs")
    case False
    then show ?thesis using assms(1,3,4) pv by (auto simp: EvaluateAttestationPolicies_def split: sum.splits)
  next
    case True
    then obtain es gs where es: "fst (VerifyStatement (ck_sched_policies ck) (ck_services ck) pv json st) = Inr es"
      and gs: "fst (group_VerifyStatement (ck_sched_groups ck) (ck_services ck) pv (GetPolicyGroups (vcs_state v)) json st) = Inr gs"
      by blast
    let ?w = "set_attestation (\<lambda>att. att\<lparr>att_evaluations := merge_evaluations (es @ gs) (att_evaluations att)\<rparr>) v"
    have about: "\<forall>e\<in>set (es @ gs). about_attestation e"
      using VerifyStatement_subject [OF es] group_VerifyStatement_subject [OF gs] by auto
    have "crafting_inv (v_attestation ?w)"
      using assms(2) about by (intro crafting_inv_merged [OF assms(2)])
        (auto intro!: merge_evaluations_ok simp: crafting_inv_def)
    moreover have "write_state sm key ?w c = (r, c')"
      using assms(1) pv es gs by (simp add: EvaluateAttestationPolicies_def)
    ultimately show ?thesis using write_state_ok assms(3-5) by blast
  qed
qed

end

section \<open>Names of the evidence materials\<close>

text \<open>
  The suffixes do not always keep the names apart: two inputs of one name and a third whose name ends
  like a suffix collide, and the evidence of the third replaces that of the first.
\<close>

lemma evidence_names_collide:
  "policyInputEvidenceNames ''m'' (map (\<lambda>n. \<lparr>pif_policy = [], pif_input = n, pif_file = [], pif_column = []\<rparr>) [''a'', ''a'', ''a-1'']) =
     [''m-a-1'', ''m-a-2'', ''m-a-1'']"
  by code_simp

end
