(* ===== verification/Attestation_Session.thy ===== *)
theory Attestation_Session
  imports Attestation_Add
begin

text \<open>
  A whole attestation, from one command to the next: each command is a process of its own that loads
  the crafting state from the store, works on its copy and writes it back. A run is any sequence of
  these commands, failed ones included, against one state manager: starting the attestation, adding
  materials or a whole archive, evaluating the policies of the attestation, pushing it, and resetting
  it. The collectors that run at the end of the start of an attestation are not among them.
\<close>

section \<open>Commands\<close>

text \<open>
  Of \<open>attestation init\<close> (\<open>app/cli/pkg/action/attestation_init.go\<close>), the part that creates the state: when
  the environment cannot be resolved the state is reset again, unless this is a dry run.
\<close>

definition init_crafting_state ::
  "'h state_manager \<Rightarrow> unit res \<Rightarrow> runner \<Rightarrow> (string \<Rightarrow> string) \<Rightarrow> init_opts \<Rightarrow> string \<Rightarrow> 'h \<Rightarrow> string res \<times> 'h crafter" where
  "init_crafting_state sm head rn getenv opts attestationID h =
     (case crafter_Init sm head opts attestationID \<lparr>cr_state = None, cr_store = h\<rparr> of
        (Inl x, c) \<Rightarrow> (Inl x, c)
      | (Inr _, c) \<Rightarrow>
          (case ResolveEnvVars sm rn getenv attestationID c of
             (Inl x, c') \<Rightarrow>
               if io_dry_run opts then (Inr [], c')
               else (Inl x, c'\<lparr>cr_store := snd (sm_Reset sm (cr_store c') attestationID)\<rparr>)
           | (Inr _, c') \<Rightarrow> (Inr attestationID, c')))"

text \<open>
  \<open>attestation reset\<close>. \<open>cancel\<close> is what cancelling the run in the control plane answers: nothing, or an
  error and whether it says that there is no such run.
\<close>

definition AttestationReset_Run ::
  "'h state_manager \<Rightarrow> string \<Rightarrow> (err \<times> bool) option \<Rightarrow> 'h \<Rightarrow> unit res \<times> 'h" where
  "AttestationReset_Run sm attestationID cancel h =
     (case sm_Initialized sm h attestationID of
        Inl x \<Rightarrow> (Inl (Wrapf ''checking if attestation is already initialized: %w'' [] x), h)
      | Inr False \<Rightarrow> (Inl ErrAttestationNotInitialized, h)
      | Inr True \<Rightarrow>
          (case LoadCraftingState sm attestationID \<lparr>cr_state = None, cr_store = h\<rparr> of
             (Inl x, c) \<Rightarrow> (Inl x, cr_store c)
           | (Inr _, c) \<Rightarrow>
               let dry = (case cr_state c of Some v \<Rightarrow> cs_dry_run (vcs_state v) | None \<Rightarrow> False) in
               (case (if dry then None else cancel) of
                  Some (x, False) \<Rightarrow> (Inl x, cr_store c)
                | _ \<Rightarrow> sm_Reset sm (cr_store c) attestationID)))"

text \<open>
  \<open>attestation push\<close> (\<open>app/cli/pkg/action/attestation_push.go\<close>). Annotations of the contract and those already
  set are kept, the ones given at run time fill the others. \<open>status\<close> is the outcome of the status command,
  \<open>prepare\<close> that of the signer, the renderer and the statement, \<open>send\<close> that of rendering, signing, sending and
  saving the bundle. Only the policies' results are stored, and after a push the state is reset.
\<close>

definition push_annotations :: "string gomap \<Rightarrow> versioned \<Rightarrow> string gomap" where
  "push_annotations runtimeAnnotations v =
     add_runtime_annotations runtimeAnnotations
       (fold (\<lambda>(k, x) acc. AList.update k x acc) (att_annotations (v_attestation v))
         (fold (\<lambda>a acc. AList.update (ann_name a) (ann_value a) acc) (cs_GetAnnotations (vcs_state v)) []))"

definition push_loaded ::
  "crafter_env \<Rightarrow> 'h state_manager \<Rightarrow> string \<Rightarrow> string gomap \<Rightarrow> bool \<Rightarrow> unit res \<Rightarrow> string res \<Rightarrow> unit res \<Rightarrow> versioned \<Rightarrow> 'h crafter \<Rightarrow>
     unit res \<times> 'h" where
  "push_loaded ck sm attestationID runtimeAnnotations bypass prepare statementJSON send v c =
     (let annotations = push_annotations runtimeAnnotations v;
          v1 = set_attestation (\<lambda>att. att\<lparr>att_annotations := annotations\<rparr>) v in
      case missing_annotation annotations of
        Some k \<Rightarrow> (Inl (Errorf ''annotations %q required'' [k]), cr_store c)
      | None \<Rightarrow>
          (case bind_res (ValidateAttestation ck (c\<lparr>cr_state := Some v1\<rparr>)) (\<lambda>_. prepare) of
             Inl x \<Rightarrow> (Inl x, cr_store c)
           | Inr _ \<Rightarrow>
               let v2 = set_attestation (\<lambda>att. att\<lparr>att_bypass_policy_check := bypass\<rparr>) v1 in
               (case EvaluateAttestationPolicies ck sm attestationID statementJSON EvalPhasePush v2 (c\<lparr>cr_state := Some v2\<rparr>) of
                  (Inl x, c') \<Rightarrow> (Inl (Wrapf ''evaluating attestation policies: %w'' [] x), cr_store c')
                | (Inr _, c') \<Rightarrow>
                    (case send of
                       Inl x \<Rightarrow> (Inl x, cr_store c')
                     | Inr _ \<Rightarrow> sm_Reset sm (cr_store c') attestationID))))"

definition AttestationPush_Run ::
  "crafter_env \<Rightarrow> 'h state_manager \<Rightarrow> string \<Rightarrow> string gomap \<Rightarrow> bool \<Rightarrow> unit res \<Rightarrow> unit res \<Rightarrow> string res \<Rightarrow> unit res \<Rightarrow> 'h \<Rightarrow>
     unit res \<times> 'h" where
  "AttestationPush_Run ck sm attestationID runtimeAnnotations bypass status prepare statementJSON send h =
     (case sm_Initialized sm h attestationID of
        Inl x \<Rightarrow> (Inl (Wrapf ''checking if attestation is already initialized: %w'' [] x), h)
      | Inr False \<Rightarrow> (Inl ErrAttestationNotInitialized, h)
      | Inr True \<Rightarrow>
          (case status of
             Inl x \<Rightarrow> (Inl (Wrapf ''creating running status action: %w'' [] x), h)
           | Inr _ \<Rightarrow>
               (case LoadCraftingState sm attestationID \<lparr>cr_state = None, cr_store = h\<rparr> of
                  (Inl x, c) \<Rightarrow> (Inl x, cr_store c)
                | (Inr _, c) \<Rightarrow>
                    (case cr_state c of
                       None \<Rightarrow> (Inl ErrAttestationStateNotLoaded, cr_store c)
                     | Some v \<Rightarrow> push_loaded ck sm attestationID runtimeAnnotations bypass prepare statementJSON send v c))))"

inductive cli_step :: "'h state_manager \<Rightarrow> string \<Rightarrow> 'h \<Rightarrow> 'h \<Rightarrow> bool" for sm key where
  init: "init_crafting_state sm head rn getenv opts key h = (r, c) \<Longrightarrow> cli_step sm key h (cr_store c)"
| add: "names_validated ck \<Longrightarrow>
     AttestationAdd_Run ck ad sm key name value kind anns pifs pins h = (r, c) \<Longrightarrow> cli_step sm key h (cr_store c)"
| evaluate: "LoadCraftingState sm key \<lparr>cr_state = None, cr_store = h\<rparr> = (Inr (), c) \<Longrightarrow> cr_state c = Some v \<Longrightarrow>
     EvaluateAttestationPolicies ck sm key json phase v c = (r, c') \<Longrightarrow> cli_step sm key h (cr_store c')"
| push: "AttestationPush_Run ck sm key anns bypass status prepare json send h = (q, h') \<Longrightarrow> cli_step sm key h h'"
| reset: "AttestationReset_Run sm key cancel h = (q, h') \<Longrightarrow> cli_step sm key h h'"

inductive cli_run :: "'h state_manager \<Rightarrow> string \<Rightarrow> 'h \<Rightarrow> 'h \<Rightarrow> bool" for sm key where
  start: "cli_run sm key h h"
| command: "cli_run sm key h h' \<Longrightarrow> cli_step sm key h' h'' \<Longrightarrow> cli_run sm key h h''"

section \<open>The stored state stays sound\<close>

lemma initial_inv: "initialCraftingState head opts = Inr st \<Longrightarrow> crafting_inv (cs_attestation st)"
  by (auto simp: initialCraftingState_def bind_res_eq_Inr crafting_inv_def evaluations_owned_def attestation_first_def
      empty_attestation_def split: option.splits if_splits)

text \<open>
  Why the collectors are left out: when a policy of a material fails after the policy groups were
  evaluated, the copy in memory keeps the groups' evaluations without the material. A command that adds
  materials ends there; the start of an attestation goes on with the next collector, which stores them.
\<close>

lemma policy_failure_leaves_evaluations:
  assumes "craft_annotated ck m value ra = Inr crafted"
    and "verify_groups_on ck (set_attestation (drop_evaluations (sm_name m)) v) (crf_material crafted) value (crf_content crafted) = Inr gs"
    and "verify_policies_on ck (set_attestation (append_evaluations gs) (set_attestation (drop_evaluations (sm_name m)) v))
      (ao_runtime_inputs opts) (crf_material crafted) value (crf_content crafted) = Inl x"
  shows "fst (stageMaterial ck opts m value ra v) = Inl x \<and>
    att_materials (v_attestation (snd (stageMaterial ck opts m value ra v))) = att_materials (v_attestation v) \<and>
    set gs \<subseteq> set (att_evaluations (v_attestation (snd (stageMaterial ck opts m value ra v))))"
  using assms by (simp add: stageMaterial_def Let_def append_evaluations_def drop_evaluations_def)

context state_store
begin

lemma reset_keeps:
  assumes "sm_Reset sm h key = (r, h')" and "okh h" and "stored_ok sm key h"
  shows "okh h' \<and> stored_ok sm key h'"
proof -
  have "okh h'" using assms(1) reset_ok [OF assms(2), of key] by simp
  moreover have "sm_Read sm h' key = sm_Read sm h key \<or> (\<exists>x. sm_Read sm h' key = Inl x)"
    using assms(1) reset_failed [of h key _ h'] read_reset [of h key _ h'] by (cases r) blast+
  then have "stored_ok sm key h'" using assms(3) by (auto simp: stored_ok_def)
  ultimately show ?thesis ..
qed

lemma Init_ok:
  assumes "crafter_Init sm head opts key \<lparr>cr_state = None, cr_store = h\<rparr> = (r, c)"
    and "okh h" and "stored_ok sm key h" and "\<forall>s. good s"
  shows "okh (cr_store c) \<and> stored_ok sm key (cr_store c) \<and> mem_ok c"
proof (cases "\<exists>st. initialCraftingState head opts = Inr st \<and> (\<exists>w h1. sm_Write sm h key \<lparr>vcs_state = st, vcs_checksum = []\<rparr> = (w, h1) \<and>
    ((\<exists>x. w = Inl x) \<and> c = \<lparr>cr_state = None, cr_store = h1\<rparr> \<or>
     (\<exists>v. w = Inr v) \<and> (r, c) = LoadCraftingState sm key \<lparr>cr_state = None, cr_store = h1\<rparr>))")
  case True
  then obtain st w h1 where st: "initialCraftingState head opts = Inr st"
    and w: "sm_Write sm h key \<lparr>vcs_state = st, vcs_checksum = []\<rparr> = (w, h1)"
    and c: "(\<exists>x. w = Inl x) \<and> c = \<lparr>cr_state = None, cr_store = h1\<rparr> \<or>
      (\<exists>v. w = Inr v) \<and> (r, c) = LoadCraftingState sm key \<lparr>cr_state = None, cr_store = h1\<rparr>" by blast
  have "crafting_inv (cs_attestation st)" using st by (rule initial_inv)
  then have ok: "okh h1 \<and> stored_ok sm key h1"
    using write_state_ok [of key "\<lparr>vcs_state = st, vcs_checksum = []\<rparr>" "\<lparr>cr_state = None, cr_store = h\<rparr>"] w assms(2-4)
    by (cases w) (auto simp: write_state_def)
  with c LoadCraftingState_ok [of key "\<lparr>cr_state = None, cr_store = h1\<rparr>" r c] show ?thesis by (auto simp: mem_ok_def)
next
  case False
  then have "c = \<lparr>cr_state = None, cr_store = h\<rparr>"
    using assms(1) by (auto simp: crafter_Init_def initCraftingStateFile_def split: if_splits sum.splits prod.splits)
  with assms(2,3) show ?thesis by (simp add: mem_ok_def)
qed

lemma ResolveEnvVars_ok:
  assumes "ResolveEnvVars sm rn getenv key c = (r, c')"
    and "okh (cr_store c)" and "stored_ok sm key (cr_store c)" and "mem_ok c" and "\<forall>s. good s"
  shows "okh (cr_store c') \<and> stored_ok sm key (cr_store c')"
proof (cases "\<exists>v env. cr_state c = Some v \<and> write_state sm key (set_attestation (\<lambda>att. att\<lparr>att_env_vars := env\<rparr>) v) c = (r, c')")
  case True
  then obtain v env where v: "cr_state c = Some v"
    and w: "write_state sm key (set_attestation (\<lambda>att. att\<lparr>att_env_vars := env\<rparr>) v) c = (r, c')" by blast
  have "crafting_inv (v_attestation (set_attestation (\<lambda>att. att\<lparr>att_env_vars := env\<rparr>) v))"
    using v assms(4) by (simp add: mem_ok_def crafting_inv_def evaluations_owned_def)
  from write_state_ok [OF w this assms(2,3,5)] show ?thesis by blast
next
  case False
  then have "c' = c" using assms(1) by (auto simp: ResolveEnvVars_def split: option.splits sum.splits if_splits)
  with assms(2,3) show ?thesis by simp
qed

lemma init_ok:
  assumes "init_crafting_state sm head rn getenv opts key h = (r, c)" and "okh h" and "stored_ok sm key h" and "\<forall>s. good s"
  shows "okh (cr_store c) \<and> stored_ok sm key (cr_store c)"
proof -
  obtain q c1 where i: "crafter_Init sm head opts key \<lparr>cr_state = None, cr_store = h\<rparr> = (q, c1)" by fastforce
  note ok = Init_ok [OF i assms(2-4)]
  obtain q2 c2 where e: "ResolveEnvVars sm rn getenv key c1 = (q2, c2)" by fastforce
  have ok2: "okh (cr_store c2) \<and> stored_ok sm key (cr_store c2)"
    using ResolveEnvVars_ok [OF e] ok assms(4) by blast
  have "okh (snd (sm_Reset sm (cr_store c2) key)) \<and> stored_ok sm key (snd (sm_Reset sm (cr_store c2) key))"
    using reset_keeps [of "cr_store c2" key] ok2 by (metis prod.collapse)
  with assms(1) i e ok ok2 show ?thesis by (auto simp: init_crafting_state_def split: sum.splits if_splits)
qed

lemma cli_reset_ok:
  assumes "AttestationReset_Run sm key cancel h = (q, h')" and "okh h" and "stored_ok sm key h"
  shows "okh h' \<and> stored_ok sm key h'"
proof (cases "sm_Reset sm h key = (q, h')")
  case True
  then show ?thesis using reset_keeps assms(2,3) by blast
next
  case False
  have "cr_store c = h" if "LoadCraftingState sm key \<lparr>cr_state = None, cr_store = h\<rparr> = (l, c)" for l c
    using LoadCraftingState_ok [OF that] assms(3) by simp
  with False assms(1) have "h' = h"
    by (auto simp: AttestationReset_Run_def Let_def split: sum.splits bool.splits prod.splits option.splits if_splits)
  with assms(2,3) show ?thesis by simp
qed

lemma push_loaded_ok:
  assumes "push_loaded ck sm key anns bypass prepare json send v c = (q, h')" and "crafting_inv (v_attestation v)"
    and "okh (cr_store c)" and "stored_ok sm key (cr_store c)" and "\<forall>s. good s"
  shows "okh h' \<and> stored_ok sm key h'"
proof -
  let ?v = "set_attestation (\<lambda>att. att\<lparr>att_bypass_policy_check := bypass\<rparr>)
    (set_attestation (\<lambda>att. att\<lparr>att_annotations := push_annotations anns v\<rparr>) v)"
  obtain r1 c1 where e: "EvaluateAttestationPolicies ck sm key json EvalPhasePush ?v (c\<lparr>cr_state := Some ?v\<rparr>) = (r1, c1)" by fastforce
  have "crafting_inv (v_attestation ?v)" using assms(2) by (simp add: crafting_inv_def evaluations_owned_def)
  from evaluate_ok [OF e this] assms(3-5) have ok: "okh (cr_store c1) \<and> stored_ok sm key (cr_store c1)" by simp
  have "h' = cr_store c \<or> h' = cr_store c1 \<or> sm_Reset sm (cr_store c1) key = (q, h')"
    using assms(1) e by (auto simp: push_loaded_def Let_def split: option.splits sum.splits)
  then show ?thesis using ok assms(3,4) reset_keeps by blast
qed

lemma push_ok:
  assumes "AttestationPush_Run ck sm key anns bypass status prepare json send h = (q, h')"
    and "okh h" and "stored_ok sm key h" and "\<forall>s. good s"
  shows "okh h' \<and> stored_ok sm key h'"
proof (cases "\<exists>c v. LoadCraftingState sm key \<lparr>cr_state = None, cr_store = h\<rparr> = (Inr (), c) \<and> cr_state c = Some v \<and>
    push_loaded ck sm key anns bypass prepare json send v c = (q, h')")
  case True
  then obtain c v where l: "LoadCraftingState sm key \<lparr>cr_state = None, cr_store = h\<rparr> = (Inr (), c)" and v: "cr_state c = Some v"
    and p: "push_loaded ck sm key anns bypass prepare json send v c = (q, h')" by blast
  from LoadCraftingState_ok [OF l] assms(3) have c: "mem_ok c" "cr_store c = h" by simp_all
  then show ?thesis using push_loaded_ok [OF p] v assms(2-4) by (simp add: mem_ok_def)
next
  case False
  have "cr_store c = h" if "LoadCraftingState sm key \<lparr>cr_state = None, cr_store = h\<rparr> = (l, c)" for l c
    using LoadCraftingState_ok [OF that] assms(3) by simp
  with False assms(1) have "h' = h"
    by (auto simp: AttestationPush_Run_def split: sum.splits bool.splits prod.splits option.splits)
  with assms(2,3) show ?thesis by simp
qed

lemma cli_step_ok:
  assumes "cli_step sm key h h'" and "okh h" and "stored_ok sm key h" and "\<forall>s. good s"
  shows "okh h' \<and> stored_ok sm key h'"
  using assms(1)
proof cases
  case (init head rn getenv opts r c)
  with init_ok [OF init(2) assms(2-4)] show ?thesis by simp
next
  case (add ck ad name "value" kind anns pifs pins r c)
  with AttestationAdd_Run_ok [OF add(3) assms(2-4)] show ?thesis by simp
next
  case (evaluate c v ck json phase r c')
  from LoadCraftingState_ok [OF evaluate(2)] assms(3) have c: "mem_ok c" "cr_store c = h" by simp_all
  with evaluate(3) have "crafting_inv (v_attestation v)" by (simp add: mem_ok_def)
  with evaluate_ok [OF evaluate(4)] assms(2-4) c(2) evaluate(1) show ?thesis by simp
next
  case (push ck anns bypass status prepare json send q)
  with push_ok [OF push assms(2-4)] show ?thesis by simp
next
  case (reset cancel q)
  with cli_reset_ok [OF reset assms(2,3)] show ?thesis by simp
qed

lemma cli_run_ok:
  "cli_run sm key h h' \<Longrightarrow> okh h \<Longrightarrow> stored_ok sm key h \<Longrightarrow> \<forall>s. good s \<Longrightarrow> okh h' \<and> stored_ok sm key h'"
  by (induction rule: cli_run.induct) (blast dest: cli_step_ok)+

end

section \<open>Property\<close>

text \<open>
  C1. The invariant of the crafting state survives any sequence of the commands that start an
  attestation, add a material or an archive, evaluate its policies, push it and reset it, failed ones
  included, against the control plane and against a local file, also when a response of the control
  plane is lost or a write of the file stops half way. Whenever the stored state can be read, it has one
  material per name, stored under its own name, evaluations only of the attestation and of materials
  that are there, and those of the attestation first.
\<close>

theorem session_keeps_invariant:
  assumes "\<forall>s. proto_good se s" and "\<forall>s. json_good jc s" and "json_framed jc"
  shows "(cli_run (remote_manager se wid pass) key sr sr' \<and> good_random sr \<and> stored_ok (remote_manager se wid pass) key sr
            \<longrightarrow> stored_ok (remote_manager se wid pass) key sr') \<and>
         (cli_run (filesystem_manager jc path) key fs fs' \<and> stored_ok (filesystem_manager jc path) key fs
            \<longrightarrow> stored_ok (filesystem_manager jc path) key fs')"
  using remote_store.cli_run_ok [of se wid pass key sr sr'] filesystem_store.cli_run_ok [of jc path key fs fs'] assms by blast

end
