(* ===== verification/Attestation_Renderer.thy ===== *)
theory Attestation_Renderer
  imports Crafting_State
begin

text \<open>
  The rendered attestation (\<open>pkg/attestation/renderer/chainloop/v02.go\<close>, \<open>chainloop.go\<close> and
  \<open>policy_status.go\<close>): policy evaluations grouped by material with their counters, the decision
  whether the attestation is blocked, the status read back from a predicate and its categorical
  summary, the materials of the statement and their normalized form, and the gate the push command
  enforces (\<open>app/cli/cmd/attestation_push.go\<close>).

  \<open>structpb.NewStruct\<close> and the names of the material kinds come from \<open>content_env\<close>.
\<close>

section \<open>Rendering evaluations\<close>

record rendered_violation =
  rv_subject :: string
  rv_message :: string
  rv_suppress :: bool
  rv_finding :: "finding_msg option"

record reference_descriptor =
  rfd_name :: string
  rfd_uri :: string
  rfd_digest :: "string gomap"
  rfd_annotations :: "any_val gomap"

record rendered_evaluation =
  re_name :: string
  re_material_name :: string
  re_body :: string
  re_sources :: "string list"
  re_policy_ref :: "reference_descriptor option"
  re_description :: string
  re_annotations :: "string gomap"
  re_violations :: "rendered_violation list"
  re_with :: "string gomap"
  re_type :: string
  re_skipped :: bool
  re_skip_reasons :: "string list"
  re_group_ref :: "reference_descriptor option"
  re_requirements :: "string list"
  re_gate :: bool

definition trim_prefix :: "string \<Rightarrow> string \<Rightarrow> string" where
  "trim_prefix s p = (if prefix p s then drop (length p) s else s)"

definition renderReference :: "content_env \<Rightarrow> reference option \<Rightarrow> reference_descriptor option res" where
  "renderReference ce ref = (case ref of
       None \<Rightarrow> Inr None
     | Some r \<Rightarrow>
         let annotations = [(''name'', VString (rf_name r)), (''organization'', VString (rf_org r))] in
         bind_res (ce_new_struct ce annotations) (\<lambda>_.
         Inr (Some \<lparr>rfd_name = rf_name r, rfd_uri = rf_uri r,
                    rfd_digest = [(''sha256'', trim_prefix (rf_digest r) ''sha256:'')],
                    rfd_annotations = annotations\<rparr>)))"

definition renderEvaluation :: "content_env \<Rightarrow> policy_evaluation \<Rightarrow> bool \<Rightarrow> rendered_evaluation res" where
  "renderEvaluation ce ev includeSuppressed =
     (let violations = map (\<lambda>vi. \<lparr>rv_subject = av_subject vi, rv_message = av_message vi, rv_suppress = av_suppress vi,
                                 rv_finding = (if includeSuppressed then av_finding vi else None)\<rparr>)
                         (filter (\<lambda>vi. \<not> (av_suppress vi \<and> \<not> includeSuppressed)) (pe_violations ev))
      in bind_res (renderReference ce (Some (pe_policy_ref ev))) (\<lambda>policyRef.
         bind_res (renderReference ce (pe_group_ref ev)) (\<lambda>groupRef.
         Inr \<lparr>re_name = pe_name ev, re_material_name = pe_material_name ev, re_body = pe_body ev,
              re_sources = pe_sources ev, re_policy_ref = policyRef, re_description = pe_description ev,
              re_annotations = pe_annotations ev, re_violations = violations, re_with = pe_with ev,
              re_type = ce_type_name ce (pe_type ev), re_skipped = pe_skipped ev,
              re_skip_reasons = pe_skip_reasons ev, re_group_ref = groupRef,
              re_requirements = pe_requirements ev, re_gate = pe_gate ev\<rparr>)))"

section \<open>Grouping evaluations\<close>

record evaluations_result =
  evr_evaluations :: "rendered_evaluation list gomap"
  evr_has_violations :: bool
  evr_has_gated :: bool
  evr_has_gates :: bool
  evr_evaluations_count :: nat
  evr_violations_count :: nat
  evr_skipped_count :: nat
  evr_passed_count :: nat
  evr_suppressed_count :: nat

definition AttPolicyEvaluation :: string where
  "AttPolicyEvaluation = ''CHAINLOOP.ATTESTATION''"

definition active_violations :: "policy_evaluation \<Rightarrow> nat" where
  "active_violations p = length (filter (\<lambda>vi. \<not> av_suppress vi) (pe_violations p))"

definition suppressed_violations :: "policy_evaluation \<Rightarrow> nat" where
  "suppressed_violations p = length (filter av_suppress (pe_violations p))"

definition append_key :: "string \<Rightarrow> 'v \<Rightarrow> 'v list gomap \<Rightarrow> 'v list gomap" where
  "append_key k v m = AList.update k ((case map_of m k of None \<Rightarrow> [] | Some vs \<Rightarrow> vs) @ [v]) m"

text \<open>The counters after one evaluation.\<close>

definition count_evaluation :: "policy_evaluation \<Rightarrow> rendered_evaluation \<Rightarrow> evaluations_result \<Rightarrow> evaluations_result" where
  "count_evaluation p ev res =
     (let active = active_violations p;
          res = res\<lparr>evr_has_gates := (evr_has_gates res \<or> re_gate ev),
                    evr_suppressed_count := evr_suppressed_count res + suppressed_violations p\<rparr>
      in if active > 0 then
           res\<lparr>evr_has_violations := True, evr_violations_count := evr_violations_count res + active,
               evr_has_gated := (evr_has_gated res \<or> re_gate ev)\<rparr>
         else if re_skipped ev then res\<lparr>evr_skipped_count := evr_skipped_count res + 1\<rparr>
         else res\<lparr>evr_passed_count := evr_passed_count res + 1\<rparr>)"

definition group_evaluation ::
  "content_env \<Rightarrow> bool \<Rightarrow> policy_evaluation \<Rightarrow> evaluations_result \<Rightarrow> evaluations_result res" where
  "group_evaluation ce includeSuppressed p res =
     (let keyName = (if pe_material_name p = [] then AttPolicyEvaluation else pe_material_name p) in
      bind_res (renderEvaluation ce p includeSuppressed) (\<lambda>ev.
      let res = count_evaluation p ev res
      in Inr (res\<lparr>evr_evaluations := append_key keyName ev (evr_evaluations res)\<rparr>)))"

fun group_loop ::
  "content_env \<Rightarrow> bool \<Rightarrow> policy_evaluation list \<Rightarrow> evaluations_result \<Rightarrow> evaluations_result res" where
  "group_loop ce inc [] res = Inr res"
| "group_loop ce inc (p # ps) res = bind_res (group_evaluation ce inc p res) (group_loop ce inc ps)"

definition empty_result :: evaluations_result where
  "empty_result = \<lparr>evr_evaluations = [], evr_has_violations = False, evr_has_gated = False, evr_has_gates = False,
     evr_evaluations_count = 0, evr_violations_count = 0, evr_skipped_count = 0, evr_passed_count = 0,
     evr_suppressed_count = 0\<rparr>"

definition groupEvaluations :: "content_env \<Rightarrow> policy_evaluation list \<Rightarrow> bool \<Rightarrow> evaluations_result res" where
  "groupEvaluations ce evals includeSuppressed =
     bind_res (group_loop ce includeSuppressed evals empty_result) (\<lambda>res.
     Inr (res\<lparr>evr_evaluations_count := length evals\<rparr>))"

section \<open>The predicate\<close>

datatype blocking_strategy = Enforced | Advisory

text \<open>The policy part of \<open>ProvenancePredicateV02\<close>; \<open>pp_evaluations_ref\<close> is the digest of the bundle in the CAS.\<close>

record policy_predicate =
  pp_materials :: "resource_descriptor list"
  pp_evaluations :: "rendered_evaluation list gomap"
  pp_evaluations_ref :: "string option"
  pp_evaluations_fallback :: "rendered_evaluation list gomap"
  pp_has_violations :: bool
  pp_evaluations_count :: nat
  pp_violations_count :: nat
  pp_skipped_count :: nat
  pp_passed_count :: nat
  pp_suppressed_count :: nat
  pp_has_gated :: bool
  pp_has_gates :: bool
  pp_strategy :: blocking_strategy
  pp_bypass :: bool
  pp_blocked :: bool

definition sorted_keys :: "'v gomap \<Rightarrow> string list" where
  "sorted_keys m = sort (map fst m)"

fun output_loop ::
  "content_env \<Rightarrow> material gomap \<Rightarrow> bool \<Rightarrow> string list \<Rightarrow> resource_descriptor list res" where
  "output_loop ce ms onlyOutput [] = Inr []"
| "output_loop ce ms onlyOutput (k # ks) =
     (let mdef = the (map_of ms k) in
      bind_res (map_err (Wrapf ''error normalizing material: %w'' []) (NormalizedOutput mdef)) (\<lambda>n.
      if onlyOutput \<and> \<not> nm_is_output n then output_loop ce ms onlyOutput ks
      else
        bind_res (map_err (Wrapf ''rendering material: %w'' []) (CraftingStateToIntotoDescriptor ce mdef k)) (\<lambda>d.
        bind_res (output_loop ce ms onlyOutput ks) (\<lambda>ds. Inr (d # ds)))))"

definition outputMaterials :: "content_env \<Rightarrow> attestation \<Rightarrow> bool \<Rightarrow> resource_descriptor list res" where
  "outputMaterials ce att onlyOutput =
     output_loop ce (att_materials att) onlyOutput (sorted_keys (att_materials att))"

definition predicate :: "content_env \<Rightarrow> attestation \<Rightarrow> string option \<Rightarrow> policy_predicate res" where
  "predicate ce att evaluationsRef =
     bind_res (map_err (Wrapf ''error normalizing materials: %w'' []) (outputMaterials ce att False)) (\<lambda>materials.
     bind_res (map_err (Wrapf ''error rendering policy evaluations: %w'' [])
       (groupEvaluations ce (att_evaluations att) False)) (\<lambda>r.
     let strategy = (if att_block_on_violation att then Enforced else Advisory);
         blocked = (\<not> att_bypass_policy_check att \<and>
                    (evr_has_gated r \<or> (evr_has_violations r \<and> att_block_on_violation att)));
         hasGates = (evr_has_gates r \<or> strategy = Enforced)
     in Inr \<lparr>pp_materials = materials,
             pp_evaluations = (if evaluationsRef \<noteq> None then [] else evr_evaluations r),
             pp_evaluations_ref = evaluationsRef, pp_evaluations_fallback = [],
             pp_has_violations = evr_has_violations r, pp_evaluations_count = evr_evaluations_count r,
             pp_violations_count = evr_violations_count r, pp_skipped_count = evr_skipped_count r,
             pp_passed_count = evr_passed_count r, pp_suppressed_count = evr_suppressed_count r,
             pp_has_gated = evr_has_gated r, pp_has_gates = hasGates, pp_strategy = strategy,
             pp_bypass = att_bypass_policy_check att, pp_blocked = blocked\<rparr>))"

section \<open>The status read back\<close>

record evaluation_status =
  es_strategy :: blocking_strategy
  es_bypassed :: bool
  es_blocked :: bool
  es_has_violations :: bool
  es_has_gated :: bool
  es_has_gates :: bool
  es_evaluations_count :: nat
  es_violations_count :: nat
  es_skipped_count :: nat
  es_passed_count :: nat
  es_suppressed_count :: nat

definition count_inline :: "rendered_evaluation \<Rightarrow> nat \<times> nat \<times> bool \<Rightarrow> nat \<times> nat \<times> bool" where
  "count_inline ev acc = (case acc of (skipped, passed, hasGates) \<Rightarrow>
     let hasGates = (hasGates \<or> re_gate ev) in
     if re_violations ev \<noteq> [] then (skipped, passed, hasGates)
     else if re_skipped ev then (skipped + 1, passed, hasGates)
     else (skipped, passed + 1, hasGates))"

definition summarizeInlineEvaluations :: "rendered_evaluation list gomap \<Rightarrow> nat \<times> nat \<times> bool" where
  "summarizeInlineEvaluations evals = fold (\<lambda>(_, lst) acc. fold count_inline lst acc) evals (0, 0, False)"

definition GetPolicyEvaluationStatus :: "policy_predicate \<Rightarrow> evaluation_status" where
  "GetPolicyEvaluationStatus p =
     (let skipped = pp_skipped_count p; passed = pp_passed_count p; hasGates = pp_has_gates p;
          countersMissing = (skipped = 0 \<and> passed = 0 \<and> pp_evaluations_count p > 0);
          evals = (if pp_evaluations p = [] then pp_evaluations_fallback p else pp_evaluations p);
          (skipped, passed, hasGates) =
            (if (countersMissing \<or> \<not> hasGates) \<and> evals \<noteq> [] then
               (let (sc, pc, hg) = summarizeInlineEvaluations evals
                in if countersMissing then (sc, pc, hasGates \<or> hg) else (skipped, passed, hasGates \<or> hg))
             else (skipped, passed, hasGates));
          hasGates = (if \<not> hasGates \<and> pp_strategy p = Enforced then True else hasGates)
      in \<lparr>es_strategy = pp_strategy p, es_bypassed = pp_bypass p, es_blocked = pp_blocked p,
          es_has_violations = pp_has_violations p, es_has_gated = pp_has_gated p, es_has_gates = hasGates,
          es_evaluations_count = pp_evaluations_count p, es_violations_count = pp_violations_count p,
          es_skipped_count = skipped, es_passed_count = passed, es_suppressed_count = pp_suppressed_count p\<rparr>)"

datatype policy_status =
    PolicyStatusUnspecified | PolicyStatusNotApplicable | PolicyStatusPassed | PolicyStatusSkipped
  | PolicyStatusWarning | PolicyStatusBlocked | PolicyStatusBypassed

record status_summary =
  sum_status :: policy_status
  sum_total :: nat
  sum_passed :: nat
  sum_skipped :: nat
  sum_violated :: nat
  sum_has_gates :: bool
  sum_suppressed :: nat

definition DerivePolicyStatusSummary :: "evaluation_status option \<Rightarrow> status_summary" where
  "DerivePolicyStatusSummary st = (case st of
       None \<Rightarrow> \<lparr>sum_status = PolicyStatusNotApplicable, sum_total = 0, sum_passed = 0, sum_skipped = 0,
                sum_violated = 0, sum_has_gates = False, sum_suppressed = 0\<rparr>
     | Some s \<Rightarrow>
         if es_evaluations_count s = 0 then
           \<lparr>sum_status = PolicyStatusNotApplicable, sum_total = 0, sum_passed = 0, sum_skipped = 0,
            sum_violated = 0, sum_has_gates = False, sum_suppressed = 0\<rparr>
         else
           let enforced = (es_has_gated s \<or> es_strategy s = Enforced) in
           \<lparr>sum_status =
              (if enforced \<and> es_bypassed s then PolicyStatusBypassed
               else if enforced \<and> es_has_violations s then PolicyStatusBlocked
               else if es_has_violations s then PolicyStatusWarning
               else if es_skipped_count s > 0 then PolicyStatusSkipped
               else PolicyStatusPassed),
            sum_total = es_evaluations_count s, sum_passed = es_passed_count s,
            sum_skipped = es_skipped_count s, sum_violated = es_violations_count s,
            sum_has_gates = es_has_gates s, sum_suppressed = es_suppressed_count s\<rparr>)"

section \<open>Materials read back\<close>

record normalized_material =
  nmt_name :: string
  nmt_type :: string
  nmt_filename :: string
  nmt_value :: string
  nmt_hash :: "string option" \<comment> \<open>the hex of a SHA-256\<close>
  nmt_tag :: string
  nmt_uploaded :: bool
  nmt_inline :: bool
  nmt_annotations :: "string gomap"
  nmt_component :: "main_component option"

text \<open>
  \<open>structValueToString\<close>. Numbers keep their literal, and the JSON text of a list or an object is the
  parameter \<open>js\<close>.
\<close>

definition structValueToString :: "(any_val \<Rightarrow> string) \<Rightarrow> any_val \<Rightarrow> string" where
  "structValueToString js v = (case v of
       VString s \<Rightarrow> s
     | VBool b \<Rightarrow> (if b then ''true'' else ''false'')
     | VNumber n \<Rightarrow> n
     | VMap m \<Rightarrow> js (VMap m)
     | VList xs \<Rightarrow> js (VList xs)
     | VNil \<Rightarrow> [])"

definition GetStringValue :: "any_val \<Rightarrow> string" where
  "GetStringValue v = (case v of VString s \<Rightarrow> s | _ \<Rightarrow> [])"

definition GetBoolValue :: "any_val \<Rightarrow> bool" where
  "GetBoolValue v = (case v of VBool b \<Rightarrow> b | _ \<Rightarrow> False)"

definition string_annotation :: "any_val gomap \<Rightarrow> string \<Rightarrow> string" where
  "string_annotation m k = (case map_of m k of None \<Rightarrow> [] | Some v \<Rightarrow> GetStringValue v)"

definition bool_annotation :: "any_val gomap \<Rightarrow> string \<Rightarrow> bool" where
  "bool_annotation m k = (case map_of m k of None \<Rightarrow> False | Some v \<Rightarrow> GetBoolValue v)"

definition referenced_component :: "any_val gomap \<Rightarrow> main_component option" where
  "referenced_component m =
     (if string_annotation m AnnotationsSBOMMainComponentName \<noteq> [] then
        Some \<lparr>mc_name = string_annotation m AnnotationsSBOMMainComponentName,
              mc_kind = string_annotation m AnnotationsSBOMMainComponentType,
              mc_version = string_annotation m AnnotationsSBOMMainComponentVersion\<rparr>
      else None)"

text \<open>
  In a decoded descriptor an absent \<open>content\<close> is nil, which is how an empty one is written: an empty
  content and a missing one are not distinguished.
\<close>

definition normalizeMaterial ::
  "(any_val \<Rightarrow> string) \<Rightarrow> (material_type \<Rightarrow> string) \<Rightarrow> resource_descriptor \<Rightarrow> normalized_material res" where
  "normalizeMaterial js type_name material =
     (let anns = rd_annotations material;
          base = \<lparr>nmt_name = [], nmt_type = [], nmt_filename = [], nmt_value = [], nmt_hash = None, nmt_tag = [],
                  nmt_uploaded = False, nmt_inline = False,
                  nmt_annotations = map (\<lambda>(k, v). (k, structValueToString js v)) anns, nmt_component = None\<rparr>
      in case map_of anns AnnotationMaterialType of
           None \<Rightarrow> Inl (Errorf ''material type not found'' [])
         | Some mType \<Rightarrow> (case map_of anns AnnotationMaterialName of
             None \<Rightarrow> Inl (Errorf ''material name not found'' [])
           | Some mName \<Rightarrow>
               let m = base\<lparr>nmt_type := GetStringValue mType, nmt_name := GetStringValue mName\<rparr> in
               if nmt_type m = type_name STRING then
                 (if rd_content material = [] then Inl (Errorf ''material content not found'' [])
                  else Inr (m\<lparr>nmt_value := rd_content material, nmt_hash := map_of (rd_digest material) ''sha256''\<rparr>))
               else case map_of (rd_digest material) ''sha256'' of
                 None \<Rightarrow> Inl (Errorf ''material digest not found'' [])
               | Some d \<Rightarrow>
                   if rd_name material = [] then Inl (Errorf ''material name not found'' [])
                   else
                     let uploaded = bool_annotation anns AnnotationMaterialCAS;
                         inl = bool_annotation anns AnnotationMaterialInlineCAS;
                         m = m\<lparr>nmt_hash := Some d, nmt_value := rd_name material, nmt_uploaded := uploaded,
                               nmt_inline := inl, nmt_tag := string_annotation anns AnnotationContainerTag,
                               nmt_component := referenced_component anns\<rparr>;
                         m = (if inl \<or> uploaded then m\<lparr>nmt_filename := rd_name material, nmt_value := []\<rparr> else m);
                         m = (if inl then m\<lparr>nmt_value := rd_content material\<rparr> else m)
                     in Inr m))"

section \<open>Enforcement by the push command\<close>

text \<open>The evaluations of a status result (\<open>app/cli/pkg/action/attestation_status.go\<close>).\<close>

record status_evaluation =
  se_name :: string
  se_material_name :: string
  se_description :: string
  se_annotations :: "string gomap"
  se_policy_ref_name :: string
  se_violations :: "api_violation list"
  se_skipped :: bool
  se_skip_reasons :: "string list"
  se_gate :: bool

definition policyEvaluationStateToActionForStatus :: "policy_evaluation \<Rightarrow> status_evaluation" where
  "policyEvaluationStateToActionForStatus p =
     \<lparr>se_name = pe_name p, se_material_name = pe_material_name p, se_description = pe_description p,
      se_annotations = pe_annotations p, se_policy_ref_name = rf_name (pe_policy_ref p),
      se_violations = pe_violations p, se_skipped = pe_skipped p, se_skip_reasons = pe_skip_reasons p,
      se_gate = pe_gate p\<rparr>"

definition status_step ::
  "policy_evaluation \<Rightarrow> status_evaluation list gomap \<times> bool \<Rightarrow> status_evaluation list gomap \<times> bool" where
  "status_step v acc = (case acc of (evaluations, hasViolations) \<Rightarrow>
     let keyName = (if pe_material_name v = [] then AttPolicyEvaluation else pe_material_name v)
     in (append_key keyName (policyEvaluationStateToActionForStatus v) evaluations,
         hasViolations \<or> pe_violations v \<noteq> []))"

definition getPolicyEvaluations :: "attestation \<Rightarrow> status_evaluation list gomap \<times> bool" where
  "getPolicyEvaluations att = fold status_step (att_evaluations att) ([], False)"

definition GateError :: "string \<Rightarrow> err" where
  "GateError policyName = Errorf ''the policy %q is configured as a gate and has violations'' [policyName]"

definition hasGatingViolation :: "api_violation list \<Rightarrow> bool" where
  "hasGatingViolation violations = list_ex (\<lambda>v. \<not> av_suppress v) violations"

fun enforce_gates :: "status_evaluation list \<Rightarrow> bool \<Rightarrow> unit res" where
  "enforce_gates [] bypass = Inr ()"
| "enforce_gates (ev # evs) bypass =
     (if se_gate ev \<and> hasGatingViolation (se_violations ev)
      then (if bypass then enforce_gates evs bypass else Inl (GateError (se_name ev)))
      else enforce_gates evs bypass)"

text \<open>The two branches of the final check both return without an error, as in the code.\<close>

definition validatePolicyEnforcement :: "status_evaluation list gomap \<Rightarrow> bool \<Rightarrow> bool \<Rightarrow> unit res" where
  "validatePolicyEnforcement evaluations mustBlock bypassPolicyCheck =
     bind_res (enforce_gates (concat (map snd evaluations)) bypassPolicyCheck) (\<lambda>_.
     if mustBlock then (if bypassPolicyCheck then Inr () else Inr ()) else Inr ())"

section \<open>Counters\<close>

definition gated_violation :: "policy_evaluation \<Rightarrow> bool" where
  "gated_violation p = (pe_gate p \<and> active_violations p > 0)"

definition counters_of :: "policy_evaluation list \<Rightarrow> evaluations_result \<Rightarrow> bool" where
  "counters_of ps r =
     (evr_has_violations r = (\<exists>p\<in>set ps. active_violations p > 0) \<and>
      evr_has_gated r = (\<exists>p\<in>set ps. gated_violation p) \<and>
      evr_has_gates r = (\<exists>p\<in>set ps. pe_gate p) \<and>
      evr_violations_count r = sum_list (map active_violations ps) \<and>
      evr_suppressed_count r = sum_list (map suppressed_violations ps) \<and>
      evr_skipped_count r = length (filter (\<lambda>p. active_violations p = 0 \<and> pe_skipped p) ps) \<and>
      evr_passed_count r = length (filter (\<lambda>p. active_violations p = 0 \<and> \<not> pe_skipped p) ps))"

lemma renderEvaluation_fields:
  "renderEvaluation ce p inc = Inr ev \<Longrightarrow> re_gate ev = pe_gate p \<and> re_skipped ev = pe_skipped p \<and> re_name ev = pe_name p"
  by (auto simp: renderEvaluation_def res_simps Let_def)

lemma count_evaluation_fields:
  "evr_has_violations (count_evaluation p ev r) = (evr_has_violations r \<or> active_violations p > 0)"
  "evr_has_gated (count_evaluation p ev r) = (evr_has_gated r \<or> (active_violations p > 0 \<and> re_gate ev))"
  "evr_has_gates (count_evaluation p ev r) = (evr_has_gates r \<or> re_gate ev)"
  "evr_violations_count (count_evaluation p ev r) = evr_violations_count r + active_violations p"
  "evr_suppressed_count (count_evaluation p ev r) = evr_suppressed_count r + suppressed_violations p"
  "evr_skipped_count (count_evaluation p ev r) =
     evr_skipped_count r + (if active_violations p = 0 \<and> re_skipped ev then 1 else 0)"
  "evr_passed_count (count_evaluation p ev r) =
     evr_passed_count r + (if active_violations p = 0 \<and> \<not> re_skipped ev then 1 else 0)"
  "evr_evaluations (count_evaluation p ev r) = evr_evaluations r"
  by (simp_all add: count_evaluation_def Let_def)

lemma group_evaluation_counters:
  assumes "group_evaluation ce inc p r = Inr r'" and "counters_of ps r"
  shows "counters_of (ps @ [p]) r'"
proof -
  from assms(1) obtain ev where ev: "renderEvaluation ce p inc = Inr ev" and
    r': "\<exists>m. r' = (count_evaluation p ev r)\<lparr>evr_evaluations := m\<rparr>"
    by (auto simp: group_evaluation_def bind_res_eq_Inr Let_def)
  have "re_gate ev = pe_gate p" "re_skipped ev = pe_skipped p" using renderEvaluation_fields [OF ev] by auto
  with assms(2) r' show ?thesis
    by (elim exE) (simp add: counters_of_def gated_violation_def count_evaluation_fields conj_commute disj_commute)
qed

lemma group_loop_counters:
  "group_loop ce inc ps r = Inr r' \<Longrightarrow> counters_of qs r \<Longrightarrow> counters_of (qs @ ps) r'"
proof (induction ps arbitrary: r qs)
  case (Cons p ps)
  then obtain r1 where "group_evaluation ce inc p r = Inr r1" "group_loop ce inc ps r1 = Inr r'"
    by (auto simp: bind_res_eq_Inr)
  with Cons.IH [of r1 "qs @ [p]"] group_evaluation_counters Cons.prems(2) show ?case by simp
qed simp

lemma groupEvaluations_counters:
  assumes "groupEvaluations ce ps inc = Inr r"
  shows "counters_of ps r \<and> evr_evaluations_count r = length ps"
proof -
  obtain r0 where "group_loop ce inc ps empty_result = Inr r0" "r = r0\<lparr>evr_evaluations_count := length ps\<rparr>"
    using assms by (auto simp: groupEvaluations_def res_simps)
  moreover have "counters_of [] empty_result" by (simp add: counters_of_def empty_result_def)
  ultimately show ?thesis using group_loop_counters [of ce inc ps empty_result r0 "[]"]
    by (simp add: counters_of_def)
qed

text \<open>Every evaluation is counted once: it has violations, was skipped, or passed.\<close>

lemma counted_once:
  "length ps = length (filter (\<lambda>p. active_violations p > 0) ps) +
     length (filter (\<lambda>p. active_violations p = 0 \<and> pe_skipped p) ps) +
     length (filter (\<lambda>p. active_violations p = 0 \<and> \<not> pe_skipped p) ps)"
  by (induction ps) auto

section \<open>Grouping by material\<close>

lemma map_of_append_key:
  "map_of (append_key k v m) x = (if x = k then Some ((case map_of m k of None \<Rightarrow> [] | Some vs \<Rightarrow> vs) @ [v]) else map_of m x)"
  by (simp add: append_key_def update_conv')

lemma set_append_key:
  assumes "gm_wf m"
  shows "\<Union> (set ` snd ` set (append_key k v m)) = insert v (\<Union> (set ` snd ` set m))"
proof -
  have wf: "gm_wf (append_key k v m)" using assms by (simp add: append_key_def)
  have all: "\<Union> (set ` snd ` set n) = {x. \<exists>key vs. map_of n key = Some vs \<and> x \<in> set vs}" if "gm_wf n" for n :: "'a list gomap"
    using that by (force simp: gm_wf_def)
  show ?thesis
    unfolding all [OF wf] all [OF assms] map_of_append_key
    by (auto split: if_splits option.splits) (metis option.exhaust)+
qed

lemma getPolicyEvaluations_set:
  "gm_wf (fst (getPolicyEvaluations att)) \<and>
   set (concat (map snd (fst (getPolicyEvaluations att)))) = policyEvaluationStateToActionForStatus ` set (att_evaluations att)"
proof -
  have "gm_wf (fst (fold status_step ps ([], False))) \<and>
      \<Union> (set ` snd ` set (fst (fold status_step ps ([], False)))) = policyEvaluationStateToActionForStatus ` set ps" for ps
  proof (induction ps rule: rev_induct)
    case (snoc p ps)
    obtain m h where mh: "fold status_step ps ([], False) = (m, h)" by fastforce
    with snoc have m: "gm_wf m" "\<Union> (set ` snd ` set m) = policyEvaluationStateToActionForStatus ` set ps" by simp_all
    let ?k = "if pe_material_name p = [] then AttPolicyEvaluation else pe_material_name p"
    have "fst (fold status_step (ps @ [p]) ([], False)) = append_key ?k (policyEvaluationStateToActionForStatus p) m"
      by (simp add: mh status_step_def Let_def)
    moreover have "gm_wf (append_key ?k (policyEvaluationStateToActionForStatus p) m)"
      using m(1) by (simp add: append_key_def)
    ultimately show ?case using set_append_key [OF m(1)] m(2) by (simp only: set_append) simp
  qed simp
  from this [of "att_evaluations att"] show ?thesis by (simp add: getPolicyEvaluations_def)
qed

lemma enforce_gates_ok:
  "enforce_gates evs bypass = Inr () \<longleftrightarrow> bypass \<or> (\<forall>ev\<in>set evs. \<not> (se_gate ev \<and> hasGatingViolation (se_violations ev)))"
  by (induction evs) auto

lemma hasGatingViolation_active: "hasGatingViolation (pe_violations p) \<longleftrightarrow> active_violations p > 0"
  by (auto simp: hasGatingViolation_def active_violations_def list_ex_iff filter_empty_conv)

lemma validatePolicyEnforcement_ok:
  "validatePolicyEnforcement (fst (getPolicyEvaluations att)) mustBlock bypass = Inr () \<longleftrightarrow>
     bypass \<or> \<not> (\<exists>p\<in>set (att_evaluations att). gated_violation p)"
  using getPolicyEvaluations_set [of att]
  by (auto simp: validatePolicyEnforcement_def res_simps enforce_gates_ok gated_violation_def
      policyEvaluationStateToActionForStatus_def hasGatingViolation_active)

section \<open>The status read back from a predicate\<close>

lemma mset_append_key:
  "gm_wf m \<Longrightarrow> mset (concat (map snd (append_key k v m))) = add_mset v (mset (concat (map snd m)))"
proof (induction m)
  case (Cons kv m)
  obtain a vs where kv: "kv = (a, vs)" by fastforce
  with Cons.prems have wf: "gm_wf m" by (simp add: gm_wf_Cons)
  show ?case
  proof (cases "a = k")
    case True
    then show ?thesis by (simp add: kv append_key_def)
  next
    case False
    then have "append_key k v (kv # m) = kv # append_key k v m" by (simp add: kv append_key_def)
    with Cons.IH [OF wf] show ?thesis by (simp add: kv)
  qed
qed (simp add: append_key_def)

lemma count_inline_fold:
  "fold count_inline evs (s, p, g) =
     (s + length (filter (\<lambda>e. re_violations e = [] \<and> re_skipped e) evs),
      p + length (filter (\<lambda>e. re_violations e = [] \<and> \<not> re_skipped e) evs), g \<or> (\<exists>e\<in>set evs. re_gate e))"
  by (induction evs arbitrary: s p g) (auto simp: count_inline_def Let_def)

lemma summarize_concat: "summarizeInlineEvaluations evals = fold count_inline (concat (map snd evals)) (0, 0, False)"
proof -
  have "fold (\<lambda>(_, lst) acc. fold count_inline lst acc) evals acc = fold count_inline (concat (map snd evals)) acc" for acc
    by (induction evals arbitrary: acc) auto
  then show ?thesis by (simp add: summarizeInlineEvaluations_def)
qed

text \<open>The evaluations of a result are the rendered ones, in some order.\<close>

definition renders_all :: "content_env \<Rightarrow> bool \<Rightarrow> policy_evaluation list \<Rightarrow> evaluations_result \<Rightarrow> bool" where
  "renders_all ce inc ps r =
     (gm_wf (evr_evaluations r) \<and>
      (\<exists>evs. list_all2 (\<lambda>p ev. renderEvaluation ce p inc = Inr ev) ps evs \<and>
             mset (concat (map snd (evr_evaluations r))) = mset evs))"

lemma group_evaluation_renders:
  assumes "group_evaluation ce inc p r = Inr r'" and "renders_all ce inc ps r"
  shows "renders_all ce inc (ps @ [p]) r'"
proof -
  from assms(1) obtain ev k where ev: "renderEvaluation ce p inc = Inr ev" and
    r': "r' = (count_evaluation p ev r)\<lparr>evr_evaluations := append_key k ev (evr_evaluations r)\<rparr>"
    by (auto simp: group_evaluation_def bind_res_eq_Inr Let_def count_evaluation_fields)
  from assms(2) obtain evs where wf: "gm_wf (evr_evaluations r)" and
    evs: "list_all2 (\<lambda>p ev. renderEvaluation ce p inc = Inr ev) ps evs"
      "mset (concat (map snd (evr_evaluations r))) = mset evs" by (auto simp: renders_all_def)
  have "gm_wf (append_key k ev (evr_evaluations r))" using wf by (simp add: append_key_def)
  moreover have "list_all2 (\<lambda>p ev. renderEvaluation ce p inc = Inr ev) (ps @ [p]) (evs @ [ev])"
    using evs(1) ev by (simp add: list_all2_appendI)
  ultimately show ?thesis
    using mset_append_key [OF wf, of k ev] evs(2)
    by (auto simp: renders_all_def r' intro!: exI [of _ "evs @ [ev]"])
qed

lemma group_loop_renders:
  "group_loop ce inc ps r = Inr r' \<Longrightarrow> renders_all ce inc qs r \<Longrightarrow> renders_all ce inc (qs @ ps) r'"
proof (induction ps arbitrary: r qs)
  case (Cons p ps)
  then obtain r1 where "group_evaluation ce inc p r = Inr r1" "group_loop ce inc ps r1 = Inr r'"
    by (auto simp: bind_res_eq_Inr)
  with Cons.IH [of r1 "qs @ [p]"] group_evaluation_renders Cons.prems(2) show ?case by simp
qed simp

lemma groupEvaluations_renders: "groupEvaluations ce ps inc = Inr r \<Longrightarrow> renders_all ce inc ps r"
  using group_loop_renders [of ce inc ps empty_result _ "[]"]
  by (auto simp: groupEvaluations_def res_simps renders_all_def empty_result_def)

lemma rendered_violations: "renderEvaluation ce p False = Inr ev \<Longrightarrow> re_violations ev = [] \<longleftrightarrow> active_violations p = 0"
  by (auto simp: renderEvaluation_def res_simps Let_def active_violations_def filter_empty_conv)

lemma rendered_counts:
  assumes "list_all2 (\<lambda>p ev. renderEvaluation ce p False = Inr ev) ps evs"
  shows "length (filter (\<lambda>e. re_violations e = [] \<and> re_skipped e) evs) = length (filter (\<lambda>p. active_violations p = 0 \<and> pe_skipped p) ps)"
    and "length (filter (\<lambda>e. re_violations e = [] \<and> \<not> re_skipped e) evs) = length (filter (\<lambda>p. active_violations p = 0 \<and> \<not> pe_skipped p) ps)"
    and "(\<exists>e\<in>set evs. re_gate e) = (\<exists>p\<in>set ps. pe_gate p)"
  using assms by (induction) (auto dest: renderEvaluation_fields rendered_violations)

lemma summarize_rendered:
  assumes "groupEvaluations ce ps False = Inr r"
  shows "summarizeInlineEvaluations (evr_evaluations r) = (evr_skipped_count r, evr_passed_count r, evr_has_gates r)"
proof -
  from groupEvaluations_renders [OF assms] obtain evs where
    evs: "list_all2 (\<lambda>p ev. renderEvaluation ce p False = Inr ev) ps evs"
      "mset (concat (map snd (evr_evaluations r))) = mset evs" by (auto simp: renders_all_def)
  have "length (filter P (concat (map snd (evr_evaluations r)))) = length (filter P evs)" for P
    using evs(2) by (metis mset_filter size_mset)
  moreover have "set (concat (map snd (evr_evaluations r))) = set evs" using evs(2) by (metis set_mset_mset)
  ultimately show ?thesis
    using groupEvaluations_counters [OF assms] rendered_counts [OF evs(1)]
    by (simp only: summarize_concat count_inline_fold counters_of_def) simp
qed

lemma empty_evaluations: "groupEvaluations ce ps False = Inr r \<Longrightarrow> evr_evaluations r = [] \<Longrightarrow> ps = []"
  by (auto dest!: groupEvaluations_renders simp: renders_all_def)

lemma predicate_parts:
  assumes "predicate ce att ref = Inr p"
  obtains r where "groupEvaluations ce (att_evaluations att) False = Inr r"
    and "pp_blocked p = (\<not> att_bypass_policy_check att \<and>
          (evr_has_gated r \<or> (evr_has_violations r \<and> att_block_on_violation att)))"
    and "pp_has_gated p = evr_has_gated r" and "pp_has_violations p = evr_has_violations r"
    and "pp_strategy p = (if att_block_on_violation att then Enforced else Advisory)"
    and "pp_bypass p = att_bypass_policy_check att" and "pp_evaluations_count p = evr_evaluations_count r"
    and "pp_skipped_count p = evr_skipped_count r" and "pp_passed_count p = evr_passed_count r"
    and "pp_has_gates p = (evr_has_gates r \<or> att_block_on_violation att)"
    and "pp_evaluations p = (if ref \<noteq> None then [] else evr_evaluations r)" and "pp_evaluations_fallback p = []"
proof -
  from assms obtain r where "groupEvaluations ce (att_evaluations att) False = Inr r"
    by (auto simp: predicate_def bind_res_eq_Inr)
  moreover from this assms obtain ms where "p = \<lparr>pp_materials = ms,
      pp_evaluations = (if ref \<noteq> None then [] else evr_evaluations r), pp_evaluations_ref = ref,
      pp_evaluations_fallback = [], pp_has_violations = evr_has_violations r,
      pp_evaluations_count = evr_evaluations_count r, pp_violations_count = evr_violations_count r,
      pp_skipped_count = evr_skipped_count r, pp_passed_count = evr_passed_count r,
      pp_suppressed_count = evr_suppressed_count r, pp_has_gated = evr_has_gated r,
      pp_has_gates = (evr_has_gates r \<or> att_block_on_violation att),
      pp_strategy = (if att_block_on_violation att then Enforced else Advisory),
      pp_bypass = att_bypass_policy_check att,
      pp_blocked = (\<not> att_bypass_policy_check att \<and>
        (evr_has_gated r \<or> (evr_has_violations r \<and> att_block_on_violation att)))\<rparr>"
    by (auto simp: predicate_def bind_res_eq_Inr Let_def)
  ultimately show thesis by (intro that) simp_all
qed

lemma status_passthrough:
  "es_blocked (GetPolicyEvaluationStatus p) = pp_blocked p"
  "es_has_gated (GetPolicyEvaluationStatus p) = pp_has_gated p"
  "es_has_violations (GetPolicyEvaluationStatus p) = pp_has_violations p"
  "es_strategy (GetPolicyEvaluationStatus p) = pp_strategy p"
  "es_bypassed (GetPolicyEvaluationStatus p) = pp_bypass p"
  "es_evaluations_count (GetPolicyEvaluationStatus p) = pp_evaluations_count p"
  by (simp_all add: GetPolicyEvaluationStatus_def Let_def case_prod_beta)

section \<open>Annotations of a material cannot be forged\<close>

lemma add_custom_string:
  "map_of (add_custom custom m) k = map_of m k \<or> (\<exists>v. map_of (add_custom custom m) k = Some (VString v))"
proof (induction custom arbitrary: m)
  case (Cons kv custom)
  obtain a v where kv: "kv = (a, v)" by fastforce
  let ?m = "if map_of m a = None then AList.update a (VString v) m else m"
  have "add_custom (kv # custom) m = add_custom custom ?m" by (simp add: add_custom_def kv)
  moreover have "map_of ?m k = map_of m k \<or> map_of ?m k = Some (VString v)" by (simp add: update_conv')
  ultimately show ?case using Cons.IH [of ?m] by metis
qed (simp add: add_custom_def)

lemma builtin_no_cas:
  "map_of (builtin_annotations tn m n) AnnotationMaterialCAS = None"
  "map_of (builtin_annotations tn m n) AnnotationMaterialInlineCAS = None"
  by (auto simp: builtin_annotations_def Let_def put_nonempty_def update_conv' annotation_defs
      split: material_body.split option.split)

lemma custom_not_bool:
  assumes "k \<in> {AnnotationMaterialCAS, AnnotationMaterialInlineCAS}"
  shows "\<not> bool_annotation (add_custom custom (builtin_annotations tn m n)) k"
  using add_custom_string [of custom "builtin_annotations tn m n" k] builtin_no_cas [of tn m n] assms
  by (auto simp: bool_annotation_def GetBoolValue_def)

lemma cas_distinct: "AnnotationMaterialCAS \<noteq> AnnotationMaterialInlineCAS"
  by (simp add: annotation_defs)

lemma cas_flags:
  "bool_annotation (cas_annotation m (add_custom custom (builtin_annotations tn m n))) AnnotationMaterialCAS = mat_uploaded m"
  "bool_annotation (cas_annotation m (add_custom custom (builtin_annotations tn m n))) AnnotationMaterialInlineCAS =
     (\<not> mat_uploaded m \<and> mat_inline m)"
  using custom_not_bool [of AnnotationMaterialCAS custom tn m n] custom_not_bool [of AnnotationMaterialInlineCAS custom tn m n]
    cas_distinct
  by (auto simp: cas_annotation_def bool_annotation_def update_conv' GetBoolValue_def)

lemma descriptor_annotations:
  assumes "CraftingStateToIntotoDescriptor ce m name = Inr d"
  shows "rd_annotations d = cas_annotation m (add_custom (mat_annotations m)
     (builtin_annotations (ce_type_name ce) m (if name = [] then mat_id m else name)))"
  using assms by (auto simp: CraftingStateToIntotoDescriptor_def bind_res_eq_Inr Let_def split: if_splits)

lemma descriptor_type_name:
  assumes "CraftingStateToIntotoDescriptor ce m name = Inr d"
  shows "map_of (rd_annotations d) AnnotationMaterialType = Some (VString (ce_type_name ce (mat_type m)))"
    and "map_of (rd_annotations d) AnnotationMaterialName = Some (VString (if name = [] then mat_id m else name))"
  using builtin_annotations_win [OF assms] builtin_type_name [of "ce_type_name ce" m "if name = [] then mat_id m else name"]
  by (auto simp: annotation_defs)

section \<open>Properties\<close>

text \<open>
  The counters of the rendered attestation: violations and gates exclude suppressed entries, every
  evaluation is counted exactly once as violated, skipped or passed, and none of the counters depends
  on whether suppressed entries are kept (bundle) or stripped (predicate).
\<close>

theorem groupEvaluations_counts:
  assumes "groupEvaluations ce ps includeSuppressed = Inr r"
  shows "counters_of ps r \<and> evr_evaluations_count r = length ps \<and>
         evr_evaluations_count r =
           length (filter (\<lambda>p. active_violations p > 0) ps) + evr_skipped_count r + evr_passed_count r"
  using groupEvaluations_counters [OF assms] counted_once [of ps] by (simp add: counters_of_def)

text \<open>
  The rules of the categorical status as the comment of \<open>DerivePolicyStatusSummary\<close> lists them, over the
  evaluations of the attestation.
\<close>

definition status_rules :: "attestation \<Rightarrow> policy_status" where
  "status_rules att =
     (let ps = att_evaluations att; enforced = (list_ex gated_violation ps \<or> att_block_on_violation att) in
      if ps = [] then PolicyStatusNotApplicable
      else if enforced \<and> att_bypass_policy_check att then PolicyStatusBypassed
      else if enforced then PolicyStatusBlocked
      else if list_ex (\<lambda>e. active_violations e > 0) ps then PolicyStatusWarning
      else if list_ex pe_skipped ps then PolicyStatusSkipped
      else PolicyStatusPassed)"

lemma skipped_read_back:
  assumes "predicate ce att ref = Inr p"
  shows "es_skipped_count (GetPolicyEvaluationStatus p) = length (filter (\<lambda>e. active_violations e = 0 \<and> pe_skipped e) (att_evaluations att))"
proof -
  obtain r where r: "groupEvaluations ce (att_evaluations att) False = Inr r"
    and p: "pp_skipped_count p = evr_skipped_count r" "pp_evaluations p = (if ref \<noteq> None then [] else evr_evaluations r)"
      "pp_evaluations_fallback p = []"
    using assms by (rule predicate_parts)
  have "es_skipped_count (GetPolicyEvaluationStatus p) = evr_skipped_count r"
    using summarize_rendered [OF r] by (simp add: GetPolicyEvaluationStatus_def Let_def p split: prod.splits)
  then show ?thesis using groupEvaluations_counters [OF r] by (simp add: counters_of_def)
qed

text \<open>
  C13. The categorical status read back from a rendered attestation is the one the documented rules give over its
  evaluations, suppressed violations not counting, and it is BLOCKED exactly when the attestation says so
  itself. The one case left out is an attestation that blocks on violations, has none and is not bypassed, where
  the rules and the code differ.
\<close>

theorem status_as_documented:
  assumes "predicate ce att ref = Inr p"
    and "att_block_on_violation att \<Longrightarrow> att_bypass_policy_check att \<or> list_ex (\<lambda>e. active_violations e > 0) (att_evaluations att)"
  shows "sum_status (DerivePolicyStatusSummary (Some (GetPolicyEvaluationStatus p))) = status_rules att \<and>
         pp_blocked p = (status_rules att = PolicyStatusBlocked)"
proof -
  obtain r where r: "groupEvaluations ce (att_evaluations att) False = Inr r"
    and p: "pp_blocked p = (\<not> att_bypass_policy_check att \<and>
          (evr_has_gated r \<or> (evr_has_violations r \<and> att_block_on_violation att)))"
      "pp_has_gated p = evr_has_gated r" "pp_has_violations p = evr_has_violations r"
      "pp_strategy p = (if att_block_on_violation att then Enforced else Advisory)"
      "pp_bypass p = att_bypass_policy_check att" "pp_evaluations_count p = evr_evaluations_count r"
    using assms(1) by (rule predicate_parts)
  have c: "counters_of (att_evaluations att) r" "evr_evaluations_count r = length (att_evaluations att)"
    using groupEvaluations_counters [OF r] by auto
  then have flags: "evr_has_gated r = list_ex gated_violation (att_evaluations att)"
      "evr_has_violations r = list_ex (\<lambda>e. active_violations e > 0) (att_evaluations att)"
    by (simp_all add: counters_of_def list_ex_iff)
  have g: "list_ex gated_violation (att_evaluations att) \<Longrightarrow> list_ex (\<lambda>e. active_violations e > 0) (att_evaluations att)"
    by (auto simp: list_ex_iff gated_violation_def)
  have skipped: "0 < es_skipped_count (GetPolicyEvaluationStatus p) \<longleftrightarrow> list_ex pe_skipped (att_evaluations att)"
    if "\<not> list_ex (\<lambda>e. active_violations e > 0) (att_evaluations att)"
    using that unfolding skipped_read_back [OF assms(1)] by (auto simp: list_ex_iff filter_empty_conv)
  show ?thesis using g skipped assms(2)
    by (auto simp: DerivePolicyStatusSummary_def Let_def status_passthrough p flags c(2) status_rules_def)
qed

text \<open>
  Where they differ: enforced, without a violation and not bypassed, the rules say BLOCKED and the code does not.
\<close>

lemma enforced_without_violations:
  "sum_status (DerivePolicyStatusSummary (Some \<lparr>es_strategy = Enforced, es_bypassed = False, es_blocked = False, es_has_violations = False,
     es_has_gated = False, es_has_gates = True, es_evaluations_count = 1, es_violations_count = 0, es_skipped_count = 0, es_passed_count = 1,
     es_suppressed_count = 0\<rparr>)) = PolicyStatusPassed"
  by (simp add: DerivePolicyStatusSummary_def)

text \<open>
  Attestations signed before the counters existed read back the same: with the skipped, passed and
  gate fields at zero, the status recomputed from the inline evaluations is the one recorded with them.
\<close>

theorem status_backfill:
  assumes "predicate ce att None = Inr p"
  shows "GetPolicyEvaluationStatus (p\<lparr>pp_skipped_count := 0, pp_passed_count := 0, pp_has_gates := False\<rparr>) =
         GetPolicyEvaluationStatus p"
proof -
  obtain r where r: "groupEvaluations ce (att_evaluations att) False = Inr r"
    and p: "pp_strategy p = (if att_block_on_violation att then Enforced else Advisory)"
      "pp_evaluations_count p = evr_evaluations_count r" "pp_skipped_count p = evr_skipped_count r"
      "pp_passed_count p = evr_passed_count r" "pp_has_gates p = (evr_has_gates r \<or> att_block_on_violation att)"
      "pp_evaluations p = (if (None :: string option) \<noteq> None then [] else evr_evaluations r)" "pp_evaluations_fallback p = []"
    using assms by (rule predicate_parts)
  have s: "summarizeInlineEvaluations (evr_evaluations r) = (evr_skipped_count r, evr_passed_count r, evr_has_gates r)"
    by (rule summarize_rendered [OF r])
  have z: "evr_evaluations r = [] \<Longrightarrow> evr_evaluations_count r = 0 \<and> evr_skipped_count r = 0 \<and> evr_passed_count r = 0 \<and> \<not> evr_has_gates r"
    using empty_evaluations [OF r] groupEvaluations_counters [OF r] by (auto simp: counters_of_def)
  have pos: "evr_evaluations r \<noteq> [] \<Longrightarrow> evr_evaluations_count r > 0 \<or> (evr_skipped_count r = 0 \<and> evr_passed_count r = 0)"
    using groupEvaluations_counters [OF r] by (auto simp: counters_of_def filter_empty_conv)
  show ?thesis
  proof (cases "evr_evaluations r = []")
    case True
    with z show ?thesis by (simp add: GetPolicyEvaluationStatus_def p Let_def)
  next
    case False
    with pos s show ?thesis
      by (auto simp: GetPolicyEvaluationStatus_def p Let_def)
  qed
qed

text \<open>
  C14. The push command fails on a gate exactly when the rendered attestation has gated violations and
  the check is not bypassed, whatever order the evaluations are visited in. Left out is an attestation that blocks
  on any violation, has no gated one and is not bypassed: the comment of the final check wants it blocked, the
  code lets it pass.
\<close>

theorem push_enforces_gates:
  assumes "groupEvaluations ce (att_evaluations att) False = Inr r"
    and "att_block_on_violation att \<Longrightarrow> bypass \<or> evr_has_gated r"
  shows "(validatePolicyEnforcement (fst (getPolicyEvaluations att)) (att_block_on_violation att) bypass = Inr ()) =
         (bypass \<or> \<not> evr_has_gated r)"
  using groupEvaluations_counters [OF assms(1)] by (simp add: validatePolicyEnforcement_ok counters_of_def)

text \<open>
  An artifact or SBOM material survives rendering and reading back: name, kind and digest are
  those of the material, and the flags that say where its content is cannot be forged by annotations
  of the user.
\<close>

theorem material_roundtrip:
  assumes "CraftingStateToIntotoDescriptor ce m name = Inr d"
    and "material_artifact m = Some a" and "art_name a \<noteq> []"
    and "art_digest a = ''sha256:'' @ hex" and "CHR '':'' \<notin> set hex"
    and "ce_type_name ce (mat_type m) \<noteq> ce_type_name ce STRING"
  shows "\<exists>n. normalizeMaterial js (ce_type_name ce) d = Inr n \<and>
     nmt_name n = (if name = [] then mat_id m else name) \<and> nmt_type n = ce_type_name ce (mat_type m) \<and>
     nmt_hash n = Some hex \<and> nmt_uploaded n = mat_uploaded m \<and> nmt_inline n = (\<not> mat_uploaded m \<and> mat_inline m) \<and>
     nmt_filename n = (if mat_uploaded m \<or> mat_inline m then art_name a else []) \<and>
     (nmt_inline n \<longrightarrow> nmt_value n = art_content a)"
proof -
  have n: "NormalizedOutput m = Inr \<lparr>nm_name = art_name a, nm_digest = art_digest a, nm_is_output = art_is_subject a,
      nm_content = art_content a\<rparr>"
    using assms(2) by (auto simp: material_artifact_def NormalizedOutput_def split: material_body.splits)
  have "split_char (CHR '':'') (art_digest a) = [''sha256'', hex]"
    using split_char_append [of "CHR '':''" "''sha256''" hex] split_char_absent [OF assms(5)] by (simp add: assms(4))
  with assms(1) n have d: "rd_name d = art_name a" "rd_digest d = [(''sha256'', hex)]" "rd_content d = art_content a"
    by (auto simp: CraftingStateToIntotoDescriptor_def bind_res_eq_Inr Let_def assms(4) split: if_splits)
  have "bool_annotation (rd_annotations d) AnnotationMaterialCAS = mat_uploaded m"
    "bool_annotation (rd_annotations d) AnnotationMaterialInlineCAS = (\<not> mat_uploaded m \<and> mat_inline m)"
    by (simp_all only: descriptor_annotations [OF assms(1)] cas_flags)
  with d descriptor_type_name [OF assms(1)] assms(3,6) show ?thesis
    by (auto simp: normalizeMaterial_def Let_def GetStringValue_def)
qed

end
