(* ===== verification/Worked_Examples.thy ===== *)
theory Worked_Examples
  imports Public_Targets Attestation_Session Attestation_Renderer
begin

text \<open>
  Concrete inputs: a verifier with one embedded policy and one policy group, a control plane with one
  workflow run, a crafter of string materials and a local state file. Each example applies a theorem
  of the component theories to them and evaluates the code on the way.
\<close>

section \<open>Policies\<close>

definition demo_content :: content_env where
  "demo_content =
     \<lparr>ce_read_file = (\<lambda>_. Inr ''data''), ce_type_name = (\<lambda>t. if t = STRING then ''STRING'' else ''ARTIFACT''),
      ce_new_struct = (\<lambda>_. Inr ()), ce_extract_envelope = Inr, ce_decode_payload = Inr, ce_project = (\<lambda>_ raw _. Inr raw),
      ce_json_decode = (\<lambda>_. Inr (VMap [])), ce_json_encode = (\<lambda>_ d. Inr (rd_content d))\<rparr>"

definition demo_result :: evaluation_result where
  "demo_result = \<lparr>er_violations = [\<lparr>vio_subject = ''p'', vio_violation = ''bad'', vio_raw = None\<rparr>], er_skipped = False,
     er_skip_reason = [], er_ignore = False, er_raw = None\<rparr>"

definition demo_attachment :: policy_attachment where
  "demo_attachment = \<lparr>pa_policy = AttEmbedded (simple_policy ''p'' ''x''),
     pa_selector = Some \<lparr>sel_name = ''m'', sel_mode = MM_EXACT\<rparr>, pa_disabled = False, pa_with = [], pa_requirements = [],
     pa_gate = Some True\<rparr>"

definition demo_policies :: policies where
  "demo_policies = \<lparr>pols_materials = [demo_attachment], pols_attestation = [demo_attachment, demo_attachment]\<rparr>"

definition demo_group :: policy_group where
  "demo_group = \<lparr>pg_metadata = \<lparr>md_name = ''g'', md_description = [], md_annotations = [], md_finding_type = None\<rparr>,
     pg_materials = [\<lparr>gm_type = STRING, gm_name = ''m'', gm_optional = False, gm_match_mode = MM_EXACT, gm_policies = [demo_attachment]\<rparr>],
     pg_attestation = [demo_attachment], pg_inputs = []\<rparr>"

definition demo_env :: env where
  "demo_env = remote_env\<lparr>env_get_group := (\<lambda>_. Inr (demo_group, ''https://cp/g'', ''sha256:bb'')),
     env_http_get := (\<lambda>_ _. HttpFailure ErrBlockedTarget)\<rparr>"

definition demo_services :: services where
  "demo_services =
     \<lparr>sv_env = demo_env, sv_tmpl = (\<lambda>t _. Inr t), sv_content = demo_content,
      sv_findings = \<lparr>fc_marshal = (\<lambda>_. Inr []), fc_unmarshal = (\<lambda>_. Inr), fc_validate = (\<lambda>_. Inr ())\<rparr>,
      sv_engine = (\<lambda>_ _ _ _ _. Inr demo_result), sv_error_text = (\<lambda>_. [])\<rparr>"

definition demo_material :: material where
  "demo_material = \<lparr>mat_id = ''m'', mat_body = MString ''hello'' [], mat_type = STRING, mat_uploaded = False, mat_inline = True,
     mat_annotations = [], mat_output = False, mat_required = False\<rparr>"

definition demo_verifier :: verifier where
  "demo_verifier = fst (NewPolicyVerifier 4 demo_policies None [])"

definition demo_vstate :: vstate where
  "demo_vstate = snd (NewPolicyVerifier 4 demo_policies None [])"

definition group_at :: "string \<Rightarrow> group_attachment" where
  "group_at ref = \<lparr>ga_ref = ref, ga_with = [], ga_skip = [], ga_gate = Some False\<rparr>"

definition backwards :: "nat \<Rightarrow> nat list" where
  "backwards n = rev [0..<n]"

lemma demo_vstate_ok: "state_ok demo_services demo_vstate"
  by (simp add: state_ok_def demo_vstate_def NewPolicyVerifier_def Let_def consistent_empty)

lemma backwards_schedule: "\<forall>n. schedule (backwards n) n" "\<forall>(i :: nat) n. schedule (backwards n) n"
  by (simp_all add: schedule_def backwards_def)

theorem verification_refines_sequential_witness:
  "(case fst (VerifyMaterial backwards demo_services demo_verifier demo_material [] [] demo_vstate) of
      Inr evs \<Rightarrow> map pe_material_name evs = [''m''] | Inl _ \<Rightarrow> False) \<and>
   agrees (fst (VerifyMaterial backwards demo_services demo_verifier demo_material [] [] demo_vstate))
     (material_spec demo_services demo_verifier demo_material [] [])"
proof
  show "case fst (VerifyMaterial backwards demo_services demo_verifier demo_material [] [] demo_vstate) of
      Inr evs \<Rightarrow> map pe_material_name evs = [''m''] | Inl _ \<Rightarrow> False"
    by code_simp
qed (use verification_refines_sequential [OF backwards_schedule(1) demo_vstate_ok] in blast)

abbreviation demo_tasks :: "(policy_evaluation, vstate) task" where
  "demo_tasks \<equiv> attachment_task demo_services demo_verifier ''{}'' statement_opts [demo_attachment, demo_attachment]"


theorem evaluation_reports_witness:
  "\<exists>ev. fst (evaluatePolicyAttachment demo_services demo_verifier demo_attachment ''{}'' statement_opts demo_vstate) = Inr (Some ev) \<and>
     pe_gate ev \<and> (\<exists>rs. rs \<noteq> [] \<and> reports demo_services (simple_policy ''p'' ''x'') rs ev)"
proof -
  obtain r st' where e: "evaluatePolicyAttachment demo_services demo_verifier demo_attachment ''{}'' statement_opts demo_vstate = (r, st')"
    by fastforce
  have "case fst (evaluatePolicyAttachment demo_services demo_verifier demo_attachment ''{}'' statement_opts demo_vstate) of
      Inr (Some ev) \<Rightarrow> True | _ \<Rightarrow> False" by code_simp
  with e obtain ev where r: "r = Inr (Some ev)" by (auto split: sum.splits option.splits)
  have p: "policy_of_ref (sv_env demo_services) (pv_guarded_client demo_verifier) demo_attachment = Inr (policy, ref) \<Longrightarrow>
      policy = simple_policy ''p'' ''x''" for policy ref
    by (simp add: policy_of_ref_def loadPolicySpec_def getLoader_def demo_attachment_def get_embedded_def loader_Load_def Let_def
        validateResource_def demo_services_def demo_env_def remote_env_def blank_env_def)
  from evaluation_reports [OF e [unfolded r] demo_vstate_ok] obtain policy ref rs where
    "policy_of_ref (sv_env demo_services) (pv_guarded_client demo_verifier) demo_attachment = Inr (policy, ref)"
    "reports demo_services policy rs ev" "pe_gate ev = policyAttachmentGate demo_attachment (pv_default_gate demo_verifier)"
    by blast
  moreover from this(2) have "rs \<noteq> []" by (auto simp: reports_def)
  ultimately show ?thesis using e r p by (auto simp: policyAttachmentGate_def demo_attachment_def)
qed

theorem group_verification_witness:
  "(case fst (group_VerifyMaterial (\<lambda>_. backwards) demo_services demo_verifier [group_at ''g''] demo_material [] [] demo_vstate) of
      Inr evs \<Rightarrow> map pe_gate evs = [False] | Inl _ \<Rightarrow> False) \<and>
   agrees (fst (group_VerifyMaterial (\<lambda>_. backwards) demo_services demo_verifier [group_at ''g''] demo_material [] [] demo_vstate))
     (bind_res (map_res (group_material_spec demo_services demo_verifier demo_material [] []) [group_at ''g'']) (\<lambda>evss. Inr (concat evss)))"
proof
  show "case fst (group_VerifyMaterial (\<lambda>_. backwards) demo_services demo_verifier [group_at ''g''] demo_material [] [] demo_vstate) of
      Inr evs \<Rightarrow> map pe_gate evs = [False] | Inl _ \<Rightarrow> False"
    by code_simp
qed (use group_verification [OF backwards_schedule(2) demo_vstate_ok] in blast)

theorem blocked_groups_fail_closed_witness:
  "\<exists>e. fst (group_VerifyStatement (\<lambda>_. backwards) demo_services demo_verifier [group_at ''https://10.0.0.1/g.yaml'', group_at ''g''] (Inr ''{}'') demo_vstate) = Inl e"
proof -
  have "case group_of_ref (sv_env demo_services) (pv_guarded_client demo_verifier) (group_at ''https://10.0.0.1/g.yaml'') of
      Inl x \<Rightarrow> errors_is x ErrBlockedTarget | Inr _ \<Rightarrow> False" by code_simp
  then obtain x where x: "group_of_ref (sv_env demo_services) (pv_guarded_client demo_verifier) (group_at ''https://10.0.0.1/g.yaml'') = Inl x"
    "errors_is x ErrBlockedTarget" by (auto split: sum.splits)
  show ?thesis
    using blocked_groups_fail_closed [OF backwards_schedule(2) demo_vstate_ok _ x,
        of "[group_at ''https://10.0.0.1/g.yaml'', group_at ''g'']"] by auto
qed

text \<open>Files are read from a directory, and scripts at a URL with the client that is passed along.\<close>

definition file_services :: services where
  "file_services = demo_services\<lparr>sv_env := demo_env\<lparr>env_eval_symlinks := (\<lambda>_. Inl offline), env_path_join := (\<lambda>_ _. ''x''),
     env_url_parse := (\<lambda>_. Inl offline), env_url_resolve := (\<lambda>_ _. Inl offline),
     env_load_blob := (\<lambda>get p. if fst (RefParts p) = httpScheme \<or> fst (RefParts p) = httpsScheme then
        (case get p of HttpFailure x \<Rightarrow> Inl x | _ \<Rightarrow> Inr ''script'') else Inr ''package'')\<rparr>\<rparr>"

lemma file_services_laws: "library_laws (sv_env file_services)"
proof -
  have "fst (RefParts ''x'') = []" by code_simp
  then show ?thesis by (simp add: library_laws_def file_services_def)
qed

theorem public_targets_only_witness:
  "VerifyMaterial backwards (rewired (\<lambda>_. HttpFailure offline) file_services)
       (fst (NewPolicyVerifier 4 demo_policies None [pv_WithPublicTargetsOnly])) demo_material [] [] demo_vstate =
   VerifyMaterial backwards file_services
       (fst (NewPolicyVerifier 4 demo_policies None [pv_WithPublicTargetsOnly])) demo_material [] [] demo_vstate"
proof -
  have "pv_public_only (fst (NewPolicyVerifier 4 demo_policies None [pv_WithPublicTargetsOnly]))"
    by (simp add: NewPolicyVerifier_def pv_WithPublicTargetsOnly_def Let_def)
  from public_targets_only [OF refl this file_services_laws] show ?thesis by blast
qed

section \<open>Contracts\<close>

definition demo_checks :: ref_checks where
  "demo_checks = \<lparr>rc_new_hash = (\<lambda>d. if CHR ''/'' \<in> set d then Inl offline else Inr ()),
     rc_parse_url = (\<lambda>s. Inr \<lparr>pu_path = s, pu_host = []\<rparr>), rc_dns_label = (\<lambda>_. [])\<rparr>"

definition demo_ref :: "string \<Rightarrow> policy_attachment" where
  "demo_ref r = \<lparr>pa_policy = AttRef r, pa_selector = None, pa_disabled = False, pa_with = [], pa_requirements = [], pa_gate = None\<rparr>"

definition demo_schema :: crafting_schema where
  "demo_schema = \<lparr>ss_materials = [], ss_env_allow_list = [], ss_runner = None,
     ss_policies = Some \<lparr>pols_materials = [demo_ref ''https://x.dev/p.yaml@sha256:aa''], pols_attestation = []\<rparr>,
     ss_policy_groups = [], ss_annotations = [], ss_schema_version = ''v1''\<rparr>"

theorem validated_refs_have_loaders_witness:
  "\<exists>k. getLoader (demo_ref ''https://x.dev/p.yaml@sha256:aa'') = Inr k \<and> loader_accepts k ''https://x.dev/p.yaml@sha256:aa''"
proof -
  have "ValidatePolicyAttachments demo_checks demo_schema = Inr ()" by code_simp
  moreover have "digest_no_slash demo_checks" by (simp add: digest_no_slash_def demo_checks_def)
  moreover have "demo_ref ''https://x.dev/p.yaml@sha256:aa'' \<in>
      set (pols_attestation (get_policies (ss_policies demo_schema)) @ pols_materials (get_policies (ss_policies demo_schema)))"
    by (simp add: demo_schema_def get_policies_def)
  moreover have "get_ref (demo_ref ''https://x.dev/p.yaml@sha256:aa'') = ''https://x.dev/p.yaml@sha256:aa''"
    by (simp add: demo_ref_def get_ref_def)
  ultimately show ?thesis
    using validated_refs_have_loaders [of demo_checks demo_schema undefined "demo_ref ''https://x.dev/p.yaml@sha256:aa''"] by simp
qed

definition demo_contract_v2 :: crafting_schema_v2 where
  "demo_contract_v2 = \<lparr>v2s_name = ''c'', v2s_spec = Some \<lparr>ss_materials = [], ss_env_allow_list = [], ss_runner = None,
     ss_policies = Some \<lparr>pols_materials = [demo_ref ''https://x.dev/p.yaml@sha256:aa''], pols_attestation = []\<rparr>,
     ss_policy_groups = [], ss_annotations = []\<rparr>\<rparr>"

theorem downgrade_keeps_verdicts_witness:
  "ValidatePolicyAttachmentsV2 demo_checks demo_contract_v2 = ValidatePolicyAttachments demo_checks demo_schema"
  using downgrade_keeps_verdicts [of demo_contract_v2 demo_schema demo_checks]
  by (simp add: ToV1_def demo_contract_v2_def demo_schema_def)

section \<open>The attestation state\<close>

definition blank_state :: crafting_state where
  "blank_state = \<lparr>cs_attestation = empty_attestation, cs_schema = NoSchema, cs_dry_run = True\<rparr>"

definition one_material :: crafting_state where
  "one_material = \<lparr>cs_attestation = empty_attestation\<lparr>att_materials := [(''m'', demo_material)]\<rparr>, cs_schema = NoSchema, cs_dry_run = True\<rparr>"

lemma demo_states_differ: "blank_state \<noteq> one_material"
  by (simp add: blank_state_def one_material_def empty_attestation_def)

text \<open>A codec for the two states, a constant block function, and the identity as digest.\<close>

definition demo_state_env :: state_env where
  "demo_state_env =
     \<lparr>se_uuid_parse = Inr,
      se_marshal = (\<lambda>s. if s = blank_state then Inr [0] else if s = one_material then Inr [1] else Inl offline),
      se_unmarshal = (\<lambda>b. if b = [0] then Inr blank_state else if b = [1] then Inr one_material else Inl offline),
      se_derive_key = (\<lambda>_ _. []), se_block = (\<lambda>_ _. replicate 16 0),
      se_digest = (\<lambda>b. CHR ''d'' # map (\<lambda>w. char_of (unat w)) b)\<rparr>"

lemma demo_proto_good: "\<forall>s. proto_good demo_state_env s"
  by (auto simp: proto_good_def full_blocks_def demo_state_env_def)

lemma byte_char_inj: "inj (\<lambda>w :: byte. char_of (unat w))"
proof (rule injI)
  fix x y :: byte assume "char_of (unat x) = (char_of (unat y) :: char)"
  then have "(of_char (char_of (unat x) :: char) :: nat) = of_char (char_of (unat y) :: char)" by simp
  then have "unat x mod 256 = unat y mod 256" by (simp only: of_char_of)
  moreover have "unat x < 256" "unat y < 256" using unsigned_less [of x] unsigned_less [of y] by simp_all
  ultimately have "unat x = unat y" by simp
  then show "x = y" by (rule unsigned_word_eqI)
qed

lemma demo_digest_ok: "digest_ok demo_state_env"
  using byte_char_inj by (auto simp: digest_ok_def demo_state_env_def inj_def dest: map_injective)

text \<open>With a zero key stream the stored bytes are salt, vector and plain text.\<close>

abbreviation zero_block :: bytes where
  "zero_block \<equiv> replicate 16 0"

lemma xor_zero: "length xs \<le> 16 \<Longrightarrow> xor_bytes xs zero_block = xs"
  by (rule nth_equalityI) (simp_all add: xor_bytes_def)

lemma cfb_zero: "data \<noteq> [] \<Longrightarrow> length data \<le> 16 \<Longrightarrow> cfb_encrypt (\<lambda>_. zero_block) iv data = data"
  by (subst cfb_encrypt.simps) (simp add: xor_zero cfb_encrypt.simps)

definition sealed :: "byte \<Rightarrow> bytes" where
  "sealed b = zero_block @ zero_block @ magic @ [b]"

lemma demo_encrypt: "encrypt demo_state_env [b] p (Inr zero_block) (Inr zero_block) = Inr (sealed b)"
  by (simp add: encrypt_def maxEncryptedSize_def demo_state_env_def cfb_zero magic_def sealed_def)

text \<open>A server after \<open>n\<close> random draws, two for each save, on a network without faults.\<close>

definition server_with :: "bytes option \<Rightarrow> nat \<Rightarrow> server" where
  "server_with stored n =
    \<lparr>sr_runs = [''run'' \<mapsto> \<lparr>rr_workflow = ''wf'', rr_state = stored\<rparr>], sr_random = (\<lambda>_. Inr zero_block), sr_drawn = n,
     sr_net = (\<lambda>_. None), sr_calls = n div 2\<rparr>"

lemma demo_random: "good_random (server_with stored n)"
  by (simp add: good_random_def server_with_def)

abbreviation blank_v :: "string \<Rightarrow> versioned" where
  "blank_v d \<equiv> \<lparr>vcs_state = blank_state, vcs_checksum = d\<rparr>"

abbreviation one_v :: "string \<Rightarrow> versioned" where
  "one_v d \<equiv> \<lparr>vcs_state = one_material, vcs_checksum = d\<rparr>"

lemma digest_nonempty: "se_digest demo_state_env b \<noteq> []"
  using demo_digest_ok by (simp add: digest_ok_def)

lemma demo_check: "checkWorkflowRunInWorkflow demo_state_env (server_with stored n) ''wf'' ''run'' = Inr ''run''"
  by (simp add: checkWorkflowRunInWorkflow_def demo_state_env_def server_with_def)

lemma demo_marshal: "se_marshal demo_state_env blank_state = Inr [0]" "se_marshal demo_state_env one_material = Inr [1]"
  using demo_states_differ by (simp_all add: demo_state_env_def)

lemma demo_save:
  assumes "base = [] \<or> (\<exists>b. stored = Some b \<and> base = se_digest demo_state_env b)" and "se_marshal demo_state_env s = Inr [x]"
  shows "remote_Write demo_state_env ''wf'' ''secret'' (server_with stored n) ''run'' \<lparr>vcs_state = s, vcs_checksum = base\<rparr> =
    (Inr \<lparr>vcs_state = s, vcs_checksum = se_digest demo_state_env (sealed x)\<rparr>, server_with (Some (sealed x)) (n + 2))"
proof -
  let ?sr = "(server_with stored n)\<lparr>sr_calls := n div 2 + 1\<rparr>"
  have uuid: "se_uuid_parse demo_state_env y = Inr y" for y by (simp add: demo_state_env_def)
  have "uc_Save demo_state_env ?sr ''wf'' ''run'' s ''secret'' base = (Inr (se_digest demo_state_env (sealed x)), server_with (Some (sealed x)) (n + 2))"
    using assms(1)
    by (auto simp: uc_Save_def checkWorkflowRunInWorkflow_def uuid assms(2) server_with_def demo_encrypt repo_Save_def)
  then show ?thesis by (simp add: remote_Write_def rpc_def server_with_def digest_nonempty)
qed

theorem remote_state_roundtrip_witness:
  "remote_Read demo_state_env ''wf'' ''secret'' (server_with (Some (sealed 1)) 2) ''run'' = Inr (one_v (se_digest demo_state_env (sealed 1)))"
proof -
  have "remote_Write demo_state_env ''wf'' ''secret'' (server_with None 0) ''run'' (one_v []) =
      (Inr (one_v (se_digest demo_state_env (sealed 1))), server_with (Some (sealed 1)) 2)"
    using demo_save [of "[]" None one_material 1 0] demo_marshal by (simp add: numeral_2_eq_2)
  from remote_state_roundtrip [OF this _ demo_random demo_digest_ok] demo_proto_good show ?thesis by blast
qed

theorem attestation_state_isolated_witness:
  "\<exists>x. uc_Read demo_state_env (server_with (Some (sealed 1)) 0) ''other'' ''run'' ''secret'' = Inl x \<and>
     uc_Reset demo_state_env (server_with (Some (sealed 1)) 0) ''other'' ''run'' = (Inl x, server_with (Some (sealed 1)) 0)"
proof -
  have "se_uuid_parse demo_state_env ''other'' = Inr ''other''" "se_uuid_parse demo_state_env ''run'' = Inr ''run''"
    "sr_runs (server_with (Some (sealed 1)) 0) ''run'' = Some \<lparr>rr_workflow = ''wf'', rr_state = Some (sealed 1)\<rparr>"
    "rr_workflow \<lparr>rr_workflow = ''wf'', rr_state = Some (sealed 1)\<rparr> \<noteq> ''other''"
    by (simp_all add: demo_state_env_def server_with_def)
  from attestation_state_isolated [OF this, of "''secret''" blank_state "[]"] show ?thesis by blast
qed

text \<open>Two clients read the same state; the first one stores a material, so the second one is refused.\<close>

theorem no_lost_updates_witness:
  "\<exists>x sr'. remote_Write demo_state_env ''wf'' ''secret'' (server_with (Some (sealed 1)) 4) ''run''
     (blank_v (se_digest demo_state_env (sealed 0))) = (Inl x, sr') \<and> sr_runs sr' = sr_runs (server_with (Some (sealed 1)) 4)"
proof -
  let ?d = "se_digest demo_state_env" and ?old = "server_with (Some (sealed 0)) 2"
  let ?none = "\<lparr>cl_copy = None, cl_base = None\<rparr>" and ?got = "\<lparr>cl_copy = Some (blank_v (?d (sealed 0))), cl_base = Some (sealed 0)\<rparr>"
  let ?edit = "\<lparr>cl_copy = Some (one_v (?d (sealed 0))), cl_base = Some (sealed 0)\<rparr>"
  let ?done = "\<lparr>cl_copy = Some (one_v (?d (sealed 1))), cl_base = Some (sealed 1)\<rparr>"
  let ?step = "client_step demo_state_env ''wf'' (\<lambda>_. ''secret'') ''run''"
  have stored: "stored_state demo_state_env (server_with (Some (sealed x)) n) ''run'' = Some (sealed x)" for x n
    by (simp add: stored_state_def demo_state_env_def server_with_def)
  have w0: "remote_Write demo_state_env ''wf'' ''secret'' (server_with None 0) ''run'' (blank_v []) = (Inr (blank_v (?d (sealed 0))), ?old)"
    using demo_save [of "[]" None blank_state 0 0] demo_marshal by (simp add: numeral_2_eq_2)
  have rd: "remote_Read demo_state_env ''wf'' ''secret'' ?old ''run'' = Inr (blank_v (?d (sealed 0)))"
    using remote_Read_written [OF w0 _ demo_random demo_digest_ok] demo_proto_good by blast
  have w1: "remote_Write demo_state_env ''wf'' ''secret'' ?old ''run'' (one_v (?d (sealed 0))) =
      (Inr (one_v (?d (sealed 1))), server_with (Some (sealed 1)) 4)"
    using demo_save [of "?d (sealed 0)" "Some (sealed 0)" one_material 1 2] demo_marshal by simp
  let ?y0 = "\<lparr>sys_server = ?old, sys_client = (\<lambda>_. ?none)\<rparr>"
  let ?y1 = "\<lparr>sys_server = ?old, sys_client = (\<lambda>_. ?none)(0 := ?got)\<rparr>"
  let ?y2 = "\<lparr>sys_server = ?old, sys_client = (\<lambda>_. ?none)(0 := ?got, 1 := ?got)\<rparr>"
  let ?y3 = "\<lparr>sys_server = ?old, sys_client = (\<lambda>_. ?none)(0 := ?edit, 1 := ?got)\<rparr>"
  let ?y4 = "\<lparr>sys_server = server_with (Some (sealed 1)) 4, sys_client = (\<lambda>_. ?none)(0 := ?done, 1 := ?got)\<rparr>"
  have s1: "?step ?y0 ?y1" using client_step.step_read [of demo_state_env "''wf''" "\<lambda>_. ''secret''" 0 ?y0 "''run''" "blank_v (?d (sealed 0))"] rd stored by simp
  have s2: "?step ?y1 ?y2" using client_step.step_read [of demo_state_env "''wf''" "\<lambda>_. ''secret''" 1 ?y1 "''run''" "blank_v (?d (sealed 0))"] rd stored by simp
  have s3: "?step ?y2 ?y3"
    using client_step.step_edit [of ?y2 0 "blank_v (?d (sealed 0))" demo_state_env "''wf''" "\<lambda>_. ''secret''" "''run''" one_material]
    by (simp add: fun_upd_twist)
  have s4: "?step ?y3 ?y4"
    using client_step.step_write [of ?y3 0 "one_v (?d (sealed 0))" demo_state_env "''wf''" "\<lambda>_. ''secret''" "''run''"
        "one_v (?d (sealed 1))" "server_with (Some (sealed 1)) 4"] w1 stored
    by (simp add: fun_upd_twist)
  have s0: "client_run demo_state_env ''wf'' (\<lambda>_. ''secret'') ''run'' ?y0 ?y0" by (rule run_start) simp
  note run = run_step [OF run_step [OF run_step [OF run_step [OF s0 s1] s2] s3] s4]
  have "stored_state demo_state_env (sys_server ?y4) ''run'' \<noteq> cl_base (sys_client ?y4 1)"
    by (simp add: stored) (simp add: sealed_def)
  with no_lost_updates [OF run demo_digest_ok, of 1 "blank_v (?d (sealed 0))"] show ?thesis by (simp add: digest_nonempty)
qed

section \<open>Crafting\<close>

text \<open>Materials are strings; the value \<open>bad\<close> cannot be crafted.\<close>

definition demo_crafter_env :: crafter_env where
  "demo_crafter_env =
     \<lparr>ck_services = demo_services, ck_num_cpu = 4, ck_logger = None, ck_sched_groups = (\<lambda>_. backwards), ck_sched_policies = backwards,
      ck_kind_crafter = (\<lambda>_. Inr (\<lambda>value. if value = ''bad'' then Inl offline
        else Inr \<lparr>crf_material = demo_material\<lparr>mat_body := MString value []\<rparr>, crf_content = []\<rparr>)),
      ck_validate_schema_material = (\<lambda>m. if sm_name m = [] then Inl offline else Inr ()), ck_validate_material = (\<lambda>_. Inr ()),
      ck_validate_state = (\<lambda>_. Inr ()), ck_kind_of_name = (\<lambda>n. if n = ''STRING'' then Some STRING else None),
      ck_kind_name = (\<lambda>_. ''STRING''), ck_is_conflict = (\<lambda>_. False), ck_is_validation_error = (\<lambda>_. False), ck_now = (\<lambda>_. ''1''),
      ck_walk_archive = (\<lambda>path. Inr (if path = ''two.zip'' then [''a'', ''b''] else [''a'', ''bad''])), ck_tmp_path = (\<lambda>_ name. name)\<rparr>"

text \<open>A store that takes every state.\<close>

definition open_env :: state_env where
  "open_env = demo_state_env\<lparr>se_marshal := (\<lambda>_. Inr [0])\<rparr>"

abbreviation open_manager :: "server state_manager" where
  "open_manager \<equiv> remote_manager open_env ''wf'' ''secret''"

definition plain_opts :: add_opts where
  "plain_opts = \<lparr>ao_runtime_inputs = None, ao_record_source_archive = False\<rparr>"

definition loaded :: "versioned \<Rightarrow> server crafter" where
  "loaded v = \<lparr>cr_state = Some v, cr_store = server_with None 0\<rparr>"

lemma blank_owned: "evaluations_owned (v_attestation (blank_v d))"
  by (simp add: evaluations_owned_def blank_state_def empty_attestation_def)

lemma open_env_same:
  "encrypt open_env = encrypt demo_state_env" "checkWorkflowRunInWorkflow open_env = checkWorkflowRunInWorkflow demo_state_env"
  "se_digest open_env = se_digest demo_state_env"
  by (simp_all add: fun_eq_iff encrypt_def checkWorkflowRunInWorkflow_def open_env_def)

lemma open_write:
  assumes "vcs_checksum v = []" and "cr_store c = server_with None 0"
  shows "\<exists>h. write_state open_manager ''run'' v c =
    (Inr (), c\<lparr>cr_state := Some (v\<lparr>vcs_checksum := se_digest demo_state_env (sealed 0)\<rparr>), cr_store := h\<rparr>)"
proof -
  have e: "encrypt demo_state_env [0] ''secret'' (sr_random (server_with None 0) 0) (sr_random (server_with None 0) 1) = Inr (sealed 0)"
    by (simp add: server_with_def demo_encrypt)
  have sv: "sr_drawn (server_with None 0) = 0" "sr_runs (server_with None 0) ''run'' = Some \<lparr>rr_workflow = ''wf'', rr_state = None\<rparr>"
    "sr_net (server_with None 0) k = None" "se_marshal open_env s = Inr [0]"
    "checkWorkflowRunInWorkflow demo_state_env ((server_with None 0)\<lparr>sr_calls := k\<rparr>) ''wf'' ''run'' = Inr ''run''" for s k
    by (simp_all add: server_with_def open_env_def checkWorkflowRunInWorkflow_def demo_state_env_def)
  show ?thesis
    using assms
    by (auto simp: write_state_def remote_manager_def remote_Write_def rpc_def Let_def uc_Save_def open_env_same sv e [simplified] repo_Save_def
        digest_nonempty)
qed

theorem archive_adds_every_entry_witness:
  "\<exists>mts c' w. AddMaterialsFromArchive demo_crafter_env open_manager plain_opts ''run'' ''STRING'' ''m'' ''two.zip'' [] (loaded (blank_v [])) =
     (Inr mts, c') \<and> length mts = 2 \<and> cr_state c' = Some w \<and> length (att_materials (v_attestation w)) \<ge> 2"
proof -
  define start where "start = \<lparr>ar_allocator = NewNameAllocator [], ar_staged = [], ar_result = [], ar_state = blank_v []\<rparr>"
  obtain q r where st: "stage_archive demo_crafter_env plain_opts STRING ''m'' ''two.zip'' [] (archive_entries demo_crafter_env [''a'', ''b'']) start = (q, r)"
    by fastforce
  have "case stage_archive demo_crafter_env plain_opts STRING ''m'' ''two.zip'' [] (archive_entries demo_crafter_env [''a'', ''b''])
      \<lparr>ar_allocator = NewNameAllocator [], ar_staged = [], ar_result = [], ar_state = blank_v []\<rparr> of
      (Inr _, r) \<Rightarrow> ar_staged r = [''m'', ''m-1''] \<and> vcs_checksum (ar_state r) = [] | _ \<Rightarrow> False"
    by code_simp
  with st have q: "q = Inr ()" "vcs_checksum (ar_state r) = []" by (auto simp: start_def split: sum.splits)
  then obtain h where w: "write_state open_manager ''run'' (ar_state r) (loaded (blank_v [])) = (Inr (), (loaded (blank_v []))\<lparr>cr_state :=
      Some ((ar_state r)\<lparr>vcs_checksum := se_digest demo_state_env (sealed 0)\<rparr>), cr_store := h\<rparr>)"
    using open_write [of "ar_state r" "loaded (blank_v [])"] by (auto simp: loaded_def)
  have k: "ck_kind_of_name demo_crafter_env ''STRING'' = Some STRING" "ck_walk_archive demo_crafter_env ''two.zip'' = Inr [''a'', ''b'']"
    "cr_state (loaded (blank_v [])) = Some (blank_v [])" "att_materials (cs_attestation blank_state) = []"
    by (simp_all add: demo_crafter_env_def loaded_def blank_state_def empty_attestation_def)
  have a: "\<exists>c'. AddMaterialsFromArchive demo_crafter_env open_manager plain_opts ''run'' ''STRING'' ''m'' ''two.zip'' []
      (loaded (blank_v [])) = (Inr (ar_result r), c')"
    using st q w by (simp add: AddMaterialsFromArchive_def k Let_def start_def)
  then obtain c' where a: "AddMaterialsFromArchive demo_crafter_env open_manager plain_opts ''run'' ''STRING'' ''m'' ''two.zip'' []
      (loaded (blank_v [])) = (Inr (ar_result r), c')" ..
  from archive_adds_every_entry [OF a k(3) blank_owned] obtain w ms where
    "length (ar_result r) = 2" "prefix (ar_result r) (map snd ms)" "cr_state c' = Some w"
    "att_materials (v_attestation w) = att_materials (v_attestation (blank_v [])) @ ms"
    by (auto simp: k)
  with a show ?thesis by (auto dest!: prefix_length_le)
qed

definition string_material :: schema_material where
  "string_material = \<lparr>sm_type = STRING, sm_name = ''m'', sm_optional = True, sm_output = False, sm_annotations = [],
     sm_skip_upload = False, sm_group = []\<rparr>"

lemma demo_crafted:
  "craft_annotated demo_crafter_env string_material ''hello'' [] = Inr \<lparr>crf_material = demo_material, crf_content = []\<rparr>"
  by (simp add: craft_annotated_def Craft_def demo_crafter_env_def string_material_def demo_material_def add_runtime_annotations_def
      missing_annotation_def)

lemma demo_no_policies: "material_evaluations demo_crafter_env plain_opts (blank_v d) demo_material ''hello'' [] = Inr []"
  by (simp add: material_evaluations_def verify_groups_on_def verify_policies_on_def crafter_verifier_def NewPolicyVerifier_def Let_def
      blank_state_def GetPolicyGroups_def GetPolicies_def get_policies_def group_VerifyMaterial_def VerifyMaterial_def
      requiredPoliciesForMaterial_def)

lemma demo_staged:
  "stageMaterial demo_crafter_env plain_opts string_material ''hello'' [] (blank_v []) = (Inr demo_material, one_v [])"
  using stage_evaluates [OF demo_crafted, of plain_opts "blank_v []" "[]"] demo_no_policies
  by (simp add: set_attestation_def put_material_def append_evaluations_def drop_evaluations_def blank_state_def one_material_def
        empty_attestation_def string_material_def)

theorem add_material_replaces_witness:
  "\<exists>c' w. addMaterial demo_crafter_env (remote_manager demo_state_env ''wf'' ''secret'') plain_opts string_material ''run'' ''hello'' []
      (blank_v []) (loaded (blank_v [])) = (Inr demo_material, c') \<and> cr_state c' = Some w \<and>
     map_of (att_materials (v_attestation w)) = [''m'' \<mapsto> demo_material]"
proof -
  have "remote_Write demo_state_env ''wf'' ''secret'' (server_with None 0) ''run'' (one_v []) =
      (Inr (one_v (se_digest demo_state_env (sealed 1))), server_with (Some (sealed 1)) 2)"
    using demo_save [of "[]" None one_material 1 0] demo_marshal by (simp add: numeral_2_eq_2)
  then obtain c' where a: "addMaterial demo_crafter_env (remote_manager demo_state_env ''wf'' ''secret'') plain_opts string_material ''run''
      ''hello'' [] (blank_v []) (loaded (blank_v [])) = (Inr demo_material, c')"
    by (simp add: addMaterial_def demo_staged write_state_def loaded_def remote_manager_def)
  have r: "good_random (cr_store (loaded (blank_v [])))" by (simp add: loaded_def demo_random)
  from add_material_replaces [OF a r demo_proto_good] obtain w where "cr_state c' = Some w"
    "map_of (att_materials (v_attestation w)) = (map_of (att_materials (v_attestation (blank_v []))))(sm_name string_material \<mapsto> demo_material)"
    by blast
  with a show ?thesis by (auto simp: blank_state_def empty_attestation_def string_material_def)
qed

theorem contract_annotations_win_witness:
  "\<exists>r. craft_annotated demo_crafter_env
      (string_material\<lparr>sm_annotations := [\<lparr>ann_name = ''env'', ann_value = ''prod''\<rparr>, \<lparr>ann_name = ''team'', ann_value = []\<rparr>]\<rparr>) ''hello''
      [(''env'', ''dev''), (''team'', ''core'')] = Inr r \<and>
     map_of (mat_annotations (crf_material r)) ''env'' = Some ''prod''"
proof -
  let ?m = "string_material\<lparr>sm_annotations := [\<lparr>ann_name = ''env'', ann_value = ''prod''\<rparr>, \<lparr>ann_name = ''team'', ann_value = []\<rparr>]\<rparr>"
  let ?rt = "[(''env'', ''dev''), (''team'', ''core'')]"
  obtain r where r: "craft_annotated demo_crafter_env ?m ''hello'' ?rt = Inr r"
    by (simp add: craft_annotated_def Craft_def demo_crafter_env_def string_material_def demo_material_def add_runtime_annotations_def
      missing_annotation_def gm_get_def)
  from contract_annotations_win [OF r, of "\<lparr>ann_name = ''env'', ann_value = ''prod''\<rparr>"] r show ?thesis
    by (auto simp: gm_wf_def)
qed

definition policy_state :: crafting_state where
  "policy_state = blank_state\<lparr>cs_schema := InputSchema (demo_schema\<lparr>ss_policies := Some demo_policies\<rparr>)\<rparr>"

lemma policy_state_verifier:
  "crafter_verifier demo_crafter_env \<lparr>vcs_state = policy_state, vcs_checksum = []\<rparr> [pv_WithEvalPhase EvalPhasePush] =
     NewPolicyVerifier 4 demo_policies None [pv_WithAllowedHostnames [], pv_WithDefaultGate False, pv_WithProjectContext [] [],
       pv_WithEvalPhase EvalPhasePush]"
  by (simp add: crafter_verifier_def verifier_opts_def projectContext_def Let_def policy_state_def blank_state_def empty_attestation_def
      GetPolicies_def get_policies_def demo_crafter_env_def)

theorem attestation_evaluations_merged_witness:
  "\<exists>c' w es. EvaluateAttestationPolicies demo_crafter_env open_manager ''run'' (Inr ''{}'') EvalPhasePush
      \<lparr>vcs_state = policy_state, vcs_checksum = []\<rparr> (loaded \<lparr>vcs_state = policy_state, vcs_checksum = []\<rparr>) = (Inr (), c') \<and>
     cr_state c' = Some w \<and> length es = 2 \<and> merged_ok es [] (att_evaluations (v_attestation w))"
proof -
  let ?v = "\<lparr>vcs_state = policy_state, vcs_checksum = []\<rparr>"
  obtain pv st where pv: "crafter_verifier demo_crafter_env ?v [pv_WithEvalPhase EvalPhasePush] = (pv, st)" by fastforce
  have gs: "GetPolicyGroups policy_state = []" "att_evaluations (cs_attestation policy_state) = []"
    by (simp_all add: policy_state_def GetPolicyGroups_def demo_schema_def blank_state_def empty_attestation_def)
  have ck: "ck_sched_policies demo_crafter_env = backwards" "ck_services demo_crafter_env = demo_services"
    by (simp_all add: demo_crafter_env_def)
  have "case NewPolicyVerifier 4 demo_policies None [pv_WithAllowedHostnames [], pv_WithDefaultGate False, pv_WithProjectContext [] [],
       pv_WithEvalPhase EvalPhasePush] of (pv, st) \<Rightarrow>
     (case fst (VerifyStatement backwards demo_services pv (Inr ''{}'') st) of Inr es \<Rightarrow> length es = 2 | _ \<Rightarrow> False)"
    by code_simp
  then obtain es where es: "fst (VerifyStatement backwards demo_services pv (Inr ''{}'') st) = Inr es" "length es = 2"
    using pv policy_state_verifier by (auto split: sum.splits)
  obtain h where "write_state open_manager ''run'' (set_attestation (\<lambda>att. att\<lparr>att_evaluations := merge_evaluations es (att_evaluations att)\<rparr>) ?v) (loaded ?v) =
    (Inr (), (loaded ?v)\<lparr>cr_state := Some ((set_attestation (\<lambda>att. att\<lparr>att_evaluations := merge_evaluations es (att_evaluations att)\<rparr>) ?v)
       \<lparr>vcs_checksum := se_digest demo_state_env (sealed 0)\<rparr>), cr_store := h\<rparr>)"
    using open_write [of "set_attestation (\<lambda>att. att\<lparr>att_evaluations := merge_evaluations es (att_evaluations att)\<rparr>) ?v" "loaded ?v"]
    by (auto simp: loaded_def)
  then obtain c' where e: "EvaluateAttestationPolicies demo_crafter_env open_manager ''run'' (Inr ''{}'') EvalPhasePush ?v (loaded ?v) = (Inr (), c')"
    using pv es by (auto simp: EvaluateAttestationPolicies_def ck gs group_VerifyStatement_def)
  have first: "attestation_first (att_evaluations (v_attestation ?v))" by (simp add: gs attestation_first_def)
  from attestation_evaluations_merged [OF e first pv] es(1) obtain w gs' where "cr_state c' = Some w"
    "fst (group_VerifyStatement (ck_sched_groups demo_crafter_env) demo_services pv [] (Inr ''{}'') st) = Inr gs'"
    "merged_ok (es @ gs') [] (att_evaluations (v_attestation w))"
    by (auto simp: ck gs)
  moreover from this(2) have "gs' = []" by (simp add: group_VerifyStatement_def)
  ultimately show ?thesis using e es(2) by auto
qed

section \<open>A session\<close>

definition demo_codec :: json_codec where
  "demo_codec = \<lparr>jc_marshal = (\<lambda>s. if s = blank_state then Inr ''0'' else if s = one_material then Inr ''1'' else Inl offline),
     jc_unmarshal = (\<lambda>s. if s = ''0'' then Inr blank_state else if s = ''1'' then Inr one_material else Inl offline)\<rparr>"

theorem archive_all_or_nothing_witness:
  "\<exists>x c'. AddMaterialsFromArchive demo_crafter_env (remote_manager demo_state_env ''wf'' ''secret'') plain_opts ''run'' ''STRING'' ''m'' ''broken.zip'' []
     (loaded (blank_v [])) = (Inl x, c') \<and> cr_state c' = Some (blank_v []) \<and>
     all_or_nothing (remote_manager demo_state_env ''wf'' ''secret'') False demo_crafter_env ''broken.zip'' ''run'' (blank_v [])
       (cr_store (loaded (blank_v []))) (cr_store c')"
proof -
  obtain r c' where a: "AddMaterialsFromArchive demo_crafter_env (remote_manager demo_state_env ''wf'' ''secret'') plain_opts ''run'' ''STRING''
      ''m'' ''broken.zip'' [] (loaded (blank_v [])) = (r, c')" by fastforce
  have "case stage_archive demo_crafter_env plain_opts STRING ''m'' ''broken.zip'' [] (archive_entries demo_crafter_env [''a'', ''bad''])
      \<lparr>ar_allocator = NewNameAllocator [], ar_staged = [], ar_result = [], ar_state = blank_v []\<rparr> of
      (Inl _, r) \<Rightarrow> ar_staged r = [''m''] | _ \<Rightarrow> False"
    by code_simp
  with a obtain x where r: "r = Inl x"
    by (auto simp: AddMaterialsFromArchive_def loaded_def demo_crafter_env_def Let_def blank_state_def empty_attestation_def
       split: prod.splits sum.splits)
  have codec: "\<forall>s. json_good demo_codec s" "json_framed demo_codec"
    by (auto simp: json_good_def json_framed_def demo_codec_def)
  have c: "cr_state (loaded (blank_v [])) = Some (blank_v [])" "good_random (cr_store (loaded (blank_v [])))"
    by (simp_all add: loaded_def demo_random)
  from archive_all_or_nothing [OF blank_owned demo_proto_good codec c, of "\<lparr>cr_state = Some (blank_v []), cr_store = undefined\<rparr>"]
    a [unfolded r] show ?thesis by auto
qed

text \<open>A file whose second write will fail, before and after the first one.\<close>

definition file_with :: "string \<Rightarrow> file_system" where
  "file_with s = \<lparr>fs_files = [''state'' \<mapsto> s], fs_fault = (\<lambda>_. None),
     fs_torn = (\<lambda>n. if n = 1 then Some (0, offline) else None), fs_writes = (if s = ''0'' then 0 else 1)\<rparr>"

definition demo_add_env :: add_env where
  "demo_add_env = \<lparr>ad_column = (\<lambda>_ _. Inl offline), ad_detect_archive = (\<lambda>_. Inr False), ad_cas_backend = Inl offline,
     ad_type_name = (\<lambda>_. ''STRING'')\<rparr>"

lemma demo_names_validated: "names_validated demo_crafter_env"
  by (simp add: names_validated_def demo_crafter_env_def)

text \<open>Adding the material \<open>m\<close> to the empty attestation in the file.\<close>

lemma demo_command:
  "\<exists>r c. AttestationAdd_Run demo_crafter_env demo_add_env (filesystem_manager demo_codec ''state'') ''run'' ''m'' ''hello'' ''STRING'' [] [] []
     (file_with ''0'') = (r, c) \<and> cr_store c = file_with ''1''"
proof -
  let ?sm = "filesystem_manager demo_codec ''state''"
  have "AttestationAdd_Run demo_crafter_env demo_add_env ?sm ''run'' ''m'' ''hello'' ''STRING'' [] [] [] (file_with ''0'') =
      add_and_record demo_crafter_env demo_add_env ?sm plain_opts ''run'' ''m'' ''hello'' ''STRING'' [] []
        \<lparr>cr_state = Some (blank_v []), cr_store = file_with ''0''\<rparr>"
    by (simp add: AttestationAdd_Run_def buildRuntimeInputs_def filesystem_manager_def fs_Initialized_def file_with_def LoadCraftingState_def
        fs_Read_def demo_codec_def Let_def shouldExplode_def demo_add_env_def runtimeInputAddOpts_def ri_empty_def plain_opts_def)
      (simp add: blank_state_def)
  moreover have "add_single demo_crafter_env ?sm plain_opts ''run'' ''m'' ''hello'' ''STRING'' []
        \<lparr>cr_state = Some (blank_v []), cr_store = file_with ''0''\<rparr> =
      (Inr demo_material, \<lparr>cr_state = Some (one_v []), cr_store = file_with ''1''\<rparr>)"
  proof -
    have "contract_free_material demo_crafter_env ''STRING'' ''m'' = Inr string_material"
      by (simp add: contract_free_material_def demo_crafter_env_def string_material_def)
    moreover have "cs_GetMaterials blank_state = []" by (simp add: cs_GetMaterials_def blank_state_def)
    ultimately show ?thesis
      using demo_states_differ
      by (simp add: add_single_def IsMaterialInContract_def AddMaterialContractFree_def addMaterial_def demo_staged write_state_def
          filesystem_manager_def fs_Write_def demo_codec_def file_with_def)
  qed
  ultimately show ?thesis
    by (simp add: add_and_record_def addPolicyInputEvidence_def policyInputEvidenceNames_def Let_def prod_eq_iff)
qed

theorem session_keeps_invariant_witness:
  "cli_run (filesystem_manager demo_codec ''state'') ''run'' (file_with ''0'') (file_with ''1'') \<and>
   stored_ok (filesystem_manager demo_codec ''state'') ''run'' (file_with ''1'')"
proof -
  obtain r c where "AttestationAdd_Run demo_crafter_env demo_add_env (filesystem_manager demo_codec ''state'') ''run'' ''m'' ''hello''
      ''STRING'' [] [] [] (file_with ''0'') = (r, c)" and store: "cr_store c = file_with ''1''" using demo_command by blast
  from cli_step.add [OF demo_names_validated this(1)] store
  have run: "cli_run (filesystem_manager demo_codec ''state'') ''run'' (file_with ''0'') (file_with ''1'')"
    by (auto intro: cli_run.intros)
  have "\<forall>s. json_good demo_codec s" "json_framed demo_codec"
    by (auto simp: json_good_def json_framed_def demo_codec_def)
  moreover have "stored_ok (filesystem_manager demo_codec ''state'') ''run'' (file_with ''0'')"
    by (simp add: stored_ok_def filesystem_manager_def fs_Read_def file_with_def demo_codec_def blank_state_def)
  ultimately show ?thesis using session_keeps_invariant [OF demo_proto_good] run by blast
qed

section \<open>Materials and the rendered attestation\<close>

definition demo_artifact :: material where
  "demo_artifact = \<lparr>mat_id = ''a'', mat_body = MArtifact \<lparr>art_name = ''a.txt'', art_digest = ''sha256:ff'', art_is_subject = False, art_content = []\<rparr>,
     mat_type = ARTIFACT, mat_uploaded = True, mat_inline = False,
     mat_annotations = [(AnnotationMaterialRedacted, ''true''), (AnnotationMaterialName, ''forged'')], mat_output = False, mat_required = True\<rparr>"

theorem redacted_material_closed_witness:
  "GetEvaluableContent demo_content demo_artifact ''a.txt'' [] = Inl ErrRedactedContentRequired"
  using redacted_material_closed [of demo_artifact demo_content "''a.txt''"]
  by (simp add: is_redacted_def demo_artifact_def gm_get_def)

lemma demo_descriptor:
  obtains d where "CraftingStateToIntotoDescriptor demo_content demo_artifact [] = Inr d"
proof -
  have "case CraftingStateToIntotoDescriptor demo_content demo_artifact [] of Inr _ \<Rightarrow> True | Inl _ \<Rightarrow> False" by code_simp
  with that show thesis by (auto split: sum.splits)
qed

theorem builtin_annotations_unforgeable_witness:
  "\<exists>d. CraftingStateToIntotoDescriptor demo_content demo_artifact [] = Inr d \<and>
     map_of (rd_annotations d) AnnotationMaterialName = Some (VString ''a'')"
proof -
  obtain d where d: "CraftingStateToIntotoDescriptor demo_content demo_artifact [] = Inr d" by (rule demo_descriptor)
  have "map_of (builtin_annotations (ce_type_name demo_content) demo_artifact (if ([] :: string) = [] then mat_id demo_artifact else []))
      AnnotationMaterialName = Some (VString ''a'')"
    using builtin_type_name(2) [of "ce_type_name demo_content" demo_artifact "mat_id demo_artifact"] by (simp add: demo_artifact_def)
  from builtin_annotations_unforgeable [OF d this] d show ?thesis by (simp add: annotation_defs)
qed

theorem material_roundtrip_witness:
  "\<exists>d n. CraftingStateToIntotoDescriptor demo_content demo_artifact [] = Inr d \<and>
     normalizeMaterial (\<lambda>_. []) (ce_type_name demo_content) d = Inr n \<and> nmt_name n = ''a'' \<and> nmt_hash n = Some ''ff'' \<and> nmt_uploaded n"
proof -
  obtain d where d: "CraftingStateToIntotoDescriptor demo_content demo_artifact [] = Inr d" by (rule demo_descriptor)
  from material_roundtrip [OF d, of "\<lparr>art_name = ''a.txt'', art_digest = ''sha256:ff'', art_is_subject = False, art_content = []\<rparr>" "''ff''" "\<lambda>_. []"] d
  show ?thesis by (auto simp: material_artifact_def demo_artifact_def demo_content_def)
qed

definition demo_evaluation :: policy_evaluation where
  "demo_evaluation = \<lparr>pe_name = ''p'', pe_material_name = [], pe_body = [], pe_sources = [],
     pe_violations = [\<lparr>av_subject = ''p'', av_message = ''bad'', av_suppress = False, av_finding = None\<rparr>], pe_annotations = [],
     pe_description = [], pe_with = [], pe_runtime_overrides = [], pe_type = ATTESTATION, pe_reference_name = [], pe_reference_digest = [],
     pe_policy_ref = \<lparr>rf_name = ''p'', rf_digest = [], rf_uri = [], rf_org = []\<rparr>, pe_skipped = False, pe_skip_reasons = [],
     pe_requirements = [], pe_raw = [], pe_gate = True, pe_group_ref = None\<rparr>"

definition gated_attestation :: attestation where
  "gated_attestation = empty_attestation\<lparr>att_evaluations := [demo_evaluation, demo_evaluation\<lparr>pe_violations := [], pe_skipped := True\<rparr>]\<rparr>"

lemma demo_grouped:
  obtains r where "groupEvaluations demo_content (att_evaluations gated_attestation) False = Inr r"
  by (simp add: groupEvaluations_def gated_attestation_def group_evaluation_def renderEvaluation_def renderReference_def demo_content_def demo_evaluation_def Let_def)

lemma demo_predicate:
  obtains p where "predicate demo_content gated_attestation None = Inr p"
proof -
  obtain r where "groupEvaluations demo_content (att_evaluations gated_attestation) False = Inr r" by (rule demo_grouped)
  with that show thesis
    by (simp add: predicate_def outputMaterials_def sorted_keys_def gated_attestation_def empty_attestation_def)
qed

theorem groupEvaluations_counts_witness:
  "\<exists>r. groupEvaluations demo_content (att_evaluations gated_attestation) False = Inr r \<and> evr_violations_count r = 1 \<and>
     evr_skipped_count r = 1 \<and> evr_has_gated r"
proof -
  obtain r where r: "groupEvaluations demo_content (att_evaluations gated_attestation) False = Inr r" by (rule demo_grouped)
  from groupEvaluations_counts [OF r] r show ?thesis
    by (auto simp: counters_of_def gated_attestation_def demo_evaluation_def active_violations_def gated_violation_def)
qed

theorem status_as_documented_witness:
  "\<exists>p. predicate demo_content gated_attestation None = Inr p \<and> pp_blocked p \<and>
     sum_status (DerivePolicyStatusSummary (Some (GetPolicyEvaluationStatus p))) = PolicyStatusBlocked"
proof -
  obtain p where p: "predicate demo_content gated_attestation None = Inr p" by (rule demo_predicate)
  have v: "list_ex (\<lambda>e. active_violations e > 0) (att_evaluations gated_attestation)"
    and rules: "status_rules gated_attestation = PolicyStatusBlocked"
    by (simp_all add: status_rules_def gated_violation_def gated_attestation_def demo_evaluation_def active_violations_def empty_attestation_def)
  from status_as_documented [OF p disjI2 [OF v]] rules p show ?thesis by simp
qed

theorem status_backfill_witness:
  "\<exists>p. predicate demo_content gated_attestation None = Inr p \<and>
     GetPolicyEvaluationStatus (p\<lparr>pp_skipped_count := 0, pp_passed_count := 0, pp_has_gates := False\<rparr>) = GetPolicyEvaluationStatus p"
proof -
  obtain p where p: "predicate demo_content gated_attestation None = Inr p" by (rule demo_predicate)
  with status_backfill [OF p] show ?thesis by blast
qed

theorem push_enforces_gates_witness:
  "validatePolicyEnforcement (fst (getPolicyEvaluations gated_attestation)) (att_block_on_violation gated_attestation) False \<noteq> Inr ()"
proof -
  obtain r where r: "groupEvaluations demo_content (att_evaluations gated_attestation) False = Inr r" by (rule demo_grouped)
  have "evr_has_gated r"
    using groupEvaluations_counters [OF r]
    by (auto simp: counters_of_def gated_attestation_def demo_evaluation_def active_violations_def gated_violation_def)
  with push_enforces_gates [OF r _, of False] show ?thesis by simp
qed

end
