(* ===== verification/Pagination.thy ===== *)
theory Pagination
  imports Base64 Go_Strings
begin

text \<open>
  Pagination of the control plane (\<open>app/controlplane/pkg/pagination\<close>): the opaque cursor, made of the
  creation time and the identifier of the last row of a page, the offset pages, and the way the
  repositories cut a page out of an ordered query and continue after it.

  A time is an instant in nanoseconds. Its RFC 3339 text and the parser of UUIDs are the fields of
  the record \<open>cursor_codec\<close>; a UUID is its canonical text.
\<close>

section \<open>Cursors\<close>

type_synonym uuid = string

record cursor_codec =
  cc_format_time :: "int \<Rightarrow> string"
  cc_parse_time :: "string \<Rightarrow> int res"
  cc_parse_uuid :: "string \<Rightarrow> uuid res"

record cursor_options =
  co_cursor :: "(int \<times> uuid) option"
  co_limit :: int

definition DefaultCursorLimit :: int where "DefaultCursorLimit = 10"

definition CursorPaginationError :: "err \<Rightarrow> err" where
  "CursorPaginationError x = TypedErr ''CursorPaginationError'' x"

definition decodeCursor :: "cursor_codec \<Rightarrow> string \<Rightarrow> (int \<times> uuid) res" where
  "decodeCursor cc encodedCursor =
     (case b64_decode encodedCursor of
        None \<Rightarrow> Inl (Errorf ''illegal base64 data'' [])
      | Some byt \<Rightarrow>
          (case split_char CHR '','' byt of
             [timestamp, rawID] \<Rightarrow>
               bind_res (cc_parse_time cc timestamp) (\<lambda>t. bind_res (cc_parse_uuid cc rawID) (\<lambda>uid. Inr (t, uid)))
           | _ \<Rightarrow> Inl (Errorf ''cursor is invalid'' [])))"

definition EncodeCursor :: "cursor_codec \<Rightarrow> int \<Rightarrow> uuid \<Rightarrow> string" where
  "EncodeCursor cc t uid = b64_encode (cc_format_time cc t @ '','' @ uid)"

definition NewCursor :: "cursor_codec \<Rightarrow> string \<Rightarrow> int \<Rightarrow> cursor_options res" where
  "NewCursor cc c l =
     bind_res (if c \<noteq> [] then
                 map_err (\<lambda>x. CursorPaginationError (Wrapf ''decoding cursor: %w'' [] x))
                   (bind_res (decodeCursor cc c) (\<lambda>cur. Inr (Some cur)))
               else Inr None) (\<lambda>cursor.
     Inr \<lparr>co_cursor = cursor, co_limit = (if l > 0 then l else DefaultCursorLimit)\<rparr>)"

section \<open>Offset pages\<close>

record offset_opts =
  oo_page :: int
  oo_page_size :: int

definition NewDefaultOffsetPaginationOpts :: offset_opts where
  "NewDefaultOffsetPaginationOpts = \<lparr>oo_page = 1, oo_page_size = 100\<rparr>"

text \<open>\<open>Offset\<close> also stores the corrected page.\<close>

definition oo_Offset :: "offset_opts \<Rightarrow> int \<times> offset_opts" where
  "oo_Offset p = (let p = (if oo_page p < 1 then p\<lparr>oo_page := 1\<rparr> else p) in ((oo_page p - 1) * oo_page_size p, p))"

definition oo_Limit :: "offset_opts \<Rightarrow> int" where
  "oo_Limit p = oo_page_size p"

definition OffsetPaginationError :: "string \<Rightarrow> err" where
  "OffsetPaginationError m = TypedErr ''OffsetPaginationError'' (Errorf m [])"

definition NewOffsetPaginationOpts :: "int \<Rightarrow> int \<Rightarrow> offset_opts res" where
  "NewOffsetPaginationOpts offset limit =
     (if limit < 1 then Inl (OffsetPaginationError ''pageSize must be greater than 0'')
      else if offset < 0 then Inl (OffsetPaginationError ''page must be greater than or equal to 0'')
      else Inr \<lparr>oo_page = offset, oo_page_size = limit\<rparr>)"

section \<open>Pages of an ordered query\<close>

text \<open>
  A repository selects the rows below the cursor, orders them, fetches one row more than the limit
  and, when that row is there, drops it and continues after the last row it keeps.
\<close>

definition below :: "'k::linorder option \<Rightarrow> ('a \<Rightarrow> 'k) \<Rightarrow> 'a \<Rightarrow> bool" where
  "below cursor key r = (case cursor of None \<Rightarrow> True | Some k \<Rightarrow> key r < k)"

definition fetch :: "('a list \<Rightarrow> 'a list) \<Rightarrow> ('a \<Rightarrow> 'k::linorder) \<Rightarrow> 'k option \<Rightarrow> nat \<Rightarrow> 'a list \<Rightarrow> 'a list" where
  "fetch order key cursor limit rows = take (Suc limit) (order (filter (below cursor key) rows))"

definition cut_page :: "('a \<Rightarrow> 'k) \<Rightarrow> nat \<Rightarrow> 'a list \<Rightarrow> 'a list \<times> 'k option" where
  "cut_page key limit refs =
     (if limit < length refs then (take limit refs, Some (key (refs ! (limit - 1)))) else (refs, None))"

text \<open>Following the cursors for at most the given number of pages: the rows seen, and whether there is an end.\<close>

fun follow :: "('k option \<Rightarrow> 'a list \<times> 'k option) \<Rightarrow> nat \<Rightarrow> 'k option \<Rightarrow> 'a list \<times> bool" where
  "follow page 0 cursor = ([], False)"
| "follow page (Suc n) cursor =
     (case page cursor of
        (rows, None) \<Rightarrow> (rows, True)
      | (rows, Some k) \<Rightarrow> (let (more, ended) = follow page n (Some k) in (rows @ more, ended)))"

section \<open>Lemmas\<close>

text \<open>What the codec promises for an instant and an identifier.\<close>

definition codec_good :: "cursor_codec \<Rightarrow> int \<Rightarrow> uuid \<Rightarrow> bool" where
  "codec_good cc t uid \<longleftrightarrow> cc_parse_time cc (cc_format_time cc t) = Inr t \<and> cc_parse_uuid cc uid = Inr uid \<and>
     CHR '','' \<notin> set (cc_format_time cc t) \<and> CHR '','' \<notin> set uid"

lemma decode_encode_cursor: "codec_good cc t uid \<Longrightarrow> decodeCursor cc (EncodeCursor cc t uid) = Inr (t, uid)"
  by (simp add: decodeCursor_def EncodeCursor_def b64_roundtrip codec_good_def split_char_append split_char_absent)

lemma EncodeCursor_nonempty: "EncodeCursor cc t uid \<noteq> []"
proof
  assume "EncodeCursor cc t uid = []"
  then have "b64_decode [] = Some (cc_format_time cc t @ '','' @ uid)"
    using b64_roundtrip [of "cc_format_time cc t @ '','' @ uid"] by (simp add: EncodeCursor_def)
  moreover have "b64_decode [] = Some []" by code_simp
  ultimately show False by simp
qed

lemma cursor_roundtrip:
  assumes "codec_good cc t uid"
  shows "NewCursor cc (EncodeCursor cc t uid) l =
    Inr \<lparr>co_cursor = Some (t, uid), co_limit = (if l > 0 then l else DefaultCursorLimit)\<rparr>"
  using decode_encode_cursor [OF assms] EncodeCursor_nonempty by (simp add: NewCursor_def)

lemma NewCursor_limit_pos: "NewCursor cc c l = Inr p \<Longrightarrow> 0 < co_limit p"
  by (auto simp: NewCursor_def DefaultCursorLimit_def res_simps split: if_splits)

text \<open>Offset pages of one size partition the rows: page \<open>n\<close> holds the rows from \<open>(n - 1) * size\<close> on.\<close>

lemma oo_Offset_nonneg: "0 \<le> oo_page_size p \<Longrightarrow> 0 \<le> fst (oo_Offset p)"
  by (simp add: oo_Offset_def Let_def)

section \<open>Following the cursors\<close>

text \<open>
  The contract of an ordered keyset query: the order is a permutation of the rows and, when no two
  rows share a key, strictly descending.
\<close>

locale keyset_query =
  fixes key :: "'a \<Rightarrow> 'k::linorder" and order :: "'a list \<Rightarrow> 'a list"
  assumes order_mset: "mset (order rs) = mset rs"
    and order_desc: "distinct (map key rs) \<Longrightarrow> sorted_wrt (\<lambda>a b. key b < key a) (order rs)"
begin

lemma descending_unique:
  assumes "sorted_wrt (\<lambda>a b. key b < key a) xs" and "sorted_wrt (\<lambda>a b. key b < key a) ys" and "mset xs = mset ys"
  shows "xs = ys"
  using assms
proof (induction xs arbitrary: ys)
  case (Cons x xs)
  then obtain y ys' where ys: "ys = y # ys'" by (cases ys) auto
  have "x \<in> set ys" "y \<in> set (x # xs)" using Cons.prems(3) ys by (metis list.set_intros(1) set_mset_mset)+
  then have "x = y" using Cons.prems(1,2) ys by (auto dest: less_asym)
  with Cons ys show ?case by auto
qed simp

lemma order_filter:
  assumes "distinct (map key rs)"
  shows "order (filter P rs) = filter P (order rs)"
proof (rule descending_unique)
  show "sorted_wrt (\<lambda>a b. key b < key a) (order (filter P rs))"
    using assms by (intro order_desc) (rule distinct_map_filter)
  show "sorted_wrt (\<lambda>a b. key b < key a) (filter P (order rs))"
    using order_desc [OF assms] by (rule sorted_wrt_filter)
  show "mset (order (filter P rs)) = mset (filter P (order rs))"
    by (simp add: order_mset)
qed

lemma below_suffix:
  assumes "sorted_wrt (\<lambda>a b. key b < key a) xs" and "0 < i" and "i \<le> length xs"
  shows "filter (below (Some (key (xs ! (i - 1)))) key) xs = drop i xs"
proof -
  have split: "xs = take i xs @ drop i xs" by simp
  have "\<not> below (Some (key (xs ! (i - 1)))) key r" if r: "r \<in> set (take i xs)" for r
  proof -
    obtain j where j: "j < i" "r = xs ! j" using r assms(3) by (auto simp: in_set_conv_nth)
    then have "j = i - 1 \<or> key (xs ! (i - 1)) < key r"
      using assms sorted_wrt_nth_less [OF assms(1), of j "i - 1"] by (cases "j = i - 1") auto
    then show ?thesis using j by (auto simp: below_def)
  qed
  moreover have "below (Some (key (xs ! (i - 1)))) key r" if r: "r \<in> set (drop i xs)" for r
  proof -
    obtain j where "i \<le> j" "j < length xs" "r = xs ! j"
      using r by (auto simp: in_set_conv_nth) (metis add.commute le_add2 less_diff_conv)
    then show ?thesis using assms sorted_wrt_nth_less [OF assms(1), of "i - 1" j] by (auto simp: below_def)
  qed
  ultimately have "filter (below (Some (key (xs ! (i - 1)))) key) (take i xs @ drop i xs) = drop i xs"
    unfolding filter_append by (simp add: filter_empty_conv)
  then show ?thesis using split by simp
qed

text \<open>One page after another: the rest of the rows shrinks by a page each time.\<close>

lemma follow_pages:
  assumes distinct: "distinct (map key rs)" and limit: "0 < limit"
    and rest: "filter (below cursor key) (order rs) = drop i (order rs)" and fuel: "length rs - i < n"
  shows "follow (\<lambda>c. cut_page key limit (fetch order key c limit rs)) n cursor = (drop i (order rs), True)"
  using rest fuel
proof (induction n arbitrary: cursor i)
  case (Suc n)
  let ?xs = "order rs" and ?page = "fetch order key cursor limit rs"
  have page: "?page = take (Suc limit) (drop i ?xs)"
    by (simp add: fetch_def order_filter [OF distinct] Suc.prems(1))
  have len: "length ?xs = length rs" by (metis order_mset size_mset)
  show ?case
  proof (cases "limit < length ?page")
    case False
    then show ?thesis using page by (simp add: cut_page_def)
  next
    case True
    then have room: "i + limit < length ?xs" using page by simp
    let ?k = "key (?xs ! (i + limit - 1))"
    have last: "?page ! (limit - 1) = ?xs ! (i + limit - 1)" using page room limit by simp
    have "follow (\<lambda>c. cut_page key limit (fetch order key c limit rs)) n (Some ?k) = (drop (i + limit) ?xs, True)"
      using below_suffix [OF order_desc [OF distinct], of "i + limit"] room limit Suc.prems(2) len
      by (intro Suc.IH) (auto simp: add.commute)
    then show ?thesis using True page last limit
      by (simp add: cut_page_def min_def) (metis add.commute append_take_drop_id drop_drop)
  qed
qed simp

text \<open>Following the cursors from the start ends and lists every row once, in order.\<close>

theorem pages_exhaust:
  assumes "distinct (map key rs)" and "0 < limit"
  shows "follow (\<lambda>c. cut_page key limit (fetch order key c limit rs)) (Suc (length rs)) None = (order rs, True)"
proof -
  have "filter (below None key) (order rs) = drop 0 (order rs)" by (simp add: below_def)
  from follow_pages [OF assms this, of "Suc (length rs)"] show ?thesis by (simp del: follow.simps)
qed

end

text \<open>The order of the repositories that sort by creation time and identifier, both descending.\<close>

definition order_desc :: "('a \<Rightarrow> 'k::linorder) \<Rightarrow> 'a list \<Rightarrow> 'a list" where
  "order_desc key rs = rev (sort_key key rs)"

interpretation created_id: keyset_query key "order_desc key"
proof
  show "mset (order_desc key rs) = mset rs" for rs by (simp add: order_desc_def)
  show "sorted_wrt (\<lambda>a b. key b < key a) (order_desc key rs)" if "distinct (map key rs)" for rs
  proof -
    have "sorted_wrt (<) (map key (sort_key key rs))"
      using that by (simp add: strict_sorted_iff) (metis mset_eq_imp_distinct_iff mset_map mset_sort)
    then show ?thesis by (simp add: order_desc_def sorted_wrt_rev sorted_wrt_map)
  qed
qed

end
