(* ===== verification/Control_Plane_Tables.thy ===== *)
theory Control_Plane_Tables
  imports Attestation_Renderer Pagination Biz_Errors
begin

text \<open>
  Rows of the control plane's database that several components read: projects and their versions,
  workflows and workflow runs (\<open>app/controlplane/pkg/data/ent/schema\<close>). A table is a list of rows. A
  time is an instant, a nullable column an \<open>option\<close>, a soft-deleted row has its flag set. Columns that
  no modelled operation reads (\<open>updated_at\<close>, deprecated and descriptive ones) are left out.
\<close>

definition uuid_Nil :: uuid where "uuid_Nil = ''00000000-0000-0000-0000-000000000000''"

record project_row =
  pj_id :: uuid
  pj_name :: string
  pj_org :: uuid
  pj_deleted :: bool

record version_row =
  vr_id :: uuid
  vr_version :: string
  vr_project :: uuid
  vr_prerelease :: bool
  vr_latest :: bool
  vr_deleted :: bool
  vr_run_count :: nat
  vr_released_at :: "int option"
  vr_last_run_at :: "int option"

record workflow_row =
  wfr_id :: uuid
  wfr_org :: uuid
  wfr_project :: uuid
  wfr_deleted :: bool
  wfr_runs_count :: nat
  wfr_latest_run :: "uuid option"

datatype run_status =
    WorkflowRunInitialized | WorkflowRunSuccess | WorkflowRunError | WorkflowRunExpired | WorkflowRunCancelled

text \<open>The policy columns of a run: the status and 32-bit counters. They are all set or all null.\<close>

datatype ent_policy_status = NOT_APPLICABLE | PASSED | SKIPPED | WARNING | BLOCKED | BYPASSED

record policy_columns =
  pc_status :: ent_policy_status
  pc_total :: int
  pc_passed :: int
  pc_skipped :: int
  pc_violations :: int
  pc_suppressed :: int
  pc_has_gates :: bool

record workflow_run =
  run_id :: uuid
  run_workflow :: uuid
  run_org :: uuid
  run_version :: uuid
  run_contract_version :: uuid
  run_url :: string
  run_runner_type :: string
  run_backends :: "uuid list"
  run_rev_latest :: int
  run_rev_used :: int
  run_state :: run_status
  run_reason :: string
  run_created_at :: int
  run_finished_at :: "int option"
  run_digest :: string
  run_crafting :: "string option"  \<comment> \<open>the encrypted crafting state\<close>
  run_has_violations :: "bool option"
  run_policy :: "policy_columns option"

record org_row =
  org_id :: uuid
  org_deleted :: bool
  org_block_released :: bool  \<comment> \<open>refuse attestations on released versions\<close>

datatype backend_status = CASBackendValidationOK | CASBackendValidationFailed

record cas_backend =
  cb_id :: uuid
  cb_org :: uuid
  cb_name :: string
  cb_location :: string
  cb_provider :: string
  cb_description :: string
  cb_secret :: string
  cb_status :: backend_status
  cb_error :: string
  cb_default :: bool
  cb_fallback :: bool
  cb_managed :: bool
  cb_deleted :: bool
  cb_max_bytes :: int
  cb_created_at :: int

text \<open>Where an artifact is stored, and the project or product it belongs to.\<close>

record cas_mapping =
  cm_id :: uuid
  cm_digest :: string
  cm_backend :: uuid
  cm_org :: uuid
  cm_run :: "uuid option"
  cm_project :: "uuid option"
  cm_product :: "uuid option"
  cm_created_at :: int

text \<open>What an event says of a backend: identifier, name, provider, location and whether it is the default one.\<close>

type_synonym backend_info = "uuid \<times> string \<times> string \<times> string \<times> bool"

datatype audit_event =
    ProjectVersionCreated uuid uuid string bool  \<comment> \<open>project, version, its name, pre-release\<close>
  | ProjectVersionUpdated uuid uuid string bool  \<comment> \<open>project, version, its name, marked as latest\<close>
  | CASBackendCreated backend_info string  \<comment> \<open>description\<close>
  | CASBackendUpdated backend_info "string option" bool bool  \<comment> \<open>new description, credentials changed, previous default\<close>
  | CASBackendDeleted backend_info
  | CASBackendPermanentDeleted backend_info
  | CASBackendStatusChanged backend_info backend_status backend_status string bool  \<comment> \<open>old, new, error, recovery\<close>

text \<open>
  The database. A contract revision that cannot be read has no schema. New identifiers come from a
  stream, and the audit events are logged in the order they are dispatched.
\<close>

record cp_db =
  db_orgs :: "org_row list"
  db_projects :: "project_row list"
  db_versions :: "version_row list"
  db_workflows :: "workflow_row list"
  db_runs :: "workflow_run list"
  db_bundles :: "(uuid \<times> string) list"
  db_backends :: "cas_backend list"
  db_mappings :: "cas_mapping list"
  db_contracts :: "(uuid \<times> crafting_schema option) list"
  db_ids :: "nat \<Rightarrow> uuid"
  db_ids_drawn :: nat
  db_events :: "audit_event list"

text \<open>A query for the only row that satisfies a predicate: none is no error, several are.\<close>

definition only :: "('a \<Rightarrow> bool) \<Rightarrow> 'a list \<Rightarrow> 'a option res" where
  "only P rows = (case filter P rows of
       [] \<Rightarrow> Inr None | [r] \<Rightarrow> Inr (Some r) | _ \<Rightarrow> Inl (Errorf ''ent: not singular'' []))"

lemma only_Some:
  assumes "only P rows = Inr (Some r)"
  shows "r \<in> set rows \<and> P r"
proof -
  have "filter P rows = [r]" using assms by (auto simp: only_def split: list.splits)
  then have "r \<in> set (filter P rows)" by simp
  then show ?thesis by simp
qed

lemma only_None: "only P rows = Inr None \<longleftrightarrow> (\<forall>r\<in>set rows. \<not> P r)"
proof -
  have "only P rows = Inr None \<longleftrightarrow> filter P rows = []" by (simp add: only_def split: list.splits)
  then show ?thesis by (simp add: filter_empty_conv)
qed

lemma only_unique:
  assumes "r \<in> set rows" and "P r" and "distinct rows" and uniq: "\<And>r'. r' \<in> set rows \<Longrightarrow> P r' \<Longrightarrow> r' = r"
  shows "only P rows = Inr (Some r)"
proof -
  have "set (filter P rows) \<subseteq> {r}" unfolding set_filter using uniq by blast
  then have "set (filter P rows) = {r}" using assms(1,2) by (intro equalityI) simp_all
  moreover from this have "length (filter P rows) = 1" using distinct_card [of "filter P rows"] assms(3) by simp
  ultimately have "filter P rows = [r]" by (cases "filter P rows") auto
  then show ?thesis by (simp add: only_def)
qed

text \<open>
  A transaction that fails is rolled back. Transactions are taken to run one after the other, an
  assumption of this model: the source opens them at the database's default isolation level, where two
  that touch different rows of one project or organization can overlap. What a request reads outside
  of its transaction is not protected by this; use cases that do so take \<open>others\<close>.
\<close>

definition WithTx :: "('s \<Rightarrow> 'a res \<times> 's) \<Rightarrow> 's \<Rightarrow> 'a res \<times> 's" where
  "WithTx fn db = (case fn db of (Inl x, _) \<Rightarrow> (Inl x, db) | (Inr y, db') \<Rightarrow> (Inr y, db'))"

lemma WithTx_cases:
  assumes "WithTx fn db = (r, db')"
  obtains (rolled_back) x where "r = Inl x" "db' = db" | (committed) y where "r = Inr y" "fn db = (Inr y, db')"
  using assms by (auto simp: WithTx_def split: prod.splits sum.splits)

text \<open>\<open>UpdateOneID\<close>: the change of one row, by its identifier.\<close>

definition update_row :: "('a \<Rightarrow> uuid) \<Rightarrow> uuid \<Rightarrow> ('a \<Rightarrow> 'a) \<Rightarrow> 'a list \<Rightarrow> 'a list" where
  "update_row ident i f rows = map (\<lambda>r. if ident r = i then f r else r) rows"

lemma update_row_set: "set (update_row ident i f rows) = (\<lambda>r. if ident r = i then f r else r) ` set rows"
  by (simp add: update_row_def)

lemma length_update_row [simp]: "length (update_row ident i f rows) = length rows"
  by (simp add: update_row_def)

lemma map_update_row:
  "(\<And>r. g (f r) = g r) \<Longrightarrow> map g (update_row ident i f rows) = map g rows"
  by (simp add: update_row_def)

lemma find_SomeD: "find P xs = Some x \<Longrightarrow> x \<in> set xs \<and> P x"
  by (auto simp: find_Some_iff)

lemma find_append: "find P (xs @ ys) = (case find P xs of None \<Rightarrow> find P ys | Some x \<Rightarrow> Some x)"
  by (induction xs) auto

lemma find_by_id:
  assumes "distinct (map ident rows)" and "r \<in> set rows"
  shows "find (\<lambda>x. ident x = ident r) rows = Some r"
  using assms by (induction rows) auto

section \<open>Requests in sequence\<close>

text \<open>
  What the components promise each other about the tables: a request keeps the invariant, and what it does to the
  tables, seen from outside, is a relation that composes. Then any number of requests has both.
\<close>

locale request_invariant =
  fixes step :: "'s \<Rightarrow> 's \<Rightarrow> bool" and ok :: "'s \<Rightarrow> bool"
  assumes kept: "step s s' \<Longrightarrow> ok s \<Longrightarrow> ok s'"
begin

lemma steps_kept: "step\<^sup>*\<^sup>* s s' \<Longrightarrow> ok s \<Longrightarrow> ok s'"
  by (induction rule: rtranclp_induct) (auto intro: kept)

end

locale request_history = request_invariant +
  fixes history :: "'s \<Rightarrow> 's \<Rightarrow> bool"
  assumes grows: "step s s' \<Longrightarrow> ok s \<Longrightarrow> history s s'"
    and unchanged: "history s s" and composes: "history s s' \<Longrightarrow> history s' s'' \<Longrightarrow> history s s''"
begin

lemma steps_grow: "step\<^sup>*\<^sup>* s s' \<Longrightarrow> ok s \<Longrightarrow> ok s' \<and> history s s'"
proof (induction rule: rtranclp_induct)
  case (step s' s'')
  then show ?case using kept grows composes by blast
qed (simp add: unchanged)

end

end
