(* ===== verification/Project_Versions.thy ===== *)
theory Project_Versions
  imports Control_Plane_Tables
begin

text \<open>
  Versions of a project (\<open>app/controlplane/pkg/biz/projectversion.go\<close> and
  \<open>app/controlplane/pkg/data/projectversion.go\<close>): creating, releasing and promoting them, with the
  audit event of a promotion. One version of a project at most is its latest one.

  A transaction is one step: it returns the new database, or an error and the old one. UUID parsing
  is a parameter.
\<close>

section \<open>Names\<close>

text \<open>
  The regular expression is one or more of these characters, optionally followed by a plus sign and
  more of them; the plus sign is among them, so the second part adds nothing.
\<close>

definition version_char :: "char \<Rightarrow> bool" where
  "version_char c = (c \<in> set ''abcdefghijklmnopqrstuvwxyzABCDEFGHIJKLMNOPQRSTUVWXYZ0123456789.-_+'')"

definition ValidateVersion :: "string \<Rightarrow> unit res" where
  "ValidateVersion version =
     (if version \<noteq> [] \<and> list_all version_char version then Inr ()
      else Inl (NewErrValidation (Errorf ''invalid version format: %s'' [version])))"

definition DefaultVersionName :: string where "DefaultVersionName = ''v0''"

section \<open>The repository\<close>

text \<open>New row identifiers.\<close>

definition draw_id :: "'a cp_db_scheme \<Rightarrow> uuid \<times> 'a cp_db_scheme" where
  "draw_id db = (db_ids db (db_ids_drawn db), db\<lparr>db_ids_drawn := Suc (db_ids_drawn db)\<rparr>)"

definition find_version :: "'a cp_db_scheme \<Rightarrow> uuid \<Rightarrow> string \<Rightarrow> version_row option" where
  "find_version db projectID version =
     find (\<lambda>v. vr_project v = projectID \<and> vr_version v = version \<and> \<not> vr_deleted v) (db_versions db)"

definition FindByProjectAndVersion :: "'a cp_db_scheme \<Rightarrow> uuid \<Rightarrow> string \<Rightarrow> version_row res" where
  "FindByProjectAndVersion db projectID version =
     (case find_version db projectID version of None \<Rightarrow> Inl (NewErrNotFound ''Version'') | Some v \<Rightarrow> Inr v)"

definition unlatest :: "uuid \<Rightarrow> version_row \<Rightarrow> version_row" where
  "unlatest projectID v = (if vr_project v = projectID \<and> \<not> vr_deleted v \<and> vr_latest v then v\<lparr>vr_latest := False\<rparr> else v)"

definition clear_latest :: "uuid \<Rightarrow> version_row list \<Rightarrow> version_row list" where
  "clear_latest projectID vs = map (unlatest projectID) vs"

text \<open>The index on name and project admits one live version of a name.\<close>

definition createProjectVersionWithTx ::
  "uuid \<Rightarrow> string \<Rightarrow> bool \<Rightarrow> bool option \<Rightarrow> 'a cp_db_scheme \<Rightarrow> version_row res \<times> 'a cp_db_scheme" where
  "createProjectVersionWithTx projectID version prerelease markAsLatest db =
     (if version = [] then (Inl (NewErrValidationStr ''version must not be empty''), db)
      else case ValidateVersion version of
        Inl x \<Rightarrow> (Inl (Wrapf ''ent: validator failed: %w'' [] x), db)
      | Inr _ \<Rightarrow>
          if find_version db projectID version \<noteq> None then (Inl (Errorf ''ent: constraint failed'' []), db)
          else
            let shouldBeLatest = (case markAsLatest of None \<Rightarrow> True | Some b \<Rightarrow> b);
                vs = (if shouldBeLatest then clear_latest projectID (db_versions db) else db_versions db);
                (vid, db) = draw_id db;
                v = \<lparr>vr_id = vid, vr_version = version, vr_project = projectID, vr_prerelease = prerelease,
                     vr_latest = shouldBeLatest, vr_deleted = False, vr_run_count = 0, vr_released_at = None,
                     vr_last_run_at = None\<rparr>
            in (Inr v, db\<lparr>db_versions := vs @ [v]\<rparr>))"

definition version_Create :: "uuid \<Rightarrow> string \<Rightarrow> bool \<Rightarrow> 'a cp_db_scheme \<Rightarrow> version_row res \<times> 'a cp_db_scheme" where
  "version_Create projectID version prerelease db =
     WithTx (createProjectVersionWithTx projectID version prerelease None) db"

definition promoteVersionToLatestWithTx :: "version_row \<Rightarrow> 'a cp_db_scheme \<Rightarrow> bool res \<times> 'a cp_db_scheme" where
  "promoteVersionToLatestWithTx v db =
     (if \<not> vr_prerelease v then (Inl (NewErrValidationStr ''cannot promote a released version to latest''), db)
      else
        (Inr (\<not> vr_latest v),
         db\<lparr>db_versions := update_row vr_id (vr_id v) (\<lambda>w. w\<lparr>vr_latest := True\<rparr>)
                             (clear_latest (vr_project v) (db_versions db))\<rparr>))"

definition live_version_in :: "'a cp_db_scheme \<Rightarrow> uuid \<Rightarrow> uuid \<Rightarrow> version_row option" where
  "live_version_in db projectID versionID =
     find (\<lambda>v. vr_id v = versionID \<and> vr_project v = projectID \<and> \<not> vr_deleted v) (db_versions db)"

text \<open>Whether the promotion changed the latest version, the version and the project.\<close>

definition repo_MarkAsLatest ::
  "uuid \<Rightarrow> uuid \<Rightarrow> 'a cp_db_scheme \<Rightarrow> (bool \<times> version_row \<times> project_row) res \<times> 'a cp_db_scheme" where
  "repo_MarkAsLatest projectID versionID db =
     (case find (\<lambda>p. pj_id p = projectID) (db_projects db) of
        None \<Rightarrow> (Inl (NewErrNotFound ''Project''), db)
      | Some p \<Rightarrow>
          WithTx (\<lambda>db.
            case live_version_in db projectID versionID of
              None \<Rightarrow> (Inl (NewErrNotFound ''Version''), db)
            | Some v \<Rightarrow>
                (case promoteVersionToLatestWithTx v db of
                   (Inl x, db') \<Rightarrow> (Inl x, db')
                 | (Inr promoted, db') \<Rightarrow> (Inr (promoted, v\<lparr>vr_latest := True\<rparr>, p), db'))) db)"

definition released :: "int \<Rightarrow> bool option \<Rightarrow> version_row \<Rightarrow> version_row" where
  "released now prerelease v =
     (case prerelease of
        None \<Rightarrow> v
      | Some True \<Rightarrow> v\<lparr>vr_prerelease := True, vr_released_at := None\<rparr>
      | Some False \<Rightarrow>
          v\<lparr>vr_prerelease := False,
            vr_released_at := (case vr_released_at v of None \<Rightarrow> Some now | Some t \<Rightarrow> Some t)\<rparr>)"

definition version_Update :: "int \<Rightarrow> uuid \<Rightarrow> bool option \<Rightarrow> 'a cp_db_scheme \<Rightarrow> version_row res \<times> 'a cp_db_scheme" where
  "version_Update now vid prerelease db =
     (case find (\<lambda>v. vr_id v = vid \<and> \<not> vr_deleted v) (db_versions db) of
        None \<Rightarrow> (Inl (NewErrNotFound ''Version''), db)
      | Some existing \<Rightarrow>
          (Inr (released now prerelease existing),
           db\<lparr>db_versions := update_row vr_id vid (released now prerelease) (db_versions db)\<rparr>))"

section \<open>The use case\<close>

definition dispatchProjectVersionPromoted ::
  "project_row option \<Rightarrow> version_row option \<Rightarrow> 'a cp_db_scheme \<Rightarrow> 'a cp_db_scheme" where
  "dispatchProjectVersionPromoted project version db =
     (case (project, version) of
        (Some p, Some v) \<Rightarrow>
          db\<lparr>db_events := db_events db @ [ProjectVersionUpdated (pj_id p) (vr_id v) (vr_version v) True]\<rparr>
      | _ \<Rightarrow> db)"

type_synonym uuid_parser = "string \<Rightarrow> uuid res"

definition UpdateReleaseStatus ::
  "uuid_parser \<Rightarrow> int \<Rightarrow> string \<Rightarrow> bool \<Rightarrow> 'a cp_db_scheme \<Rightarrow> version_row res \<times> 'a cp_db_scheme" where
  "UpdateReleaseStatus parse now version isRelease db =
     (case parse version of
        Inl x \<Rightarrow> (Inl (NewErrInvalidUUID x), db)
      | Inr vid \<Rightarrow> version_Update now vid (Some (\<not> isRelease)) db)"

definition uc_MarkAsLatest :: "uuid_parser \<Rightarrow> string \<Rightarrow> string \<Rightarrow> 'a cp_db_scheme \<Rightarrow> unit res \<times> 'a cp_db_scheme" where
  "uc_MarkAsLatest parse projectID versionID db =
     (case parse projectID of
        Inl x \<Rightarrow> (Inl (NewErrInvalidUUID x), db)
      | Inr pid \<Rightarrow>
          (case parse versionID of
             Inl x \<Rightarrow> (Inl (NewErrInvalidUUID x), db)
           | Inr vid \<Rightarrow>
               (case repo_MarkAsLatest pid vid db of
                  (Inl x, db') \<Rightarrow> (Inl x, db')
                | (Inr (promoted, v, p), db') \<Rightarrow>
                    (Inr (), if promoted then dispatchProjectVersionPromoted (Some p) (Some v) db' else db'))))"

definition uc_version_Create ::
  "uuid_parser \<Rightarrow> string \<Rightarrow> string \<Rightarrow> bool \<Rightarrow> 'a cp_db_scheme \<Rightarrow> version_row res \<times> 'a cp_db_scheme" where
  "uc_version_Create parse projectID version prerelease db =
     (case parse projectID of
        Inl x \<Rightarrow> (Inl (NewErrInvalidUUID x), db)
      | Inr pid \<Rightarrow>
          (let version = (if version = [] then DefaultVersionName else version) in
           case ValidateVersion version of
             Inl x \<Rightarrow> (Inl x, db)
           | Inr _ \<Rightarrow> version_Create pid version prerelease db))"

section \<open>Invariant\<close>

text \<open>Identifiers are unique and drawn from the stream.\<close>

definition ids_ok :: "('b \<Rightarrow> uuid) \<Rightarrow> 'b list \<Rightarrow> 'a cp_db_scheme \<Rightarrow> bool" where
  "ids_ok ident rows db \<longleftrightarrow> distinct (map ident rows) \<and> ident ` set rows \<subseteq> db_ids db ` {..<db_ids_drawn db}"

definition one_latest :: "version_row list \<Rightarrow> bool" where
  "one_latest vs \<longleftrightarrow> (\<forall>v\<in>set vs. \<forall>w\<in>set vs. vr_latest v \<and> vr_latest w \<and> \<not> vr_deleted v \<and> \<not> vr_deleted w \<and>
     vr_project v = vr_project w \<longrightarrow> vr_id v = vr_id w)"

definition names_unique :: "version_row list \<Rightarrow> bool" where
  "names_unique vs \<longleftrightarrow> distinct (map (\<lambda>v. (vr_project v, vr_version v)) (filter (\<lambda>v. \<not> vr_deleted v) vs))"

definition versions_ok :: "'a cp_db_scheme \<Rightarrow> bool" where
  "versions_ok db \<longleftrightarrow> inj (db_ids db) \<and> ids_ok vr_id (db_versions db) db \<and> one_latest (db_versions db) \<and> names_unique (db_versions db)"

text \<open>The abstraction: which version of a project is its latest.\<close>

definition latest_of :: "'a cp_db_scheme \<Rightarrow> uuid \<Rightarrow> uuid option" where
  "latest_of db projectID =
     map_option vr_id (find (\<lambda>v. vr_project v = projectID \<and> vr_latest v \<and> \<not> vr_deleted v) (db_versions db))"

lemma find_unique:
  assumes "x \<in> set xs" and "P x" and "\<And>y. y \<in> set xs \<Longrightarrow> P y \<Longrightarrow> f y = f x"
  shows "map_option f (find P xs) = Some (f x)"
proof (cases "find P xs")
  case None
  then show ?thesis using assms(1,2) by (auto simp: find_None_iff)
next
  case (Some y)
  then have "y \<in> set xs" "P y" by (auto simp: find_Some_iff)
  then show ?thesis using Some assms(3) by simp
qed

lemma latest_of_eq:
  assumes "one_latest (db_versions db)" and "v \<in> set (db_versions db)" and "vr_latest v" and "\<not> vr_deleted v"
  shows "latest_of db (vr_project v) = Some (vr_id v)"
proof -
  have uniq: "vr_id y = vr_id v" if "y \<in> set (db_versions db)" "vr_project y = vr_project v \<and> vr_latest y \<and> \<not> vr_deleted y" for y
    using assms that unfolding one_latest_def by blast
  show ?thesis unfolding latest_of_def using assms(3,4) by (intro find_unique [OF assms(2)] uniq) simp_all
qed

lemma latest_of_SomeD:
  "latest_of db p = Some i \<Longrightarrow> \<exists>v\<in>set (db_versions db). vr_id v = i \<and> vr_project v = p \<and> vr_latest v \<and> \<not> vr_deleted v"
  by (auto simp: latest_of_def dest: find_SomeD)

lemma latest_of_None: "latest_of db p = None \<longleftrightarrow> (\<forall>v\<in>set (db_versions db). vr_project v = p \<and> \<not> vr_deleted v \<longrightarrow> \<not> vr_latest v)"
  by (auto simp: latest_of_def find_None_iff)


lemma latest_of_cong:
  assumes "one_latest (db_versions db')"
    and "\<And>w. vr_project w = q \<Longrightarrow> w \<in> set (db_versions db') \<longleftrightarrow> w \<in> set (db_versions db)"
  shows "latest_of db' q = latest_of db q"
proof (cases "latest_of db q")
  case None
  then have "latest_of db' q = None" using assms(2) by (auto simp: latest_of_None)
  then show ?thesis using None by simp
next
  case (Some i)
  then obtain v where "v \<in> set (db_versions db)" "vr_id v = i" "vr_project v = q" "vr_latest v" "\<not> vr_deleted v"
    by (auto dest: latest_of_SomeD)
  then show ?thesis using assms latest_of_eq [OF assms(1), of v] Some by auto
qed

section \<open>Operations keep the invariant\<close>

text \<open>
  What an operation on versions does to the rest of the database, and what it may do to a version: rows
  are only added, and keep their identifier, project, name, deletion mark and number of runs.
\<close>

definition same_name :: "version_row \<Rightarrow> version_row \<Rightarrow> bool" where
  "same_name v w \<longleftrightarrow> vr_id w = vr_id v \<and> vr_project w = vr_project v \<and> vr_version w = vr_version v \<and> vr_deleted w = vr_deleted v"

definition same_version :: "version_row \<Rightarrow> version_row \<Rightarrow> bool" where
  "same_version v w \<longleftrightarrow> same_name v w \<and> vr_run_count w = vr_run_count v"

lemma same_versions_names: "list_all2 same_version vs ws \<Longrightarrow> list_all2 same_name vs ws"
  by (erule list_all2_mono) (simp add: same_version_def)

lemma same_version_refl [simp]: "same_version v v"
  by (simp add: same_version_def same_name_def)

lemma unlatest_same [simp]: "same_version v (unlatest p v)"
  by (simp add: unlatest_def same_version_def same_name_def)

lemma unlatest_latest [simp]: "vr_latest (unlatest p v) \<longleftrightarrow> vr_latest v \<and> \<not> (vr_project v = p \<and> \<not> vr_deleted v)"
  by (auto simp: unlatest_def)

lemma unlatest_other: "vr_project v \<noteq> p \<Longrightarrow> unlatest p v = v"
  by (simp add: unlatest_def)

lemma unlatest_keeps [simp]:
  "vr_id (unlatest p v) = vr_id v" "vr_project (unlatest p v) = vr_project v" "vr_deleted (unlatest p v) = vr_deleted v"
  using unlatest_same [of v p] by (simp_all add: same_version_def same_name_def)

lemma released_same [simp]: "same_version v (released now pre v)" and released_latest [simp]: "vr_latest (released now pre v) = vr_latest v"
  by (auto simp: released_def same_version_def same_name_def split: option.splits bool.splits)

lemma same_versions_map: "(\<And>v. same_version v (f v)) \<Longrightarrow> list_all2 same_version vs (map f vs)"
  by (induction vs) auto

lemma same_versions_update: "(\<And>v. same_version v (f v)) \<Longrightarrow> list_all2 same_version vs (update_row vr_id i f vs)"
  by (induction vs) (auto simp: update_row_def)

lemma same_version_trans: "same_version a b \<Longrightarrow> same_version b c \<Longrightarrow> same_version a c"
  by (simp add: same_version_def same_name_def)

lemma same_versions_keys:
  assumes "list_all2 same_name vs ws"
  shows "map vr_id ws = map vr_id vs \<and>
    map (\<lambda>v. (vr_project v, vr_version v)) (filter (\<lambda>v. \<not> vr_deleted v) ws) =
    map (\<lambda>v. (vr_project v, vr_version v)) (filter (\<lambda>v. \<not> vr_deleted v) vs)"
  using assms by (induction rule: list_all2_induct) (auto simp: same_version_def same_name_def)

text \<open>After clearing, no live version of the project is the latest; the others are as they were.\<close>

lemma clear_latest_cleared: "v \<in> set (clear_latest p vs) \<Longrightarrow> \<not> vr_deleted v \<Longrightarrow> vr_project v = p \<Longrightarrow> \<not> vr_latest v"
  unfolding clear_latest_def set_map by (elim imageE) (simp only: unlatest_keeps unlatest_latest, simp)

lemma clear_latest_other: "vr_project v \<noteq> p \<Longrightarrow> v \<in> set (clear_latest p vs) \<longleftrightarrow> v \<in> set vs"
  by (auto simp: clear_latest_def image_iff) (metis unlatest_keeps(2) unlatest_other)+

lemma one_latestI:
  "(\<And>v w. v \<in> set vs \<Longrightarrow> w \<in> set vs \<Longrightarrow> vr_latest v \<Longrightarrow> vr_latest w \<Longrightarrow> \<not> vr_deleted v \<Longrightarrow> \<not> vr_deleted w \<Longrightarrow>
     vr_project v = vr_project w \<Longrightarrow> vr_id v = vr_id w) \<Longrightarrow> one_latest vs"
  unfolding one_latest_def by blast

lemma one_latestD:
  "one_latest vs \<Longrightarrow> v \<in> set vs \<Longrightarrow> w \<in> set vs \<Longrightarrow> vr_latest v \<Longrightarrow> vr_latest w \<Longrightarrow> \<not> vr_deleted v \<Longrightarrow> \<not> vr_deleted w \<Longrightarrow>
     vr_project v = vr_project w \<Longrightarrow> vr_id v = vr_id w"
  unfolding one_latest_def by blast

lemma one_latest_clear:
  assumes "one_latest vs"
  shows "one_latest (clear_latest p vs)"
proof (rule one_latestI)
  fix v w
  assume *: "v \<in> set (clear_latest p vs)" "w \<in> set (clear_latest p vs)" "vr_latest v" "vr_latest w" "\<not> vr_deleted v" "\<not> vr_deleted w"
    "vr_project v = vr_project w"
  then have "vr_project v \<noteq> p" using clear_latest_cleared by blast
  then have "v \<in> set vs" "w \<in> set vs" using * clear_latest_other [of v p vs] clear_latest_other [of w p vs] by simp_all
  then show "vr_id v = vr_id w" using one_latestD [OF assms] * by blast
qed

text \<open>Making one live version the latest, after its project has been cleared.\<close>

lemma set_latest:
  assumes ids: "distinct (map vr_id vs)" and one: "one_latest vs" and v: "v \<in> set vs" "\<not> vr_deleted v"
    and vs': "vs' = update_row vr_id (vr_id v) (\<lambda>w. w\<lparr>vr_latest := True\<rparr>) (clear_latest (vr_project v) vs)"
  shows "one_latest vs' \<and> (\<exists>v'\<in>set vs'. same_version v v' \<and> vr_latest v') \<and>
    (\<forall>w. vr_project w \<noteq> vr_project v \<longrightarrow> w \<in> set vs' \<longleftrightarrow> w \<in> set vs)"
proof -
  let ?cs = "clear_latest (vr_project v) vs"
  have same: "\<exists>y\<in>set vs. same_version y w" if "w \<in> set ?cs" for w
    using that unfolding clear_latest_def set_map by (elim imageE) (hypsubst, blast intro: unlatest_same)
  have own: "vr_project w = vr_project v" if "w \<in> set ?cs" "vr_id w = vr_id v" for w
  proof -
    note w = that
    obtain y where "y \<in> set vs" "same_version y w" using same [OF w(1)] by blast
    then have "y = v" using w v ids by (auto simp: same_version_def same_name_def distinct_map inj_on_def)
    then show ?thesis using \<open>same_version y w\<close> by (simp add: same_version_def same_name_def)
  qed
  obtain c where c: "c \<in> set ?cs" "same_version v c"
    using v(1) unlatest_same [of v "vr_project v"] unfolding clear_latest_def set_map by blast
  have "one_latest vs'"
  proof (rule one_latestI)
    fix a b
    assume *: "a \<in> set vs'" "b \<in> set vs'" "vr_latest a" "vr_latest b" "\<not> vr_deleted a" "\<not> vr_deleted b" "vr_project a = vr_project b"
    have cases: "vr_id x = vr_id v \<and> vr_project x = vr_project v \<or> x \<in> set ?cs" if "x \<in> set vs'" for x
      using that own unfolding vs' update_row_set by (auto split: if_splits)
    have "vr_id x = vr_id v" if "x \<in> set vs'" "vr_latest x" "\<not> vr_deleted x" "vr_project x = vr_project v" for x
      using cases [OF that(1)] that clear_latest_cleared by blast
    moreover have "vr_id a = vr_id b" if "vr_project a \<noteq> vr_project v"
      using cases [OF *(1)] cases [OF *(2)] * that one_latestD [OF one_latest_clear [OF one, of "vr_project v"], of a b] by auto
    ultimately show "vr_id a = vr_id b" using * by (metis (no_types))
  qed
  moreover have "\<exists>v'\<in>set vs'. same_version v v' \<and> vr_latest v'"
  proof
    show "c\<lparr>vr_latest := True\<rparr> \<in> set vs'"
      unfolding vs' update_row_set using c(2) by (intro image_eqI [OF _ c(1)]) (simp add: same_version_def same_name_def)
    show "same_version v (c\<lparr>vr_latest := True\<rparr>) \<and> vr_latest (c\<lparr>vr_latest := True\<rparr>)"
      using c by (simp add: same_version_def same_name_def)
  qed
  moreover have "w \<in> set vs' \<longleftrightarrow> w \<in> set vs" if "vr_project w \<noteq> vr_project v" for w
    using that own clear_latest_other [OF that, of vs] unfolding vs' update_row_set by (auto simp: image_iff)
  ultimately show ?thesis by blast
qed

text \<open>
  What each transaction does to the invariant and to the latest version of every project. A failed one
  leaves the database as it was.
\<close>

lemma versions_ok_rows:
  assumes "versions_ok db" and "list_all2 same_name (db_versions db) vs" and "one_latest vs"
  shows "versions_ok (db\<lparr>db_versions := vs\<rparr>)"
proof -
  have "map vr_id vs = map vr_id (db_versions db)" and "names_unique vs = names_unique (db_versions db)"
    using same_versions_keys [OF assms(2)] by (simp_all add: names_unique_def)
  moreover from this(1) have "vr_id ` set vs = vr_id ` set (db_versions db)" by (metis list.set_map)
  ultimately show ?thesis using assms(1,3) by (simp add: versions_ok_def ids_ok_def)
qed

lemma promote_ok:
  assumes ok: "versions_ok db" and v: "v \<in> set (db_versions db)" "\<not> vr_deleted v"
    and tx: "promoteVersionToLatestWithTx v db = (r, db')"
  shows "versions_ok db' \<and>
    (case r of
       Inl x \<Rightarrow> db' = db
     | Inr promoted \<Rightarrow> vr_prerelease v \<and> promoted = (latest_of db (vr_project v) \<noteq> Some (vr_id v)) \<and>
         (\<exists>vs. db' = db\<lparr>db_versions := vs\<rparr> \<and> list_all2 same_version (db_versions db) vs) \<and>
         latest_of db' = (latest_of db)(vr_project v := Some (vr_id v)))"
proof (cases "vr_prerelease v")
  case False
  then show ?thesis using tx ok by (auto simp: promoteVersionToLatestWithTx_def)
next
  case True
  define vs where "vs = update_row vr_id (vr_id v) (\<lambda>w. w\<lparr>vr_latest := True\<rparr>) (clear_latest (vr_project v) (db_versions db))"
  have r: "r = Inr (\<not> vr_latest v)" and db': "db' = db\<lparr>db_versions := vs\<rparr>"
    using tx True by (auto simp: promoteVersionToLatestWithTx_def vs_def)
  have ids: "distinct (map vr_id (db_versions db))" and one: "one_latest (db_versions db)"
    using ok by (auto simp: versions_ok_def ids_ok_def)
  note new = set_latest [OF ids one v vs_def]
  have same: "list_all2 same_version (db_versions db) vs"
    unfolding vs_def clear_latest_def update_row_def map_map
    by (rule same_versions_map) (simp add: same_version_def same_name_def unlatest_def)
  have "versions_ok db'" unfolding db' by (rule versions_ok_rows [OF ok same_versions_names [OF same]]) (use new in blast)
  moreover have "latest_of db' = (latest_of db)(vr_project v := Some (vr_id v))"
  proof
    fix q
    obtain v' where v': "v' \<in> set vs" "same_version v v'" "vr_latest v'" using new by blast
    have "latest_of db' (vr_project v') = Some (vr_id v')"
      using new v' v(2) by (intro latest_of_eq) (auto simp: db' same_version_def same_name_def)
    moreover have "latest_of db' q = latest_of db q" if "q \<noteq> vr_project v"
      using new that by (intro latest_of_cong) (auto simp: db')
    ultimately show "latest_of db' q = ((latest_of db)(vr_project v := Some (vr_id v))) q"
      using v'(2) by (auto simp: same_version_def same_name_def)
  qed
  moreover have "(\<not> vr_latest v) = (latest_of db (vr_project v) \<noteq> Some (vr_id v))"
  proof (cases "vr_latest v")
    case True
    then show ?thesis using latest_of_eq [OF one v(1)] v(2) by simp
  next
    case False
    have "w = v" if "w \<in> set (db_versions db)" "vr_id w = vr_id v" for w
      using that v ids by (auto simp: distinct_map inj_on_def)
    then show ?thesis using False latest_of_SomeD [of db "vr_project v" "vr_id v"] by blast
  qed
  ultimately show ?thesis using True r db' same by auto
qed

lemma draw_fresh: "inj (db_ids db) \<Longrightarrow> ids_ok ident rows db \<Longrightarrow> db_ids db (db_ids_drawn db) \<notin> ident ` set rows"
proof
  assume "inj (db_ids db)" and "ids_ok ident rows db" and "db_ids db (db_ids_drawn db) \<in> ident ` set rows"
  then obtain n where "n < db_ids_drawn db" and "db_ids db (db_ids_drawn db) = db_ids db n" by (auto simp: ids_ok_def)
  then show False using injD [OF \<open>inj (db_ids db)\<close>] by blast
qed

lemma ids_ok_mono:
  "ids_ok ident rows db \<Longrightarrow> db_ids db' = db_ids db \<Longrightarrow> db_ids_drawn db \<le> db_ids_drawn db' \<Longrightarrow> ids_ok ident rows db'"
  unfolding ids_ok_def by (elim conjE, intro conjI, assumption) (erule subset_trans, auto)

lemma create_version_ok:
  assumes ok: "versions_ok db" and tx: "createProjectVersionWithTx p name pre mark db = (r, db')"
  shows "versions_ok db' \<and>
    (case r of
       Inl x \<Rightarrow> db' = db
     | Inr v \<Rightarrow> find_version db p name = None \<and> find_version db' p name = Some v \<and> vr_project v = p \<and> vr_prerelease v = pre \<and>
         vr_run_count v = 0 \<and> vr_id v = db_ids db (db_ids_drawn db) \<and>
         (\<exists>vs. db' = db\<lparr>db_versions := vs @ [v], db_ids_drawn := Suc (db_ids_drawn db)\<rparr> \<and> list_all2 same_version (db_versions db) vs) \<and>
         latest_of db' = (if mark = Some False then latest_of db else (latest_of db)(p := Some (vr_id v))))"
proof (cases r)
  case (Inl x)
  then have "db' = db" using tx
    by (auto simp: createProjectVersionWithTx_def Let_def split: if_splits sum.splits prod.splits)
  then show ?thesis using ok Inl by simp
next
  case (Inr v)
  define should where "should = (mark \<noteq> Some False)"
  define vs where "vs = (if should then clear_latest p (db_versions db) else db_versions db)"
  have none: "find_version db p name = None" and db': "db' = db\<lparr>db_versions := vs @ [v], db_ids_drawn := Suc (db_ids_drawn db)\<rparr>"
    and v: "vr_id v = db_ids db (db_ids_drawn db)" "vr_project v = p" "vr_version v = name" "vr_prerelease v = pre"
      "vr_latest v = should" "\<not> vr_deleted v" "vr_run_count v = 0"
    using tx Inr by (auto simp: createProjectVersionWithTx_def draw_id_def Let_def vs_def should_def split: if_splits sum.splits option.splits)
  have same: "list_all2 same_version (db_versions db) vs"
    by (auto simp: vs_def clear_latest_def intro: same_versions_map list_all2_refl)
  have ids: "ids_ok vr_id (db_versions db) db" and one: "one_latest (db_versions db)" and inj: "inj (db_ids db)"
    and names: "names_unique (db_versions db)"
    using ok by (auto simp: versions_ok_def)
  have one': "one_latest (vs @ [v])"
  proof (cases should)
    case True
    then have "\<not> vr_latest w" if "w \<in> set vs" "\<not> vr_deleted w" "vr_project w = p" for w
      using that clear_latest_cleared by (simp add: vs_def)
    moreover have "one_latest vs" using one one_latest_clear by (simp add: vs_def)
    ultimately show ?thesis using v by (intro one_latestI) (auto dest: one_latestD)
  next
    case False
    then show ?thesis using one v by (intro one_latestI) (auto simp: vs_def dest: one_latestD)
  qed
  have "versions_ok db'"
  proof -
    have keys: "map vr_id vs = map vr_id (db_versions db)" "map (\<lambda>v. (vr_project v, vr_version v)) (filter (\<lambda>v. \<not> vr_deleted v) vs) =
        map (\<lambda>v. (vr_project v, vr_version v)) (filter (\<lambda>v. \<not> vr_deleted v) (db_versions db))"
      using same_versions_keys [OF same_versions_names [OF same]] by auto
    have "vr_id ` set vs = vr_id ` set (db_versions db)" using keys(1) by (metis list.set_map)
    then have "ids_ok vr_id (vs @ [v]) db'"
      using ids draw_fresh [OF inj ids] keys(1) v(1) by (auto simp: ids_ok_def db' less_Suc_eq lessThan_Suc)
    moreover have "(p, name) \<notin> set (map (\<lambda>v. (vr_project v, vr_version v)) (filter (\<lambda>v. \<not> vr_deleted v) (db_versions db)))"
      using none by (auto simp: find_version_def find_None_iff)
    then have "names_unique (vs @ [v])" using names keys(2) v by (simp add: names_unique_def)
    ultimately show ?thesis using one' inj by (simp add: versions_ok_def db')
  qed
  moreover have "find_version db' p name = Some v"
  proof -
    have "find (\<lambda>w. vr_project w = p \<and> vr_version w = name \<and> \<not> vr_deleted w) vs = None"
      using none same by (fastforce simp: find_version_def find_None_iff same_version_def same_name_def list_all2_conv_all_nth in_set_conv_nth)
    then show ?thesis using v by (simp add: find_version_def db' find_append)
  qed
  moreover have "latest_of db' = (if mark = Some False then latest_of db else (latest_of db)(p := Some (vr_id v)))"
  proof
    fix q
    have "latest_of db' q = latest_of db q" if "q \<noteq> p \<or> \<not> should"
    proof (cases should)
      case True
      then show ?thesis using that one' v clear_latest_other [of _ p "db_versions db"]
        by (intro latest_of_cong) (auto simp: db' vs_def)
    next
      case False
      then have "latest_of db' q = latest_of db q" using v
        by (simp add: latest_of_def db' vs_def find_append split: option.splits)
      then show ?thesis .
    qed
    moreover have "latest_of db' p = Some (vr_id v)" if should
      using latest_of_eq [of db' v] one' v that by (simp add: db')
    ultimately show "latest_of db' q = (if mark = Some False then latest_of db else (latest_of db)(p := Some (vr_id v))) q"
      by (auto simp: should_def)
  qed
  ultimately show ?thesis using Inr none db' v same by auto
qed

text \<open>Releasing a version or taking the release back moves no other column, and the first release date stays.\<close>

lemma update_row_same: "(\<And>r. ident r = i \<Longrightarrow> f r = g r) \<Longrightarrow> update_row ident i f rows = update_row ident i g rows"
  by (simp add: update_row_def)

lemma one_latest_same:
  assumes "list_all2 (\<lambda>v w. same_name v w \<and> vr_latest w = vr_latest v) vs ws" and "one_latest vs"
  shows "one_latest ws"
proof (rule one_latestI)
  have orig: "\<exists>v\<in>set vs. same_name v w \<and> vr_latest w = vr_latest v" if "w \<in> set ws" for w
    using that assms(1) by (auto simp: list_all2_conv_all_nth in_set_conv_nth) (metis nth_mem)
  fix a b
  assume *: "a \<in> set ws" "b \<in> set ws" "vr_latest a" "vr_latest b" "\<not> vr_deleted a" "\<not> vr_deleted b" "vr_project a = vr_project b"
  obtain v w where "v \<in> set vs" "same_name v a" "vr_latest v" "w \<in> set vs" "same_name w b" "vr_latest w"
    using orig [OF *(1)] orig [OF *(2)] * by metis
  then show "vr_id a = vr_id b" using one_latestD [OF assms(2), of v w] * by (auto simp: same_version_def same_name_def)
qed

lemma find_same:
  assumes "list_all2 (\<lambda>v w. P v = Q w \<and> f v = f w) vs ws"
  shows "map_option f (find P vs) = map_option f (find Q ws)"
  using assms by (induction rule: list_all2_induct) auto

lemma latest_of_same:
  assumes "list_all2 (\<lambda>v w. same_name v w \<and> vr_latest w = vr_latest v) (db_versions db) ws"
  shows "latest_of (db\<lparr>db_versions := ws\<rparr>) = latest_of db"
proof
  fix p
  show "latest_of (db\<lparr>db_versions := ws\<rparr>) p = latest_of db p"
    unfolding latest_of_def cp_db.select_convs cp_db.update_convs
    by (simp, rule sym, rule find_same, rule list_all2_mono [OF assms]) (simp add: same_version_def same_name_def)
qed

lemma version_Update_ok:
  assumes ok: "versions_ok db" and up: "version_Update now vid pre db = (r, db')"
  shows "versions_ok db' \<and> latest_of db' = latest_of db \<and>
    (case r of
       Inl x \<Rightarrow> db' = db \<and> IsNotFound x
     | Inr v \<Rightarrow> (\<exists>w\<in>set (db_versions db). vr_id w = vid \<and> \<not> vr_deleted w \<and> v = released now pre w) \<and>
         v \<in> set (db_versions db') \<and>
         db' = db\<lparr>db_versions := update_row vr_id vid (released now pre) (db_versions db)\<rparr>)"
proof (cases "find (\<lambda>v. vr_id v = vid \<and> \<not> vr_deleted v) (db_versions db)")
  case None
  then show ?thesis using up ok by (auto simp: version_Update_def)
next
  case (Some w)
  define vs where "vs = update_row vr_id vid (released now pre) (db_versions db)"
  have r: "r = Inr (released now pre w)" and db': "db' = db\<lparr>db_versions := vs\<rparr>"
    using up Some by (auto simp: version_Update_def vs_def)
  have w: "w \<in> set (db_versions db)" "vr_id w = vid" "\<not> vr_deleted w" using find_SomeD [OF Some] by auto
  have same: "list_all2 (\<lambda>v w. same_name v w \<and> vr_latest w = vr_latest v) (db_versions db) vs"
    unfolding vs_def update_row_def using released_same [of _ now pre]
    by (simp add: list.rel_map list.rel_refl same_version_def) (simp add: list.rel_refl same_name_def)
  have "list_all2 same_name (db_versions db) vs" by (rule list_all2_mono [OF same]) simp
  then have "versions_ok db'"
    unfolding db' using ok one_latest_same [OF same] by (intro versions_ok_rows) (auto simp: versions_ok_def)
  moreover have "latest_of db' = latest_of db" unfolding db' by (rule latest_of_same [OF same])
  moreover have "released now pre w \<in> set vs" unfolding vs_def update_row_set using w by (intro image_eqI [OF _ w(1)]) simp
  ultimately show ?thesis using w r db' vs_def by auto
qed

lemma released_dates:
  "vr_released_at v \<noteq> None \<Longrightarrow> vr_released_at (released now (Some False) v) = vr_released_at v"
  "vr_released_at v = None \<Longrightarrow> vr_released_at (released now (Some False) v) = Some now"
  "vr_released_at (released now (Some True) v) = None"
  "vr_prerelease (released now (Some b) v) = b"
  by (auto simp: released_def split: bool.splits)

text \<open>
  C29. Marking a version as the latest of its project, seen on the map from projects to latest versions:
  a success makes the given version the latest one of the given project and of no other, whatever was
  the latest before, and changes nothing else of the database; the version is a live pre-release of that project;
  the audit event is logged exactly when the latest version changed. A failure changes nothing, and
  the invariant (unique identifiers and names, one latest version per project) is kept.
\<close>

theorem mark_as_latest_refines:
  assumes ok: "versions_ok db" and run: "uc_MarkAsLatest parse p v db = (r, db')"
  shows "versions_ok db' \<and>
    (case r of
       Inl x \<Rightarrow> db' = db
     | Inr _ \<Rightarrow> \<exists>pid vid row vs.
         parse p = Inr pid \<and> parse v = Inr vid \<and>
         live_version_in db pid vid = Some row \<and> vr_prerelease row \<and>
         latest_of db' = (latest_of db)(pid := Some vid) \<and>
         db' = db\<lparr>db_versions := vs,
           db_events := db_events db @
             (if latest_of db pid = Some vid then [] else [ProjectVersionUpdated pid vid (vr_version row) True])\<rparr>)"
proof (cases r)
  case (Inl x)
  then have "db' = db" using run
    by (auto simp: uc_MarkAsLatest_def repo_MarkAsLatest_def WithTx_def promoteVersionToLatestWithTx_def split: sum.splits option.splits prod.splits if_splits)
  then show ?thesis using ok Inl by simp
next
  case (Inr u)
  then obtain pid vid prj row promoted db1 where parse: "parse p = Inr pid" "parse v = Inr vid"
    and prj: "find (\<lambda>p. pj_id p = pid) (db_projects db) = Some prj" and row: "live_version_in db pid vid = Some row"
    and tx: "promoteVersionToLatestWithTx row db = (Inr promoted, db1)"
    and db': "db' = (if promoted then dispatchProjectVersionPromoted (Some prj) (Some (row\<lparr>vr_latest := True\<rparr>)) db1 else db1)"
    using run by (auto simp: uc_MarkAsLatest_def repo_MarkAsLatest_def WithTx_def split: sum.splits option.splits prod.splits)
  have pid: "pj_id prj = pid" using find_SomeD [OF prj] by simp
  have mem: "row \<in> set (db_versions db)" "\<not> vr_deleted row" "vr_id row = vid" "vr_project row = pid"
    using find_SomeD [OF row [unfolded live_version_in_def]] by auto
  note p = promote_ok [OF ok mem(1,2) tx, unfolded mem(3,4) sum.case]
  obtain vs where db1: "db1 = db\<lparr>db_versions := vs\<rparr>" using p by blast
  have db'': "db' = db\<lparr>db_versions := vs, db_events := db_events db @
      (if latest_of db pid = Some vid then [] else [ProjectVersionUpdated pid vid (vr_version row) True])\<rparr>"
    using p mem pid by (auto simp: db' db1 dispatchProjectVersionPromoted_def)
  have "versions_ok db'" using p by (auto simp: db'' db1 versions_ok_def ids_ok_def)
  moreover have "latest_of db' = latest_of db1" by (intro ext) (simp add: db'' db1 latest_of_def)
  ultimately show ?thesis using Inr parse row p db'' by auto
qed

end
