(* ===== verification/Workflow_Runs.thy ===== *)
theory Workflow_Runs
  imports Project_Versions "HOL-Library.Word"
begin

text \<open>
  Workflow runs (\<open>app/controlplane/pkg/biz/workflowrun.go\<close> and
  \<open>app/controlplane/pkg/data/workflowrun.go\<close>): starting a run against a version of its project,
  finishing and expiring it, its policy columns, and the listing of runs.

  Creating a run reads the workflow and the version before its transaction opens; the transaction is a
  function of what was read and of the database it runs on, which other requests may have changed.
  Time is an argument. Where a query has no order, the order in which the rows come back is a
  parameter.
\<close>

section \<open>Creating a run\<close>

record run_opts =
  ro_workflow :: uuid
  ro_schema_version :: uuid
  ro_url :: string
  ro_runner :: string
  ro_backends :: "uuid list"
  ro_latest_revision :: int
  ro_used_revision :: int
  ro_version :: string
  ro_use_latest :: bool
  ro_require_existing :: bool
  ro_mark :: "bool option"
  ro_block_released :: bool

text \<open>What the repository reads before the transaction.\<close>

definition resolve_version :: "run_opts \<Rightarrow> 'a cp_db_scheme \<Rightarrow> (workflow_row \<times> version_row option) res" where
  "resolve_version opts db =
     (case find (\<lambda>w. wfr_id w = ro_workflow opts) (db_workflows db) of
        None \<Rightarrow> Inl (Errorf ''getting workflow: %w'' [])
      | Some wflow \<Rightarrow>
          if ro_use_latest opts then
            (case find (\<lambda>v. vr_project v = wfr_project wflow \<and> \<not> vr_deleted v \<and> vr_latest v) (db_versions db) of
               None \<Rightarrow> Inl (NewErrValidationStr ''no project version exists; create one before attesting with --latest-version'')
             | Some v \<Rightarrow> Inr (wflow, Some v))
          else
            (case find_version db (wfr_project wflow) (ro_version opts) of
               None \<Rightarrow>
                 if ro_require_existing opts then
                   Inl (NewErrValidation (Errorf ''project version %q not found'' [ro_version opts]))
                 else Inr (wflow, None)
             | Some v \<Rightarrow> Inr (wflow, Some v)))"

text \<open>The version of the run, whether it was created and whether it was promoted.\<close>

definition version_for_run ::
  "run_opts \<Rightarrow> workflow_row \<Rightarrow> version_row option \<Rightarrow> 'a cp_db_scheme \<Rightarrow> (uuid \<times> bool \<times> bool) res \<times> 'a cp_db_scheme" where
  "version_for_run opts wflow version db =
     (case version of
        None \<Rightarrow>
          (case createProjectVersionWithTx (wfr_project wflow) (ro_version opts) True (ro_mark opts) db of
             (Inl x, db') \<Rightarrow> (Inl (Wrapf ''creating version: %w'' [] x), db')
           | (Inr v, db') \<Rightarrow> (Inr (vr_id v, True, False), db'))
      | Some v \<Rightarrow>
          (let markAsLatest = (ro_mark opts = Some True) in
           if ro_block_released opts \<or> markAsLatest then
             (case live_version_in db (wfr_project wflow) (vr_id v) of
                None \<Rightarrow> (Inl (NewErrNotFound ''Version''), db)
              | Some fresh \<Rightarrow>
                  if ro_block_released opts \<and> \<not> vr_prerelease fresh then
                    (Inl (NewErrReleasedVersionImmutable (vr_version fresh)), db)
                  else if markAsLatest then
                    (case promoteVersionToLatestWithTx fresh db of
                       (Inl x, db') \<Rightarrow> (Inl x, db')
                     | (Inr promoted, db') \<Rightarrow> (Inr (vr_id v, False, promoted), db'))
                  else (Inr (vr_id v, False, False), db))
           else (Inr (vr_id v, False, False), db)))"

text \<open>The row of the run, with the defaults of its columns. It refers to an existing contract revision and existing backends.\<close>

definition insert_run :: "int \<Rightarrow> run_opts \<Rightarrow> workflow_row \<Rightarrow> uuid \<Rightarrow> 'a cp_db_scheme \<Rightarrow> workflow_run res \<times> 'a cp_db_scheme" where
  "insert_run now opts wflow vid db =
     (if ro_schema_version opts \<notin> fst ` set (db_contracts db) \<or> \<not> set (ro_backends opts) \<subseteq> cb_id ` set (db_backends db) then (Inl (Errorf ''ent: constraint failed'' []), db)
      else
        let (rid, db) = draw_id db;
            run = \<lparr>run_id = rid, run_workflow = ro_workflow opts, run_org = wfr_org wflow, run_version = vid,
                   run_contract_version = ro_schema_version opts, run_url = ro_url opts, run_runner_type = ro_runner opts,
                   run_backends = ro_backends opts, run_rev_latest = ro_latest_revision opts,
                   run_rev_used = ro_used_revision opts, run_state = WorkflowRunInitialized, run_reason = [],
                   run_created_at = now, run_finished_at = None, run_digest = [], run_crafting = None,
                   run_has_violations = None, run_policy = None\<rparr>
        in (Inr run, db\<lparr>db_runs := db_runs db @ [run]\<rparr>))"

definition count_run_in_workflow :: "uuid \<Rightarrow> uuid \<Rightarrow> 'a cp_db_scheme \<Rightarrow> unit res \<times> 'a cp_db_scheme" where
  "count_run_in_workflow wid rid db =
     (if wid \<notin> wfr_id ` set (db_workflows db) then (Inl (Errorf ''updating workflow: %w'' []), db)
      else (Inr (), db\<lparr>db_workflows := update_row wfr_id wid
              (\<lambda>w. w\<lparr>wfr_latest_run := Some rid, wfr_runs_count := Suc (wfr_runs_count w)\<rparr>) (db_workflows db)\<rparr>))"

definition count_run_in_version :: "int \<Rightarrow> uuid \<Rightarrow> 'a cp_db_scheme \<Rightarrow> unit res \<times> 'a cp_db_scheme" where
  "count_run_in_version now vid db =
     (if vid \<notin> vr_id ` set (db_versions db) then (Inl (Errorf ''updating project version: %w'' []), db)
      else (Inr (), db\<lparr>db_versions := update_row vr_id vid
              (\<lambda>v. v\<lparr>vr_run_count := Suc (vr_run_count v), vr_last_run_at := Some now\<rparr>) (db_versions db)\<rparr>))"



definition create_run_tx ::
  "int \<Rightarrow> run_opts \<Rightarrow> workflow_row \<Rightarrow> version_row option \<Rightarrow> 'a cp_db_scheme \<Rightarrow>
     (workflow_run \<times> bool \<times> bool) res \<times> 'a cp_db_scheme" where
  "create_run_tx now opts wflow version db =
     (case version_for_run opts wflow version db of
        (Inl x, db1) \<Rightarrow> (Inl x, db1)
      | (Inr (vid, created, promoted), db1) \<Rightarrow>
          (case insert_run now opts wflow vid db1 of
             (Inl x, db2) \<Rightarrow> (Inl x, db2)
           | (Inr run, db2) \<Rightarrow>
               (case count_run_in_workflow (wfr_id wflow) (run_id run) db2 of
                  (Inl x, db3) \<Rightarrow> (Inl x, db3)
                | (Inr _, db3) \<Rightarrow>
                    (case count_run_in_version now vid db3 of
                       (Inl x, db4) \<Rightarrow> (Inl x, db4)
                     | (Inr _, db4) \<Rightarrow> (Inr (run, created, promoted), db4)))))"

record create_result =
  cr_run :: workflow_run
  cr_version :: version_row
  cr_project :: project_row
  cr_created :: bool
  cr_promoted :: bool

text \<open>\<open>others\<close> is what other requests do between the reads and the transaction.\<close>

definition run_Create ::
  "('a cp_db_scheme \<Rightarrow> 'a cp_db_scheme) \<Rightarrow> int \<Rightarrow> run_opts \<Rightarrow> 'a cp_db_scheme \<Rightarrow> create_result res \<times> 'a cp_db_scheme" where
  "run_Create others now opts db =
     (case resolve_version opts db of
        Inl x \<Rightarrow> (Inl x, db)
      | Inr (wflow, version) \<Rightarrow>
          (case WithTx (create_run_tx now opts wflow version) (others db) of
             (Inl x, db') \<Rightarrow> (Inl x, db')
           | (Inr (run, created, promoted), db') \<Rightarrow>
               (case find (\<lambda>v. vr_id v = run_version run) (db_versions db') of
                  None \<Rightarrow> (Inl (Errorf ''reloading project version: %w'' []), db')
                | Some v \<Rightarrow>
                    (case find (\<lambda>p. pj_id p = wfr_project wflow) (db_projects db') of
                       None \<Rightarrow> (Inl (Errorf ''reloading project: %w'' []), db')
                     | Some p \<Rightarrow> (Inr \<lparr>cr_run = run, cr_version = v, cr_project = p, cr_created = created, cr_promoted = promoted\<rparr>,
                         db')))))"

section \<open>The life of a run\<close>

definition run_FindByID :: "'a cp_db_scheme \<Rightarrow> uuid \<Rightarrow> workflow_run option" where
  "run_FindByID db rid = find (\<lambda>r. run_id r = rid) (db_runs db)"

text \<open>More than one run with the digest is an error of the query.\<close>

definition FindByAttestationDigest :: "'a cp_db_scheme \<Rightarrow> string \<Rightarrow> workflow_run option res" where
  "FindByAttestationDigest db digest =
     only (\<lambda>r. run_digest r = digest) (db_runs db)"

definition workflow_of :: "'a cp_db_scheme \<Rightarrow> workflow_run \<Rightarrow> workflow_row option" where
  "workflow_of db r = find (\<lambda>w. wfr_id w = run_workflow r) (db_workflows db)"

definition version_of :: "'a cp_db_scheme \<Rightarrow> workflow_run \<Rightarrow> version_row option" where
  "version_of db r = find (\<lambda>v. vr_id v = run_version r) (db_versions db)"

definition FindByIDInOrg :: "'a cp_db_scheme \<Rightarrow> uuid \<Rightarrow> uuid \<Rightarrow> workflow_run res" where
  "FindByIDInOrg db orgID rid =
     (case (find (\<lambda>o'. org_id o' = orgID \<and> \<not> org_deleted o') (db_orgs db), run_FindByID db rid) of
        (Some _, Some r) \<Rightarrow>
          (case workflow_of db r of
             Some w \<Rightarrow> if wfr_org w = orgID then Inr r else Inl (NewErrNotFound ''workflow run'')
           | None \<Rightarrow> Inl (NewErrNotFound ''workflow run''))
      | _ \<Rightarrow> Inl (NewErrNotFound ''workflow run''))"

definition update_run :: "uuid \<Rightarrow> (workflow_run \<Rightarrow> workflow_run) \<Rightarrow> err \<Rightarrow> 'a cp_db_scheme \<Rightarrow> unit res \<times> 'a cp_db_scheme" where
  "update_run rid f missing db =
     (if run_FindByID db rid = None then (Inl missing, db)
      else (Inr (), db\<lparr>db_runs := update_row run_id rid f (db_runs db)\<rparr>))"

definition MarkAsFinished ::
  "int \<Rightarrow> uuid \<Rightarrow> run_status \<Rightarrow> string \<Rightarrow> 'a cp_db_scheme \<Rightarrow> unit res \<times> 'a cp_db_scheme" where
  "MarkAsFinished now rid status reason db =
     update_run rid (\<lambda>r. r\<lparr>run_finished_at := Some now, run_state := status, run_reason := reason, run_crafting := None\<rparr>)
       (Errorf ''failed to find workflow run: %w'' []) db"

definition Expire :: "uuid \<Rightarrow> 'a cp_db_scheme \<Rightarrow> unit res \<times> 'a cp_db_scheme" where
  "Expire rid db = update_run rid (\<lambda>r. r\<lparr>run_state := WorkflowRunExpired, run_crafting := None\<rparr>)
     (Errorf ''ent: workflow_run not found'' []) db"

text \<open>A run of a released version takes no attestation when the organization says so.\<close>

definition run_not_found :: "uuid \<Rightarrow> err" where
  "run_not_found rid = NewErrNotFound (''workflow run with id '' @ rid @ '' not found'')"

definition assertVersionAcceptsAttestationWithTx :: "uuid \<Rightarrow> bool \<Rightarrow> 'a cp_db_scheme \<Rightarrow> unit res" where
  "assertVersionAcceptsAttestationWithTx rid blockReleasedVersions db =
     (if \<not> blockReleasedVersions then Inr ()
      else case Option.bind (run_FindByID db rid) (version_of db) of
        None \<Rightarrow> Inl (run_not_found rid)
      | Some v \<Rightarrow> if \<not> vr_prerelease v then Inl (NewErrReleasedVersionImmutable (vr_version v)) else Inr ())"

definition SaveAttestationDigest :: "uuid \<Rightarrow> string \<Rightarrow> bool \<Rightarrow> 'a cp_db_scheme \<Rightarrow> unit res \<times> 'a cp_db_scheme" where
  "SaveAttestationDigest rid digest blockReleasedVersions =
     WithTx (\<lambda>db. case assertVersionAcceptsAttestationWithTx rid blockReleasedVersions db of
         Inl x \<Rightarrow> (Inl x, db)
       | Inr _ \<Rightarrow> update_run rid (\<lambda>r. r\<lparr>run_digest := digest\<rparr>) (run_not_found rid) db)"

text \<open>A bundle is not empty, and a run has one bundle at most.\<close>

definition SaveAttestationBundle :: "uuid \<Rightarrow> string \<Rightarrow> string \<Rightarrow> bool \<Rightarrow> 'a cp_db_scheme \<Rightarrow> unit res \<times> 'a cp_db_scheme" where
  "SaveAttestationBundle rid digest bundleBytes blockReleasedVersions =
     WithTx (\<lambda>db. case assertVersionAcceptsAttestationWithTx rid blockReleasedVersions db of
         Inl x \<Rightarrow> (Inl x, db)
       | Inr _ \<Rightarrow>
           (case update_run rid (\<lambda>r. r\<lparr>run_digest := digest\<rparr>) (run_not_found rid) db of
              (Inl x, db1) \<Rightarrow> (Inl x, db1)
            | (Inr _, db1) \<Rightarrow>
                if bundleBytes = [] \<or> rid \<in> fst ` set (db_bundles db1) then (Inl (Errorf ''saving bundle: %w'' []), db1)
                else (Inr (), db1\<lparr>db_bundles := db_bundles db1 @ [(rid, bundleBytes)]\<rparr>)))"

definition GetBundle :: "'a cp_db_scheme \<Rightarrow> uuid \<Rightarrow> string res" where
  "GetBundle db rid =
     (case map_of (db_bundles db) rid of
        None \<Rightarrow> Inl (NewErrNotFound (''attestation for workflow run with id '' @ rid @ '' not found'')) | Some b \<Rightarrow> Inr b)"

section \<open>Policy columns\<close>

text \<open>The counters are stored as 32-bit integers, so that a larger one wraps around.\<close>

definition int32 :: "nat \<Rightarrow> int" where
  "int32 n = sint (word_of_nat n :: 32 word)"

definition policyStatusToEnt :: "policy_status \<Rightarrow> ent_policy_status" where
  "policyStatusToEnt s = (case s of
       PolicyStatusNotApplicable \<Rightarrow> NOT_APPLICABLE | PolicyStatusUnspecified \<Rightarrow> NOT_APPLICABLE
     | PolicyStatusPassed \<Rightarrow> PASSED | PolicyStatusSkipped \<Rightarrow> SKIPPED | PolicyStatusWarning \<Rightarrow> WARNING
     | PolicyStatusBlocked \<Rightarrow> BLOCKED | PolicyStatusBypassed \<Rightarrow> BYPASSED)"

definition entToPolicyStatus :: "ent_policy_status \<Rightarrow> policy_status" where
  "entToPolicyStatus s = (case s of
       NOT_APPLICABLE \<Rightarrow> PolicyStatusNotApplicable | PASSED \<Rightarrow> PolicyStatusPassed | SKIPPED \<Rightarrow> PolicyStatusSkipped
     | WARNING \<Rightarrow> PolicyStatusWarning | BLOCKED \<Rightarrow> PolicyStatusBlocked | BYPASSED \<Rightarrow> PolicyStatusBypassed)"

definition UpdatePolicyStatus :: "uuid \<Rightarrow> status_summary option \<Rightarrow> 'a cp_db_scheme \<Rightarrow> unit res \<times> 'a cp_db_scheme" where
  "UpdatePolicyStatus rid summary db =
     (case summary of
        None \<Rightarrow> (Inl (Errorf ''policy status summary is required'' []), db)
      | Some s \<Rightarrow>
          update_run rid
            (\<lambda>r. r\<lparr>run_has_violations := Some (sum_violated s > 0),
                    run_policy := Some \<lparr>pc_status = policyStatusToEnt (sum_status s), pc_total = int32 (sum_total s),
                      pc_passed = int32 (sum_passed s), pc_skipped = int32 (sum_skipped s),
                      pc_violations = int32 (sum_violated s), pc_suppressed = int32 (sum_suppressed s),
                      pc_has_gates = sum_has_gates s\<rparr>\<rparr>)
            (run_not_found rid) db)"

text \<open>The summary as it is read back, with the counters as signed integers.\<close>

record read_summary =
  rs_status :: policy_status
  rs_total :: int
  rs_passed :: int
  rs_skipped :: int
  rs_violated :: int
  rs_suppressed :: int
  rs_has_gates :: bool

definition entWrPolicySummary :: "workflow_run \<Rightarrow> read_summary option" where
  "entWrPolicySummary r = map_option
     (\<lambda>pc. \<lparr>rs_status = entToPolicyStatus (pc_status pc), rs_total = pc_total pc, rs_passed = pc_passed pc,
            rs_skipped = pc_skipped pc, rs_violated = pc_violations pc, rs_suppressed = pc_suppressed pc,
            rs_has_gates = pc_has_gates pc\<rparr>) (run_policy r)"

section \<open>Listing runs\<close>

record run_filters =
  fl_workflow :: "uuid option"
  fl_version :: "uuid option"
  fl_status :: "run_status option"
  fl_projects :: "uuid list option"
  fl_violations :: "bool option"
  fl_policy_status :: "policy_status option"
  fl_has_gates :: "bool option"

definition run_selected :: "'a cp_db_scheme \<Rightarrow> uuid \<Rightarrow> run_filters \<Rightarrow> workflow_run \<Rightarrow> bool" where
  "run_selected db orgID f r =
     (run_org r = orgID \<and>
      list_ex (\<lambda>w. wfr_id w = run_workflow r \<and> \<not> wfr_deleted w \<and>
         (case fl_projects f of None \<Rightarrow> True | Some ps \<Rightarrow> wfr_project w \<in> set ps)) (db_workflows db) \<and>
      (case fl_workflow f of None \<Rightarrow> True | Some w \<Rightarrow> run_workflow r = w) \<and>
      (case fl_status f of None \<Rightarrow> True | Some s \<Rightarrow> run_state r = s) \<and>
      (case fl_version f of None \<Rightarrow> True | Some v \<Rightarrow> run_version r = v) \<and>
      (case fl_policy_status f of
         Some s \<Rightarrow> map_option pc_status (run_policy r) = Some (policyStatusToEnt s)
       | None \<Rightarrow> (case fl_violations f of None \<Rightarrow> True | Some b \<Rightarrow> run_has_violations r = Some b)) \<and>
      (case fl_has_gates f of None \<Rightarrow> True | Some b \<Rightarrow> map_option pc_has_gates (run_policy r) = Some b))"

definition run_key :: "workflow_run \<Rightarrow> int \<times> uuid" where
  "run_key r = (run_created_at r, run_id r)"

text \<open>
  The query orders by creation time only, the cursor compares creation time and identifier. \<open>order\<close> is
  the order of the database, which is free among runs created at the same instant.
\<close>

definition list_runs_page ::
  "(workflow_run list \<Rightarrow> workflow_run list) \<Rightarrow> 'a cp_db_scheme \<Rightarrow> uuid \<Rightarrow> run_filters \<Rightarrow> nat \<Rightarrow> (int \<times> uuid) option \<Rightarrow>
     workflow_run list \<times> (int \<times> uuid) option" where
  "list_runs_page order db orgID f limit cursor =
     cut_page run_key limit (fetch order run_key cursor limit (filter (run_selected db orgID f) (db_runs db)))"

definition list_runs ::
  "cursor_codec \<Rightarrow> (workflow_run list \<Rightarrow> workflow_run list) \<Rightarrow> 'a cp_db_scheme \<Rightarrow> uuid \<Rightarrow> run_filters \<Rightarrow>
     cursor_options option \<Rightarrow> (workflow_run list \<times> string) res" where
  "list_runs cc order db orgID f p =
     (case p of
        None \<Rightarrow> Inl (Errorf ''pagination options is required'' [])
      | Some p \<Rightarrow>
          (case list_runs_page order db orgID f (nat (co_limit p)) (co_cursor p) of
             (rows, None) \<Rightarrow> Inr (rows, [])
           | (rows, Some (t, rid)) \<Rightarrow> Inr (rows, EncodeCursor cc t rid)))"

section \<open>Expiration\<close>

text \<open>The query has a limit and no order: \<open>scan\<close> is the order in which the database finds the runs.\<close>

definition ListNotFinishedOlderThan ::
  "(workflow_run list \<Rightarrow> workflow_run list) \<Rightarrow> 'a cp_db_scheme \<Rightarrow> int \<Rightarrow> int \<Rightarrow> workflow_run list" where
  "ListNotFinishedOlderThan scan db olderThan limit =
     (let found = scan (filter (\<lambda>r. run_created_at r \<le> olderThan \<and> run_state r = WorkflowRunInitialized) (db_runs db))
      in if limit > 0 then take (nat limit) found else found)"

fun expire_all :: "workflow_run list \<Rightarrow> 'a cp_db_scheme \<Rightarrow> unit res \<times> 'a cp_db_scheme" where
  "expire_all [] db = (Inr (), db)"
| "expire_all (r # rs) db =
     (case Expire (run_id r) db of (Inl x, db') \<Rightarrow> (Inl x, db') | (Inr _, db') \<Rightarrow> expire_all rs db')"

definition maxNumberOfRunsToExpire :: int where "maxNumberOfRunsToExpire = 100"

text \<open>\<open>others\<close> is what other requests do between the query and the updates.\<close>

definition ExpirationSweep ::
  "(workflow_run list \<Rightarrow> workflow_run list) \<Rightarrow> ('a cp_db_scheme \<Rightarrow> 'a cp_db_scheme) \<Rightarrow> int \<Rightarrow> 'a cp_db_scheme \<Rightarrow>
     unit res \<times> 'a cp_db_scheme" where
  "ExpirationSweep scan others olderThan db =
     expire_all (ListNotFinishedOlderThan scan db olderThan maxNumberOfRunsToExpire) (others db)"

section \<open>The use case\<close>

record contract_revision =
  ctr_version :: uuid
  ctr_latest :: int
  ctr_used :: int

record create_opts =
  wo_workflow :: string
  wo_contract :: "contract_revision option"
  wo_url :: string
  wo_runner :: string
  wo_backend :: uuid
  wo_version :: string
  wo_use_latest :: bool
  wo_require_existing :: bool
  wo_mark :: "bool option"
  wo_block_released :: bool

definition check_create_opts :: "create_opts \<Rightarrow> (contract_revision \<times> string) res" where
  "check_create_opts opts =
     (if wo_backend opts = uuid_Nil then Inl (Errorf ''CASBackendID cannot be nil'' [])
      else case wo_contract opts of
        None \<Rightarrow> Inl (Errorf ''contract revision cannot be nil'' [])
      | Some revn \<Rightarrow>
          if wo_use_latest opts \<and> wo_version opts \<noteq> [] then
            Inl (NewErrValidationStr ''cannot specify both a project version and use-latest-version'')
          else if wo_mark opts \<noteq> None \<and> wo_use_latest opts then
            Inl (NewErrValidationStr ''--mark-latest and --latest-version are mutually exclusive'')
          else
            let version = (if wo_version opts = [] \<and> \<not> wo_use_latest opts then DefaultVersionName else wo_version opts) in
            bind_res (if version \<noteq> [] then ValidateVersion version else Inr ()) (\<lambda>_. Inr (revn, version)))"

definition report_version :: "create_result \<Rightarrow> 'a cp_db_scheme \<Rightarrow> 'a cp_db_scheme" where
  "report_version res db =
     (let p = cr_project res; v = cr_version res in
      if cr_created res then
        db\<lparr>db_events := db_events db @ [ProjectVersionCreated (pj_id p) (vr_id v) (vr_version v) (vr_prerelease v)]\<rparr>
      else if cr_promoted res then dispatchProjectVersionPromoted (Some p) (Some v) db
      else db)"

definition uc_run_Create ::
  "uuid_parser \<Rightarrow> ('a cp_db_scheme \<Rightarrow> 'a cp_db_scheme) \<Rightarrow> int \<Rightarrow> create_opts \<Rightarrow> 'a cp_db_scheme \<Rightarrow>
     workflow_run res \<times> 'a cp_db_scheme" where
  "uc_run_Create parse others now opts db =
     (case parse (wo_workflow opts) of
        Inl x \<Rightarrow> (Inl x, db)
      | Inr wid \<Rightarrow>
          (case check_create_opts opts of
             Inl x \<Rightarrow> (Inl x, db)
           | Inr (revn, version) \<Rightarrow>
               (case run_Create others now
                       \<lparr>ro_workflow = wid, ro_schema_version = ctr_version revn, ro_url = wo_url opts, ro_runner = wo_runner opts,
                        ro_backends = [wo_backend opts], ro_latest_revision = ctr_latest revn, ro_used_revision = ctr_used revn,
                        ro_version = version, ro_use_latest = wo_use_latest opts, ro_require_existing = wo_require_existing opts,
                        ro_mark = wo_mark opts, ro_block_released = wo_block_released opts\<rparr> db of
                  (Inl x, db') \<Rightarrow> (Inl x, db')
                | (Inr res, db') \<Rightarrow> (Inr (cr_run res), report_version res db'))))"

definition ExistsInWorkflow :: "uuid_parser \<Rightarrow> 'a cp_db_scheme \<Rightarrow> string \<Rightarrow> string \<Rightarrow> bool res" where
  "ExistsInWorkflow parse db workflowID rid =
     bind_res (parse rid) (\<lambda>r.
     Inr (case run_FindByID db r of None \<Rightarrow> False | Some run \<Rightarrow> run_workflow run = workflowID))"

definition uc_MarkAsFinished ::
  "uuid_parser \<Rightarrow> int \<Rightarrow> string \<Rightarrow> run_status \<Rightarrow> string \<Rightarrow> 'a cp_db_scheme \<Rightarrow> unit res \<times> 'a cp_db_scheme" where
  "uc_MarkAsFinished parse now rid status reason db =
     (case parse rid of
        Inl x \<Rightarrow> (Inl (NewErrInvalidUUID x), db)
      | Inr r \<Rightarrow> MarkAsFinished now r status reason db)"

definition uc_list_runs ::
  "uuid_parser \<Rightarrow> cursor_codec \<Rightarrow> (workflow_run list \<Rightarrow> workflow_run list) \<Rightarrow> 'a cp_db_scheme \<Rightarrow> string \<Rightarrow> run_filters \<Rightarrow>
     cursor_options option \<Rightarrow> (workflow_run list \<times> string) res" where
  "uc_list_runs parse cc order db orgID f p =
     bind_res (map_err NewErrInvalidUUID (parse orgID)) (\<lambda>org. list_runs cc order db org f p)"

end
