(* ===== verification/Run_Invariants.thy ===== *)
theory Run_Invariants
  imports Workflow_Runs
begin

text \<open>
  What holds of runs, workflows and versions in every state the operations reach: the counters of
  workflows and versions are the number of their runs, the latest run of a workflow is the one created
  last, a run sits in the organization of its workflow and in a version of its workflow's project, and
  a run has one bundle at most.
\<close>

section \<open>Invariant\<close>

definition runs_of :: "workflow_run list \<Rightarrow> uuid \<Rightarrow> workflow_run list" where
  "runs_of rs wid = filter (\<lambda>r. run_workflow r = wid) rs"

definition last_id :: "workflow_run list \<Rightarrow> uuid option" where
  "last_id rs = (if rs = [] then None else Some (run_id (last rs)))"

definition workflows_ok :: "workflow_row list \<Rightarrow> workflow_run list \<Rightarrow> bool" where
  "workflows_ok ws rs \<longleftrightarrow> distinct (map wfr_id ws) \<and>
     (\<forall>w\<in>set ws. wfr_runs_count w = length (runs_of rs (wfr_id w)) \<and> wfr_latest_run w = last_id (runs_of rs (wfr_id w)))"

definition versions_counted :: "version_row list \<Rightarrow> workflow_run list \<Rightarrow> bool" where
  "versions_counted vs rs \<longleftrightarrow> (\<forall>v\<in>set vs. vr_run_count v = length (filter (\<lambda>r. run_version r = vr_id v) rs))"

definition run_placed :: "workflow_row list \<Rightarrow> version_row list \<Rightarrow> workflow_run \<Rightarrow> bool" where
  "run_placed ws vs r \<longleftrightarrow> (\<exists>w\<in>set ws. \<exists>v\<in>set vs. wfr_id w = run_workflow r \<and> wfr_org w = run_org r \<and>
     vr_id v = run_version r \<and> vr_project v = wfr_project w)"

definition bundles_ok :: "(uuid \<times> string) list \<Rightarrow> workflow_run list \<Rightarrow> bool" where
  "bundles_ok bs rs \<longleftrightarrow> distinct (map fst bs) \<and> fst ` set bs \<subseteq> run_id ` set rs"

definition runs_ok :: "'a cp_db_scheme \<Rightarrow> bool" where
  "runs_ok db \<longleftrightarrow> versions_ok db \<and> ids_ok run_id (db_runs db) db \<and> workflows_ok (db_workflows db) (db_runs db) \<and>
     versions_counted (db_versions db) (db_runs db) \<and>
     list_all (run_placed (db_workflows db) (db_versions db)) (db_runs db) \<and> bundles_ok (db_bundles db) (db_runs db)"

text \<open>A run keeps what it was created with; a workflow keeps its organization and project.\<close>

definition same_run :: "workflow_run \<Rightarrow> workflow_run \<Rightarrow> bool" where
  "same_run r s \<longleftrightarrow> run_id s = run_id r \<and> run_workflow s = run_workflow r \<and> run_org s = run_org r \<and>
     run_version s = run_version r \<and> run_contract_version s = run_contract_version r \<and> run_created_at s = run_created_at r"

definition same_workflow :: "workflow_row \<Rightarrow> workflow_row \<Rightarrow> bool" where
  "same_workflow w w' \<longleftrightarrow> wfr_id w' = wfr_id w \<and> wfr_org w' = wfr_org w \<and> wfr_project w' = wfr_project w \<and>
     wfr_deleted w' = wfr_deleted w"

section \<open>Rows that change\<close>

lemma filter_rel:
  assumes "list_all2 R xs ys" and "\<And>x y. R x y \<Longrightarrow> P x = Q y"
  shows "list_all2 R (filter P xs) (filter Q ys)"
  using assms(1) by (induction rule: list_all2_induct) (auto simp: assms(2))

lemma list_all2_memD: "list_all2 R xs ys \<Longrightarrow> y \<in> set ys \<Longrightarrow> \<exists>x\<in>set xs. R x y"
  by (auto simp: list_all2_conv_all_nth in_set_conv_nth) (metis nth_mem)

lemma list_all2_memD1: "list_all2 R xs ys \<Longrightarrow> x \<in> set xs \<Longrightarrow> \<exists>y\<in>set ys. R x y"
  by (auto simp: list_all2_conv_all_nth in_set_conv_nth) (metis nth_mem)

lemma same_runs:
  assumes "list_all2 same_run rs ss"
  shows "length (runs_of ss wid) = length (runs_of rs wid)" and "last_id (runs_of ss wid) = last_id (runs_of rs wid)"
    and "length (filter (\<lambda>r. run_version r = vid) ss) = length (filter (\<lambda>r. run_version r = vid) rs)"
    and "map run_id ss = map run_id rs"
proof -
  have w: "list_all2 same_run (runs_of rs wid) (runs_of ss wid)"
    unfolding runs_of_def by (rule filter_rel [OF assms]) (simp add: same_run_def)
  then show "length (runs_of ss wid) = length (runs_of rs wid)" by (simp add: list_all2_lengthD)
  have v: "list_all2 same_run (filter (\<lambda>r. run_version r = vid) rs) (filter (\<lambda>r. run_version r = vid) ss)"
    by (rule filter_rel [OF assms]) (simp add: same_run_def)
  then show "length (filter (\<lambda>r. run_version r = vid) ss) = length (filter (\<lambda>r. run_version r = vid) rs)"
    by (simp add: list_all2_lengthD)
  show "last_id (runs_of ss wid) = last_id (runs_of rs wid)"
  proof (cases "runs_of rs wid = []")
    case True
    then show ?thesis using w by (simp add: last_id_def)
  next
    case False
    then have ne: "runs_of ss wid \<noteq> []" using w by auto
    have "same_run (last (runs_of rs wid)) (last (runs_of ss wid))"
      using False ne w by (simp add: last_conv_nth list_all2_lengthD list_all2_nthD2)
    then show ?thesis using False ne by (simp add: last_id_def same_run_def)
  qed
  show "map run_id ss = map run_id rs"
    using assms by (induction rule: list_all2_induct) (auto simp: same_run_def)
qed

lemma map_id_image: "map f xs = map f ys \<Longrightarrow> f ` set xs = f ` set ys"
  by (metis list.set_map)

lemma runs_ok_same_runs:
  assumes ok: "runs_ok db" and same: "list_all2 same_run (db_runs db) ss"
  shows "runs_ok (db\<lparr>db_runs := ss\<rparr>)"
proof -
  note s = same_runs [OF same]
  have "run_placed (db_workflows db) (db_versions db) r" if "r \<in> set ss" for r
    using list_all2_memD [OF same that] ok
    by (auto simp: runs_ok_def list_all_iff same_run_def run_placed_def)
  then show ?thesis using ok map_id_image [OF s(4)]
    by (simp add: runs_ok_def versions_ok_def ids_ok_def workflows_ok_def versions_counted_def bundles_ok_def list_all_iff s)
qed

lemma same_runs_update: "(\<And>r. same_run r (f r)) \<Longrightarrow> list_all2 same_run rs (update_row run_id i f rs)"
  unfolding update_row_def list_all2_map2 by (rule list_all2_refl) (simp add: same_run_def)

lemma same_versions_known:
  assumes "list_all2 same_version vs ws" and "run_placed wfs vs r"
  shows "run_placed wfs (ws @ xs) r"
proof -
  obtain w v where w: "w \<in> set wfs" "v \<in> set vs" "wfr_id w = run_workflow r" "wfr_org w = run_org r"
    "vr_id v = run_version r" "vr_project v = wfr_project w" using assms(2) unfolding run_placed_def by blast
  obtain v' where "v' \<in> set ws" "same_version v v'" using list_all2_memD1 [OF assms(1) w(2)] by blast
  then show ?thesis using w unfolding run_placed_def same_version_def same_name_def by auto
qed

lemma runs_ok_same_versions:
  assumes ok: "runs_ok db" and same: "list_all2 same_version (db_versions db) vs" and vok: "versions_ok (db\<lparr>db_versions := vs\<rparr>)"
  shows "runs_ok (db\<lparr>db_versions := vs\<rparr>)"
proof -
  have "versions_counted vs (db_runs db)"
    unfolding versions_counted_def
  proof
    fix v assume "v \<in> set vs"
    then obtain u where "u \<in> set (db_versions db)" "same_version u v" using list_all2_memD [OF same] by blast
    then show "vr_run_count v = length (filter (\<lambda>r. run_version r = vr_id v) (db_runs db))"
      using ok by (auto simp: runs_ok_def versions_counted_def same_version_def same_name_def)
  qed
  then show ?thesis using ok vok same_versions_known [OF same, of _ _ "[]"]
    by (auto simp: runs_ok_def ids_ok_def list_all_iff)
qed

lemma runs_ok_events: "runs_ok (db\<lparr>db_events := es\<rparr>) = runs_ok db"
  by (simp add: runs_ok_def versions_ok_def ids_ok_def)

lemma runs_ok_bundle:
  assumes "runs_ok db" and "rid \<notin> fst ` set (db_bundles db)" and "rid \<in> run_id ` set (db_runs db)"
  shows "runs_ok (db\<lparr>db_bundles := db_bundles db @ [(rid, b)]\<rparr>)"
  using assms by (auto simp: runs_ok_def versions_ok_def ids_ok_def bundles_ok_def)

section \<open>A new version\<close>

lemma run_version_known: "runs_ok db \<Longrightarrow> r \<in> set (db_runs db) \<Longrightarrow> run_version r \<in> vr_id ` set (db_versions db)"
  by (auto simp: runs_ok_def list_all_iff run_placed_def) (metis image_eqI)

lemma runs_ok_new_version:
  assumes ok: "runs_ok db" and tx: "createProjectVersionWithTx p name pre mark db = (Inr v, db')"
  shows "runs_ok db' \<and> v \<in> set (db_versions db') \<and> vr_project v = p"
proof -
  have vok: "versions_ok db" using ok by (simp add: runs_ok_def)
  note c = create_version_ok [OF vok tx, unfolded sum.case]
  obtain vs where db': "db' = db\<lparr>db_versions := vs @ [v], db_ids_drawn := Suc (db_ids_drawn db)\<rparr>"
    and same: "list_all2 same_version (db_versions db) vs" using c by blast
  have fresh: "vr_id v \<notin> vr_id ` set (db_versions db)"
    using c draw_fresh [of db vr_id] vok by (auto simp: versions_ok_def)
  have "filter (\<lambda>r. run_version r = vr_id v) (db_runs db) = []"
    unfolding filter_empty_conv using fresh run_version_known [OF ok] by metis
  then have "vr_run_count v = length (filter (\<lambda>r. run_version r = vr_id v) (db_runs db))" using c by simp
  moreover have "vr_run_count u = length (filter (\<lambda>r. run_version r = vr_id u) (db_runs db))" if u: "u \<in> set vs" for u
  proof -
    obtain t where "t \<in> set (db_versions db)" "same_version t u" using list_all2_memD [OF same u] by blast
    then show ?thesis using ok by (auto simp: runs_ok_def versions_counted_def same_version_def same_name_def)
  qed
  ultimately have "versions_counted (vs @ [v]) (db_runs db)" by (auto simp: versions_counted_def)
  moreover have "ids_ok run_id (db_runs db) db'"
    by (rule ids_ok_mono [of run_id "db_runs db" db]) (use ok in \<open>simp_all add: runs_ok_def db'\<close>)
  moreover have "list_all (run_placed (db_workflows db) (vs @ [v])) (db_runs db)"
    using ok same_versions_known [OF same, of _ _ "[v]"] by (auto simp: runs_ok_def list_all_iff)
  ultimately show ?thesis using ok c by (auto simp: runs_ok_def db')
qed

section \<open>A new run\<close>

text \<open>What was read before the transaction still names a workflow and a version of the database.\<close>

definition known_workflow :: "'a cp_db_scheme \<Rightarrow> workflow_row \<Rightarrow> bool" where
  "known_workflow db w \<longleftrightarrow> list_ex (\<lambda>w'. same_workflow w w') (db_workflows db)"

definition known_version :: "'a cp_db_scheme \<Rightarrow> uuid \<Rightarrow> version_row \<Rightarrow> bool" where
  "known_version db p v \<longleftrightarrow> list_ex (\<lambda>v'. vr_id v' = vr_id v \<and> vr_project v' = p \<and> vr_version v' = vr_version v) (db_versions db)"

lemma find_known: "find P (db_versions db) = Some v \<Longrightarrow> (\<And>x. P x \<Longrightarrow> vr_project x = p) \<Longrightarrow> known_version db p v"
  by (auto simp: known_version_def list_ex_iff dest!: find_SomeD)

lemma resolve_known:
  assumes "resolve_version opts db = Inr (w, version)"
  shows "known_workflow db w \<and> wfr_id w = ro_workflow opts \<and> pred_option (known_version db (wfr_project w)) version"
proof -
  have w: "find (\<lambda>w. wfr_id w = ro_workflow opts) (db_workflows db) = Some w"
    using assms by (auto simp: resolve_version_def split: option.splits if_splits)
  have "known_version db (wfr_project w) v" if v: "version = Some v" for v
    using assms w v by (auto simp: resolve_version_def find_version_def split: option.splits if_splits intro: find_known)
  then show ?thesis using find_SomeD [OF w]
    by (cases version) (auto simp: known_workflow_def list_ex_iff same_workflow_def)
qed

lemma version_for_run_ok:
  assumes ok: "runs_ok db" and known: "pred_option (known_version db (wfr_project w)) version"
    and tx: "version_for_run opts w version db = (Inr (vid, created, promoted), db')"
  shows "runs_ok db' \<and> (\<exists>v\<in>set (db_versions db'). vr_id v = vid \<and> vr_project v = wfr_project w) \<and>
    (\<exists>vs n. db' = db\<lparr>db_versions := vs, db_ids_drawn := n\<rparr>)"
proof (cases version)
  case None
  then obtain v where v: "createProjectVersionWithTx (wfr_project w) (ro_version opts) True (ro_mark opts) db = (Inr v, db')" "vid = vr_id v"
    using tx by (auto simp: version_for_run_def split: prod.splits sum.splits)
  have "versions_ok db" using ok by (simp add: runs_ok_def)
  then show ?thesis using runs_ok_new_version [OF ok v(1)] create_version_ok [OF _ v(1)] v(2) by auto
next
  case (Some v)
  then have vid: "vid = vr_id v"
    using tx by (auto simp: version_for_run_def Let_def split: prod.splits sum.splits option.splits if_splits)
  obtain u where u: "u \<in> set (db_versions db)" "vr_id u = vr_id v" "vr_project u = wfr_project w"
    using known Some by (auto simp: known_version_def list_ex_iff)
  consider "db' = db" | fresh promoted' where "live_version_in db (wfr_project w) (vr_id v) = Some fresh"
      "promoteVersionToLatestWithTx fresh db = (Inr promoted', db')"
    using tx Some by (auto simp: version_for_run_def Let_def split: prod.splits sum.splits option.splits if_splits)
  then show ?thesis
  proof cases
    case 1
    have "db' = db\<lparr>db_versions := db_versions db, db_ids_drawn := db_ids_drawn db\<rparr>" using 1 by simp
    moreover have "runs_ok db'" "u \<in> set (db_versions db')" using ok u 1 by simp_all
    ultimately show ?thesis using u vid by blast
  next
    case 2
    have fresh: "fresh \<in> set (db_versions db)" "\<not> vr_deleted fresh"
      using 2(1) by (auto simp: live_version_in_def dest!: find_SomeD)
    have vok: "versions_ok db" using ok by (simp add: runs_ok_def)
    obtain vs where vs: "versions_ok db'" "db' = db\<lparr>db_versions := vs\<rparr>" "list_all2 same_version (db_versions db) vs"
      using promote_ok [OF vok fresh 2(2)] by auto
    have "runs_ok db'" using runs_ok_same_versions [OF ok vs(3)] vs by simp
    moreover obtain u' where "u' \<in> set vs" "same_version u u'" using list_all2_memD1 [OF vs(3) u(1)] by blast
    moreover have "db' = db\<lparr>db_versions := vs, db_ids_drawn := db_ids_drawn db\<rparr>" using vs(2) by simp
    moreover have "u' \<in> set (db_versions db')" using calculation(2) vs(2) by simp
    ultimately show ?thesis using u vid unfolding same_version_def same_name_def by metis
  qed
qed

lemma insert_run_ok:
  assumes ok: "runs_ok db" and w: "known_workflow db w" "wfr_id w = ro_workflow opts"
    and v: "v \<in> set (db_versions db)" "vr_id v = vid" "vr_project v = wfr_project w"
    and ins: "insert_run now opts w vid db = (Inr run, db1)"
    and wf: "count_run_in_workflow (wfr_id w) (run_id run) db1 = (Inr u, db2)"
    and ve: "count_run_in_version now vid db2 = (Inr u', db3)"
  shows "runs_ok db3"
proof -
  have run: "run_id run = db_ids db (db_ids_drawn db)" "run_workflow run = wfr_id w" "run_org run = wfr_org w" "run_version run = vid"
    and db1: "db1 = db\<lparr>db_runs := db_runs db @ [run], db_ids_drawn := Suc (db_ids_drawn db)\<rparr>"
    using ins w(2) by (auto simp: insert_run_def draw_id_def Let_def split: if_splits)
  define ws where "ws = update_row wfr_id (wfr_id w)
    (\<lambda>w. w\<lparr>wfr_latest_run := Some (run_id run), wfr_runs_count := Suc (wfr_runs_count w)\<rparr>) (db_workflows db)"
  define vs where "vs = update_row vr_id vid
    (\<lambda>v. v\<lparr>vr_run_count := Suc (vr_run_count v), vr_last_run_at := Some now\<rparr>) (db_versions db)"
  have db3: "db3 = db\<lparr>db_runs := db_runs db @ [run], db_ids_drawn := Suc (db_ids_drawn db), db_workflows := ws, db_versions := vs\<rparr>"
    using wf ve by (auto simp: count_run_in_workflow_def count_run_in_version_def db1 ws_def vs_def split: if_splits)
  have names: "list_all2 (\<lambda>v w. same_name v w \<and> vr_latest w = vr_latest v) (db_versions db) vs"
    unfolding vs_def update_row_def by (simp add: list.rel_map list.rel_refl same_name_def)
  have "versions_ok (db\<lparr>db_versions := vs\<rparr>)"
    using ok one_latest_same [OF names] list_all2_mono [OF names, of same_name]
    by (intro versions_ok_rows) (auto simp: runs_ok_def versions_ok_def)
  then have "versions_ok db3"
    using ids_ok_mono [of vr_id vs "db\<lparr>db_versions := vs\<rparr>" db3] by (simp add: versions_ok_def db3)
  moreover have "ids_ok run_id (db_runs db @ [run]) db3"
  proof -
    have "ids_ok run_id (db_runs db) db" "inj (db_ids db)" using ok by (auto simp: runs_ok_def versions_ok_def)
    with draw_fresh [OF this(2,1)] show ?thesis
      using run(1) by (auto simp: ids_ok_def db3 lessThan_Suc)
  qed
  moreover have "workflows_ok ws (db_runs db @ [run])"
  proof -
    have "map wfr_id ws = map wfr_id (db_workflows db)" unfolding ws_def by (rule map_update_row) simp
    then show ?thesis
      using ok run(2) by (auto simp: workflows_ok_def runs_ok_def ws_def update_row_set runs_of_def last_id_def)
  qed
  moreover have "versions_counted vs (db_runs db @ [run])"
    using ok run(4) by (auto simp: versions_counted_def runs_ok_def vs_def update_row_def)
  moreover have "list_all (run_placed ws vs) (db_runs db @ [run])"
  proof -
    have ws: "list_all2 same_workflow (db_workflows db) ws"
      unfolding ws_def update_row_def by (simp add: list.rel_map list.rel_refl same_workflow_def)
    have placed: "run_placed ws vs r" if r: "run_placed (db_workflows db) (db_versions db) r" for r
    proof -
      obtain x y where xy: "x \<in> set (db_workflows db)" "y \<in> set (db_versions db)" "wfr_id x = run_workflow r" "wfr_org x = run_org r"
        "vr_id y = run_version r" "vr_project y = wfr_project x" using r unfolding run_placed_def by blast
      obtain x' y' where "x' \<in> set ws" "same_workflow x x'" "y' \<in> set vs" "same_name y y'"
        using list_all2_memD1 [OF ws xy(1)] list_all2_memD1 [OF names xy(2)] by blast
      then show ?thesis using xy unfolding run_placed_def same_workflow_def same_name_def by metis
    qed
    obtain w' where "w' \<in> set (db_workflows db)" "same_workflow w w'" using w(1) by (auto simp: known_workflow_def list_ex_iff)
    then have "run_placed (db_workflows db) (db_versions db) run"
      using v run unfolding run_placed_def same_workflow_def by metis
    then show ?thesis using ok placed by (auto simp: runs_ok_def list_all_iff)
  qed
  moreover have "bundles_ok (db_bundles db) (db_runs db @ [run])"
    using ok by (auto simp: bundles_ok_def runs_ok_def)
  ultimately show ?thesis by (simp add: runs_ok_def db3)
qed

lemma create_run_tx_ok:
  assumes ok: "runs_ok db" and w: "known_workflow db w" "wfr_id w = ro_workflow opts"
    and v: "pred_option (known_version db (wfr_project w)) version"
    and tx: "WithTx (create_run_tx now opts w version) db = (r, db')"
  shows "runs_ok db'"
  using tx
proof (cases rule: WithTx_cases)
  case rolled_back
  then show ?thesis using ok by simp
next
  case (committed y)
  then obtain vid created promoted db1 run db2 u db3 u' where
    1: "version_for_run opts w version db = (Inr (vid, created, promoted), db1)" and
    2: "insert_run now opts w vid db1 = (Inr run, db2)" and
    3: "count_run_in_workflow (wfr_id w) (run_id run) db2 = (Inr u, db3)" and
    4: "count_run_in_version now vid db3 = (Inr u', db')"
    by (auto simp: create_run_tx_def split: prod.splits sum.splits)
  note vr = version_for_run_ok [OF ok v 1]
  have "known_workflow db1 w" using vr w(1) by (auto simp: known_workflow_def)
  then show ?thesis using vr insert_run_ok [OF _ _ w(2) _ _ _ 2 3 4] by blast
qed

section \<open>Steps\<close>

text \<open>
  The steps by which requests change runs, versions and their tables, one transaction each. A run is
  created from a workflow and a version read earlier. An event may be logged at any time. Workflows are
  neither created nor deleted by these steps: they are the requests of an instance whose workflows stay.
\<close>

inductive cp_step :: "'a cp_db_scheme \<Rightarrow> 'a cp_db_scheme \<Rightarrow> bool" where
  create_run: "known_workflow db w \<Longrightarrow> wfr_id w = ro_workflow opts \<Longrightarrow> pred_option (known_version db (wfr_project w)) version \<Longrightarrow>
    WithTx (create_run_tx now opts w version) db = (r, db') \<Longrightarrow> cp_step db db'"
| finish: "MarkAsFinished now rid status reason db = (r, db') \<Longrightarrow> cp_step db db'"
| expire: "Expire rid db = (r, db') \<Longrightarrow> cp_step db db'"
| save_digest: "SaveAttestationDigest rid digest block db = (r, db') \<Longrightarrow> cp_step db db'"
| save_bundle: "SaveAttestationBundle rid digest bytes block db = (r, db') \<Longrightarrow> cp_step db db'"
| policy: "UpdatePolicyStatus rid summary db = (r, db') \<Longrightarrow> cp_step db db'"
| new_version: "version_Create p name pre db = (rv, db') \<Longrightarrow> cp_step db db'"
| update_version: "version_Update now vid pr db = (rv, db') \<Longrightarrow> cp_step db db'"
| mark_latest: "repo_MarkAsLatest p vid db = (rm, db') \<Longrightarrow> cp_step db db'"
| log_event: "cp_step db (db\<lparr>db_events := db_events db @ es\<rparr>)"

abbreviation cp_steps :: "'a cp_db_scheme \<Rightarrow> 'a cp_db_scheme \<Rightarrow> bool" where
  "cp_steps \<equiv> cp_step\<^sup>*\<^sup>*"

text \<open>The operations on one run: they find it and change columns that the invariant does not read.\<close>

lemma update_run_cases:
  assumes "update_run rid f missing db = (r, db')" and "\<And>r. same_run r (f r)"
  obtains (missing) "r = Inl missing" "db' = db"
  | (updated) "r = Inr ()" "db' = db\<lparr>db_runs := update_row run_id rid f (db_runs db)\<rparr>" "rid \<in> run_id ` set (db_runs db)"
      "list_all2 same_run (db_runs db) (db_runs db')"
proof (cases "run_FindByID db rid")
  case None
  then show ?thesis using assms missing by (auto simp: update_run_def)
next
  case (Some x)
  then show ?thesis using assms same_runs_update [of f] updated
    by (auto simp: update_run_def run_FindByID_def dest!: find_SomeD)
qed

lemma update_run_ok:
  assumes ok: "runs_ok db" and up: "update_run rid f missing db = (r, db')" and f: "\<And>r. same_run r (f r)"
  shows "runs_ok db'"
  using up f
proof (cases rule: update_run_cases)
  case updated
  then show ?thesis using runs_ok_same_runs [OF ok updated(4)] by simp
qed (use ok in simp)

lemma update_run_present:
  assumes up: "update_run rid f missing db = (Inr (), db')" and f: "\<And>r. run_id (f r) = run_id r"
  shows "rid \<in> run_id ` set (db_runs db')"
proof -
  have "rid \<in> run_id ` set (db_runs db)" and db': "db' = db\<lparr>db_runs := update_row run_id rid f (db_runs db)\<rparr>"
    using up by (auto simp: update_run_def run_FindByID_def find_None_iff split: if_splits)
  moreover have "run_id ` set (db_runs db') = run_id ` set (db_runs db)"
    unfolding db' using f by (intro map_id_image) (simp add: map_update_row)
  ultimately show ?thesis by simp
qed

lemma save_bundle_cases:
  assumes "SaveAttestationBundle rid digest bytes block db = (r, db')"
  obtains (failed) x where "r = Inl x" "db' = db"
  | (saved) db1 where "r = Inr ()" "assertVersionAcceptsAttestationWithTx rid block db = Inr ()" "bytes \<noteq> []"
      "update_run rid (\<lambda>r. r\<lparr>run_digest := digest\<rparr>) (run_not_found rid) db = (Inr (), db1)"
      "rid \<notin> fst ` set (db_bundles db)" "db' = db1\<lparr>db_bundles := db_bundles db @ [(rid, bytes)]\<rparr>"
  using assms unfolding SaveAttestationBundle_def
proof (cases rule: WithTx_cases)
  case (committed y)
  then show ?thesis using saved by (auto simp: update_run_def split: sum.splits prod.splits if_splits)
qed (use failed in blast)

lemma save_digest_cases:
  assumes "SaveAttestationDigest rid digest block db = (r, db')"
  obtains (failed) x where "r = Inl x" "db' = db"
  | (saved) "r = Inr ()" "assertVersionAcceptsAttestationWithTx rid block db = Inr ()"
      "update_run rid (\<lambda>r. r\<lparr>run_digest := digest\<rparr>) (run_not_found rid) db = (Inr (), db')"
  using assms unfolding SaveAttestationDigest_def
proof (cases rule: WithTx_cases)
  case (committed y)
  then show ?thesis using saved by (auto split: sum.splits prod.splits if_splits)
qed (use failed in blast)

lemma MarkAsLatest_ok:
  assumes ok: "runs_ok db" and run: "repo_MarkAsLatest p vid db = (r, db')"
  shows "runs_ok db'"
proof -
  have vok: "versions_ok db" using ok by (simp add: runs_ok_def)
  consider "db' = db" | v promoted where "live_version_in db p vid = Some v" "promoteVersionToLatestWithTx v db = (Inr promoted, db')"
    using run by (auto simp: repo_MarkAsLatest_def WithTx_def split: option.splits prod.splits sum.splits)
  then show ?thesis
  proof cases
    case 2
    have v: "v \<in> set (db_versions db)" "\<not> vr_deleted v" using 2(1) by (auto simp: live_version_in_def dest!: find_SomeD)
    obtain vs where vs: "versions_ok db'" "db' = db\<lparr>db_versions := vs\<rparr>" "list_all2 same_version (db_versions db) vs"
      using promote_ok [OF vok v 2(2)] by auto
    then show ?thesis using runs_ok_same_versions [OF ok vs(3)] by simp
  qed (use ok in simp)
qed

lemma version_Update_runs_ok:
  assumes ok: "runs_ok db" and run: "version_Update now vid pre db = (r, db')"
  shows "runs_ok db'"
proof (cases r)
  case (Inl x)
  then show ?thesis using ok version_Update_ok [OF _ run] by (auto simp: runs_ok_def)
next
  case (Inr v)
  have same: "list_all2 same_version (db_versions db) (update_row vr_id vid (released now pre) (db_versions db))"
    by (rule same_versions_update) simp
  show ?thesis using Inr ok version_Update_ok [OF _ run] runs_ok_same_versions [OF ok same] by (auto simp: runs_ok_def)
qed

lemma cp_step_ok:
  assumes "cp_step db db'" and "runs_ok db"
  shows "runs_ok db'"
  using assms
proof (induction rule: cp_step.induct)
  case (save_bundle rid digest bytes block db r db')
  from save_bundle(1) show ?case
  proof (cases rule: save_bundle_cases)
    case (saved db1)
    have "runs_ok db1" by (rule update_run_ok [OF save_bundle(2) saved(4)]) (simp add: same_run_def)
    moreover have "rid \<in> run_id ` set (db_runs db1)" "db_bundles db1 = db_bundles db"
      using update_run_present [OF saved(4)] saved(4) by (auto simp: update_run_def split: if_splits)
    ultimately show ?thesis using saved runs_ok_bundle [of db1 rid bytes] by simp
  qed (use save_bundle in simp)
next
  case (save_digest rid digest block db r db')
  from save_digest(1) show ?case
  proof (cases rule: save_digest_cases)
    case saved
    then show ?thesis using update_run_ok [OF save_digest(2) saved(3)] by (simp add: same_run_def)
  qed (use save_digest in simp)
next
  case (policy rid summary db r db')
  then show ?case
    by (auto simp: UpdatePolicyStatus_def same_run_def split: option.splits intro: update_run_ok)
next
  case (new_version p name pre db rv db')
  from new_version(1) [unfolded version_Create_def] show ?case
    by (cases rule: WithTx_cases) (use new_version(2) in simp, use new_version(2) runs_ok_new_version in blast)
qed (auto simp: MarkAsFinished_def Expire_def same_run_def runs_ok_events
      intro: create_run_tx_ok update_run_ok MarkAsLatest_ok version_Update_runs_ok)

section \<open>History\<close>

text \<open>
  What a later state keeps: rows are only added, a run keeps its workflow, version and contract
  revision, a version its name, a stored bundle stays as it is, and logged events stay logged.
\<close>

definition rows_kept :: "('b \<Rightarrow> 'b \<Rightarrow> bool) \<Rightarrow> 'b list \<Rightarrow> 'b list \<Rightarrow> bool" where
  "rows_kept R xs ys \<longleftrightarrow> (\<exists>as bs. ys = as @ bs \<and> list_all2 R xs as)"

definition later :: "'a cp_db_scheme \<Rightarrow> 'a cp_db_scheme \<Rightarrow> bool" where
  "later db db' \<longleftrightarrow> rows_kept same_run (db_runs db) (db_runs db') \<and> rows_kept same_name (db_versions db) (db_versions db') \<and>
     list_all2 same_workflow (db_workflows db) (db_workflows db') \<and> prefix (db_bundles db) (db_bundles db') \<and>
     prefix (db_events db) (db_events db') \<and> db_backends db' = db_backends db \<and> db_mappings db' = db_mappings db \<and> db_orgs db' = db_orgs db \<and> db_projects db' = db_projects db \<and>
     db_contracts db' = db_contracts db"

lemma rows_kept_refl: "(\<And>x. R x x) \<Longrightarrow> rows_kept R xs xs"
  unfolding rows_kept_def by (rule exI [of _ xs]) (simp add: list_all2_refl)

lemma rows_kept_same: "list_all2 R xs ys \<Longrightarrow> rows_kept R xs ys"
  unfolding rows_kept_def by (rule exI [of _ ys]) simp

lemma rows_kept_trans:
  assumes R: "\<And>x y z. R x y \<Longrightarrow> R y z \<Longrightarrow> R x z" and "rows_kept R xs ys" and "rows_kept R ys zs"
  shows "rows_kept R xs zs"
proof -
  obtain as bs where ys: "ys = as @ bs" "list_all2 R xs as" using assms(2) by (auto simp: rows_kept_def)
  obtain cs ds where zs: "zs = cs @ ds" "list_all2 R (as @ bs) cs" using assms(3) ys by (auto simp: rows_kept_def)
  then obtain c1 c2 where c: "cs = c1 @ c2" "list_all2 R as c1" by (auto simp: list_all2_append1)
  have "list_all2 R xs c1" by (rule list_all2_trans [OF R ys(2) c(2)])
  then show ?thesis using zs c by (auto simp: rows_kept_def)
qed

lemma same_refls [simp]: "same_run r r" "same_name v v" "same_workflow w w"
  by (simp_all add: same_run_def same_name_def same_workflow_def)

lemma same_transs:
  "same_run a b \<Longrightarrow> same_run b c \<Longrightarrow> same_run a c" "same_name u v \<Longrightarrow> same_name v w \<Longrightarrow> same_name u w"
  "same_workflow x y \<Longrightarrow> same_workflow y z \<Longrightarrow> same_workflow x z"
  by (simp_all add: same_run_def same_name_def same_workflow_def)

lemma later_refl [simp]: "later db db"
  by (simp add: later_def rows_kept_refl list_all2_refl)

lemma later_trans: "later a b \<Longrightarrow> later b c \<Longrightarrow> later a c"
  unfolding later_def
  by (auto intro: rows_kept_trans [OF same_transs(1)] rows_kept_trans [OF same_transs(2)] list_all2_trans [OF same_transs(3)]
      prefix_order.trans)

lemma later_runs: "list_all2 same_run (db_runs db) ss \<Longrightarrow> later db (db\<lparr>db_runs := ss\<rparr>)"
  by (simp add: later_def rows_kept_same rows_kept_refl list_all2_refl)

lemma later_versions: "list_all2 same_name (db_versions db) vs \<Longrightarrow> later db (db\<lparr>db_ids_drawn := n, db_versions := vs @ new\<rparr>)"
  by (auto simp: later_def rows_kept_def list_all2_refl rows_kept_refl intro: exI [of _ "db_runs db"])

lemma later_versions': "list_all2 same_name (db_versions db) vs \<Longrightarrow> later db (db\<lparr>db_versions := vs\<rparr>)"
  using later_versions [where new = "[]" and n = "db_ids_drawn db"] by fastforce

lemma update_run_later:
  assumes "update_run rid f missing db = (r, db')" and "\<And>r. same_run r (f r)"
  shows "later db db'"
  using assms
proof (cases rule: update_run_cases)
  case updated
  then show ?thesis using later_runs [of db] by simp
qed simp

lemma promote_later:
  assumes "promoteVersionToLatestWithTx v db = (r, db')"
  shows "later db db'"
proof -
  have "list_all2 same_name vs (update_row vr_id (vr_id v) (\<lambda>w. w\<lparr>vr_latest := True\<rparr>) (clear_latest p vs))" for p vs
    unfolding update_row_def clear_latest_def map_map list_all2_map2
    by (rule list_all2_refl) (simp add: same_name_def unlatest_def)
  then show ?thesis using assms by (auto simp: promoteVersionToLatestWithTx_def intro: later_versions' split: if_splits)
qed

lemma create_version_later:
  assumes "createProjectVersionWithTx p name pre mark db = (r, db')"
  shows "later db db'"
proof -
  have "list_all2 same_name vs (clear_latest p vs)" for vs
    unfolding clear_latest_def list_all2_map2 by (rule list_all2_refl) (simp add: same_name_def unlatest_def)
  moreover have "list_all2 same_name vs vs" for vs by (rule list_all2_refl) simp
  ultimately show ?thesis using assms
    by (auto simp: createProjectVersionWithTx_def draw_id_def Let_def intro: later_versions split: if_splits sum.splits option.splits)
qed

lemma create_run_later:
  assumes "create_run_tx now opts w version db = (Inr y, db')"
  shows "later db db'"
proof -
  obtain vid created promoted db1 run db2 u db3 u' where
    1: "version_for_run opts w version db = (Inr (vid, created, promoted), db1)" and
    2: "insert_run now opts w vid db1 = (Inr run, db2)" and
    3: "count_run_in_workflow (wfr_id w) (run_id run) db2 = (Inr u, db3)" and
    4: "count_run_in_version now vid db3 = (Inr u', db')"
    using assms by (auto simp: create_run_tx_def split: prod.splits sum.splits)
  have "later db db1"
    using 1 by (auto simp: version_for_run_def Let_def split: option.splits prod.splits sum.splits if_splits
        intro: create_version_later promote_later)
  moreover have "later db1 db2"
    using 2 by (auto simp: insert_run_def draw_id_def Let_def later_def rows_kept_def list_all2_refl rows_kept_refl split: if_splits
        intro: exI [of _ "db_runs db1"] exI [of _ "db_versions db1"])
  moreover have "later db2 db3"
    using 3 by (auto simp: count_run_in_workflow_def later_def rows_kept_refl update_row_def list_all2_map2 same_workflow_def
        intro!: list_all2_refl split: if_splits)
  moreover have "list_all2 same_name (db_versions db3) (db_versions db')"
    using 4 unfolding count_run_in_version_def
    by (auto simp: update_row_def list_all2_map2 same_name_def intro!: list_all2_refl split: if_splits)
  then have "later db3 db'"
    using 4 later_versions' [of db3] by (auto simp: count_run_in_version_def split: if_splits)
  ultimately show ?thesis by (blast intro: later_trans)
qed

lemma cp_step_later:
  assumes "cp_step db db'"
  shows "later db db'"
  using assms
proof (induction rule: cp_step.induct)
  case (create_run db w opts version now r db')
  from create_run(4) show ?case by (cases rule: WithTx_cases) (simp, blast intro: create_run_later)
next
  case (save_bundle rid digest bytes block db r db')
  from save_bundle(1) show ?case
  proof (cases rule: save_bundle_cases)
    case (saved db1)
    have "later db db1" by (rule update_run_later [OF saved(4)]) (simp add: same_run_def)
    moreover have "later db1 db'" using saved update_run_later [OF saved(4)]
      by (auto simp: later_def rows_kept_refl list_all2_refl update_run_def split: if_splits)
    ultimately show ?thesis by (rule later_trans)
  qed simp
next
  case (save_digest rid digest block db r db')
  from save_digest(1) show ?case
  proof (cases rule: save_digest_cases)
    case saved
    then show ?thesis using update_run_later [OF saved(3)] by (simp add: same_run_def)
  qed simp
next
  case (policy rid summary db r db')
  then show ?case
    by (auto simp: UpdatePolicyStatus_def same_run_def split: option.splits intro: update_run_later)
next
  case (new_version p name pre db rv db')
  from new_version(1) [unfolded version_Create_def] show ?case
    by (cases rule: WithTx_cases) (simp, blast intro: create_version_later)
next
  case (update_version now vid pr db rv db')
  have "list_all2 same_name (db_versions db) (update_row vr_id vid (released now pr) (db_versions db))"
    by (intro same_versions_names same_versions_update) simp
  then show ?case using update_version later_versions' by (auto simp: version_Update_def split: option.splits)
next
  case (mark_latest p vid db rm db')
  then show ?case
    by (auto simp: repo_MarkAsLatest_def WithTx_def split: option.splits prod.splits sum.splits intro: promote_later)
next
  case (log_event db es)
  then show ?case by (simp add: later_def rows_kept_refl list_all2_refl)
qed (auto simp: MarkAsFinished_def Expire_def same_run_def intro: update_run_later)

interpretation runs: request_history cp_step runs_ok later
  by unfold_locales (auto intro: cp_step_ok cp_step_later later_trans)

lemma cp_steps_ok: "cp_steps db db' \<Longrightarrow> runs_ok db \<Longrightarrow> runs_ok db' \<and> later db db'"
  by (rule runs.steps_grow)

lemma later_known:
  assumes "later db db'"
  shows "known_workflow db w \<Longrightarrow> known_workflow db' w" and "known_version db p v \<Longrightarrow> known_version db' p v"
proof -
  show "known_workflow db' w" if w: "known_workflow db w"
  proof -
    obtain x where x: "x \<in> set (db_workflows db)" "same_workflow w x" using w by (auto simp: known_workflow_def list_ex_iff)
    obtain y where "y \<in> set (db_workflows db')" "same_workflow x y"
      using assms list_all2_memD1 [OF _ x(1)] unfolding later_def by blast
    then show ?thesis using x same_transs(3) by (auto simp: known_workflow_def list_ex_iff)
  qed
  show "known_version db' p v" if v: "known_version db p v"
  proof -
    obtain x where x: "x \<in> set (db_versions db)" "vr_id x = vr_id v" "vr_project x = p" "vr_version x = vr_version v" using v by (auto simp: known_version_def list_ex_iff)
    obtain vs new where vs: "db_versions db' = vs @ new" "list_all2 same_name (db_versions db) vs"
      using assms by (auto simp: later_def rows_kept_def)
    obtain y where "y \<in> set vs" "same_name x y" using list_all2_memD1 [OF vs(2) x(1)] by blast
    then show ?thesis using x vs(1) by (auto simp: known_version_def list_ex_iff same_name_def)
  qed
qed

section \<open>The use cases are sequences of steps\<close>

lemma run_Create_steps:
  assumes others: "cp_steps db (others db)" and ok: "runs_ok db" and run: "run_Create others now opts db = (r, db')"
  shows "cp_steps db db'"
proof (cases "resolve_version opts db")
  case (Inl x)
  then show ?thesis using run by (auto simp: run_Create_def)
next
  case (Inr wv)
  then obtain w version where rv: "resolve_version opts db = Inr (w, version)" by (cases wv) auto
  obtain r1 where tx: "WithTx (create_run_tx now opts w version) (others db) = (r1, db')"
    using run rv by (auto simp: run_Create_def split: prod.splits sum.splits option.splits)
  note k = resolve_known [OF rv] and l = later_known [of db "others db"]
  have "later db (others db)" using cp_steps_ok [OF others ok] by simp
  then have "cp_step (others db) db'"
    using k l by (intro cp_step.create_run [OF _ _ _ tx]) (auto simp: option.pred_set)
  then show ?thesis using others by simp
qed

lemma report_version_step: "cp_step db (report_version res db)"
proof -
  have "\<exists>es. report_version res db = db\<lparr>db_events := db_events db @ es\<rparr>"
    by (cases "cr_created res"; cases "cr_promoted res")
      (auto simp: report_version_def Let_def dispatchProjectVersionPromoted_def intro: exI [of _ "[]"])
  then show ?thesis using cp_step.log_event by metis
qed

lemma uc_run_Create_steps:
  assumes "cp_steps db (others db)" and "runs_ok db" and run: "uc_run_Create parse others now opts db = (r, db')"
  shows "cp_steps db db'"
proof -
  consider "db' = db" | ro x where "run_Create others now ro db = (Inl x, db')"
    | ro res db1 where "run_Create others now ro db = (Inr res, db1)" "db' = report_version res db1"
    using run by (auto simp: uc_run_Create_def split: sum.splits prod.splits)
  then show ?thesis
  proof cases
    case 3
    then show ?thesis using run_Create_steps [OF assms(1,2) 3(1)] report_version_step [of db1 res] by simp
  qed (use run_Create_steps [of db others] assms(1,2) in blast)+
qed

lemma expire_all_steps: "expire_all rs db = (r, db') \<Longrightarrow> cp_steps db db'"
proof (induction rs arbitrary: db)
  case (Cons x rs)
  obtain r1 db1 where 1: "Expire (run_id x) db = (r1, db1)" by (cases "Expire (run_id x) db")
  then have step: "cp_step db db1" by (rule cp_step.expire)
  show ?case
  proof (cases r1)
    case (Inl y)
    then show ?thesis using Cons.prems 1 step by auto
  next
    case (Inr y)
    then show ?thesis using Cons.prems 1 Cons.IH [of db1] step by (auto intro: converse_rtranclp_into_rtranclp)
  qed
qed simp

section \<open>What a new run is\<close>

lemma promote_rows:
  assumes "promoteVersionToLatestWithTx v db = (Inr p, db')"
  shows "list_all2 (\<lambda>v w. same_name v w \<and> vr_prerelease w = vr_prerelease v) (db_versions db) (db_versions db')"
proof -
  have "db_versions db' = map (\<lambda>w. let u = unlatest (vr_project v) w in if vr_id u = vr_id v then u\<lparr>vr_latest := True\<rparr> else u) (db_versions db)"
    using assms by (auto simp: promoteVersionToLatestWithTx_def update_row_def clear_latest_def Let_def split: if_splits)
  then show ?thesis by (simp add: list_all2_map2) (rule list_all2_refl, simp add: same_name_def unlatest_def Let_def)
qed

definition new_run_version :: "run_opts \<Rightarrow> uuid \<Rightarrow> version_row option \<Rightarrow> uuid \<Rightarrow> version_row \<Rightarrow> bool" where
  "new_run_version opts p version vid v \<longleftrightarrow> vr_id v = vid \<and> vr_project v = p \<and>
     vr_version v = (case version of None \<Rightarrow> ro_version opts | Some u \<Rightarrow> vr_version u) \<and>
     (ro_block_released opts \<or> version = None \<longrightarrow> vr_prerelease v)"

lemma version_for_run_new:
  assumes ok: "versions_ok db" and tx: "version_for_run opts w None db = (Inr (vid, created, promoted), db')"
  shows "created \<and> vid \<notin> vr_id ` set (db_versions db) \<and>
    (\<exists>v\<in>set (db_versions db'). new_run_version opts (wfr_project w) None vid v)"
proof -
  obtain v where c: "createProjectVersionWithTx (wfr_project w) (ro_version opts) True (ro_mark opts) db = (Inr v, db')"
    and v: "vid = vr_id v" "created" using tx by (auto simp: version_for_run_def split: prod.splits sum.splits)
  note cv = create_version_ok [OF ok c, unfolded sum.case]
  have "vr_id v \<notin> vr_id ` set (db_versions db)" using cv draw_fresh [of db vr_id] ok by (auto simp: versions_ok_def)
  moreover have "v \<in> set (db_versions db')" "vr_version v = ro_version opts"
    using cv by (auto simp: find_version_def dest!: find_SomeD)
  ultimately show ?thesis using v cv by (auto simp: new_run_version_def)
qed

lemma version_for_run_existing:
  assumes ok: "versions_ok db" and known: "known_version db (wfr_project w) u"
    and tx: "version_for_run opts w (Some u) db = (Inr (vid, created, promoted), db')"
  shows "\<not> created \<and> vid \<in> vr_id ` set (db_versions db) \<and>
    promoted = (latest_of db' (wfr_project w) \<noteq> latest_of db (wfr_project w)) \<and>
    (promoted \<longrightarrow> latest_of db' (wfr_project w) = Some vid) \<and>
    (\<exists>v\<in>set (db_versions db'). new_run_version opts (wfr_project w) (Some u) vid v)"
proof -
  have vid: "vid = vr_id u" "\<not> created"
    using tx by (auto simp: version_for_run_def Let_def split: prod.splits sum.splits option.splits if_splits)
  obtain k where k: "k \<in> set (db_versions db)" "vr_id k = vr_id u" "vr_project k = wfr_project w" "vr_version k = vr_version u"
    using known by (auto simp: known_version_def list_ex_iff)
  have mem: "vr_id u \<in> vr_id ` set (db_versions db)" using k by (metis image_eqI)
  have ids: "distinct (map vr_id (db_versions db))" using ok by (simp add: versions_ok_def ids_ok_def)
  have fresh_is: "fresh = k" if "live_version_in db (wfr_project w) (vr_id u) = Some fresh" for fresh
    using find_SomeD [OF that [unfolded live_version_in_def]] k ids by (auto simp: distinct_map inj_on_def)
  consider (kept) "db' = db" "\<not> promoted" "ro_block_released opts \<Longrightarrow> vr_prerelease k"
    | (promotion) "\<not> vr_deleted k" "promoteVersionToLatestWithTx k db = (Inr promoted, db')" "ro_block_released opts \<Longrightarrow> vr_prerelease k"
    using tx fresh_is
    by (auto simp: version_for_run_def Let_def live_version_in_def split: prod.splits sum.splits option.splits if_splits dest!: find_SomeD)
  then show ?thesis
  proof cases
    case kept
    then show ?thesis using vid k mem by (auto simp: new_run_version_def intro!: bexI [of _ k])
  next
    case promotion
    note p = promote_ok [OF ok k(1) promotion(1,2), unfolded sum.case k(3)]
    obtain k' where "k' \<in> set (db_versions db')" "same_name k k'" "vr_prerelease k' = vr_prerelease k"
      using list_all2_memD1 [OF promote_rows [OF promotion(2)] k(1)] by blast
    then show ?thesis using vid k mem promotion(3) p by (auto simp: new_run_version_def same_name_def intro!: bexI [of _ k'])
  qed
qed

text \<open>The events of a new run: a version it created, or an existing one it made the latest.\<close>

definition version_events :: "'a cp_db_scheme \<Rightarrow> 'a cp_db_scheme \<Rightarrow> version_row \<Rightarrow> audit_event list" where
  "version_events before after v =
     (if vr_id v \<notin> vr_id ` set (db_versions before) then
        [ProjectVersionCreated (vr_project v) (vr_id v) (vr_version v) (vr_prerelease v)]
      else if latest_of after (vr_project v) \<noteq> latest_of before (vr_project v) then
        [ProjectVersionUpdated (vr_project v) (vr_id v) (vr_version v) True]
      else [])"

lemma counted_rows:
  assumes "insert_run now opts w vid db1 = (Inr run, db2)" and "count_run_in_workflow (wfr_id w) (run_id run) db2 = (Inr u, db3)"
    and "count_run_in_version now vid db3 = (Inr u', db')"
  shows "db_runs db' = db_runs db1 @ [run] \<and> db_events db' = db_events db1 \<and> run_version run = vid \<and> run_workflow run = ro_workflow opts \<and>
    run_state run = WorkflowRunInitialized \<and> run_id run = db_ids db1 (db_ids_drawn db1) \<and> latest_of db' = latest_of db1 \<and>
    list_all2 (\<lambda>v w. same_name v w \<and> vr_prerelease w = vr_prerelease v) (db_versions db1) (db_versions db')"
proof -
  define vs where "vs = update_row vr_id vid (\<lambda>v. v\<lparr>vr_run_count := Suc (vr_run_count v), vr_last_run_at := Some now\<rparr>) (db_versions db1)"
  have rows: "list_all2 (\<lambda>v w. same_name v w \<and> vr_latest w = vr_latest v) (db_versions db1) vs"
    "list_all2 (\<lambda>v w. same_name v w \<and> vr_prerelease w = vr_prerelease v) (db_versions db1) vs"
    unfolding vs_def update_row_def list_all2_map2 by (rule list_all2_refl, simp add: same_name_def)+
  have "db_versions db' = vs" using assms
    by (auto simp: insert_run_def draw_id_def Let_def count_run_in_workflow_def count_run_in_version_def vs_def split: if_splits)
  moreover from this have "latest_of db' = latest_of db1"
    using latest_of_same [OF rows(1)] by (intro ext) (simp add: latest_of_def fun_eq_iff)
  ultimately show ?thesis using assms rows(2)
    by (auto simp: insert_run_def draw_id_def Let_def count_run_in_workflow_def count_run_in_version_def split: if_splits)
qed

lemma create_run_tx_new:
  assumes ok: "runs_ok db" and known: "known_workflow db w" "wfr_id w = ro_workflow opts"
      "pred_option (known_version db (wfr_project w)) version"
    and tx: "create_run_tx now opts w version db = (Inr (run, created, promoted), db')"
  shows "\<exists>v\<in>set (db_versions db'). new_run_version opts (wfr_project w) version (run_version run) v \<and>
    run_workflow run = ro_workflow opts \<and> run_state run = WorkflowRunInitialized \<and>
    db_runs db' = db_runs db @ [run] \<and> run_id run \<notin> run_id ` set (db_runs db) \<and> db_events db' = db_events db \<and>
    created = (vr_id v \<notin> vr_id ` set (db_versions db)) \<and>
    (\<not> created \<longrightarrow> promoted = (latest_of db' (wfr_project w) \<noteq> latest_of db (wfr_project w)))"
proof -
  obtain vid db1 db2 u db3 u' where
    1: "version_for_run opts w version db = (Inr (vid, created, promoted), db1)" and
    2: "insert_run now opts w vid db1 = (Inr run, db2)" and
    3: "count_run_in_workflow (wfr_id w) (run_id run) db2 = (Inr u, db3)" and
    4: "count_run_in_version now vid db3 = (Inr u', db')"
    using tx by (auto simp: create_run_tx_def split: prod.splits sum.splits)
  have vok: "versions_ok db" using ok by (simp add: runs_ok_def)
  note c = counted_rows [OF 2 3 4] and v = version_for_run_ok [OF ok known(3) 1]
  have db1: "db_runs db1 = db_runs db" "db_events db1 = db_events db" using v by auto
  have "created = (vid \<notin> vr_id ` set (db_versions db)) \<and>
    (\<not> created \<longrightarrow> promoted = (latest_of db1 (wfr_project w) \<noteq> latest_of db (wfr_project w))) \<and>
    (\<exists>v\<in>set (db_versions db1). new_run_version opts (wfr_project w) version vid v)"
  proof (cases version)
    case None
    then show ?thesis using version_for_run_new [OF vok 1 [unfolded None]] by simp
  next
    case (Some x)
    then show ?thesis using known(3) version_for_run_existing [OF vok _ 1 [unfolded Some]] by simp
  qed
  moreover have "run_id run \<notin> run_id ` set (db_runs db)"
    using v c db1 draw_fresh [of db1 run_id "db_runs db1"] by (auto simp: runs_ok_def versions_ok_def)
  moreover have "\<exists>v\<in>set (db_versions db'). new_run_version opts (wfr_project w) version vid v"
    if old: "v \<in> set (db_versions db1)" "new_run_version opts (wfr_project w) version vid v" for v
  proof -
    obtain v' where "v' \<in> set (db_versions db')" "same_name v v'" "vr_prerelease v' = vr_prerelease v"
      using c list_all2_memD1 [OF _ old(1)] by blast
    then show ?thesis using old(2) by (auto simp: new_run_version_def same_name_def)
  qed
  ultimately obtain v where "v \<in> set (db_versions db')" "new_run_version opts (wfr_project w) version vid v"
    "run_id run \<notin> run_id ` set (db_runs db)" "created = (vid \<notin> vr_id ` set (db_versions db))"
    "\<not> created \<longrightarrow> promoted = (latest_of db1 (wfr_project w) \<noteq> latest_of db (wfr_project w))" by blast
  moreover from this have "vr_id v = vid" by (simp add: new_run_version_def)
  ultimately show ?thesis using c db1 by (intro bexI [of _ v]) simp_all
qed

text \<open>The version a request asks for by name.\<close>

definition requested_version :: "create_opts \<Rightarrow> string" where
  "requested_version opts = (if wo_version opts = [] then DefaultVersionName else wo_version opts)"

definition run_opts_of :: "create_opts \<Rightarrow> uuid \<Rightarrow> contract_revision \<Rightarrow> string \<Rightarrow> run_opts" where
  "run_opts_of opts wid revn version =
     \<lparr>ro_workflow = wid, ro_schema_version = ctr_version revn, ro_url = wo_url opts, ro_runner = wo_runner opts,
      ro_backends = [wo_backend opts], ro_latest_revision = ctr_latest revn, ro_used_revision = ctr_used revn,
      ro_version = version, ro_use_latest = wo_use_latest opts, ro_require_existing = wo_require_existing opts,
      ro_mark = wo_mark opts, ro_block_released = wo_block_released opts\<rparr>"

lemma run_opts_of_simps [simp]:
  "ro_workflow (run_opts_of opts wid revn version) = wid" "ro_version (run_opts_of opts wid revn version) = version"
  "ro_use_latest (run_opts_of opts wid revn version) = wo_use_latest opts"
  "ro_block_released (run_opts_of opts wid revn version) = wo_block_released opts"
  by (simp_all add: run_opts_of_def)

lemma check_create_opts_version:
  assumes "check_create_opts opts = Inr (revn, version)" and "\<not> wo_use_latest opts"
  shows "version = requested_version opts"
  using assms by (cases "wo_contract opts"; cases "wo_version opts = []")
    (simp_all add: check_create_opts_def requested_version_def bind_res_eq_Inr Let_def split: if_splits)

lemma uc_run_Create_parts:
  assumes "uc_run_Create parse others now opts db = (Inr r, db')"
  obtains wid revn version w old created promoted db1 v p where
    "parse (wo_workflow opts) = Inr wid" "wo_use_latest opts \<or> version = requested_version opts"
    "resolve_version (run_opts_of opts wid revn version) db = Inr (w, old)"
    "create_run_tx now (run_opts_of opts wid revn version) w old (others db) = (Inr (r, created, promoted), db1)"
    "find (\<lambda>v. vr_id v = run_version r) (db_versions db1) = Some v" "pj_id p = wfr_project w"
    "db' = report_version \<lparr>cr_run = r, cr_version = v, cr_project = p, cr_created = created, cr_promoted = promoted\<rparr> db1"
proof -
  obtain wid revn version res db1 where a: "parse (wo_workflow opts) = Inr wid" "check_create_opts opts = Inr (revn, version)"
    "run_Create others now (run_opts_of opts wid revn version) db = (Inr res, db1)" "r = cr_run res" "db' = report_version res db1"
    using assms by (auto simp: uc_run_Create_def run_opts_of_def split: sum.splits prod.splits)
  obtain w old where b: "resolve_version (run_opts_of opts wid revn version) db = Inr (w, old)"
    using a(3) by (auto simp: run_Create_def split: sum.splits)
  obtain t where t: "WithTx (create_run_tx now (run_opts_of opts wid revn version) w old) (others db) = t" by simp
  obtain r' created promoted db2 where c: "t = (Inr (r', created, promoted), db2)"
    using a(3) b t by (cases t; cases "fst t") (auto simp: run_Create_def)
  obtain v where v: "find (\<lambda>v. vr_id v = run_version r') (db_versions db2) = Some v"
    using a(3) b t c by (cases "find (\<lambda>v. vr_id v = run_version r') (db_versions db2)") (simp_all add: run_Create_def)
  obtain p where p: "find (\<lambda>p. pj_id p = wfr_project w) (db_projects db2) = Some p"
    using a(3) b t c v by (cases "find (\<lambda>p. pj_id p = wfr_project w) (db_projects db2)") (simp_all add: run_Create_def)
  have res: "res = \<lparr>cr_run = r', cr_version = v, cr_project = p, cr_created = created, cr_promoted = promoted\<rparr>" "db2 = db1"
    using a(3) by (simp_all add: run_Create_def b t c v p)
  have "r' = r" using a(4) res(1) by simp
  note c = c [unfolded \<open>r' = r\<close> res(2)] and v = v [unfolded \<open>r' = r\<close> res(2)] and p = p [unfolded res(2)]
  have tx: "create_run_tx now (run_opts_of opts wid revn version) w old (others db) = (Inr (r, created, promoted), db1)"
    by (rule WithTx_cases [OF t [unfolded c]]) blast+
  have version: "wo_use_latest opts \<or> version = requested_version opts"
    using check_create_opts_version [OF a(2)] by blast
  have "pj_id p = wfr_project w" using find_SomeD [OF p] by simp
  from that [OF a(1) version b tx v this] show thesis using a(5) res(1) \<open>r' = r\<close> by simp
qed

lemma resolved_version:
  assumes "resolve_version opts db = Inr (w, old)"
  shows "if ro_use_latest opts then \<exists>u. old = Some u \<and> latest_of db (wfr_project w) = Some (vr_id u)
    else \<forall>u. old = Some u \<longrightarrow> vr_version u = ro_version opts"
proof (cases "ro_use_latest opts")
  case True
  let ?P = "\<lambda>v. vr_project v = wfr_project w \<and> \<not> vr_deleted v \<and> vr_latest v"
  obtain u where "find ?P (db_versions db) = Some u" "old = Some u"
    using assms True by (cases "find ?P (db_versions db)") (auto simp: resolve_version_def split: option.splits)
  moreover have "latest_of db (wfr_project w) = map_option vr_id (find ?P (db_versions db))"
    unfolding latest_of_def by (simp only: conj_commute)
  ultimately show ?thesis using True by simp
next
  case False
  then show ?thesis using assms by (auto simp: resolve_version_def find_version_def split: option.splits if_splits dest: find_SomeD)
qed

lemma placed_run:
  assumes ok: "runs_ok db" and r: "r \<in> set (db_runs db)" and v: "v \<in> set (db_versions db)" "vr_id v = run_version r"
  shows "\<exists>w\<in>set (db_workflows db). wfr_id w = run_workflow r \<and> wfr_org w = run_org r \<and> wfr_project w = vr_project v \<and>
    wfr_latest_run w = last_id (runs_of (db_runs db) (wfr_id w))"
proof -
  obtain w u where w: "w \<in> set (db_workflows db)" "u \<in> set (db_versions db)" "wfr_id w = run_workflow r" "wfr_org w = run_org r"
      "vr_id u = run_version r" "vr_project u = wfr_project w"
    using ok r unfolding runs_ok_def list_all_iff run_placed_def by blast
  have "u = v" using w v ok by (auto simp: runs_ok_def versions_ok_def ids_ok_def distinct_map inj_on_def)
  then show ?thesis using w ok by (auto simp: runs_ok_def workflows_ok_def)
qed

section \<open>Properties\<close>

text \<open>
  Whatever sequence of these steps is taken (runs created, finished and expired, attestations and policy
  statuses saved, versions created, released and promoted), the tables stay consistent: a workflow's
  run counter and latest run and a version's run counter agree with the runs, each run lies in the
  organization of its workflow and in a version of its workflow's project, a project has one latest
  version and unique version names; and history only grows. That a project has one latest version rests
  on transactions running one after the other: two promotions that overlap can both succeed, as
  \<open>data/projectversion.go\<close> says of \<open>promoteVersionToLatestWithTx\<close>.
\<close>

theorem runs_consistent:
  assumes "runs_ok db" and "cp_steps db db'"
  shows "runs_ok db' \<and> later db db'"
  using assms cp_steps_ok by blast

text \<open>
  C23. A run that is created, whatever other requests do between the reads and the transaction: it is the one
  row added, initialised and the latest of its workflow, in the organization of that workflow. Its
  version belongs to the workflow's project and is the one asked for: the latest version at the time
  of the request, or the one of the requested name. If released versions are blocked, the version is not
  released at the time of the transaction. A version that the request created, or promoted, is reported.
\<close>

theorem run_created:
  assumes ok: "runs_ok db" and others: "cp_steps db (others db)"
    and run: "uc_run_Create parse others now opts db = (Inr r, db')"
  shows "runs_ok db' \<and> db_runs db' = db_runs (others db) @ [r] \<and> run_state r = WorkflowRunInitialized \<and>
    parse (wo_workflow opts) = Inr (run_workflow r) \<and>
    (\<exists>w\<in>set (db_workflows db'). \<exists>v\<in>set (db_versions db').
       wfr_id w = run_workflow r \<and> wfr_org w = run_org r \<and> wfr_latest_run w = Some (run_id r) \<and>
       vr_id v = run_version r \<and> vr_project v = wfr_project w \<and>
       (if wo_use_latest opts then latest_of db (wfr_project w) = Some (vr_id v) else vr_version v = requested_version opts) \<and>
       (wo_block_released opts \<longrightarrow> vr_prerelease v) \<and>
       db_events db' = db_events (others db) @ version_events (others db) db' v)"
proof -
  obtain wid revn version w old created promoted db1 v p where
    parts: "parse (wo_workflow opts) = Inr wid" "wo_use_latest opts \<or> version = requested_version opts"
    "resolve_version (run_opts_of opts wid revn version) db = Inr (w, old)"
    "create_run_tx now (run_opts_of opts wid revn version) w old (others db) = (Inr (r, created, promoted), db1)"
    "find (\<lambda>v. vr_id v = run_version r) (db_versions db1) = Some v" "pj_id p = wfr_project w"
    "db' = report_version \<lparr>cr_run = r, cr_version = v, cr_project = p, cr_created = created, cr_promoted = promoted\<rparr> db1"
    by (rule uc_run_Create_parts [OF run])
  let ?ro = "run_opts_of opts wid revn version"
  have mid: "runs_ok (others db)" "later db (others db)" using cp_steps_ok [OF others ok] by auto
  have known: "known_workflow (others db) w" "wfr_id w = ro_workflow ?ro" "pred_option (known_version (others db) (wfr_project w)) old"
    using resolve_known [OF parts(3)] later_known [OF mid(2)] by (auto simp: option.pred_set)
  have ok': "runs_ok db'" using cp_steps_ok [OF uc_run_Create_steps [OF others ok run] ok] by simp
  have rows: "db_versions db' = db_versions db1" "db_runs db' = db_runs db1" "latest_of db' = latest_of db1"
    by (auto simp: parts(7) report_version_def Let_def dispatchProjectVersionPromoted_def latest_of_def fun_eq_iff)
  obtain v1 where v1: "v1 \<in> set (db_versions db1)" "new_run_version ?ro (wfr_project w) old (run_version r) v1"
    and new: "run_workflow r = wid" "run_state r = WorkflowRunInitialized" "db_runs db1 = db_runs (others db) @ [r]"
      "db_events db1 = db_events (others db)" "created = (vr_id v1 \<notin> vr_id ` set (db_versions (others db)))"
      "\<not> created \<Longrightarrow> promoted = (latest_of db1 (wfr_project w) \<noteq> latest_of (others db) (wfr_project w))"
    using create_run_tx_new [OF mid(1) known parts(4)] by auto
  have "v = v1"
    using find_SomeD [OF parts(5)] v1 ok' rows by (auto simp: runs_ok_def versions_ok_def ids_ok_def new_run_version_def distinct_map inj_on_def)
  then have v: "v \<in> set (db_versions db1)" "vr_id v = run_version r" "vr_project v = wfr_project w" "wo_block_released opts \<Longrightarrow> vr_prerelease v"
      "vr_version v = (case old of None \<Rightarrow> version | Some u \<Rightarrow> vr_version u)"
    using v1 by (simp_all add: new_run_version_def cong: option.case_cong)
  have vid: "old = Some u \<Longrightarrow> run_version r = vr_id u" for u
    using parts(4) by (auto simp: create_run_tx_def version_for_run_def insert_run_def draw_id_def Let_def
        split: prod.splits sum.splits option.splits if_splits)
  have asked: "if wo_use_latest opts then latest_of db (wfr_project w) = Some (vr_id v) else vr_version v = requested_version opts"
    using resolved_version [OF parts(3)] parts(2) v vid by (auto split: option.splits if_splits)
  have events: "db_events db' = db_events (others db) @ version_events (others db) db' v"
    using new v(3) rows parts(6) \<open>v = v1\<close>
    by (auto simp: parts(7) version_events_def report_version_def Let_def dispatchProjectVersionPromoted_def)
  obtain w' where w': "w' \<in> set (db_workflows db')" "wfr_id w' = run_workflow r" "wfr_org w' = run_org r" "wfr_project w' = vr_project v"
      "wfr_latest_run w' = last_id (runs_of (db_runs db') (wfr_id w'))"
    using placed_run [OF ok' _ v(1) [folded rows(1)] v(2)] rows(2) new(3) by auto
  then have "wfr_latest_run w' = Some (run_id r)" using rows new by (simp add: runs_of_def last_id_def)
  then show ?thesis using ok' rows new w' v asked events parts(1) by (auto intro!: bexI [of _ w'] bexI [of _ v])
qed

end
