(* ===== verification/Run_Queries.thy ===== *)
theory Run_Queries
  imports Run_Invariants
begin

text \<open>
  Properties of the operations that read and sweep runs: the policy columns read back what was written,
  the pages of a listing, and the expiration of abandoned runs.
\<close>

section \<open>Policy columns\<close>

lemma int32_small: "n < 2 ^ 31 \<Longrightarrow> int32 n = int n"
  unfolding int32_def by (simp add: sint_uint take_bit_nat_eq_self signed_take_bit_eq_if_positive unsigned_of_nat
      take_bit_int_eq_self bit_iff_odd div_less)

lemma policy_status_roundtrip:
  "entToPolicyStatus (policyStatusToEnt s) = (if s = PolicyStatusUnspecified then PolicyStatusNotApplicable else s)"
  by (cases s) (simp_all add: entToPolicyStatus_def policyStatusToEnt_def)

text \<open>
  The policy status of a run, written and read back: the summary comes back as it was, the unspecified status as
  not applicable, as long as the counters fit in 31 bits; the run's violation flag says whether there
  are violations, and no other run and no other table changes.
\<close>

theorem policy_columns_roundtrip:
  assumes ids: "runs_ok db" and up: "UpdatePolicyStatus rid (Some s) db = (Inr (), db')"
    and fits: "sum_total s < 2 ^ 31" "sum_passed s < 2 ^ 31" "sum_skipped s < 2 ^ 31" "sum_violated s < 2 ^ 31" "sum_suppressed s < 2 ^ 31"
  shows "\<exists>r. run_FindByID db' rid = Some r \<and> run_has_violations r = Some (sum_violated s > 0) \<and>
    entWrPolicySummary r = Some
      \<lparr>rs_status = (if sum_status s = PolicyStatusUnspecified then PolicyStatusNotApplicable else sum_status s),
       rs_total = int (sum_total s), rs_passed = int (sum_passed s), rs_skipped = int (sum_skipped s),
       rs_violated = int (sum_violated s), rs_suppressed = int (sum_suppressed s), rs_has_gates = sum_has_gates s\<rparr> \<and>
    (\<exists>f. db' = db\<lparr>db_runs := update_row run_id rid f (db_runs db)\<rparr>)"
proof -
  define f where "f r = r\<lparr>run_has_violations := Some (sum_violated s > 0),
    run_policy := Some \<lparr>pc_status = policyStatusToEnt (sum_status s), pc_total = int32 (sum_total s),
      pc_passed = int32 (sum_passed s), pc_skipped = int32 (sum_skipped s), pc_violations = int32 (sum_violated s),
      pc_suppressed = int32 (sum_suppressed s), pc_has_gates = sum_has_gates s\<rparr>\<rparr>" for r :: workflow_run
  have run: "update_run rid f (run_not_found rid) db = (Inr (), db')" using up by (simp add: UpdatePolicyStatus_def f_def [abs_def])
  then obtain x where x: "run_FindByID db rid = Some x" and db': "db' = db\<lparr>db_runs := update_row run_id rid f (db_runs db)\<rparr>"
    by (auto simp: update_run_def split: if_splits)
  have mem: "x \<in> set (db_runs db)" "run_id x = rid" using x by (auto simp: run_FindByID_def dest!: find_SomeD)
  have "map run_id (update_row run_id rid f (db_runs db)) = map run_id (db_runs db)"
    by (rule map_update_row) (simp add: f_def)
  then have "distinct (map run_id (db_runs db'))" using ids by (simp add: db' runs_ok_def ids_ok_def)
  moreover have "f x \<in> set (db_runs db')" using mem by (auto simp: db' update_row_set)
  ultimately have "run_FindByID db' rid = Some (f x)"
    using find_by_id [of run_id "db_runs db'" "f x"] mem(2) by (simp add: run_FindByID_def f_def)
  then show ?thesis using db' fits by (auto simp: f_def entWrPolicySummary_def policy_status_roundtrip int32_small)
qed

section \<open>Pages of runs\<close>

text \<open>What the query promises: the selected runs, latest first; runs of the same instant in any order.\<close>

definition latest_first :: "(workflow_run list \<Rightarrow> workflow_run list) \<Rightarrow> bool" where
  "latest_first order \<longleftrightarrow> (\<forall>rs. mset (order rs) = mset rs \<and> sorted_wrt (\<lambda>a b. run_created_at b \<le> run_created_at a) (order rs))"

text \<open>On runs created at distinct instants the order agrees with that of the cursor.\<close>

definition completed_order :: "(workflow_run list \<Rightarrow> workflow_run list) \<Rightarrow> workflow_run list \<Rightarrow> workflow_run list" where
  "completed_order order rs = (if distinct (map run_created_at rs) then order rs else order_desc run_key rs)"

lemma completed_keyset:
  assumes "latest_first order"
  shows "keyset_query run_key (completed_order order)"
proof
  show "mset (completed_order order rs) = mset rs" for rs
    using assms by (simp add: completed_order_def latest_first_def order_desc_def)
  show "sorted_wrt (\<lambda>a b. run_key b < run_key a) (completed_order order rs)" if "distinct (map run_key rs)" for rs
  proof (cases "distinct (map run_created_at rs)")
    case False
    then show ?thesis using created_id.order_desc [OF that] by (simp add: completed_order_def)
  next
    case True
    have perm: "mset (order rs) = mset rs" and sorted: "sorted_wrt (\<lambda>a b. run_created_at b \<le> run_created_at a) (order rs)"
      using assms by (auto simp: latest_first_def)
    have "distinct (map run_created_at (order rs))" using True perm by (metis mset_eq_imp_distinct_iff mset_map)
    then have "sorted_wrt (\<lambda>a b. run_created_at a \<noteq> run_created_at b) (order rs)"
      by (simp add: distinct_map sorted_wrt_iff_nth_less distinct_conv_nth inj_on_def)
    with sorted have "sorted_wrt (\<lambda>a b. run_created_at b < run_created_at a) (order rs)"
      unfolding sorted_wrt_iff_nth_less by (metis order.strict_iff_order)
    then have "sorted_wrt (\<lambda>a b. run_key b < run_key a) (order rs)"
      by (rule sorted_wrt_mono_rel [rotated]) (simp add: run_key_def)
    then show ?thesis using True by (simp add: completed_order_def)
  qed
qed

text \<open>
  Following the cursors of a listing of runs, when no two of the selected runs were created at the same instant: the
  listing ends within as many pages as there are runs, and gives every selected run once, latest first.
\<close>

theorem runs_listed_once:
  assumes order: "latest_first order" and limit: "0 < limit"
    and times: "distinct (map run_created_at (filter (run_selected db orgID f) (db_runs db)))"
  shows "follow (list_runs_page order db orgID f limit) (Suc (length (filter (run_selected db orgID f) (db_runs db)))) None =
    (order (filter (run_selected db orgID f) (db_runs db)), True)"
proof -
  let ?rs = "filter (run_selected db orgID f) (db_runs db)"
  have keys: "distinct (map run_key ?rs)" using times by (auto simp: distinct_map inj_on_def run_key_def)
  have "fetch order run_key c limit ?rs = fetch (completed_order order) run_key c limit ?rs" for c
    using distinct_map_filter [OF times, of "below c run_key"] by (simp add: fetch_def completed_order_def)
  then have "list_runs_page order db orgID f limit = (\<lambda>c. cut_page run_key limit (fetch (completed_order order) run_key c limit ?rs))"
    by (intro ext) (simp add: list_runs_page_def)
  then show ?thesis
    using keyset_query.pages_exhaust [OF completed_keyset [OF order] keys limit] times by (simp add: completed_order_def)
qed

text \<open>
  Runs created at the same instant can be lost: the query is free in their order, and the cursor skips
  those with a larger identifier than the last one of the page.
\<close>

definition tied_run :: "uuid \<Rightarrow> workflow_run" where
  "tied_run rid = \<lparr>run_id = rid, run_workflow = ''w'', run_org = ''o'', run_version = ''v'', run_contract_version = ''c'', run_url = [],
     run_runner_type = [], run_backends = [], run_rev_latest = 1, run_rev_used = 1, run_state = WorkflowRunInitialized,
     run_reason = [], run_created_at = 0, run_finished_at = None, run_digest = [], run_crafting = None,
     run_has_violations = None, run_policy = None\<rparr>"

definition tied_db :: cp_db where
  "tied_db = \<lparr>db_orgs = [], db_projects = [], db_versions = [],
     db_workflows = [\<lparr>wfr_id = ''w'', wfr_org = ''o'', wfr_project = ''p'', wfr_deleted = False, wfr_runs_count = 2, wfr_latest_run = Some ''2''\<rparr>],
     db_runs = [tied_run ''1'', tied_run ''2''], db_bundles = [], db_backends = [], db_mappings = [], db_contracts = [], db_ids = (\<lambda>_. []), db_ids_drawn = 0, db_events = []\<rparr>"

definition no_run_filters :: run_filters where
  "no_run_filters = \<lparr>fl_workflow = None, fl_version = None, fl_status = None, fl_projects = None, fl_violations = None,
     fl_policy_status = None, fl_has_gates = None\<rparr>"

definition by_creation :: "workflow_run list \<Rightarrow> workflow_run list" where
  "by_creation rs = sort_key (\<lambda>r. - run_created_at r) rs"

lemma by_creation_latest_first: "latest_first by_creation"
proof -
  have "sorted (map (\<lambda>r. - run_created_at r) (by_creation rs))" for rs by (simp add: by_creation_def)
  then show ?thesis by (simp add: latest_first_def sorted_map by_creation_def)
qed

lemma tied_run_skipped:
  "follow (list_runs_page by_creation tied_db ''o'' no_run_filters 1) n None \<noteq> (by_creation (db_runs tied_db), True) \<and>
   list_all (run_selected tied_db ''o'' no_run_filters) (db_runs tied_db)"
proof -
  have p1: "list_runs_page by_creation tied_db ''o'' no_run_filters 1 None = ([tied_run ''1''], Some (0, ''1''))"
    and p2: "list_runs_page by_creation tied_db ''o'' no_run_filters 1 (Some (0, ''1'')) = ([], None)"
    and all: "by_creation (db_runs tied_db) = [tied_run ''1'', tied_run ''2'']"
    by code_simp+
  have "list_all (run_selected tied_db ''o'' no_run_filters) (db_runs tied_db)" by code_simp
  moreover have "length (fst (follow (list_runs_page by_creation tied_db ''o'' no_run_filters 1) n None)) \<le> 1"
    by (cases n; cases "n - 1") (simp_all add: p1 [simplified] p2 [simplified])
  ultimately show ?thesis using all by fastforce
qed

section \<open>Expiration\<close>

definition expired :: "workflow_run \<Rightarrow> workflow_run" where
  "expired r = r\<lparr>run_state := WorkflowRunExpired, run_crafting := None\<rparr>"

lemma expire_all_rows:
  assumes "set (map run_id xs) \<subseteq> run_id ` set (db_runs db)"
  shows "expire_all xs db = (Inr (), db\<lparr>db_runs := map (\<lambda>r. if run_id r \<in> run_id ` set xs then expired r else r) (db_runs db)\<rparr>)"
  using assms
proof (induction xs arbitrary: db)
  case (Cons x xs)
  let ?db = "db\<lparr>db_runs := update_row run_id (run_id x) expired (db_runs db)\<rparr>"
  have "run_FindByID db (run_id x) \<noteq> None" using Cons.prems by (auto simp: run_FindByID_def find_None_iff)
  then have 1: "Expire (run_id x) db = (Inr (), ?db)" by (simp add: Expire_def update_run_def expired_def [abs_def])
  have "map run_id (db_runs ?db) = map run_id (db_runs db)" by (simp add: map_update_row expired_def)
  then have "run_id ` set (db_runs ?db) = run_id ` set (db_runs db)" by (rule map_id_image)
  then have "expire_all xs ?db = (Inr (), ?db\<lparr>db_runs := map (\<lambda>r. if run_id r \<in> run_id ` set xs then expired r else r) (db_runs ?db)\<rparr>)"
    using Cons.prems by (intro Cons.IH) auto
  then show ?case using 1 by (auto simp: update_row_def expired_def)
qed simp

text \<open>
  An expiration sweep that no other request interferes with succeeds and expires only runs that are still
  initialised and not younger than the threshold, all of them when there are no more than a hundred;
  it changes nothing else.
\<close>

theorem sweep_expires:
  assumes scan: "\<And>rs. mset (scan rs) = mset rs" and sweep: "ExpirationSweep scan (\<lambda>db. db) olderThan db = (r, db')"
    and ids: "runs_ok db"
  shows "r = Inr () \<and> runs_ok db' \<and>
    (\<exists>S. db' = db\<lparr>db_runs := map (\<lambda>r. if run_id r \<in> S then expired r else r) (db_runs db)\<rparr> \<and>
       (\<forall>r\<in>set (db_runs db). run_id r \<in> S \<longrightarrow> run_state r = WorkflowRunInitialized \<and> run_created_at r \<le> olderThan) \<and>
       (length (filter (\<lambda>r. run_created_at r \<le> olderThan \<and> run_state r = WorkflowRunInitialized) (db_runs db)) \<le> 100 \<longrightarrow>
          (\<forall>r\<in>set (db_runs db). run_state r = WorkflowRunInitialized \<and> run_created_at r \<le> olderThan \<longrightarrow> run_id r \<in> S)))"
proof -
  let ?P = "\<lambda>r. run_created_at r \<le> olderThan \<and> run_state r = WorkflowRunInitialized"
  define xs where "xs = ListNotFinishedOlderThan scan db olderThan maxNumberOfRunsToExpire"
  have set: "set (scan rs) = set rs" and len: "length (scan rs) = length rs" for rs
    using scan [of rs] by (metis set_mset_mset, metis size_mset)
  have xs: "xs = take 100 (scan (filter ?P (db_runs db)))"
    by (simp add: xs_def ListNotFinishedOlderThan_def maxNumberOfRunsToExpire_def)
  have sub: "set xs \<subseteq> {r \<in> set (db_runs db). ?P r}" using set_take_subset [of 100 "scan (filter ?P (db_runs db))"] by (auto simp: xs set)
  have all: "set xs = {r \<in> set (db_runs db). ?P r}" if "length (filter ?P (db_runs db)) \<le> 100"
    using that len [of "filter ?P (db_runs db)"] by (simp add: xs set)
  have run: "expire_all xs db = (r, db')" using sweep by (simp add: ExpirationSweep_def xs_def)
  have "r = Inr ()" and db': "db' = db\<lparr>db_runs := map (\<lambda>r. if run_id r \<in> run_id ` set xs then expired r else r) (db_runs db)\<rparr>"
    using run sub by (subst (asm) expire_all_rows; auto)+
  moreover have "runs_ok db'" using cp_steps_ok [OF expire_all_steps [OF run] ids] by simp
  moreover have inj: "inj_on run_id (set (db_runs db))" using ids by (simp add: runs_ok_def ids_ok_def distinct_map)
  have "?P r" if r: "r \<in> set (db_runs db)" "run_id r \<in> run_id ` set xs" for r
  proof -
    obtain x where x: "x \<in> set xs" "run_id r = run_id x" using r(2) by blast
    then have "r = x" using inj_onD [OF inj _ r(1)] sub by blast
    then show ?thesis using x sub by blast
  qed
  ultimately show ?thesis using all by (intro conjI exI [of _ "run_id ` set xs"]) blast+
qed

text \<open>Between the query and the update, a run may finish: it is expired all the same.\<close>

lemma sweep_overwrites_finished:
  "let db' = snd (ExpirationSweep (\<lambda>rs. rs) (\<lambda>db. snd (MarkAsFinished 5 ''1'' WorkflowRunSuccess [] db)) 0 tied_db)
   in map_option run_state (run_FindByID (snd (MarkAsFinished 5 ''1'' WorkflowRunSuccess [] tied_db)) ''1'') = Some WorkflowRunSuccess \<and>
      map_option run_state (run_FindByID db' ''1'') = Some WorkflowRunExpired"
  by code_simp

end
