(* ===== verification/CAS_Backends.thy ===== *)
theory CAS_Backends
  imports Project_Versions
begin

text \<open>
  The storage backends of an organization (\<open>app/controlplane/pkg/biz/casbackend.go\<close> and
  \<open>app/controlplane/pkg/data/casbackend.go\<close>): creating, updating, deleting and validating them, and
  which one an attestation uses. The secrets manager, the providers' credential checks and the
  Kubernetes name validation are the fields of \<open>backend_env\<close>.

  Updating, deleting and validating take several queries and transactions each; they are modelled for an
  organization whose backends are changed by one request at a time. Requests that overlap can leave two
  default backends, which \<open>promotion_race\<close> of the examples shows.
\<close>

section \<open>Repository\<close>

definition CASBackendInline :: string where "CASBackendInline = ''INLINE''"
definition CASBackendInlineDefaultMaxBytes :: int where "CASBackendInlineDefaultMaxBytes = 500 * 1024"
definition MinCASBackendMaxBytes :: int where "MinCASBackendMaxBytes = 10 * 1024 * 1024"

definition cb_inline :: "cas_backend \<Rightarrow> bool" where
  "cb_inline b = (cb_provider b = CASBackendInline)"

definition org_live :: "'a cp_db_scheme \<Rightarrow> uuid \<Rightarrow> bool" where
  "org_live db orgID = list_ex (\<lambda>o'. org_id o' = orgID \<and> \<not> org_deleted o') (db_orgs db)"

text \<open>A live backend of a live organization.\<close>

definition org_backend :: "(cas_backend \<Rightarrow> bool) \<Rightarrow> 'a cp_db_scheme \<Rightarrow> uuid \<Rightarrow> cas_backend option res" where
  "org_backend P db orgID = only (\<lambda>b. org_live db orgID \<and> cb_org b = orgID \<and> \<not> cb_deleted b \<and> P b) (db_backends db)"

definition repo_FindDefaultBackend :: "'a cp_db_scheme \<Rightarrow> uuid \<Rightarrow> cas_backend option res" where
  "repo_FindDefaultBackend db orgID = org_backend cb_default db orgID"

definition repo_FindFallbackBackend :: "'a cp_db_scheme \<Rightarrow> uuid \<Rightarrow> cas_backend option res" where
  "repo_FindFallbackBackend db orgID = org_backend cb_fallback db orgID"

definition repo_FindInlineBackend :: "'a cp_db_scheme \<Rightarrow> uuid \<Rightarrow> cas_backend option res" where
  "repo_FindInlineBackend db orgID = org_backend cb_inline db orgID"

definition repo_FindManagedBackend :: "'a cp_db_scheme \<Rightarrow> uuid \<Rightarrow> cas_backend option res" where
  "repo_FindManagedBackend db orgID = org_backend cb_managed db orgID"

definition backend_FindByIDInOrg :: "'a cp_db_scheme \<Rightarrow> uuid \<Rightarrow> uuid \<Rightarrow> cas_backend option res" where
  "backend_FindByIDInOrg db orgID bid = org_backend (\<lambda>b. cb_id b = bid) db orgID"

definition backend_FindByID :: "'a cp_db_scheme \<Rightarrow> uuid \<Rightarrow> cas_backend option res" where
  "backend_FindByID db bid = only (\<lambda>b. cb_id b = bid \<and> \<not> cb_deleted b) (db_backends db)"

definition backend_FindByNameInOrg :: "'a cp_db_scheme \<Rightarrow> uuid \<Rightarrow> string \<Rightarrow> cas_backend res" where
  "backend_FindByNameInOrg db orgID name =
     bind_res (org_backend (\<lambda>b. cb_name b = name) db orgID) (\<lambda>b.
     case b of None \<Rightarrow> Inl (NewErrNotFound ''CAS backend'') | Some b \<Rightarrow> Inr b)"

record create_backend_opts =
  nb_org :: uuid
  nb_name :: string
  nb_location :: string
  nb_provider :: string
  nb_description :: "string option"
  nb_secret :: string
  nb_default :: "bool option"
  nb_fallback :: "bool option"
  nb_managed :: "bool option"
  nb_max_bytes :: int

record update_backend_opts =
  ub_id :: uuid
  ub_org :: uuid  \<comment> \<open>the nil identifier when the caller leaves it out\<close>
  ub_description :: "string option"
  ub_secret :: string
  ub_default :: "bool option"
  ub_fallback :: "bool option"
  ub_status :: "backend_status option"
  ub_error :: "string option"
  ub_max_bytes :: "int option"

text \<open>The updates by organization do not look at whether a backend is deleted.\<close>

definition clear_default :: "uuid \<Rightarrow> bool option \<Rightarrow> cas_backend list \<Rightarrow> cas_backend list" where
  "clear_default orgID flag bs =
     (if flag = Some True then map (\<lambda>b. if cb_org b = orgID \<and> cb_default b then b\<lparr>cb_default := False\<rparr> else b) bs else bs)"

definition clear_fallback :: "uuid \<Rightarrow> bool option \<Rightarrow> cas_backend list \<Rightarrow> cas_backend list" where
  "clear_fallback orgID flag bs =
     (if flag = Some True then map (\<lambda>b. if cb_org b = orgID \<and> cb_fallback b then b\<lparr>cb_fallback := False\<rparr> else b) bs else bs)"

definition backend_of_opts :: "uuid \<Rightarrow> int \<Rightarrow> create_backend_opts \<Rightarrow> cas_backend" where
  "backend_of_opts bid now opts =
     \<lparr>cb_id = bid, cb_org = nb_org opts, cb_name = nb_name opts, cb_location = nb_location opts, cb_provider = nb_provider opts,
      cb_description = (case nb_description opts of None \<Rightarrow> [] | Some d \<Rightarrow> d), cb_secret = nb_secret opts,
      cb_status = CASBackendValidationOK, cb_error = [], cb_default = (nb_default opts = Some True),
      cb_fallback = (nb_fallback opts = Some True), cb_managed = (nb_managed opts = Some True), cb_deleted = False,
      cb_max_bytes = nb_max_bytes opts, cb_created_at = now\<rparr>"

text \<open>A live backend's name is taken within its organization; the organization exists.\<close>

definition name_taken :: "'a cp_db_scheme \<Rightarrow> uuid \<Rightarrow> string \<Rightarrow> bool" where
  "name_taken db orgID name = list_ex (\<lambda>b. cb_org b = orgID \<and> cb_name b = name \<and> \<not> cb_deleted b) (db_backends db)"

definition repo_create_backend :: "int \<Rightarrow> create_backend_opts \<Rightarrow> 'a cp_db_scheme \<Rightarrow> cas_backend res \<times> 'a cp_db_scheme" where
  "repo_create_backend now opts =
     WithTx (\<lambda>db.
       if nb_default opts = Some True \<and> nb_fallback opts = Some True then
         (Inl (Errorf ''a backend cannot be both default and fallback'' []), db)
       else
         let bs = clear_fallback (nb_org opts) (nb_fallback opts) (clear_default (nb_org opts) (nb_default opts) (db_backends db)) in
         if name_taken db (nb_org opts) (nb_name opts) \<or> nb_org opts \<notin> org_id ` set (db_orgs db) then
           (Inl (NewErrAlreadyExistsStr ''ent: constraint failed''), db)
         else
           let (bid, db) = draw_id db; b = backend_of_opts bid now opts in
           (Inr b, db\<lparr>db_backends := bs @ [b]\<rparr>))"

text \<open>The default flag is set before the fallback flag, and each clears the other.\<close>

definition apply_update :: "update_backend_opts \<Rightarrow> cas_backend \<Rightarrow> cas_backend" where
  "apply_update opts b =
     (let b = (case ub_description opts of None \<Rightarrow> b | Some d \<Rightarrow> b\<lparr>cb_description := d\<rparr>);
          b = (case ub_default opts of
                 None \<Rightarrow> b
               | Some v \<Rightarrow> b\<lparr>cb_default := v, cb_fallback := (if v then False else cb_fallback b)\<rparr>);
          b = (case ub_fallback opts of
                 None \<Rightarrow> b
               | Some v \<Rightarrow> b\<lparr>cb_fallback := v, cb_default := (if v then False else cb_default b)\<rparr>);
          b = (if ub_secret opts \<noteq> [] then b\<lparr>cb_secret := ub_secret opts\<rparr> else b);
          b = (case ub_status opts of None \<Rightarrow> b | Some s \<Rightarrow> b\<lparr>cb_status := s\<rparr>);
          b = (case ub_error opts of None \<Rightarrow> b | Some x \<Rightarrow> b\<lparr>cb_error := x\<rparr>)
      in case ub_max_bytes opts of None \<Rightarrow> b | Some m \<Rightarrow> b\<lparr>cb_max_bytes := m\<rparr>)"

definition repo_update_backend :: "update_backend_opts \<Rightarrow> 'a cp_db_scheme \<Rightarrow> cas_backend option res \<times> 'a cp_db_scheme" where
  "repo_update_backend opts db =
     (case WithTx (\<lambda>db.
         let bs = clear_fallback (ub_org opts) (ub_fallback opts) (clear_default (ub_org opts) (ub_default opts) (db_backends db)) in
         if ub_id opts \<notin> cb_id ` set (db_backends db) then (Inl (Errorf ''ent: cas_backend not found'' []), db)
         else (Inr (), db\<lparr>db_backends := update_row cb_id (ub_id opts) (apply_update opts) bs\<rparr>)) db of
        (Inl x, db') \<Rightarrow> (Inl x, db')
      | (Inr _, db') \<Rightarrow> (backend_FindByID db' (ub_id opts), db'))"

definition update_one_backend :: "uuid \<Rightarrow> (cas_backend \<Rightarrow> cas_backend) \<Rightarrow> 'a cp_db_scheme \<Rightarrow> unit res \<times> 'a cp_db_scheme" where
  "update_one_backend bid f db =
     (if bid \<notin> cb_id ` set (db_backends db) then (Inl (Errorf ''ent: cas_backend not found'' []), db)
      else (Inr (), db\<lparr>db_backends := update_row cb_id bid f (db_backends db)\<rparr>))"

definition repo_SoftDelete :: "uuid \<Rightarrow> 'a cp_db_scheme \<Rightarrow> unit res \<times> 'a cp_db_scheme" where
  "repo_SoftDelete bid = update_one_backend bid (\<lambda>b. b\<lparr>cb_deleted := True\<rparr>)"

definition UpdateValidationStatus ::
  "uuid \<Rightarrow> backend_status \<Rightarrow> string option \<Rightarrow> 'a cp_db_scheme \<Rightarrow> unit res \<times> 'a cp_db_scheme" where
  "UpdateValidationStatus bid status validationError =
     update_one_backend bid (\<lambda>b. b\<lparr>cb_status := status, cb_error := (case validationError of None \<Rightarrow> [] | Some m \<Rightarrow> m)\<rparr>)"

text \<open>Deleting a row takes the mappings to it along, and its links to runs.\<close>

definition repo_delete_backend :: "uuid \<Rightarrow> 'a cp_db_scheme \<Rightarrow> unit res \<times> 'a cp_db_scheme" where
  "repo_delete_backend bid db =
     (if bid \<notin> cb_id ` set (db_backends db) then (Inl (Errorf ''ent: cas_backend not found'' []), db)
      else (Inr (), db\<lparr>db_backends := filter (\<lambda>b. cb_id b \<noteq> bid) (db_backends db),
                       db_mappings := filter (\<lambda>m. cm_backend m \<noteq> bid) (db_mappings db),
                       db_runs := map (\<lambda>r. r\<lparr>run_backends := filter (\<lambda>i. i \<noteq> bid) (run_backends r)\<rparr>) (db_runs db)\<rparr>))"

definition ListBackends :: "'a cp_db_scheme \<Rightarrow> bool \<Rightarrow> cas_backend list" where
  "ListBackends db defaultsOrFallbacks =
     filter (\<lambda>b. \<not> cb_deleted b \<and> \<not> cb_inline b \<and> org_live db (cb_org b) \<and>
                 (defaultsOrFallbacks \<longrightarrow> cb_default b \<or> cb_fallback b)) (db_backends db)"

section \<open>Use case\<close>

record backend_env =
  be_parse :: "string \<Rightarrow> uuid res"
  be_dns1123 :: "string \<Rightarrow> unit res"
  be_save :: "string \<Rightarrow> string \<Rightarrow> string option \<Rightarrow> string res"  \<comment> \<open>organization, credentials, existing secret\<close>
  be_read :: "string \<Rightarrow> string res"
  be_marshal :: "string \<Rightarrow> string res"
  be_providers :: "string \<Rightarrow> (string \<Rightarrow> string \<Rightarrow> string option) option"  \<comment> \<open>the message of a failed check\<close>
  be_max_bytes_default :: int

definition displayLocation :: "cas_backend \<Rightarrow> string" where
  "displayLocation b = (if cb_managed b then ''managed by Chainloop'' else cb_location b)"

definition displayProvider :: "cas_backend \<Rightarrow> string" where
  "displayProvider b = (if cb_managed b then ''Chainloop'' else cb_provider b)"

definition event_base :: "cas_backend \<Rightarrow> backend_info" where
  "event_base b = (cb_id b, cb_name b, displayProvider b, displayLocation b, cb_default b)"

definition log_audit :: "audit_event \<Rightarrow> 'a cp_db_scheme \<Rightarrow> 'a cp_db_scheme" where
  "log_audit ev db = db\<lparr>db_events := db_events db @ [ev]\<rparr>"

definition found_backend :: "cas_backend option res \<Rightarrow> cas_backend res" where
  "found_backend r = bind_res r (\<lambda>b. case b of None \<Rightarrow> Inl (NewErrNotFound ''CAS Backend'') | Some b \<Rightarrow> Inr b)"

definition FindDefaultBackend :: "backend_env \<Rightarrow> 'a cp_db_scheme \<Rightarrow> string \<Rightarrow> cas_backend res" where
  "FindDefaultBackend be db orgID =
     bind_res (map_err NewErrInvalidUUID (be_parse be orgID)) (\<lambda>oid. found_backend (repo_FindDefaultBackend db oid))"

definition FindFallbackBackend :: "backend_env \<Rightarrow> 'a cp_db_scheme \<Rightarrow> string \<Rightarrow> cas_backend res" where
  "FindFallbackBackend be db orgID =
     bind_res (map_err NewErrInvalidUUID (be_parse be orgID)) (\<lambda>oid. found_backend (repo_FindFallbackBackend db oid))"

definition FindDefaultOrFallbackBackend :: "backend_env \<Rightarrow> 'a cp_db_scheme \<Rightarrow> string \<Rightarrow> cas_backend res" where
  "FindDefaultOrFallbackBackend be db orgID =
     bind_res (FindDefaultBackend be db orgID) (\<lambda>d.
     if cb_status d = CASBackendValidationOK then Inr d
     else
       bind_res (FindFallbackBackend be db orgID) (\<lambda>f.
       if cb_status f \<noteq> CASBackendValidationOK then
         Inl (NewErrValidationStr ''both default and fallback CAS backends are unreachable'')
       else Inr f))"

definition CreateInlineBackend :: "backend_env \<Rightarrow> int \<Rightarrow> string \<Rightarrow> 'a cp_db_scheme \<Rightarrow> cas_backend res \<times> 'a cp_db_scheme" where
  "CreateInlineBackend be now orgID db =
     (case be_parse be orgID of
        Inl x \<Rightarrow> (Inl (NewErrInvalidUUID x), db)
      | Inr oid \<Rightarrow> repo_create_backend now
          \<lparr>nb_org = oid, nb_name = ''default-inline'', nb_location = [], nb_provider = CASBackendInline,
           nb_description = Some ''Embed artifacts content in the attestation (fallback)'', nb_secret = [],
           nb_default = Some True, nb_fallback = None, nb_managed = None, nb_max_bytes = CASBackendInlineDefaultMaxBytes\<rparr> db)"

fun first_candidate :: "uuid option \<Rightarrow> cas_backend option res list \<Rightarrow> cas_backend option res" where
  "first_candidate excludeID [] = Inr None"
| "first_candidate excludeID (f # fs) =
     bind_res f (\<lambda>b. case b of
         None \<Rightarrow> first_candidate excludeID fs
       | Some b \<Rightarrow> if excludeID = Some (cb_id b) then first_candidate excludeID fs else Inr (Some b))"

definition findPromotionCandidate :: "'a cp_db_scheme \<Rightarrow> uuid \<Rightarrow> uuid option \<Rightarrow> cas_backend option res" where
  "findPromotionCandidate db oid excludeID =
     first_candidate excludeID [repo_FindFallbackBackend db oid, repo_FindManagedBackend db oid, repo_FindInlineBackend db oid]"

text \<open>The update of the promotion leaves the organization out.\<close>

definition promotion_update :: "uuid \<Rightarrow> update_backend_opts" where
  "promotion_update bid = \<lparr>ub_id = bid, ub_org = uuid_Nil, ub_description = None, ub_secret = [], ub_default = Some True,
     ub_fallback = None, ub_status = None, ub_error = None, ub_max_bytes = None\<rparr>"

definition promoteNextAvailableBackend ::
  "backend_env \<Rightarrow> string \<Rightarrow> uuid option \<Rightarrow> 'a cp_db_scheme \<Rightarrow> cas_backend option res \<times> 'a cp_db_scheme" where
  "promoteNextAvailableBackend be orgID excludeID db =
     (case be_parse be orgID of
        Inl x \<Rightarrow> (Inl (NewErrInvalidUUID x), db)
      | Inr oid \<Rightarrow>
          (case findPromotionCandidate db oid excludeID of
             Inl x \<Rightarrow> (Inl x, db)
           | Inr None \<Rightarrow> (Inr None, db)
           | Inr (Some c) \<Rightarrow> repo_update_backend (promotion_update (cb_id c)) db))"

definition check_new_backend :: "backend_env \<Rightarrow> string \<Rightarrow> string \<Rightarrow> bool \<Rightarrow> bool \<Rightarrow> int option \<Rightarrow> (uuid \<times> int) res" where
  "check_new_backend be orgID name defaultB fallbackB maxBytes =
     (if orgID = [] \<or> name = [] then Inl (NewErrValidationStr ''organization and name are required'')
      else if defaultB \<and> fallbackB then Inl (NewErrValidationStr ''a backend cannot be both default and fallback'')
      else
        bind_res (map_err NewErrInvalidUUID (be_parse be orgID)) (\<lambda>oid.
        bind_res (map_err NewErrValidation (be_dns1123 be name)) (\<lambda>_.
        case maxBytes of
          None \<Rightarrow> Inr (oid, be_max_bytes_default be)
        | Some m \<Rightarrow> if m < MinCASBackendMaxBytes then Inl (NewErrValidationStr ''max_bytes must be at least 10M'') else Inr (oid, m))))"

definition create_backend ::
  "backend_env \<Rightarrow> int \<Rightarrow> string \<Rightarrow> string \<Rightarrow> string \<Rightarrow> string \<Rightarrow> string \<Rightarrow> string \<Rightarrow> bool \<Rightarrow> bool \<Rightarrow> int option \<Rightarrow>
     'a cp_db_scheme \<Rightarrow> cas_backend res \<times> 'a cp_db_scheme" where
  "create_backend be now orgID name location description provider creds defaultB fallbackB maxBytes db =
     (case check_new_backend be orgID name defaultB fallbackB maxBytes of
        Inl x \<Rightarrow> (Inl x, db)
      | Inr (oid, finalMaxBytes) \<Rightarrow>
          (case be_save be orgID creds None of
             Inl x \<Rightarrow> (Inl (Wrapf ''storing the credentials: %w'' [] x), db)
           | Inr secretName \<Rightarrow>
               (case repo_create_backend now
                       \<lparr>nb_org = oid, nb_name = name, nb_location = location, nb_provider = provider,
                        nb_description = Some description, nb_secret = secretName, nb_default = Some defaultB,
                        nb_fallback = Some fallbackB, nb_managed = None, nb_max_bytes = finalMaxBytes\<rparr> db of
                  (Inl x, db') \<Rightarrow>
                    (Inl (if IsErrAlreadyExists x then NewErrAlreadyExistsStr ''name already taken''
                          else Wrapf ''failed to create CAS backend: %w'' [] x), db')
                | (Inr b, db') \<Rightarrow> (Inr b, log_audit (CASBackendCreated (event_base b) description) db'))))"

section \<open>Validation\<close>

text \<open>The outcome of checking the credentials of a backend.\<close>

definition check_credentials :: "backend_env \<Rightarrow> (string \<Rightarrow> string \<Rightarrow> string option) \<Rightarrow> cas_backend \<Rightarrow> backend_status \<times> string option" where
  "check_credentials be validate b =
     (case be_read be (cb_secret b) of
        Inl _ \<Rightarrow> (CASBackendValidationFailed, Some ''Failed to access CAS backend credentials in external Secrets Manager'')
      | Inr creds \<Rightarrow>
          (case be_marshal be creds of
             Inl _ \<Rightarrow> (CASBackendValidationFailed, Some ''Invalid CAS backend credentials format from external Secrets Manager'')
           | Inr credsJSON \<Rightarrow>
               (case validate (cb_location b) credsJSON of
                  Some msg \<Rightarrow> (CASBackendValidationFailed, Some msg)
                | None \<Rightarrow> (CASBackendValidationOK, None))))"

text \<open>The deferred function: it reloads the backend, stores the outcome and reports a change.\<close>

definition record_validation :: "uuid \<Rightarrow> backend_status \<Rightarrow> string option \<Rightarrow> 'a cp_db_scheme \<Rightarrow> 'a cp_db_scheme" where
  "record_validation bid status validationError db =
     (case backend_FindByID db bid of
        Inr (Some b) \<Rightarrow>
          (case UpdateValidationStatus bid status validationError db of
             (Inl _, db') \<Rightarrow> db'
           | (Inr _, db') \<Rightarrow>
               if cb_status b \<noteq> status then
                 log_audit (CASBackendStatusChanged (event_base b) (cb_status b) status
                   (case validationError of None \<Rightarrow> [] | Some m \<Rightarrow> m)
                   (cb_status b = CASBackendValidationFailed \<and> status = CASBackendValidationOK)) db'
               else db')
      | _ \<Rightarrow> db)"

definition PerformValidation :: "backend_env \<Rightarrow> string \<Rightarrow> 'a cp_db_scheme \<Rightarrow> unit res \<times> 'a cp_db_scheme" where
  "PerformValidation be bid db =
     (case be_parse be bid of
        Inl x \<Rightarrow> (Inl (NewErrInvalidUUID x), db)
      | Inr uid \<Rightarrow>
          (case found_backend (backend_FindByID db uid) of
             Inl x \<Rightarrow> (Inl x, db)
           | Inr b \<Rightarrow>
               if cb_inline b then (Inr (), db)
               else
                 (case be_providers be (cb_provider b) of
                    None \<Rightarrow> (Inl (Errorf ''CAS backend provider not found: %s'' [cb_provider b]), db)
                  | Some validate \<Rightarrow>
                      (let (status, validationError) = check_credentials be validate b in
                       (Inr (), record_validation uid status validationError db)))))"

section \<open>Updating and deleting\<close>

definition check_update_backend ::
  "cas_backend \<Rightarrow> bool option \<Rightarrow> bool option \<Rightarrow> int option \<Rightarrow> unit res" where
  "check_update_backend b defaultB fallbackB maxBytes =
     (if defaultB = Some True \<and> fallbackB = Some True then
        Inl (NewErrValidationStr ''a backend cannot be both default and fallback'')
      else if maxBytes \<noteq> None \<and> cb_inline b then
        Inl (NewErrValidationStr ''inline backends cannot have their max_bytes updated'')
      else if cb_managed b then Inl (NewErrValidationStr ''managed CAS backends cannot be modified'')
      else case maxBytes of
        Some m \<Rightarrow> if m < MinCASBackendMaxBytes then Inl (NewErrValidationStr ''max_bytes must be at least 10M'') else Inr ()
      | None \<Rightarrow> Inr ())"

text \<open>New credentials, when there are some: the name of their secret.\<close>

definition rotate_credentials :: "backend_env \<Rightarrow> string \<Rightarrow> cas_backend \<Rightarrow> string option \<Rightarrow> string res" where
  "rotate_credentials be orgID b creds =
     (case creds of
        None \<Rightarrow> Inr []
      | Some c \<Rightarrow> map_err (Wrapf ''storing the credentials: %w'' [])
          (be_save be orgID c (if cb_secret b \<noteq> [] then Some (cb_secret b) else None)))"

text \<open>After an update of the credentials the backend is validated, whatever comes of it, and read again.\<close>

definition revalidate ::
  "backend_env \<Rightarrow> string \<Rightarrow> uuid \<Rightarrow> uuid \<Rightarrow> bool \<Rightarrow> cas_backend option \<Rightarrow> 'a cp_db_scheme \<Rightarrow> cas_backend option res \<times> 'a cp_db_scheme" where
  "revalidate be bid oid uid updated after db =
     (if \<not> updated then (Inr after, db)
      else let db' = snd (PerformValidation be bid db) in
        (map_err (Wrapf ''reloading backend after validation: %w'' []) (backend_FindByIDInOrg db' oid uid), db'))"

definition finish_update ::
  "backend_env \<Rightarrow> string \<Rightarrow> string option \<Rightarrow> bool \<Rightarrow> cas_backend \<Rightarrow> cas_backend option \<Rightarrow> 'a cp_db_scheme \<Rightarrow>
     cas_backend res \<times> 'a cp_db_scheme" where
  "finish_update be orgID description updated b after db =
     (case after of
        None \<Rightarrow> (Inl (go_panic ''nil pointer dereference''), db)
      | Some a \<Rightarrow>
          (let (r, db') = (if cb_default b \<and> \<not> cb_default a then promoteNextAvailableBackend be orgID (Some (cb_id a)) db
                           else (Inr None, db))
           in case r of
                Inl x \<Rightarrow> (Inl (Wrapf ''promoting next available backend to default: %w'' [] x), db')
              | Inr _ \<Rightarrow> (Inr a, log_audit (CASBackendUpdated (event_base a) description updated (cb_default b)) db')))"

definition update_of :: "uuid \<Rightarrow> uuid \<Rightarrow> cas_backend \<Rightarrow> string option \<Rightarrow> string \<Rightarrow> bool \<Rightarrow> bool option \<Rightarrow> bool option \<Rightarrow> int option \<Rightarrow> update_backend_opts" where
  "update_of uid oid b description secretName updated defaultB fallbackB maxBytes =
     \<lparr>ub_id = uid, ub_org = oid, ub_description = description, ub_secret = secretName, ub_default = defaultB,
      ub_fallback = fallbackB, ub_status = (if updated then None else Some (cb_status b)),
      ub_error = (if updated \<or> cb_error b = [] then None else Some (cb_error b)), ub_max_bytes = maxBytes\<rparr>"

definition update_backend ::
  "backend_env \<Rightarrow> string \<Rightarrow> string \<Rightarrow> string option \<Rightarrow> string option \<Rightarrow> bool option \<Rightarrow> bool option \<Rightarrow> int option \<Rightarrow>
     'a cp_db_scheme \<Rightarrow> cas_backend res \<times> 'a cp_db_scheme" where
  "update_backend be orgID bid description creds defaultB fallbackB maxBytes db =
     (case bind_res (map_err NewErrInvalidUUID (be_parse be orgID)) (\<lambda>oid.
           bind_res (map_err NewErrInvalidUUID (be_parse be bid)) (\<lambda>uid.
           bind_res (found_backend (backend_FindByIDInOrg db oid uid)) (\<lambda>b.
           bind_res (check_update_backend b defaultB fallbackB maxBytes) (\<lambda>_.
           bind_res (rotate_credentials be orgID b creds) (\<lambda>secretName. Inr (oid, uid, b, secretName)))))) of
        Inl x \<Rightarrow> (Inl x, db)
      | Inr (oid, uid, b, secretName) \<Rightarrow>
          (case repo_update_backend (update_of uid oid b description secretName (creds \<noteq> None) defaultB fallbackB maxBytes) db of
             (Inl x, db1) \<Rightarrow> (Inl x, db1)
           | (Inr after, db1) \<Rightarrow>
               (case revalidate be bid oid uid (creds \<noteq> None) after db1 of
                  (Inl x, db2) \<Rightarrow> (Inl x, db2)
                | (Inr after, db2) \<Rightarrow> finish_update be orgID description (creds \<noteq> None) b after db2)))"

definition SoftDelete :: "backend_env \<Rightarrow> string \<Rightarrow> string \<Rightarrow> 'a cp_db_scheme \<Rightarrow> unit res \<times> 'a cp_db_scheme" where
  "SoftDelete be orgID bid db =
     (case bind_res (map_err NewErrInvalidUUID (be_parse be orgID)) (\<lambda>oid.
           bind_res (map_err NewErrInvalidUUID (be_parse be bid)) (\<lambda>uid.
           bind_res (found_backend (backend_FindByIDInOrg db oid uid)) (\<lambda>b.
           if cb_inline b then Inl (NewErrValidationStr ''cannot delete the inline CAS backend'')
           else if cb_managed b then Inl (NewErrValidationStr ''cannot delete a managed CAS backend'')
           else Inr (uid, b)))) of
        Inl x \<Rightarrow> (Inl x, db)
      | Inr (uid, b) \<Rightarrow>
          (case repo_SoftDelete uid db of
             (Inl x, db1) \<Rightarrow> (Inl x, db1)
           | (Inr _, db1) \<Rightarrow>
               (let (r, db2) = (if cb_default b then promoteNextAvailableBackend be orgID None db1 else (Inr None, db1))
                in case r of
                     Inl x \<Rightarrow> (Inl (Wrapf ''promoting next available backend to default: %w'' [] x), db2)
                   | Inr _ \<Rightarrow> (Inr (), log_audit (CASBackendDeleted (event_base b)) db2))))"

text \<open>An error of the secrets manager is only logged.\<close>

definition delete_backend :: "backend_env \<Rightarrow> string \<Rightarrow> 'a cp_db_scheme \<Rightarrow> unit res \<times> 'a cp_db_scheme" where
  "delete_backend be bid db =
     (case bind_res (map_err NewErrInvalidUUID (be_parse be bid)) (\<lambda>uid. found_backend (backend_FindByID db uid)) of
        Inl x \<Rightarrow> (Inl x, db)
      | Inr b \<Rightarrow>
          (case repo_delete_backend (cb_id b) db of
             (Inl x, db') \<Rightarrow> (Inl x, db')
           | (Inr _, db') \<Rightarrow> (Inr (), log_audit (CASBackendPermanentDeleted (event_base b)) db')))"

section \<open>Invariant\<close>

text \<open>Identifiers are unique, and an organization has one live default and one live fallback backend at most, not the same.\<close>

definition flag_unique :: "(cas_backend \<Rightarrow> bool) \<Rightarrow> cas_backend list \<Rightarrow> bool" where
  "flag_unique flag bs \<longleftrightarrow> (\<forall>b\<in>set bs. \<forall>c\<in>set bs. flag b \<and> flag c \<and> \<not> cb_deleted b \<and> \<not> cb_deleted c \<and> cb_org b = cb_org c \<longrightarrow>
     cb_id b = cb_id c)"

definition backends_ok :: "'a cp_db_scheme \<Rightarrow> bool" where
  "backends_ok db \<longleftrightarrow> inj (db_ids db) \<and> ids_ok cb_id (db_backends db) db \<and> flag_unique cb_default (db_backends db) \<and>
     flag_unique cb_fallback (db_backends db) \<and> list_all (\<lambda>b. \<not> (cb_default b \<and> cb_fallback b)) (db_backends db)"

lemma flag_uniqueD:
  "flag_unique flag bs \<Longrightarrow> b \<in> set bs \<Longrightarrow> c \<in> set bs \<Longrightarrow> flag b \<Longrightarrow> flag c \<Longrightarrow> \<not> cb_deleted b \<Longrightarrow> \<not> cb_deleted c \<Longrightarrow>
     cb_org b = cb_org c \<Longrightarrow> cb_id b = cb_id c"
  unfolding flag_unique_def by blast

text \<open>A change of rows in which at most one row gains the flag, and where it does no other live one of its organization has it.\<close>

lemma flag_unique_map:
  assumes uniq: "flag_unique flag bs"
    and keep: "\<And>b. cb_id (h b) = cb_id b \<and> cb_org (h b) = cb_org b \<and> (cb_deleted b \<longrightarrow> cb_deleted (h b))"
    and gain: "\<And>b. b \<in> set bs \<Longrightarrow> flag (h b) \<Longrightarrow> flag b \<or> cb_id b = i"
    and alone: "\<And>b c. b \<in> set bs \<Longrightarrow> c \<in> set bs \<Longrightarrow> cb_id b = i \<Longrightarrow> flag (h b) \<Longrightarrow> \<not> flag b \<Longrightarrow> cb_org c = cb_org b \<Longrightarrow> cb_id c \<noteq> i \<Longrightarrow>
      \<not> cb_deleted (h c) \<Longrightarrow> \<not> flag (h c)"
  shows "flag_unique flag (map h bs)"
  unfolding flag_unique_def
proof (intro ballI impI)
  fix x y
  assume "x \<in> set (map h bs)" "y \<in> set (map h bs)" and *: "flag x \<and> flag y \<and> \<not> cb_deleted x \<and> \<not> cb_deleted y \<and> cb_org x = cb_org y"
  then obtain b c where b: "b \<in> set bs" "x = h b" and c: "c \<in> set bs" "y = h c" by auto
  have live: "\<not> cb_deleted b" "\<not> cb_deleted c" "cb_org b = cb_org c" using * b(2) c(2) keep by auto
  have "cb_id b = cb_id c"
  proof (rule ccontr)
    assume ne: "cb_id b \<noteq> cb_id c"
    then have "\<not> (flag b \<and> flag c)" using flag_uniqueD [OF uniq b(1) c(1)] live by blast
    then consider "\<not> flag b" "cb_id b = i" | "\<not> flag c" "cb_id c = i" using gain b c * by blast
    then show False
    proof cases
      case 1
      then show False using alone [OF b(1) c(1)] live(3) ne * b(2) c(2) by simp
    next
      case 2
      then show False using alone [OF c(1) b(1)] live(3) ne * b(2) c(2) by simp
    qed
  qed
  then show "cb_id x = cb_id y" using b c keep by simp
qed

lemma flag_unique_append:
  assumes "flag_unique flag bs" and "flag b \<Longrightarrow> \<forall>c\<in>set bs. cb_org c = cb_org b \<longrightarrow> \<not> flag c"
  shows "flag_unique flag (bs @ [b])"
  unfolding flag_unique_def
proof (intro ballI impI)
  fix x y
  assume "x \<in> set (bs @ [b])" "y \<in> set (bs @ [b])" and *: "flag x \<and> flag y \<and> \<not> cb_deleted x \<and> \<not> cb_deleted y \<and> cb_org x = cb_org y"
  then consider "x \<in> set bs" "y \<in> set bs" | "x = b" "y = b" | "x = b" "y \<in> set bs" | "x \<in> set bs" "y = b" by auto
  then show "cb_id x = cb_id y"
  proof cases
    case 1
    then show ?thesis using flag_uniqueD [OF assms(1)] * by blast
  next
    case 3
    then show ?thesis using assms(2) * by metis
  next
    case 4
    then show ?thesis using assms(2) * by metis
  qed simp
qed

lemma only_by_id:
  assumes "distinct (map cb_id bs)" and "b \<in> set bs" and "P b" and "\<And>c. c \<in> set bs \<Longrightarrow> P c \<Longrightarrow> cb_id c = cb_id b"
  shows "only P bs = Inr (Some b)"
proof (rule only_unique [where P = P, OF assms(2,3)])
  have inj: "inj_on cb_id (set bs)" and "distinct bs" using assms(1) by (simp_all add: distinct_map)
  show "distinct bs" by fact
  show "c = b" if "c \<in> set bs" "P c" for c
    using inj_onD [OF inj assms(4) [OF that] that(1) assms(2)] .
qed

lemma org_backend_found:
  assumes ok: "backends_ok db" and b: "b \<in> set (db_backends db)" "\<not> cb_deleted b" "org_live db (cb_org b)" "flag b"
    and uniq: "flag_unique flag (db_backends db)"
  shows "org_backend flag db (cb_org b) = Inr (Some b)"
  unfolding org_backend_def
proof (rule only_by_id [OF _ b(1)])
  show "distinct (map cb_id (db_backends db))" using ok by (simp add: backends_ok_def ids_ok_def)
  show "org_live db (cb_org b) \<and> cb_org b = cb_org b \<and> \<not> cb_deleted b \<and> flag b" using b by simp
  show "cb_id c = cb_id b" if "c \<in> set (db_backends db)" "org_live db (cb_org b) \<and> cb_org c = cb_org b \<and> \<not> cb_deleted c \<and> flag c" for c
    using flag_uniqueD [OF uniq that(1) b(1)] that(2) b by blast
qed

lemma org_backend_total:
  assumes ok: "backends_ok db" and "flag_unique flag (db_backends db)"
  obtains (none) "org_backend flag db oid = Inr None" | (some) b where "org_backend flag db oid = Inr (Some b)" "b \<in> set (db_backends db)"
    "\<not> cb_deleted b" "org_live db oid" "cb_org b = oid" "flag b"
proof (cases "\<exists>b\<in>set (db_backends db). org_live db oid \<and> cb_org b = oid \<and> \<not> cb_deleted b \<and> flag b")
  case True
  then obtain b where b: "b \<in> set (db_backends db)" "org_live db oid" "cb_org b = oid" "\<not> cb_deleted b" "flag b" by blast
  then have "org_backend flag db oid = Inr (Some b)" using org_backend_found [OF ok b(1) b(4) _ b(5) assms(2)] by blast
  then show ?thesis using b some by blast
next
  case False
  then have "org_backend flag db oid = Inr None" unfolding org_backend_def only_None by blast
  then show ?thesis by (rule none)
qed

section \<open>What the operations keep\<close>

definition cleared :: "update_backend_opts \<Rightarrow> cas_backend \<Rightarrow> cas_backend" where
  "cleared opts b =
     (let b = (if ub_default opts = Some True \<and> cb_org b = ub_org opts \<and> cb_default b then b\<lparr>cb_default := False\<rparr> else b)
      in if ub_fallback opts = Some True \<and> cb_org b = ub_org opts \<and> cb_fallback b then b\<lparr>cb_fallback := False\<rparr> else b)"

definition updated_row :: "update_backend_opts \<Rightarrow> cas_backend \<Rightarrow> cas_backend" where
  "updated_row opts b = (let b = cleared opts b in if cb_id b = ub_id opts then apply_update opts b else b)"

lemma updated_rows:
  "update_row cb_id (ub_id opts) (apply_update opts)
     (clear_fallback (ub_org opts) (ub_fallback opts) (clear_default (ub_org opts) (ub_default opts) bs)) = map (updated_row opts) bs"
  by (auto simp: update_row_def clear_fallback_def clear_default_def updated_row_def cleared_def Let_def)

lemma cleared_keeps [simp]:
  "cb_id (cleared opts b) = cb_id b" "cb_org (cleared opts b) = cb_org b" "cb_deleted (cleared opts b) = cb_deleted b"
  "cb_default (cleared opts b) = (cb_default b \<and> \<not> (ub_default opts = Some True \<and> cb_org b = ub_org opts))"
  "cb_fallback (cleared opts b) = (cb_fallback b \<and> \<not> (ub_fallback opts = Some True \<and> cb_org b = ub_org opts))"
  by (auto simp: cleared_def Let_def)

lemma apply_update_keeps [simp]:
  "cb_id (apply_update opts b) = cb_id b" "cb_org (apply_update opts b) = cb_org b" "cb_deleted (apply_update opts b) = cb_deleted b"
  by (auto simp: apply_update_def Let_def split: option.splits)

lemma apply_update_flags:
  "cb_default (apply_update opts b) =
     (ub_fallback opts \<noteq> Some True \<and> (case ub_default opts of None \<Rightarrow> cb_default b | Some v \<Rightarrow> v))"
  "cb_fallback (apply_update opts b) =
     (case ub_fallback opts of Some v \<Rightarrow> v | None \<Rightarrow> ub_default opts \<noteq> Some True \<and> cb_fallback b)"
  by (auto simp: apply_update_def Let_def split: option.splits)

lemma updated_row_keeps [simp]:
  "cb_id (updated_row opts b) = cb_id b" "cb_org (updated_row opts b) = cb_org b" "cb_deleted (updated_row opts b) = cb_deleted b"
  by (simp_all add: updated_row_def Let_def)

lemma updated_row_flags:
  "cb_default (updated_row opts b) =
     (if cb_id b = ub_id opts then ub_fallback opts \<noteq> Some True \<and> (case ub_default opts of None \<Rightarrow> cb_default b | Some v \<Rightarrow> v)
      else cb_default b \<and> \<not> (ub_default opts = Some True \<and> cb_org b = ub_org opts))"
  "cb_fallback (updated_row opts b) =
     (if cb_id b = ub_id opts then (case ub_fallback opts of Some v \<Rightarrow> v | None \<Rightarrow> ub_default opts \<noteq> Some True \<and> cb_fallback b)
      else cb_fallback b \<and> \<not> (ub_fallback opts = Some True \<and> cb_org b = ub_org opts))"
  by (auto simp: updated_row_def Let_def apply_update_flags split: option.splits)

text \<open>An update is sound when it names the organization of the backend, or promotes where there is no live default.\<close>

definition update_sound :: "update_backend_opts \<Rightarrow> cas_backend list \<Rightarrow> bool" where
  "update_sound opts bs \<longleftrightarrow> (\<forall>b\<in>set bs. cb_id b = ub_id opts \<longrightarrow> cb_org b = ub_org opts \<or>
     ub_fallback opts \<noteq> Some True \<and> (\<forall>c\<in>set bs. cb_org c = cb_org b \<and> \<not> cb_deleted c \<longrightarrow> \<not> cb_default c))"

lemma updated_rows_ok:
  assumes ok: "backends_ok db" and sound: "update_sound opts (db_backends db)"
  shows "backends_ok (db\<lparr>db_backends := map (updated_row opts) (db_backends db)\<rparr>)"
proof -
  let ?bs = "db_backends db"
  have ids: "map cb_id (map (updated_row opts) ?bs) = map cb_id ?bs" by simp
  then have "cb_id ` set (map (updated_row opts) ?bs) = cb_id ` set ?bs" by (metis list.set_map)
  then have "ids_ok cb_id (map (updated_row opts) ?bs) (db\<lparr>db_backends := map (updated_row opts) ?bs\<rparr>)"
    using ok ids by (simp add: backends_ok_def ids_ok_def del: map_map)
  moreover have "flag_unique cb_default (map (updated_row opts) ?bs)"
    using ok sound unfolding backends_ok_def update_sound_def
    by (intro flag_unique_map [of _ _ _ "ub_id opts"]) (auto simp: updated_row_flags split: option.splits if_splits)
  moreover have "flag_unique cb_fallback (map (updated_row opts) ?bs)"
    using ok sound unfolding backends_ok_def update_sound_def
    by (intro flag_unique_map [of _ _ _ "ub_id opts"]) (auto simp: updated_row_flags split: option.splits if_splits)
  moreover have "list_all (\<lambda>b. \<not> (cb_default b \<and> cb_fallback b)) (map (updated_row opts) ?bs)"
    using ok by (auto simp: backends_ok_def list_all_iff updated_row_flags split: option.splits)
  ultimately show ?thesis using ok by (simp add: backends_ok_def)
qed

lemma repo_update_cases:
  assumes "repo_update_backend opts db = (r, db')"
  obtains (missing) x where "r = Inl x" "db' = db" "ub_id opts \<notin> cb_id ` set (db_backends db)"
  | (updated) "db' = db\<lparr>db_backends := map (updated_row opts) (db_backends db)\<rparr>" "r = backend_FindByID db' (ub_id opts)"
      "ub_id opts \<in> cb_id ` set (db_backends db)"
  using assms by (auto simp: repo_update_backend_def WithTx_def updated_rows Let_def split: if_splits)

lemma backend_by_id:
  assumes "backends_ok db" and "b \<in> set (db_backends db)" and "\<not> cb_deleted b"
  shows "backend_FindByID db (cb_id b) = Inr (Some b)"
  unfolding backend_FindByID_def
  by (rule only_by_id [OF _ assms(2)]) (use assms in \<open>simp_all add: backends_ok_def ids_ok_def\<close>)

lemma rows_with_ok:
  assumes ok: "backends_ok db" and f: "\<And>b. cb_id (f b) = cb_id b \<and> cb_org (f b) = cb_org b \<and> (cb_deleted b \<longrightarrow> cb_deleted (f b)) \<and>
      cb_default (f b) = cb_default b \<and> cb_fallback (f b) = cb_fallback b"
  shows "backends_ok (db\<lparr>db_backends := update_row cb_id i f (db_backends db)\<rparr>)"
proof -
  let ?h = "\<lambda>b. if cb_id b = i then f b else b" and ?bs = "db_backends db"
  have h: "cb_id (?h b) = cb_id b \<and> cb_org (?h b) = cb_org b \<and> (cb_deleted b \<longrightarrow> cb_deleted (?h b))" "cb_default (?h b) = cb_default b"
    "cb_fallback (?h b) = cb_fallback b" for b using f by auto
  have ids: "map cb_id (map ?h ?bs) = map cb_id ?bs" using h(1) by simp
  then have "cb_id ` set (map ?h ?bs) = cb_id ` set ?bs" by (metis list.set_map)
  then have "ids_ok cb_id (map ?h ?bs) (db\<lparr>db_backends := map ?h ?bs\<rparr>)"
    using ok ids by (simp add: backends_ok_def ids_ok_def del: map_map)
  moreover have "flag_unique cb_default (map ?h ?bs)" "flag_unique cb_fallback (map ?h ?bs)"
    using ok h unfolding backends_ok_def by (intro flag_unique_map [of _ _ _ i]; blast)+
  moreover have "list_all (\<lambda>b. \<not> (cb_default b \<and> cb_fallback b)) (map ?h ?bs)"
    using ok f by (auto simp: backends_ok_def list_all_iff)
  ultimately show ?thesis using ok by (simp add: backends_ok_def update_row_def)
qed

lemma update_one_ok:
  assumes "backends_ok db" and "update_one_backend bid f db = (r, db')"
    and "\<And>b. cb_id (f b) = cb_id b \<and> cb_org (f b) = cb_org b \<and> (cb_deleted b \<longrightarrow> cb_deleted (f b)) \<and>
      cb_default (f b) = cb_default b \<and> cb_fallback (f b) = cb_fallback b"
  shows "backends_ok db'"
  using assms(2) rows_with_ok [OF assms(1,3)] assms(1) by (auto simp: update_one_backend_def split: if_splits)

lemma log_audit_ok [simp]: "backends_ok (log_audit ev db) = backends_ok db"
  by (simp add: backends_ok_def ids_ok_def log_audit_def)

lemma repo_create_ok:
  assumes ok: "backends_ok db" and cr: "repo_create_backend now opts db = (r, db')"
  shows "backends_ok db'"
  using cr unfolding repo_create_backend_def
proof (cases rule: WithTx_cases)
  case (committed b)
  define cl where "cl = (\<lambda>b::cas_backend. let b = (if nb_default opts = Some True \<and> cb_org b = nb_org opts \<and> cb_default b then b\<lparr>cb_default := False\<rparr> else b)
    in if nb_fallback opts = Some True \<and> cb_org b = nb_org opts \<and> cb_fallback b then b\<lparr>cb_fallback := False\<rparr> else b)"
  let ?bs = "map cl (db_backends db)"
  have cl: "cb_id (cl b) = cb_id b \<and> cb_org (cl b) = cb_org b \<and> cb_deleted (cl b) = cb_deleted b"
    "cb_default (cl b) = (cb_default b \<and> \<not> (nb_default opts = Some True \<and> cb_org b = nb_org opts))"
    "cb_fallback (cl b) = (cb_fallback b \<and> \<not> (nb_fallback opts = Some True \<and> cb_org b = nb_org opts))" for b
    by (auto simp: cl_def Let_def)
  have "clear_fallback (nb_org opts) (nb_fallback opts) (clear_default (nb_org opts) (nb_default opts) (db_backends db)) = ?bs"
    by (auto simp: clear_fallback_def clear_default_def cl_def Let_def)
  then have new: "\<not> (nb_default opts = Some True \<and> nb_fallback opts = Some True)" and
    b: "b = backend_of_opts (db_ids db (db_ids_drawn db)) now opts" and
    db': "db' = db\<lparr>db_ids_drawn := Suc (db_ids_drawn db), db_backends := ?bs @ [b]\<rparr>"
    using committed(2) by (auto simp: draw_id_def Let_def split: if_splits)
  have flags: "cb_default b = (nb_default opts = Some True)" "cb_fallback b = (nb_fallback opts = Some True)" "cb_org b = nb_org opts"
    "cb_id b = db_ids db (db_ids_drawn db)" by (simp_all add: b backend_of_opts_def)
  have "flag_unique cb_default ?bs" "flag_unique cb_fallback ?bs"
    using ok cl unfolding backends_ok_def by (intro flag_unique_map [of _ _ _ "[]"]; blast)+
  then have "flag_unique cb_default (?bs @ [b])" "flag_unique cb_fallback (?bs @ [b])"
    using cl flags by (intro flag_unique_append; simp)+
  moreover have "ids_ok cb_id (?bs @ [b]) db'"
  proof -
    have ids: "ids_ok cb_id (db_backends db) db" and "inj (db_ids db)" using ok by (auto simp: backends_ok_def)
    have "map cb_id ?bs = map cb_id (db_backends db)" using cl by simp
    moreover from this have "cb_id ` set ?bs = cb_id ` set (db_backends db)" by (metis list.set_map)
    ultimately show ?thesis using ids draw_fresh [OF \<open>inj (db_ids db)\<close> ids] flags(4)
      by (auto simp: ids_ok_def db' lessThan_Suc simp del: map_map)
  qed
  moreover have "list_all (\<lambda>b. \<not> (cb_default b \<and> cb_fallback b)) (?bs @ [b])"
    using ok cl flags new by (auto simp: backends_ok_def list_all_iff)
  ultimately show ?thesis using ok by (simp add: backends_ok_def db')
qed (use ok in simp)

text \<open>Where an organization has no live default, the promotion gives it one at most.\<close>

definition no_default :: "'a cp_db_scheme \<Rightarrow> uuid \<Rightarrow> bool" where
  "no_default db oid = list_all (\<lambda>c. cb_org c = oid \<and> \<not> cb_deleted c \<longrightarrow> \<not> cb_default c) (db_backends db)"

lemma first_candidate_Some:
  "first_candidate excludeID fs = Inr (Some c) \<Longrightarrow> Inr (Some c) \<in> set fs \<and> excludeID \<noteq> Some (cb_id c)"
proof (induction fs)
  case (Cons f fs)
  then show ?case
  proof (cases f)
    case (Inr b)
    then show ?thesis using Cons by (cases b; cases "excludeID = map_option cb_id b") (simp_all split: if_splits)
  qed simp
qed simp

lemma candidate_row:
  assumes "findPromotionCandidate db oid excludeID = Inr (Some c)"
  shows "c \<in> set (db_backends db) \<and> cb_org c = oid \<and> \<not> cb_deleted c \<and> org_live db oid \<and> excludeID \<noteq> Some (cb_id c)"
proof -
  have row: "c \<in> set (db_backends db) \<and> cb_org c = oid \<and> \<not> cb_deleted c \<and> org_live db oid" if "org_backend P db oid = Inr (Some c)" for P
    using only_Some [OF that [unfolded org_backend_def]] by simp
  have "\<exists>P. org_backend P db oid = Inr (Some c)" and "excludeID \<noteq> Some (cb_id c)"
    using first_candidate_Some [OF assms [unfolded findPromotionCandidate_def]]
    unfolding repo_FindFallbackBackend_def repo_FindManagedBackend_def repo_FindInlineBackend_def by (simp_all, metis)
  then show ?thesis using row by blast
qed

lemma promote_backend_ok:
  assumes ok: "backends_ok db" and oid: "be_parse be orgID = Inr oid" and none: "no_default db oid"
    and run: "promoteNextAvailableBackend be orgID excludeID db = (r, db')"
  shows "backends_ok db' \<and>
    (\<forall>c. findPromotionCandidate db oid excludeID = Inr (Some c) \<longrightarrow>
       r = Inr (Some (updated_row (promotion_update (cb_id c)) c)) \<and>
       db' = db\<lparr>db_backends := map (updated_row (promotion_update (cb_id c))) (db_backends db)\<rparr>)"
proof (cases "\<exists>c. findPromotionCandidate db oid excludeID = Inr (Some c)")
  case False
  then have "db' = db" using run oid
    by (auto simp: promoteNextAvailableBackend_def split: sum.splits option.splits)
  then show ?thesis using ok False by simp
next
  case True
  then obtain c where c: "findPromotionCandidate db oid excludeID = Inr (Some c)" by blast
  note row = candidate_row [OF c]
  have up: "repo_update_backend (promotion_update (cb_id c)) db = (r, db')"
    using run oid c by (simp add: promoteNextAvailableBackend_def)
  have "update_sound (promotion_update (cb_id c)) (db_backends db)"
    unfolding update_sound_def
  proof (intro ballI impI)
    fix b assume b: "b \<in> set (db_backends db)" "cb_id b = ub_id (promotion_update (cb_id c))"
    have "inj_on cb_id (set (db_backends db))" using ok by (simp add: backends_ok_def ids_ok_def distinct_map)
    then have "b = c" using b row by (auto simp: promotion_update_def dest: inj_onD)
    then show "cb_org b = ub_org (promotion_update (cb_id c)) \<or> ub_fallback (promotion_update (cb_id c)) \<noteq> Some True \<and>
      (\<forall>c\<in>set (db_backends db). cb_org c = cb_org b \<and> \<not> cb_deleted c \<longrightarrow> \<not> cb_default c)"
      using none row by (simp add: promotion_update_def no_default_def list_all_iff)
  qed
  note ok' = updated_rows_ok [OF ok this]
  from up show ?thesis
  proof (cases rule: repo_update_cases)
    case missing
    then show ?thesis using row by (simp add: promotion_update_def)
  next
    case updated
    have "backend_FindByID db' (cb_id (updated_row (promotion_update (cb_id c)) c)) = Inr (Some (updated_row (promotion_update (cb_id c)) c))"
      using ok' row by (intro backend_by_id) (auto simp: updated(1))
    then show ?thesis using updated ok' c by (auto simp: promotion_update_def)
  qed
qed

text \<open>Validation touches the status and the error of one backend.\<close>

lemma validation_rows:
  obtains "record_validation bid status msg db = db"
  | es where "record_validation bid status msg db = db\<lparr>db_backends := update_row cb_id bid
      (\<lambda>b. b\<lparr>cb_status := status, cb_error := (case msg of None \<Rightarrow> [] | Some m \<Rightarrow> m)\<rparr>) (db_backends db), db_events := db_events db @ es\<rparr>"
proof (cases "\<exists>b. backend_FindByID db bid = Inr (Some b)")
  case False
  then have "record_validation bid status msg db = db" by (auto simp: record_validation_def split: sum.splits option.splits)
  then show ?thesis by (rule that(1))
next
  case True
  then obtain b where b: "backend_FindByID db bid = Inr (Some b)" by blast
  then have "bid \<in> cb_id ` set (db_backends db)" by (auto simp: backend_FindByID_def dest!: only_Some)
  then have "\<exists>es. record_validation bid status msg db = db\<lparr>db_backends := update_row cb_id bid
      (\<lambda>b. b\<lparr>cb_status := status, cb_error := (case msg of None \<Rightarrow> [] | Some m \<Rightarrow> m)\<rparr>) (db_backends db), db_events := db_events db @ es\<rparr>"
    using b by (auto simp: record_validation_def UpdateValidationStatus_def update_one_backend_def log_audit_def intro: exI [of _ "[]"])
  then show ?thesis using that(2) by blast
qed

lemma validation_keeps:
  assumes "PerformValidation be bid db = (r, db')"
  shows "(backends_ok db \<longrightarrow> backends_ok db') \<and> (no_default db oid \<longrightarrow> no_default db' oid) \<and>
    map (\<lambda>b. (cb_id b, cb_default b)) (db_backends db') = map (\<lambda>b. (cb_id b, cb_default b)) (db_backends db)"
proof -
  consider "db' = db" | uid status msg where "db' = record_validation uid status msg db"
    using assms by (auto simp: PerformValidation_def split: sum.splits option.splits if_splits prod.splits)
  then show ?thesis
  proof cases
    case 2
    show ?thesis
    proof (rule validation_rows [of uid status msg db])
      fix es
      let ?f = "\<lambda>b::cas_backend. b\<lparr>cb_status := status, cb_error := (case msg of None \<Rightarrow> [] | Some m \<Rightarrow> m)\<rparr>"
      assume rv: "record_validation uid status msg db =
        db\<lparr>db_backends := update_row cb_id uid ?f (db_backends db), db_events := db_events db @ es\<rparr>"
      have "backends_ok db \<Longrightarrow> backends_ok (db\<lparr>db_backends := update_row cb_id uid ?f (db_backends db)\<rparr>)"
        by (rule rows_with_ok) simp_all
      then have "backends_ok db \<longrightarrow> backends_ok db'" using rv 2 by (simp add: backends_ok_def ids_ok_def)
      moreover have "no_default db oid \<longrightarrow> no_default db' oid" using rv 2 by (auto simp: no_default_def list_all_iff update_row_set)
      moreover have "map (\<lambda>b. (cb_id b, cb_default b)) (db_backends db') = map (\<lambda>b. (cb_id b, cb_default b)) (db_backends db)"
        using rv 2 by (simp add: map_update_row)
      ultimately show ?thesis by simp
    qed (use 2 in simp)
  qed simp
qed

lemma found_in_org:
  assumes "found_backend (backend_FindByIDInOrg db oid uid) = Inr b"
  shows "b \<in> set (db_backends db) \<and> cb_id b = uid \<and> cb_org b = oid \<and> \<not> cb_deleted b \<and> org_live db oid"
  using assms only_Some
  by (fastforce simp: found_backend_def backend_FindByIDInOrg_def org_backend_def bind_res_eq_Inr split: option.splits)

text \<open>After the only default of an organization is demoted, there is none.\<close>

lemma demoted_none:
  assumes ok: "backends_ok db" and b: "b \<in> set (db_backends db)" "\<not> cb_deleted b" "cb_default b" "cb_id b = ub_id opts"
    and demoted: "\<not> cb_default (updated_row opts b)"
  shows "no_default (db\<lparr>db_backends := map (updated_row opts) (db_backends db)\<rparr>) (cb_org b)"
  unfolding no_default_def list_all_iff
proof (intro ballI impI)
  fix c' assume "c' \<in> set (db_backends (db\<lparr>db_backends := map (updated_row opts) (db_backends db)\<rparr>))" and live: "cb_org c' = cb_org b \<and> \<not> cb_deleted c'"
  then obtain c where c: "c \<in> set (db_backends db)" "c' = updated_row opts c" by auto
  show "\<not> cb_default c'"
  proof (cases "cb_id c = cb_id b")
    case True
    have "inj_on cb_id (set (db_backends db))" using ok by (simp add: backends_ok_def ids_ok_def distinct_map)
    then have "c = b" using inj_onD True c(1) b(1) by metis
    then show ?thesis using demoted c by simp
  next
    case False
    then have "\<not> cb_default c" using ok flag_uniqueD [of cb_default "db_backends db" c b] b c live by (auto simp: backends_ok_def)
    then show ?thesis using False b(4) c(2) by (simp add: updated_row_flags)
  qed
qed

lemma org_update_sound:
  assumes ok: "backends_ok db" and b: "b \<in> set (db_backends db)" "cb_id b = ub_id opts" "cb_org b = ub_org opts"
  shows "update_sound opts (db_backends db)"
  unfolding update_sound_def
proof (intro ballI impI)
  fix c assume c: "c \<in> set (db_backends db)" "cb_id c = ub_id opts"
  have "inj_on cb_id (set (db_backends db))" using ok by (simp add: backends_ok_def ids_ok_def distinct_map)
  then have "c = b" using inj_onD b c by metis
  then show "cb_org c = ub_org opts \<or> ub_fallback opts \<noteq> Some True \<and>
    (\<forall>d\<in>set (db_backends db). cb_org d = cb_org c \<and> \<not> cb_deleted d \<longrightarrow> \<not> cb_default d)" using b by simp
qed

lemma revalidate_keeps:
  assumes "revalidate be bid oid uid updated after db = (Inr (Some a), db')" and "after = Some a0" and "a0 \<in> set (db_backends db)" "cb_id a0 = uid"
    and "backends_ok db"
  shows "backends_ok db' \<and> cb_id a = uid \<and> cb_default a = cb_default a0 \<and> (no_default db oid \<longrightarrow> no_default db' oid)"
proof (cases updated)
  case False
  then show ?thesis using assms by (simp add: revalidate_def)
next
  case True
  obtain r where pv: "PerformValidation be bid db = (r, db')" and a: "backend_FindByIDInOrg db' oid uid = Inr (Some a)"
    using assms(1) True by (cases "PerformValidation be bid db") (auto simp: revalidate_def Let_def)
  note keeps = validation_keeps [OF pv, of oid]
  have "a \<in> set (db_backends db')" "cb_id a = uid" using only_Some [OF a [unfolded backend_FindByIDInOrg_def org_backend_def]] by auto
  then have "(cb_id a, cb_default a) \<in> set (map (\<lambda>b. (cb_id b, cb_default b)) (db_backends db))" using keeps by (metis (no_types, lifting) image_eqI list.set_map)
  then obtain c where c: "c \<in> set (db_backends db)" "cb_id c = cb_id a" "cb_default c = cb_default a" by auto
  have "inj_on cb_id (set (db_backends db))" using assms(5) by (simp add: backends_ok_def ids_ok_def distinct_map)
  then have "c = a0" using inj_onD c assms(3,4) \<open>cb_id a = uid\<close> by metis
  then show ?thesis using keeps assms(5) c \<open>cb_id a = uid\<close> by simp
qed

lemma finish_update_ok:
  assumes "finish_update be orgID description updated b (Some a) db = (r, db')" and ok: "backends_ok db" and oid: "be_parse be orgID = Inr oid"
    and none: "cb_default b \<Longrightarrow> \<not> cb_default a \<Longrightarrow> no_default db oid"
  shows "backends_ok db'"
proof (cases "cb_default b \<and> \<not> cb_default a")
  case True
  obtain r1 db1 where p: "promoteNextAvailableBackend be orgID (Some (cb_id a)) db = (r1, db1)" by (cases "promoteNextAvailableBackend be orgID (Some (cb_id a)) db")
  have "backends_ok db1" using promote_backend_ok [OF ok oid _ p] none True by blast
  then show ?thesis using assms(1) True p by (auto simp: finish_update_def split: sum.splits)
next
  case False
  then have "db' = log_audit (CASBackendUpdated (event_base a) description updated (cb_default b)) db"
    using assms(1) by (auto simp: finish_update_def)
  then show ?thesis using ok by simp
qed

lemma update_backend_ok:
  assumes ok: "backends_ok db" and up: "update_backend be orgID bid description creds defaultB fallbackB maxBytes db = (r, db')"
  shows "backends_ok db'"
proof -
  consider "db' = db"
    | oid uid b secretName where "be_parse be orgID = Inr oid" "found_backend (backend_FindByIDInOrg db oid uid) = Inr b"
      "(case repo_update_backend (update_of uid oid b description secretName (creds \<noteq> None) defaultB fallbackB maxBytes) db of
          (Inl x, db1) \<Rightarrow> (Inl x, db1)
        | (Inr after, db1) \<Rightarrow>
            (case revalidate be bid oid uid (creds \<noteq> None) after db1 of
               (Inl x, db2) \<Rightarrow> (Inl x, db2)
             | (Inr after, db2) \<Rightarrow> finish_update be orgID description (creds \<noteq> None) b after db2)) = (r, db')"
    using up unfolding update_backend_def
    by (cases "be_parse be orgID"; cases "be_parse be bid") (auto simp: bind_res_def split: sum.splits prod.splits)
  then show ?thesis
  proof cases
    case 2
    define opts where "opts = update_of uid oid b description secretName (creds \<noteq> None) defaultB fallbackB maxBytes"
    have b: "b \<in> set (db_backends db)" "cb_id b = uid" "cb_org b = oid" "\<not> cb_deleted b" using found_in_org [OF 2(2)] by auto
    have opts: "ub_id opts = uid" "ub_org opts = oid" by (simp_all add: opts_def update_of_def)
    let ?db1 = "db\<lparr>db_backends := map (updated_row opts) (db_backends db)\<rparr>"
    have ok1: "backends_ok ?db1" by (rule updated_rows_ok [OF ok org_update_sound [OF ok b(1)]]) (use b opts in simp_all)
    have a0: "updated_row opts b \<in> set (db_backends ?db1)" using b by simp
    have rep: "repo_update_backend opts db = (Inr (Some (updated_row opts b)), ?db1)"
    proof -
      obtain r1 db1 where e: "repo_update_backend opts db = (r1, db1)" by (cases "repo_update_backend opts db")
      then show ?thesis
      proof (cases rule: repo_update_cases)
        case missing
        then show ?thesis using b opts by auto
      next
        case updated
        have "backend_FindByID ?db1 uid = Inr (Some (updated_row opts b))"
          using backend_by_id [OF ok1 a0] b by simp
        then show ?thesis using updated opts e by simp
      qed
    qed
    obtain r2 db2 where rv: "revalidate be bid oid uid (creds \<noteq> None) (Some (updated_row opts b)) ?db1 = (r2, db2)"
      by (cases "revalidate be bid oid uid (creds \<noteq> None) (Some (updated_row opts b)) ?db1")
    have run: "(case r2 of Inl x \<Rightarrow> (Inl x, db2) | Inr after \<Rightarrow> finish_update be orgID description (creds \<noteq> None) b after db2) = (r, db')"
      using 2(3) rep rv by (simp add: opts_def split: sum.splits)
    have ok2: "backends_ok db2"
      using rv ok1 validation_keeps [of be bid ?db1] by (cases "PerformValidation be bid ?db1") (auto simp: revalidate_def Let_def split: if_splits)
    show ?thesis
    proof (cases "\<exists>a. r2 = Inr (Some a)")
      case True
      then obtain a where a: "r2 = Inr (Some a)" by blast
      note k = revalidate_keeps [OF rv [unfolded a] refl a0 _ ok1]
      have "no_default db2 oid" if "cb_default b" "\<not> cb_default a"
        using k demoted_none [OF ok b(1,4), of opts] that b opts by auto
      then show ?thesis using run a ok2 finish_update_ok [OF _ ok2 2(1)] by simp
    next
      case False
      then show ?thesis using run ok2 by (cases r2) (auto simp: finish_update_def split: option.splits)
    qed
  qed (use ok in simp)
qed

lemma soft_deleted:
  assumes ok: "backends_ok db" and b: "b \<in> set (db_backends db)" "\<not> cb_deleted b"
    and del: "repo_SoftDelete (cb_id b) db = (Inr u, db1)"
  shows "backends_ok db1 \<and> (cb_default b \<longrightarrow> no_default db1 (cb_org b)) \<and>
    db1 = db\<lparr>db_backends := update_row cb_id (cb_id b) (\<lambda>b. b\<lparr>cb_deleted := True\<rparr>) (db_backends db)\<rparr>"
proof -
  let ?db1 = "db\<lparr>db_backends := update_row cb_id (cb_id b) (\<lambda>b. b\<lparr>cb_deleted := True\<rparr>) (db_backends db)\<rparr>"
  have db1: "db1 = ?db1" using del by (auto simp: repo_SoftDelete_def update_one_backend_def split: if_splits)
  have "backends_ok ?db1" by (rule rows_with_ok [OF ok]) simp
  moreover have "no_default ?db1 (cb_org b)" if "cb_default b"
    unfolding no_default_def list_all_iff
  proof (intro ballI impI)
    fix c' assume "c' \<in> set (db_backends ?db1)" and live: "cb_org c' = cb_org b \<and> \<not> cb_deleted c'"
    then have c: "c' \<in> set (db_backends db)" "cb_id c' \<noteq> cb_id b" by (auto simp: update_row_set split: if_splits)
    show "\<not> cb_default c'"
      using ok flag_uniqueD [of cb_default "db_backends db" c' b] b c live that by (auto simp: backends_ok_def)
  qed
  ultimately show ?thesis using db1 by simp
qed

lemma SoftDelete_cases:
  assumes "SoftDelete be orgID bid db = (r, db')"
  obtains (refused) x where "r = Inl x" "db' = db"
  | (deleted) oid b u db1 r1 db2 where "be_parse be orgID = Inr oid" "b \<in> set (db_backends db)" "cb_org b = oid" "\<not> cb_deleted b"
      "org_live db oid" "\<not> cb_inline b" "\<not> cb_managed b" "repo_SoftDelete (cb_id b) db = (Inr u, db1)"
      "(if cb_default b then promoteNextAvailableBackend be orgID None db1 else (Inr None, db1)) = (r1, db2)"
      "db' = (case r1 of Inl _ \<Rightarrow> db2 | Inr _ \<Rightarrow> log_audit (CASBackendDeleted (event_base b)) db2)"
      "r = (case r1 of Inl x \<Rightarrow> Inl (Wrapf ''promoting next available backend to default: %w'' [] x) | Inr _ \<Rightarrow> Inr ())"
proof -
  let ?chk = "bind_res (map_err NewErrInvalidUUID (be_parse be orgID)) (\<lambda>oid.
           bind_res (map_err NewErrInvalidUUID (be_parse be bid)) (\<lambda>uid.
           bind_res (found_backend (backend_FindByIDInOrg db oid uid)) (\<lambda>b.
           if cb_inline b then Inl (NewErrValidationStr ''cannot delete the inline CAS backend'')
           else if cb_managed b then Inl (NewErrValidationStr ''cannot delete a managed CAS backend'')
           else Inr (uid, b))))"
  show thesis
  proof (cases ?chk)
    case (Inl x)
    then have "r = Inl x" "db' = db" using assms by (auto simp: SoftDelete_def)
    then show ?thesis by (rule refused)
  next
    case (Inr ub)
    then obtain oid uid b where 1: "be_parse be orgID = Inr oid" "found_backend (backend_FindByIDInOrg db oid uid) = Inr b"
      "\<not> cb_inline b" "\<not> cb_managed b" "ub = (uid, b)"
      by (auto simp: bind_res_eq_Inr split: if_splits)
    note b = found_in_org [OF 1(2)]
    obtain u db1 where del: "repo_SoftDelete (cb_id b) db = (Inr u, db1)"
      using b by (auto simp: repo_SoftDelete_def update_one_backend_def)
    obtain r1 db2 where p: "(if cb_default b then promoteNextAvailableBackend be orgID None db1 else (Inr None, db1)) = (r1, db2)"
      by (cases "if cb_default b then promoteNextAvailableBackend be orgID None db1 else (Inr None, db1)") auto
    show ?thesis
      by (rule deleted [OF 1(1) _ _ _ _ 1(3,4) del p])
        (use b assms Inr 1(5) del p in \<open>auto simp: SoftDelete_def split: sum.splits\<close>)
  qed
qed

lemma SoftDelete_ok:
  assumes ok: "backends_ok db" and del: "SoftDelete be orgID bid db = (r, db')"
  shows "backends_ok db'"
  using del
proof (cases rule: SoftDelete_cases)
  case (deleted oid b u db1 r1 db2)
  note d = soft_deleted [OF ok deleted(2,4,8)]
  have "backends_ok db2"
    using d deleted(9) promote_backend_ok [OF _ deleted(1), of db1] deleted(3) by (auto split: if_splits)
  then show ?thesis using deleted(10) by (auto split: sum.splits)
qed (use ok in simp)

lemma delete_backend_ok:
  assumes ok: "backends_ok db" and del: "delete_backend be bid db = (r, db')"
  shows "backends_ok db'"
proof -
  have sub: "backends_ok (db\<lparr>db_backends := filter (\<lambda>b. cb_id b \<noteq> i) (db_backends db), db_mappings := ms, db_runs := rs, db_events := es\<rparr>)" for i ms rs es
    using ok unfolding backends_ok_def ids_ok_def flag_unique_def
    by (auto simp: distinct_map inj_on_def list_all_iff)
  obtain y where y: "bind_res (map_err NewErrInvalidUUID (be_parse be bid)) (\<lambda>uid. found_backend (backend_FindByID db uid)) = y" by simp
  have "db' = db \<or> (\<exists>i ms rs es. db' = db\<lparr>db_backends := filter (\<lambda>b. cb_id b \<noteq> i) (db_backends db), db_mappings := ms, db_runs := rs, db_events := es\<rparr>)"
    using del y by (cases y) (auto simp: delete_backend_def repo_delete_backend_def log_audit_def split: if_splits)
  then show ?thesis using ok sub by (elim disjE exE) simp_all
qed

inductive backend_step :: "backend_env \<Rightarrow> 'a cp_db_scheme \<Rightarrow> 'a cp_db_scheme \<Rightarrow> bool" for be where
  inline: "CreateInlineBackend be now orgID db = (r, db') \<Longrightarrow> backend_step be db db'"
| create: "create_backend be now orgID name location description provider creds defaultB fallbackB maxBytes db = (r, db') \<Longrightarrow>
    backend_step be db db'"
| update: "update_backend be orgID bid description' creds' defaultB' fallbackB' maxBytes db = (r, db') \<Longrightarrow> backend_step be db db'"
| soft_delete: "SoftDelete be orgID bid db = (u, db') \<Longrightarrow> backend_step be db db'"
| delete: "delete_backend be bid db = (u, db') \<Longrightarrow> backend_step be db db'"
| validate: "PerformValidation be bid db = (u, db') \<Longrightarrow> backend_step be db db'"

lemma backend_step_ok:
  assumes "backend_step be db db'" and ok: "backends_ok db"
  shows "backends_ok db'"
  using assms
proof (cases rule: backend_step.cases)
  case (inline now orgID r)
  then show ?thesis using ok repo_create_ok by (auto simp: CreateInlineBackend_def split: sum.splits)
next
  case (create now orgID name location description provider creds defaultB fallbackB maxBytes r)
  then consider "db' = db" | opts r1 db1 where "repo_create_backend now opts db = (r1, db1)" "backends_ok db1 \<Longrightarrow> backends_ok db'"
    by (auto simp: create_backend_def split: sum.splits prod.splits)
  then show ?thesis using ok repo_create_ok [OF ok] by cases auto
next
  case (validate bid u)
  then show ?thesis using ok validation_keeps by blast
next
  case (update orgID bid description' creds' defaultB' fallbackB' maxBytes r)
  then show ?thesis by (rule update_backend_ok [OF ok])
next
  case (soft_delete orgID bid u)
  then show ?thesis by (rule SoftDelete_ok [OF ok])
next
  case (delete bid u)
  then show ?thesis by (rule delete_backend_ok [OF ok])
qed

interpretation backends: request_invariant "backend_step be" backends_ok
  by unfold_locales (rule backend_step_ok)

section \<open>Properties\<close>

text \<open>
  However backends are created, updated, promoted, validated and deleted by one request after the other, an
  organization has at most one live default backend and one live fallback backend, never the same one, so
  that looking either up never fails for want of a unique answer.
\<close>

theorem one_default_backend:
  assumes "backends_ok db" and "(backend_step be)\<^sup>*\<^sup>* db db'"
  shows "backends_ok db' \<and> (\<exists>d f. repo_FindDefaultBackend db' oid = Inr d \<and> repo_FindFallbackBackend db' oid = Inr f \<and>
    (d = None \<or> d \<noteq> f))"
proof -
  have ok: "backends_ok db'" using backends.steps_kept [OF assms(2,1)] .
  have u: "flag_unique cb_default (db_backends db')" "flag_unique cb_fallback (db_backends db')" using ok by (auto simp: backends_ok_def)
  have d: "repo_FindDefaultBackend db' oid = Inr None \<or> (\<exists>b\<in>set (db_backends db'). repo_FindDefaultBackend db' oid = Inr (Some b) \<and> cb_default b)"
    unfolding repo_FindDefaultBackend_def by (rule org_backend_total [OF ok u(1)]) blast+
  have f: "repo_FindFallbackBackend db' oid = Inr None \<or> (\<exists>b\<in>set (db_backends db'). repo_FindFallbackBackend db' oid = Inr (Some b) \<and> cb_fallback b)"
    unfolding repo_FindFallbackBackend_def by (rule org_backend_total [OF ok u(2)]) blast+
  show ?thesis using ok d f by (auto simp: backends_ok_def list_all_iff)
qed

lemma unique_after_delete:
  assumes "flag_unique flag bs" and "\<And>b. flag (b\<lparr>cb_deleted := True\<rparr>) = flag b"
  shows "flag_unique flag (update_row cb_id i (\<lambda>b. b\<lparr>cb_deleted := True\<rparr>) bs)"
  unfolding update_row_def
  by (rule flag_unique_map [OF assms(1), of _ i]) (use assms(2) in \<open>auto split: if_splits\<close>)

text \<open>
  Deleting a backend leaves an organization that has a default backend and an inline one with a default
  backend: when the default one is deleted, the fallback backend takes its place, otherwise the managed
  one, otherwise the inline one, which cannot be deleted.
\<close>

theorem default_survives_delete:
  assumes ok: "backends_ok db" and uniq: "flag_unique cb_managed (db_backends db)" "flag_unique cb_inline (db_backends db)"
    and oid: "be_parse be orgID = Inr oid" and d: "repo_FindDefaultBackend db oid = Inr (Some d)"
    and c: "repo_FindInlineBackend db oid = Inr (Some c)" and del: "SoftDelete be orgID bid db = (Inr (), db')"
  shows "\<exists>b. repo_FindDefaultBackend db' oid = Inr (Some b) \<and> \<not> cb_deleted b \<and> cb_org b = oid"
  using del
proof (cases rule: SoftDelete_cases)
  case (deleted oid' b u db1 r1 db2)
  have [simp]: "oid' = oid" using deleted(1) oid by simp
  note sd = soft_deleted [OF ok deleted(2,4,8)]
  have drow: "d \<in> set (db_backends db)" "cb_default d" "cb_org d = oid" "\<not> cb_deleted d" "org_live db oid"
    using only_Some [OF d [unfolded repo_FindDefaultBackend_def org_backend_def]] by auto
  have crow: "c \<in> set (db_backends db)" "cb_inline c" "cb_org c = oid" "\<not> cb_deleted c"
    using only_Some [OF c [unfolded repo_FindInlineBackend_def org_backend_def]] by auto
  have ok1: "backends_ok db1" and live1: "org_live db1 oid" using sd drow by (auto simp: org_live_def)
  have kept: "x \<in> set (db_backends db1)" if "x \<in> set (db_backends db)" "cb_id x \<noteq> cb_id b" for x
    using sd that by (auto simp: update_row_set)
  have found: "repo_FindDefaultBackend db' oid = Inr (Some x)"
    if "x \<in> set (db_backends db')" "cb_default x" "cb_org x = oid" "\<not> cb_deleted x" "backends_ok db'" "org_live db' oid" for x
    using org_backend_found [OF that(5,1,4), of cb_default] that by (simp add: repo_FindDefaultBackend_def backends_ok_def)
  have ok': "backends_ok db'" by (rule SoftDelete_ok [OF ok del])
  show ?thesis
  proof (cases "cb_default b")
    case False
    then have db': "db_backends db' = db_backends db1" "db_orgs db' = db_orgs db1" using deleted(9,10) by (auto simp: log_audit_def)
    have "cb_id d \<noteq> cb_id b" using False drow(1,2) deleted(2) ok by (auto simp: backends_ok_def ids_ok_def distinct_map dest: inj_onD)
    then show ?thesis using found [of d] kept [OF drow(1)] drow db' live1 ok' by (auto simp: org_live_def)
  next
    case True
    have p: "promoteNextAvailableBackend be orgID None db1 = (r1, db2)" using deleted(9) True by simp
    have u1: "flag_unique cb_managed (db_backends db1)" "flag_unique cb_inline (db_backends db1)" "flag_unique cb_fallback (db_backends db1)"
      using uniq sd ok1 unique_after_delete [OF uniq(1)] unique_after_delete [OF uniq(2)] by (auto simp: cb_inline_def backends_ok_def)
    have "cb_id c \<noteq> cb_id b" using crow(1,2) deleted(2,6) ok by (auto simp: backends_ok_def ids_ok_def distinct_map dest: inj_onD)
    then have inl: "org_backend cb_inline db1 oid = Inr (Some c)"
      using org_backend_found [OF ok1 kept [OF crow(1)] crow(4), of cb_inline] u1(2) crow live1 by simp
    have "\<exists>x. findPromotionCandidate db1 oid None = Inr (Some x)"
      unfolding findPromotionCandidate_def repo_FindFallbackBackend_def repo_FindManagedBackend_def repo_FindInlineBackend_def inl
      by (rule org_backend_total [OF ok1 u1(3), of oid]; rule org_backend_total [OF ok1 u1(1), of oid]) simp_all
    then obtain x where x: "findPromotionCandidate db1 oid None = Inr (Some x)" by blast
    note row = candidate_row [OF x]
    let ?x = "updated_row (promotion_update (cb_id x)) x"
    have "no_default db1 (cb_org b)" using sd True by blast
    then have "no_default db1 oid" using deleted(3) by simp
    then have db2: "r1 = Inr (Some ?x)" "db2 = db1\<lparr>db_backends := map (updated_row (promotion_update (cb_id x))) (db_backends db1)\<rparr>"
      using promote_backend_ok [OF ok1 oid _ p] x by auto
    have "?x \<in> set (db_backends db')" "org_live db' oid" using row db2 deleted(10) live1 by (auto simp: log_audit_def org_live_def)
    moreover have "cb_default ?x" by (simp add: updated_row_flags promotion_update_def)
    ultimately show ?thesis using found [of ?x] row ok' by auto
  qed
qed simp

text \<open>
  Validating a backend reports no failed check: whatever the credential check says, the operation succeeds for a
  live backend of a known provider; the outcome is stored in its status and error, and an event is logged
  exactly when the status changed. The attestation service expects the failure to be returned.
\<close>

theorem validation_outcome_stored:
  assumes ok: "backends_ok db" and uid: "be_parse be bid = Inr (cb_id b)" and b: "b \<in> set (db_backends db)" "\<not> cb_deleted b" "\<not> cb_inline b"
    and prov: "be_providers be (cb_provider b) = Some validate" and out: "check_credentials be validate b = (status, msg)"
  shows "\<exists>db' es. PerformValidation be bid db = (Inr (), db') \<and>
    backend_FindByID db' (cb_id b) = Inr (Some (b\<lparr>cb_status := status, cb_error := (case msg of None \<Rightarrow> [] | Some m \<Rightarrow> m)\<rparr>)) \<and>
    db_events db' = db_events db @ es \<and> (es = []) = (cb_status b = status)"
proof -
  let ?f = "\<lambda>b::cas_backend. b\<lparr>cb_status := status, cb_error := (case msg of None \<Rightarrow> [] | Some m \<Rightarrow> m)\<rparr>"
  let ?db1 = "db\<lparr>db_backends := update_row cb_id (cb_id b) ?f (db_backends db)\<rparr>"
  have byid: "backend_FindByID db (cb_id b) = Inr (Some b)" by (rule backend_by_id [OF ok b(1,2)])
  have up: "UpdateValidationStatus (cb_id b) status msg db = (Inr (), ?db1)"
    using b(1) by (auto simp: UpdateValidationStatus_def update_one_backend_def)
  define db' where "db' = record_validation (cb_id b) status msg db"
  have run: "PerformValidation be bid db = (Inr (), db')"
    using uid byid b prov out by (simp add: PerformValidation_def found_backend_def db'_def)
  have ok': "backends_ok db'" using validation_keeps [OF run] ok by blast
  have rows: "db_backends db' = db_backends ?db1"
    by (auto simp: db'_def record_validation_def byid up log_audit_def)
  have "?f b \<in> set (db_backends db')" using b(1) by (auto simp: rows update_row_set)
  then have "backend_FindByID db' (cb_id b) = Inr (Some (?f b))" using backend_by_id [OF ok', of "?f b"] b(2) by simp
  moreover have "\<exists>es. db_events db' = db_events db @ es \<and> (es = []) = (cb_status b = status)"
    by (auto simp: db'_def record_validation_def byid up log_audit_def)
  ultimately show ?thesis using run by blast
qed

end
