(* ===== verification/Authz.thy ===== *)
theory Authz
  imports Go_Strings Biz_Errors
begin

text \<open>
  Authorization in the control plane (\<open>app/controlplane/pkg/authz\<close>, \<open>app/controlplane/pkg/biz/authz.go\<close>):
  roles, the policies each of them grants, the policies each operation of the API asks for, the enforcer over
  the casbin library and the middleware in front of every handler. Casbin is a parameter, the record
  \<open>casbin\<close>; what its documentation and the model file say of it is \<open>casbin_laws\<close>.
\<close>

section \<open>Roles and policies\<close>

text \<open>A role is its name, a policy a resource and an action.\<close>

type_synonym authz_policy = "string \<times> string"

definition RoleInstanceAdmin :: string where "RoleInstanceAdmin = ''role:instance:admin''"
definition RoleOwner :: string where "RoleOwner = ''role:org:owner''"
definition RoleAdmin :: string where "RoleAdmin = ''role:org:admin''"
definition RoleViewer :: string where "RoleViewer = ''role:org:viewer''"
definition RoleOrgMember :: string where "RoleOrgMember = ''role:org:member''"
definition RoleOrgContributor :: string where "RoleOrgContributor = ''role:org:contributor''"
definition RoleProjectAdmin :: string where "RoleProjectAdmin = ''role:project:admin''"
definition RoleProjectViewer :: string where "RoleProjectViewer = ''role:project:viewer''"
definition RoleGroupMaintainer :: string where "RoleGroupMaintainer = ''role:group:maintainer''"
definition RoleProductViewer :: string where "RoleProductViewer = ''role:product:viewer''"
definition RoleProductAdmin :: string where "RoleProductAdmin = ''role:product:admin''"

definition PolicyReferrerRead :: authz_policy where "PolicyReferrerRead = (''referrer'', ''read'')"
definition PolicyArtifactDownload :: authz_policy where "PolicyArtifactDownload = (''cas_artifact'', ''read'')"
definition PolicyArtifactUpload :: authz_policy where "PolicyArtifactUpload = (''cas_artifact'', ''create'')"
definition PolicyDefaultBackendArtifactRead :: authz_policy where "PolicyDefaultBackendArtifactRead = (''default_backend'', ''read'')"
definition PolicyCASBackendList :: authz_policy where "PolicyCASBackendList = (''cas_backend'', ''list'')"
definition PolicyCASBackendUpdate :: authz_policy where "PolicyCASBackendUpdate = (''cas_backend'', ''update'')"
definition PolicyCASBackendCreate :: authz_policy where "PolicyCASBackendCreate = (''cas_backend'', ''create'')"
definition PolicyAvailableIntegrationList :: authz_policy where "PolicyAvailableIntegrationList = (''integration_available'', ''list'')"
definition PolicyAvailableIntegrationRead :: authz_policy where "PolicyAvailableIntegrationRead = (''integration_available'', ''read'')"
definition PolicyRegisteredIntegrationList :: authz_policy where "PolicyRegisteredIntegrationList = (''integration_registered'', ''list'')"
definition PolicyRegisteredIntegrationRead :: authz_policy where "PolicyRegisteredIntegrationRead = (''integration_registered'', ''read'')"
definition PolicyRegisteredIntegrationAdd :: authz_policy where "PolicyRegisteredIntegrationAdd = (''integration_registered'', ''create'')"
definition PolicyAttachedIntegrationList :: authz_policy where "PolicyAttachedIntegrationList = (''integration_attached'', ''list'')"
definition PolicyAttachedIntegrationAttach :: authz_policy where "PolicyAttachedIntegrationAttach = (''integration_attached'', ''create'')"
definition PolicyAttachedIntegrationDetach :: authz_policy where "PolicyAttachedIntegrationDetach = (''integration_attached'', ''delete'')"
definition PolicyOrgMetricsRead :: authz_policy where "PolicyOrgMetricsRead = (''metrics_org'', ''list'')"
definition PolicyWorkflowContractList :: authz_policy where "PolicyWorkflowContractList = (''workflow_contract'', ''list'')"
definition PolicyWorkflowContractRead :: authz_policy where "PolicyWorkflowContractRead = (''workflow_contract'', ''read'')"
definition PolicyWorkflowContractUpdate :: authz_policy where "PolicyWorkflowContractUpdate = (''workflow_contract'', ''update'')"
definition PolicyWorkflowContractCreate :: authz_policy where "PolicyWorkflowContractCreate = (''workflow_contract'', ''create'')"
definition PolicyWorkflowContractDelete :: authz_policy where "PolicyWorkflowContractDelete = (''workflow_contract'', ''delete'')"
definition PolicyWorkflowRunList :: authz_policy where "PolicyWorkflowRunList = (''workflow_run'', ''list'')"
definition PolicyWorkflowRunRead :: authz_policy where "PolicyWorkflowRunRead = (''workflow_run'', ''read'')"
definition PolicyWorkflowRunCreate :: authz_policy where "PolicyWorkflowRunCreate = (''workflow_run'', ''create'')"
definition PolicyWorkflowRunUpdate :: authz_policy where "PolicyWorkflowRunUpdate = (''workflow_run'', ''update'')"
definition PolicyWorkflowList :: authz_policy where "PolicyWorkflowList = (''workflow'', ''list'')"
definition PolicyWorkflowRead :: authz_policy where "PolicyWorkflowRead = (''workflow'', ''read'')"
definition PolicyWorkflowCreate :: authz_policy where "PolicyWorkflowCreate = (''workflow'', ''create'')"
definition PolicyWorkflowUpdate :: authz_policy where "PolicyWorkflowUpdate = (''workflow'', ''update'')"
definition PolicyWorkflowDelete :: authz_policy where "PolicyWorkflowDelete = (''workflow'', ''delete'')"
definition PolicyProjectCreate :: authz_policy where "PolicyProjectCreate = (''project'', ''create'')"
definition PolicyProjectList :: authz_policy where "PolicyProjectList = (''project'', ''list'')"
definition PolicyOrganizationCreate :: authz_policy where "PolicyOrganizationCreate = (''organization'', ''create'')"
definition PolicyOrganizationDelete :: authz_policy where "PolicyOrganizationDelete = (''organization'', ''delete'')"
definition PolicyOrganizationRead :: authz_policy where "PolicyOrganizationRead = (''organization'', ''read'')"
definition PolicyOrganizationListMemberships :: authz_policy where "PolicyOrganizationListMemberships = (''organization_memberships'', ''list'')"
definition PolicyGroupListPendingInvitations :: authz_policy where "PolicyGroupListPendingInvitations = (''group'', ''list'')"
definition PolicyGroupListMemberships :: authz_policy where "PolicyGroupListMemberships = (''group_membership'', ''list'')"
definition PolicyGroupAddMemberships :: authz_policy where "PolicyGroupAddMemberships = (''group_membership'', ''create'')"
definition PolicyGroupRemoveMemberships :: authz_policy where "PolicyGroupRemoveMemberships = (''group_membership'', ''delete'')"
definition PolicyGroupUpdateMemberships :: authz_policy where "PolicyGroupUpdateMemberships = (''group_membership'', ''update'')"
definition PolicyAPITokenList :: authz_policy where "PolicyAPITokenList = (''api_token'', ''list'')"
definition PolicyAPITokenCreate :: authz_policy where "PolicyAPITokenCreate = (''api_token'', ''create'')"
definition PolicyAPITokenRevoke :: authz_policy where "PolicyAPITokenRevoke = (''api_token'', ''delete'')"
definition PolicyProjectListMemberships :: authz_policy where "PolicyProjectListMemberships = (''project_membership'', ''list'')"
definition PolicyProjectAddMemberships :: authz_policy where "PolicyProjectAddMemberships = (''project_membership'', ''create'')"
definition PolicyProjectUpdateMemberships :: authz_policy where "PolicyProjectUpdateMemberships = (''project_membership'', ''update'')"
definition PolicyProjectRemoveMemberships :: authz_policy where "PolicyProjectRemoveMemberships = (''project_membership'', ''delete'')"
definition PolicyOrganizationInvitationsCreate :: authz_policy where "PolicyOrganizationInvitationsCreate = (''organization_invitations'', ''create'')"
definition PolicyOrganizationManageOwners :: authz_policy where "PolicyOrganizationManageOwners = (''organization_memberships'', ''manage_owners'')"

text \<open>The policies of each role.\<close>

definition RolesMap :: "authz_policy list gomap" where
  "RolesMap =
    [(RoleInstanceAdmin,
      [PolicyOrganizationCreate, PolicyOrganizationInvitationsCreate, PolicyCASBackendList, PolicyCASBackendCreate]),
     (RoleOwner,
      [PolicyOrganizationDelete, PolicyOrganizationManageOwners]),
     (RoleAdmin,
      [PolicyArtifactUpload, PolicyOrganizationInvitationsCreate, PolicyDefaultBackendArtifactRead]),
     (RoleViewer,
      [PolicyReferrerRead, PolicyArtifactDownload, PolicyCASBackendList, PolicyAvailableIntegrationList, PolicyAvailableIntegrationRead,
       PolicyRegisteredIntegrationList, PolicyAttachedIntegrationList, PolicyOrgMetricsRead, PolicyWorkflowContractList,
       PolicyWorkflowContractRead, PolicyWorkflowRunList, PolicyWorkflowRunRead, PolicyWorkflowList, PolicyWorkflowRead, PolicyProjectList,
       PolicyOrganizationRead, PolicyOrganizationListMemberships]),
     (RoleOrgContributor,
      [PolicyWorkflowRead, PolicyWorkflowContractList, PolicyWorkflowContractRead, PolicyWorkflowContractCreate,
       PolicyWorkflowContractUpdate, PolicyWorkflowContractDelete, PolicyWorkflowList, PolicyWorkflowCreate, PolicyWorkflowUpdate,
       PolicyWorkflowDelete, PolicyProjectList, PolicyWorkflowRunList, PolicyWorkflowRunRead, PolicyArtifactDownload, PolicyArtifactUpload,
       PolicyCASBackendList, PolicyOrganizationRead, PolicyAvailableIntegrationList, PolicyAvailableIntegrationRead,
       PolicyRegisteredIntegrationList, PolicyRegisteredIntegrationRead, PolicyAttachedIntegrationList, PolicyAttachedIntegrationAttach,
       PolicyAttachedIntegrationDetach, PolicyOrgMetricsRead, PolicyReferrerRead, PolicyAPITokenList, PolicyAPITokenCreate,
       PolicyAPITokenRevoke, PolicyProjectListMemberships, PolicyProjectAddMemberships, PolicyProjectRemoveMemberships,
       PolicyProjectUpdateMemberships]),
     (RoleOrgMember,
      [PolicyProjectCreate]),
     (RoleProjectViewer,
      [PolicyWorkflowRead, PolicyWorkflowRunRead, PolicyWorkflowContractList, PolicyWorkflowContractRead, PolicyAPITokenList]),
     (RoleProjectAdmin,
      [PolicyWorkflowContractCreate, PolicyWorkflowContractUpdate, PolicyWorkflowContractDelete, PolicyWorkflowCreate,
       PolicyWorkflowRunCreate, PolicyWorkflowRunUpdate, PolicyWorkflowUpdate, PolicyWorkflowDelete, PolicyAttachedIntegrationAttach,
       PolicyAttachedIntegrationDetach, PolicyAPITokenCreate, PolicyAPITokenRevoke, PolicyProjectListMemberships,
       PolicyProjectAddMemberships, PolicyProjectRemoveMemberships, PolicyProjectUpdateMemberships]),
     (RoleGroupMaintainer,
      [PolicyGroupListMemberships, PolicyGroupListPendingInvitations, PolicyGroupAddMemberships, PolicyGroupRemoveMemberships,
       PolicyGroupUpdateMemberships])]"

text \<open>The policies each operation of the API asks for, all of them. An operation that is not listed is refused.\<close>

definition ServerOperationsMap :: "authz_policy list gomap" where
  "ServerOperationsMap =
    [(''/controlplane.v1.ReferrerService/DiscoverPrivate'', [PolicyReferrerRead]),
     (''/controlplane.v1.CASCredentialsService/Get'', []),
     (''/controlplane.v1.CASRedirectService/GetDownloadURL'', [PolicyArtifactDownload]),
     (''/controlplane.v1.CASBackendService/List'', [PolicyCASBackendList]),
     (''/controlplane.v1.CASBackendService/Revalidate'', [PolicyCASBackendUpdate]),
     (''/controlplane.v1.CASBackendService/Create'', [PolicyCASBackendCreate]),
     (''/controlplane.v1.IntegrationsService/ListAvailable'', [PolicyAvailableIntegrationList, PolicyAvailableIntegrationRead]),
     (''/controlplane.v1.IntegrationsService/ListRegistrations'', [PolicyRegisteredIntegrationList]),
     (''/controlplane.v1.IntegrationsService/DescribeRegistration'', [PolicyRegisteredIntegrationRead]),
     (''/controlplane.v1.IntegrationsService/Register'', [PolicyRegisteredIntegrationAdd]),
     (''/controlplane.v1.IntegrationsService/ListAttachments'', [PolicyAttachedIntegrationList]),
     (''/controlplane.v1.IntegrationsService/Attach'', [PolicyAttachedIntegrationAttach]),
     (''/controlplane.v1.IntegrationsService/Detach'', [PolicyAttachedIntegrationDetach]),
     (''/controlplane.v1.OrgMetricsService/Totals'', [PolicyOrgMetricsRead]),
     (''/controlplane.v1.OrgMetricsService/TopWorkflowsByRunsCount'', [PolicyOrgMetricsRead]),
     (''/controlplane.v1.OrgMetricsService/DailyRunsCount'', [PolicyOrgMetricsRead]),
     (''/controlplane.v1.WorkflowService/List'', [PolicyWorkflowList]),
     (''/controlplane.v1.WorkflowService/View'', [PolicyWorkflowRead]),
     (''/controlplane.v1.WorkflowService/Create'', [PolicyWorkflowCreate]),
     (''/controlplane.v1.WorkflowService/Update'', [PolicyWorkflowUpdate]),
     (''/controlplane.v1.WorkflowService/Delete'', [PolicyWorkflowDelete]),
     (''/controlplane.v1.WorkflowRunService/List'', [PolicyWorkflowRunList]),
     (''/controlplane.v1.WorkflowRunService/View'', [PolicyWorkflowRunRead]),
     (''/controlplane.v1.WorkflowContractService/List'', [PolicyWorkflowContractList]),
     (''/controlplane.v1.WorkflowContractService/Describe'', [PolicyWorkflowContractRead]),
     (''/controlplane.v1.WorkflowContractService/Update'', [PolicyWorkflowContractUpdate]),
     (''/controlplane.v1.WorkflowContractService/Create'', [PolicyWorkflowContractCreate]),
     (''/controlplane.v1.WorkflowContractService/Delete'', [PolicyWorkflowContractDelete]),
     (''/controlplane.v1.WorkflowContractService/Apply'', [PolicyWorkflowContractCreate, PolicyWorkflowContractUpdate]),
     (''/controlplane.v1.ContextService/Current'', [PolicyOrganizationRead]),
     (''/controlplane.v1.OrganizationService/Create'', []),
     (''/controlplane.v1.OrganizationService/Delete'', []),
     (''/controlplane.v1.OrganizationService/ListMemberships'', [PolicyOrganizationListMemberships]),
     (''/controlplane.v1.UserService/ListMemberships'', []),
     (''/controlplane.v1.UserService/SetCurrentMembership'', []),
     (''/controlplane.v1.UserService/DeleteMembership'', []),
     (''/controlplane.v1.AuthService/DeleteAccount'', []),
     (''/controlplane.v1.GroupService/List'', []),
     (''/controlplane.v1.GroupService/Get'', []),
     (''/controlplane.v1.GroupService/ListMembers'', []),
     (''/controlplane.v1.GroupService/ListProjects'', []),
     (''/controlplane.v1.GroupService/AddMember'', []),
     (''/controlplane.v1.GroupService/RemoveMember'', []),
     (''/controlplane.v1.GroupService/ListPendingInvitations'', []),
     (''/controlplane.v1.GroupService/UpdateMemberMaintainerStatus'', []),
     (''/controlplane.v1.ProjectService/List'', [PolicyProjectList]),
     (''/controlplane.v1.ProjectService/ListMembers'', [PolicyProjectListMemberships]),
     (''/controlplane.v1.ProjectService/AddMember'', [PolicyProjectAddMemberships]),
     (''/controlplane.v1.ProjectService/RemoveMember'', [PolicyProjectRemoveMemberships]),
     (''/controlplane.v1.ProjectService/UpdateMemberRole'', [PolicyProjectUpdateMemberships]),
     (''/controlplane.v1.ProjectService/ListPendingInvitations'', [PolicyProjectListMemberships]),
     (''/controlplane.v1.APITokenService/List'', [PolicyAPITokenList]),
     (''/controlplane.v1.APITokenService/Create'', [PolicyAPITokenCreate]),
     (''/controlplane.v1.APITokenService/Revoke'', [PolicyAPITokenRevoke]),
     (''/controlplane.v1.OrgInvitationService/Create'', [PolicyOrganizationInvitationsCreate])]"

lemmas authz_names = RoleInstanceAdmin_def RoleOwner_def RoleAdmin_def RoleViewer_def RoleOrgMember_def
  RoleOrgContributor_def RoleProjectAdmin_def RoleProjectViewer_def RoleGroupMaintainer_def RoleProductViewer_def
  RoleProductAdmin_def PolicyReferrerRead_def PolicyArtifactDownload_def PolicyArtifactUpload_def
  PolicyDefaultBackendArtifactRead_def PolicyCASBackendList_def PolicyCASBackendUpdate_def PolicyCASBackendCreate_def
  PolicyAvailableIntegrationList_def PolicyAvailableIntegrationRead_def PolicyRegisteredIntegrationList_def
  PolicyRegisteredIntegrationRead_def PolicyRegisteredIntegrationAdd_def PolicyAttachedIntegrationList_def
  PolicyAttachedIntegrationAttach_def PolicyAttachedIntegrationDetach_def PolicyOrgMetricsRead_def
  PolicyWorkflowContractList_def PolicyWorkflowContractRead_def PolicyWorkflowContractUpdate_def
  PolicyWorkflowContractCreate_def PolicyWorkflowContractDelete_def PolicyWorkflowRunList_def
  PolicyWorkflowRunRead_def PolicyWorkflowRunCreate_def PolicyWorkflowRunUpdate_def PolicyWorkflowList_def
  PolicyWorkflowRead_def PolicyWorkflowCreate_def PolicyWorkflowUpdate_def PolicyWorkflowDelete_def
  PolicyProjectCreate_def PolicyProjectList_def PolicyOrganizationCreate_def PolicyOrganizationDelete_def
  PolicyOrganizationRead_def PolicyOrganizationListMemberships_def PolicyGroupListPendingInvitations_def
  PolicyGroupListMemberships_def PolicyGroupAddMemberships_def PolicyGroupRemoveMemberships_def
  PolicyGroupUpdateMemberships_def PolicyAPITokenList_def PolicyAPITokenCreate_def PolicyAPITokenRevoke_def
  PolicyProjectListMemberships_def PolicyProjectAddMemberships_def PolicyProjectUpdateMemberships_def
  PolicyProjectRemoveMemberships_def PolicyOrganizationInvitationsCreate_def PolicyOrganizationManageOwners_def

definition RBACEnabled :: "string \<Rightarrow> bool" where
  "RBACEnabled r = (r = RoleOrgMember \<or> r = RoleOrgContributor)"

definition IsAdmin :: "string \<Rightarrow> bool" where
  "IsAdmin r = (r = RoleAdmin \<or> r = RoleOwner)"

section \<open>The enforcer\<close>

text \<open>The operations of a casbin enforcer. A rule is a role, a resource and an action.\<close>

type_synonym casbin_rule = "string \<times> string \<times> string"

record 'e casbin =
  casbin_NewEnforcer :: 'e
  casbin_AddPolicy :: "'e \<Rightarrow> casbin_rule \<Rightarrow> 'e res"
  casbin_RemovePolicy :: "'e \<Rightarrow> casbin_rule \<Rightarrow> 'e res"
  casbin_GetPolicy :: "'e \<Rightarrow> casbin_rule list res"
  casbin_AddGroupingPolicy :: "'e \<Rightarrow> string \<times> string \<Rightarrow> 'e res"
  casbin_Enforce :: "'e \<Rightarrow> string \<Rightarrow> string \<Rightarrow> string \<Rightarrow> bool res"

fun each_res :: "('s \<Rightarrow> 'a \<Rightarrow> 's res) \<Rightarrow> 's \<Rightarrow> 'a list \<Rightarrow> 's res" where
  "each_res f s [] = Inr s"
| "each_res f s (x # xs) = bind_res (f s x) (\<lambda>s'. each_res f s' xs)"

definition add_role_policy :: "'e casbin \<Rightarrow> 'e \<Rightarrow> casbin_rule \<Rightarrow> 'e res" where
  "add_role_policy c e p = map_err (Wrapf ''failed to add policy: %w'' []) (casbin_AddPolicy c e p)"

definition wanted_policy :: "authz_policy list gomap \<Rightarrow> casbin_rule \<Rightarrow> bool" where
  "wanted_policy conf p = (case map_of conf (fst p) of None \<Rightarrow> False | Some ps \<Rightarrow> list_ex (\<lambda>q. q = snd p) ps)"

definition prune_policy :: "'e casbin \<Rightarrow> authz_policy list gomap \<Rightarrow> 'e \<Rightarrow> casbin_rule \<Rightarrow> 'e res" where
  "prune_policy c conf e p =
     (if wanted_policy conf p then Inr e
      else map_err (Wrapf ''failed to remove policy: %w'' []) (casbin_RemovePolicy c e p))"

text \<open>Which role inherits the policies of which.\<close>

definition role_links :: "(string \<times> string) list" where
  "role_links = [(RoleAdmin, RoleViewer), (RoleOwner, RoleAdmin), (RoleOrgMember, RoleOrgContributor),
                 (RoleProjectAdmin, RoleProjectViewer)]"

definition add_role_link :: "'e casbin \<Rightarrow> 'e \<Rightarrow> string \<times> string \<Rightarrow> 'e res" where
  "add_role_link c e l = map_err (Wrapf ''failed to add grouping policy: %w'' []) (casbin_AddGroupingPolicy c e l)"

definition syncRBACRoles :: "'e casbin \<Rightarrow> 'e \<Rightarrow> authz_policy list gomap \<Rightarrow> 'e res" where
  "syncRBACRoles c e conf =
     bind_res (each_res (\<lambda>e (role, ps). each_res (\<lambda>e p. add_role_policy c e (role, p)) e ps) e conf) (\<lambda>e.
     bind_res (map_err (Wrapf ''failed to get policies: %w'' []) (casbin_GetPolicy c e)) (\<lambda>policies.
     bind_res (each_res (prune_policy c conf) e policies) (\<lambda>e.
     each_res (add_role_link c) e role_links)))"

definition NewCasbinEnforcer :: "'e casbin \<Rightarrow> authz_policy list gomap \<Rightarrow> 'e res" where
  "NewCasbinEnforcer c conf =
     map_err (Wrapf ''failed to sync roles: %w'' []) (syncRBACRoles c (casbin_NewEnforcer c) conf)"

definition SubjectAPIToken_String :: "string \<Rightarrow> string" where
  "SubjectAPIToken_String tokenID = ''api-token:'' @ tokenID"

definition CasbinEnforcer_Enforce :: "'e casbin \<Rightarrow> 'e \<Rightarrow> string \<Rightarrow> authz_policy \<Rightarrow> bool res" where
  "CasbinEnforcer_Enforce c e sub p =
     (if prefix ''api-token:'' sub then Inl (Errorf ''API token subjects not supported'' [])
      else casbin_Enforce c e sub (fst p) (snd p))"

text \<open>
  \<open>AuthzUseCase.Enforce\<close>: a token is allowed what its own list says. \<open>parse_uuid\<close> is \<open>uuid.Parse\<close>, which
  returns the canonical form, and \<open>find_token\<close> the lookup of a token's policies.
\<close>

definition Authz_Enforce ::
    "(string \<Rightarrow> string res) \<Rightarrow> (string \<Rightarrow> authz_policy list option res) \<Rightarrow> 'e casbin \<Rightarrow> 'e \<Rightarrow> string \<Rightarrow> authz_policy \<Rightarrow> bool res" where
  "Authz_Enforce parse_uuid find_token c e sub p =
     (if prefix ''api-token:'' sub
      then bind_res (parse_uuid (split_char (CHR '':'') sub ! 1)) (\<lambda>tokenID.
           bind_res (find_token tokenID) (\<lambda>token.
             case token of
               None \<Rightarrow> Inl (NewErrNotFound ''API token'')
             | Some allowed \<Rightarrow> Inr (list_ex (\<lambda>q. fst q = fst p \<and> snd q = snd p) allowed)))
      else CasbinEnforcer_Enforce c e sub p)"

section \<open>The middleware\<close>

definition Forbidden :: "string \<Rightarrow> err" where
  "Forbidden message = TypedErr ''FORBIDDEN'' (Errorf message [])"

definition InternalServer :: "err \<Rightarrow> err" where
  "InternalServer x = TypedErr ''INTERNAL'' x"

definition policiesLookup :: "string \<Rightarrow> authz_policy list res" where
  "policiesLookup apiOperation = (case map_of ServerOperationsMap apiOperation of
       Some ps \<Rightarrow> Inr ps | None \<Rightarrow> Inl (Errorf ''operation not allowed'' []))"

fun check_each :: "(string \<Rightarrow> authz_policy \<Rightarrow> bool res) \<Rightarrow> string \<Rightarrow> authz_policy list \<Rightarrow> unit res" where
  "check_each enforce subject [] = Inr ()"
| "check_each enforce subject (p # ps) =
     (case enforce subject p of
        Inl x \<Rightarrow> Inl (InternalServer x)
      | Inr ok \<Rightarrow> if ok then check_each enforce subject ps else Inl (Forbidden ''operation not allowed''))"

definition checkPolicies :: "(string \<Rightarrow> authz_policy \<Rightarrow> bool res) \<Rightarrow> string \<Rightarrow> string \<Rightarrow> unit res" where
  "checkPolicies enforce subject apiOperation =
     (case policiesLookup apiOperation of
        Inl x \<Rightarrow> Inl (Forbidden ''operation not allowed'')
      | Inr policies \<Rightarrow> check_each enforce subject policies)"

text \<open>
  The subject is the role of the user in the current organization, or the token, and empty when there is
  neither. A request without transport has no operation.
\<close>

definition WithAuthzMiddleware ::
    "(string \<Rightarrow> authz_policy \<Rightarrow> bool res) \<Rightarrow> string \<Rightarrow> string option \<Rightarrow> (unit \<Rightarrow> 'r res) \<Rightarrow> 'r res" where
  "WithAuthzMiddleware enforce subject transport handler =
     (if subject = [] then Inl (Forbidden ''missing authentication'')
      else case transport of
        None \<Rightarrow> Inl (InternalServer (Errorf ''could not get transport from context'' []))
      | Some apiOperation \<Rightarrow>
          if apiOperation = [] then Inl (InternalServer (Errorf ''could not find API request'' []))
          else if IsAdmin subject then handler ()
          else bind_res (checkPolicies enforce subject apiOperation) (\<lambda>_. handler ()))"

section \<open>What casbin promises\<close>

text \<open>
  For the rules and the role links an enforcer holds: adding and removing change just the given rule, no
  call fails (there is no storage adapter), and \<open>Enforce\<close> evaluates the matcher of \<open>model.conf\<close>, with role
  inheritance followed over at most ten links.
\<close>

definition casbin_laws :: "'e casbin \<Rightarrow> ('e \<Rightarrow> casbin_rule set) \<Rightarrow> ('e \<Rightarrow> (string \<times> string) set) \<Rightarrow> bool" where
  "casbin_laws c rules links \<longleftrightarrow>
     rules (casbin_NewEnforcer c) = {} \<and> links (casbin_NewEnforcer c) = {} \<and>
     (\<forall>e p. \<exists>e'. casbin_AddPolicy c e p = Inr e' \<and> rules e' = insert p (rules e) \<and> links e' = links e) \<and>
     (\<forall>e p. \<exists>e'. casbin_RemovePolicy c e p = Inr e' \<and> rules e' = rules e - {p} \<and> links e' = links e) \<and>
     (\<forall>e. \<exists>ps. casbin_GetPolicy c e = Inr ps \<and> set ps = rules e) \<and>
     (\<forall>e l. \<exists>e'. casbin_AddGroupingPolicy c e l = Inr e' \<and> rules e' = rules e \<and> links e' = insert l (links e)) \<and>
     (\<forall>e sub obj act. casbin_Enforce c e sub obj act =
        Inr (\<exists>role. (\<exists>n\<le>10. (sub, role) \<in> links e ^^ n) \<and> (role, obj, act) \<in> rules e))"

lemma casbin_lawsD:
  assumes "casbin_laws c rules links"
  shows casbin_new: "rules (casbin_NewEnforcer c) = {}" "links (casbin_NewEnforcer c) = {}"
    and casbin_add: "\<exists>e'. casbin_AddPolicy c e p = Inr e' \<and> rules e' = insert p (rules e) \<and> links e' = links e"
    and casbin_remove: "\<exists>e'. casbin_RemovePolicy c e p = Inr e' \<and> rules e' = rules e - {p} \<and> links e' = links e"
    and casbin_get: "\<exists>ps. casbin_GetPolicy c e = Inr ps \<and> set ps = rules e"
    and casbin_link: "\<exists>e'. casbin_AddGroupingPolicy c e l = Inr e' \<and> rules e' = rules e \<and> links e' = insert l (links e)"
    and casbin_enforce: "casbin_Enforce c e sub obj act =
        Inr (\<exists>role. (\<exists>n\<le>10. (sub, role) \<in> links e ^^ n) \<and> (role, obj, act) \<in> rules e)"
  using assms by (simp_all add: casbin_laws_def del: split_paired_All)

text \<open>A loop of calls that each succeed and change an observed set in the same way.\<close>

lemma each_res_set:
  assumes step: "\<And>e x. \<exists>e'. f e x = Inr e' \<and> obs e' = g x (obs e) \<and> frame e' = frame e"
  shows "\<exists>e'. each_res f e xs = Inr e' \<and> obs e' = fold g xs (obs e) \<and> frame e' = frame e"
proof (induction xs arbitrary: e)
  case (Cons x xs)
  obtain e1 where e1: "f e x = Inr e1" "obs e1 = g x (obs e)" "frame e1 = frame e" using step [of e x] by blast
  show ?case using Cons.IH [of e1] e1 by simp
qed simp

lemma fold_insert_image: "fold (\<lambda>x. insert (h x)) xs A = h ` set xs \<union> A"
  by (induction xs arbitrary: A) auto

lemma fold_union: "fold (\<lambda>x A. h x \<union> A) xs A = (\<Union>x\<in>set xs. h x) \<union> A"
  by (induction xs arbitrary: A) auto

lemma fold_prune: "fold (\<lambda>x A. if P x then A else A - {x}) xs A = A - {x \<in> set xs. \<not> P x}"
  by (induction xs arbitrary: A) auto

definition rules_of :: "authz_policy list gomap \<Rightarrow> casbin_rule set" where
  "rules_of conf = {(role, p). \<exists>ps. map_of conf role = Some ps \<and> p \<in> set ps}"

lemma rules_of_wf: "gm_wf conf \<Longrightarrow> rules_of conf = (\<Union>(role, ps)\<in>set conf. Pair role ` set ps)"
  by (fastforce simp: rules_of_def gm_wf_def)

lemma wanted_policy_iff: "wanted_policy conf p \<longleftrightarrow> p \<in> rules_of conf"
  by (cases p) (auto simp: wanted_policy_def rules_of_def list_ex_iff split: option.splits)

lemma add_role_policies:
  assumes laws: "casbin_laws c rules links" and "gm_wf conf"
  shows "\<exists>e'. each_res (\<lambda>e (role, ps). each_res (\<lambda>e p. add_role_policy c e (role, p)) e ps) e conf = Inr e' \<and>
           rules e' = rules_of conf \<union> rules e \<and> links e' = links e"
proof -
  have one: "\<exists>e'. add_role_policy c e (role, p) = Inr e' \<and> rules e' = insert (role, p) (rules e) \<and> links e' = links e" for e role p
    using casbin_add [OF laws] by (simp add: add_role_policy_def)
  have role: "\<exists>e'. each_res (\<lambda>e p. add_role_policy c e (role, p)) e ps = Inr e' \<and>
      rules e' = Pair role ` set ps \<union> rules e \<and> links e' = links e" for e role ps
    using each_res_set [where f = "\<lambda>e p. add_role_policy c e (role, p)" and g = "\<lambda>p. insert (role, p)" and obs = rules
        and frame = links, OF one] by (simp add: fold_insert_image)
  have "\<exists>e'. (\<lambda>e (role, ps). each_res (\<lambda>e p. add_role_policy c e (role, p)) e ps) e x = Inr e' \<and>
      rules e' = (case x of (role, ps) \<Rightarrow> Pair role ` set ps) \<union> rules e \<and> links e' = links e" for e x
    by (cases x) (simp add: role)
  from each_res_set [where f = "\<lambda>e (role, ps). each_res (\<lambda>e p. add_role_policy c e (role, p)) e ps" and obs = rules
      and g = "\<lambda>x A. (case x of (role, ps) \<Rightarrow> Pair role ` set ps) \<union> A" and frame = links, OF this] show ?thesis
    by (simp add: fold_union rules_of_wf [OF assms(2)])
qed

text \<open>
  Synchronizing the roles: whatever rules the enforcer held before, afterwards it holds exactly those of
  the configuration, in any iteration order of its map, and the role links have been added.
\<close>

lemma roles_synced:
  assumes "casbin_laws c rules links" and "gm_wf conf"
  shows "\<exists>e'. syncRBACRoles c e conf = Inr e' \<and> rules e' = rules_of conf \<and> links e' = set role_links \<union> links e"
proof -
  obtain e1 where e1: "each_res (\<lambda>e (role, ps). each_res (\<lambda>e p. add_role_policy c e (role, p)) e ps) e conf = Inr e1"
      "rules e1 = rules_of conf \<union> rules e" "links e1 = links e"
    using add_role_policies [OF assms] by blast
  obtain ps where ps: "casbin_GetPolicy c e1 = Inr ps" "set ps = rules e1" using casbin_get [OF assms(1)] by blast
  have "\<exists>e'. prune_policy c conf e p = Inr e' \<and> rules e' = (if wanted_policy conf p then rules e else rules e - {p}) \<and>
      links e' = links e" for e p
    using casbin_remove [OF assms(1)] by (simp add: prune_policy_def)
  from each_res_set [where f = "prune_policy c conf" and g = "\<lambda>p A. if wanted_policy conf p then A else A - {p}" and obs = rules
      and frame = links and e = e1 and xs = ps, OF this] obtain e2 where e2: "each_res (prune_policy c conf) e1 ps = Inr e2"
      "rules e2 = rules e1 - {p \<in> set ps. \<not> wanted_policy conf p}" "links e2 = links e1"
    by (auto simp: fold_prune)
  have "rules e2 = rules_of conf" using e1(2) e2(2) ps(2) by (auto simp: wanted_policy_iff)
  moreover have "\<exists>e'. add_role_link c e l = Inr e' \<and> links e' = insert l (links e) \<and> rules e' = rules e" for e l
    using casbin_link [OF assms(1)] by (simp add: add_role_link_def) blast
  from each_res_set [where f = "add_role_link c" and g = insert and obs = links and frame = rules and e = e2 and xs = role_links, OF this]
  obtain e3 where e3: "each_res (add_role_link c) e2 role_links = Inr e3"
      "links e3 = set role_links \<union> links e2" "rules e3 = rules e2"
    using fold_insert_image [of "\<lambda>x. x" role_links "links e2"] by auto
  ultimately show ?thesis using e1 e2 e3 ps by (simp add: syncRBACRoles_def)
qed

section \<open>Who may call what\<close>

text \<open>The roles whose policies a role has, and what a role is allowed to do.\<close>

definition inherited_roles :: "string \<Rightarrow> string list" where
  "inherited_roles role =
     (if role = RoleOwner then [RoleOwner, RoleAdmin, RoleViewer]
      else if role = RoleAdmin then [RoleAdmin, RoleViewer]
      else if role = RoleOrgMember then [RoleOrgMember, RoleOrgContributor]
      else if role = RoleProjectAdmin then [RoleProjectAdmin, RoleProjectViewer]
      else [role])"

definition role_allows :: "string \<Rightarrow> authz_policy \<Rightarrow> bool" where
  "role_allows role p = list_ex (\<lambda>r. wanted_policy RolesMap (r, p)) (inherited_roles role)"

definition role_policies :: "string \<Rightarrow> authz_policy list" where
  "role_policies role = concat (map (\<lambda>r. case map_of RolesMap r of None \<Rightarrow> [] | Some ps \<Rightarrow> ps) (inherited_roles role))"

lemma inherited_closed:
  assumes "(r, r') \<in> set role_links" and "r \<in> set (inherited_roles s)"
  shows "r' \<in> set (inherited_roles s)"
  using assms by (auto simp: role_links_def inherited_roles_def authz_names split: if_splits)

lemma linked_roles: "(\<exists>n\<le>10. (s, r) \<in> set role_links ^^ n) \<longleftrightarrow> r \<in> set (inherited_roles s)"
proof
  assume "\<exists>n\<le>10. (s, r) \<in> set role_links ^^ n"
  then have "(s, r) \<in> (set role_links)\<^sup>*" using relpow_imp_rtrancl by blast
  then show "r \<in> set (inherited_roles s)"
  proof (induction rule: rtrancl_induct)
    case base
    show ?case by (simp add: inherited_roles_def)
  next
    case (step y z)
    then show ?case using inherited_closed by blast
  qed
next
  assume r: "r \<in> set (inherited_roles s)"
  have zero: "(s, s) \<in> set role_links ^^ 0" by simp
  have one: "(s, r) \<in> set role_links ^^ 1" if "(s, r) \<in> set role_links" using that by simp
  have two: "(s, r) \<in> set role_links ^^ 2" if "(s, q) \<in> set role_links" "(q, r) \<in> set role_links" for q
    using that by (auto simp: numeral_2_eq_2)
  show "\<exists>n\<le>10. (s, r) \<in> set role_links ^^ n"
  proof (cases "r = s")
    case True
    then show ?thesis using zero by (metis zero_le)
  next
    case False
    with r have "(s, r) \<in> set role_links \<or> ((s, RoleAdmin) \<in> set role_links \<and> (RoleAdmin, r) \<in> set role_links)"
      by (auto simp: inherited_roles_def role_links_def split: if_splits)
    then show ?thesis
    proof
      assume "(s, r) \<in> set role_links"
      then show ?thesis using one by (intro exI [of _ 1]) simp
    next
      assume "(s, RoleAdmin) \<in> set role_links \<and> (RoleAdmin, r) \<in> set role_links"
      then have "(s, r) \<in> set role_links ^^ 2" using two by blast
      then show ?thesis by (intro exI [of _ 2]) simp
    qed
  qed
qed

lemma RolesMap_wf: "gm_wf RolesMap"
  by (simp add: gm_wf_def RolesMap_def authz_names)

text \<open>The enforcer built from the roles map, in any order of it, decides by \<open>role_allows\<close>.\<close>

lemma enforcer_decides:
  assumes laws: "casbin_laws c rules links" and conf: "mset conf = mset RolesMap"
  obtains e where "NewCasbinEnforcer c conf = Inr e"
    "\<And>sub p. \<not> prefix ''api-token:'' sub \<Longrightarrow> CasbinEnforcer_Enforce c e sub p = Inr (role_allows sub p)"
proof -
  have dist: "distinct (map fst conf)"
    using RolesMap_wf mset_eq_imp_distinct_iff [of "map fst conf" "map fst RolesMap"] conf by (simp add: gm_wf_def)
  have same: "map_of conf = map_of RolesMap"
    by (rule map_of_inject_set [THEN iffD2]) (use dist RolesMap_wf conf mset_eq_setD in \<open>auto simp: gm_wf_def\<close>)
  from dist have "gm_wf conf" by (simp add: gm_wf_def)
  from roles_synced [OF laws this, of "casbin_NewEnforcer c"] casbin_new [OF laws]
  obtain e where e: "syncRBACRoles c (casbin_NewEnforcer c) conf = Inr e" "rules e = rules_of conf" "links e = set role_links"
    by auto
  have "CasbinEnforcer_Enforce c e sub p = Inr (role_allows sub p)" if "\<not> prefix ''api-token:'' sub" for sub p
    using that e(2,3) linked_roles [of sub]
    by (auto simp: CasbinEnforcer_Enforce_def casbin_enforce [OF laws] role_allows_def list_ex_iff wanted_policy_iff rules_of_def same)
  with e(1) show thesis using that by (simp add: NewCasbinEnforcer_def)
qed

lemma check_each_Inr:
  assumes "\<And>p. p \<in> set ps \<Longrightarrow> enforce sub p = Inr (allow p)"
  shows "check_each enforce sub ps = (if \<forall>p\<in>set ps. allow p then Inr () else Inl (Forbidden ''operation not allowed''))"
  using assms by (induction ps) auto

lemma checkPolicies_Inr:
  assumes "\<And>p. enforce sub p = Inr (allow p)"
  shows "checkPolicies enforce sub op =
    (if \<exists>ps. map_of ServerOperationsMap op = Some ps \<and> (\<forall>p\<in>set ps. allow p) then Inr ()
     else Inl (Forbidden ''operation not allowed''))"
  using check_each_Inr [of _ enforce sub allow, OF assms]
  by (auto simp: checkPolicies_def policiesLookup_def split: option.splits)

lemma token_subject:
  assumes "CHR '':'' \<notin> set tid"
  shows "split_char (CHR '':'') (SubjectAPIToken_String tid) ! Suc 0 = tid"
  using assms split_char_append [of "CHR '':''" "''api-token''" tid] by (simp add: SubjectAPIToken_String_def split_char_absent)

text \<open>
  C8. The access decision of a whole request, from the middleware through the use case to the enforcer that
  was built from the roles map. A user with a role gets to the handler exactly when the role is an
  administrator's, or the operation is listed and the role, or one it inherits, has every policy the
  operation asks for; a token exactly when the operation is listed and every policy is in the token's own
  list, whatever the roles say. Everything else is forbidden, and a deleted token is an error unless the
  operation asks for no policy.
\<close>

theorem access_decision:
  assumes "casbin_laws c rules links" and "mset conf = mset RolesMap"
  shows "\<exists>e. NewCasbinEnforcer c conf = Inr e \<and>
    (\<forall>role op (handler :: unit \<Rightarrow> 'r res). role \<noteq> [] \<longrightarrow> op \<noteq> [] \<longrightarrow> \<not> prefix ''api-token:'' role \<longrightarrow>
       WithAuthzMiddleware (Authz_Enforce parse_uuid find_token c e) role (Some op) handler =
         (if IsAdmin role \<or> (\<exists>ps. map_of ServerOperationsMap op = Some ps \<and> (\<forall>p\<in>set ps. role_allows role p))
          then handler () else Inl (Forbidden ''operation not allowed''))) \<and>
    (\<forall>tid op allowed (handler :: unit \<Rightarrow> 'r res). CHR '':'' \<notin> set tid \<longrightarrow> op \<noteq> [] \<longrightarrow> parse_uuid tid = Inr tid \<longrightarrow>
       find_token tid = Inr (Some allowed) \<longrightarrow>
       WithAuthzMiddleware (Authz_Enforce parse_uuid find_token c e) (SubjectAPIToken_String tid) (Some op) handler =
         (if \<exists>ps. map_of ServerOperationsMap op = Some ps \<and> set ps \<subseteq> set allowed
          then handler () else Inl (Forbidden ''operation not allowed''))) \<and>
    (\<forall>tid op p ps (handler :: unit \<Rightarrow> 'r res). CHR '':'' \<notin> set tid \<longrightarrow> parse_uuid tid = Inr tid \<longrightarrow>
       find_token tid = Inr None \<longrightarrow> op \<noteq> [] \<longrightarrow> map_of ServerOperationsMap op = Some (p # ps) \<longrightarrow>
       WithAuthzMiddleware (Authz_Enforce parse_uuid find_token c e) (SubjectAPIToken_String tid) (Some op) handler =
         Inl (InternalServer (NewErrNotFound ''API token'')))"
proof -
  obtain e where e: "NewCasbinEnforcer c conf = Inr e"
      "\<And>sub p. \<not> prefix ''api-token:'' sub \<Longrightarrow> CasbinEnforcer_Enforce c e sub p = Inr (role_allows sub p)"
    using enforcer_decides [OF assms] by blast
  let ?enf = "Authz_Enforce parse_uuid find_token c e"
  have user: "?enf role p = Inr (role_allows role p)" if "\<not> prefix ''api-token:'' role" for role p
    using that e(2) by (simp add: Authz_Enforce_def)
  have tok: "prefix ''api-token:'' (SubjectAPIToken_String tid)" "SubjectAPIToken_String tid \<noteq> []"
      "\<not> IsAdmin (SubjectAPIToken_String tid)" for tid
    by (simp_all add: SubjectAPIToken_String_def IsAdmin_def authz_names)
  have token: "?enf (SubjectAPIToken_String tid) p = Inr (p \<in> set allowed)"
    if "CHR '':'' \<notin> set tid" "parse_uuid tid = Inr tid" "find_token tid = Inr (Some allowed)" for tid p allowed
    using that tok(1) [of tid] by (auto simp: Authz_Enforce_def token_subject list_ex_iff)
  have gone: "?enf (SubjectAPIToken_String tid) p = Inl (NewErrNotFound ''API token'')"
    if "CHR '':'' \<notin> set tid" "parse_uuid tid = Inr tid" "find_token tid = Inr None" for tid p
    using that tok(1) [of tid] by (simp add: Authz_Enforce_def token_subject)
  have "WithAuthzMiddleware ?enf role (Some op) handler =
        (if IsAdmin role \<or> (\<exists>ps. map_of ServerOperationsMap op = Some ps \<and> (\<forall>p\<in>set ps. role_allows role p))
         then handler () else Inl (Forbidden ''operation not allowed''))"
    if "role \<noteq> []" "op \<noteq> []" "\<not> prefix ''api-token:'' role" for role op and handler :: "unit \<Rightarrow> 'r res"
    using that by (auto simp: WithAuthzMiddleware_def checkPolicies_Inr [of ?enf role, OF user [OF that(3)]])
  moreover have "WithAuthzMiddleware ?enf (SubjectAPIToken_String tid) (Some op) handler =
        (if \<exists>ps. map_of ServerOperationsMap op = Some ps \<and> set ps \<subseteq> set allowed
         then handler () else Inl (Forbidden ''operation not allowed''))"
    if "CHR '':'' \<notin> set tid" "op \<noteq> []" "parse_uuid tid = Inr tid" "find_token tid = Inr (Some allowed)"
    for tid op allowed and handler :: "unit \<Rightarrow> 'r res"
    using that tok [of tid]
    by (auto simp: WithAuthzMiddleware_def checkPolicies_Inr [of ?enf "SubjectAPIToken_String tid", OF token [OF that(1,3,4)]] subset_eq)
  moreover have "WithAuthzMiddleware ?enf (SubjectAPIToken_String tid) (Some op) handler =
        Inl (InternalServer (NewErrNotFound ''API token''))"
    if "CHR '':'' \<notin> set tid" "parse_uuid tid = Inr tid" "find_token tid = Inr None" "op \<noteq> []"
      "map_of ServerOperationsMap op = Some (p # ps)" for tid op p ps and handler :: "unit \<Rightarrow> 'r res"
    using that tok [of tid] gone [OF that(1,2,3)] by (simp add: WithAuthzMiddleware_def checkPolicies_def policiesLookup_def)
  ultimately show ?thesis using e(1) by blast
qed

lemma role_allows_iff:
  "role_allows r p \<longleftrightarrow> list_ex (\<lambda>(role, ps). p \<in> set ps \<and> role \<in> set (inherited_roles r)) RolesMap"
  using RolesMap_wf by (force simp: role_allows_def list_ex_iff wanted_policy_iff rules_of_def gm_wf_def map_of_eq_Some_iff)

lemma manage_owners_iff: "role_allows r PolicyOrganizationManageOwners \<longleftrightarrow> r = RoleOwner"
  unfolding role_allows_iff by (auto simp: RolesMap_def inherited_roles_def authz_names split: if_splits)

lemmas manage_owners_only = manage_owners_iff [THEN iffD1]

text \<open>
  Separation of duties in the tables. Only an owner may manage owners or delete the organization; the
  roles of an organization are ordered, viewer below administrator below owner, and a contributor below a
  member; what a viewer may do is reading and listing, so every operation open to viewers that asks for a
  policy only reads; and every policy an operation asks for is granted to some role, apart from
  registering integrations and revalidating a backend, which are for administrators.
\<close>

theorem role_separation:
  "{r. role_allows r PolicyOrganizationManageOwners} = {RoleOwner} \<and>
   {r. role_allows r PolicyOrganizationDelete} = {RoleOwner} \<and>
   {r. role_allows r PolicyOrganizationCreate} = {RoleInstanceAdmin} \<and>
   {p. role_allows RoleViewer p} \<subset> {p. role_allows RoleAdmin p} \<and>
   {p. role_allows RoleAdmin p} \<subset> {p. role_allows RoleOwner p} \<and>
   {p. role_allows RoleOrgContributor p} \<subset> {p. role_allows RoleOrgMember p} \<and>
   snd ` {p. role_allows RoleViewer p} = {''read'', ''list''} \<and>
   set (concat (map snd ServerOperationsMap)) \<subseteq>
     {PolicyCASBackendUpdate, PolicyRegisteredIntegrationAdd} \<union> set (concat (map snd RolesMap))"
proof -
  have ps: "{p. role_allows r p} = set (role_policies r)" for r
    by (force simp: role_policies_def role_allows_def list_ex_iff wanted_policy_iff rules_of_def split: option.splits)
  have "{r. role_allows r PolicyOrganizationManageOwners} = {RoleOwner}" by (simp add: manage_owners_iff)
  moreover have "{r. role_allows r PolicyOrganizationDelete} = {RoleOwner}"
    unfolding role_allows_iff by (auto simp: RolesMap_def inherited_roles_def authz_names split: if_splits)
  moreover have "{r. role_allows r PolicyOrganizationCreate} = {RoleInstanceAdmin}"
    unfolding role_allows_iff by (auto simp: RolesMap_def inherited_roles_def authz_names split: if_splits)
  moreover have "set (role_policies RoleViewer) \<subset> set (role_policies RoleAdmin)" by code_simp
  moreover have "set (role_policies RoleAdmin) \<subset> set (role_policies RoleOwner)" by code_simp
  moreover have "set (role_policies RoleOrgContributor) \<subset> set (role_policies RoleOrgMember)" by code_simp
  moreover have "snd ` set (role_policies RoleViewer) = {''read'', ''list''}" by code_simp
  moreover have "set (concat (map snd ServerOperationsMap)) \<subseteq>
     {PolicyCASBackendUpdate, PolicyRegisteredIntegrationAdd} \<union> set (concat (map snd RolesMap))"
    by (simp add: ServerOperationsMap_def RolesMap_def)
  ultimately show ?thesis unfolding ps by blast
qed

end
