(* ===== verification/Memberships.thy ===== *)
theory Memberships
  imports Authz Control_Plane_Tables
begin

text \<open>
  Who belongs to an organization, and with which role (\<open>app/controlplane/pkg/biz/membership.go\<close> and
  \<open>app/controlplane/pkg/data/membership.go\<close>). A membership relates a user or a group to an
  organization, a project, a product, a group or the instance; a user also has the memberships of the groups
  they are in. Queries without an order return the rows in the order of the table, and \<open>parse\<close> is
  \<open>uuid.Parse\<close>.
\<close>

section \<open>Tables\<close>

datatype membership_type = MembershipTypeUser | MembershipTypeGroup

datatype resource_type =
    ResourceTypeInstance | ResourceTypeOrganization | ResourceTypeProject | ResourceTypeProduct | ResourceTypeGroup

record membership_row =
  mb_id :: uuid
  mb_user :: "uuid option"  \<comment> \<open>edge to the user\<close>
  mb_org :: "uuid option"  \<comment> \<open>edge to the organization\<close>
  mb_current :: bool
  mb_created_at :: int
  mb_role :: string
  mb_type :: membership_type
  mb_member :: uuid
  mb_resource_type :: resource_type
  mb_resource :: uuid
  mb_parent :: "uuid option"  \<comment> \<open>the membership it is inherited from\<close>

record user_row =
  usr_id :: uuid
  usr_email :: string
  usr_first_name :: string
  usr_last_name :: string

record member_org =
  mo_id :: uuid
  mo_name :: string
  mo_deleted :: bool
  mo_suspended :: bool

record group_row =
  gr_id :: uuid
  gr_org :: uuid
  gr_member_count :: nat

record group_member =
  gmb_user :: uuid
  gmb_group :: uuid
  gmb_deleted :: bool

datatype member_event =
    OrgUserRemoved uuid string uuid string  \<comment> \<open>organization, its name, removed user, email\<close>
  | UserRoleChanged uuid string string string uuid  \<comment> \<open>user, email, old role, new role, organization\<close>
  | OrgUserLeft uuid string

record members_db =
  md_orgs :: "member_org list"
  md_users :: "user_row list"
  md_memberships :: "membership_row list"
  md_groups :: "group_row list"
  md_group_members :: "group_member list"
  md_ids :: "nat \<Rightarrow> uuid"
  md_ids_drawn :: nat
  md_events :: "member_event list"

section \<open>Repository\<close>

text \<open>What the use cases see of a membership: the row and the rows of its loaded edges.\<close>

record biz_membership =
  bm_row :: membership_row
  bm_OrganizationID :: uuid
  bm_org :: "member_org option"
  bm_user :: "user_row option"

definition org_by_id :: "members_db \<Rightarrow> uuid option \<Rightarrow> member_org option" where
  "org_by_id db i = Option.bind i (\<lambda>i. find (\<lambda>o'. mo_id o' = i) (md_orgs db))"

definition user_by_id :: "members_db \<Rightarrow> uuid option \<Rightarrow> user_row option" where
  "user_by_id db i = Option.bind i (\<lambda>i. find (\<lambda>u. usr_id u = i) (md_users db))"

definition entMembershipToBiz :: "members_db \<Rightarrow> bool \<Rightarrow> bool \<Rightarrow> membership_row \<Rightarrow> biz_membership" where
  "entMembershipToBiz db with_org with_user m =
     (let org = (if with_org then org_by_id db (mb_org m) else None) in
      \<lparr>bm_row = m,
       bm_OrganizationID = (if mb_resource_type m = ResourceTypeOrganization then mb_resource m
                            else case org of Some o' \<Rightarrow> mo_id o' | None \<Rightarrow> uuid_Nil),
       bm_org = org, bm_user = (if with_user then user_by_id db (mb_user m) else None)\<rparr>)"

definition org_membership :: "membership_row \<Rightarrow> bool" where
  "org_membership m = (mb_type m = MembershipTypeUser \<and> mb_resource_type m = ResourceTypeOrganization)"

definition loadMembership :: "members_db \<Rightarrow> uuid \<Rightarrow> biz_membership res" where
  "loadMembership db i = (case find (\<lambda>m. mb_id m = i) (md_memberships db) of
       None \<Rightarrow> Inl (Errorf ''ent: membership not found'' [])
     | Some m \<Rightarrow> Inr (entMembershipToBiz db True True m))"

text \<open>
  Inserting a row: the role is one of the enumeration, the edges exist, and a subject has one explicit role
  on a resource. The result tells a violated constraint from another error.
\<close>

definition Role_Values :: "string list" where
  "Role_Values = [RoleInstanceAdmin, RoleOwner, RoleAdmin, RoleViewer, RoleOrgMember, RoleOrgContributor, RoleProjectAdmin,
     RoleProjectViewer, RoleGroupMaintainer, RoleProductAdmin, RoleProductViewer]"

definition same_subject_and_resource :: "membership_row \<Rightarrow> membership_row \<Rightarrow> bool" where
  "same_subject_and_resource m m' = (mb_type m = mb_type m' \<and> mb_member m = mb_member m' \<and>
     mb_resource_type m = mb_resource_type m' \<and> mb_resource m = mb_resource m')"

definition insert_membership :: "members_db \<Rightarrow> membership_row \<Rightarrow> (bool \<times> err) + members_db" where
  "insert_membership db m =
     (if mb_role m \<notin> set Role_Values then Inl (False, Errorf ''ent: validator failed for field Membership.role'' [])
      else if (mb_org m \<noteq> None \<and> org_by_id db (mb_org m) = None) \<or> (mb_user m \<noteq> None \<and> user_by_id db (mb_user m) = None) then
        Inl (True, Errorf ''ent: constraint failed: foreign key'' [])
      else if list_ex (\<lambda>m'. mb_parent m' = mb_parent m \<and> same_subject_and_resource m m') (md_memberships db) then
        Inl (True, Errorf ''ent: constraint failed: duplicate key'' [])
      else Inr (db\<lparr>md_memberships := md_memberships db @ [m], md_ids_drawn := Suc (md_ids_drawn db)\<rparr>))"

definition mr_Create :: "int \<Rightarrow> uuid \<Rightarrow> uuid \<Rightarrow> bool \<Rightarrow> string \<Rightarrow> members_db \<Rightarrow> biz_membership res \<times> members_db" where
  "mr_Create now orgID userID current role db =
     (let new = md_ids db (md_ids_drawn db);
          m = \<lparr>mb_id = new, mb_user = Some userID, mb_org = Some orgID, mb_current = current, mb_created_at = now,
               mb_role = role, mb_type = MembershipTypeUser, mb_member = userID,
               mb_resource_type = ResourceTypeOrganization, mb_resource = orgID, mb_parent = None\<rparr> in
      case insert_membership db m of
        Inl (_, x) \<Rightarrow> (Inl x, db)
      | Inr db' \<Rightarrow> (loadMembership db' new, db'))"

definition mr_FindByUser :: "members_db \<Rightarrow> uuid \<Rightarrow> biz_membership list" where
  "mr_FindByUser db userID =
     map (entMembershipToBiz db True False) (filter (\<lambda>m. org_membership m \<and> mb_member m = userID) (md_memberships db))"

record list_by_org_opts =
  lo_membership :: "uuid option"
  lo_name :: "string option"
  lo_email :: "string option"
  lo_role :: "string option"

text \<open>
  The page of the memberships of an organization. \<open>contains_fold\<close> is the case-insensitive search of the
  database and \<open>newest_first\<close> its order by creation time.
\<close>

definition given :: "string option \<Rightarrow> bool" where
  "given s = (s \<noteq> None \<and> s \<noteq> Some [])"

definition matches_opts :: "(string \<Rightarrow> string \<Rightarrow> bool) \<Rightarrow> members_db \<Rightarrow> list_by_org_opts \<Rightarrow> membership_row \<Rightarrow> bool" where
  "matches_opts contains_fold db opts m =
     ((let u = user_by_id db (mb_user m);
           has = (\<lambda>P. case u of None \<Rightarrow> False | Some u \<Rightarrow> P u);
           preds = (if given (lo_name opts)
                      then [has (\<lambda>u. contains_fold (the (lo_name opts)) (usr_first_name u) \<or>
                                     contains_fold (the (lo_name opts)) (usr_last_name u))] else []) @
                   (if given (lo_email opts) then [has (\<lambda>u. contains_fold (the (lo_email opts)) (usr_email u))] else [])
       in preds = [] \<or> list_ex (\<lambda>b. b) preds) \<and>
      (case lo_membership opts of None \<Rightarrow> True | Some i \<Rightarrow> mb_id m = i) \<and>
      (case lo_role opts of None \<Rightarrow> True | Some r \<Rightarrow> mb_role m = r))"

definition mr_FindByOrg ::
    "(string \<Rightarrow> string \<Rightarrow> bool) \<Rightarrow> (membership_row list \<Rightarrow> membership_row list) \<Rightarrow> members_db \<Rightarrow> uuid \<Rightarrow> list_by_org_opts \<Rightarrow>
     offset_opts \<Rightarrow> biz_membership list \<times> nat" where
  "mr_FindByOrg contains_fold newest_first db orgID opts p =
     (let rows = filter (\<lambda>m. org_membership m \<and> mb_resource m = orgID \<and> matches_opts contains_fold db opts m)
                   (md_memberships db)
      in (map (entMembershipToBiz db True True) (take (nat (oo_Limit p)) (drop (nat (fst (oo_Offset p))) (newest_first rows))),
          length rows))"

definition mr_FindByOrgAndUser :: "members_db \<Rightarrow> uuid \<Rightarrow> uuid \<Rightarrow> biz_membership option res" where
  "mr_FindByOrgAndUser db orgID userID =
     bind_res (only (\<lambda>m. org_membership m \<and> mb_member m = userID \<and> mb_resource m = orgID) (md_memberships db))
       (\<lambda>m. Inr (map_option (entMembershipToBiz db True True) m))"

definition mr_FindByOrgNameAndUser :: "members_db \<Rightarrow> string \<Rightarrow> uuid \<Rightarrow> biz_membership option res" where
  "mr_FindByOrgNameAndUser db orgName userID =
     (case find (\<lambda>o'. mo_name o' = orgName \<and> \<not> mo_deleted o') (md_orgs db) of
        None \<Rightarrow> Inl (NewErrNotFound (''organization '' @ orgName @ '' not found''))
      | Some org \<Rightarrow> mr_FindByOrgAndUser db (mo_id org) userID)"

definition mr_FindByIDInUser :: "members_db \<Rightarrow> uuid \<Rightarrow> uuid \<Rightarrow> biz_membership option res" where
  "mr_FindByIDInUser db userID i =
     bind_res (only (\<lambda>m. org_membership m \<and> mb_member m = userID \<and> mb_id m = i) (md_memberships db))
       (\<lambda>m. Inr (map_option (entMembershipToBiz db True True) m))"

definition mr_FindByIDInOrg :: "members_db \<Rightarrow> uuid \<Rightarrow> uuid \<Rightarrow> biz_membership option res" where
  "mr_FindByIDInOrg db orgID i =
     bind_res (only (\<lambda>m. org_membership m \<and> mb_resource m = orgID \<and> mb_id m = i) (md_memberships db))
       (\<lambda>m. Inr (map_option (entMembershipToBiz db True True) m))"

definition mr_FindByOrgIDAndUserEmail :: "members_db \<Rightarrow> uuid \<Rightarrow> string \<Rightarrow> biz_membership res" where
  "mr_FindByOrgIDAndUserEmail db orgID userEmail =
     (case only (\<lambda>u. usr_email u = userEmail) (md_users db) of
        Inl x \<Rightarrow> Inl (Wrapf ''failed to find user by email %s: %w'' [userEmail] x)
      | Inr None \<Rightarrow> Inl (NewErrNotFound (''user with email '' @ userEmail @ '' not found''))
      | Inr (Some u) \<Rightarrow>
          (case mr_FindByOrgAndUser db orgID (usr_id u) of
             Inl x \<Rightarrow> Inl (Wrapf ''failed to query memberships: %w'' [] x)
           | Inr None \<Rightarrow> Inl (NewErrNotFound (''membership for user '' @ userEmail @ '' in organization '' @ orgID @ '' not found''))
           | Inr (Some m) \<Rightarrow> Inr m))"

definition mr_FindByUserAndResourceID :: "members_db \<Rightarrow> uuid \<Rightarrow> uuid \<Rightarrow> biz_membership res" where
  "mr_FindByUserAndResourceID db userID resourceID =
     (case only (\<lambda>m. mb_member m = userID \<and> mb_resource m = resourceID) (md_memberships db) of
        Inl x \<Rightarrow> Inl (Wrapf ''failed to query memberships: %w'' [] x)
      | Inr None \<Rightarrow> Inl (NewErrNotFound (''membership for user '' @ userID @ '' and resource '' @ resourceID @ '' not found''))
      | Inr (Some m) \<Rightarrow> Inr (entMembershipToBiz db True True m))"

text \<open>\<open>SetCurrent\<close>: the other memberships of the member stop being current, in one transaction.\<close>

definition set_current_rows :: "membership_row \<Rightarrow> membership_row list \<Rightarrow> membership_row list" where
  "set_current_rows m rows =
     update_row mb_id (mb_id m) (\<lambda>r. r\<lparr>mb_current := True\<rparr>)
       (map (\<lambda>r. if org_membership r \<and> mb_member r = mb_member m then r\<lparr>mb_current := False\<rparr> else r) rows)"

definition mr_SetCurrent :: "uuid \<Rightarrow> members_db \<Rightarrow> biz_membership res \<times> members_db" where
  "mr_SetCurrent i db =
     (case loadMembership db i of
        Inl x \<Rightarrow> (Inl x, db)
      | Inr m \<Rightarrow> (let db' = db\<lparr>md_memberships := set_current_rows (bm_row m) (md_memberships db)\<rparr>
                 in (loadMembership db' i, db')))"

definition mr_SetRole :: "uuid \<Rightarrow> string \<Rightarrow> members_db \<Rightarrow> biz_membership res \<times> members_db" where
  "mr_SetRole i role db =
     (if role \<notin> set Role_Values then (Inl (Errorf ''failed to update membership: %w'' []), db)
      else if list_ex (\<lambda>m. mb_id m = i) (md_memberships db) then
        (let db' = db\<lparr>md_memberships := update_row mb_id i (\<lambda>r. r\<lparr>mb_role := role\<rparr>) (md_memberships db)\<rparr>
         in (map_err (Wrapf ''failed to load membership: %w'' []) (loadMembership db' i), db'))
      else (Inl (Errorf ''failed to update membership: %w'' []), db))"

text \<open>Deleting rows also deletes, at every depth, the memberships inherited from them.\<close>

definition drop_orphans :: "membership_row list \<Rightarrow> membership_row list" where
  "drop_orphans rows = filter (\<lambda>m. case mb_parent m of None \<Rightarrow> True | Some p \<Rightarrow> p \<in> mb_id ` set rows) rows"

definition delete_where :: "(membership_row \<Rightarrow> bool) \<Rightarrow> membership_row list \<Rightarrow> membership_row list" where
  "delete_where P rows = (drop_orphans ^^ length rows) (filter (\<lambda>m. \<not> P m) rows)"

definition UpdateGroupMemberCount :: "uuid \<Rightarrow> members_db \<Rightarrow> unit res \<times> members_db" where
  "UpdateGroupMemberCount gid db =
     (if list_ex (\<lambda>g. gr_id g = gid) (md_groups db) then
        (Inr (), db\<lparr>md_groups := update_row gr_id gid
           (\<lambda>g. g\<lparr>gr_member_count := length (filter (\<lambda>x. gmb_group x = gid \<and> \<not> gmb_deleted x) (md_group_members db))\<rparr>)
           (md_groups db)\<rparr>)
      else (Inl (Errorf ''failed to update group member count: %w'' []), db))"

fun update_counts :: "uuid list \<Rightarrow> members_db \<Rightarrow> unit res \<times> members_db" where
  "update_counts [] db = (Inr (), db)"
| "update_counts (gid # gids) db =
     (case UpdateGroupMemberCount gid db of
        (Inl x, db') \<Rightarrow> (Inl (Wrapf ''failed to update group member count for group %s: %w'' [gid] x), db')
      | (Inr _, db') \<Rightarrow> update_counts gids db')"

definition in_group_of_org :: "members_db \<Rightarrow> uuid \<Rightarrow> uuid \<Rightarrow> group_member \<Rightarrow> bool" where
  "in_group_of_org db userID orgID x = (gmb_user x = userID \<and> \<not> gmb_deleted x \<and>
     list_ex (\<lambda>g. gr_id g = gmb_group x \<and> gr_org g = orgID) (md_groups db))"

text \<open>The transaction of \<open>Delete\<close>, and the identifiers of the groups the user was in.\<close>

definition delete_membership_tx :: "membership_row \<Rightarrow> members_db \<Rightarrow> uuid list res \<times> members_db" where
  "delete_membership_tx m db =
     (if \<not> list_ex (\<lambda>x. mb_id x = mb_id m) (md_memberships db) then (Inl (Errorf ''failed to delete membership: %w'' []), db)
      else let db1 = db\<lparr>md_memberships := delete_where (\<lambda>x. mb_id x = mb_id m) (md_memberships db)\<rparr> in
      if org_membership m then
        (case org_by_id db (mb_org m) of
           None \<Rightarrow> (Inl (go_panic ''nil pointer dereference''), db)
         | Some org \<Rightarrow>
             let orgID = mo_id org; userID = mb_member m;
                 left = filter (in_group_of_org db userID orgID) (md_group_members db)
             in (Inr (map gmb_group left),
                 db1\<lparr>md_memberships := delete_where (\<lambda>x. mb_id x \<noteq> mb_id m \<and> mb_member x = userID \<and> mb_org x = Some orgID)
                                        (md_memberships db1),
                     md_group_members := map (\<lambda>x. if in_group_of_org db userID orgID x then x\<lparr>gmb_deleted := True\<rparr> else x)
                                           (md_group_members db)\<rparr>))
      else (Inr [], db1))"

definition mr_Delete :: "uuid \<Rightarrow> members_db \<Rightarrow> unit res \<times> members_db" where
  "mr_Delete i db =
     (case only (\<lambda>m. mb_id m = i) (md_memberships db) of
        Inl x \<Rightarrow> (Inl (Wrapf ''failed to get membership: %w'' [] x), db)
      | Inr None \<Rightarrow> (Inr (), db)
      | Inr (Some m) \<Rightarrow>
          (case WithTx (delete_membership_tx m) db of
             (Inl x, db') \<Rightarrow> (Inl x, db')
           | (Inr gids, db') \<Rightarrow> update_counts (rev (remdups (rev gids))) db'))"

definition mr_ListAllByUser :: "members_db \<Rightarrow> uuid \<Rightarrow> biz_membership list" where
  "mr_ListAllByUser db userID = map (entMembershipToBiz db True False)
     (filter (\<lambda>m. mb_type m = MembershipTypeUser \<and> mb_member m = userID) (md_memberships db))"

definition mr_ListGroupMembershipsByUser :: "members_db \<Rightarrow> uuid \<Rightarrow> biz_membership list" where
  "mr_ListGroupMembershipsByUser db userID =
     (let groupIDs = map gmb_group (filter (\<lambda>x. gmb_user x = userID \<and> \<not> gmb_deleted x) (md_group_members db))
      in if groupIDs = [] then []
         else map (entMembershipToBiz db True False)
                (filter (\<lambda>m. mb_type m = MembershipTypeGroup \<and> mb_member m \<in> set groupIDs) (md_memberships db)))"

definition mr_ListAllByResource :: "members_db \<Rightarrow> resource_type \<Rightarrow> uuid \<Rightarrow> biz_membership list" where
  "mr_ListAllByResource db rt i = map (entMembershipToBiz db False False)
     (filter (\<lambda>m. mb_resource_type m = rt \<and> mb_resource m = i) (md_memberships db))"

definition mr_AddResourceRole ::
    "int \<Rightarrow> uuid \<Rightarrow> resource_type \<Rightarrow> uuid \<Rightarrow> membership_type \<Rightarrow> uuid \<Rightarrow> string \<Rightarrow> uuid option \<Rightarrow> members_db \<Rightarrow> unit res \<times> members_db" where
  "mr_AddResourceRole now orgID rt resID mType memberID role parentID db =
     (case insert_membership db \<lparr>mb_id = md_ids db (md_ids_drawn db), mb_user = None, mb_org = Some orgID, mb_current = False,
             mb_created_at = now, mb_role = role, mb_type = mType, mb_member = memberID, mb_resource_type = rt,
             mb_resource = resID, mb_parent = parentID\<rparr> of
        Inl (constraint, x) \<Rightarrow> (if constraint then Inr () else Inl (Wrapf ''failed to add resource role: %w'' [] x), db)
      | Inr db' \<Rightarrow> (Inr (), db'))"

section \<open>Use cases\<close>

definition parse_or_invalid :: "(string \<Rightarrow> uuid res) \<Rightarrow> string \<Rightarrow> uuid res" where
  "parse_or_invalid parse s = map_err NewErrInvalidUUID (parse s)"

definition errMsgOnlyOwnersManageOwners :: string where
  "errMsgOnlyOwnersManageOwners = ''only organization owners can manage owner memberships''"

definition enforceManageOwners :: "(string \<Rightarrow> authz_policy \<Rightarrow> bool res) \<Rightarrow> string \<Rightarrow> string \<Rightarrow> unit res" where
  "enforceManageOwners enforce callerRole deniedMsg =
     bind_res (map_err (Wrapf ''failed to enforce manage owners policy: %w'' []) (enforce callerRole PolicyOrganizationManageOwners))
       (\<lambda>ok. if ok then Inr () else Inl (NewErrUnauthorizedStr deniedMsg))"

definition dispatch :: "member_event \<Rightarrow> members_db \<Rightarrow> members_db" where
  "dispatch ev db = db\<lparr>md_events := md_events db @ [ev]\<rparr>"

text \<open>
  The checks before another user's membership is deleted or changed: it is in the organization, it is not the
  caller's own, and an owner's is left to owners.
\<close>

definition other_membership :: "(string \<Rightarrow> uuid res) \<Rightarrow> members_db \<Rightarrow> string \<Rightarrow> string \<Rightarrow> string \<Rightarrow> string \<Rightarrow>
    (uuid \<times> biz_membership \<times> user_row) res" where
  "other_membership parse db orgID userID membershipID selfMsg =
     bind_res (parse_or_invalid parse membershipID) (\<lambda>mid.
     bind_res (parse_or_invalid parse orgID) (\<lambda>oid.
     bind_res (map_err (Wrapf ''failed to find membership: %w'' []) (mr_FindByIDInOrg db oid mid)) (\<lambda>found.
       case found of
         None \<Rightarrow> Inl (NewErrNotFound ''membership'')
       | Some m \<Rightarrow>
           (case bm_user m of
              None \<Rightarrow> Inl (go_panic ''nil pointer dereference'')
            | Some u \<Rightarrow> if usr_id u = userID then Inl (NewErrValidationStr selfMsg) else Inr (mid, m, u)))))"

definition DeleteOther :: "(string \<Rightarrow> uuid res) \<Rightarrow> (string \<Rightarrow> authz_policy \<Rightarrow> bool res) \<Rightarrow> string \<Rightarrow> string \<Rightarrow> string \<Rightarrow> string \<Rightarrow>
    members_db \<Rightarrow> unit res \<times> members_db" where
  "DeleteOther parse enforce orgID userID membershipID callerRole db =
     (case bind_res (other_membership parse db orgID userID membershipID ''cannot delete yourself from the org'') (\<lambda>(mid, m, u).
           bind_res (if mb_role (bm_row m) = RoleOwner then enforceManageOwners enforce callerRole errMsgOnlyOwnersManageOwners
                     else Inr ()) (\<lambda>_. Inr (mid, m, u))) of
        Inl x \<Rightarrow> (Inl x, db)
      | Inr (mid, m, u) \<Rightarrow>
          (case mr_Delete mid db of
             (Inl x, db') \<Rightarrow> (Inl (Wrapf ''failed to delete membership: %w'' [] x), db')
           | (Inr _, db') \<Rightarrow>
               (case parse (usr_id u) of
                  Inl _ \<Rightarrow> (Inr (), db')
                | Inr removed \<Rightarrow>
                    (case bm_org m of
                       None \<Rightarrow> (Inl (go_panic ''nil pointer dereference''), db')
                     | Some org \<Rightarrow> (Inr (), dispatch (OrgUserRemoved (bm_OrganizationID m) (mo_name org) removed (usr_email u)) db')))))"

definition UpdateRole :: "(string \<Rightarrow> uuid res) \<Rightarrow> (string \<Rightarrow> authz_policy \<Rightarrow> bool res) \<Rightarrow> string \<Rightarrow> string \<Rightarrow> string \<Rightarrow> string \<Rightarrow> string \<Rightarrow>
    members_db \<Rightarrow> biz_membership res \<times> members_db" where
  "UpdateRole parse enforce orgID userID membershipID role callerRole db =
     (if role = [] then (Inl (NewErrValidationStr ''role is required''), db)
      else case bind_res (other_membership parse db orgID userID membershipID ''cannot update yourself'') (\<lambda>(mid, m, u).
           bind_res (if mb_role (bm_row m) = RoleOwner \<or> role = RoleOwner
                     then enforceManageOwners enforce callerRole errMsgOnlyOwnersManageOwners else Inr ()) (\<lambda>_.
           bind_res (parse_or_invalid parse (usr_id u)) (\<lambda>uid. Inr (mid, m, uid, find (\<lambda>x. usr_id x = uid) (md_users db))))) of
        Inl x \<Rightarrow> (Inl x, db)
      | Inr (mid, m, uid, user) \<Rightarrow>
          (case mr_SetRole mid role db of
             (Inl x, db') \<Rightarrow> (Inl (Wrapf ''failed to update membership role: %w'' [] x), db')
           | (Inr updated, db') \<Rightarrow>
               (case user of
                  None \<Rightarrow> (Inl (go_panic ''nil pointer dereference''), db')
                | Some user \<Rightarrow> (Inr updated,
                    dispatch (UserRoleChanged uid (usr_email user) (mb_role (bm_row m)) role (bm_OrganizationID m)) db'))))"

text \<open>\<open>Create\<close>, with the options it is given: whether the membership is current, and a role.\<close>

definition uc_membership_Create :: "(string \<Rightarrow> uuid res) \<Rightarrow> int \<Rightarrow> string \<Rightarrow> string \<Rightarrow> bool \<Rightarrow> string option \<Rightarrow> members_db \<Rightarrow>
    biz_membership res \<times> members_db" where
  "uc_membership_Create parse now orgID userID current role db =
     (case bind_res (parse_or_invalid parse orgID) (\<lambda>oid. bind_res (parse_or_invalid parse userID) (\<lambda>uid. Inr (oid, uid))) of
        Inl x \<Rightarrow> (Inl x, db)
      | Inr (oid, uid) \<Rightarrow>
          (case mr_Create now oid uid current (case role of None \<Rightarrow> RoleViewer | Some r \<Rightarrow> r) db of
             (Inl x, db') \<Rightarrow> (Inl (Wrapf ''failed to create membership: %w'' [] x), db')
           | (Inr m, db') \<Rightarrow> if current then mr_SetCurrent (mb_id (bm_row m)) db' else (Inr m, db')))"

definition uc_SetCurrent :: "(string \<Rightarrow> uuid res) \<Rightarrow> string \<Rightarrow> string \<Rightarrow> members_db \<Rightarrow> biz_membership res \<times> members_db" where
  "uc_SetCurrent parse userID membershipID db =
     (case bind_res (parse_or_invalid parse userID) (\<lambda>uid. bind_res (parse_or_invalid parse membershipID) (\<lambda>mid.
           bind_res (mr_FindByIDInUser db uid mid) (\<lambda>m.
             case m of None \<Rightarrow> Inl (NewErrNotFound ''membership'') | Some _ \<Rightarrow> Inr mid))) of
        Inl x \<Rightarrow> (Inl x, db)
      | Inr mid \<Rightarrow> mr_SetCurrent mid db)"

definition found_membership :: "biz_membership option res \<Rightarrow> biz_membership res" where
  "found_membership r = bind_res (map_err (Wrapf ''failed to find membership: %w'' []) r)
     (\<lambda>m. case m of None \<Rightarrow> Inl (NewErrNotFound ''membership'') | Some m \<Rightarrow> Inr m)"

definition uc_FindByOrgAndUser :: "(string \<Rightarrow> uuid res) \<Rightarrow> members_db \<Rightarrow> string \<Rightarrow> string \<Rightarrow> biz_membership res" where
  "uc_FindByOrgAndUser parse db orgID userID =
     bind_res (parse_or_invalid parse orgID) (\<lambda>oid. bind_res (parse_or_invalid parse userID) (\<lambda>uid.
       found_membership (mr_FindByOrgAndUser db oid uid)))"

definition uc_FindByOrgNameAndUser :: "(string \<Rightarrow> uuid res) \<Rightarrow> members_db \<Rightarrow> string \<Rightarrow> string \<Rightarrow> biz_membership res" where
  "uc_FindByOrgNameAndUser parse db orgName userID =
     bind_res (parse_or_invalid parse userID) (\<lambda>uid. found_membership (mr_FindByOrgNameAndUser db orgName uid))"

definition ByUser :: "(string \<Rightarrow> uuid res) \<Rightarrow> members_db \<Rightarrow> string \<Rightarrow> biz_membership list res" where
  "ByUser parse db userID = bind_res (parse_or_invalid parse userID) (\<lambda>uid. Inr (mr_FindByUser db uid))"

definition ListAllMembershipsForUser :: "members_db \<Rightarrow> uuid \<Rightarrow> biz_membership list" where
  "ListAllMembershipsForUser db userID = mr_ListAllByUser db userID @ mr_ListGroupMembershipsByUser db userID"

definition SetProjectOwner :: "int \<Rightarrow> uuid \<Rightarrow> uuid \<Rightarrow> uuid \<Rightarrow> members_db \<Rightarrow> unit res \<times> members_db" where
  "SetProjectOwner now orgID projectID userID db =
     (if list_ex (\<lambda>m. mb_role (bm_row m) = RoleProjectAdmin) (mr_ListAllByResource db ResourceTypeProject projectID)
      then (Inr (), db)
      else case mr_AddResourceRole now orgID ResourceTypeProject projectID MembershipTypeUser userID RoleProjectAdmin None db of
        (r, db') \<Rightarrow> (map_err (Wrapf ''failed to set project owner: %w'' []) r, db'))"

text \<open>The resources a subject reaches in an organization that restricts it.\<close>

record rbac_scope =
  rs_projects :: "uuid list"
  rs_products :: "uuid list"

definition resourcesWithMembershipInOrg :: "uuid \<Rightarrow> biz_membership list \<Rightarrow> resource_type \<Rightarrow> uuid list" where
  "resourcesWithMembershipInOrg orgID ms rt =
     map (\<lambda>m. mb_resource (bm_row m)) (filter (\<lambda>m. mb_resource_type (bm_row m) = rt \<and> bm_OrganizationID m = orgID) ms)"

definition add_org_scope :: "biz_membership list \<Rightarrow> biz_membership \<Rightarrow> uuid list \<times> rbac_scope gomap \<Rightarrow> uuid list \<times> rbac_scope gomap" where
  "add_org_scope ms m acc =
     (if mb_resource_type (bm_row m) \<noteq> ResourceTypeOrganization then acc
      else let org = mb_resource (bm_row m) in
        (fst acc @ [org],
         if RBACEnabled (mb_role (bm_row m))
         then AList.update org \<lparr>rs_projects = resourcesWithMembershipInOrg org ms ResourceTypeProject,
                                rs_products = resourcesWithMembershipInOrg org ms ResourceTypeProduct\<rparr> (snd acc)
         else snd acc))"

definition GetOrgsAndRBACInfoForUser :: "members_db \<Rightarrow> uuid \<Rightarrow> uuid list \<times> rbac_scope gomap" where
  "GetOrgsAndRBACInfoForUser db userID =
     (let ms = ListAllMembershipsForUser db userID in fold (add_org_scope ms) ms ([], []))"

definition ProjectIDsByOrg :: "rbac_scope gomap \<Rightarrow> uuid list gomap" where
  "ProjectIDsByOrg scopes = map (\<lambda>(org, s). (org, rs_projects s)) scopes"

definition isUserSoleOwner :: "(membership_row list \<Rightarrow> membership_row list) \<Rightarrow> members_db \<Rightarrow> uuid \<Rightarrow> uuid \<Rightarrow> bool" where
  "isUserSoleOwner newest_first db orgID userID =
     (let owners = fst (mr_FindByOrg (\<lambda>_ _. False) newest_first db orgID
            \<lparr>lo_membership = None, lo_name = None, lo_email = None, lo_role = Some RoleOwner\<rparr> NewDefaultOffsetPaginationOpts)
      in if list_ex (\<lambda>o'. map_option usr_id (bm_user o') = Some userID) owners then length owners = 1 else False)"

text \<open>
  \<open>Leave\<close>: the ownership is checked before the membership is deleted, and other requests may run in
  between.
\<close>

definition Leave :: "(string \<Rightarrow> uuid res) \<Rightarrow> (membership_row list \<Rightarrow> membership_row list) \<Rightarrow> (members_db \<Rightarrow> members_db) \<Rightarrow> string \<Rightarrow>
    string \<Rightarrow> members_db \<Rightarrow> unit res \<times> members_db" where
  "Leave parse newest_first others userID membershipID db =
     (case bind_res (parse_or_invalid parse membershipID) (\<lambda>mid. bind_res (parse_or_invalid parse userID) (\<lambda>uid.
           bind_res (map_err (Wrapf ''failed to find membership: %w'' []) (mr_FindByIDInUser db uid mid)) (\<lambda>m.
             case m of
               None \<Rightarrow> Inl (NewErrNotFound ''membership'')
             | Some m \<Rightarrow> if isUserSoleOwner newest_first db (bm_OrganizationID m) uid
                 then Inl (NewErrValidationStr ''cannot leave organization as the sole owner. Please add another owner or delete the organization instead'')
                 else Inr (mid, m)))) of
        Inl x \<Rightarrow> (Inl x, db)
      | Inr (mid, m) \<Rightarrow>
          (case mr_Delete mid (others db) of
             (Inl x, db') \<Rightarrow> (Inl (Wrapf ''failed to delete membership: %w'' [] x), db')
           | (Inr _, db') \<Rightarrow>
               (case bm_org m of
                  None \<Rightarrow> (Inl (go_panic ''nil pointer dereference''), db')
                | Some org \<Rightarrow> (Inr (), dispatch (OrgUserLeft (bm_OrganizationID m) (mo_name org)) db'))))"

end
