(* ===== verification/Member_Invariants.thy ===== *)
theory Member_Invariants
  imports Memberships
begin

text \<open>
  What the membership operations guarantee: consistent tables, an owner in every organization that had one,
  owners changed by owners only, and no access left to a user who was removed.
\<close>

section \<open>Consistent tables\<close>

definition members_base :: "members_db \<Rightarrow> bool" where
  "members_base db \<longleftrightarrow>
     distinct (map mb_id (md_memberships db)) \<and> inj (md_ids db) \<and>
     (\<forall>n\<ge>md_ids_drawn db. md_ids db n \<notin> mb_id ` set (md_memberships db)) \<and>
     (\<forall>m\<in>set (md_memberships db).
        (org_membership m \<longrightarrow> mb_parent m = None \<and> mb_user m = Some (mb_member m)) \<and>
        (mb_resource_type m = ResourceTypeOrganization \<longrightarrow> mb_org m = Some (mb_resource m)) \<and>
        (mb_org m \<noteq> None \<longrightarrow> org_by_id db (mb_org m) \<noteq> None) \<and>
        (mb_user m \<noteq> None \<longrightarrow> user_by_id db (mb_user m) \<noteq> None) \<and>
        (mb_type m = MembershipTypeGroup \<longrightarrow> (\<exists>g\<in>set (md_groups db). gr_id g = mb_member m \<and> mb_org m = Some (gr_org g)))) \<and>
     (\<forall>m\<in>set (md_memberships db). \<forall>m'\<in>set (md_memberships db). org_membership m \<longrightarrow> org_membership m' \<longrightarrow>
        mb_member m = mb_member m' \<longrightarrow> mb_resource m = mb_resource m' \<longrightarrow> m = m')"

text \<open>A user has at most one current organization.\<close>

definition one_current :: "members_db \<Rightarrow> uuid \<Rightarrow> bool" where
  "one_current db u \<longleftrightarrow> (\<forall>m\<in>set (md_memberships db). \<forall>m'\<in>set (md_memberships db). org_membership m \<longrightarrow> org_membership m' \<longrightarrow>
     mb_member m = u \<longrightarrow> mb_member m' = u \<longrightarrow> mb_current m \<longrightarrow> mb_current m' \<longrightarrow> m = m')"

definition members_ok :: "members_db \<Rightarrow> bool" where
  "members_ok db \<longleftrightarrow> members_base db \<and> (\<forall>u. one_current db u)"

lemma members_okD: "members_ok db \<Longrightarrow> members_base db" "members_ok db \<Longrightarrow> one_current db u"
  by (simp_all add: members_ok_def)

definition owners :: "members_db \<Rightarrow> uuid \<Rightarrow> uuid set" where
  "owners db org = mb_member ` {m \<in> set (md_memberships db). org_membership m \<and> mb_resource m = org \<and> mb_role m = RoleOwner}"

text \<open>What does not concern the memberships themselves.\<close>

definition same_frame :: "members_db \<Rightarrow> members_db \<Rightarrow> bool" where
  "same_frame db db' \<longleftrightarrow> md_orgs db' = md_orgs db \<and> md_users db' = md_users db \<and> md_ids db' = md_ids db \<and>
     map (\<lambda>g. (gr_id g, gr_org g)) (md_groups db') = map (\<lambda>g. (gr_id g, gr_org g)) (md_groups db)"

lemma same_frame_refl [simp]: "same_frame db db" by (simp add: same_frame_def)

lemma same_frame_trans: "same_frame a b \<Longrightarrow> same_frame b c \<Longrightarrow> same_frame a c" by (simp add: same_frame_def)

lemma same_frame_lookups:
  assumes "same_frame db db'"
  shows "org_by_id db' = org_by_id db" and "user_by_id db' = user_by_id db"
    and "(\<exists>g\<in>set (md_groups db'). gr_id g = i \<and> o' = Some (gr_org g)) \<longleftrightarrow> (\<exists>g\<in>set (md_groups db). gr_id g = i \<and> o' = Some (gr_org g))"
proof -
  show "org_by_id db' = org_by_id db" "user_by_id db' = user_by_id db"
    using assms by (simp_all add: same_frame_def org_by_id_def user_by_id_def fun_eq_iff)
  have "(\<lambda>g. (gr_id g, gr_org g)) ` set (md_groups db') = (\<lambda>g. (gr_id g, gr_org g)) ` set (md_groups db)"
  proof -
    have "set (map (\<lambda>g. (gr_id g, gr_org g)) (md_groups db')) = set (map (\<lambda>g. (gr_id g, gr_org g)) (md_groups db))"
      using assms unfolding same_frame_def by simp
    then show ?thesis unfolding set_map .
  qed
  moreover have "(\<exists>g\<in>G. gr_id g = i \<and> a = gr_org g) \<longleftrightarrow> (i, a) \<in> (\<lambda>g. (gr_id g, gr_org g)) ` G" for G :: "group_row set" and a
    by force
  ultimately have "(\<exists>g\<in>set (md_groups db'). gr_id g = i \<and> a = gr_org g) \<longleftrightarrow> (\<exists>g\<in>set (md_groups db). gr_id g = i \<and> a = gr_org g)" for a
    by simp
  then show "(\<exists>g\<in>set (md_groups db'). gr_id g = i \<and> o' = Some (gr_org g)) \<longleftrightarrow> (\<exists>g\<in>set (md_groups db). gr_id g = i \<and> o' = Some (gr_org g))"
    by (cases o') simp_all
qed

text \<open>Removing rows, or changing only roles and current flags, keeps the tables consistent.\<close>

lemma members_ok_subset:
  assumes "members_ok db" and "same_frame db db'" and "md_ids_drawn db' = md_ids_drawn db"
    and sub: "set (md_memberships db') \<subseteq> set (md_memberships db)" and "distinct (map mb_id (md_memberships db'))"
  shows "members_ok db'"
proof -
  have "md_ids db' = md_ids db" using assms(2) by (simp add: same_frame_def)
  then have "members_base db'" using members_okD(1) [OF assms(1)] assms(3,5) sub
    unfolding members_base_def same_frame_lookups [OF assms(2)] by (simp add: subset_iff image_iff)
  moreover have "one_current db' u" for u
    using members_okD(2) [OF assms(1), of u] sub unfolding one_current_def by blast
  ultimately show ?thesis by (simp add: members_ok_def)
qed

section \<open>Deleting\<close>

lemma drop_orphans_keeps: "m \<in> set rows \<Longrightarrow> mb_parent m = None \<Longrightarrow> m \<in> set (drop_orphans rows)"
  by (simp add: drop_orphans_def)

lemma iterate_drop_orphans:
  "set ((drop_orphans ^^ n) rows) \<subseteq> set rows"
  "m \<in> set rows \<Longrightarrow> mb_parent m = None \<Longrightarrow> m \<in> set ((drop_orphans ^^ n) rows)"
  "distinct (map mb_id rows) \<Longrightarrow> distinct (map mb_id ((drop_orphans ^^ n) rows))"
  by (induction n) (auto simp: drop_orphans_def distinct_map_filter)

lemma delete_where_set:
  shows delete_where_subset: "set (delete_where P rows) \<subseteq> {m \<in> set rows. \<not> P m}"
    and delete_where_keeps: "m \<in> set rows \<Longrightarrow> \<not> P m \<Longrightarrow> mb_parent m = None \<Longrightarrow> m \<in> set (delete_where P rows)"
    and delete_where_distinct: "distinct (map mb_id rows) \<Longrightarrow> distinct (map mb_id (delete_where P rows))"
  using iterate_drop_orphans(1) [of "length rows" "filter (\<lambda>m. \<not> P m) rows"]
    iterate_drop_orphans(2) [of m "filter (\<lambda>m. \<not> P m) rows" "length rows"]
    iterate_drop_orphans(3) [of "filter (\<lambda>m. \<not> P m) rows" "length rows"]
  by (auto simp: delete_where_def distinct_map_filter)

text \<open>Rows whose parents stay, stay.\<close>

lemma drop_orphans_closed:
  assumes "K \<subseteq> set rows" and "\<And>x p. x \<in> K \<Longrightarrow> mb_parent x = Some p \<Longrightarrow> p \<in> mb_id ` K"
  shows "K \<subseteq> set ((drop_orphans ^^ n) rows)"
  using assms(1)
proof (induction n)
  case (Suc n)
  then have "K \<subseteq> set ((drop_orphans ^^ n) rows)" by simp
  then have "K \<subseteq> set (drop_orphans ((drop_orphans ^^ n) rows))"
    using assms(2) by (fastforce simp: drop_orphans_def split: option.splits)
  then show ?case by simp
qed simp

lemma delete_where_closed:
  assumes "K \<subseteq> {x \<in> set rows. \<not> P x}" and "\<And>x p. x \<in> K \<Longrightarrow> mb_parent x = Some p \<Longrightarrow> p \<in> mb_id ` K"
  shows "K \<subseteq> set (delete_where P rows)"
  unfolding delete_where_def by (rule drop_orphans_closed) (use assms in auto)

lemma UpdateGroupMemberCount_frame:
  assumes "UpdateGroupMemberCount gid db = (r, db')"
  shows "same_frame db db' \<and> md_memberships db' = md_memberships db \<and> md_group_members db' = md_group_members db \<and>
    md_ids_drawn db' = md_ids_drawn db \<and> md_events db' = md_events db"
  using assms by (auto simp: UpdateGroupMemberCount_def same_frame_def map_update_row split: if_splits)

lemma update_counts_frame:
  assumes "update_counts gids db = (r, db')"
  shows "same_frame db db' \<and> md_memberships db' = md_memberships db \<and> md_group_members db' = md_group_members db \<and>
    md_ids_drawn db' = md_ids_drawn db \<and> md_events db' = md_events db"
  using assms
proof (induction gids arbitrary: db)
  case (Cons gid gids)
  obtain r1 db1 where u: "UpdateGroupMemberCount gid db = (r1, db1)" by fastforce
  note f = UpdateGroupMemberCount_frame [OF u]
  show ?case
  proof (cases r1)
    case (Inl x)
    then show ?thesis using Cons.prems u f by auto
  next
    case (Inr y)
    then have "update_counts gids db1 = (r, db')" using Cons.prems u by simp
    from Cons.IH [OF this] f show ?thesis using same_frame_trans by auto
  qed
qed simp

text \<open>
  \<open>Delete\<close> on an organization membership: it removes that membership and no other organization membership,
  every membership of the user with an edge to the organization, and the user from the groups of it.
\<close>

lemma mr_Delete_org:
  assumes ok: "members_ok db" and m: "m \<in> set (md_memberships db)" "org_membership m" and del: "mr_Delete (mb_id m) db = (r, db')"
  shows "same_frame db db'" and "md_ids_drawn db' = md_ids_drawn db" and "md_events db' = md_events db"
    and "set (md_memberships db') \<subseteq> {x \<in> set (md_memberships db). \<not> (mb_member x = mb_member m \<and> mb_org x = Some (mb_resource m))}"
    and "\<And>x. x \<in> set (md_memberships db) \<Longrightarrow> org_membership x \<Longrightarrow> x \<noteq> m \<Longrightarrow> x \<in> set (md_memberships db')"
    and "md_group_members db' = map (\<lambda>x. if in_group_of_org db (mb_member m) (mb_resource m) x then x\<lparr>gmb_deleted := True\<rparr> else x)
           (md_group_members db)"
    and "members_ok db'"
    and "\<And>K. K \<subseteq> {x \<in> set (md_memberships db). \<not> (mb_member x = mb_member m \<and> mb_org x = Some (mb_resource m))} \<Longrightarrow>
           (\<And>x p. x \<in> K \<Longrightarrow> mb_parent x = Some p \<Longrightarrow> p \<in> mb_id ` K) \<Longrightarrow> K \<subseteq> set (md_memberships db')"
proof -
  have dist: "distinct (map mb_id (md_memberships db))" and mo: "mb_org m = Some (mb_resource m)" and mp: "mb_parent m = None"
    using members_okD(1) [OF ok] m by (auto simp: members_base_def org_membership_def)
  have inj: "x = m" if "x \<in> set (md_memberships db)" "mb_id x = mb_id m" for x
    using dist m(1) that by (metis inj_onD distinct_map)
  have "only (\<lambda>x. mb_id x = mb_id m) (md_memberships db) = Inr (Some m)"
    by (rule only_unique) (use dist m(1) inj in \<open>auto simp: distinct_map\<close>)
  moreover obtain org where org: "org_by_id db (mb_org m) = Some org" using members_okD(1) [OF ok] m(1) mo unfolding members_base_def by blast
  moreover have oid: "mo_id org = mb_resource m" using org mo by (auto simp: org_by_id_def dest: find_SomeD)
  moreover have "list_ex (\<lambda>x. mb_id x = mb_id m) (md_memberships db)" using m(1) by (auto simp: list_ex_iff)
  moreover define db1 where "db1 = db\<lparr>md_memberships :=
      delete_where (\<lambda>x. mb_id x \<noteq> mb_id m \<and> mb_member x = mb_member m \<and> mb_org x = Some (mb_resource m))
        (delete_where (\<lambda>x. mb_id x = mb_id m) (md_memberships db)),
      md_group_members := map (\<lambda>x. if in_group_of_org db (mb_member m) (mb_resource m) x then x\<lparr>gmb_deleted := True\<rparr> else x)
           (md_group_members db)\<rparr>"
  ultimately obtain gids where "update_counts gids db1 = (r, db')"
    using del m(2) by (simp add: mr_Delete_def WithTx_def delete_membership_tx_def Let_def)
  note frame = update_counts_frame [OF this]
  have sf: "same_frame db db1" by (simp add: db1_def same_frame_def)
  show frame1: "same_frame db db'" using frame sf same_frame_trans by blast
  show drawn: "md_ids_drawn db' = md_ids_drawn db" and "md_events db' = md_events db" using frame by (simp_all add: db1_def)
  have ms: "md_memberships db' = md_memberships db1" using frame by simp
  show sub: "set (md_memberships db') \<subseteq> {x \<in> set (md_memberships db). \<not> (mb_member x = mb_member m \<and> mb_org x = Some (mb_resource m))}"
  proof
    fix x assume "x \<in> set (md_memberships db')"
    then have a: "\<not> (mb_id x \<noteq> mb_id m \<and> mb_member x = mb_member m \<and> mb_org x = Some (mb_resource m))"
        and "x \<in> set (delete_where (\<lambda>x. mb_id x = mb_id m) (md_memberships db))"
      unfolding ms db1_def using delete_where_subset by (simp_all, blast+)
    then have "x \<in> set (md_memberships db)" "mb_id x \<noteq> mb_id m" using delete_where_subset by blast+
    with a show "x \<in> {x \<in> set (md_memberships db). \<not> (mb_member x = mb_member m \<and> mb_org x = Some (mb_resource m))}" by blast
  qed
  show "md_group_members db' = map (\<lambda>x. if in_group_of_org db (mb_member m) (mb_resource m) x then x\<lparr>gmb_deleted := True\<rparr> else x)
      (md_group_members db)" using frame by (simp add: db1_def)
  show "members_ok db'"
    by (rule members_ok_subset [OF ok frame1 drawn]) (use sub dist in \<open>auto simp: ms db1_def delete_where_distinct\<close>)
  show "K \<subseteq> set (md_memberships db')"
    if K: "K \<subseteq> {x \<in> set (md_memberships db). \<not> (mb_member x = mb_member m \<and> mb_org x = Some (mb_resource m))}"
      "\<And>x p. x \<in> K \<Longrightarrow> mb_parent x = Some p \<Longrightarrow> p \<in> mb_id ` K" for K
  proof -
    have "K \<subseteq> {x \<in> set (md_memberships db). mb_id x \<noteq> mb_id m}" using K(1) inj mo by auto
    then have "K \<subseteq> set (delete_where (\<lambda>x. mb_id x = mb_id m) (md_memberships db))" by (intro delete_where_closed K(2)) auto
    then show ?thesis unfolding ms db1_def using K(1) by (simp, intro delete_where_closed K(2)) auto
  qed
  show "x \<in> set (md_memberships db')" if x: "x \<in> set (md_memberships db)" "org_membership x" "x \<noteq> m" for x
  proof -
    have xp: "mb_parent x = None" and xo: "mb_org x = Some (mb_resource x)" using members_okD(1) [OF ok] x by (auto simp: members_base_def org_membership_def)
    have "mb_id x \<noteq> mb_id m" using inj x by blast
    moreover have "\<not> (mb_member x = mb_member m \<and> mb_org x = Some (mb_resource m))"
      using members_okD(1) [OF ok] m x xo unfolding members_base_def by (metis option.inject)
    ultimately show ?thesis unfolding ms db1_def using x(1) xp by (auto intro!: delete_where_keeps)
  qed
qed

lemma owners_after_delete:
  assumes ok: "members_ok db" and m: "m \<in> set (md_memberships db)" "org_membership m" and del: "mr_Delete (mb_id m) db = (r, db')"
    and o: "u \<in> owners db org" "u \<noteq> mb_member m \<or> org \<noteq> mb_resource m"
  shows "u \<in> owners db' org"
proof -
  obtain x where x: "x \<in> set (md_memberships db)" "org_membership x" "mb_resource x = org" "mb_role x = RoleOwner" "mb_member x = u"
    using o(1) by (auto simp: owners_def)
  with o(2) have "x \<noteq> m" by auto
  from mr_Delete_org(5) [OF ok m del x(1,2) this] show ?thesis using x by (auto simp: owners_def)
qed

section \<open>The other operations\<close>

text \<open>Changing the role of a row, or which organization is current, changes no other column.\<close>

definition same_but :: "(membership_row \<Rightarrow> membership_row) \<Rightarrow> bool" where
  "same_but f \<longleftrightarrow> (\<forall>m. \<exists>c r. f m = m\<lparr>mb_current := c, mb_role := r\<rparr>)"

lemma same_but_columns:
  assumes "same_but f"
  shows "mb_id (f m) = mb_id m" "mb_member (f m) = mb_member m" "mb_resource (f m) = mb_resource m"
    "mb_org (f m) = mb_org m" "mb_user (f m) = mb_user m" "mb_parent (f m) = mb_parent m" "mb_type (f m) = mb_type m"
    "mb_resource_type (f m) = mb_resource_type m" "org_membership (f m) = org_membership m"
proof -
  obtain c r where "f m = m\<lparr>mb_current := c, mb_role := r\<rparr>" using assms unfolding same_but_def by blast
  then show "mb_id (f m) = mb_id m" "mb_member (f m) = mb_member m" "mb_resource (f m) = mb_resource m"
    "mb_org (f m) = mb_org m" "mb_user (f m) = mb_user m" "mb_parent (f m) = mb_parent m" "mb_type (f m) = mb_type m"
    "mb_resource_type (f m) = mb_resource_type m" "org_membership (f m) = org_membership m"
    by (simp_all add: org_membership_def)
qed

lemma members_ok_map:
  assumes ok: "members_base db" and f: "same_but f"
    and cur: "\<And>m m'. m \<in> set (md_memberships db) \<Longrightarrow> m' \<in> set (md_memberships db) \<Longrightarrow> org_membership m \<Longrightarrow> org_membership m' \<Longrightarrow>
      mb_member m = mb_member m' \<Longrightarrow> mb_current (f m) \<Longrightarrow> mb_current (f m') \<Longrightarrow> m = m'"
  shows "members_ok (db\<lparr>md_memberships := map f (md_memberships db)\<rparr>)" (is "members_ok ?db")
proof -
  note cols = same_but_columns [OF f]
  have same: "org_by_id ?db = org_by_id db" "user_by_id ?db = user_by_id db" by (simp_all add: org_by_id_def user_by_id_def fun_eq_iff)
  have uniq: "\<forall>m\<in>f ` set (md_memberships db). \<forall>m'\<in>f ` set (md_memberships db). org_membership m \<longrightarrow> org_membership m' \<longrightarrow>
      mb_member m = mb_member m' \<longrightarrow> mb_resource m = mb_resource m' \<longrightarrow> m = m'"
  proof (intro ballI impI)
    fix m m' assume "m \<in> f ` set (md_memberships db)" "m' \<in> f ` set (md_memberships db)" "org_membership m" "org_membership m'"
      "mb_member m = mb_member m'" "mb_resource m = mb_resource m'"
    then obtain x x' where x: "m = f x" "m' = f x'" "x \<in> set (md_memberships db)" "x' \<in> set (md_memberships db)" "org_membership x"
        "org_membership x'" "mb_member x = mb_member x'" "mb_resource x = mb_resource x'"
      by (elim imageE) (simp only: cols)
    then have "x = x'" using ok unfolding members_base_def by blast
    with x show "m = m'" by simp
  qed
  have rows: "set (md_memberships ?db) = f ` set (md_memberships db)" by simp
  have "members_base ?db"
    unfolding members_base_def same
  proof (intro conjI)
    show "\<forall>m\<in>set (md_memberships ?db). \<forall>m'\<in>set (md_memberships ?db). org_membership m \<longrightarrow> org_membership m' \<longrightarrow>
      mb_member m = mb_member m' \<longrightarrow> mb_resource m = mb_resource m' \<longrightarrow> m = m'"
      unfolding rows by (rule uniq)
  qed (use ok in \<open>simp_all add: members_base_def cols o_def image_image\<close>)
  moreover have "one_current ?db u" for u
  proof -
    have "f m = f m'" if "m \<in> set (md_memberships db)" "m' \<in> set (md_memberships db)" "org_membership m" "org_membership m'"
      "mb_member m = u" "mb_member m' = u" "mb_current (f m)" "mb_current (f m')" for m m'
    proof -
      have "m = m'" by (rule cur) (use that in simp_all)
      then show ?thesis by simp
    qed
    then show ?thesis by (simp add: one_current_def cols)
  qed
  ultimately show ?thesis by (simp add: members_ok_def)
qed

lemma owners_map:
  assumes "same_but f" and "\<And>m. mb_role (f m) = mb_role m"
  shows "owners (db\<lparr>md_memberships := map f (md_memberships db)\<rparr>) = owners db"
proof
  fix org
  have "{m \<in> f ` S. org_membership m \<and> mb_resource m = org \<and> mb_role m = RoleOwner} =
      f ` {m \<in> S. org_membership m \<and> mb_resource m = org \<and> mb_role m = RoleOwner}" for S
    using same_but_columns [OF assms(1)] assms(2) by auto
  then show "owners (db\<lparr>md_memberships := map f (md_memberships db)\<rparr>) org = owners db org"
    by (simp add: owners_def image_image same_but_columns [OF assms(1)])
qed

lemma same_but_update: "same_but (\<lambda>r. if mb_id r = i then r\<lparr>mb_role := role\<rparr> else r)"
proof (unfold same_but_def, intro allI)
  fix m :: membership_row
  show "\<exists>c r. (if mb_id m = i then m\<lparr>mb_role := role\<rparr> else m) = m\<lparr>mb_current := c, mb_role := r\<rparr>"
    by (rule exI [of _ "mb_current m"], rule exI [of _ "if mb_id m = i then role else mb_role m"]) (cases m, simp)
qed

lemma members_ok_SetRole:
  assumes ok: "members_ok db" and "mr_SetRole i role db = (r, db')"
  shows "members_ok db'" and "same_frame db db'" and "md_memberships db' = md_memberships db \<or>
    md_memberships db' = map (\<lambda>r. if mb_id r = i then r\<lparr>mb_role := role\<rparr> else r) (md_memberships db)"
proof -
  have "members_ok (db\<lparr>md_memberships := map (\<lambda>r. if mb_id r = i then r\<lparr>mb_role := role\<rparr> else r) (md_memberships db)\<rparr>)"
  proof (rule members_ok_map [OF members_okD(1) [OF ok] same_but_update])
    fix m m' assume "m \<in> set (md_memberships db)" "m' \<in> set (md_memberships db)" "org_membership m" "org_membership m'"
      "mb_member m = mb_member m'" "mb_current (if mb_id m = i then m\<lparr>mb_role := role\<rparr> else m)"
      "mb_current (if mb_id m' = i then m'\<lparr>mb_role := role\<rparr> else m')"
    moreover from this(6,7) have "mb_current m" "mb_current m'" by (simp_all split: if_splits)
    ultimately show "m = m'" using members_okD(2) [OF ok] unfolding one_current_def by blast
  qed
  then show "members_ok db'" "same_frame db db'" "md_memberships db' = md_memberships db \<or>
    md_memberships db' = map (\<lambda>r. if mb_id r = i then r\<lparr>mb_role := role\<rparr> else r) (md_memberships db)"
    using assms by (auto simp: mr_SetRole_def update_row_def same_frame_def Let_def split: if_splits)
qed

lemma members_ok_SetCurrent:
  assumes ok: "members_base db" and m: "m \<in> set (md_memberships db)" "org_membership m"
    and others: "\<And>u. u \<noteq> mb_member m \<Longrightarrow> one_current db u" and set: "mr_SetCurrent (mb_id m) db = (r, db')"
  shows "members_ok db'" and "same_frame db db'" and "owners db' = owners db"
proof -
  have uniq: "x = x'" if "x \<in> set (md_memberships db)" "x' \<in> set (md_memberships db)" "mb_id x = mb_id x'" for x x'
    using ok that unfolding members_base_def distinct_map by (blast dest: inj_onD)
  have "find (\<lambda>x. mb_id x = mb_id m) (md_memberships db) = Some m"
    using ok m(1) find_by_id [of mb_id] unfolding members_base_def by blast
  then have db': "db' = db\<lparr>md_memberships := set_current_rows m (md_memberships db)\<rparr>"
    using set by (simp add: mr_SetCurrent_def loadMembership_def entMembershipToBiz_def Let_def)
  let ?f = "\<lambda>x. x\<lparr>mb_current := (mb_id x = mb_id m \<or> mb_current x \<and> \<not> (org_membership x \<and> mb_member x = mb_member m))\<rparr>"
  have f: "set_current_rows m (md_memberships db) = map ?f (md_memberships db)"
    by (simp add: set_current_rows_def update_row_def)
  have sb: "same_but ?f"
  proof (unfold same_but_def, intro allI)
    fix x :: membership_row
    show "\<exists>c r. ?f x = x\<lparr>mb_current := c, mb_role := r\<rparr>"
      by (rule exI [of _ "mb_current (?f x)"], rule exI [of _ "mb_role x"]) (cases x, simp)
  qed
  show "members_ok db'" unfolding db' f
  proof (rule members_ok_map [OF ok sb])
    fix x x' assume xs: "x \<in> set (md_memberships db)" "x' \<in> set (md_memberships db)" "org_membership x" "org_membership x'"
      "mb_member x = mb_member x'" and cur: "mb_current (?f x)" "mb_current (?f x')"
    show "x = x'"
    proof (cases "mb_member x = mb_member m")
      case True
      have "mb_id x = mb_id m" using cur(1) xs(3) True by simp
      moreover have "mb_id x' = mb_id m" using cur(2) xs(4,5) True by simp
      ultimately have "x = m" "x' = m" using uniq xs(1,2) m(1) by blast+
      then show ?thesis by simp
    next
      case False
      then have "x \<noteq> m" "x' \<noteq> m" using xs(5) by auto
      then have "mb_id x \<noteq> mb_id m" "mb_id x' \<noteq> mb_id m" using uniq xs(1,2) m(1) by blast+
      then have "mb_current x" "mb_current x'" using cur by simp_all
      then show ?thesis using others [OF False] xs unfolding one_current_def by simp
    qed
  qed
  show "owners db' = owners db"
    unfolding db' f by (rule owners_map [OF sb]) simp
  show "same_frame db db'" by (simp add: db' same_frame_def)
qed

text \<open>A new row with fresh identifier, unique subject and existing edges.\<close>

lemma members_base_insert:
  assumes ok: "members_base db" and ins: "insert_membership db m = Inr db'" and new: "mb_id m = md_ids db (md_ids_drawn db)"
    and m: "mb_type m = MembershipTypeUser" "mb_parent m = None"
      "org_membership m \<Longrightarrow> mb_user m = Some (mb_member m)" "mb_resource_type m = ResourceTypeOrganization \<Longrightarrow> mb_org m = Some (mb_resource m)"
  shows "members_base db'" and "same_frame db db'" and "md_memberships db' = md_memberships db @ [m]"
proof -
  have db': "db' = db\<lparr>md_memberships := md_memberships db @ [m], md_ids_drawn := Suc (md_ids_drawn db)\<rparr>"
    and fk: "mb_org m \<noteq> None \<Longrightarrow> org_by_id db (mb_org m) \<noteq> None" "mb_user m \<noteq> None \<Longrightarrow> user_by_id db (mb_user m) \<noteq> None"
    and dup: "\<And>m'. m' \<in> set (md_memberships db) \<Longrightarrow> mb_parent m' = None \<Longrightarrow> \<not> same_subject_and_resource m m'"
    using ins m(2) by (auto simp: insert_membership_def list_ex_iff split: if_splits)
  show "same_frame db db'" "md_memberships db' = md_memberships db @ [m]" by (simp_all add: db' same_frame_def)
  have same: "org_by_id db' = org_by_id db" "user_by_id db' = user_by_id db"
    by (simp_all add: db' org_by_id_def user_by_id_def fun_eq_iff)
  have "md_ids db n \<noteq> mb_id m" if "n \<ge> Suc (md_ids_drawn db)" for n
    using ok that new unfolding members_base_def by (metis injD not_less_eq_eq le_refl)
  moreover have "mb_id m \<notin> mb_id ` set (md_memberships db)" using ok new unfolding members_base_def by simp
  moreover have "\<not> (org_membership m' \<and> mb_member m = mb_member m' \<and> mb_resource m = mb_resource m')"
    if "m' \<in> set (md_memberships db)" "org_membership m" for m'
    using dup [OF that(1)] that ok m(1) unfolding members_base_def same_subject_and_resource_def org_membership_def by metis
  moreover from this have "\<not> (org_membership m' \<and> mb_member m' = mb_member m \<and> mb_resource m' = mb_resource m)"
    if "m' \<in> set (md_memberships db)" "org_membership m" for m'
    using that by metis
  ultimately show "members_base db'"
    using ok m fk unfolding members_base_def same
    by (auto simp: db')
qed

section \<open>What each request does\<close>

lemma dispatch_frame [simp]:
  "md_memberships (dispatch ev db) = md_memberships db" "md_group_members (dispatch ev db) = md_group_members db"
  "same_frame db (dispatch ev db)" "owners (dispatch ev db) = owners db" "members_ok (dispatch ev db) = members_ok db"
  "md_ids_drawn (dispatch ev db) = md_ids_drawn db" "md_groups (dispatch ev db) = md_groups db"
  by (simp_all add: dispatch_def same_frame_def owners_def fun_eq_iff members_ok_def members_base_def one_current_def
      org_by_id_def user_by_id_def)

lemma found_in:
  assumes "bind_res (only P (md_memberships db)) (\<lambda>m. Inr (map_option (entMembershipToBiz db True True) m)) = Inr (Some m)"
  shows "bm_row m \<in> set (md_memberships db) \<and> P (bm_row m) \<and> m = entMembershipToBiz db True True (bm_row m)"
proof -
  obtain x where "only P (md_memberships db) = Inr (Some x)" "m = entMembershipToBiz db True True x"
    using assms by (auto simp: bind_res_eq_Inr)
  then show ?thesis using only_Some [of P "md_memberships db" x] by (simp add: entMembershipToBiz_def Let_def)
qed

lemma other_membership_ok:
  assumes ok: "members_ok db" and "other_membership parse db orgID userID membershipID msg = Inr (mid, m, u)"
  shows "parse orgID = Inr (mb_resource (bm_row m)) \<and> bm_row m \<in> set (md_memberships db) \<and> mid = mb_id (bm_row m) \<and>
    org_membership (bm_row m) \<and> mb_member (bm_row m) \<noteq> userID \<and> usr_id u = mb_member (bm_row m)"
proof -
  obtain oid where oid: "parse orgID = Inr oid" and find: "mr_FindByIDInOrg db oid mid = Inr (Some m)" and u: "bm_user m = Some u"
      and ne: "usr_id u \<noteq> userID"
    using assms(2) by (auto simp: other_membership_def parse_or_invalid_def bind_res_eq_Inr split: option.splits if_splits)
  from find have m: "bm_row m \<in> set (md_memberships db)" "org_membership (bm_row m)" "mb_resource (bm_row m) = oid" "mb_id (bm_row m) = mid"
      "m = entMembershipToBiz db True True (bm_row m)"
    unfolding mr_FindByIDInOrg_def using found_in by blast+
  have "mb_user (bm_row m) = Some (mb_member (bm_row m))"
    using members_okD(1) [OF ok] m(1,2) unfolding members_base_def by blast
  moreover have "bm_user m = user_by_id db (mb_user (bm_row m))"
    by (subst m(5)) (simp add: entMembershipToBiz_def Let_def)
  ultimately have "find (\<lambda>x. usr_id x = mb_member (bm_row m)) (md_users db) = Some u" using u by (simp add: user_by_id_def)
  then have "usr_id u = mb_member (bm_row m)" using find_SomeD by fastforce
  then show ?thesis using oid m ne by simp
qed

lemma DeleteOther_cases:
  assumes "DeleteOther parse enforce orgID userID membershipID callerRole db = (r, db')"
  obtains (refused) x where "r = Inl x" "db' = db"
  | (deleted) mid m u r1 db1 where "other_membership parse db orgID userID membershipID ''cannot delete yourself from the org'' = Inr (mid, m, u)"
      "mb_role (bm_row m) = RoleOwner \<longrightarrow> enforce callerRole PolicyOrganizationManageOwners = Inr True"
      "mr_Delete mid db = (r1, db1)" "db' = db1 \<or> (\<exists>ev. db' = dispatch ev db1)" "r = Inr () \<longrightarrow> r1 = Inr ()"
proof (cases "bind_res (other_membership parse db orgID userID membershipID ''cannot delete yourself from the org'') (\<lambda>(mid, m, u).
           bind_res (if mb_role (bm_row m) = RoleOwner then enforceManageOwners enforce callerRole errMsgOnlyOwnersManageOwners
                     else Inr ()) (\<lambda>_. Inr (mid, m, u)))")
  case (Inl x)
  then have "r = Inl x" "db' = db" using assms by (simp_all add: DeleteOther_def)
  then show thesis by (rule refused)
next
  case (Inr y)
  obtain mid m u where y: "y = (mid, m, u)" by (cases y) auto
  obtain r1 db1 where del: "mr_Delete mid db = (r1, db1)" by fastforce
  have "other_membership parse db orgID userID membershipID ''cannot delete yourself from the org'' = Inr (mid, m, u)"
    and "mb_role (bm_row m) = RoleOwner \<longrightarrow> enforce callerRole PolicyOrganizationManageOwners = Inr True"
    using Inr y by (auto simp: bind_res_eq_Inr enforceManageOwners_def split: if_splits)
  moreover have "(db' = db1 \<or> (\<exists>ev. db' = dispatch ev db1)) \<and> (r = Inr () \<longrightarrow> r1 = Inr ())"
    using assms Inr y del by (auto simp: DeleteOther_def split: sum.splits option.splits)
  ultimately show thesis using del deleted by blast
qed

lemma UpdateRole_cases:
  assumes "UpdateRole parse enforce orgID userID membershipID role callerRole db = (r, db')"
  obtains (refused) x where "r = Inl x" "db' = db"
  | (updated) mid m u r1 db1 where "other_membership parse db orgID userID membershipID ''cannot update yourself'' = Inr (mid, m, u)"
      "mb_role (bm_row m) = RoleOwner \<or> role = RoleOwner \<longrightarrow> enforce callerRole PolicyOrganizationManageOwners = Inr True"
      "mr_SetRole mid role db = (r1, db1)" "db' = db1 \<or> (\<exists>ev. db' = dispatch ev db1)"
proof (cases "bind_res (other_membership parse db orgID userID membershipID ''cannot update yourself'') (\<lambda>(mid, m, u).
           bind_res (if mb_role (bm_row m) = RoleOwner \<or> role = RoleOwner
                     then enforceManageOwners enforce callerRole errMsgOnlyOwnersManageOwners else Inr ()) (\<lambda>_.
           bind_res (parse_or_invalid parse (usr_id u)) (\<lambda>uid. Inr (mid, m, uid, find (\<lambda>x. usr_id x = uid) (md_users db)))))")
  case (Inl x)
  then have "(\<exists>x. r = Inl x) \<and> db' = db" using assms by (auto simp: UpdateRole_def split: if_splits)
  then show thesis using refused by blast
next
  case (Inr y)
  obtain mid m uid user where y: "y = (mid, m, uid, user)" by (cases y) auto
  obtain r1 db1 where set: "mr_SetRole mid role db = (r1, db1)" by fastforce
  have "\<exists>u. other_membership parse db orgID userID membershipID ''cannot update yourself'' = Inr (mid, m, u)"
    and "mb_role (bm_row m) = RoleOwner \<or> role = RoleOwner \<longrightarrow> enforce callerRole PolicyOrganizationManageOwners = Inr True"
    using Inr y by (auto simp: bind_res_eq_Inr enforceManageOwners_def split: if_splits)
  moreover have "db' = db1 \<or> (\<exists>ev. db' = dispatch ev db1)" if "role \<noteq> []"
    using assms Inr y set that by (auto simp: UpdateRole_def split: sum.splits option.splits)
  moreover have "r = Inl (NewErrValidationStr ''role is required'') \<and> db' = db" if "role = []"
    using assms that by (simp add: UpdateRole_def)
  ultimately show thesis using set refused updated by blast
qed

lemma Leave_cases:
  assumes "Leave parse newest_first others userID membershipID db = (r, db')"
  obtains (refused) x where "r = Inl x" "db' = db"
  | (left) uid and m :: biz_membership and r1 db1 where "parse userID = Inr uid" "bm_row m \<in> set (md_memberships db)" "org_membership (bm_row m)"
      "mb_member (bm_row m) = uid" "\<not> isUserSoleOwner newest_first db (mb_resource (bm_row m)) uid"
      "mr_Delete (mb_id (bm_row m)) (others db) = (r1, db1)" "db' = db1 \<or> (\<exists>ev. db' = dispatch ev db1)" "r = Inr () \<longrightarrow> r1 = Inr ()"
      "parse membershipID = Inr (mb_id (bm_row m))"
proof (cases "bind_res (parse_or_invalid parse membershipID) (\<lambda>mid. bind_res (parse_or_invalid parse userID) (\<lambda>uid.
           bind_res (map_err (Wrapf ''failed to find membership: %w'' []) (mr_FindByIDInUser db uid mid)) (\<lambda>m.
             case m of
               None \<Rightarrow> Inl (NewErrNotFound ''membership'')
             | Some m \<Rightarrow> if isUserSoleOwner newest_first db (bm_OrganizationID m) uid
                 then Inl (NewErrValidationStr ''cannot leave organization as the sole owner. Please add another owner or delete the organization instead'')
                 else Inr (mid, m))))")
  case (Inl x)
  then have "r = Inl x" "db' = db" using assms by (simp_all add: Leave_def)
  then show thesis by (rule refused)
next
  case (Inr y)
  obtain mid m where y: "y = (mid, m)" by (cases y) auto
  obtain uid where uid: "parse userID = Inr uid" and find: "mr_FindByIDInUser db uid mid = Inr (Some m)"
      and sole: "\<not> isUserSoleOwner newest_first db (bm_OrganizationID m) uid" and mid: "parse membershipID = Inr mid"
    using Inr y by (auto simp: bind_res_eq_Inr parse_or_invalid_def split: option.splits if_splits)
  from find have m: "bm_row m \<in> set (md_memberships db)" "org_membership (bm_row m)" "mb_member (bm_row m) = uid" "mb_id (bm_row m) = mid"
      "m = entMembershipToBiz db True True (bm_row m)"
    unfolding mr_FindByIDInUser_def using found_in by blast+
  have "bm_OrganizationID m = mb_resource (bm_row m)"
    using m(2) by (subst m(5)) (simp add: entMembershipToBiz_def Let_def org_membership_def)
  moreover obtain r1 db1 where del: "mr_Delete mid (others db) = (r1, db1)" by fastforce
  moreover have "(db' = db1 \<or> (\<exists>ev. db' = dispatch ev db1)) \<and> (r = Inr () \<longrightarrow> r1 = Inr ())"
    using assms Inr y del by (auto simp: Leave_def split: sum.splits option.splits)
  ultimately show thesis using left [of uid m r1 db1] uid m(1-4) sole mid by simp
qed

text \<open>
  The check of \<open>Leave\<close> reads one page of owners only; it is still right, because an owner who is not on the
  page shares the ownership with everyone on it.
\<close>

lemma not_sole_owner:
  assumes ok: "members_ok db" and arrange: "\<And>rows. mset (newest_first rows) = mset rows"
    and u: "u \<in> owners db org" and "\<not> isUserSoleOwner newest_first db org u"
  shows "owners db org - {u} \<noteq> {}"
proof -
  let ?P = "\<lambda>m. org_membership m \<and> mb_resource m = org \<and> mb_role m = RoleOwner"
  let ?rows = "filter ?P (md_memberships db)"
  have opts: "matches_opts (\<lambda>_ _. False) db \<lparr>lo_membership = None, lo_name = None, lo_email = None, lo_role = Some RoleOwner\<rparr> m
      \<longleftrightarrow> mb_role m = RoleOwner" for m
    by (simp add: matches_opts_def given_def Let_def)
  define page where "page = take 100 (newest_first ?rows)"
  have owners: "owners db org = mb_member ` set ?rows" by (simp add: owners_def)
  have sub: "set page \<subseteq> set ?rows"
    unfolding page_def using set_take_subset [of 100 "newest_first ?rows"] mset_eq_setD [OF arrange [of ?rows]] by simp
  have user: "bm_user (entMembershipToBiz db True True m) = user_by_id db (Some (mb_member m)) \<and> user_by_id db (Some (mb_member m)) \<noteq> None"
    if "m \<in> set ?rows" for m
  proof -
    from that have "m \<in> set (md_memberships db)" "org_membership m" by simp_all
    then have "mb_user m = Some (mb_member m)" "mb_user m \<noteq> None \<longrightarrow> user_by_id db (mb_user m) \<noteq> None"
      using members_okD(1) [OF ok] unfolding members_base_def by blast+
    then show ?thesis by (simp add: entMembershipToBiz_def Let_def)
  qed
  have uid: "map_option usr_id (bm_user (entMembershipToBiz db True True m)) = Some (mb_member m)" if "m \<in> set ?rows" for m
    using user [OF that] by (auto simp: user_by_id_def dest: find_SomeD)
  have "list_ex (\<lambda>o'. map_option usr_id (bm_user o') = Some u) (map (entMembershipToBiz db True True) page) \<longleftrightarrow>
      (\<exists>m\<in>set page. map_option usr_id (bm_user (entMembershipToBiz db True True m)) = Some u)"
    by (simp add: list_ex_iff)
  also have "\<dots> \<longleftrightarrow> (\<exists>m\<in>set page. Some (mb_member m) = Some u)"
    by (rule bex_cong [OF refl]) (use uid sub in \<open>simp only: subset_iff\<close>)
  finally have "isUserSoleOwner newest_first db org u = ((\<exists>m\<in>set page. mb_member m = u) \<and> length page = 1)"
    by (simp add: isUserSoleOwner_def mr_FindByOrg_def opts Let_def oo_Limit_def oo_Offset_def NewDefaultOffsetPaginationOpts_def
        page_def)
  with assms(4) have cases: "(\<forall>m\<in>set page. mb_member m \<noteq> u) \<or> length page \<noteq> 1" by blast
  obtain m where m: "m \<in> set ?rows" "mb_member m = u" using u owners by auto
  have dist: "distinct page"
  proof -
    have "distinct ?rows" using members_okD(1) [OF ok] unfolding members_base_def distinct_map by simp
    then show ?thesis unfolding page_def using arrange mset_eq_imp_distinct_iff distinct_take by metis
  qed
  have nonempty: "page \<noteq> []" using m(1) arrange [of ?rows] unfolding page_def by (auto simp: take_eq_Nil)
  have "\<exists>x\<in>set page. x \<noteq> m"
  proof (cases "m \<in> set page")
    case True
    then have "length page \<noteq> 1" using cases m(2) by blast
    then have "card (set page) \<noteq> 1" using dist distinct_card by metis
    then show ?thesis using True by (metis card_1_singleton_iff One_nat_def empty_iff insertI1 is_singletonI' is_singleton_altdef)
  next
    case False
    then show ?thesis using nonempty by (metis list.set_intros(1) neq_Nil_conv)
  qed
  then obtain x where x: "x \<in> set ?rows" "x \<noteq> m" using sub by blast
  have "mb_member x \<noteq> u"
    using members_okD(1) [OF ok] x m unfolding members_base_def by auto
  then show ?thesis unfolding owners using x(1) by blast
qed

lemma owners_insert: "md_memberships db' = md_memberships db @ [m] \<Longrightarrow> owners db org \<subseteq> owners db' org"
  by (auto simp: owners_def)

lemma one_current_insert:
  assumes "one_current db u" and "md_memberships db' = md_memberships db @ [m]"
    and "\<not> (org_membership m \<and> mb_current m \<and> mb_member m = u)"
  shows "one_current db' u"
  using assms by (auto simp: one_current_def)

lemma members_ok_Create:
  assumes ok: "members_ok db" and "uc_membership_Create parse now orgID userID current role db = (r, db')"
  shows "members_ok db' \<and> owners db org \<subseteq> owners db' org"
proof (cases "bind_res (parse_or_invalid parse orgID) (\<lambda>oid. bind_res (parse_or_invalid parse userID) (\<lambda>uid. Inr (oid, uid)))")
  case (Inl x)
  then show ?thesis using assms by (simp add: uc_membership_Create_def)
next
  case (Inr ids)
  obtain oid uid where ids: "ids = (oid, uid)" by (cases ids)
  let ?role = "case role of None \<Rightarrow> RoleViewer | Some r \<Rightarrow> r"
  define m where "m = \<lparr>mb_id = md_ids db (md_ids_drawn db), mb_user = Some uid, mb_org = Some oid, mb_current = current, mb_created_at = now,
    mb_role = ?role, mb_type = MembershipTypeUser, mb_member = uid, mb_resource_type = ResourceTypeOrganization, mb_resource = oid,
    mb_parent = None\<rparr>"
  show ?thesis
  proof (cases "insert_membership db m")
    case (Inl x)
    then show ?thesis using assms Inr ids
      by (cases x) (simp add: uc_membership_Create_def mr_Create_def m_def Let_def)
  next
    case ins: (Inr db1)
    have org: "org_membership m" and mem: "mb_member m = uid" and cur: "mb_current m = current" by (simp_all add: m_def org_membership_def)
    have base: "members_base db1" and rows: "md_memberships db1 = md_memberships db @ [m]"
      using members_base_insert [OF members_okD(1) [OF ok] ins] by (simp_all add: m_def)
    have "find (\<lambda>x. mb_id x = mb_id m) (md_memberships db1) = Some m"
      using base rows find_by_id [of mb_id "md_memberships db1" m] unfolding members_base_def by simp
    then have load: "loadMembership db1 (mb_id m) = Inr (entMembershipToBiz db1 True True m)" by (simp add: loadMembership_def)
    have new: "mr_Create now oid uid current ?role db = (Inr (entMembershipToBiz db1 True True m), db1)"
      using ins load by (simp add: mr_Create_def m_def Let_def)
    have mono: "owners db org \<subseteq> owners db1 org" using rows by (rule owners_insert)
    have row: "bm_row (entMembershipToBiz db1 True True m) = m" by (simp add: entMembershipToBiz_def Let_def)
    show ?thesis
    proof (cases current)
      case False
      then have "one_current db1 u" for u
        by (intro one_current_insert [OF members_okD(2) [OF ok] rows]) (simp add: cur)
      then have "members_ok db1" using base by (simp add: members_ok_def)
      then show ?thesis using assms Inr ids new mono False by (simp add: uc_membership_Create_def)
    next
      case True
      have others: "one_current db1 u" if "u \<noteq> mb_member m" for u
        by (rule one_current_insert [OF members_okD(2) [OF ok] rows]) (use that in simp)
      have "mr_SetCurrent (mb_id m) db1 = (r, db')" using assms Inr ids new True row by (simp add: uc_membership_Create_def)
      from members_ok_SetCurrent [OF base _ org others this] rows mono show ?thesis by simp
    qed
  qed
qed

lemma members_ok_SetProjectOwner:
  assumes ok: "members_ok db" and "SetProjectOwner now orgID projectID userID db = (r, db')"
  shows "members_ok db' \<and> owners db org \<subseteq> owners db' org"
proof -
  define m where "m = \<lparr>mb_id = md_ids db (md_ids_drawn db), mb_user = None, mb_org = Some orgID, mb_current = False, mb_created_at = now,
    mb_role = RoleProjectAdmin, mb_type = MembershipTypeUser, mb_member = userID, mb_resource_type = ResourceTypeProject,
    mb_resource = projectID, mb_parent = None\<rparr>"
  have "db' = db \<or> insert_membership db m = Inr db'"
    using assms(2) unfolding SetProjectOwner_def mr_AddResourceRole_def m_def [symmetric]
    by (cases "insert_membership db m") (simp_all split: if_splits prod.splits)
  then show ?thesis
  proof
    assume ins: "insert_membership db m = Inr db'"
    have base: "members_base db'" and rows: "md_memberships db' = md_memberships db @ [m]"
      using members_base_insert [OF members_okD(1) [OF ok] ins] by (simp_all add: m_def org_membership_def)
    have "one_current db' u" for u
      using one_current_insert [OF members_okD(2) [OF ok] rows] by (simp add: m_def)
    then show ?thesis using base owners_insert [OF rows] by (simp add: members_ok_def)
  qed (simp add: ok)
qed

lemma uc_SetCurrent_ok:
  assumes ok: "members_ok db" and "uc_SetCurrent parse userID membershipID db = (r, db')"
  shows "members_ok db' \<and> owners db' = owners db"
proof (cases "bind_res (parse_or_invalid parse userID) (\<lambda>uid. bind_res (parse_or_invalid parse membershipID) (\<lambda>mid.
           bind_res (mr_FindByIDInUser db uid mid) (\<lambda>m.
             case m of None \<Rightarrow> Inl (NewErrNotFound ''membership'') | Some _ \<Rightarrow> Inr mid)))")
  case (Inl x)
  then show ?thesis using assms by (simp add: uc_SetCurrent_def)
next
  case (Inr mid)
  then obtain uid m where "mr_FindByIDInUser db uid mid = Inr (Some m)"
    by (auto simp: bind_res_eq_Inr split: option.splits)
  then have m: "bm_row m \<in> set (md_memberships db)" "org_membership (bm_row m)" "mb_id (bm_row m) = mid"
    unfolding mr_FindByIDInUser_def using found_in by blast+
  have "mr_SetCurrent (mb_id (bm_row m)) db = (r, db')" using assms(2) Inr m(3) by (simp add: uc_SetCurrent_def)
  from members_ok_SetCurrent [OF members_okD(1) [OF ok] m(1,2) members_okD(2) [OF ok] this] show ?thesis by blast
qed

section \<open>Owners\<close>

text \<open>
  The requests, each as one step. The caller of a change to another membership is a user whose role is the
  one of their membership in the organization, as the middleware reads it; \<open>enforce\<close> decides for roles as
  the enforcer does.
\<close>

definition is_caller :: "(string \<Rightarrow> uuid res) \<Rightarrow> members_db \<Rightarrow> string \<Rightarrow> string \<Rightarrow> string \<Rightarrow> bool" where
  "is_caller parse db orgID userID callerRole \<longleftrightarrow> \<not> prefix ''api-token:'' callerRole \<and>
     (callerRole = RoleOwner \<longrightarrow> (\<forall>oid. parse orgID = Inr oid \<longrightarrow> userID \<in> owners db oid))"

definition decides_by_role :: "(string \<Rightarrow> authz_policy \<Rightarrow> bool res) \<Rightarrow> bool" where
  "decides_by_role enforce \<longleftrightarrow> (\<forall>role p. \<not> prefix ''api-token:'' role \<longrightarrow> enforce role p = Inr (role_allows role p))"

inductive member_step ::
    "(string \<Rightarrow> uuid res) \<Rightarrow> (string \<Rightarrow> authz_policy \<Rightarrow> bool res) \<Rightarrow> (membership_row list \<Rightarrow> membership_row list) \<Rightarrow> members_db \<Rightarrow> members_db \<Rightarrow> bool"
  for parse enforce newest_first where
  create: "uc_membership_Create parse now orgID userID current role db = (r, db') \<Longrightarrow> member_step parse enforce newest_first db db'"
| set_current: "uc_SetCurrent parse userID membershipID db = (r, db') \<Longrightarrow> member_step parse enforce newest_first db db'"
| project_owner: "SetProjectOwner now oid pid uid db = (r', db') \<Longrightarrow> member_step parse enforce newest_first db db'"
| update_role: "is_caller parse db orgID userID callerRole \<Longrightarrow>
    UpdateRole parse enforce orgID userID membershipID role' callerRole db = (r, db') \<Longrightarrow> member_step parse enforce newest_first db db'"
| delete_other: "is_caller parse db orgID userID callerRole \<Longrightarrow>
    DeleteOther parse enforce orgID userID membershipID callerRole db = (r', db') \<Longrightarrow> member_step parse enforce newest_first db db'"
| leave: "Leave parse newest_first (\<lambda>db. db) userID membershipID db = (r', db') \<Longrightarrow> member_step parse enforce newest_first db db'"

definition keeps_an_owner :: "members_db \<Rightarrow> members_db \<Rightarrow> bool" where
  "keeps_an_owner db db' \<longleftrightarrow> (\<forall>org. owners db org \<noteq> {} \<longrightarrow> owners db' org \<noteq> {})"

lemma owner_role_only:
  assumes "decides_by_role enforce" and "is_caller parse db orgID userID callerRole"
    and "enforce callerRole PolicyOrganizationManageOwners = Inr True"
  shows "callerRole = RoleOwner"
proof -
  have "role_allows callerRole PolicyOrganizationManageOwners" using assms unfolding decides_by_role_def is_caller_def by (metis sum.inject(2))
  then show ?thesis by (rule manage_owners_only)
qed

lemma owners_SetRole:
  assumes ok: "members_ok db" and m: "m \<in> set (md_memberships db)" "org_membership m" and "mr_SetRole (mb_id m) role db = (r, db')"
    and u: "u \<in> owners db org" "u \<noteq> mb_member m \<or> mb_role m \<noteq> RoleOwner \<or> org \<noteq> mb_resource m"
  shows "u \<in> owners db' org"
proof -
  obtain x where x: "x \<in> set (md_memberships db)" "org_membership x" "mb_resource x = org" "mb_role x = RoleOwner" "mb_member x = u"
    using u(1) by (auto simp: owners_def)
  have "x \<noteq> m" using x u(2) by auto
  moreover have "inj_on mb_id (set (md_memberships db))" using members_okD(1) [OF ok] unfolding members_base_def distinct_map by blast
  ultimately have ne: "mb_id x \<noteq> mb_id m" using x(1) m(1) by (blast dest: inj_onD)
  have "x \<in> set (md_memberships db')"
    using members_ok_SetRole(3) [OF ok assms(4)]
  proof
    assume "md_memberships db' = map (\<lambda>r. if mb_id r = mb_id m then r\<lparr>mb_role := role\<rparr> else r) (md_memberships db)"
    then show ?thesis using x(1) ne by (simp add: image_iff)
  qed (simp add: x(1))
  then show ?thesis using x by (auto simp: owners_def)
qed

lemma owner_row:
  assumes "members_ok db" and "u \<in> owners db org" and "m \<in> set (md_memberships db)" "org_membership m" "mb_resource m = org" "mb_member m = u"
  shows "mb_role m = RoleOwner"
proof -
  obtain x where x: "x \<in> set (md_memberships db)" "org_membership x" "mb_resource x = org" "mb_role x = RoleOwner" "mb_member x = u"
    using assms(2) by (auto simp: owners_def)
  have "x = m" using members_okD(1) [OF assms(1)] x assms(3-) unfolding members_base_def by blast
  then show ?thesis using x(4) by simp
qed

lemma step_keeps_owner:
  assumes "member_step parse enforce newest_first db db'" and ok: "members_ok db" and "decides_by_role enforce"
    and arrange: "\<And>rows. mset (newest_first rows) = mset rows" and has: "owners db org \<noteq> {}"
  shows "owners db' org \<noteq> {}"
  using assms(1)
proof cases
  case create
  from members_ok_Create [OF ok this] has show ?thesis by blast
next
  case set_current
  from uc_SetCurrent_ok [OF ok this] has show ?thesis by simp
next
  case project_owner
  from members_ok_SetProjectOwner [OF ok this] has show ?thesis by blast
next
  case (update_role orgID userID callerRole membershipID role' r)
  obtain u where u: "u \<in> owners db org" using has by blast
  from update_role(2) show ?thesis
  proof (cases rule: UpdateRole_cases)
    case (updated mid m us r1 db1)
    note m = other_membership_ok [OF ok updated(1)]
    have "owners db1 org \<noteq> {}"
    proof (cases "mb_role (bm_row m) = RoleOwner \<and> org = mb_resource (bm_row m)")
      case True
      with updated(2) have "callerRole = RoleOwner" using owner_role_only [OF assms(3) update_role(1)] by blast
      then have "userID \<in> owners db org" using update_role(1) m True by (simp add: is_caller_def)
      then have "userID \<in> owners db1 org" using owners_SetRole [OF ok _ _ _, of "bm_row m" role' r1 db1 userID org] m updated(3) by auto
      then show ?thesis by blast
    next
      case False
      then have "u \<in> owners db1 org" using owners_SetRole [OF ok _ _ _ u, of "bm_row m" role' r1 db1] m updated(3) by auto
      then show ?thesis by blast
    qed
    then show ?thesis using updated(4) by auto
  qed (simp add: has)
next
  case (delete_other orgID userID callerRole membershipID r')
  obtain u where u: "u \<in> owners db org" using has by blast
  from delete_other(2) show ?thesis
  proof (cases rule: DeleteOther_cases)
    case (deleted mid m us r1 db1)
    note m = other_membership_ok [OF ok deleted(1)]
    have "owners db1 org \<noteq> {}"
    proof (cases "mb_role (bm_row m) = RoleOwner \<and> org = mb_resource (bm_row m)")
      case True
      with deleted(2) have "callerRole = RoleOwner" using owner_role_only [OF assms(3) delete_other(1)] by blast
      then have "userID \<in> owners db org" using delete_other(1) m True by (simp add: is_caller_def)
      then have "userID \<in> owners db1 org" using owners_after_delete [OF ok, of "bm_row m" r1 db1 userID org] m deleted(3) by auto
      then show ?thesis by blast
    next
      case False
      have "u \<in> owners db1 org"
      proof (rule owners_after_delete [OF ok _ _ _ u])
        show "bm_row m \<in> set (md_memberships db)" "org_membership (bm_row m)" "mr_Delete (mb_id (bm_row m)) db = (r1, db1)"
          using m deleted(3) by auto
        show "u \<noteq> mb_member (bm_row m) \<or> org \<noteq> mb_resource (bm_row m)"
          using False u m owner_row [OF ok] by blast
      qed
      then show ?thesis by blast
    qed
    then show ?thesis using deleted(4) by auto
  qed (simp add: has)
next
  case (leave userID membershipID r')
  from leave show ?thesis
  proof (cases rule: Leave_cases)
    case (left uid m r1 db1)
    obtain u where u: "u \<in> owners db org" "u \<noteq> uid \<or> org \<noteq> mb_resource (bm_row m)"
    proof (cases "org = mb_resource (bm_row m) \<and> uid \<in> owners db org")
      case True
      then have "owners db org - {uid} \<noteq> {}" using not_sole_owner [OF ok arrange, of uid org] left(5) by blast
      then show ?thesis using that by blast
    qed (use has that in blast)
    have "u \<in> owners db1 org"
      by (rule owners_after_delete [OF ok left(2,3) _ u(1)]) (use left u(2) in auto)
    then show ?thesis using left(7) by auto
  qed (simp add: has)
qed

lemma step_keeps_ok:
  assumes "member_step parse enforce newest_first db db'" and ok: "members_ok db"
  shows "members_ok db'"
  using assms(1)
proof cases
  case create
  from members_ok_Create [OF ok this] show ?thesis by blast
next
  case set_current
  from uc_SetCurrent_ok [OF ok this] show ?thesis by simp
next
  case project_owner
  from members_ok_SetProjectOwner [OF ok this] show ?thesis by blast
next
  case (update_role orgID userID callerRole membershipID role' r)
  from update_role(2) show ?thesis
  proof (cases rule: UpdateRole_cases)
    case (updated mid m us r1 db1)
    from members_ok_SetRole(1) [OF ok updated(3)] updated(4) show ?thesis by auto
  qed (simp add: ok)
next
  case (delete_other orgID userID callerRole membershipID r')
  from delete_other(2) show ?thesis
  proof (cases rule: DeleteOther_cases)
    case (deleted mid m us r1 db1)
    note m = other_membership_ok [OF ok deleted(1)]
    have "members_ok db1" using mr_Delete_org(7) [OF ok, of "bm_row m" r1 db1] m deleted(3) by auto
    with deleted(4) show ?thesis by auto
  qed (simp add: ok)
next
  case (leave userID membershipID r')
  from leave show ?thesis
  proof (cases rule: Leave_cases)
    case (left uid m r1 db1)
    from mr_Delete_org(7) [OF ok left(2,3) left(6)] left(7) show ?thesis by auto
  qed (simp add: ok)
qed

text \<open>A request under an enforcer that decides by role and a database that returns the rows it has.\<close>

definition lawful_step ::
    "(string \<Rightarrow> uuid res) \<Rightarrow> (string \<Rightarrow> authz_policy \<Rightarrow> bool res) \<Rightarrow> (membership_row list \<Rightarrow> membership_row list) \<Rightarrow> members_db \<Rightarrow> members_db \<Rightarrow> bool" where
  "lawful_step parse enforce newest_first db db' \<longleftrightarrow> decides_by_role enforce \<and> (\<forall>rows. mset (newest_first rows) = mset rows) \<and>
     member_step parse enforce newest_first db db'"

interpretation members: request_history "lawful_step parse enforce newest_first" members_ok keeps_an_owner
  by unfold_locales (auto simp: lawful_step_def keeps_an_owner_def dest: step_keeps_ok step_keeps_owner)

text \<open>
  C16. Over any sequence of membership requests, by callers whose role is their own, the tables stay
  consistent (one membership per user and organization, one current organization per user) and an
  organization that has an owner never loses the last one.
\<close>

theorem owners_kept:
  assumes "(member_step parse enforce newest_first)\<^sup>*\<^sup>* db db'" and "members_ok db" and "decides_by_role enforce"
    and "\<And>rows. mset (newest_first rows) = mset rows"
  shows "members_ok db' \<and> (owners db org \<noteq> {} \<longrightarrow> owners db' org \<noteq> {})"
proof -
  have "member_step parse enforce newest_first = lawful_step parse enforce newest_first"
    using assms(3,4) by (auto simp: lawful_step_def fun_eq_iff)
  then show ?thesis using members.steps_grow assms(1,2) by (auto simp: keeps_an_owner_def)
qed

text \<open>
  C18. Only owners manage owners: whatever the outcome, a request to change or delete the membership of
  another user leaves the owners of every organization as they are, unless the caller's role is owner.
\<close>

theorem owners_guarded:
  assumes ok: "members_ok db" and "decides_by_role enforce" and "is_caller parse db orgID userID callerRole" and "callerRole \<noteq> RoleOwner"
    and "UpdateRole parse enforce orgID userID membershipID role callerRole db = (r, db') \<or>
         DeleteOther parse enforce orgID userID membershipID callerRole db = (r', db')"
  shows "owners db' = owners db"
proof -
  have denied: "enforce callerRole PolicyOrganizationManageOwners \<noteq> Inr True"
    using owner_role_only [OF assms(2,3)] assms(4) by blast
  from assms(5) show ?thesis
  proof
    assume "UpdateRole parse enforce orgID userID membershipID role callerRole db = (r, db')"
    then show ?thesis
    proof (cases rule: UpdateRole_cases)
      case (updated mid m us r1 db1)
      note m = other_membership_ok [OF ok updated(1)]
      have roles: "mb_role (bm_row m) \<noteq> RoleOwner" "role \<noteq> RoleOwner" using updated(2) denied by blast+
      have "owners db1 = owners db"
        using members_ok_SetRole(3) [OF ok updated(3)]
      proof
        assume rows: "md_memberships db1 = map (\<lambda>r. if mb_id r = mid then r\<lparr>mb_role := role\<rparr> else r) (md_memberships db)"
        have one: "x = bm_row m" if "x \<in> set (md_memberships db)" "mb_id x = mid" for x
          using members_okD(1) [OF ok] m that unfolding members_base_def distinct_map by (blast dest: inj_onD)
        have keep: "{x \<in> set (md_memberships db1). org_membership x \<and> mb_resource x = org \<and> mb_role x = RoleOwner} =
            {x \<in> set (md_memberships db). org_membership x \<and> mb_resource x = org \<and> mb_role x = RoleOwner}" for org
          unfolding rows using roles one by (auto simp: image_iff split: if_splits)
        then show ?thesis by (simp add: owners_def fun_eq_iff)
      qed (simp add: owners_def fun_eq_iff)
      then show ?thesis using updated(4) by auto
    qed simp
  next
    assume "DeleteOther parse enforce orgID userID membershipID callerRole db = (r', db')"
    then show ?thesis
    proof (cases rule: DeleteOther_cases)
      case (deleted mid m us r1 db1)
      note m = other_membership_ok [OF ok deleted(1)]
      have del: "mr_Delete (mb_id (bm_row m)) db = (r1, db1)" using m deleted(3) by blast
      have role: "mb_role (bm_row m) \<noteq> RoleOwner" using deleted(2) denied by blast
      have "owners db1 org = owners db org" for org
      proof
        have "set (md_memberships db1) \<subseteq> set (md_memberships db)" using mr_Delete_org(4) [OF ok _ _ del] m by blast
        then show "owners db1 org \<subseteq> owners db org" by (auto simp: owners_def)
        show "owners db org \<subseteq> owners db1 org"
        proof
          fix u assume u: "u \<in> owners db org"
          have "u \<noteq> mb_member (bm_row m) \<or> org \<noteq> mb_resource (bm_row m)" using owner_row [OF ok u, of "bm_row m"] m role by blast
          then show "u \<in> owners db1 org" using owners_after_delete [OF ok _ _ del u] m by blast
        qed
      qed
      then show ?thesis using deleted(4) by auto
    qed simp
  qed
qed

section \<open>Off-boarding\<close>

lemma no_access_after_delete:
  assumes ok: "members_ok db" and m: "m \<in> set (md_memberships db)" "org_membership m" and del: "mr_Delete (mb_id m) db = (r, db1)"
    and x: "x \<in> set (ListAllMembershipsForUser db1 (mb_member m))" and nil: "mb_resource m \<noteq> uuid_Nil"
  shows "bm_OrganizationID x \<noteq> mb_resource m"
proof -
  note d = mr_Delete_org [OF ok m del]
  have row: "bm_row x \<in> set (md_memberships db1)" and xdef: "x = entMembershipToBiz db1 True False (bm_row x)"
    using x by (auto simp: ListAllMembershipsForUser_def mr_ListAllByUser_def mr_ListGroupMembershipsByUser_def Let_def
        entMembershipToBiz_def split: if_splits)
  have orgid: "bm_OrganizationID x \<noteq> mb_resource m" if "mb_org (bm_row x) \<noteq> Some (mb_resource m)"
  proof (cases "mb_resource_type (bm_row x) = ResourceTypeOrganization")
    case True
    then have "mb_org (bm_row x) = Some (mb_resource (bm_row x))" using members_okD(1) [OF d(7)] row unfolding members_base_def by blast
    moreover have "bm_OrganizationID x = mb_resource (bm_row x)" using True by (subst xdef) (simp add: entMembershipToBiz_def Let_def)
    ultimately show ?thesis using that by auto
  next
    case False
    have eq: "bm_OrganizationID x = (case org_by_id db1 (mb_org (bm_row x)) of Some o' \<Rightarrow> mo_id o' | None \<Rightarrow> uuid_Nil)"
      using False by (subst xdef) (simp add: entMembershipToBiz_def Let_def)
    show ?thesis
    proof (cases "org_by_id db1 (mb_org (bm_row x))")
      case (Some o')
      then have "mb_org (bm_row x) = Some (mo_id o')" by (auto simp: org_by_id_def bind_eq_Some_conv dest: find_SomeD)
      then show ?thesis using eq Some that by auto
    qed (use eq nil in simp)
  qed
  show ?thesis
  proof (cases "mb_type (bm_row x)")
    case MembershipTypeUser
    then have "mb_member (bm_row x) = mb_member m"
      using x by (auto simp: ListAllMembershipsForUser_def mr_ListAllByUser_def mr_ListGroupMembershipsByUser_def Let_def
          entMembershipToBiz_def split: if_splits)
    then show ?thesis using d(4) row orgid by blast
  next
    case MembershipTypeGroup
    then obtain gm where gm: "gm \<in> set (md_group_members db1)" "gmb_user gm = mb_member m" "\<not> gmb_deleted gm"
        "gmb_group gm = mb_member (bm_row x)"
      using x by (auto simp: ListAllMembershipsForUser_def mr_ListAllByUser_def mr_ListGroupMembershipsByUser_def Let_def
          entMembershipToBiz_def split: if_splits)
    obtain g where g: "g \<in> set (md_groups db)" "gr_id g = mb_member (bm_row x)" "mb_org (bm_row x) = Some (gr_org g)"
      using members_okD(1) [OF ok] row d(4) MembershipTypeGroup unfolding members_base_def by blast
    have "\<not> in_group_of_org db (mb_member m) (mb_resource m) gm"
      using gm(1,3) unfolding d(6) by (auto split: if_splits)
    then have "gr_org g \<noteq> mb_resource m" using gm g by (auto simp: in_group_of_org_def list_ex_iff)
    then show ?thesis using orgid g(3) by auto
  qed
qed

lemma ListAll_dispatch [simp]: "ListAllMembershipsForUser (dispatch ev db) u = ListAllMembershipsForUser db u"
proof -
  have "entMembershipToBiz (dispatch ev db) a b m = entMembershipToBiz db a b m" for a b m
    by (simp add: entMembershipToBiz_def org_by_id_def user_by_id_def dispatch_def)
  then have ent: "entMembershipToBiz (dispatch ev db) a b = entMembershipToBiz db a b" for a b by (simp add: fun_eq_iff)
  show ?thesis by (simp add: ListAllMembershipsForUser_def mr_ListAllByUser_def mr_ListGroupMembershipsByUser_def Let_def ent)
qed

text \<open>The organizations of a user are those of their organization memberships, direct ones and ones of groups.\<close>

lemma fold_org_scope:
  "set (fst (fold (add_org_scope ms) xs acc)) =
     set (fst acc) \<union> {mb_resource (bm_row x) | x. x \<in> set xs \<and> mb_resource_type (bm_row x) = ResourceTypeOrganization}"
  by (induction xs arbitrary: acc) (auto simp: add_org_scope_def Let_def)

lemma user_orgs:
  "set (fst (GetOrgsAndRBACInfoForUser db u)) =
     {mb_resource (bm_row x) | x. x \<in> set (ListAllMembershipsForUser db u) \<and> mb_resource_type (bm_row x) = ResourceTypeOrganization}"
  by (simp add: GetOrgsAndRBACInfoForUser_def Let_def fold_org_scope)

lemma listed_org_id:
  assumes "x \<in> set (ListAllMembershipsForUser db u)" and "mb_resource_type (bm_row x) = ResourceTypeOrganization"
  shows "bm_OrganizationID x = mb_resource (bm_row x)"
  using assms by (auto simp: ListAllMembershipsForUser_def mr_ListAllByUser_def mr_ListGroupMembershipsByUser_def Let_def
      entMembershipToBiz_def split: if_splits)

lemma removed_membership:
  assumes ok: "members_ok db"
    and "DeleteOther parse enforce orgID callerID membershipID callerRole db = (Inr (), db') \<or>
         Leave parse newest_first (\<lambda>db. db) callerID membershipID db = (Inr (), db')"
  obtains m r1 db1 where "m \<in> set (md_memberships db)" "org_membership m" "parse membershipID = Inr (mb_id m)"
    "mr_Delete (mb_id m) db = (r1, db1)" "db' = db1 \<or> (\<exists>ev. db' = dispatch ev db1)"
  using assms(2)
proof
  assume "DeleteOther parse enforce orgID callerID membershipID callerRole db = (Inr (), db')"
  then show thesis
  proof (cases rule: DeleteOther_cases)
    case (deleted mid m u r1 db1)
    have "parse membershipID = Inr mid"
      using deleted(1) by (auto simp: other_membership_def bind_res_eq_Inr parse_or_invalid_def split: option.splits if_splits)
    then show thesis using that [of "bm_row m" r1 db1] other_membership_ok [OF ok deleted(1)] deleted(3,4) by blast
  qed simp
next
  assume "Leave parse newest_first (\<lambda>db. db) callerID membershipID db = (Inr (), db')"
  then show thesis
  proof (cases rule: Leave_cases)
    case (left uid m r1 db1)
    then show thesis using that [of "bm_row m" r1 db1] by blast
  qed simp
qed

lemma offboarded:
  assumes ok: "members_ok db" and nil: "uuid_Nil \<notin> mo_id ` set (md_orgs db)"
    and "DeleteOther parse enforce orgID callerID membershipID callerRole db = (Inr (), db') \<or>
         Leave parse newest_first (\<lambda>db. db) callerID membershipID db = (Inr (), db')"
  shows "\<exists>m\<in>set (md_memberships db). parse membershipID = Inr (mb_id m) \<and> org_membership m \<and>
    (\<forall>x\<in>set (ListAllMembershipsForUser db' (mb_member m)). bm_OrganizationID x \<noteq> mb_resource m) \<and>
    mb_resource m \<notin> set (fst (GetOrgsAndRBACInfoForUser db' (mb_member m))) \<and>
    (\<forall>x\<in>set (md_memberships db). org_membership x \<longrightarrow> x \<noteq> m \<longrightarrow> x \<in> set (md_memberships db'))"
proof -
  obtain m r1 db1 where m: "m \<in> set (md_memberships db)" "org_membership m" "parse membershipID = Inr (mb_id m)"
      and del: "mr_Delete (mb_id m) db = (r1, db1)" and db': "db' = db1 \<or> (\<exists>ev. db' = dispatch ev db1)"
    using removed_membership [OF ok assms(3)] .
  have "mb_resource m \<noteq> uuid_Nil"
  proof -
    have "mb_org m = Some (mb_resource m)" "org_by_id db (mb_org m) \<noteq> None"
      using members_okD(1) [OF ok] m(1,2) unfolding members_base_def org_membership_def by blast+
    then obtain o' where "find (\<lambda>o'. mo_id o' = mb_resource m) (md_orgs db) = Some o'" by (auto simp: org_by_id_def)
    then have "o' \<in> set (md_orgs db)" "mo_id o' = mb_resource m" using find_SomeD by fastforce+
    then show ?thesis using nil by (metis image_eqI)
  qed
  then have gone: "bm_OrganizationID x \<noteq> mb_resource m" if "x \<in> set (ListAllMembershipsForUser db' (mb_member m))" for x
    using no_access_after_delete [OF ok m(1,2) del] that db' by auto
  moreover have "mb_resource m \<notin> set (fst (GetOrgsAndRBACInfoForUser db' (mb_member m)))"
    unfolding user_orgs using gone listed_org_id by force
  moreover have "x \<in> set (md_memberships db')" if "x \<in> set (md_memberships db)" "org_membership x" "x \<noteq> m" for x
    using mr_Delete_org(5) [OF ok m(1,2) del that] db' by auto
  ultimately show ?thesis using m by blast
qed

text \<open>An inherited membership belongs to the member and the organization of the one it is inherited from.\<close>

definition inherits_own :: "members_db \<Rightarrow> bool" where
  "inherits_own db \<longleftrightarrow> (\<forall>x\<in>set (md_memberships db). \<forall>p. mb_parent x = Some p \<longrightarrow>
     (\<exists>y\<in>set (md_memberships db). mb_id y = p \<and> mb_member y = mb_member x \<and> mb_org y = mb_org x))"

text \<open>
  C17. Off-boarding is complete and removes nothing else: once a user has been removed from an organization, or has
  left it, no membership that the user has, directly or through a group, is in the organization any more, and the
  organization is not one of the user's. The memberships that are gone, on organizations, projects, products and
  groups, are exactly the ones of that user in that organization, and every other user stays in every group.
\<close>

theorem offboarding_complete:
  assumes "members_ok db" and "uuid_Nil \<notin> mo_id ` set (md_orgs db)" and own: "inherits_own db"
    and removal: "DeleteOther parse enforce orgID callerID membershipID callerRole db = (Inr (), db') \<or>
         Leave parse newest_first (\<lambda>db. db) callerID membershipID db = (Inr (), db')"
  shows "\<exists>m\<in>set (md_memberships db). parse membershipID = Inr (mb_id m) \<and> org_membership m \<and>
    (\<forall>x\<in>set (ListAllMembershipsForUser db' (mb_member m)). bm_OrganizationID x \<noteq> mb_resource m) \<and>
    mb_resource m \<notin> set (fst (GetOrgsAndRBACInfoForUser db' (mb_member m))) \<and>
    set (md_memberships db') = {x \<in> set (md_memberships db). \<not> (mb_member x = mb_member m \<and> mb_org x = Some (mb_resource m))} \<and>
    filter (\<lambda>x. gmb_user x \<noteq> mb_member m) (md_group_members db') = filter (\<lambda>x. gmb_user x \<noteq> mb_member m) (md_group_members db)"
proof -
  let ?left = "\<lambda>m. {x \<in> set (md_memberships db). \<not> (mb_member x = mb_member m \<and> mb_org x = Some (mb_resource m))}"
  obtain m r1 db1 where m: "m \<in> set (md_memberships db)" "org_membership m" "parse membershipID = Inr (mb_id m)"
      and del: "mr_Delete (mb_id m) db = (r1, db1)" and db': "db' = db1 \<or> (\<exists>ev. db' = dispatch ev db1)"
    using removed_membership [OF assms(1) removal] .
  note d = mr_Delete_org [OF assms(1) m(1,2) del]
  have "p \<in> mb_id ` ?left m" if x: "x \<in> ?left m" "mb_parent x = Some p" for x p
  proof -
    obtain y where "y \<in> set (md_memberships db)" "mb_id y = p" "mb_member y = mb_member x" "mb_org y = mb_org x"
      using own x unfolding inherits_own_def by blast
    then show ?thesis using x(1) by auto
  qed
  then have "?left m \<subseteq> set (md_memberships db1)" by (intro d(8)) auto
  then have "set (md_memberships db1) = ?left m" using d(4) by blast
  moreover have "filter (\<lambda>x. gmb_user x \<noteq> mb_member m) (md_group_members db1) = filter (\<lambda>x. gmb_user x \<noteq> mb_member m) (md_group_members db)"
  proof -
    have "filter (\<lambda>x. gmb_user x \<noteq> u) (map (\<lambda>x. if in_group_of_org db u org x then x\<lparr>gmb_deleted := True\<rparr> else x) xs) =
        filter (\<lambda>x. gmb_user x \<noteq> u) xs" for xs u org
      by (induction xs) (auto simp: in_group_of_org_def)
    then show ?thesis unfolding d(6) .
  qed
  moreover have "md_memberships db' = md_memberships db1" "md_group_members db' = md_group_members db1" using db' by (auto simp: dispatch_def)
  ultimately have rows: "set (md_memberships db') = ?left m"
      "filter (\<lambda>x. gmb_user x \<noteq> mb_member m) (md_group_members db') = filter (\<lambda>x. gmb_user x \<noteq> mb_member m) (md_group_members db)"
    by simp_all
  obtain m' where m': "m' \<in> set (md_memberships db)" "parse membershipID = Inr (mb_id m')"
      "\<forall>x\<in>set (ListAllMembershipsForUser db' (mb_member m')). bm_OrganizationID x \<noteq> mb_resource m'"
      "mb_resource m' \<notin> set (fst (GetOrgsAndRBACInfoForUser db' (mb_member m')))"
    using offboarded [OF assms(1,2) removal] by blast
  have "inj_on mb_id (set (md_memberships db))" using members_okD(1) [OF assms(1)] unfolding members_base_def distinct_map by blast
  then have "m' = m" using m(1,3) m'(1,2) by (auto dest: inj_onD)
  then show ?thesis using m m'(3,4) rows by blast
qed

section \<open>Two owners leaving at once\<close>

text \<open>
  The ownership check and the deletion are two queries. When the last two owners leave at the same time, each
  passes the check before the other one is gone, and the organization is left without an owner.
\<close>

definition owner_of :: "uuid \<Rightarrow> uuid \<Rightarrow> membership_row" where
  "owner_of i u = \<lparr>mb_id = i, mb_user = Some u, mb_org = Some ''o'', mb_current = True, mb_created_at = 0, mb_role = RoleOwner,
     mb_type = MembershipTypeUser, mb_member = u, mb_resource_type = ResourceTypeOrganization, mb_resource = ''o'', mb_parent = None\<rparr>"

definition two_owners :: members_db where
  "two_owners = \<lparr>md_orgs = [\<lparr>mo_id = ''o'', mo_name = ''acme'', mo_deleted = False, mo_suspended = False\<rparr>],
     md_users = map (\<lambda>u. \<lparr>usr_id = u, usr_email = u, usr_first_name = [], usr_last_name = []\<rparr>) [''ann'', ''bob''],
     md_memberships = [owner_of ''1'' ''ann'', owner_of ''2'' ''bob''], md_groups = [], md_group_members = [],
     md_ids = (\<lambda>n. replicate n (CHR ''x'')), md_ids_drawn = 1, md_events = []\<rparr>"

lemma concurrent_leaves:
  "(case Leave Inr (\<lambda>rows. rows) (\<lambda>db. snd (Leave Inr (\<lambda>rows. rows) (\<lambda>db. db) ''bob'' ''2'' db)) ''ann'' ''1'' two_owners of
      (r, db) \<Rightarrow> r = Inr () \<and> md_memberships db = [] \<and> md_events db = [OrgUserLeft ''o'' ''acme'', OrgUserLeft ''o'' ''acme''])"
  by code_simp

lemma sole_owner_stays:
  "fst (Leave Inr (\<lambda>rows. rows) (\<lambda>db. db) ''ann'' ''1'' (snd (Leave Inr (\<lambda>rows. rows) (\<lambda>db. db) ''bob'' ''2'' two_owners))) =
     Inl (NewErrValidationStr ''cannot leave organization as the sole owner. Please add another owner or delete the organization instead'')"
  by code_simp

end
