(* ===== verification/Bundle_Verifier.thy ===== *)
theory Bundle_Verifier
  imports Base64 Biz_Errors
begin

text \<open>
  Attestation bundles: conversion between a DSSE envelope and a Sigstore bundle
  (\<open>pkg/attestation/attestations.go\<close>) and the verification of a bundle against a trusted root
  (\<open>pkg/attestation/verifier\<close>).

  The protobuf decoder, certificate chain validation, DSSE signature verification, the parser of
  RFC 3161 responses and their verification are the fields of \<open>verifier_env\<close>. Bytes are strings, and
  an empty slice stands for nil. Where the source wraps two errors in one, the sentinel of the
  repository is kept in the chain and the library's error only in the text.
\<close>

section \<open>Bundles and envelopes\<close>

record certificate =
  crt_orgs :: "string list"
  crt_aki :: string  \<comment> \<open>hex of the hashed authority key identifier\<close>
  crt_name :: string
  crt_serial :: int
  crt_issuer :: string
  crt_not_before :: int
  crt_not_after :: int

record dsse_signature =
  sgn_sig :: string
  sgn_keyid :: string

record dsse_envelope =
  dse_payload_type :: string
  dse_payload :: string
  dse_signatures :: "dsse_signature list"

datatype verification_content = ContentCertificate certificate | ContentPublicKey | ContentMissing | ContentError err

datatype timestamps = TimestampsMissing | TimestampsError err | Timestamps "string list"

record sig_bundle =
  bn_payload_type :: string
  bn_payload :: string
  bn_signatures :: "dsse_signature list"
  bn_content :: verification_content
  bn_timestamps :: timestamps

text \<open>A signature may have been encoded twice: what decodes as base64 is decoded.\<close>

definition undo_double_encoding :: "string \<Rightarrow> string" where
  "undo_double_encoding sig = (case b64_decode sig of None \<Rightarrow> sig | Some raw \<Rightarrow> raw)"

definition DSSEEnvelopeFromBundle :: "sig_bundle \<Rightarrow> dsse_envelope res" where
  "DSSEEnvelopeFromBundle b = (case bn_signatures b of
       [] \<Rightarrow> Inl (go_panic ''index out of range'')
     | s # _ \<Rightarrow> Inr \<lparr>dse_payload_type = bn_payload_type b, dse_payload = b64_encode (bn_payload b),
         dse_signatures = [\<lparr>sgn_sig = b64_encode (undo_double_encoding (sgn_sig s)), sgn_keyid = sgn_keyid s\<rparr>]\<rparr>)"

definition BundleFromDSSEEnvelope :: "dsse_envelope \<Rightarrow> sig_bundle res" where
  "BundleFromDSSEEnvelope e = (case dse_signatures e of
       [] \<Rightarrow> Inl (Errorf ''DSSE envelope has no signatures'' [])
     | s # _ \<Rightarrow>
         (case b64_decode (dse_payload e) of
            None \<Rightarrow> Inl (Errorf ''decoding payload: %w'' [])
          | Some payload \<Rightarrow>
              (case b64_decode (sgn_sig s) of
                 None \<Rightarrow> Inl (Errorf ''decoding signature: %w'' [])
               | Some sig \<Rightarrow> Inr \<lparr>bn_payload_type = dse_payload_type e, bn_payload = payload,
                   bn_signatures = [\<lparr>sgn_sig = sig, sgn_keyid = sgn_keyid s\<rparr>],
                   bn_content = ContentMissing, bn_timestamps = Timestamps []\<rparr>)))"

definition DSSEEnvelopeFromBundleBytes :: "(string \<Rightarrow> sig_bundle res) \<Rightarrow> string \<Rightarrow> dsse_envelope res" where
  "DSSEEnvelopeFromBundleBytes unmarshal bytes =
     bind_res (map_err (Wrapf ''unmarshalling bundle: %w'' []) (unmarshal bytes)) (\<lambda>b.
     if bn_signatures b = [] then Inl (Errorf ''invalid attestation bundle: missing DSSE signature'' [])
     else DSSEEnvelopeFromBundle b)"

definition FixSignatureInBundle :: "sig_bundle \<Rightarrow> sig_bundle res" where
  "FixSignatureInBundle b = (case bn_signatures b of
       [] \<Rightarrow> Inl (go_panic ''index out of range'')
     | s # ss \<Rightarrow> Inr (b\<lparr>bn_signatures := s\<lparr>sgn_sig := undo_double_encoding (sgn_sig s)\<rparr> # ss\<rparr>))"

section \<open>Timestamps\<close>

record trusted_root =
  tr_keys :: "certificate list gomap"
  tr_tsas :: "certificate list gomap"

record 'key verifier_env =
  ve_unmarshal :: "string \<Rightarrow> sig_bundle res"
  ve_chain :: "certificate \<Rightarrow> certificate list \<Rightarrow> 'key res"
  ve_verify_dsse :: "'key \<Rightarrow> dsse_envelope \<Rightarrow> unit res"
  ve_tsr_signers :: "string \<Rightarrow> (string \<times> int) list option"
  ve_verify_tsr :: "string \<Rightarrow> string \<Rightarrow> certificate \<Rightarrow> certificate list \<Rightarrow> certificate list \<Rightarrow> int res"
  ve_valid_at :: "certificate \<Rightarrow> int \<Rightarrow> bool"

definition ErrMissingVerificationMaterial :: err where "ErrMissingVerificationMaterial = Errorf ''missing material'' []"
definition ErrInvalidBundle :: err where "ErrInvalidBundle = Errorf ''invalid bundle'' []"
definition ErrUnsupportedVerificationMaterial :: err where
  "ErrUnsupportedVerificationMaterial = Errorf ''unsupported verification material'' []"
definition ErrOrganizationMismatch :: err where
  "ErrOrganizationMismatch = Errorf ''signing certificate organization mismatch'' []"
definition ErrTSAResponseInvalid :: err where "ErrTSAResponseInvalid = Errorf ''TSA response verification failed'' []"
definition ErrTimestampOutsideTSAValidity :: err where
  "ErrTimestampOutsideTSAValidity = Errorf ''timestamp outside TSA certificate validity window'' []"
definition ErrSigningCertNotValidAtTimestamp :: err where
  "ErrSigningCertNotValidAtTimestamp = Errorf ''signing certificate not valid at timestamp time'' []"
definition ErrNoTSARootsConfigured :: err where "ErrNoTSARootsConfigured = Errorf ''no TSA trust roots configured'' []"
definition ErrTSASignerNotTrusted :: err where
  "ErrTSASignerNotTrusted = Errorf ''TSA response signer is not a configured timestamp authority'' []"

lemmas verifier_error_defs = ErrMissingVerificationMaterial_def ErrInvalidBundle_def ErrUnsupportedVerificationMaterial_def
  ErrOrganizationMismatch_def ErrTSAResponseInvalid_def ErrTimestampOutsideTSAValidity_def
  ErrSigningCertNotValidAtTimestamp_def ErrNoTSARootsConfigured_def ErrTSASignerNotTrusted_def

definition IsTrustConfigError :: "err \<Rightarrow> bool" where
  "IsTrustConfigError x = (errors_is x ErrNoTSARootsConfigured \<or> errors_is x ErrTSASignerNotTrusted)"

definition signedByCert :: "(string \<times> int) list option \<Rightarrow> certificate \<Rightarrow> bool" where
  "signedByCert signers cert = (case signers of
       None \<Rightarrow> True | Some ss \<Rightarrow> list_ex (\<lambda>(issuer, serial). crt_serial cert = serial \<and> crt_issuer cert = issuer) ss)"

text \<open>One authority: its first certificate signs, the last one is the root, those between are intermediates.\<close>

definition try_tsa :: "'key verifier_env \<Rightarrow> string \<Rightarrow> string \<Rightarrow> certificate option \<Rightarrow> certificate list \<Rightarrow> unit res" where
  "try_tsa ve st sigBytes signingCert tsa =
     (let tsaCert = hd tsa;
          roots = (if 1 < length tsa then [last tsa] else []);
          intermediates = (if 1 < length tsa then butlast (tl tsa) else [])
      in case ve_verify_tsr ve st sigBytes tsaCert intermediates roots of
           Inl _ \<Rightarrow> Inl (Wrapf ''%w: %w'' [] ErrTSAResponseInvalid)
         | Inr t \<Rightarrow>
             if crt_not_after tsaCert < t \<or> t < crt_not_before tsaCert then
               Inl (Wrapf ''%w: timestamp=%s, cert validity=[%s, %s]'' [] ErrTimestampOutsideTSAValidity)
             else if (case signingCert of None \<Rightarrow> False | Some c \<Rightarrow> \<not> ve_valid_at ve c t) then
               Inl (Wrapf ''%w: timestamp=%s'' [] ErrSigningCertNotValidAtTimestamp)
             else Inr ())"

fun try_tsas ::
  "'key verifier_env \<Rightarrow> string \<Rightarrow> string \<Rightarrow> certificate option \<Rightarrow> (string \<times> certificate list) list \<Rightarrow> err option \<Rightarrow> bool \<Rightarrow>
     unit res" where
  "try_tsas ve st sigBytes cert [] lastErr skipped =
     (case lastErr of
        Some x \<Rightarrow> Inl x
      | None \<Rightarrow> if skipped then Inl (Wrapf ''%w: tried %s'' [] ErrTSASignerNotTrusted) else Inr ())"
| "try_tsas ve st sigBytes cert ((name, tsa) # rest) lastErr skipped =
     (if tsa = [] then Inl (go_panic ''index out of range'')
      else if \<not> signedByCert (ve_tsr_signers ve st) (hd tsa) then try_tsas ve st sigBytes cert rest lastErr True
      else case try_tsa ve st sigBytes cert tsa of
        Inl x \<Rightarrow> try_tsas ve st sigBytes cert rest (Some x) skipped
      | Inr _ \<Rightarrow> Inr ())"

definition verifyTimestamp :: "'key verifier_env \<Rightarrow> string \<Rightarrow> string \<Rightarrow> certificate option \<Rightarrow> trusted_root \<Rightarrow> unit res" where
  "verifyTimestamp ve st sigBytes cert tr = try_tsas ve st sigBytes cert (tr_tsas tr) None False"

definition content_certificate :: "verification_content \<Rightarrow> certificate option" where
  "content_certificate c = (case c of ContentCertificate x \<Rightarrow> Some x | _ \<Rightarrow> None)"

fun all_timestamps :: "(string \<Rightarrow> unit res) \<Rightarrow> string list \<Rightarrow> unit res" where
  "all_timestamps verify [] = Inr ()"
| "all_timestamps verify (st # sts) = bind_res (verify st) (\<lambda>_. all_timestamps verify sts)"

definition VerifyTimestamps :: "'key verifier_env \<Rightarrow> sig_bundle \<Rightarrow> trusted_root \<Rightarrow> unit res" where
  "VerifyTimestamps ve sb tr =
     (case bn_timestamps sb of
        TimestampsMissing \<Rightarrow> Inl ErrMissingVerificationMaterial
      | TimestampsError x \<Rightarrow> Inl (Wrapf ''could not get timestamps: %w'' [] x)
      | Timestamps sts \<Rightarrow>
          if sts = [] then Inl ErrMissingVerificationMaterial
          else if tr_tsas tr = [] then Inl ErrNoTSARootsConfigured
          else case bn_signatures sb of
            [] \<Rightarrow> Inl (Errorf ''could not get signature material: %w'' [])
          | s # _ \<Rightarrow>
              (case bn_content sb of
                 ContentError x \<Rightarrow> Inl (Wrapf ''could not get verification material: %w'' [] x)
               | c \<Rightarrow> all_timestamps
                   (\<lambda>st. verifyTimestamp ve st (undo_double_encoding (sgn_sig s)) (content_certificate c) tr) sts))"

section \<open>Verification\<close>

definition verifyCertSignature :: "'key verifier_env \<Rightarrow> sig_bundle \<Rightarrow> certificate \<Rightarrow> trusted_root \<Rightarrow> unit res" where
  "verifyCertSignature ve b signingCert tr =
     (case map_of (tr_keys tr) (crt_aki signingCert) of
        None \<Rightarrow> Inl (Errorf ''trusted root not found for signing key with AKI %s'' [crt_aki signingCert])
      | Some chain \<Rightarrow>
          bind_res (map_err (Wrapf ''validating the certificate: %w'' []) (ve_chain ve signingCert chain)) (\<lambda>key.
          bind_res (DSSEEnvelopeFromBundle b) (\<lambda>e.
          map_err (Wrapf ''validating the DSSE envelope: %w'' []) (ve_verify_dsse ve key e))))"

definition checkCertOrganization :: "certificate \<Rightarrow> string \<Rightarrow> unit res" where
  "checkCertOrganization cert expected =
     (case crt_orgs cert of
        [o'] \<Rightarrow> if o' \<noteq> expected then Inl (Wrapf ''%w: certificate issued to %q'' [o'] ErrOrganizationMismatch) else Inr ()
      | _ \<Rightarrow> Inl (Wrapf ''%w: expected a single organization, found %d'' [] ErrOrganizationMismatch))"

text \<open>\<open>expectedOrg\<close> is empty when the option is not given.\<close>

definition VerifyBundle :: "'key verifier_env \<Rightarrow> string \<Rightarrow> trusted_root \<Rightarrow> string \<Rightarrow> unit res" where
  "VerifyBundle ve bundleBytes tr expectedOrg =
     (if bundleBytes = [] then Inl ErrMissingVerificationMaterial
      else case ve_unmarshal ve bundleBytes of
        Inl _ \<Rightarrow> Inl (Wrapf ''%w: %w'' [] ErrInvalidBundle)
      | Inr raw \<Rightarrow>
          bind_res (FixSignatureInBundle raw) (\<lambda>b.
          bind_res (case bn_content b of
              ContentError x \<Rightarrow> Inl (Wrapf ''could not get verification material: %w'' [] x)
            | ContentCertificate cert \<Rightarrow>
                bind_res (verifyCertSignature ve b cert tr) (\<lambda>_.
                if expectedOrg \<noteq> [] then checkCertOrganization cert expectedOrg else Inr ())
            | ContentPublicKey \<Rightarrow> Inl (Wrapf ''%w: public key verification material'' [] ErrUnsupportedVerificationMaterial)
            | ContentMissing \<Rightarrow> Inl ErrMissingVerificationMaterial) (\<lambda>_.
          case VerifyTimestamps ve b tr of
            Inl x \<Rightarrow> if errors_is x ErrMissingVerificationMaterial then Inr ()
                     else Inl (Wrapf ''could not verify timestamps: %w'' [] x)
          | Inr _ \<Rightarrow> Inr ())))"

section \<open>Lemmas\<close>

text \<open>A certificate of the organization, chained to a trusted key, has signed the payload of the bundle.\<close>

definition signed_by_org :: "'key verifier_env \<Rightarrow> trusted_root \<Rightarrow> string \<Rightarrow> string \<Rightarrow> bool" where
  "signed_by_org ve tr bundleBytes org \<longleftrightarrow>
     (\<exists>raw b cert chain key e. ve_unmarshal ve bundleBytes = Inr raw \<and> FixSignatureInBundle raw = Inr b \<and>
        bn_content b = ContentCertificate cert \<and> map_of (tr_keys tr) (crt_aki cert) = Some chain \<and>
        ve_chain ve cert chain = Inr key \<and> DSSEEnvelopeFromBundle b = Inr e \<and> ve_verify_dsse ve key e = Inr () \<and>
        (org \<noteq> [] \<longrightarrow> crt_orgs cert = [org]))"

lemma checkCertOrganization_Inr: "checkCertOrganization cert o' = Inr () \<longleftrightarrow> crt_orgs cert = [o']"
  by (auto simp: checkCertOrganization_def split: list.splits if_splits)

text \<open>The errors of the libraries are their own: none of them is a sentinel of the repository.\<close>

definition foreign_errors :: "'key verifier_env \<Rightarrow> bool" where
  "foreign_errors ve \<longleftrightarrow>
     (\<forall>cert chain x. ve_chain ve cert chain = Inl x \<longrightarrow> \<not> IsTrustConfigError x) \<and>
     (\<forall>key e x. ve_verify_dsse ve key e = Inl x \<longrightarrow> \<not> IsTrustConfigError x) \<and>
     (\<forall>bytes raw x. ve_unmarshal ve bytes = Inr raw \<and> bn_content raw = ContentError x \<longrightarrow> \<not> IsTrustConfigError x)"

lemma IsTrustConfigError_simps [simp]:
  "\<not> IsTrustConfigError (go_panic w)" "\<not> IsTrustConfigError (Errorf ''trusted root not found for signing key with AKI %s'' as)"
  "IsTrustConfigError (Wrapf ''validating the certificate: %w'' as x) = IsTrustConfigError x"
  "IsTrustConfigError (Wrapf ''validating the DSSE envelope: %w'' as x) = IsTrustConfigError x"
  "IsTrustConfigError (Wrapf ''could not get verification material: %w'' as x) = IsTrustConfigError x"
  by (simp_all add: IsTrustConfigError_def verifier_error_defs go_panic_def)

lemma checkCertOrganization_not_config: "checkCertOrganization cert o' = Inl x \<Longrightarrow> \<not> IsTrustConfigError x"
  by (auto simp: checkCertOrganization_def IsTrustConfigError_def verifier_error_defs split: list.splits if_splits)

lemma verifyCertSignature_not_config:
  "foreign_errors ve \<Longrightarrow> verifyCertSignature ve b cert tr = Inl x \<Longrightarrow> \<not> IsTrustConfigError x"
  by (auto simp: verifyCertSignature_def foreign_errors_def res_simps DSSEEnvelopeFromBundle_def split: option.splits list.splits)

lemma FixSignatureInBundle_Inl: "FixSignatureInBundle b = Inl x \<Longrightarrow> \<not> IsTrustConfigError x"
  by (auto simp: FixSignatureInBundle_def split: list.splits)

lemma FixSignatureInBundle_content: "FixSignatureInBundle raw = Inr b \<Longrightarrow> bn_content b = bn_content raw"
  by (auto simp: FixSignatureInBundle_def split: list.splits)

text \<open>
  Whatever the outcome, once verification gets as far as the timestamps the signature and the
  organization have been verified.
\<close>

lemma VerifyBundle_signed:
  assumes "foreign_errors ve"
    and "VerifyBundle ve bundleBytes tr org = Inr () \<or> (\<exists>x. VerifyBundle ve bundleBytes tr org = Inl x \<and> IsTrustConfigError x)"
  shows "signed_by_org ve tr bundleBytes org"
proof -
  have ne: "bundleBytes \<noteq> []" and "\<exists>raw. ve_unmarshal ve bundleBytes = Inr raw"
    using assms(2) by (auto simp: VerifyBundle_def IsTrustConfigError_def verifier_error_defs split: sum.splits if_splits)
  then obtain raw where raw: "ve_unmarshal ve bundleBytes = Inr raw" by blast
  have "\<exists>b. FixSignatureInBundle raw = Inr b"
    using assms(2) ne raw by (cases "FixSignatureInBundle raw") (auto simp: VerifyBundle_def dest: FixSignatureInBundle_Inl)
  then obtain b where b: "FixSignatureInBundle raw = Inr b" by blast
  note content = FixSignatureInBundle_content [OF b]
  show ?thesis
  proof (cases "bn_content b")
    case (ContentCertificate cert)
    have sig: "verifyCertSignature ve b cert tr = Inr ()"
      using assms ne raw b ContentCertificate verifyCertSignature_not_config [OF assms(1), of b cert tr]
      by (cases "verifyCertSignature ve b cert tr") (auto simp: VerifyBundle_def)
    have "org \<noteq> [] \<Longrightarrow> checkCertOrganization cert org = Inr ()"
      using assms ne raw b ContentCertificate sig checkCertOrganization_not_config [of cert org]
      by (cases "checkCertOrganization cert org") (auto simp: VerifyBundle_def)
    then have "org \<noteq> [] \<longrightarrow> crt_orgs cert = [org]" by (simp add: checkCertOrganization_Inr)
    then show ?thesis using sig raw b ContentCertificate
      by (auto simp: signed_by_org_def verifyCertSignature_def res_simps split: option.splits)
  next
    case (ContentError x)
    then show ?thesis using assms ne raw b content by (auto simp: VerifyBundle_def foreign_errors_def)
  next
    case ContentPublicKey
    then show ?thesis using assms ne raw b
      by (auto simp: VerifyBundle_def IsTrustConfigError_def verifier_error_defs)
  next
    case ContentMissing
    then show ?thesis using assms ne raw b
      by (auto simp: VerifyBundle_def IsTrustConfigError_def verifier_error_defs)
  qed
qed

text \<open>An envelope survives the trip through a bundle, unless its signature bytes read as base64 themselves.\<close>

lemma bundle_roundtrip:
  assumes "dse_payload e = b64_encode payload" and "dse_signatures e = [\<lparr>sgn_sig = b64_encode sig, sgn_keyid = k\<rparr>]"
    and "b64_decode sig = None"
  shows "\<exists>b. BundleFromDSSEEnvelope e = Inr b \<and> DSSEEnvelopeFromBundle b = Inr e"
  using assms by (auto simp: BundleFromDSSEEnvelope_def DSSEEnvelopeFromBundle_def undo_double_encoding_def b64_roundtrip)

end
