(* ===== verification/Referrers.thy ===== *)
theory Referrers
  imports Control_Plane_Tables Bundle_Verifier
begin

text \<open>
  The referrer index of the control plane (\<open>app/controlplane/pkg/biz/referrer.go\<close> and
  \<open>app/controlplane/pkg/data/referrer.go\<close>): extracting a graph of artifacts from an attestation,
  storing it, and discovering an artifact with its references, limited to what the caller may see
  and cut into pages.

  The tables are lists of rows. Decoding an envelope and parsing UUIDs are the fields of
  \<open>referrer_env\<close>; new identifiers and creation times are drawn from a stream in the database. A
  failed type assertion of the source is the error \<open>go_panic\<close>.
\<close>

section \<open>Tables\<close>

record referrer_row =
  row_id :: uuid
  row_digest :: string
  row_kind :: string
  row_downloadable :: bool
  row_metadata :: "string gomap"
  row_annotations :: "string gomap"
  row_created_at :: int

record ref_db = cp_db +
  db_referrers :: "referrer_row list"
  db_ref_workflows :: "(uuid \<times> uuid) list"
  db_references :: "(uuid \<times> uuid) list"
  db_fresh :: "nat \<Rightarrow> uuid \<times> int"  \<comment> \<open>identifier and creation time of the rows to come\<close>
  db_drawn :: nat

section \<open>Referrers of an attestation\<close>

text \<open>A reference carries the digest and the kind of the referrer it points to, nothing else.\<close>

record referrer =
  rfr_digest :: string
  rfr_kind :: string
  rfr_downloadable :: bool
  rfr_references :: "(string \<times> string) list"
  rfr_metadata :: "string gomap"
  rfr_annotations :: "string gomap"

record att_metadata =
  mtd_name :: string
  mtd_team :: string
  mtd_project :: string
  mtd_project_version :: string
  mtd_prerelease :: bool
  mtd_organization :: string
  mtd_contract_name :: string
  mtd_contract_version :: string

text \<open>
  The reference to the stored policy evaluations, as decoded: its name and digests. A reference of which
  only the size is given has no descriptor.
\<close>

datatype evaluations_ref = NoEvaluationsRef | EmptyEvaluationsRef | EvaluationsRef string "string gomap"

record extracted_predicate =
  xp_predicate :: policy_predicate
  xp_annotations :: "string gomap"
  xp_metadata :: att_metadata
  xp_evaluations_ref :: evaluations_ref

record referrer_env =
  rfe_extract_predicate :: "dsse_envelope \<Rightarrow> extracted_predicate res"
  rfe_extract_subjects :: "dsse_envelope \<Rightarrow> resource_descriptor list res"
  rfe_js :: "any_val \<Rightarrow> string"
  rfe_type_name :: "material_type \<Rightarrow> string"
  rfe_parse_uuid :: "string \<Rightarrow> uuid res"
  rfe_codec :: cursor_codec

definition ReferrerAttestationType :: string where "ReferrerAttestationType = ''ATTESTATION''"
definition referrerGitHeadType :: string where "referrerGitHeadType = ''GIT_HEAD_COMMIT''"
definition SubjectGitHead :: string where "SubjectGitHead = ''git.head''"

definition newRef :: "string \<Rightarrow> string \<Rightarrow> string" where
  "newRef digest kind = kind @ ''-'' @ digest"

definition MapID :: "referrer \<Rightarrow> string" where
  "MapID r = newRef (rfr_digest r) (rfr_kind r)"

definition GetMaterials :: "referrer_env \<Rightarrow> policy_predicate \<Rightarrow> normalized_material list" where
  "GetMaterials re p = List.map_filter
     (\<lambda>m. case normalizeMaterial (rfe_js re) (rfe_type_name re) m of Inl _ \<Rightarrow> None | Inr n \<Rightarrow> Some n) (pp_materials p)"

definition bool_text :: "bool \<Rightarrow> string" where
  "bool_text b = (if b then ''true'' else ''false'')"

definition attestation_metadata :: "extracted_predicate \<Rightarrow> string gomap" where
  "attestation_metadata xp =
     (let m = xp_metadata xp; s = GetPolicyEvaluationStatus (xp_predicate xp) in
      [(''name'', mtd_name m), (''team'', mtd_team m), (''project'', mtd_project m),
       (''hasPolicyViolations'', bool_text (es_has_violations s)),
       (''hasGatedPolicyViolations'', bool_text (es_has_gated s)),
       (''projectVersion'', mtd_project_version m), (''projectVersionPrerelease'', bool_text (mtd_prerelease m)),
       (''organization'', mtd_organization m), (''contractName'', mtd_contract_name m),
       (''contractVersion'', mtd_contract_version m)])"

text \<open>
  The annotations are ranged over in the source; only two keys have an effect, and a value of another
  type fails the assertion whatever the order.
\<close>

definition intotoSubjectToReferrer :: "resource_descriptor \<Rightarrow> referrer option res" where
  "intotoSubjectToReferrer r =
     (let digestStr = (case rd_digest r of [] \<Rightarrow> [] | (alg, val) # _ \<Rightarrow> alg @ '':'' @ val);
          plain = \<lparr>rfr_digest = digestStr, rfr_kind = [], rfr_downloadable = False, rfr_references = [],
                   rfr_metadata = [], rfr_annotations = []\<rparr>
      in if rd_name r = SubjectGitHead then
           (if digestStr = [] then Inl (Errorf ''no digest found for subject %s'' [rd_name r])
            else Inr (Some (plain\<lparr>rfr_kind := referrerGitHeadType\<rparr>)))
         else
           bind_res (case map_of (rd_annotations r) AnnotationMaterialType of
               None \<Rightarrow> Inr [] | Some (VString s) \<Rightarrow> Inr s | Some _ \<Rightarrow> Inl (go_panic ''interface conversion'')) (\<lambda>materialType.
           bind_res (case map_of (rd_annotations r) AnnotationMaterialCAS of
               None \<Rightarrow> Inr False | Some (VBool b) \<Rightarrow> Inr b | Some _ \<Rightarrow> Inl (go_panic ''interface conversion'')) (\<lambda>uploadedToCAS.
           if materialType = [] then Inr None
           else if digestStr = [] then Inl (Errorf ''no digest found for subject %s'' [rd_name r])
           else Inr (Some (plain\<lparr>rfr_kind := materialType, rfr_downloadable := uploadedToCAS\<rparr>)))))"

text \<open>
  The map holds the attestation under \<open>attKey\<close>. Linking adds the new referrer, with its reference to
  the attestation, and a reference to it to the attestation.
\<close>

definition link :: "string \<Rightarrow> referrer \<Rightarrow> referrer gomap \<Rightarrow> referrer gomap" where
  "link attKey r m =
     (case map_of m attKey of
        None \<Rightarrow> m
      | Some att \<Rightarrow>
          AList.update attKey (att\<lparr>rfr_references := rfr_references att @ [(rfr_digest r, rfr_kind r)]\<rparr>)
            (AList.update (MapID r) (r\<lparr>rfr_references := [(rfr_digest att, rfr_kind att)]\<rparr>) m))"

definition repo_Exist :: "ref_db \<Rightarrow> string \<Rightarrow> string option \<Rightarrow> bool" where
  "repo_Exist db digest kind =
     list_ex (\<lambda>r. row_digest r = digest \<and> (case kind of None \<Rightarrow> True | Some k \<Rightarrow> row_kind r = k)) (db_referrers db)"

definition material_referrer :: "string \<Rightarrow> normalized_material \<Rightarrow> referrer" where
  "material_referrer digest x =
     \<lparr>rfr_digest = digest, rfr_kind = nmt_type x, rfr_downloadable = nmt_uploaded x,
      rfr_references = [], rfr_metadata = [], rfr_annotations = []\<rparr>"

fun extract_materials :: "ref_db \<Rightarrow> string \<Rightarrow> normalized_material list \<Rightarrow> referrer gomap \<Rightarrow> referrer gomap res" where
  "extract_materials db attKey [] m = Inr m"
| "extract_materials db attKey (x # xs) m =
     (case nmt_hash x of
        None \<Rightarrow> extract_materials db attKey xs m
      | Some h \<Rightarrow>
          (let digest = ''sha256:'' @ h;
               r = material_referrer digest x
           in if nmt_type x = ReferrerAttestationType \<and> \<not> repo_Exist db digest (Some ReferrerAttestationType)
              then Inl (Errorf ''attestation material does not exist %q'' [digest])
              else if map_of m (MapID r) \<noteq> None then extract_materials db attKey xs m
              else extract_materials db attKey xs (link attKey r m)))"

fun extract_subjects :: "string \<Rightarrow> resource_descriptor list \<Rightarrow> referrer gomap \<Rightarrow> referrer gomap res" where
  "extract_subjects attKey [] m = Inr m"
| "extract_subjects attKey (s # ss) m =
     bind_res (map_err (Wrapf ''transforming subject to referrer: %w'' []) (intotoSubjectToReferrer s)) (\<lambda>sr.
     case sr of
       None \<Rightarrow> extract_subjects attKey ss m
     | Some r \<Rightarrow>
         if map_of m (MapID r) \<noteq> None then extract_subjects attKey ss m
         else extract_subjects attKey ss (link attKey r m))"

definition extractReferrers :: "referrer_env \<Rightarrow> ref_db \<Rightarrow> dsse_envelope \<Rightarrow> string \<Rightarrow> referrer list res" where
  "extractReferrers re db att digest =
     bind_res (map_err (Wrapf ''extracting predicate: %w'' []) (rfe_extract_predicate re att)) (\<lambda>xp.
     let attKey = newRef digest ReferrerAttestationType;
         attestationReferrer = \<lparr>rfr_digest = digest, rfr_kind = ReferrerAttestationType, rfr_downloadable = True,
           rfr_references = [], rfr_metadata = attestation_metadata xp, rfr_annotations = xp_annotations xp\<rparr>
     in bind_res (extract_materials db attKey (GetMaterials re (xp_predicate xp)) [(attKey, attestationReferrer)]) (\<lambda>m.
        bind_res (map_err (Wrapf ''extracting predicate: %w'' []) (rfe_extract_subjects re att)) (\<lambda>subjects.
        bind_res (extract_subjects attKey subjects m) (\<lambda>m.
        Inr (map (\<lambda>k. the (map_of m k)) (sorted_keys m))))))"

section \<open>Storing referrers\<close>

definition wf_FindByID :: "ref_db \<Rightarrow> uuid \<Rightarrow> workflow_row res" where
  "wf_FindByID db wid =
     (case find (\<lambda>w. wfr_id w = wid \<and> \<not> wfr_deleted w) (db_workflows db) of
        None \<Rightarrow> Inl (NewErrNotFound ''workflow'') | Some w \<Rightarrow> Inr w)"

text \<open>
  The upsert on digest and kind. All columns are immutable, so a conflict leaves the row as it is and
  gives its identifier; the edge to the workflow is added in both cases.
\<close>

definition upsert_referrer :: "uuid \<Rightarrow> referrer \<Rightarrow> ref_db \<Rightarrow> uuid \<times> ref_db" where
  "upsert_referrer wid r db =
     (let (rid, db) =
        (case find (\<lambda>row. row_digest row = rfr_digest r \<and> row_kind row = rfr_kind r) (db_referrers db) of
           Some row \<Rightarrow> (row_id row, db)
         | None \<Rightarrow>
             (let (rid, now) = db_fresh db (db_drawn db) in
              (rid, db\<lparr>db_referrers := db_referrers db @
                [\<lparr>row_id = rid, row_digest = rfr_digest r, row_kind = rfr_kind r, row_downloadable = rfr_downloadable r,
                  row_metadata = rfr_metadata r, row_annotations = rfr_annotations r, row_created_at = now\<rparr>],
                db_drawn := Suc (db_drawn db)\<rparr>)))
      in (rid, db\<lparr>db_ref_workflows := List.insert (rid, wid) (db_ref_workflows db)\<rparr>))"

fun store_referrers :: "uuid \<Rightarrow> referrer list \<Rightarrow> string gomap \<Rightarrow> ref_db \<Rightarrow> string gomap \<times> ref_db" where
  "store_referrers wid [] storedMap db = (storedMap, db)"
| "store_referrers wid (r # rs) storedMap db =
     (let (rid, db) = upsert_referrer wid r db in store_referrers wid rs (AList.update (MapID r) rid storedMap) db)"

definition reference_ids :: "string gomap \<Rightarrow> (string \<times> string) list \<Rightarrow> uuid list res" where
  "reference_ids storedMap refs = map_res (\<lambda>(digest, kind).
     case map_of storedMap (newRef digest kind) of
       None \<Rightarrow> Inl (Errorf ''referrer %v not found'' [digest, kind]) | Some rid \<Rightarrow> Inr rid) refs"

fun store_references :: "string gomap \<Rightarrow> referrer list \<Rightarrow> ref_db \<Rightarrow> unit res \<times> ref_db" where
  "store_references storedMap [] db = (Inr (), db)"
| "store_references storedMap (r # rs) db =
     (case reference_ids storedMap (rfr_references r) of
        Inl x \<Rightarrow> (Inl x, db)
      | Inr ids \<Rightarrow>
          store_references storedMap rs
            (db\<lparr>db_references := fold (\<lambda>i. List.insert (gm_get storedMap (MapID r), i)) ids (db_references db)\<rparr>))"

definition referrers_Save :: "referrer list \<Rightarrow> uuid \<Rightarrow> ref_db \<Rightarrow> unit res \<times> ref_db" where
  "referrers_Save rs wid db =
     (case wf_FindByID db wid of
        Inl x \<Rightarrow> (Inl (Wrapf ''failed to find workflow: %w'' [] x), db)
      | Inr _ \<Rightarrow> (let (storedMap, db) = store_referrers wid rs [] db in store_references storedMap rs db))"

definition ExtractAndPersist :: "referrer_env \<Rightarrow> dsse_envelope \<Rightarrow> string \<Rightarrow> string \<Rightarrow> ref_db \<Rightarrow> unit res \<times> ref_db" where
  "ExtractAndPersist re att digest workflowID db =
     (case rfe_parse_uuid re workflowID of
        Inl x \<Rightarrow> (Inl (NewErrInvalidUUID x), db)
      | Inr wid \<Rightarrow>
          (case wf_FindByID db wid of
             Inl x \<Rightarrow> (Inl (Wrapf ''finding workflow: %w'' [] x), db)
           | Inr _ \<Rightarrow>
               (case extractReferrers re db att digest of
                  Inl x \<Rightarrow> (Inl (Wrapf ''extracting referrers: %w'' [] x), db)
                | Inr rs \<Rightarrow>
                    (let (r, db') = referrers_Save rs wid db in
                     (map_err (Wrapf ''saving referrers: %w'' []) r, db')))))"

section \<open>Discovery\<close>

type_synonym visible_projects = "uuid list gomap"

record root_filters =
  gf_kind :: "string option"
  gf_projects :: visible_projects
  gf_project_name :: "string option"
  gf_project_version :: "string option"

definition no_filters :: root_filters where
  "no_filters = \<lparr>gf_kind = None, gf_projects = [], gf_project_name = None, gf_project_version = None\<rparr>"

definition WithKind :: "string \<Rightarrow> root_filters \<Rightarrow> root_filters" where
  "WithKind kind o' = o'\<lparr>gf_kind := Some kind\<rparr>"

definition WithProjectScope :: "string \<Rightarrow> string \<Rightarrow> root_filters \<Rightarrow> root_filters" where
  "WithProjectScope name version o' = o'\<lparr>gf_project_name := Some name, gf_project_version := Some version\<rparr>"

definition WithVisibleProjectIDs :: "visible_projects \<Rightarrow> root_filters \<Rightarrow> root_filters" where
  "WithVisibleProjectIDs projectIDs o' = o'\<lparr>gf_projects := projectIDs\<rparr>"

text \<open>The workflows of a referrer, soft-deleted ones included (\<open>WithWorkflows\<close>).\<close>

definition workflows_of :: "ref_db \<Rightarrow> referrer_row \<Rightarrow> workflow_row list" where
  "workflows_of db r = filter (\<lambda>w. (row_id r, wfr_id w) \<in> set (db_ref_workflows db)) (db_workflows db)"

definition referrerVisibleToOrgs :: "ref_db \<Rightarrow> uuid list \<Rightarrow> referrer_row \<Rightarrow> bool" where
  "referrerVisibleToOrgs db orgIDs r =
     list_ex (\<lambda>w. \<not> wfr_deleted w \<and> wfr_org w \<in> set orgIDs) (workflows_of db r)"

definition project_grants :: "uuid list \<Rightarrow> visible_projects \<Rightarrow> (uuid \<times> uuid) list" where
  "project_grants orgIDs visible = concat (map (\<lambda>orgID.
     case map_of visible orgID of None \<Rightarrow> [] | Some ps \<Rightarrow> map (\<lambda>p. (orgID, p)) ps) orgIDs)"

definition projectVisibilityPredicate :: "uuid list \<Rightarrow> visible_projects \<Rightarrow> (project_row \<Rightarrow> bool) option" where
  "projectVisibilityPredicate orgIDs visible =
     (let unrestrictedOrgs = filter (\<lambda>orgID. map_of visible orgID = None) orgIDs;
          grants = project_grants orgIDs visible;
          predicates = (if unrestrictedOrgs \<noteq> [] then [\<lambda>p. pj_org p \<in> set unrestrictedOrgs] else []) @
                       (if grants \<noteq> [] then [\<lambda>p. (pj_org p, pj_id p) \<in> set grants] else [])
      in case predicates of
           [] \<Rightarrow> None
         | [p] \<Rightarrow> Some p
         | ps \<Rightarrow> Some (\<lambda>x. list_ex (\<lambda>p. p x) ps))"

text \<open>A row has one project, so the edge predicates are lookups by identifier.\<close>

definition project_with :: "ref_db \<Rightarrow> uuid \<Rightarrow> (project_row \<Rightarrow> bool) \<Rightarrow> bool" where
  "project_with db pid P = list_ex (\<lambda>p. pj_id p = pid \<and> P p) (db_projects db)"

definition run_in_project :: "ref_db \<Rightarrow> string \<Rightarrow> string \<Rightarrow> workflow_run \<Rightarrow> bool" where
  "run_in_project db name version run =
     (run_digest run \<noteq> [] \<and>
      list_ex (\<lambda>v. vr_id v = run_version run \<and> \<not> vr_deleted v \<and>
         project_with db (vr_project v) (\<lambda>p. pj_name p = name \<and> \<not> pj_deleted p) \<and>
         (version \<noteq> [] \<longrightarrow> vr_version v = version)) (db_versions db))"

definition projectScopePredicate ::
  "ref_db \<Rightarrow> string \<Rightarrow> string \<Rightarrow> uuid list \<Rightarrow> visible_projects \<Rightarrow> referrer_row \<Rightarrow> bool" where
  "projectScopePredicate db name version orgIDs visible r =
     (case projectVisibilityPredicate orgIDs visible of
        None \<Rightarrow> False
      | Some rbacScope \<Rightarrow>
          list_ex (\<lambda>run. run_digest run = row_digest r \<and> run_in_project db name version run \<and>
             list_ex (\<lambda>w. wfr_id w = run_workflow run \<and> \<not> wfr_deleted w \<and> project_with db (wfr_project w) rbacScope)
               (db_workflows db)) (db_runs db))"

datatype stored_referrer = StoredReferrer
  (sf_row: referrer_row) (sf_orgs: "uuid list") (sf_projects: "uuid list") (sf_workflows: "uuid list")
  (sf_references: "stored_referrer list")

text \<open>\<open>maps.Keys\<close> leaves the order of the projects open; it is the order of the workflows here.\<close>

definition hydrateWorkflowsInfo :: "ref_db \<Rightarrow> referrer_row \<Rightarrow> stored_referrer" where
  "hydrateWorkflowsInfo db root =
     (let ws = workflows_of db root in
      StoredReferrer root (rev (remdups (rev (map wfr_org ws)))) (remdups (map wfr_project ws)) (map wfr_id ws) [])"

definition isReferrerVisible :: "stored_referrer \<Rightarrow> uuid list \<Rightarrow> visible_projects \<Rightarrow> bool" where
  "isReferrerVisible ref allowedOrgs visible =
     list_ex (\<lambda>oid. oid \<in> set allowedOrgs \<and>
       (case map_of visible oid of
          Some visibleProjects \<Rightarrow> list_ex (\<lambda>pid. pid \<in> set visibleProjects) (sf_projects ref)
        | None \<Rightarrow> True)) (sf_orgs ref)"

definition maxTraverseLevels :: nat where "maxTraverseLevels = 1"

definition row_key :: "referrer_row \<Rightarrow> int \<times> uuid" where
  "row_key r = (row_created_at r, row_id r)"

definition references_of :: "ref_db \<Rightarrow> referrer_row \<Rightarrow> referrer_row list" where
  "references_of db root = filter (\<lambda>r. (row_id root, row_id r) \<in> set (db_references db)) (db_referrers db)"

definition in_scope :: "(referrer_row \<Rightarrow> bool) option \<Rightarrow> referrer_row \<Rightarrow> bool" where
  "in_scope projectPred r =
     (case projectPred of None \<Rightarrow> True | Some P \<Rightarrow> row_kind r \<noteq> ReferrerAttestationType \<or> P r)"

definition reference_rows :: "ref_db \<Rightarrow> uuid list \<Rightarrow> (referrer_row \<Rightarrow> bool) option \<Rightarrow> referrer_row \<Rightarrow> referrer_row list" where
  "reference_rows db allowedOrgs projectPred root =
     filter (\<lambda>r. referrerVisibleToOrgs db allowedOrgs r \<and> in_scope projectPred r) (references_of db root)"

definition reference_page ::
  "ref_db \<Rightarrow> uuid list \<Rightarrow> (referrer_row \<Rightarrow> bool) option \<Rightarrow> referrer_row \<Rightarrow> nat \<Rightarrow> (int \<times> uuid) option \<Rightarrow>
     referrer_row list \<times> (int \<times> uuid) option" where
  "reference_page db allowedOrgs projectPred root limit cursor =
     cut_page row_key limit
       (fetch (order_desc row_key) row_key cursor limit (reference_rows db allowedOrgs projectPred root))"

fun keep_visible :: "(referrer_row \<Rightarrow> (stored_referrer \<times> string) res) \<Rightarrow> referrer_row list \<Rightarrow> stored_referrer list res" where
  "keep_visible get [] = Inr []"
| "keep_visible get (r # rs) =
     (case get r of
        Inl x \<Rightarrow> if IsErrUnauthorized x then keep_visible get rs else Inl (Wrapf ''failed to get referrer: %w'' [] x)
      | Inr (s, _) \<Rightarrow> bind_res (keep_visible get rs) (\<lambda>ss. Inr (s # ss)))"

lemma keep_visible_cong [fundef_cong]:
  "rs = rs' \<Longrightarrow> (\<And>r. r \<in> set rs' \<Longrightarrow> get r = get' r) \<Longrightarrow> keep_visible get rs = keep_visible get' rs'"
  by (induction rs arbitrary: rs') (auto split: sum.splits)

definition with_references :: "stored_referrer \<Rightarrow> stored_referrer list \<Rightarrow> stored_referrer" where
  "with_references s refs = StoredReferrer (sf_row s) (sf_orgs s) (sf_projects s) (sf_workflows s) refs"

definition default_page :: "cursor_options option \<Rightarrow> cursor_options" where
  "default_page p = (case p of None \<Rightarrow> \<lparr>co_cursor = None, co_limit = DefaultCursorLimit\<rparr> | Some p \<Rightarrow> p)"

definition next_cursor :: "cursor_codec \<Rightarrow> (int \<times> uuid) option \<Rightarrow> string" where
  "next_cursor cc k = (case k of None \<Rightarrow> [] | Some (t, i) \<Rightarrow> EncodeCursor cc t i)"

definition root_in_project :: "ref_db \<Rightarrow> uuid list \<Rightarrow> (referrer_row \<Rightarrow> bool) option \<Rightarrow> referrer_row \<Rightarrow> bool" where
  "root_in_project db allowedOrgs projectPred root =
     (case projectPred of
        None \<Rightarrow> True
      | Some P \<Rightarrow> list_ex (\<lambda>r. row_kind r = ReferrerAttestationType \<and> P r \<and> referrerVisibleToOrgs db allowedOrgs r)
                    (references_of db root))"

function doGet ::
  "cursor_codec \<Rightarrow> ref_db \<Rightarrow> uuid list \<Rightarrow> visible_projects \<Rightarrow> (referrer_row \<Rightarrow> bool) option \<Rightarrow> referrer_row \<Rightarrow>
     cursor_options option \<Rightarrow> nat \<Rightarrow> (stored_referrer \<times> string) res" where
  "doGet cc db allowedOrgs visible projectPred root p level =
     (let res = hydrateWorkflowsInfo db root in
      if \<not> isReferrerVisible res allowedOrgs visible then Inl (NewErrUnauthorizedStr ''referrer not allowed'')
      else if maxTraverseLevels \<le> level then Inr (res, [])
      else
        let p = default_page p;
            (refs, next) = reference_page db allowedOrgs projectPred root (nat (co_limit p)) (co_cursor p)
        in bind_res (keep_visible (\<lambda>r. doGet cc db allowedOrgs visible projectPred r None (Suc level)) refs) (\<lambda>references.
           if projectPred \<noteq> None \<and> level = 0 \<and> row_kind root \<noteq> ReferrerAttestationType \<and> references = [] \<and>
              \<not> root_in_project db allowedOrgs projectPred root
           then Inl (NewErrUnauthorizedStr ''referrer not part of the requested project'')
           else Inr (with_references res references, next_cursor cc next)))"
  by pat_completeness auto
termination
  by (relation "measure (\<lambda>(_, _, _, _, _, _, _, level). maxTraverseLevels - level)") auto

declare doGet.simps [simp del]

definition scope_predicate :: "ref_db \<Rightarrow> root_filters \<Rightarrow> uuid list \<Rightarrow> (referrer_row \<Rightarrow> bool) option" where
  "scope_predicate db opts orgIDs =
     (case gf_project_name opts of
        Some name \<Rightarrow>
          if name \<noteq> [] then
            Some (projectScopePredicate db name
              (case gf_project_version opts of None \<Rightarrow> [] | Some v \<Rightarrow> v) orgIDs (gf_projects opts))
          else None
      | None \<Rightarrow> None)"

text \<open>An unauthorized root is reported like a missing one: nil and no error.\<close>

definition repo_GetFromRoot ::
  "cursor_codec \<Rightarrow> ref_db \<Rightarrow> string \<Rightarrow> uuid list \<Rightarrow> cursor_options option \<Rightarrow> (root_filters \<Rightarrow> root_filters) list \<Rightarrow>
     (stored_referrer \<times> string) option res" where
  "repo_GetFromRoot cc db digest orgIDs p filters =
     (let opts = fold (\<lambda>f o'. f o') filters no_filters;
          projectPred = scope_predicate db opts orgIDs;
          refs = filter (\<lambda>r. row_digest r = digest \<and>
                   (case gf_kind opts of None \<Rightarrow> True | Some k \<Rightarrow> row_kind r = k) \<and>
                   referrerVisibleToOrgs db orgIDs r \<and> in_scope projectPred r) (db_referrers db)
      in case refs of
           [] \<Rightarrow> Inr None
         | [root] \<Rightarrow>
             (case doGet cc db orgIDs (gf_projects opts) projectPred root p 0 of
                Inl x \<Rightarrow> if IsErrUnauthorized x then Inr None else Inl (Wrapf ''failed to get referrer: %w'' [] x)
              | Inr r \<Rightarrow> Inr (Some r))
         | _ \<Rightarrow> Inl (NewErrReferrerAmbiguous digest (map row_kind refs)))"

definition uc_GetFromRoot ::
  "cursor_codec \<Rightarrow> ref_db \<Rightarrow> string \<Rightarrow> string \<Rightarrow> uuid list \<Rightarrow> visible_projects option \<Rightarrow> cursor_options option \<Rightarrow>
     (root_filters \<Rightarrow> root_filters) list \<Rightarrow> (stored_referrer \<times> string) res" where
  "uc_GetFromRoot cc db digest rootKind orgIDs projectIDs p extraFilters =
     (let filters = (if rootKind \<noteq> [] then [WithKind rootKind] else []) @
                    (case projectIDs of None \<Rightarrow> [] | Some ps \<Rightarrow> [WithVisibleProjectIDs ps]) @ extraFilters
      in case repo_GetFromRoot cc db digest orgIDs p filters of
           Inl x \<Rightarrow>
             Inl (if IsErrAmbiguousReferrer x then NewErrValidation (Wrapf ''please provide the referrer kind: %w'' [] x)
                  else Wrapf ''getting referrer from root: %w'' [] x)
         | Inr None \<Rightarrow> Inl (NewErrNotFound (''artifact or piece of evidence with digest '' @ digest))
         | Inr (Some r) \<Rightarrow> Inr r)"

end
