(* ===== verification/Referrer_Index.thy ===== *)
theory Referrer_Index
  imports Referrers
begin

text \<open>
  What the referrer index looks like after any number of attestations: one row per digest and kind,
  links in both directions, and every link with an attestation at one of its ends.
\<close>

section \<open>The graph of one attestation\<close>

text \<open>
  The referrers extracted from an attestation form a star: the attestation refers to all the others,
  and each of them to the attestation.
\<close>

definition star :: "referrer \<Rightarrow> referrer list \<Rightarrow> bool" where
  "star att rs \<longleftrightarrow> att \<in> set rs \<and> rfr_kind att = ReferrerAttestationType \<and> distinct (map MapID rs) \<and>
     set (rfr_references att) = (\<lambda>r. (rfr_digest r, rfr_kind r)) ` (set rs - {att}) \<and>
     (\<forall>r\<in>set rs - {att}. rfr_references r = [(rfr_digest att, rfr_kind att)])"

definition star_map :: "string \<Rightarrow> referrer gomap \<Rightarrow> bool" where
  "star_map attKey m \<longleftrightarrow> (\<forall>(k, r)\<in>set m. k = MapID r) \<and> (\<exists>att. map_of m attKey = Some att \<and> star att (map snd m))"

lemma star_cong: "star att rs \<Longrightarrow> set rs = set rs' \<Longrightarrow> distinct (map MapID rs') \<Longrightarrow> star att rs'"
  by (simp add: star_def)

lemma map_keys_MapID: "(\<forall>(k, r)\<in>set m. k = MapID r) \<Longrightarrow> map MapID (map snd m) = map fst m"
  by (induction m) auto

lemma AList_update_present:
  "gm_wf m \<Longrightarrow> map_of m k = Some v \<Longrightarrow> AList.update k v' m = map (\<lambda>(k', w). (k', if k' = k then v' else w)) m"
proof (induction m)
  case (Cons kv m)
  then show ?case
    by (cases kv) (auto simp: gm_wf_Cons intro!: map_idI [symmetric], force)
qed simp

lemma AList_update_absent: "map_of m k = None \<Longrightarrow> AList.update k v m = m @ [(k, v)]"
  by (induction m) (auto split: if_splits)

lemma star_map_link:
  assumes "star_map attKey m" and fresh: "map_of m (MapID r) = None"
  shows "star_map attKey (link attKey r m)"
proof -
  obtain att where keys: "\<forall>(k, r)\<in>set m. k = MapID r" and att: "map_of m attKey = Some att" and st: "star att (map snd m)"
    using assms(1) by (auto simp: star_map_def)
  define att' where "att' = att\<lparr>rfr_references := rfr_references att @ [(rfr_digest r, rfr_kind r)]\<rparr>"
  define r' where "r' = r\<lparr>rfr_references := [(rfr_digest att, rfr_kind att)]\<rparr>"
  have wf: "gm_wf m" using st map_keys_MapID [OF keys] unfolding star_def gm_wf_def by metis
  have attKey: "attKey = MapID att" using att keys by (auto dest!: map_of_SomeD)
  have ids: "MapID att' = MapID att" "MapID r' = MapID r" by (simp_all add: att'_def r'_def MapID_def)
  have ne: "attKey \<noteq> MapID r" using att fresh by auto
  have m1: "AList.update (MapID r) r' m = m @ [(MapID r, r')]" using fresh by (rule AList_update_absent)
  have "gm_wf (m @ [(MapID r, r')])" using wf fresh by (auto simp: gm_wf_def map_of_eq_None_iff)
  then have m2: "link attKey r m = map (\<lambda>(k, w). (k, if k = attKey then att' else w)) m @ [(MapID r, r')]"
    using AList_update_present [of "m @ [(MapID r, r')]" attKey att att'] att ne m1
    by (simp add: link_def att'_def r'_def)
  have others: "snd ` set (map (\<lambda>(k, w). (k, if k = attKey then att' else w)) m) = insert att' (snd ` set m - {att})"
  proof -
    have "(k = attKey) = (w = att)" if "(k, w) \<in> set m" for k w
    proof -
      have "k = MapID w" using that keys by auto
      then show ?thesis using that attKey att wf by (metis gm_wf_def map_of_is_SomeI option.inject)
    qed
    then have "snd ` set (map (\<lambda>(k, w). (k, if k = attKey then att' else w)) m) = (\<lambda>w. if w = att then att' else w) ` (snd ` set m)"
      unfolding set_map image_image by (intro image_cong) auto
    moreover have "att \<in> snd ` set m" using map_of_SomeD [OF att] by force
    ultimately show ?thesis by auto
  qed
  have set': "set (map snd (link attKey r m)) = insert r' (insert att' (snd ` set m - {att}))"
    using others by (simp add: m2 image_image)
  have keys': "\<forall>(k, r)\<in>set (link attKey r m). k = MapID r"
    unfolding m2 using keys ids attKey by auto
  have distinct': "distinct (map MapID (map snd (link attKey r m)))"
    using wf fresh unfolding map_keys_MapID [OF keys'] by (auto simp: m2 gm_wf_def map_of_eq_None_iff o_def case_prod_beta)
  have diff: "r' \<noteq> att'" using ids ne attKey by metis
  have entry: "map_of m (MapID w) = Some w" if "w \<in> snd ` set m" for w
    using that keys wf by (auto simp: gm_wf_def)
  have notin: "att' \<notin> snd ` set m - {att}" "r' \<notin> snd ` set m"
    using entry [of att'] entry [of r'] ids attKey att fresh by auto
  have rest: "set (map snd (link attKey r m)) - {att'} = insert r' (snd ` set m - {att})"
    using set' diff notin by auto
  have "star att' (map snd (link attKey r m))"
    unfolding star_def rest
  proof (intro conjI distinct')
    show "att' \<in> set (map snd (link attKey r m))" unfolding set' by simp
    show "rfr_kind att' = ReferrerAttestationType" using st by (simp add: star_def att'_def)
    show "set (rfr_references att') = (\<lambda>r. (rfr_digest r, rfr_kind r)) ` insert r' (snd ` set m - {att})"
      using st by (simp add: star_def att'_def r'_def)
    show "\<forall>r\<in>insert r' (snd ` set m - {att}). rfr_references r = [(rfr_digest att', rfr_kind att')]"
      using st by (simp add: star_def att'_def r'_def)
  qed
  moreover have "map_of (link attKey r m) attKey = Some att'"
    using att ne by (simp add: link_def att'_def r'_def update_conv')
  ultimately show ?thesis using keys' by (auto simp: star_map_def)
qed

lemma extract_materials_star: "star_map attKey m \<Longrightarrow> extract_materials db attKey xs m = Inr m' \<Longrightarrow> star_map attKey m'"
  by (induction xs arbitrary: m) (auto simp: Let_def split: option.splits if_splits, (blast intro: star_map_link)+)

lemma extract_subjects_star: "star_map attKey m \<Longrightarrow> extract_subjects attKey ss m = Inr m' \<Longrightarrow> star_map attKey m'"
proof (induction ss arbitrary: m)
  case (Cons s ss)
  then obtain sr where "intotoSubjectToReferrer s = Inr sr" by (auto simp: res_simps)
  with Cons show ?case by (cases sr) (auto split: if_splits intro: star_map_link)
qed simp

lemma extractReferrers_star:
  assumes "extractReferrers re db att digest = Inr rs"
  obtains a where "star a rs" and "rfr_digest a = digest"
proof -
  obtain xp m subjects m' where
    m: "extract_materials db (newRef digest ReferrerAttestationType) (GetMaterials re (xp_predicate xp))
      [(newRef digest ReferrerAttestationType,
        \<lparr>rfr_digest = digest, rfr_kind = ReferrerAttestationType, rfr_downloadable = True,
         rfr_references = [], rfr_metadata = attestation_metadata xp, rfr_annotations = xp_annotations xp\<rparr>)] = Inr m" and
    m': "extract_subjects (newRef digest ReferrerAttestationType) subjects m = Inr m'" and
    rs: "rs = map (\<lambda>k. the (map_of m' k)) (sorted_keys m')"
    using assms by (auto simp: extractReferrers_def Let_def res_simps)
  have "star_map (newRef digest ReferrerAttestationType) m'"
    by (rule extract_subjects_star [OF extract_materials_star [OF _ m] m']) (auto simp: star_map_def star_def MapID_def)
  then obtain a where keys: "\<forall>(k, r)\<in>set m'. k = MapID r" and a: "map_of m' (newRef digest ReferrerAttestationType) = Some a"
    and st: "star a (map snd m')" by (auto simp: star_map_def)
  have wf: "gm_wf m'" using st map_keys_MapID [OF keys] unfolding star_def gm_wf_def by metis
  have get: "the (map_of m' k) = r" if "(k, r) \<in> set m'" for k r using that wf by (simp add: gm_wf_def)
  then have "set rs = snd ` set m'" by (force simp: rs sorted_keys_def image_iff)
  moreover have "map MapID rs = sorted_keys m'"
    using keys get by (fastforce simp: rs sorted_keys_def intro!: map_idI)
  ultimately have "star a rs" using wf by (intro star_cong [OF st]) (auto simp: sorted_keys_def gm_wf_def)
  moreover have "rfr_digest a = digest" using keys a st by (auto simp: MapID_def newRef_def star_def dest!: map_of_SomeD)
  ultimately show ?thesis by (rule that)
qed

section \<open>Rows\<close>

definition rows_ok :: "ref_db \<Rightarrow> bool" where
  "rows_ok db \<longleftrightarrow> distinct (map row_id (db_referrers db)) \<and>
     distinct (map (\<lambda>r. (row_digest r, row_kind r)) (db_referrers db)) \<and>
     inj (\<lambda>n. fst (db_fresh db n)) \<and> (\<forall>r\<in>set (db_referrers db). \<exists>n<db_drawn db. row_id r = fst (db_fresh db n))"

text \<open>What storing a referrer leaves as it was.\<close>

definition extends :: "ref_db \<Rightarrow> ref_db \<Rightarrow> bool" where
  "extends db db' \<longleftrightarrow> prefix (db_referrers db) (db_referrers db') \<and> set (db_ref_workflows db) \<subseteq> set (db_ref_workflows db') \<and>
     cp_db.truncate db' = cp_db.truncate db \<and> db_fresh db' = db_fresh db"

lemmas extends_simps = extends_def cp_db.truncate_def

lemma extends_refl [simp]: "extends db db"
  by (simp add: extends_def)

lemma extends_trans: "extends a b \<Longrightarrow> extends b c \<Longrightarrow> extends a c"
  by (auto simp: extends_def)

lemma extends_references [simp]: "extends db (db'\<lparr>db_references := e\<rparr>) = extends db db'"
  by (simp add: extends_simps)

lemma rows_ok_references [simp]: "rows_ok (db\<lparr>db_references := e\<rparr>) = rows_ok db"
  by (simp add: rows_ok_def)

definition stored_as :: "ref_db \<Rightarrow> string \<Rightarrow> string \<Rightarrow> uuid \<Rightarrow> bool" where
  "stored_as db digest kind rid \<longleftrightarrow>
     (\<exists>row\<in>set (db_referrers db). row_digest row = digest \<and> row_kind row = kind \<and> row_id row = rid)"

lemma stored_as_extends: "stored_as db d k i \<Longrightarrow> extends db db' \<Longrightarrow> stored_as db' d k i"
  by (auto simp: stored_as_def extends_def dest: set_mono_prefix)

lemma stored_as_unique:
  assumes "rows_ok db" and "stored_as db d k i" and "stored_as db d' k' i'"
  shows "(d, k) = (d', k') \<longleftrightarrow> i = i'"
proof -
  obtain a b where ab: "a \<in> set (db_referrers db)" "b \<in> set (db_referrers db)"
    "row_digest a = d" "row_kind a = k" "row_id a = i" "row_digest b = d'" "row_kind b = k'" "row_id b = i'"
    using assms(2,3) by (auto simp: stored_as_def)
  have "inj_on row_id (set (db_referrers db))" "inj_on (\<lambda>r. (row_digest r, row_kind r)) (set (db_referrers db))"
    using assms(1) by (simp_all add: rows_ok_def distinct_map)
  then show ?thesis using ab by (auto simp: inj_on_def)
qed

lemma upsert_referrer_spec:
  assumes "rows_ok db" and "upsert_referrer wid r db = (rid, db')"
  shows "rows_ok db' \<and> extends db db' \<and> stored_as db' (rfr_digest r) (rfr_kind r) rid \<and>
    (rid, wid) \<in> set (db_ref_workflows db') \<and> db_references db' = db_references db"
proof (cases "find (\<lambda>row. row_digest row = rfr_digest r \<and> row_kind row = rfr_kind r) (db_referrers db)")
  case (Some row)
  then have row: "row \<in> set (db_referrers db) \<and> row_digest row = rfr_digest r \<and> row_kind row = rfr_kind r"
    by (auto simp: find_Some_iff)
  have "rid = row_id row" "db' = db\<lparr>db_ref_workflows := List.insert (rid, wid) (db_ref_workflows db)\<rparr>"
    using assms(2) Some by (auto simp: upsert_referrer_def)
  then show ?thesis using assms(1) row by (auto simp: rows_ok_def extends_simps stored_as_def)
next
  case None
  obtain now where fresh: "db_fresh db (db_drawn db) = (rid, now)"
    using assms(2) None by (auto simp: upsert_referrer_def Let_def split: prod.splits)
  have "rid \<notin> row_id ` set (db_referrers db)"
    using assms(1) fresh by (auto simp: rows_ok_def inj_def) (metis fst_conv nat_neq_iff)
  moreover have "(rfr_digest r, rfr_kind r) \<notin> (\<lambda>r. (row_digest r, row_kind r)) ` set (db_referrers db)"
    using None by (auto simp: find_None_iff)
  ultimately show ?thesis
    using assms None fresh
    by (auto simp: upsert_referrer_def rows_ok_def extends_simps stored_as_def less_Suc_eq) (metis fst_conv)+
qed

lemma store_referrers_spec:
  assumes "rows_ok db" and "distinct (map MapID rs)" and "store_referrers wid rs sm db = (sm', db')"
  shows "rows_ok db' \<and> extends db db' \<and> db_references db' = db_references db \<and>
    (\<forall>k. k \<notin> MapID ` set rs \<longrightarrow> map_of sm' k = map_of sm k) \<and>
    (\<forall>r\<in>set rs. \<exists>i. map_of sm' (MapID r) = Some i \<and> stored_as db' (rfr_digest r) (rfr_kind r) i \<and>
       (i, wid) \<in> set (db_ref_workflows db'))"
  using assms
proof (induction rs arbitrary: sm db)
  case (Cons r rs)
  obtain i db1 where up: "upsert_referrer wid r db = (i, db1)" by fastforce
  note step = upsert_referrer_spec [OF Cons.prems(1) up]
  have rest: "store_referrers wid rs (AList.update (MapID r) i sm) db1 = (sm', db')" using Cons.prems(3) up by simp
  have "distinct (map MapID rs)" "MapID r \<notin> MapID ` set rs" using Cons.prems(2) by auto
  with Cons.IH [OF _ _ rest] step have ih: "rows_ok db' \<and> extends db1 db' \<and> db_references db' = db_references db1 \<and>
    (\<forall>k. k \<notin> MapID ` set rs \<longrightarrow> map_of sm' k = map_of (AList.update (MapID r) i sm) k) \<and>
    (\<forall>r\<in>set rs. \<exists>i. map_of sm' (MapID r) = Some i \<and> stored_as db' (rfr_digest r) (rfr_kind r) i \<and>
       (i, wid) \<in> set (db_ref_workflows db'))" by blast
  have "map_of sm' (MapID r) = Some i" using ih \<open>MapID r \<notin> MapID ` set rs\<close> by (simp add: update_conv')
  moreover have "stored_as db' (rfr_digest r) (rfr_kind r) i" using step ih stored_as_extends by blast
  moreover have "(i, wid) \<in> set (db_ref_workflows db')" using step ih by (auto simp: extends_def)
  moreover have "extends db db'" using step ih extends_trans by blast
  moreover have "\<forall>k. k \<notin> MapID ` set (r # rs) \<longrightarrow> map_of sm' k = map_of sm k" using ih by (simp add: update_conv')
  ultimately show ?case using ih step by auto
qed simp

lemma set_fold_insert: "set (fold (\<lambda>i. List.insert (f i)) is xs) = set xs \<union> f ` set is"
  by (induction "is" arbitrary: xs) auto

lemma store_references_spec:
  assumes "\<forall>r\<in>set rs. \<forall>(d, k)\<in>set (rfr_references r). \<exists>i. map_of sm (newRef d k) = Some i"
  shows "\<exists>e. store_references sm rs db = (Inr (), db\<lparr>db_references := e\<rparr>) \<and>
    set e = set (db_references db) \<union>
      {(gm_get sm (MapID r), gm_get sm (newRef d k)) | r d k. r \<in> set rs \<and> (d, k) \<in> set (rfr_references r)}"
  using assms
proof (induction rs arbitrary: db)
  case Nil
  show ?case by (rule exI [of _ "db_references db"]) simp
next
  case (Cons r rs)
  have ids: "reference_ids sm (rfr_references r) = Inr (map (\<lambda>(d, k). gm_get sm (newRef d k)) (rfr_references r))"
    unfolding reference_ids_def using Cons.prems by (intro map_res_pure) (auto simp: gm_get_def split: option.splits)
  let ?e = "fold (\<lambda>i. List.insert (gm_get sm (MapID r), i)) (map (\<lambda>(d, k). gm_get sm (newRef d k)) (rfr_references r)) (db_references db)"
  obtain e where e: "store_references sm rs (db\<lparr>db_references := ?e\<rparr>) = (Inr (), db\<lparr>db_references := e\<rparr>)"
    "set e = set ?e \<union> {(gm_get sm (MapID r), gm_get sm (newRef d k)) | r d k. r \<in> set rs \<and> (d, k) \<in> set (rfr_references r)}"
    using Cons.IH [of "db\<lparr>db_references := ?e\<rparr>"] Cons.prems by auto
  show ?case
  proof (intro exI conjI)
    show "store_references sm (r # rs) db = (Inr (), db\<lparr>db_references := e\<rparr>)" using ids e by simp
    show "set e = set (db_references db) \<union>
      {(gm_get sm (MapID r'), gm_get sm (newRef d k)) | r' d k. r' \<in> set (r # rs) \<and> (d, k) \<in> set (rfr_references r')}"
      unfolding e(2) set_fold_insert by (auto simp: image_iff)
  qed
qed

section \<open>The stored graph\<close>

definition attestation_row :: "ref_db \<Rightarrow> uuid \<Rightarrow> bool" where
  "attestation_row db i \<longleftrightarrow> (\<exists>d. stored_as db d ReferrerAttestationType i)"

text \<open>Links join rows that are there, go both ways, and have an attestation at one end.\<close>

definition index_ok :: "ref_db \<Rightarrow> bool" where
  "index_ok db \<longleftrightarrow> rows_ok db \<and>
     (\<forall>(a, b)\<in>set (db_references db). (b, a) \<in> set (db_references db) \<and>
        {a, b} \<subseteq> row_id ` set (db_referrers db) \<and> (attestation_row db a \<or> attestation_row db b))"

lemma stored_as_references [simp]: "stored_as (db\<lparr>db_references := e\<rparr>) = stored_as db"
  by (simp add: stored_as_def fun_eq_iff)

text \<open>Saving a star never fails and adds exactly its links.\<close>

lemma save_star:
  assumes ok: "rows_ok db" and st: "star a rs" and wf: "wf_FindByID db wid = Inr w"
    and save: "referrers_Save rs wid db = (r, db')"
  obtains ai where "r = Inr ()" and "rows_ok db'" and "extends db db'"
    and "stored_as db' (rfr_digest a) ReferrerAttestationType ai"
    and "\<forall>x\<in>set rs. \<exists>i. stored_as db' (rfr_digest x) (rfr_kind x) i \<and> (i, wid) \<in> set (db_ref_workflows db')"
    and "set (db_references db') = set (db_references db) \<union>
      (\<Union>x\<in>set rs - {a}. {(ai, i) | i. stored_as db' (rfr_digest x) (rfr_kind x) i} \<union>
                         {(i, ai) | i. stored_as db' (rfr_digest x) (rfr_kind x) i})"
proof -
  obtain sm db1 where store: "store_referrers wid rs [] db = (sm, db1)" by fastforce
  have distinct: "distinct (map MapID rs)" and a: "a \<in> set rs" using st by (auto simp: star_def)
  note rows = store_referrers_spec [OF ok distinct store]
  define sid where "sid x = gm_get sm (MapID x)" for x
  have sid: "map_of sm (MapID x) = Some (sid x)" "stored_as db1 (rfr_digest x) (rfr_kind x) (sid x)"
    "(sid x, wid) \<in> set (db_ref_workflows db1)" if "x \<in> set rs" for x
    using rows that by (auto simp: sid_def gm_get_def split: option.splits)
  have refs: "{newRef d k | d k. (d, k) \<in> set (rfr_references x)} = MapID ` (if x = a then set rs - {a} else {a})" if "x \<in> set rs" for x
    using st that by (auto simp: star_def MapID_def image_iff)
  have resolved: "\<forall>r\<in>set rs. \<forall>(d, k)\<in>set (rfr_references r). \<exists>i. map_of sm (newRef d k) = Some i"
  proof (intro ballI, clarify)
    fix x d k assume x: "x \<in> set rs" and "(d, k) \<in> set (rfr_references x)"
    then have "newRef d k \<in> MapID ` set rs" using refs [OF x] a by (auto split: if_splits)
    then show "\<exists>i. map_of sm (newRef d k) = Some i" using sid(1) by auto
  qed
  obtain e where e: "store_references sm rs db1 = (Inr (), db1\<lparr>db_references := e\<rparr>)"
    "set e = set (db_references db1) \<union>
      {(gm_get sm (MapID r), gm_get sm (newRef d k)) | r d k. r \<in> set rs \<and> (d, k) \<in> set (rfr_references r)}"
    using store_references_spec [OF resolved] by blast
  have result: "r = Inr ()" "db' = db1\<lparr>db_references := e\<rparr>"
    using save wf store e by (auto simp: referrers_Save_def)
  have pairs: "{(gm_get sm (MapID r), gm_get sm (newRef d k)) | r d k. r \<in> set rs \<and> (d, k) \<in> set (rfr_references r)} =
    (\<Union>x\<in>set rs. (\<lambda>y. (sid x, sid y)) ` (if x = a then set rs - {a} else {a}))" (is "?L = ?R")
  proof -
    have "?L = (\<Union>x\<in>set rs. Pair (sid x) ` gm_get sm ` {newRef d k | d k. (d, k) \<in> set (rfr_references x)})"
      unfolding sid_def by blast
    also have "\<dots> = ?R" using refs by (auto simp: sid_def image_image)
    finally show ?thesis .
  qed
  have one: "stored_as db1 (rfr_digest x) (rfr_kind x) i \<longleftrightarrow> i = sid x" if "x \<in> set rs" for x i
    using sid(2) [OF that] rows stored_as_unique by blast
  have "set (db_references db') = set (db_references db) \<union>
      (\<Union>x\<in>set rs - {a}. {(sid a, i) | i. stored_as db' (rfr_digest x) (rfr_kind x) i} \<union>
                         {(i, sid a) | i. stored_as db' (rfr_digest x) (rfr_kind x) i})"
    using rows a one unfolding result(2) by (auto simp: e(2) pairs split: if_splits)
  moreover have "stored_as db' (rfr_digest a) ReferrerAttestationType (sid a)"
    using sid(2) [OF a] st by (simp add: result(2) star_def)
  moreover have "\<forall>x\<in>set rs. \<exists>i. stored_as db' (rfr_digest x) (rfr_kind x) i \<and> (i, wid) \<in> set (db_ref_workflows db')"
    using sid by (auto simp: result(2))
  ultimately show ?thesis using rows result by (intro that) auto
qed

lemma index_ok_save:
  assumes "index_ok db" and "star a rs" and "wf_FindByID db wid = Inr w" and "referrers_Save rs wid db = (r, db')"
  shows "index_ok db' \<and> extends db db' \<and> r = Inr ()"
proof -
  have ok: "rows_ok db" using assms(1) by (simp add: index_ok_def)
  obtain ai where ai: "r = Inr ()" "rows_ok db'" "extends db db'" "stored_as db' (rfr_digest a) ReferrerAttestationType ai"
    "\<forall>x\<in>set rs. \<exists>i. stored_as db' (rfr_digest x) (rfr_kind x) i \<and> (i, wid) \<in> set (db_ref_workflows db')"
    "set (db_references db') = set (db_references db) \<union>
      (\<Union>x\<in>set rs - {a}. {(ai, i) | i. stored_as db' (rfr_digest x) (rfr_kind x) i} \<union>
                         {(i, ai) | i. stored_as db' (rfr_digest x) (rfr_kind x) i})"
    using save_star [OF ok assms(2-4)] by blast
  have ids: "i \<in> row_id ` set (db_referrers db')" if "stored_as db' d k i" for d k i
    using that by (auto simp: stored_as_def)
  have old: "(c, b) \<in> set (db_references db) \<and>
      {b, c} \<subseteq> row_id ` set (db_referrers db') \<and> (attestation_row db' b \<or> attestation_row db' c)" if "(b, c) \<in> set (db_references db)" for b c
  proof -
    have "(c, b) \<in> set (db_references db) \<and> {b, c} \<subseteq> row_id ` set (db_referrers db) \<and> (attestation_row db b \<or> attestation_row db c)"
      using assms(1) that unfolding index_ok_def by blast
    moreover have "attestation_row db x \<Longrightarrow> attestation_row db' x" for x
      using stored_as_extends [OF _ ai(3)] unfolding attestation_row_def by blast
    moreover have "set (db_referrers db) \<subseteq> set (db_referrers db')" using ai(3) by (simp add: extends_def set_mono_prefix)
    ultimately show ?thesis by blast
  qed
  have "attestation_row db' ai" using ai(4) by (auto simp: attestation_row_def)
  then have "\<forall>(b, c)\<in>set (db_references db'). (c, b) \<in> set (db_references db') \<and>
      {b, c} \<subseteq> row_id ` set (db_referrers db') \<and> (attestation_row db' b \<or> attestation_row db' c)"
    unfolding ai(6) using old ids ai(4) by blast
  then show ?thesis using ai(1-3) by (simp add: index_ok_def)
qed

section \<open>Every material is there\<close>

text \<open>Kinds without a dash keep the text keys apart.\<close>

definition plain_kind :: "string \<Rightarrow> bool" where
  "plain_kind k \<longleftrightarrow> CHR ''-'' \<notin> set k"

lemma newRef_inj: "plain_kind k \<Longrightarrow> plain_kind k' \<Longrightarrow> newRef d k = newRef d' k' \<longleftrightarrow> d = d' \<and> k = k'"
  by (auto simp: newRef_def plain_kind_def append_eq_append_conv2 Cons_eq_append_conv append_eq_Cons_conv)

definition has_entry :: "referrer gomap \<Rightarrow> string \<Rightarrow> string \<Rightarrow> bool" where
  "has_entry m d k \<longleftrightarrow> (\<exists>r. map_of m (newRef d k) = Some r \<and> rfr_digest r = d \<and> rfr_kind r = k)"

definition plain_map :: "referrer gomap \<Rightarrow> bool" where
  "plain_map m \<longleftrightarrow> (\<forall>k r. map_of m k = Some r \<longrightarrow> k = MapID r \<and> plain_kind (rfr_kind r))"

lemma map_of_link:
  assumes "map_of m attKey = Some att" and "map_of m (MapID r) = None"
  shows "map_of (link attKey r m) k =
    (if k = attKey then Some (att\<lparr>rfr_references := rfr_references att @ [(rfr_digest r, rfr_kind r)]\<rparr>)
     else if k = MapID r then Some (r\<lparr>rfr_references := [(rfr_digest att, rfr_kind att)]\<rparr>) else map_of m k)"
  using assms by (auto simp: link_def update_conv')

lemma has_entry_link:
  assumes "map_of m attKey = Some att" and "map_of m (MapID r) = None"
  shows "has_entry m d k \<Longrightarrow> has_entry (link attKey r m) d k" and "has_entry (link attKey r m) (rfr_digest r) (rfr_kind r)"
proof -
  have ne: "MapID r \<noteq> attKey" using assms by auto
  show "has_entry m d k \<Longrightarrow> has_entry (link attKey r m) d k"
    using assms by (auto simp: has_entry_def map_of_link [OF assms])
  show "has_entry (link attKey r m) (rfr_digest r) (rfr_kind r)"
    using ne by (simp add: has_entry_def map_of_link [OF assms] flip: MapID_def)
qed

lemma plain_map_link:
  assumes "map_of m attKey = Some att" and "map_of m (MapID r) = None" and "plain_map m" and "plain_kind (rfr_kind r)"
  shows "plain_map (link attKey r m)"
  using assms(3,4) assms(1) by (auto simp: plain_map_def map_of_link [OF assms(1,2)] MapID_def)

lemma has_key: "map_of m attKey \<noteq> None \<Longrightarrow> map_of (link attKey r m) attKey \<noteq> None"
  by (auto simp: link_def update_conv')

lemma extract_materials_covers:
  assumes "plain_map m" and "map_of m attKey \<noteq> None" and "list_all (\<lambda>x. plain_kind (nmt_type x)) xs"
    and "extract_materials db attKey xs m = Inr m'"
  shows "(\<forall>d k. has_entry m d k \<longrightarrow> has_entry m' d k) \<and> map_of m' attKey \<noteq> None \<and>
    (\<forall>x\<in>set xs. \<forall>h. nmt_hash x = Some h \<longrightarrow> has_entry m' (''sha256:'' @ h) (nmt_type x))"
  using assms
proof (induction xs arbitrary: m)
  case (Cons x xs)
  show ?case
  proof (cases "nmt_hash x")
    case None
    then show ?thesis using Cons by auto
  next
    case (Some h)
    define r where "r = material_referrer (''sha256:'' @ h) x"
    have r: "rfr_digest r = ''sha256:'' @ h" "rfr_kind r = nmt_type x" by (simp_all add: r_def material_referrer_def)
    define m1 where "m1 = (if map_of m (MapID r) \<noteq> None then m else link attKey r m)"
    have step: "extract_materials db attKey xs m1 = Inr m'"
      using Cons.prems(4) Some unfolding extract_materials.simps by (auto simp: Let_def m1_def r_def split: if_splits)
    obtain att where att: "map_of m attKey = Some att" using Cons.prems(2) by auto
    have plain: "plain_kind (nmt_type x)" "list_all (\<lambda>x. plain_kind (nmt_type x)) xs" using Cons.prems(3) by auto
    have "plain_map m1 \<and> map_of m1 attKey \<noteq> None \<and> (\<forall>d k. has_entry m d k \<longrightarrow> has_entry m1 d k) \<and>
        has_entry m1 (''sha256:'' @ h) (nmt_type x)"
    proof (cases "map_of m (MapID r)")
      case None
      then show ?thesis
        using has_entry_link [OF att None] plain_map_link [OF att None Cons.prems(1)] has_key [of m attKey r] Cons.prems(2) plain r
        by (simp add: m1_def)
    next
      case old: (Some r')
      then have "MapID r = MapID r'" "plain_kind (rfr_kind r')" using Cons.prems(1) by (auto simp: plain_map_def)
      then have "rfr_digest r' = ''sha256:'' @ h" "rfr_kind r' = nmt_type x"
        using plain r by (auto simp: MapID_def newRef_inj)
      then have "has_entry m (''sha256:'' @ h) (nmt_type x)" using old r by (auto simp: has_entry_def MapID_def)
      then show ?thesis using old Cons.prems by (simp add: m1_def)
    qed
    then show ?thesis using Cons.IH [OF _ _ plain(2) step] Some by auto
  qed
qed simp

lemma extract_subjects_keeps:
  assumes "map_of m attKey \<noteq> None" and "extract_subjects attKey ss m = Inr m'" and "has_entry m d k"
  shows "has_entry m' d k"
  using assms
proof (induction ss arbitrary: m)
  case (Cons s ss)
  then obtain sr where "intotoSubjectToReferrer s = Inr sr" by (auto simp: res_simps)
  with Cons.prems show ?case
    using Cons.IH [of m] Cons.IH [of "link attKey (the sr) m"] has_key [of m attKey "the sr"] has_entry_link(1) [of m attKey _ "the sr" d k]
    by (cases sr) (auto split: if_splits)
qed simp

lemma extractReferrers_covers:
  assumes "rfe_extract_predicate re att = Inr xp" and "extractReferrers re db att digest = Inr rs"
    and "list_all (\<lambda>x. plain_kind (nmt_type x)) (GetMaterials re (xp_predicate xp))"
    and "x \<in> set (GetMaterials re (xp_predicate xp))" and "nmt_hash x = Some h"
  shows "\<exists>r\<in>set rs. rfr_digest r = ''sha256:'' @ h \<and> rfr_kind r = nmt_type x"
proof -
  let ?key = "newRef digest ReferrerAttestationType"
  obtain a m subjects m' where
    m: "extract_materials db ?key (GetMaterials re (xp_predicate xp)) [(?key, a)] = Inr m" and
    m': "extract_subjects ?key subjects m = Inr m'" and a: "rfr_digest a = digest" "rfr_kind a = ReferrerAttestationType" and
    rs: "rs = map (\<lambda>k. the (map_of m' k)) (sorted_keys m')"
    using assms(1,2) by (auto simp: extractReferrers_def Let_def res_simps)
  have "plain_map [(?key, a)]" using a by (auto simp: plain_map_def MapID_def plain_kind_def ReferrerAttestationType_def)
  from extract_materials_covers [OF this _ assms(3) m] assms(4,5)
  have "has_entry m (''sha256:'' @ h) (nmt_type x)" and "map_of m ?key \<noteq> None" by auto
  then have "has_entry m' (''sha256:'' @ h) (nmt_type x)" using extract_subjects_keeps [OF _ m'] by blast
  then obtain r where r: "map_of m' (newRef (''sha256:'' @ h) (nmt_type x)) = Some r"
    "rfr_digest r = ''sha256:'' @ h" "rfr_kind r = nmt_type x" by (auto simp: has_entry_def)
  then have "newRef (''sha256:'' @ h) (nmt_type x) \<in> set (sorted_keys m')"
    by (force simp: sorted_keys_def dest: map_of_SomeD)
  then have "r \<in> set rs" using r(1) by (force simp: rs)
  then show ?thesis using r by blast
qed

section \<open>Properties\<close>

text \<open>The inputs a call accepts, as far as the store is concerned.\<close>

lemma ExtractAndPersist_Inr:
  assumes "ExtractAndPersist re att digest workflowID db = (r, db')" and "rows_ok db"
  obtains (failed) "r \<noteq> Inr ()" "db' = db"
  | (stored) wid w rs where "rfe_parse_uuid re workflowID = Inr wid" "wf_FindByID db wid = Inr w"
      "extractReferrers re db att digest = Inr rs" "referrers_Save rs wid db = (Inr (), db')" "r = Inr ()"
proof (cases "\<exists>wid w rs. rfe_parse_uuid re workflowID = Inr wid \<and> wf_FindByID db wid = Inr w \<and>
    extractReferrers re db att digest = Inr rs")
  case False
  then show ?thesis using assms(1) by (intro failed) (auto simp: ExtractAndPersist_def split: sum.splits)
next
  case True
  then obtain wid w rs where *: "rfe_parse_uuid re workflowID = Inr wid" "wf_FindByID db wid = Inr w"
    "extractReferrers re db att digest = Inr rs" by blast
  obtain q where q: "referrers_Save rs wid db = (q, db')" "r = map_err (Wrapf ''saving referrers: %w'' []) q"
    using assms(1) * by (auto simp: ExtractAndPersist_def split: prod.splits)
  obtain a where "star a rs" using extractReferrers_star [OF *(3)] .
  then have "q = Inr ()" using save_star [OF assms(2) _ *(2) q(1)] by blast
  then show ?thesis using * q by (intro stored) auto
qed

lemma ExtractAndPersist_index_ok:
  assumes "index_ok db" and "ExtractAndPersist re att digest workflowID db = (r, db')"
  shows "index_ok db' \<and> extends db db' \<and> set (db_references db) \<subseteq> set (db_references db') \<and> (r \<noteq> Inr () \<longrightarrow> db' = db)"
proof -
  have ok: "rows_ok db" using assms(1) by (simp add: index_ok_def)
  from assms(2) ok show ?thesis
  proof (cases rule: ExtractAndPersist_Inr)
    case (stored wid w rs)
    obtain a where st: "star a rs" using extractReferrers_star [OF stored(3)] .
    have "set (db_references db) \<subseteq> set (db_references db')"
      using save_star [OF ok st stored(2,4)] by blast
    then show ?thesis using index_ok_save [OF assms(1) st stored(2,4)] stored(5) by simp
  qed (use assms(1) in simp)
qed

text \<open>
  The index keeps its shape whatever is attested: one row per digest and kind, links in both
  directions between rows that are there, an attestation at one end of each. A call that fails leaves
  the index as it was, and no row or link is ever removed or changed.
\<close>

theorem referrer_index_sound:
  assumes "index_ok db" and "ExtractAndPersist re att digest workflowID db = (r, db')"
  shows "index_ok db' \<and> extends db db' \<and> set (db_references db) \<subseteq> set (db_references db') \<and> (r \<noteq> Inr () \<longrightarrow> db' = db)"
  using assms by (rule ExtractAndPersist_index_ok)

lemma materials_linked:
  assumes "index_ok db" and "ExtractAndPersist re att digest workflowID db = (Inr (), db')"
    and "rfe_extract_predicate re att = Inr xp" and "rfe_parse_uuid re workflowID = Inr wid"
    and "list_all (\<lambda>x. plain_kind (nmt_type x)) (GetMaterials re (xp_predicate xp))"
    and "x \<in> set (GetMaterials re (xp_predicate xp))" and "nmt_hash x = Some h"
  shows "\<exists>a i. stored_as db' digest ReferrerAttestationType a \<and> stored_as db' (''sha256:'' @ h) (nmt_type x) i \<and>
    (i, wid) \<in> set (db_ref_workflows db') \<and>
    (i = a \<or> (a, i) \<in> set (db_references db') \<and> (i, a) \<in> set (db_references db'))"
proof -
  have ok: "rows_ok db" using assms(1) by (simp add: index_ok_def)
  from assms(2) ok obtain w rs where *: "wf_FindByID db wid = Inr w" "extractReferrers re db att digest = Inr rs"
    "referrers_Save rs wid db = (Inr (), db')" using assms(4) by (auto elim: ExtractAndPersist_Inr)
  obtain b where st: "star b rs" "rfr_digest b = digest" using extractReferrers_star [OF *(2)] .
  obtain r where r: "r \<in> set rs" "rfr_digest r = ''sha256:'' @ h" "rfr_kind r = nmt_type x"
    using extractReferrers_covers [OF assms(3) *(2) assms(5-7)] by blast
  obtain a where ok': "rows_ok db'" and a: "stored_as db' (rfr_digest b) ReferrerAttestationType a"
    "\<forall>x\<in>set rs. \<exists>i. stored_as db' (rfr_digest x) (rfr_kind x) i \<and> (i, wid) \<in> set (db_ref_workflows db')"
    "set (db_references db') = set (db_references db) \<union>
      (\<Union>x\<in>set rs - {b}. {(a, i) | i. stored_as db' (rfr_digest x) (rfr_kind x) i} \<union>
                         {(i, a) | i. stored_as db' (rfr_digest x) (rfr_kind x) i})"
    by (rule save_star [OF ok st(1) *(1,3)])
  obtain i where i: "stored_as db' (rfr_digest r) (rfr_kind r) i" "(i, wid) \<in> set (db_ref_workflows db')"
    using a(2) r(1) by blast
  show ?thesis
  proof (cases "r = b")
    case True
    then have "rfr_kind r = ReferrerAttestationType" using st by (simp add: star_def)
    then have "i = a" using stored_as_unique [OF ok' i(1) a(1)] True by simp
    then show ?thesis using a(1) i r st(2) by auto
  next
    case False
    then have "(a, i) \<in> set (db_references db') \<and> (i, a) \<in> set (db_references db')"
      using r(1) i(1) unfolding a(3) by blast
    then show ?thesis using a(1) i r st(2) by auto
  qed
qed

text \<open>
  A stored attestation is found with everything it attests: its row and a row for every material
  with a digest, of that kind, attached to the workflow, and links both ways between the attestation
  and the material.
\<close>

theorem attested_materials_linked:
  assumes "index_ok db" and "ExtractAndPersist re att digest workflowID db = (Inr (), db')"
    and "rfe_extract_predicate re att = Inr xp" and "rfe_parse_uuid re workflowID = Inr wid"
    and "list_all (\<lambda>x. plain_kind (nmt_type x)) (GetMaterials re (xp_predicate xp))"
    and "x \<in> set (GetMaterials re (xp_predicate xp))" and "nmt_hash x = Some h"
  shows "\<exists>a i. stored_as db' digest ReferrerAttestationType a \<and> stored_as db' (''sha256:'' @ h) (nmt_type x) i \<and>
    (i, wid) \<in> set (db_ref_workflows db') \<and>
    (i = a \<or> (a, i) \<in> set (db_references db') \<and> (i, a) \<in> set (db_references db'))"
  using assms by (rule materials_linked)

end
