(* ===== verification/Referrer_Discovery.thy ===== *)
theory Referrer_Discovery
  imports Referrer_Index
begin

text \<open>
  What the discovery of a referrer shows: only what the caller may see, the same whatever else is
  stored, and, page after page, every reference once.
\<close>

section \<open>Project visibility\<close>

text \<open>
  The query condition on projects: the project is in an allowed organization which either has no
  restriction for the caller or grants that very project.
\<close>

definition project_visible :: "uuid list \<Rightarrow> visible_projects \<Rightarrow> project_row \<Rightarrow> bool" where
  "project_visible orgIDs visible p \<longleftrightarrow> pj_org p \<in> set orgIDs \<and>
     (case map_of visible (pj_org p) of None \<Rightarrow> True | Some ps \<Rightarrow> pj_id p \<in> set ps)"

lemma project_grants_set:
  "(o', p) \<in> set (project_grants orgIDs visible) \<longleftrightarrow> o' \<in> set orgIDs \<and> (\<exists>ps. map_of visible o' = Some ps \<and> p \<in> set ps)"
proof (cases "map_of visible o'")
  case (Some ps)
  then have "(o', p) \<in> set (case map_of visible x of None \<Rightarrow> [] | Some ps \<Rightarrow> map (Pair x) ps) \<longleftrightarrow> x = o' \<and> p \<in> set ps" for x
    by (cases "map_of visible x") auto
  then show ?thesis using Some by (auto simp: project_grants_def)
next
  case None
  then have "(o', p) \<notin> set (case map_of visible x of None \<Rightarrow> [] | Some ps \<Rightarrow> map (Pair x) ps)" for x
    by (cases "map_of visible x") auto
  then show ?thesis using None by (auto simp: project_grants_def)
qed

lemma projectVisibilityPredicate_spec:
  "(case projectVisibilityPredicate orgIDs visible of None \<Rightarrow> False | Some P \<Rightarrow> P p) \<longleftrightarrow> project_visible orgIDs visible p"
proof -
  have "(case projectVisibilityPredicate orgIDs visible of None \<Rightarrow> False | Some P \<Rightarrow> P p) \<longleftrightarrow>
      pj_org p \<in> set (filter (\<lambda>orgID. map_of visible orgID = None) orgIDs) \<or> (pj_org p, pj_id p) \<in> set (project_grants orgIDs visible)"
    by (simp add: projectVisibilityPredicate_def Let_def) (auto simp: filter_empty_conv)
  then show ?thesis by (auto simp: project_visible_def project_grants_set split: option.splits)
qed

section \<open>One page\<close>

abbreviation shown :: "ref_db \<Rightarrow> uuid list \<Rightarrow> visible_projects \<Rightarrow> referrer_row \<Rightarrow> bool" where
  "shown db orgs visible r \<equiv> isReferrerVisible (hydrateWorkflowsInfo db r) orgs visible"

lemma doGet_leaf:
  "maxTraverseLevels \<le> level \<Longrightarrow> doGet cc db orgs visible pred r p level =
     (if shown db orgs visible r then Inr (hydrateWorkflowsInfo db r, [])
      else Inl (NewErrUnauthorizedStr ''referrer not allowed''))"
  by (subst doGet.simps) (simp add: Let_def)

lemma keep_visible_leaves:
  "keep_visible (\<lambda>r. doGet cc db orgs visible pred r None (Suc 0)) refs =
     Inr (map (hydrateWorkflowsInfo db) (filter (shown db orgs visible) refs))"
  by (induction refs) (auto simp: doGet_leaf maxTraverseLevels_def)

definition page_of :: "ref_db \<Rightarrow> uuid list \<Rightarrow> (referrer_row \<Rightarrow> bool) option \<Rightarrow> referrer_row \<Rightarrow> cursor_options \<Rightarrow>
    referrer_row list \<times> (int \<times> uuid) option" where
  "page_of db orgs pred root p = reference_page db orgs pred root (nat (co_limit p)) (co_cursor p)"

definition rejected :: "ref_db \<Rightarrow> uuid list \<Rightarrow> (referrer_row \<Rightarrow> bool) option \<Rightarrow> referrer_row \<Rightarrow> bool" where
  "rejected db orgs pred root \<longleftrightarrow> pred \<noteq> None \<and> row_kind root \<noteq> ReferrerAttestationType \<and> \<not> root_in_project db orgs pred root"

lemma doGet_root:
  "doGet cc db orgs visible pred root p 0 =
     (let (refs, nxt) = page_of db orgs pred root (default_page p); seen = filter (shown db orgs visible) refs in
      if \<not> shown db orgs visible root then Inl (NewErrUnauthorizedStr ''referrer not allowed'')
      else if seen = [] \<and> rejected db orgs pred root
        then Inl (NewErrUnauthorizedStr ''referrer not part of the requested project'')
      else Inr (with_references (hydrateWorkflowsInfo db root) (map (hydrateWorkflowsInfo db) seen), next_cursor cc nxt))"
  by (subst doGet.simps)
    (auto simp: Let_def maxTraverseLevels_def keep_visible_leaves page_of_def rejected_def split: prod.splits)

lemma reference_page_rows:
  assumes "reference_page db orgs pred root limit c = (refs, nxt)"
  shows "set refs \<subseteq> set (reference_rows db orgs pred root)"
  using assms set_take_subset
  by (fastforce simp: reference_page_def cut_page_def fetch_def order_desc_def split: if_splits dest!: in_set_takeD)

section \<open>The root\<close>

definition root_opts :: "(root_filters \<Rightarrow> root_filters) list \<Rightarrow> root_filters" where
  "root_opts filters = fold (\<lambda>f o'. f o') filters no_filters"

definition root_candidates :: "ref_db \<Rightarrow> string \<Rightarrow> uuid list \<Rightarrow> root_filters \<Rightarrow> referrer_row list" where
  "root_candidates db digest orgs opts =
     filter (\<lambda>r. row_digest r = digest \<and> (case gf_kind opts of None \<Rightarrow> True | Some k \<Rightarrow> row_kind r = k) \<and>
       referrerVisibleToOrgs db orgs r \<and> in_scope (scope_predicate db opts orgs) r) (db_referrers db)"

lemma repo_GetFromRoot_eq:
  "repo_GetFromRoot cc db digest orgs p filters =
     (let opts = root_opts filters in
      case root_candidates db digest orgs opts of
        [] \<Rightarrow> Inr None
      | [root] \<Rightarrow>
          (case doGet cc db orgs (gf_projects opts) (scope_predicate db opts orgs) root p 0 of
             Inl _ \<Rightarrow> Inr None | Inr r \<Rightarrow> Inr (Some r))
      | refs \<Rightarrow> Inl (NewErrReferrerAmbiguous digest (map row_kind refs)))"
proof -
  have "IsErrUnauthorized x" if "doGet cc db orgs visible pred root p 0 = Inl x" for visible pred root x
    using that by (auto simp: doGet_root Let_def split: prod.splits if_splits)
  then show ?thesis
    by (auto simp: repo_GetFromRoot_def Let_def root_opts_def root_candidates_def split: list.splits sum.splits)
qed

definition uc_filters :: "string \<Rightarrow> visible_projects option \<Rightarrow> (root_filters \<Rightarrow> root_filters) list \<Rightarrow> (root_filters \<Rightarrow> root_filters) list" where
  "uc_filters rootKind projectIDs extra = (if rootKind \<noteq> [] then [WithKind rootKind] else []) @
     (case projectIDs of None \<Rightarrow> [] | Some ps \<Rightarrow> [WithVisibleProjectIDs ps]) @ extra"

lemma uc_GetFromRoot_Inr:
  "uc_GetFromRoot cc db digest rootKind orgs projectIDs p extra = Inr r \<longleftrightarrow>
     (\<exists>root. root_candidates db digest orgs (root_opts (uc_filters rootKind projectIDs extra)) = [root] \<and>
        doGet cc db orgs (gf_projects (root_opts (uc_filters rootKind projectIDs extra)))
          (scope_predicate db (root_opts (uc_filters rootKind projectIDs extra)) orgs) root p 0 = Inr r)"
  by (auto simp: uc_GetFromRoot_def repo_GetFromRoot_eq uc_filters_def Let_def split: list.splits sum.splits)

text \<open>The filters of the discovery service: a project scope or nothing.\<close>

definition service_filters :: "string \<Rightarrow> string \<Rightarrow> (root_filters \<Rightarrow> root_filters) list" where
  "service_filters projectName projectVersion =
     (if projectName \<noteq> [] then [WithProjectScope projectName projectVersion] else [])"

lemma service_opts:
  "gf_projects (root_opts (uc_filters rootKind (Some visible) (service_filters name version))) = visible"
  "gf_kind (root_opts (uc_filters rootKind (Some visible) (service_filters name version))) =
     (if rootKind \<noteq> [] then Some rootKind else None)"
  by (simp_all add: root_opts_def uc_filters_def service_filters_def WithKind_def WithVisibleProjectIDs_def
      WithProjectScope_def no_filters_def)

definition service_scope :: "ref_db \<Rightarrow> uuid list \<Rightarrow> visible_projects \<Rightarrow> string \<Rightarrow> string \<Rightarrow> (referrer_row \<Rightarrow> bool) option" where
  "service_scope db orgs visible name version =
     (if name = [] then None else Some (projectScopePredicate db name version orgs visible))"

lemma service_scope_opts:
  "scope_predicate db (root_opts (uc_filters rootKind (Some visible) (service_filters name version))) orgs =
   service_scope db orgs visible name version"
  by (simp add: scope_predicate_def service_scope_def root_opts_def uc_filters_def service_filters_def WithKind_def
      WithVisibleProjectIDs_def WithProjectScope_def no_filters_def)

section \<open>Visibility\<close>

text \<open>
  A caller may see a referrer attached to a live workflow of one of the allowed organizations, and to
  a workflow of an allowed organization that does not restrict the caller or in whose granted
  projects one of the referrer's workflows is.
\<close>

definition may_see :: "ref_db \<Rightarrow> uuid list \<Rightarrow> visible_projects \<Rightarrow> referrer_row \<Rightarrow> bool" where
  "may_see db orgs visible r \<longleftrightarrow>
     (\<exists>w\<in>set (workflows_of db r). \<not> wfr_deleted w \<and> wfr_org w \<in> set orgs) \<and>
     (\<exists>w\<in>set (workflows_of db r). wfr_org w \<in> set orgs \<and>
        (case map_of visible (wfr_org w) of
           None \<Rightarrow> True | Some ps \<Rightarrow> (\<exists>w'\<in>set (workflows_of db r). wfr_project w' \<in> set ps)))"

lemma may_see_iff: "may_see db orgs visible r \<longleftrightarrow> referrerVisibleToOrgs db orgs r \<and> shown db orgs visible r"
  by (auto simp: may_see_def referrerVisibleToOrgs_def isReferrerVisible_def hydrateWorkflowsInfo_def Let_def list_ex_iff
      split: option.splits)

text \<open>The referrers no organization of the caller has anything to do with.\<close>

definition hide_others :: "uuid list \<Rightarrow> ref_db \<Rightarrow> ref_db" where
  "hide_others orgs db = db\<lparr>db_referrers := filter (referrerVisibleToOrgs db orgs) (db_referrers db)\<rparr>"

lemma hide_others_simps [simp]:
  "db_referrers (hide_others orgs db) = filter (referrerVisibleToOrgs db orgs) (db_referrers db)"
  "workflows_of (hide_others orgs db) = workflows_of db"
  "referrerVisibleToOrgs (hide_others orgs db) = referrerVisibleToOrgs db"
  "hydrateWorkflowsInfo (hide_others orgs db) = hydrateWorkflowsInfo db"
  "scope_predicate (hide_others orgs db) = scope_predicate db"
  "references_of (hide_others orgs db) root = filter (referrerVisibleToOrgs db orgs) (references_of db root)"
  by (auto simp: hide_others_def workflows_of_def referrerVisibleToOrgs_def hydrateWorkflowsInfo_def scope_predicate_def
      references_of_def projectScopePredicate_def run_in_project_def project_with_def fun_eq_iff Let_def conj_commute
      split: option.splits)

lemma hide_others_root:
  "root_candidates (hide_others orgs db) digest orgs opts = root_candidates db digest orgs opts"
  "reference_rows (hide_others orgs db) orgs pred root = reference_rows db orgs pred root"
  "root_in_project (hide_others orgs db) orgs pred root = root_in_project db orgs pred root"
proof -
  show "root_candidates (hide_others orgs db) digest orgs opts = root_candidates db digest orgs opts"
    by (auto simp: root_candidates_def intro!: filter_cong)
  show "reference_rows (hide_others orgs db) orgs pred root = reference_rows db orgs pred root"
    by (auto simp: reference_rows_def intro!: filter_cong)
  show "root_in_project (hide_others orgs db) orgs pred root = root_in_project db orgs pred root"
    by (auto simp: root_in_project_def list_ex_iff split: option.splits)
qed

lemma hide_others_doGet:
  "doGet cc (hide_others orgs db) orgs visible pred root p 0 = doGet cc db orgs visible pred root p 0"
  by (auto simp: doGet_root page_of_def reference_page_def rejected_def hide_others_root Let_def split: prod.split)

lemma hide_others_GetFromRoot:
  "uc_GetFromRoot cc (hide_others orgs db) digest rootKind orgs projectIDs p extra =
   uc_GetFromRoot cc db digest rootKind orgs projectIDs p extra"
  by (simp add: uc_GetFromRoot_def repo_GetFromRoot_eq hide_others_root hide_others_doGet Let_def cong: list.case_cong)

lemma doGet_shows:
  assumes "doGet cc db orgs visible pred root p 0 = Inr (s, nxt)" and "referrerVisibleToOrgs db orgs root"
  shows "sf_row s = root \<and> list_all (may_see db orgs visible) (root # map sf_row (sf_references s)) \<and>
    set (map sf_row (sf_references s)) \<subseteq> set (references_of db root)"
proof -
  obtain refs k where page: "page_of db orgs pred root (default_page p) = (refs, k)" by fastforce
  from assms(1) page have "shown db orgs visible root"
    and s: "s = with_references (hydrateWorkflowsInfo db root) (map (hydrateWorkflowsInfo db) (filter (shown db orgs visible) refs))"
    by (auto simp: doGet_root Let_def split: if_splits)
  moreover have "set refs \<subseteq> set (reference_rows db orgs pred root)"
    using page reference_page_rows by (simp add: page_of_def)
  moreover have row: "sf_row (hydrateWorkflowsInfo db r) = r" for r by (simp add: hydrateWorkflowsInfo_def Let_def)
  ultimately show ?thesis
    using assms(2) by (auto simp: s with_references_def may_see_iff list_all_iff reference_rows_def)
qed

section \<open>Page after page\<close>

text \<open>A client that asks for the next page with the cursor it was given, until there is none.\<close>

fun discover_pages :: "(string \<Rightarrow> (stored_referrer \<times> string) res) \<Rightarrow> nat \<Rightarrow> string \<Rightarrow> (stored_referrer list \<times> bool) res" where
  "discover_pages get 0 cursor = Inr ([], False)"
| "discover_pages get (Suc n) cursor =
     bind_res (get cursor) (\<lambda>(s, nxt).
     if nxt = [] then Inr (sf_references s, True)
     else bind_res (discover_pages get n nxt) (\<lambda>(more, ended). Inr (sf_references s @ more, ended)))"

definition get_page ::
  "cursor_codec \<Rightarrow> ref_db \<Rightarrow> string \<Rightarrow> string \<Rightarrow> uuid list \<Rightarrow> visible_projects option \<Rightarrow>
     (root_filters \<Rightarrow> root_filters) list \<Rightarrow> int \<Rightarrow> string \<Rightarrow> (stored_referrer \<times> string) res" where
  "get_page cc db digest rootKind orgs projectIDs extra limit cursor =
     bind_res (NewCursor cc cursor limit) (\<lambda>p. uc_GetFromRoot cc db digest rootKind orgs projectIDs (Some p) extra)"

lemma row_key_distinct: "rows_ok db \<Longrightarrow> distinct (map row_key (reference_rows db orgs pred root))"
proof -
  assume "rows_ok db"
  then have "inj_on row_id (set (db_referrers db))" "distinct (db_referrers db)" by (auto simp: rows_ok_def distinct_map)
  then show ?thesis
    by (auto simp: distinct_map reference_rows_def references_of_def inj_on_def row_key_def)
qed

lemma page_keys:
  assumes "reference_page db orgs pred root limit c = (refs, Some k)" and "0 < limit"
  shows "k \<in> row_key ` set (db_referrers db)"
proof -
  let ?page = "fetch (order_desc row_key) row_key c limit (reference_rows db orgs pred root)"
  have "limit < length ?page" and k: "k = row_key (?page ! (limit - 1))"
    using assms(1) by (auto simp: reference_page_def cut_page_def split: if_splits)
  then have "?page ! (limit - 1) \<in> set ?page" by (intro nth_mem) simp
  then show ?thesis using k
    by (auto simp: fetch_def order_desc_def reference_rows_def references_of_def dest!: in_set_takeD)
qed

text \<open>With the project filter on, a root that has a reference to show belongs to the project.\<close>

lemma not_rejected:
  assumes "index_ok db" and "root \<in> set (db_referrers db)" and "r \<in> set (reference_rows db orgs pred root)"
  shows "\<not> rejected db orgs pred root"
proof (cases "row_kind root = ReferrerAttestationType")
  case False
  have r: "r \<in> set (db_referrers db)" "(row_id root, row_id r) \<in> set (db_references db)" "referrerVisibleToOrgs db orgs r" "in_scope pred r"
    using assms(3) by (auto simp: reference_rows_def references_of_def)
  have same: "row_kind x = ReferrerAttestationType" if "attestation_row db (row_id x)" "x \<in> set (db_referrers db)" for x
    using that assms(1) by (auto simp: attestation_row_def stored_as_def index_ok_def rows_ok_def distinct_map inj_on_def)
  have "attestation_row db (row_id root) \<or> attestation_row db (row_id r)" using assms(1) r(2) by (auto simp: index_ok_def)
  then have "row_kind r = ReferrerAttestationType" using same False assms(2) r(1) by blast
  then show ?thesis
    using assms(3) r by (auto simp: rejected_def root_in_project_def list_ex_iff reference_rows_def in_scope_def split: option.splits)
qed (simp add: rejected_def)

text \<open>Once a root is served, every page of it is.\<close>

lemma get_page_served:
  assumes ok: "index_ok db" and good: "\<forall>r\<in>set (db_referrers db). codec_good cc (row_created_at r) (row_id r)"
    and limit: "0 < limit" and first: "get_page cc db digest rootKind orgs projectIDs extra limit [] = Inr (s, nxt)"
  obtains root opts where "sf_row s = root" and "opts = root_opts (uc_filters rootKind projectIDs extra)"
    and "root \<in> set (db_referrers db)"
    and "\<And>k. k \<in> insert None (Some ` row_key ` set (db_referrers db)) \<Longrightarrow>
      get_page cc db digest rootKind orgs projectIDs extra limit (next_cursor cc k) =
        (let (refs, nxt) = reference_page db orgs (scope_predicate db opts orgs) root (nat limit) k in
         Inr (with_references (hydrateWorkflowsInfo db root)
                (map (hydrateWorkflowsInfo db) (filter (shown db orgs (gf_projects opts)) refs)), next_cursor cc nxt))"
proof -
  define opts where "opts = root_opts (uc_filters rootKind projectIDs extra)"
  define pred where "pred = scope_predicate db opts orgs"
  define opt where "opt k = \<lparr>co_cursor = k, co_limit = limit\<rparr>" for k
  have cursor: "NewCursor cc (next_cursor cc k) limit = Inr (opt k)" if "k \<in> insert None (Some ` row_key ` set (db_referrers db))" for k
    using that good cursor_roundtrip [of cc _ _ limit] limit
    by (auto simp: next_cursor_def opt_def row_key_def) (simp add: NewCursor_def)
  from first obtain root where root: "root_candidates db digest orgs opts = [root]"
    and got: "doGet cc db orgs (gf_projects opts) pred root (Some (opt None)) 0 = Inr (s, nxt)"
    using cursor [of None] by (auto simp: get_page_def uc_GetFromRoot_Inr opts_def pred_def next_cursor_def)
  have mem: "root \<in> set (db_referrers db)" and vis: "referrerVisibleToOrgs db orgs root"
    using arg_cong [OF root, of set] by (auto simp: root_candidates_def)
  obtain refs k where page: "page_of db orgs pred root (opt None) = (refs, k)" by fastforce
  have shown: "shown db orgs (gf_projects opts) root" and
    fine: "filter (shown db orgs (gf_projects opts)) refs \<noteq> [] \<or> \<not> rejected db orgs pred root"
    using got page by (auto simp: doGet_root default_page_def Let_def split: if_splits)
  have "refs \<noteq> [] \<Longrightarrow> \<not> rejected db orgs pred root"
    using not_rejected [OF ok mem] reference_page_rows page by (fastforce simp: page_of_def neq_Nil_conv)
  then have accepted: "\<not> rejected db orgs pred root" using fine by (cases "refs = []") auto
  have "get_page cc db digest rootKind orgs projectIDs extra limit (next_cursor cc k) =
        (let (refs, nxt) = reference_page db orgs pred root (nat limit) k in
         Inr (with_references (hydrateWorkflowsInfo db root)
                (map (hydrateWorkflowsInfo db) (filter (shown db orgs (gf_projects opts)) refs)), next_cursor cc nxt))"
    if "k \<in> insert None (Some ` row_key ` set (db_referrers db))" for k
  proof -
    obtain refs nxt where p: "reference_page db orgs pred root (nat limit) k = (refs, nxt)" by fastforce
    have "doGet cc db orgs (gf_projects opts) pred root (Some (opt k)) 0 =
        Inr (with_references (hydrateWorkflowsInfo db root)
                (map (hydrateWorkflowsInfo db) (filter (shown db orgs (gf_projects opts)) refs)), next_cursor cc nxt)"
      using shown accepted p by (simp add: doGet_root default_page_def page_of_def opt_def Let_def)
    then show ?thesis using cursor [OF that] root p
      by (simp add: get_page_def) (simp add: uc_GetFromRoot_Inr opts_def pred_def)
  qed
  moreover have "sf_row s = root" using doGet_shows [OF got vis] by simp
  ultimately show ?thesis using that [of root opts] mem by (simp add: opts_def pred_def)
qed

lemma discover_follows:
  assumes limit: "0 < limit"
    and pages: "\<And>k. k \<in> insert None (Some ` row_key ` set (db_referrers db)) \<Longrightarrow> get (next_cursor cc k) =
      (let (refs, nxt) = reference_page db orgs pred root limit k in Inr (with_references h (map f (filter q refs)), next_cursor cc nxt))"
    and k: "k \<in> insert None (Some ` row_key ` set (db_referrers db))"
  shows "discover_pages get n (next_cursor cc k) =
    Inr (map f (filter q (fst (follow (reference_page db orgs pred root limit) n k))),
         snd (follow (reference_page db orgs pred root limit) n k))"
  using k
proof (induction n arbitrary: k)
  case (Suc n)
  obtain refs nxt where p: "reference_page db orgs pred root limit k = (refs, nxt)" by fastforce
  show ?case
  proof (cases nxt)
    case None
    then show ?thesis using pages [OF Suc.prems] p by (simp add: next_cursor_def with_references_def)
  next
    case (Some k')
    then have "k' \<in> row_key ` set (db_referrers db)" using page_keys p limit by blast
    then have "discover_pages get n (next_cursor cc (Some k')) =
      Inr (map f (filter q (fst (follow (reference_page db orgs pred root limit) n (Some k')))),
           snd (follow (reference_page db orgs pred root limit) n (Some k')))" by (intro Suc.IH) simp
    moreover have "next_cursor cc (Some k') \<noteq> []" by (cases k') (simp add: next_cursor_def EncodeCursor_nonempty)
    ultimately show ?thesis using pages [OF Suc.prems] p Some
      by (simp add: with_references_def split: prod.splits)
  qed
qed simp

section \<open>Properties\<close>

text \<open>
  C15. Discovery shows a caller nothing outside the organizations and projects it may see: the root and
  every reference are attached to a live workflow of an allowed organization and pass the project
  restriction, and the references are references of the root. Referrers no allowed organization is
  attached to have no influence on the answer, errors included. Referrers of an allowed organization in a project that is
  not granted are not shown; they may still make a digest ambiguous, or take a place on a page.
\<close>

theorem discovery_confined:
  "uc_GetFromRoot cc (hide_others orgs db) digest rootKind orgs projectIDs p extra =
     uc_GetFromRoot cc db digest rootKind orgs projectIDs p extra \<and>
   (uc_GetFromRoot cc db digest rootKind orgs (Some visible) p (service_filters name version) = Inr (s, nxt) \<longrightarrow>
     row_digest (sf_row s) = digest \<and> (rootKind \<noteq> [] \<longrightarrow> row_kind (sf_row s) = rootKind) \<and>
     list_all (may_see db orgs visible) (sf_row s # map sf_row (sf_references s)) \<and>
     set (map sf_row (sf_references s)) \<subseteq> set (references_of db (sf_row s)))"
proof (intro conjI impI)
  show "uc_GetFromRoot cc (hide_others orgs db) digest rootKind orgs projectIDs p extra =
     uc_GetFromRoot cc db digest rootKind orgs projectIDs p extra" by (rule hide_others_GetFromRoot)
next
  assume "uc_GetFromRoot cc db digest rootKind orgs (Some visible) p (service_filters name version) = Inr (s, nxt)"
  then obtain root where root: "root_candidates db digest orgs (root_opts (uc_filters rootKind (Some visible) (service_filters name version))) = [root]"
    and got: "doGet cc db orgs visible (scope_predicate db (root_opts (uc_filters rootKind (Some visible) (service_filters name version))) orgs) root p 0 = Inr (s, nxt)"
    by (auto simp: uc_GetFromRoot_Inr service_opts)
  have "row_digest root = digest \<and> (rootKind \<noteq> [] \<longrightarrow> row_kind root = rootKind) \<and> referrerVisibleToOrgs db orgs root"
    using arg_cong [OF root, of set] by (auto simp: root_candidates_def service_opts)
  then show "row_digest (sf_row s) = digest" "rootKind \<noteq> [] \<Longrightarrow> row_kind (sf_row s) = rootKind"
    "list_all (may_see db orgs visible) (sf_row s # map sf_row (sf_references s))"
    "set (map sf_row (sf_references s)) \<subseteq> set (references_of db (sf_row s))"
    using doGet_shows [OF got] by auto
qed

text \<open>
  C28. Following the cursors lists every reference the caller may see exactly once, newest first, and
  comes to an end: once the first page is served every other page is, also under a project scope, where
  a page may turn out empty.
\<close>

theorem discovery_pages_complete:
  assumes "index_ok db" and "\<forall>r\<in>set (db_referrers db). codec_good cc (row_created_at r) (row_id r)" and "0 < limit"
    and "get_page cc db digest rootKind orgs (Some visible) (service_filters name version) limit [] = Inr (s, nxt)"
  shows "discover_pages (get_page cc db digest rootKind orgs (Some visible) (service_filters name version) limit)
      (Suc (length (db_referrers db))) [] =
    Inr (map (hydrateWorkflowsInfo db) (filter (may_see db orgs visible)
      (order_desc row_key (filter (in_scope (service_scope db orgs visible name version)) (references_of db (sf_row s))))), True)"
proof -
  let ?get = "get_page cc db digest rootKind orgs (Some visible) (service_filters name version) limit"
    and ?opts = "root_opts (uc_filters rootKind (Some visible) (service_filters name version))"
    and ?scope = "service_scope db orgs visible name version"
  let ?rows = "reference_rows db orgs ?scope (sf_row s)"
  from assms have "discover_pages ?get n (next_cursor cc None) =
    Inr (map (hydrateWorkflowsInfo db) (filter (shown db orgs visible)
           (fst (follow (reference_page db orgs ?scope (sf_row s) (nat limit)) n None))),
         snd (follow (reference_page db orgs ?scope (sf_row s) (nat limit)) n None))" for n
    by (rule get_page_served)
      (rule discover_follows [of "nat limit" db _ cc _ _ _ "hydrateWorkflowsInfo db (sf_row s)"], use assms(3) in \<open>auto simp: service_opts service_scope_opts\<close>)
  moreover have "follow (reference_page db orgs ?scope (sf_row s) (nat limit)) (Suc (length (db_referrers db))) None = (order_desc row_key ?rows, True)"
  proof -
    have "length ?rows \<le> length (db_referrers db)"
      unfolding reference_rows_def references_of_def by (metis filter_filter length_filter_le)
    then show ?thesis
      using created_id.follow_pages [of row_key ?rows "nat limit" None 0 "Suc (length (db_referrers db))"] assms(1,3) row_key_distinct
      by (simp add: reference_page_def [abs_def] index_ok_def below_def del: follow.simps)
  qed
  moreover have "filter (shown db orgs visible) (order_desc row_key ?rows) =
      filter (may_see db orgs visible) (order_desc row_key (filter (in_scope ?scope) (references_of db (sf_row s))))"
  proof -
    let ?in = "filter (in_scope ?scope) (references_of db (sf_row s))"
    have "inj_on row_id (set (db_referrers db))" "distinct (db_referrers db)"
      using assms(1) by (auto simp: index_ok_def rows_ok_def distinct_map)
    then have "distinct (map row_key ?in)" by (auto simp: distinct_map references_of_def inj_on_def row_key_def)
    moreover have "may_see db orgs visible = (\<lambda>r. referrerVisibleToOrgs db orgs r \<and> shown db orgs visible r)"
      by (simp add: fun_eq_iff may_see_iff)
    ultimately show ?thesis using created_id.order_filter [of row_key ?in "referrerVisibleToOrgs db orgs"]
      by (simp add: reference_rows_def conj_commute)
  qed
  ultimately show ?thesis by (simp add: next_cursor_def del: follow.simps discover_pages.simps)
qed

end
