(* ===== verification/Control_Plane_Examples.thy ===== *)
theory Control_Plane_Examples
  imports Run_Queries CAS_Backends Member_Invariants Referrer_Discovery Bundle_Verifier
begin

text \<open>
  Concrete databases, on which the theorems of the control plane theories are applied.
\<close>

section \<open>Versions and runs\<close>

definition demo_id :: "nat \<Rightarrow> uuid" where "demo_id n = ''i'' @ replicate n (CHR ''x'')"

lemma inj_demo_id: "inj demo_id"
proof
  show "m = n" if "demo_id m = demo_id n" for m n
    using that arg_cong [of "demo_id m" "demo_id n" length] by (simp add: demo_id_def)
qed

definition demo_version :: "uuid \<Rightarrow> string \<Rightarrow> bool \<Rightarrow> bool \<Rightarrow> nat \<Rightarrow> version_row" where
  "demo_version i name pre latest n = \<lparr>vr_id = i, vr_version = name, vr_project = ''p'', vr_prerelease = pre, vr_latest = latest,
     vr_deleted = False, vr_run_count = n, vr_released_at = None, vr_last_run_at = None\<rparr>"

definition demo_run :: "uuid \<Rightarrow> uuid \<Rightarrow> int \<Rightarrow> workflow_run" where
  "demo_run i v t = \<lparr>run_id = i, run_workflow = ''w'', run_org = ''o'', run_version = v, run_contract_version = ''c'', run_url = [],
     run_runner_type = [], run_backends = [], run_rev_latest = 1, run_rev_used = 1, run_state = WorkflowRunInitialized, run_reason = [],
     run_created_at = t, run_finished_at = None, run_digest = [], run_crafting = None, run_has_violations = None, run_policy = None\<rparr>"

definition demo_backend :: "uuid \<Rightarrow> string \<Rightarrow> bool \<Rightarrow> bool \<Rightarrow> cas_backend" where
  "demo_backend i provider def fall = \<lparr>cb_id = i, cb_org = ''o'', cb_name = i, cb_location = [], cb_provider = provider,
     cb_description = [], cb_secret = ''s'', cb_status = CASBackendValidationOK, cb_error = [], cb_default = def,
     cb_fallback = fall, cb_managed = False, cb_deleted = False, cb_max_bytes = 0, cb_created_at = 0\<rparr>"

definition demo_db :: cp_db where
  "demo_db = \<lparr>db_orgs = [\<lparr>org_id = ''o'', org_deleted = False, org_block_released = True\<rparr>],
     db_projects = [\<lparr>pj_id = ''p'', pj_name = ''proj'', pj_org = ''o'', pj_deleted = False\<rparr>],
     db_versions = [demo_version ''i'' ''v1'' True True 2, demo_version ''ix'' ''v2'' True False 0],
     db_workflows = [\<lparr>wfr_id = ''w'', wfr_org = ''o'', wfr_project = ''p'', wfr_deleted = False, wfr_runs_count = 2, wfr_latest_run = Some ''ixxx''\<rparr>],
     db_runs = [demo_run ''ixx'' ''i'' 1, demo_run ''ixxx'' ''i'' 2], db_bundles = [],
     db_backends = [demo_backend ''ixxxx'' ''OCI'' True False, demo_backend ''ixxxxx'' CASBackendInline False False],
     db_mappings = [], db_contracts = [(''c'', None)], db_ids = demo_id, db_ids_drawn = 6, db_events = []\<rparr>"

lemma demo_ids: "{''i'', ''ix'', ''ixx'', ''ixxx'', ''ixxxx'', ''ixxxxx''} \<subseteq> demo_id ` {..<6}"
proof -
  have "{..<6} = {0, 1, 2, 3, 4, 5 :: nat}" by auto
  then show ?thesis by (simp add: demo_id_def numeral_eq_Suc)
qed

lemma demo_runs_ok: "runs_ok demo_db"
  using demo_ids
  by (simp add: runs_ok_def versions_ok_def ids_ok_def one_latest_def names_unique_def workflows_ok_def versions_counted_def run_placed_def
      bundles_ok_def runs_of_def last_id_def demo_db_def demo_version_def demo_run_def inj_demo_id)

lemma demo_backends_ok: "backends_ok demo_db"
  using demo_ids
  by (simp add: backends_ok_def ids_ok_def flag_unique_def demo_db_def demo_backend_def inj_demo_id)

theorem mark_as_latest_refines_witness:
  "fst (uc_MarkAsLatest Inr ''p'' ''ix'' demo_db) = Inr () \<and> latest_of (snd (uc_MarkAsLatest Inr ''p'' ''ix'' demo_db)) ''p'' = Some ''ix'' \<and>
   versions_ok (snd (uc_MarkAsLatest Inr ''p'' ''ix'' demo_db))"
proof -
  have "versions_ok demo_db" using demo_runs_ok by (simp add: runs_ok_def)
  moreover have "fst (uc_MarkAsLatest Inr ''p'' ''ix'' demo_db) = Inr ()" by code_simp
  ultimately show ?thesis using mark_as_latest_refines [of demo_db Inr "''p''" "''ix''" "Inr ()" "snd (uc_MarkAsLatest Inr ''p'' ''ix'' demo_db)"]
    by (auto simp: prod_eq_iff)
qed

theorem runs_consistent_witness:
  "runs_ok (snd (Expire ''ixxx'' (snd (MarkAsFinished 9 ''ixx'' WorkflowRunSuccess [] demo_db)))) \<and>
   later demo_db (snd (Expire ''ixxx'' (snd (MarkAsFinished 9 ''ixx'' WorkflowRunSuccess [] demo_db))))"
proof -
  let ?a = "snd (MarkAsFinished 9 ''ixx'' WorkflowRunSuccess [] demo_db)"
  have "cp_step demo_db ?a" by (rule cp_step.finish [of 9 "''ixx''" WorkflowRunSuccess "[]" _ "fst (MarkAsFinished 9 ''ixx'' WorkflowRunSuccess [] demo_db)"]) simp
  moreover have "cp_step ?a (snd (Expire ''ixxx'' ?a))" by (rule cp_step.expire [of "''ixxx''" _ "fst (Expire ''ixxx'' ?a)"]) simp
  ultimately have "cp_steps demo_db (snd (Expire ''ixxx'' ?a))" by simp
  then show ?thesis using runs_consistent [OF demo_runs_ok] by blast
qed

definition demo_opts :: create_opts where
  "demo_opts = \<lparr>wo_workflow = ''w'', wo_contract = Some \<lparr>ctr_version = ''c'', ctr_latest = 1, ctr_used = 1\<rparr>, wo_url = [], wo_runner = [],
     wo_backend = ''ixxxx'', wo_version = ''v3'', wo_use_latest = False, wo_require_existing = False, wo_mark = Some True, wo_block_released = True\<rparr>"

text \<open>A run on a new version, while another request finishes an older run.\<close>

theorem run_created_witness:
  "\<exists>r db'. uc_run_Create Inr (\<lambda>db. snd (MarkAsFinished 9 ''ixx'' WorkflowRunSuccess [] db)) 7 demo_opts demo_db = (Inr r, db') \<and>
     runs_ok db' \<and> length (db_runs db') = 3 \<and> run_state r = WorkflowRunInitialized \<and>
     db_runs db' = db_runs (snd (MarkAsFinished 9 ''ixx'' WorkflowRunSuccess [] demo_db)) @ [r]"
proof -
  let ?others = "\<lambda>db. snd (MarkAsFinished 9 ''ixx'' WorkflowRunSuccess [] db)"
  have st: "cp_steps demo_db (?others demo_db)"
    by (rule r_into_rtranclp, rule cp_step.finish [of 9 "''ixx''" WorkflowRunSuccess "[]" _ "fst (MarkAsFinished 9 ''ixx'' WorkflowRunSuccess [] demo_db)"]) simp
  have "isl (fst (uc_run_Create Inr ?others 7 demo_opts demo_db)) = False" by code_simp
  then obtain r where "fst (uc_run_Create Inr ?others 7 demo_opts demo_db) = Inr r"
    by (cases "fst (uc_run_Create Inr ?others 7 demo_opts demo_db)") simp_all
  then obtain db' where run: "uc_run_Create Inr ?others 7 demo_opts demo_db = (Inr r, db')" by (metis prod.collapse)
  have len: "length (db_runs (?others demo_db)) = 2" by code_simp
  from run_created [OF demo_runs_ok st run] have "runs_ok db'" "db_runs db' = db_runs (?others demo_db) @ [r]" "run_state r = WorkflowRunInitialized"
    by blast+
  with run len show ?thesis by simp
qed

definition demo_summary :: status_summary where
  "demo_summary = \<lparr>sum_status = PolicyStatusWarning, sum_total = 3, sum_passed = 1, sum_skipped = 1, sum_violated = 1, sum_has_gates = False, sum_suppressed = 0\<rparr>"

theorem policy_columns_roundtrip_witness:
  "\<exists>r db'. UpdatePolicyStatus ''ixx'' (Some demo_summary) demo_db = (Inr (), db') \<and> run_FindByID db' ''ixx'' = Some r \<and>
     run_has_violations r = Some True \<and> map_option rs_total (entWrPolicySummary r) = Some 3"
proof -
  have "fst (UpdatePolicyStatus ''ixx'' (Some demo_summary) demo_db) = Inr ()" by code_simp
  then obtain db' where up: "UpdatePolicyStatus ''ixx'' (Some demo_summary) demo_db = (Inr (), db')" by (metis prod.collapse)
  from policy_columns_roundtrip [OF demo_runs_ok up] show ?thesis using up by (auto simp: demo_summary_def)
qed

theorem runs_listed_once_witness:
  "follow (list_runs_page by_creation demo_db ''o'' no_run_filters 1) 3 None = ([demo_run ''ixxx'' ''i'' 2, demo_run ''ixx'' ''i'' 1], True)"
proof -
  have sel: "filter (run_selected demo_db ''o'' no_run_filters) (db_runs demo_db) = [demo_run ''ixx'' ''i'' 1, demo_run ''ixxx'' ''i'' 2]"
    by code_simp
  have ord: "by_creation [demo_run ''ixx'' ''i'' 1, demo_run ''ixxx'' ''i'' 2] = [demo_run ''ixxx'' ''i'' 2, demo_run ''ixx'' ''i'' 1]"
    by code_simp
  have "distinct (map run_created_at [demo_run ''ixx'' ''i'' 1, demo_run ''ixxx'' ''i'' 2])" by (simp add: demo_run_def)
  with runs_listed_once [OF by_creation_latest_first, of 1 demo_db "''o''" no_run_filters] show ?thesis
    unfolding sel by (simp add: ord numeral_3_eq_3)
qed

section \<open>Backends\<close>

definition demo_be :: backend_env where
  "demo_be = \<lparr>be_parse = Inr, be_dns1123 = (\<lambda>_. Inr ()), be_save = (\<lambda>_ _ _. Inr ''s''), be_read = Inr, be_marshal = Inr,
     be_providers = (\<lambda>p. if p = ''OCI'' then Some (\<lambda>_ _. Some ''unreachable'') else None), be_max_bytes_default = 1000\<rparr>"

theorem one_default_backend_witness:
  "backends_ok (snd (SoftDelete demo_be ''o'' ''ixxxx'' demo_db)) \<and>
   (\<exists>d f. repo_FindDefaultBackend (snd (SoftDelete demo_be ''o'' ''ixxxx'' demo_db)) ''o'' = Inr d \<and>
      repo_FindFallbackBackend (snd (SoftDelete demo_be ''o'' ''ixxxx'' demo_db)) ''o'' = Inr f \<and> (d = None \<or> d \<noteq> f))"
proof -
  have "(backend_step demo_be)\<^sup>*\<^sup>* demo_db (snd (SoftDelete demo_be ''o'' ''ixxxx'' demo_db))"
    by (rule r_into_rtranclp, rule backend_step.soft_delete [of _ "''o''" "''ixxxx''" _ "fst (SoftDelete demo_be ''o'' ''ixxxx'' demo_db)"]) simp
  from one_default_backend [OF demo_backends_ok this] show ?thesis by blast
qed

text \<open>
  Requests that overlap: while the default backend is being deleted, another request creates a backend as the default one. The
  promotion that follows the deletion leaves out the organization, so it does not clear that one, and there are two.
\<close>

definition race_db :: cp_db where
  "race_db = snd (promoteNextAvailableBackend demo_be ''o'' None
     (snd (create_backend demo_be 1 ''o'' ''other'' [] [] ''OCI'' [] True False None (snd (repo_SoftDelete ''ixxxx'' demo_db)))))"

lemma promotion_race: "map cb_name (filter (\<lambda>b. cb_org b = ''o'' \<and> cb_default b \<and> \<not> cb_deleted b) (db_backends race_db)) = [''ixxxxx'', ''other'']"
  by code_simp

theorem default_survives_delete_witness:
  "\<exists>b. repo_FindDefaultBackend (snd (SoftDelete demo_be ''o'' ''ixxxx'' demo_db)) ''o'' = Inr (Some b) \<and> \<not> cb_deleted b \<and> cb_org b = ''o''"
proof -
  have "fst (SoftDelete demo_be ''o'' ''ixxxx'' demo_db) = Inr ()" by code_simp
  then have del: "SoftDelete demo_be ''o'' ''ixxxx'' demo_db = (Inr (), snd (SoftDelete demo_be ''o'' ''ixxxx'' demo_db))" by (metis prod.collapse)
  have "repo_FindDefaultBackend demo_db ''o'' = Inr (Some (demo_backend ''ixxxx'' ''OCI'' True False))"
    and "repo_FindInlineBackend demo_db ''o'' = Inr (Some (demo_backend ''ixxxxx'' CASBackendInline False False))" by code_simp+
  moreover have "flag_unique cb_managed (db_backends demo_db)" "flag_unique cb_inline (db_backends demo_db)"
    by (simp_all add: flag_unique_def demo_db_def demo_backend_def cb_inline_def CASBackendInline_def)
  moreover have "be_parse demo_be ''o'' = Inr ''o''" by (simp add: demo_be_def)
  ultimately show ?thesis using default_survives_delete [OF demo_backends_ok] del by blast
qed

theorem validation_outcome_stored_witness:
  "\<exists>db'. PerformValidation demo_be ''ixxxx'' demo_db = (Inr (), db') \<and>
     (\<exists>b. backend_FindByID db' ''ixxxx'' = Inr (Some b) \<and> cb_status b = CASBackendValidationFailed)"
proof -
  let ?b = "demo_backend ''ixxxx'' ''OCI'' True False"
  have in_db: "?b \<in> set (db_backends demo_db)" by (simp add: demo_db_def)
  have env: "be_parse demo_be ''ixxxx'' = Inr (cb_id ?b)" "\<not> cb_deleted ?b" "\<not> cb_inline ?b"
      "be_providers demo_be (cb_provider ?b) = Some (\<lambda>_ _. Some ''unreachable'')"
    by (simp_all add: demo_be_def demo_backend_def cb_inline_def CASBackendInline_def)
  have "fst (check_credentials demo_be (\<lambda>_ _. Some ''unreachable'') ?b) = CASBackendValidationFailed" by code_simp
  then obtain msg where out: "check_credentials demo_be (\<lambda>_ _. Some ''unreachable'') ?b = (CASBackendValidationFailed, msg)" by (metis prod.collapse)
  obtain db' where "PerformValidation demo_be ''ixxxx'' demo_db = (Inr (), db')" and
      "backend_FindByID db' (cb_id ?b) = Inr (Some (?b\<lparr>cb_status := CASBackendValidationFailed, cb_error := (case msg of None \<Rightarrow> [] | Some m \<Rightarrow> m)\<rparr>))"
    using validation_outcome_stored [OF demo_backends_ok env(1) in_db env(2-4) out] by blast
  moreover have "cb_id ?b = ''ixxxx''" by (simp add: demo_backend_def)
  ultimately show ?thesis by auto
qed

section \<open>Authorization\<close>

text \<open>An enforcer that keeps its rules and role links in two lists.\<close>

fun reach :: "(string \<times> string) list \<Rightarrow> nat \<Rightarrow> string \<Rightarrow> string list" where
  "reach ls 0 s = [s]"
| "reach ls (Suc n) s = (let rs = reach ls n s in rs @ map snd (filter (\<lambda>l. fst l \<in> set rs) ls))"

lemma reach_set: "set (reach ls n s) = {r. \<exists>k\<le>n. (s, r) \<in> set ls ^^ k}"
proof (induction n)
  case (Suc n)
  have "set (reach ls (Suc n) s) = set (reach ls n s) \<union> {r. \<exists>q. q \<in> set (reach ls n s) \<and> (q, r) \<in> set ls}"
    by (force simp: Let_def)
  also have "\<dots> = {r. \<exists>k\<le>Suc n. (s, r) \<in> set ls ^^ k}"
    unfolding Suc.IH
  proof (intro equalityI subsetI)
    fix r assume "r \<in> {r. \<exists>k\<le>n. (s, r) \<in> set ls ^^ k} \<union> {r. \<exists>q. q \<in> {r. \<exists>k\<le>n. (s, r) \<in> set ls ^^ k} \<and> (q, r) \<in> set ls}"
    then consider k where "k \<le> n" "(s, r) \<in> set ls ^^ k" | k q where "k \<le> n" "(s, q) \<in> set ls ^^ k" "(q, r) \<in> set ls" by blast
    then show "r \<in> {r. \<exists>k\<le>Suc n. (s, r) \<in> set ls ^^ k}"
    proof cases
      case 2
      then have "(s, r) \<in> set ls ^^ Suc k" by auto
      then show ?thesis using 2(1) by blast
    qed (use le_SucI in blast)
  next
    fix r assume "r \<in> {r. \<exists>k\<le>Suc n. (s, r) \<in> set ls ^^ k}"
    then obtain k where k: "k \<le> Suc n" "(s, r) \<in> set ls ^^ k" by blast
    show "r \<in> {r. \<exists>k\<le>n. (s, r) \<in> set ls ^^ k} \<union> {r. \<exists>q. q \<in> {r. \<exists>k\<le>n. (s, r) \<in> set ls ^^ k} \<and> (q, r) \<in> set ls}"
    proof (cases k)
      case (Suc j)
      then obtain q where "(s, q) \<in> set ls ^^ j" "(q, r) \<in> set ls" using k(2) by auto
      then show ?thesis using k(1) Suc by auto
    qed (use k in auto)
  qed
  finally show ?case .
qed simp

definition list_casbin :: "(casbin_rule list \<times> (string \<times> string) list) casbin" where
  "list_casbin = \<lparr>casbin_NewEnforcer = ([], []),
     casbin_AddPolicy = (\<lambda>(ps, ls) p. Inr (if p \<in> set ps then (ps, ls) else (ps @ [p], ls))),
     casbin_RemovePolicy = (\<lambda>(ps, ls) p. Inr (removeAll p ps, ls)),
     casbin_GetPolicy = (\<lambda>(ps, ls). Inr ps),
     casbin_AddGroupingPolicy = (\<lambda>(ps, ls) l. Inr (ps, ls @ [l])),
     casbin_Enforce = (\<lambda>(ps, ls) sub obj act. Inr (list_ex (\<lambda>p. fst p \<in> set (reach ls 10 sub) \<and> snd p = (obj, act)) ps))\<rparr>"

lemma list_casbin_laws: "casbin_laws list_casbin (\<lambda>(ps, ls). set ps) (\<lambda>(ps, ls). set ls)"
proof -
  have "(\<exists>role. (\<exists>n\<le>10. (sub, role) \<in> set ls ^^ n) \<and> (role, obj, act) \<in> set ps) \<longleftrightarrow>
      list_ex (\<lambda>p. fst p \<in> set (reach ls 10 sub) \<and> snd p = (obj, act)) ps" for ps :: "casbin_rule list" and ls sub obj act
    unfolding list_ex_iff reach_set by force
  then show ?thesis by (auto simp: casbin_laws_def list_casbin_def)
qed

theorem access_decision_witness:
  "\<exists>e. NewCasbinEnforcer list_casbin RolesMap = Inr e \<and>
    WithAuthzMiddleware (Authz_Enforce Inr (\<lambda>_. Inr (Some [PolicyWorkflowCreate])) list_casbin e) RoleViewer
      (Some ''/controlplane.v1.WorkflowService/Create'') (\<lambda>_. Inr True) = Inl (Forbidden ''operation not allowed'') \<and>
    WithAuthzMiddleware (Authz_Enforce Inr (\<lambda>_. Inr (Some [PolicyWorkflowCreate])) list_casbin e) RoleOrgMember
      (Some ''/controlplane.v1.WorkflowService/Create'') (\<lambda>_. Inr True) = Inr True \<and>
    WithAuthzMiddleware (Authz_Enforce Inr (\<lambda>_. Inr (Some [PolicyWorkflowCreate])) list_casbin e) (SubjectAPIToken_String ''t'')
      (Some ''/controlplane.v1.WorkflowService/Create'') (\<lambda>_. Inr True) = Inr True"
proof -
  have op: "map_of ServerOperationsMap ''/controlplane.v1.WorkflowService/Create'' = Some [PolicyWorkflowCreate]" by code_simp
  have no: "\<not> role_allows RoleViewer PolicyWorkflowCreate" "\<not> IsAdmin RoleViewer" "\<not> prefix ''api-token:'' RoleViewer" "RoleViewer \<noteq> []"
    by code_simp+
  have yes: "role_allows RoleOrgMember PolicyWorkflowCreate" "\<not> prefix ''api-token:'' RoleOrgMember" "RoleOrgMember \<noteq> []" by code_simp+
  show ?thesis
    using access_decision [OF list_casbin_laws refl, of Inr "\<lambda>_. Inr (Some [PolicyWorkflowCreate])", where ?'r = bool] op no yes
    by (auto simp del: split_paired_Ex)
qed

section \<open>Memberships\<close>

lemma two_owners_ok: "members_ok two_owners"
proof -
  have "inj (\<lambda>n. replicate n (CHR ''x''))" by (rule injI) (metis length_replicate)
  moreover have "replicate n (CHR ''x'') \<notin> {''1'', ''2''}" if "n \<ge> 1" for n using that by (cases n) auto
  ultimately have "members_base two_owners"
    by (auto simp: members_base_def two_owners_def owner_of_def org_membership_def org_by_id_def user_by_id_def)
  moreover have "one_current two_owners u" for u
    by (auto simp: one_current_def two_owners_def owner_of_def)
  ultimately show ?thesis by (simp add: members_ok_def)
qed

definition by_role :: "string \<Rightarrow> authz_policy \<Rightarrow> bool res" where
  "by_role r p = Inr (role_allows r p)"

lemma by_role_decides: "decides_by_role by_role"
  by (simp add: decides_by_role_def by_role_def)

theorem owners_kept_witness:
  "members_ok (snd (Leave Inr (\<lambda>rows. rows) (\<lambda>db. db) ''ann'' ''1'' two_owners)) \<and>
   owners (snd (Leave Inr (\<lambda>rows. rows) (\<lambda>db. db) ''ann'' ''1'' two_owners)) ''o'' \<noteq> {}"
proof -
  have "member_step Inr by_role (\<lambda>rows. rows) two_owners (snd (Leave Inr (\<lambda>rows. rows) (\<lambda>db. db) ''ann'' ''1'' two_owners))"
    by (rule member_step.leave [of Inr _ "''ann''" "''1''" _ "fst (Leave Inr (\<lambda>rows. rows) (\<lambda>db. db) ''ann'' ''1'' two_owners)"]) simp
  then have "(member_step Inr by_role (\<lambda>rows. rows))\<^sup>*\<^sup>* two_owners (snd (Leave Inr (\<lambda>rows. rows) (\<lambda>db. db) ''ann'' ''1'' two_owners))"
    by (rule r_into_rtranclp)
  moreover have "''ann'' \<in> owners two_owners ''o''" unfolding owners_def
    by (rule image_eqI [of _ _ "owner_of ''1'' ''ann''"]) (simp_all add: two_owners_def owner_of_def org_membership_def)
  ultimately show ?thesis using owners_kept [OF _ two_owners_ok by_role_decides, where org = "''o''"] by blast
qed

theorem owners_guarded_witness:
  "owners (snd (DeleteOther Inr by_role ''o'' ''carl'' ''1'' RoleAdmin two_owners)) = owners two_owners"
proof -
  have "is_caller Inr two_owners ''o'' ''carl'' RoleAdmin" "RoleAdmin \<noteq> RoleOwner" by (simp_all add: is_caller_def authz_names)
  then show ?thesis using owners_guarded [OF two_owners_ok by_role_decides, of Inr "''o''" "''carl''" RoleAdmin "''1''" "[]" undefined
      "snd (DeleteOther Inr by_role ''o'' ''carl'' ''1'' RoleAdmin two_owners)" "fst (DeleteOther Inr by_role ''o'' ''carl'' ''1'' RoleAdmin two_owners)"]
    by simp
qed

theorem offboarding_complete_witness:
  "\<exists>m db'. DeleteOther Inr by_role ''o'' ''ann'' ''2'' RoleOwner two_owners = (Inr (), db') \<and> m \<in> set (md_memberships two_owners) \<and>
     mb_id m = ''2'' \<and> mb_resource m \<notin> set (fst (GetOrgsAndRBACInfoForUser db' (mb_member m)))"
proof -
  have "fst (DeleteOther Inr by_role ''o'' ''ann'' ''2'' RoleOwner two_owners) = Inr ()" by code_simp
  then obtain db' where del: "DeleteOther Inr by_role ''o'' ''ann'' ''2'' RoleOwner two_owners = (Inr (), db')" by (metis prod.collapse)
  have nil: "uuid_Nil \<notin> mo_id ` set (md_orgs two_owners)" by (simp add: two_owners_def uuid_Nil_def)
  have own: "inherits_own two_owners" by (simp add: inherits_own_def two_owners_def owner_of_def)
  from offboarding_complete [OF two_owners_ok nil own disjI1 [OF del]] del show ?thesis by auto
qed

section \<open>Referrers\<close>

text \<open>An attestation with one artifact, in a database that knows the workflow only.\<close>

definition demo_predicate :: extracted_predicate where
  "demo_predicate = \<lparr>xp_predicate = \<lparr>pp_materials = [\<lparr>rd_name = ''app.bin'', rd_digest = [(''sha256'', ''aa'')], rd_content = [],
        rd_annotations = [(AnnotationMaterialType, VString ''ARTIFACT''), (AnnotationMaterialName, VString ''app'')]\<rparr>],
      pp_evaluations = [], pp_evaluations_ref = None, pp_evaluations_fallback = [], pp_has_violations = False, pp_evaluations_count = 0,
      pp_violations_count = 0, pp_skipped_count = 0, pp_passed_count = 0, pp_suppressed_count = 0, pp_has_gated = False, pp_has_gates = False,
      pp_strategy = Enforced, pp_bypass = False, pp_blocked = False\<rparr>,
     xp_annotations = [], xp_metadata = \<lparr>mtd_name = ''build'', mtd_team = [], mtd_project = ''proj'', mtd_project_version = ''v1'',
       mtd_prerelease = True, mtd_organization = ''acme'', mtd_contract_name = [], mtd_contract_version = []\<rparr>,
     xp_evaluations_ref = NoEvaluationsRef\<rparr>"

definition demo_envelope :: dsse_envelope where
  "demo_envelope = \<lparr>dse_payload_type = ''application/vnd.in-toto+json'', dse_payload = ''cGF5bG9hZA=='', dse_signatures = []\<rparr>"

definition demo_codec_cp :: cursor_codec where
  "demo_codec_cp = \<lparr>cc_format_time = (\<lambda>t. if t = 0 then ''0'' else ''1''), cc_parse_time = (\<lambda>s. Inr (if s = ''0'' then 0 else 1)), cc_parse_uuid = Inr\<rparr>"

definition demo_re :: referrer_env where
  "demo_re = \<lparr>rfe_extract_predicate = (\<lambda>_. Inr demo_predicate), rfe_extract_subjects = (\<lambda>_. Inr []), rfe_js = (\<lambda>_. []),
     rfe_type_name = (\<lambda>k. if k = STRING then ''STRING'' else ''ARTIFACT''), rfe_parse_uuid = Inr, rfe_codec = demo_codec_cp\<rparr>"

definition demo_refs :: ref_db where
  "demo_refs = cp_db.extend demo_db \<lparr>db_referrers = [], db_ref_workflows = [], db_references = [],
     db_fresh = (\<lambda>n. (demo_id n, if n = 0 then 0 else 1)), db_drawn = 0\<rparr>"

lemma demo_refs_ok: "index_ok demo_refs"
  using inj_demo_id by (simp add: index_ok_def rows_ok_def demo_refs_def cp_db.extend_def)

lemma demo_persisted: "fst (ExtractAndPersist demo_re demo_envelope ''sha256:bb'' ''w'' demo_refs) = Inr ()"
  by code_simp

theorem referrer_index_sound_witness:
  "index_ok (snd (ExtractAndPersist demo_re demo_envelope ''sha256:bb'' ''w'' demo_refs)) \<and>
   Referrer_Index.extends demo_refs (snd (ExtractAndPersist demo_re demo_envelope ''sha256:bb'' ''w'' demo_refs))"
  using referrer_index_sound [OF demo_refs_ok, of demo_re demo_envelope "''sha256:bb''" "''w''"
      "fst (ExtractAndPersist demo_re demo_envelope ''sha256:bb'' ''w'' demo_refs)" "snd (ExtractAndPersist demo_re demo_envelope ''sha256:bb'' ''w'' demo_refs)"]
  by simp

definition demo_index :: ref_db where
  "demo_index = snd (ExtractAndPersist demo_re demo_envelope ''sha256:bb'' ''w'' demo_refs)"

lemma referrer_index_ok_demo: "index_ok demo_index"
  using ExtractAndPersist_index_ok [OF demo_refs_ok prod.collapse [symmetric]] by (simp add: demo_index_def)

theorem attested_materials_linked_witness:
  "\<exists>a i. stored_as demo_index ''sha256:bb'' ReferrerAttestationType a \<and> stored_as demo_index ''sha256:aa'' ''ARTIFACT'' i \<and>
     (i, ''w'') \<in> set (db_ref_workflows demo_index)"
proof -
  have run: "ExtractAndPersist demo_re demo_envelope ''sha256:bb'' ''w'' demo_refs = (Inr (), demo_index)"
    using demo_persisted by (metis demo_index_def prod.collapse)
  let ?ms = "GetMaterials demo_re (xp_predicate demo_predicate)"
  have ms: "list_all (\<lambda>x. plain_kind (nmt_type x)) ?ms" "length ?ms = 1" "nmt_hash (hd ?ms) = Some ''aa''" "nmt_type (hd ?ms) = ''ARTIFACT''"
    unfolding plain_kind_def by code_simp+
  then have "hd ?ms \<in> set ?ms" by (cases ?ms) auto
  moreover have "rfe_extract_predicate demo_re demo_envelope = Inr demo_predicate" "rfe_parse_uuid demo_re ''w'' = Inr ''w''"
    by (simp_all add: demo_re_def)
  ultimately show ?thesis using attested_materials_linked [OF demo_refs_ok run _ _ ms(1) _ ms(3)] ms(4) by fastforce
qed

definition demo_root :: "uuid list \<Rightarrow> (stored_referrer \<times> string) res" where
  "demo_root orgs = uc_GetFromRoot demo_codec_cp demo_index ''sha256:aa'' [] orgs (Some []) None (service_filters [] [])"

theorem discovery_confined_witness:
  "isl (demo_root [''other'']) \<and>
   (\<exists>s nxt. demo_root [''o''] = Inr (s, nxt) \<and> row_digest (sf_row s) = ''sha256:aa'' \<and>
      list_all (may_see demo_index [''o''] []) (sf_row s # map sf_row (sf_references s)))"
proof -
  have "isl (demo_root [''other''])" and "\<not> isl (demo_root [''o''])" by code_simp+
  then obtain s nxt where "demo_root [''o''] = Inr (s, nxt)" by (metis isl_def prod.exhaust sum.exhaust_sel)
  moreover from this have "row_digest (sf_row s) = ''sha256:aa'' \<and> list_all (may_see demo_index [''o''] []) (sf_row s # map sf_row (sf_references s))"
    using discovery_confined [where cc = demo_codec_cp and db = demo_index and digest = "''sha256:aa''" and rootKind = "[]" and orgs = "[''o'']"
        and visible = "[]" and name = "[]" and version = "[]" and p = None and s = s and nxt = nxt]
    unfolding demo_root_def by blast
  ultimately show ?thesis using \<open>isl (demo_root [''other''])\<close> by blast
qed

theorem discovery_pages_complete_witness:
  "\<exists>rs. discover_pages (get_page demo_codec_cp demo_index ''sha256:bb'' [] [''o''] (Some []) (service_filters [] []) 1)
     (Suc (length (db_referrers demo_index))) [] = Inr (rs, True)"
proof -
  have ok: "index_ok demo_index" using referrer_index_ok_demo .
  have "list_all (\<lambda>r. codec_good demo_codec_cp (row_created_at r) (row_id r)) (db_referrers demo_index)"
    unfolding codec_good_def by code_simp
  then have good: "\<forall>r\<in>set (db_referrers demo_index). codec_good demo_codec_cp (row_created_at r) (row_id r)" by (simp add: list_all_iff)
  have "\<not> isl (get_page demo_codec_cp demo_index ''sha256:bb'' [] [''o''] (Some []) (service_filters [] []) 1 [])" by code_simp
  then obtain s nxt where "get_page demo_codec_cp demo_index ''sha256:bb'' [] [''o''] (Some []) (service_filters [] []) 1 [] = Inr (s, nxt)"
    by (metis isl_def prod.exhaust sum.exhaust_sel)
  from discovery_pages_complete [OF ok good _ this] show ?thesis by auto
qed

end
