(* ===== verification/CAS_Mappings.thy ===== *)
theory CAS_Mappings
  imports CAS_Backends Member_Invariants Referrers
begin

text \<open>
  Where the artifacts of an organization are stored (\<open>app/controlplane/pkg/biz/casmapping.go\<close> and
  \<open>app/controlplane/pkg/data/casmapping.go\<close>): a mapping says which backend holds an artifact, and which
  project or product it belongs to. A download is served from a mapping the caller may see.

  The parser of digests is the parameter \<open>new_hash\<close>. Where two mappings are equally good, the order in
  which the database finds the rows, \<open>scan\<close>, decides.
\<close>

section \<open>Repository\<close>

record mapping_opts =
  mpo_run :: "uuid option"
  mpo_project :: "uuid option"
  mpo_product :: "uuid option"

text \<open>A mapping with the backend it points to.\<close>

record biz_mapping =
  bmp_row :: cas_mapping
  bmp_backend :: cas_backend

definition entCASMappingToBiz :: "'a cp_db_scheme \<Rightarrow> cas_mapping \<Rightarrow> biz_mapping res" where
  "entCASMappingToBiz db m =
     (case find (\<lambda>b. cb_id b = cm_backend m) (db_backends db) of
        None \<Rightarrow> Inl (Errorf ''failed to get cas backend: %w'' [])
      | Some b \<Rightarrow> Inr \<lparr>bmp_row = m, bmp_backend = b\<rparr>)"

definition mapping_findByID :: "'a cp_db_scheme \<Rightarrow> uuid \<Rightarrow> biz_mapping option res" where
  "mapping_findByID db mid =
     bind_res (only (\<lambda>m. cm_id m = mid) (db_mappings db)) (\<lambda>m.
     case m of None \<Rightarrow> Inr None | Some m \<Rightarrow> bind_res (entCASMappingToBiz db m) (\<lambda>b. Inr (Some b)))"

text \<open>What the repository checks: the run exists, and the project is one of the backend's organization.\<close>

definition check_mapping_scope :: "mapping_opts option \<Rightarrow> cas_backend \<Rightarrow> 'a cp_db_scheme \<Rightarrow> unit res" where
  "check_mapping_scope opts b db =
     bind_res (case Option.bind opts mpo_run of
         None \<Rightarrow> Inr ()
       | Some rid \<Rightarrow> if list_ex (\<lambda>r. run_id r = rid) (db_runs db) then Inr () else Inl (NewErrNotFound ''workflow run'')) (\<lambda>_.
     case Option.bind opts mpo_project of
       None \<Rightarrow> Inr ()
     | Some pid \<Rightarrow>
         if list_ex (\<lambda>p. pj_id p = pid \<and> pj_org p = cb_org b \<and> \<not> pj_deleted p) (db_projects db) then Inr ()
         else Inl (NewErrNotFound (''project '' @ pid @ '' in organization '' @ cb_org b)))"

definition mapping_Create ::
  "int \<Rightarrow> string \<Rightarrow> uuid \<Rightarrow> mapping_opts option \<Rightarrow> 'a cp_db_scheme \<Rightarrow> biz_mapping option res \<times> 'a cp_db_scheme" where
  "mapping_Create now digest backendID opts db =
     (case backend_FindByID db backendID of
        Inl x \<Rightarrow> (Inl (Wrapf ''failed to find cas backend: %w'' [] x), db)
      | Inr None \<Rightarrow> (Inl (Errorf ''cas backend not found'' []), db)
      | Inr (Some b) \<Rightarrow>
          (case check_mapping_scope opts b db of
             Inl x \<Rightarrow> (Inl x, db)
           | Inr _ \<Rightarrow>
               let (mid, db) = draw_id db;
                   m = \<lparr>cm_id = mid, cm_digest = digest, cm_backend = backendID, cm_org = cb_org b,
                        cm_run = Option.bind opts mpo_run, cm_project = Option.bind opts mpo_project,
                        cm_product = Option.bind opts mpo_product, cm_created_at = now\<rparr>;
                   db = db\<lparr>db_mappings := db_mappings db @ [m]\<rparr>
               in (mapping_findByID db mid, db)))"

definition backend_serves :: "'a cp_db_scheme \<Rightarrow> cas_mapping \<Rightarrow> bool" where
  "backend_serves db m = list_ex (\<lambda>b. cb_id b = cm_backend m \<and> \<not> cb_deleted b) (db_backends db)"

definition queryServiceable :: "(cas_mapping \<Rightarrow> bool) \<Rightarrow> 'a cp_db_scheme \<Rightarrow> cas_mapping list" where
  "queryServiceable P db = filter (\<lambda>m. P m \<and> backend_serves db m) (db_mappings db)"

text \<open>The default backend first, then the oldest mapping.\<close>

definition in_default_backend :: "'a cp_db_scheme \<Rightarrow> cas_mapping \<Rightarrow> bool" where
  "in_default_backend db m = list_ex (\<lambda>b. cb_id b = cm_backend m \<and> cb_default b) (db_backends db)"

definition findOnePreferringDefault ::
  "(cas_mapping list \<Rightarrow> cas_mapping list) \<Rightarrow> (cas_mapping \<Rightarrow> bool) \<Rightarrow> 'a cp_db_scheme \<Rightarrow> cas_mapping option" where
  "findOnePreferringDefault scan P db =
     (case sort_key (\<lambda>m. (\<not> in_default_backend db m, cm_created_at m)) (scan (queryServiceable P db)) of
        [] \<Rightarrow> None | m # _ \<Rightarrow> Some m)"

text \<open>Within an organization with a scope, the mapping has to be in one of its projects or products.\<close>

definition in_org_scope :: "rbac_scope gomap \<Rightarrow> cas_mapping \<Rightarrow> uuid \<Rightarrow> bool" where
  "in_org_scope scopes m org =
     (cm_org m = org \<and>
      (case map_of scopes org of
         None \<Rightarrow> True
       | Some s \<Rightarrow> cm_project m \<in> Some ` set (rs_projects s) \<or> cm_product m \<in> Some ` set (rs_products s)))"

definition FindByDigestInOrgs ::
  "(cas_mapping list \<Rightarrow> cas_mapping list) \<Rightarrow> 'a cp_db_scheme \<Rightarrow> string \<Rightarrow> uuid list \<Rightarrow> rbac_scope gomap \<Rightarrow> biz_mapping option res" where
  "FindByDigestInOrgs scan db digest orgs scopes =
     (if orgs = [] then Inr None
      else case findOnePreferringDefault scan (\<lambda>m. cm_digest m = digest \<and> list_ex (in_org_scope scopes m) orgs) db of
        None \<Rightarrow> Inr None
      | Some m \<Rightarrow> bind_res (entCASMappingToBiz db m) (\<lambda>b. Inr (Some b)))"

definition repo_ListByDigestInOrg ::
  "(cas_mapping list \<Rightarrow> cas_mapping list) \<Rightarrow> 'a cp_db_scheme \<Rightarrow> string \<Rightarrow> uuid \<Rightarrow> biz_mapping list res" where
  "repo_ListByDigestInOrg scan db digest orgID =
     map_res (entCASMappingToBiz db)
       (sort_key cm_created_at (scan (queryServiceable (\<lambda>m. cm_digest m = digest \<and> cm_org m = orgID) db)))"

section \<open>Use case\<close>

definition validateDigest :: "(string \<Rightarrow> unit res) \<Rightarrow> string \<Rightarrow> unit res" where
  "validateDigest new_hash digest = map_err (\<lambda>x. NewErrValidation (Wrapf ''invalid digest format: %w'' [] x)) (new_hash digest)"

definition uc_mapping_Create ::
  "uuid_parser \<Rightarrow> (string \<Rightarrow> unit res) \<Rightarrow> int \<Rightarrow> string \<Rightarrow> string \<Rightarrow> mapping_opts option \<Rightarrow> 'a cp_db_scheme \<Rightarrow>
     biz_mapping option res \<times> 'a cp_db_scheme" where
  "uc_mapping_Create parse new_hash now digest backendID opts db =
     (case parse backendID of
        Inl x \<Rightarrow> (Inl (NewErrInvalidUUID x), db)
      | Inr bid \<Rightarrow>
          (case validateDigest new_hash digest of
             Inl x \<Rightarrow> (Inl x, db)
           | Inr _ \<Rightarrow>
               if Option.bind opts mpo_project \<noteq> None \<and> Option.bind opts mpo_product \<noteq> None then
                 (Inl (NewErrValidationStr ''a mapping cannot be scoped to a project and a product at once''), db)
               else mapping_Create now digest bid opts db))"

definition FindCASMappingForDownloadByOrg ::
  "(string \<Rightarrow> unit res) \<Rightarrow> (cas_mapping list \<Rightarrow> cas_mapping list) \<Rightarrow> 'a cp_db_scheme \<Rightarrow> string \<Rightarrow> uuid list \<Rightarrow> rbac_scope gomap \<Rightarrow>
     biz_mapping res" where
  "FindCASMappingForDownloadByOrg new_hash scan db digest orgs scopes =
     bind_res (validateDigest new_hash digest) (\<lambda>_.
     if orgs = [] then Inl (NewErrValidationStr ''no organizations provided'')
     else bind_res (map_err (Wrapf ''failed to find cas mapping in orgs: %w'' []) (FindByDigestInOrgs scan db digest orgs scopes)) (\<lambda>m.
     case m of None \<Rightarrow> Inl (NewErrNotFound ''digest not found in any mapping'') | Some m \<Rightarrow> Inr m))"

definition FindCASMappingForDownloadByUser ::
  "uuid_parser \<Rightarrow> (string \<Rightarrow> unit res) \<Rightarrow> (cas_mapping list \<Rightarrow> cas_mapping list) \<Rightarrow> members_db \<Rightarrow> 'a cp_db_scheme \<Rightarrow> string \<Rightarrow> string \<Rightarrow>
     biz_mapping res" where
  "FindCASMappingForDownloadByUser parse new_hash scan mdb db digest userID =
     bind_res (map_err NewErrInvalidUUID (parse userID)) (\<lambda>uid.
     let (userOrgs, scopes) = GetOrgsAndRBACInfoForUser mdb uid in
     map_err (Wrapf ''failed to find cas mapping for download: %w'' [])
       (FindCASMappingForDownloadByOrg new_hash scan db digest userOrgs scopes))"

definition uc_ListByDigestInOrg ::
  "(string \<Rightarrow> unit res) \<Rightarrow> (cas_mapping list \<Rightarrow> cas_mapping list) \<Rightarrow> 'a cp_db_scheme \<Rightarrow> string \<Rightarrow> uuid \<Rightarrow> biz_mapping list res" where
  "uc_ListByDigestInOrg new_hash scan db digest orgID =
     bind_res (validateDigest new_hash digest) (\<lambda>_.
     if orgID = uuid_Nil then Inl (NewErrValidationStr ''organization ID cannot be empty'')
     else map_err (Wrapf ''failed to list cas mappings in org: %w'' []) (repo_ListByDigestInOrg scan db digest orgID))"

text \<open>
  The artifacts of an attestation that are stored: the attestation itself, the uploaded materials and
  the bundle of policy evaluations. Reading the digest of a material that has none is a panic.
\<close>

fun uploaded_refs :: "normalized_material list \<Rightarrow> (string \<times> string) list res" where
  "uploaded_refs [] = Inr []"
| "uploaded_refs (m # ms) =
     bind_res (if nmt_uploaded m
               then case nmt_hash m of
                      None \<Rightarrow> Inl (go_panic ''nil pointer dereference'')
                    | Some h \<Rightarrow> Inr [(nmt_name m, ''sha256:'' @ h)]
               else Inr []) (\<lambda>r.
     bind_res (uploaded_refs ms) (\<lambda>rs. Inr (r @ rs)))"

definition evaluations_refs :: "evaluations_ref \<Rightarrow> (string \<times> string) list res" where
  "evaluations_refs r = (case r of
       NoEvaluationsRef \<Rightarrow> Inr []
     | EmptyEvaluationsRef \<Rightarrow> Inl (go_panic ''nil pointer dereference'')
     | EvaluationsRef name digests \<Rightarrow>
         (case map_of digests ''sha256'' of None \<Rightarrow> Inr [] | Some d \<Rightarrow> Inr [(name, ''sha256:'' @ d)]))"

definition LookupDigestsInAttestation :: "referrer_env \<Rightarrow> dsse_envelope \<Rightarrow> string \<Rightarrow> (string \<times> string) list res" where
  "LookupDigestsInAttestation re att digest =
     bind_res (map_err (Wrapf ''extracting predicate: %w'' []) (rfe_extract_predicate re att)) (\<lambda>xp.
     bind_res (uploaded_refs (GetMaterials re (xp_predicate xp))) (\<lambda>rs.
     bind_res (evaluations_refs (xp_evaluations_ref xp)) (\<lambda>es.
     Inr ([(''attestation'', digest)] @ rs @ es))))"

section \<open>Lemmas\<close>

text \<open>What the memberships of a user, direct ones and ones of groups, let the user download.\<close>

definition member_of_org :: "biz_membership list \<Rightarrow> uuid \<Rightarrow> biz_membership \<Rightarrow> bool" where
  "member_of_org ms org x \<longleftrightarrow> x \<in> set ms \<and> mb_resource_type (bm_row x) = ResourceTypeOrganization \<and> mb_resource (bm_row x) = org"

definition may_download :: "members_db \<Rightarrow> uuid \<Rightarrow> cas_mapping \<Rightarrow> bool" where
  "may_download mdb uid m \<longleftrightarrow>
     (let ms = ListAllMembershipsForUser mdb uid in
      (\<exists>x. member_of_org ms (cm_org m) x) \<and>
      ((\<exists>x. member_of_org ms (cm_org m) x \<and> RBACEnabled (mb_role (bm_row x))) \<longrightarrow>
       (\<exists>y\<in>set ms. bm_OrganizationID y = cm_org m \<and>
          (mb_resource_type (bm_row y) = ResourceTypeProject \<and> cm_project m = Some (mb_resource (bm_row y)) \<or>
           mb_resource_type (bm_row y) = ResourceTypeProduct \<and> cm_product m = Some (mb_resource (bm_row y))))))"

lemma fold_org_scopes:
  "map_of (snd (fold (add_org_scope ms) xs acc)) org =
     (if \<exists>x. member_of_org xs org x \<and> RBACEnabled (mb_role (bm_row x))
      then Some \<lparr>rs_projects = resourcesWithMembershipInOrg org ms ResourceTypeProject,
                 rs_products = resourcesWithMembershipInOrg org ms ResourceTypeProduct\<rparr>
      else map_of (snd acc) org)"
proof (induction xs arbitrary: acc)
  case Nil
  show ?case by (simp add: member_of_org_def)
next
  case (Cons a xs)
  have "map_of (snd (add_org_scope ms a acc)) org =
      (if mb_resource_type (bm_row a) = ResourceTypeOrganization \<and> mb_resource (bm_row a) = org \<and> RBACEnabled (mb_role (bm_row a))
       then Some \<lparr>rs_projects = resourcesWithMembershipInOrg org ms ResourceTypeProject,
                  rs_products = resourcesWithMembershipInOrg org ms ResourceTypeProduct\<rparr>
       else map_of (snd acc) org)"
    by (auto simp: add_org_scope_def Let_def update_conv)
  then show ?case by (auto simp: Cons.IH member_of_org_def)
qed

lemma resources_in_org:
  "r \<in> set (resourcesWithMembershipInOrg org ms rt) \<longleftrightarrow>
     (\<exists>y\<in>set ms. mb_resource_type (bm_row y) = rt \<and> bm_OrganizationID y = org \<and> mb_resource (bm_row y) = r)"
  by (auto simp: resourcesWithMembershipInOrg_def)

lemma user_scope:
  assumes "GetOrgsAndRBACInfoForUser mdb uid = (orgs, scopes)"
  shows "list_ex (in_org_scope scopes m) orgs \<longleftrightarrow> may_download mdb uid m"
proof -
  let ?ms = "ListAllMembershipsForUser mdb uid"
  have "set orgs = {mb_resource (bm_row x) | x. x \<in> set ?ms \<and> mb_resource_type (bm_row x) = ResourceTypeOrganization}"
    using user_orgs [of mdb uid] assms by simp
  then have orgs: "cm_org m \<in> set orgs \<longleftrightarrow> (\<exists>x. member_of_org ?ms (cm_org m) x)" by (auto simp: member_of_org_def)
  have "scopes = snd (fold (add_org_scope ?ms) ?ms ([], []))" using assms by (simp add: GetOrgsAndRBACInfoForUser_def Let_def)
  then have scopes: "map_of scopes (cm_org m) =
      (if \<exists>x. member_of_org ?ms (cm_org m) x \<and> RBACEnabled (mb_role (bm_row x))
       then Some \<lparr>rs_projects = resourcesWithMembershipInOrg (cm_org m) ?ms ResourceTypeProject,
                  rs_products = resourcesWithMembershipInOrg (cm_org m) ?ms ResourceTypeProduct\<rparr> else None)"
    by (simp add: fold_org_scopes)
  have "list_ex (in_org_scope scopes m) orgs \<longleftrightarrow> cm_org m \<in> set orgs \<and> in_org_scope scopes m (cm_org m)"
    by (auto simp: list_ex_iff in_org_scope_def)
  also have "\<dots> \<longleftrightarrow> may_download mdb uid m"
    unfolding orgs in_org_scope_def scopes may_download_def Let_def by (auto simp: image_iff resources_in_org)
  finally show ?thesis .
qed

lemma findOnePreferringDefault_None:
  assumes "\<And>ms. mset (scan ms) = mset ms"
  shows "findOnePreferringDefault scan P db = None \<longleftrightarrow> (\<forall>m\<in>set (db_mappings db). P m \<longrightarrow> \<not> backend_serves db m)"
proof -
  have first: "(case xs of [] \<Rightarrow> None | m # _ \<Rightarrow> Some m) = None \<longleftrightarrow> set xs = {}" for xs :: "cas_mapping list"
    by (cases xs) simp_all
  have "findOnePreferringDefault scan P db = None \<longleftrightarrow> set (scan (queryServiceable P db)) = {}"
    by (simp only: findOnePreferringDefault_def first set_sort)
  also have "set (scan (queryServiceable P db)) = set (queryServiceable P db)" using assms by (metis set_mset_mset)
  finally show ?thesis by (auto simp: queryServiceable_def)
qed

lemma findOnePreferringDefault_Some:
  assumes "\<And>ms. mset (scan ms) = mset ms" and "findOnePreferringDefault scan P db = Some m"
  shows "m \<in> set (db_mappings db) \<and> P m \<and> backend_serves db m \<and>
    (\<forall>m'\<in>set (db_mappings db). P m' \<longrightarrow> backend_serves db m' \<longrightarrow>
       (in_default_backend db m' \<longrightarrow> in_default_backend db m) \<and>
       (in_default_backend db m' = in_default_backend db m \<longrightarrow> cm_created_at m \<le> cm_created_at m'))"
proof -
  let ?k = "\<lambda>m. (\<not> in_default_backend db m, cm_created_at m)"
  let ?q = "queryServiceable P db"
  obtain ms where ms: "sort_key ?k (scan ?q) = m # ms"
    using assms(2) by (auto simp: findOnePreferringDefault_def split: list.splits)
  have rows: "set (m # ms) = set ?q" using assms(1) [of ?q] by (metis ms set_sort set_mset_mset)
  have "sorted (map ?k (m # ms))" using ms sorted_sort_key by metis
  then have "?k m \<le> ?k m'" if "m' \<in> set ?q" for m' using that rows by auto
  then have "(in_default_backend db m' \<longrightarrow> in_default_backend db m) \<and>
      (in_default_backend db m' = in_default_backend db m \<longrightarrow> cm_created_at m \<le> cm_created_at m')" if "m' \<in> set ?q" for m'
    using that by (fastforce simp: less_eq_prod_def)
  moreover have "m \<in> set ?q" using rows by auto
  ultimately show ?thesis unfolding queryServiceable_def set_filter by blast
qed

section \<open>Properties\<close>

text \<open>
  C19. A download is served exactly from what the user may see. The mapping found is one of the digest, in an
  organization the user belongs to and, when the user's role is restricted to resources, in a project or
  product the user has been given; its backend is not deleted, and it is the default one whenever a mapping
  there could serve as well. An error means that no mapping the user may see can be served.
\<close>

theorem download_confined:
  assumes "\<And>ms. mset (scan ms) = mset ms" and "distinct (map cb_id (db_backends db))"
    and "parse userID = Inr uid" and "new_hash digest = Inr ()"
  shows "case FindCASMappingForDownloadByUser parse new_hash scan mdb db digest userID of
      Inr b \<Rightarrow> bmp_row b \<in> set (db_mappings db) \<and> cm_digest (bmp_row b) = digest \<and> may_download mdb uid (bmp_row b) \<and>
        bmp_backend b \<in> set (db_backends db) \<and> cb_id (bmp_backend b) = cm_backend (bmp_row b) \<and> \<not> cb_deleted (bmp_backend b) \<and>
        (\<forall>m\<in>set (db_mappings db). cm_digest m = digest \<longrightarrow> may_download mdb uid m \<longrightarrow> backend_serves db m \<longrightarrow>
           in_default_backend db m \<longrightarrow> cb_default (bmp_backend b))
    | Inl x \<Rightarrow> \<forall>m\<in>set (db_mappings db). cm_digest m = digest \<longrightarrow> may_download mdb uid m \<longrightarrow> \<not> backend_serves db m"
proof -
  obtain orgs scopes where info: "GetOrgsAndRBACInfoForUser mdb uid = (orgs, scopes)" by fastforce
  let ?P = "\<lambda>m. cm_digest m = digest \<and> list_ex (in_org_scope scopes m) orgs"
  note scope = user_scope [OF info]
  have result: "FindCASMappingForDownloadByUser parse new_hash scan mdb db digest userID =
      map_err (Wrapf ''failed to find cas mapping for download: %w'' [])
        (FindCASMappingForDownloadByOrg new_hash scan db digest orgs scopes)"
    using assms(3) info by (simp add: FindCASMappingForDownloadByUser_def)
  show ?thesis
  proof (cases "findOnePreferringDefault scan ?P db")
    case None
    then have no: "\<not> backend_serves db m" if "m \<in> set (db_mappings db)" "cm_digest m = digest" "may_download mdb uid m" for m
      using that None [unfolded findOnePreferringDefault_None [OF assms(1)]] by (simp add: scope)
    have "\<exists>x. FindCASMappingForDownloadByOrg new_hash scan db digest orgs scopes = Inl x"
      using None assms(4) by (simp add: FindCASMappingForDownloadByOrg_def validateDigest_def FindByDigestInOrgs_def)
    then show ?thesis unfolding result using no by auto
  next
    case (Some m)
    note best = findOnePreferringDefault_Some [OF assms(1) Some]
    then obtain b where b: "b \<in> set (db_backends db)" "cb_id b = cm_backend m" "\<not> cb_deleted b"
      by (auto simp: backend_serves_def list_ex_iff)
    have same: "x = b" if "x \<in> set (db_backends db)" "cb_id x = cm_backend m" for x
      using assms(2) b(1,2) that by (auto simp: distinct_map inj_on_def)
    have "find (\<lambda>b. cb_id b = cm_backend m) (db_backends db) = Some b" using find_by_id [OF assms(2) b(1)] b(2) by simp
    then have "entCASMappingToBiz db m = Inr \<lparr>bmp_row = m, bmp_backend = b\<rparr>" by (simp add: entCASMappingToBiz_def)
    moreover have "orgs \<noteq> []" using best by auto
    ultimately have found: "FindCASMappingForDownloadByOrg new_hash scan db digest orgs scopes = Inr \<lparr>bmp_row = m, bmp_backend = b\<rparr>"
      using Some assms(4) by (simp add: FindCASMappingForDownloadByOrg_def validateDigest_def FindByDigestInOrgs_def)
    have "cb_default b" if "in_default_backend db m" using that same by (auto simp: in_default_backend_def list_ex_iff)
    then show ?thesis unfolding result found using best b by (simp add: scope)
  qed
qed

text \<open>
  C20. Off-boarding closes the artifact store: once a user has been removed from an organization, or has left
  it, no download by that user is served from a mapping of the organization, whatever the digest.
\<close>

theorem offboarded_no_download:
  assumes "members_ok mdb" and "uuid_Nil \<notin> mo_id ` set (md_orgs mdb)"
    and "DeleteOther parse enforce orgID callerID membershipID callerRole mdb = (Inr (), mdb') \<or>
         Leave parse newest_first (\<lambda>db. db) callerID membershipID mdb = (Inr (), mdb')"
    and "\<And>ms. mset (scan ms) = mset ms"
  shows "\<exists>m\<in>set (md_memberships mdb). parse membershipID = Inr (mb_id m) \<and>
    (\<forall>userID digest b. parse userID = Inr (mb_member m) \<longrightarrow>
       FindCASMappingForDownloadByUser parse new_hash scan mdb' db digest userID = Inr b \<longrightarrow> cm_org (bmp_row b) \<noteq> mb_resource m)"
proof -
  obtain m where m: "m \<in> set (md_memberships mdb)" "parse membershipID = Inr (mb_id m)"
      and out: "mb_resource m \<notin> set (fst (GetOrgsAndRBACInfoForUser mdb' (mb_member m)))"
    using offboarded [OF assms(1-3)] by blast
  have "cm_org (bmp_row b) \<noteq> mb_resource m"
    if user: "parse userID = Inr (mb_member m)"
      and found: "FindCASMappingForDownloadByUser parse new_hash scan mdb' db digest userID = Inr b" for userID digest b
  proof -
    obtain orgs scopes where info: "GetOrgsAndRBACInfoForUser mdb' (mb_member m) = (orgs, scopes)" by fastforce
    then obtain r where "findOnePreferringDefault scan (\<lambda>m. cm_digest m = digest \<and> list_ex (in_org_scope scopes m) orgs) db = Some r"
        "entCASMappingToBiz db r = Inr b"
      using found user by (auto simp: FindCASMappingForDownloadByUser_def FindCASMappingForDownloadByOrg_def FindByDigestInOrgs_def
          bind_res_eq_Inr split: option.splits if_splits)
    then have "list_ex (in_org_scope scopes r) orgs" "bmp_row b = r"
      using findOnePreferringDefault_Some [OF assms(4)] by (auto simp: entCASMappingToBiz_def split: option.splits)
    then have "cm_org (bmp_row b) \<in> set orgs" by (auto simp: list_ex_iff in_org_scope_def)
    then show ?thesis using out info by auto
  qed
  then show ?thesis using m by blast
qed

end
