(* ===== verification/Attestation_Storage.thy ===== *)
theory Attestation_Storage
  imports CAS_Mappings Run_Invariants Bundle_Verifier
begin

text \<open>
  Storing an attestation and reading it back (\<open>app/controlplane/pkg/biz/workflowrun.go\<close>), with the roots
  of trust of the instance (\<open>app/controlplane/pkg/biz/signing.go\<close>): the signature of the bundle is checked
  against the organization of the run, the attested materials against the contract of the run; then the
  digest, the bundle and the policy status are stored. A bundle is read from a cache, from the database
  or from the artifact store.

  SHA-256, the PEM codec, the key identifiers of certificates, the decoders and the client of the artifact
  store are the fields of \<open>storage_env\<close>. The reason of a failed verification is the error whose text it is.
  A cache whose operations fail behaves like one that has lost its entries.
\<close>

section \<open>Roots of trust\<close>

text \<open>The root chain of each certificate authority, the chains of the timestamp authorities.\<close>

record signing_uc =
  sgu_cas :: "certificate list res list option"
  sgu_tsas :: "certificate list list"
  sgu_force :: bool

record 'key storage_env =
  sv_parse :: uuid_parser
  sv_new_hash :: "string \<Rightarrow> unit res"
  sv_sha256 :: "string \<Rightarrow> string"
  sv_verifier :: "'key verifier_env"
  sv_key_id :: "certificate \<Rightarrow> string"
  sv_to_pem :: "certificate \<Rightarrow> string res"
  sv_from_pem :: "string \<Rightarrow> certificate list res"
  sv_referrers :: referrer_env
  sv_download :: "(string \<Rightarrow> string \<Rightarrow> uuid \<Rightarrow> string \<Rightarrow> string res) option"  \<comment> \<open>provider, secret, organization, digest\<close>
  sv_scan :: "cas_mapping list \<Rightarrow> cas_mapping list"

record trusted_root_pem =
  tp_keys :: "string list gomap"
  tp_tsas :: "string list gomap"

definition KeylessEnabled :: "signing_uc \<Rightarrow> bool" where
  "KeylessEnabled su = (sgu_cas su \<noteq> None)"

definition gm_append :: "string \<Rightarrow> 'v \<Rightarrow> 'v list gomap \<Rightarrow> 'v list gomap" where
  "gm_append k v m = AList.update k ((case map_of m k of None \<Rightarrow> [] | Some vs \<Rightarrow> vs) @ [v]) m"

fun add_pems :: "'key storage_env \<Rightarrow> string \<Rightarrow> certificate list \<Rightarrow> string list gomap \<Rightarrow> string list gomap res" where
  "add_pems sv k [] m = Inr m"
| "add_pems sv k (c # cs) m =
     bind_res (map_err (Wrapf ''marshaling certificate to PEM: %w'' []) (sv_to_pem sv c)) (\<lambda>pem. add_pems sv k cs (gm_append k pem m))"

definition add_chain :: "'key storage_env \<Rightarrow> certificate list \<Rightarrow> string list gomap \<Rightarrow> string list gomap res" where
  "add_chain sv chain m = (if chain = [] then Inr m else add_pems sv (sv_key_id sv (hd chain)) chain m)"

fun ca_chains :: "'key storage_env \<Rightarrow> certificate list res list \<Rightarrow> string list gomap \<Rightarrow> string list gomap res" where
  "ca_chains sv [] m = Inr m"
| "ca_chains sv (auth # rest) m =
     bind_res (map_err (Wrapf ''getting root chain: %w'' []) auth) (\<lambda>chain.
     bind_res (add_chain sv chain m) (ca_chains sv rest))"

fun tsa_chains :: "'key storage_env \<Rightarrow> certificate list list \<Rightarrow> string list gomap \<Rightarrow> string list gomap res" where
  "tsa_chains sv [] m = Inr m"
| "tsa_chains sv (chain # rest) m = bind_res (add_chain sv chain m) (tsa_chains sv rest)"

definition GetTrustedRoot :: "'key storage_env \<Rightarrow> signing_uc \<Rightarrow> trusted_root_pem res" where
  "GetTrustedRoot sv su =
     (case sgu_cas su of
        None \<Rightarrow> Inl (NewErrNotImplemented ''CAs not initialized'')
      | Some cas \<Rightarrow>
          bind_res (ca_chains sv cas []) (\<lambda>keys.
          bind_res (tsa_chains sv (sgu_tsas su) []) (\<lambda>tsas.
          Inr \<lparr>tp_keys = keys, tp_tsas = tsas\<rparr>)))"

definition first_certificate :: "'key storage_env \<Rightarrow> string \<Rightarrow> certificate res" where
  "first_certificate sv pem =
     bind_res (map_err (Wrapf ''loading certificate from PEM: %w'' []) (sv_from_pem sv pem)) (\<lambda>cs.
     case cs of [] \<Rightarrow> Inl (go_panic ''index out of range'') | c # _ \<Rightarrow> Inr c)"

fun load_certs :: "'key storage_env \<Rightarrow> string list gomap \<Rightarrow> certificate list gomap res" where
  "load_certs sv [] = Inr []"
| "load_certs sv ((k, pems) # rest) =
     bind_res (map_res (first_certificate sv) pems) (\<lambda>cs. bind_res (load_certs sv rest) (\<lambda>m. Inr (if cs = [] then m else (k, cs) # m)))"

definition trustedRootBizToVerifier :: "'key storage_env \<Rightarrow> trusted_root_pem \<Rightarrow> trusted_root res" where
  "trustedRootBizToVerifier sv tp =
     bind_res (load_certs sv (tp_keys tp)) (\<lambda>keys.
     bind_res (load_certs sv (tp_tsas tp)) (\<lambda>tsas.
     Inr \<lparr>tr_keys = keys, tr_tsas = tsas\<rparr>))"

section \<open>Verification of a bundle\<close>

record verification_result =
  vfr_result :: bool
  vfr_reason :: "err option"
  vfr_config_fault :: bool

definition failed_verification :: "err \<Rightarrow> verification_result" where
  "failed_verification x = \<lparr>vfr_result = False, vfr_reason = Some x, vfr_config_fault = False\<rparr>"

definition verifyBundle :: "'key storage_env \<Rightarrow> signing_uc \<Rightarrow> string \<Rightarrow> string \<Rightarrow> verification_result option res" where
  "verifyBundle sv su bytes org =
     (case GetTrustedRoot sv su of
        Inl x \<Rightarrow> if IsErrNotImplemented x then Inr None else Inl (Wrapf ''getting trusted root: %w'' [] x)
      | Inr tp \<Rightarrow>
          bind_res (map_err (Wrapf ''parsing roots: %w'' []) (trustedRootBizToVerifier sv tp)) (\<lambda>roots.
          case VerifyBundle (sv_verifier sv) bytes roots org of
            Inl x \<Rightarrow>
              if errors_is x ErrMissingVerificationMaterial then Inr None
              else if errors_is x ErrInvalidBundle then Inl x
              else Inr (Some \<lparr>vfr_result = False, vfr_reason = Some x, vfr_config_fault = IsTrustConfigError x\<rparr>)
          | Inr _ \<Rightarrow> Inr (Some \<lparr>vfr_result = True, vfr_reason = None, vfr_config_fault = False\<rparr>)))"

definition verifyRunBundle :: "'key storage_env \<Rightarrow> signing_uc \<Rightarrow> string \<Rightarrow> string \<Rightarrow> verification_result option res" where
  "verifyRunBundle sv su bytes org =
     (let vr = verifyBundle sv su bytes org in
      if \<not> sgu_force su then vr
      else case vr of
        Inl x \<Rightarrow>
          if errors_is x ErrInvalidBundle
          then Inr (Some (failed_verification (Wrapf ''the attestation is not a valid bundle: %s'' [] x))) else vr
      | Inr None \<Rightarrow> Inr (Some (failed_verification
          (Errorf ''the attestation has no verification material, it must be signed with the keyless signer of this instance'' [])))
      | Inr (Some _) \<Rightarrow> vr)"

definition verifyAttestationToStore ::
  "'key storage_env \<Rightarrow> signing_uc \<Rightarrow> 'a cp_db_scheme \<Rightarrow> workflow_run \<Rightarrow> string \<Rightarrow> unit res" where
  "verifyAttestationToStore sv su db run bytes =
     (if \<not> KeylessEnabled su then Inr ()
      else case workflow_of db run of
        None \<Rightarrow> Inl (NewErrValidation (Errorf ''attestation verification failed: workflow run %s has no organization'' [run_id run]))
      | Some w \<Rightarrow>
          if wfr_org w = uuid_Nil
          then Inl (NewErrValidation (Errorf ''attestation verification failed: workflow run %s has no organization'' [run_id run]))
          else case verifyRunBundle sv su bytes (wfr_org w) of
            Inl x \<Rightarrow> if errors_is x ErrInvalidBundle then Inr () else Inl x
          | Inr None \<Rightarrow> Inr ()
          | Inr (Some v) \<Rightarrow>
              if vfr_result v then Inr ()
              else if vfr_config_fault v then Inr ()
              else Inl (NewErrValidation (Wrapf ''attestation verification failed: %s'' []
                          (case vfr_reason v of None \<Rightarrow> Errorf [] [] | Some x \<Rightarrow> x))))"

section \<open>Storing\<close>

definition orgBlocksReleasedVersions :: "'a cp_db_scheme \<Rightarrow> workflow_run \<Rightarrow> bool res" where
  "orgBlocksReleasedVersions db run =
     (case workflow_of db run of
        None \<Rightarrow> Inr False
      | Some w \<Rightarrow>
          bind_res (map_err (Wrapf ''finding organization: %w'' []) (only (\<lambda>x. org_id x = wfr_org w \<and> \<not> org_deleted x) (db_orgs db))) (\<lambda>x.
          case x of None \<Rightarrow> Inl (NewErrNotFound ''organization'') | Some x \<Rightarrow> Inr (org_block_released x)))"

definition validateAgainstContract :: "'key storage_env \<Rightarrow> 'a cp_db_scheme \<Rightarrow> workflow_run \<Rightarrow> extracted_predicate \<Rightarrow> unit res" where
  "validateAgainstContract sv db run xp =
     (if run_contract_version run = uuid_Nil
      then Inl (NewErrValidation (Errorf ''workflow run has no contract revision associated'' []))
      else case map_of (db_contracts db) (run_contract_version run) of
        None \<Rightarrow> Inl (NewErrNotFound ''contract version'')
      | Some None \<Rightarrow> Inl (NewErrValidation (Errorf ''contract revision %d could not be read'' []))
      | Some (Some schema) \<Rightarrow>
          map_err (\<lambda>x. NewErrValidation (Wrapf ''attestation does not satisfy contract revision %d: %w'' [] x))
            (ValidateMaterialsPresence (ss_materials schema) (nmt_name ` set (GetMaterials (sv_referrers sv) (xp_predicate xp)))))"

definition find_run :: "'key storage_env \<Rightarrow> 'a cp_db_scheme \<Rightarrow> string \<Rightarrow> workflow_run res" where
  "find_run sv db runID =
     bind_res (map_err NewErrInvalidUUID (sv_parse sv runID)) (\<lambda>rid.
     case run_FindByID db rid of None \<Rightarrow> Inl (NewErrNotFound ''workflow run'') | Some run \<Rightarrow> Inr run)"

definition decode_bundle :: "'key storage_env \<Rightarrow> string \<Rightarrow> (dsse_envelope \<times> extracted_predicate) res" where
  "decode_bundle sv bytes =
     bind_res (map_err (Wrapf ''extracting DSSE envelope: %w'' []) (DSSEEnvelopeFromBundleBytes (ve_unmarshal (sv_verifier sv)) bytes)) (\<lambda>e.
     bind_res (map_err (Wrapf ''extracting predicate: %w'' []) (rfe_extract_predicate (sv_referrers sv) e)) (\<lambda>xp. Inr (e, xp)))"

definition ValidateAttestationContract ::
  "'key storage_env \<Rightarrow> signing_uc \<Rightarrow> 'a cp_db_scheme \<Rightarrow> string \<Rightarrow> string \<Rightarrow> unit res" where
  "ValidateAttestationContract sv su db runID bytes =
     bind_res (find_run sv db runID) (\<lambda>run.
     bind_res (verifyAttestationToStore sv su db run bytes) (\<lambda>_.
     bind_res (decode_bundle sv bytes) (\<lambda>(e, xp).
     validateAgainstContract sv db run xp)))"

text \<open>Attestations among the materials have to be known.\<close>

fun check_dependents :: "'a cp_db_scheme \<Rightarrow> normalized_material list \<Rightarrow> unit res" where
  "check_dependents db [] = Inr ()"
| "check_dependents db (m # ms) =
     bind_res (if nmt_type m = ReferrerAttestationType
               then case nmt_hash m of
                      None \<Rightarrow> Inl (go_panic ''nil pointer dereference'')
                    | Some h \<Rightarrow>
                        bind_res (map_err (Wrapf ''finding attestation: %w'' []) (FindByAttestationDigest db (''sha256:'' @ h))) (\<lambda>r.
                        case r of
                          None \<Rightarrow> Inl (NewErrValidation (Errorf ''dependent attestation not found: %s'' [''sha256:'' @ h]))
                        | Some _ \<Rightarrow> Inr ())
               else Inr ()) (\<lambda>_. check_dependents db ms)"

text \<open>Everything that is checked before the attestation is stored.\<close>

definition check_attestation ::
  "'key storage_env \<Rightarrow> signing_uc \<Rightarrow> 'a cp_db_scheme \<Rightarrow> string \<Rightarrow> string \<Rightarrow> (workflow_run \<times> bool \<times> extracted_predicate) res" where
  "check_attestation sv su db runID bytes =
     bind_res (find_run sv db runID) (\<lambda>run.
     bind_res (orgBlocksReleasedVersions db run) (\<lambda>block.
     bind_res (decode_bundle sv bytes) (\<lambda>(e, xp).
     bind_res (verifyAttestationToStore sv su db run bytes) (\<lambda>_.
     bind_res (check_dependents db (GetMaterials (sv_referrers sv) (xp_predicate xp))) (\<lambda>_.
     bind_res (validateAgainstContract sv db run xp) (\<lambda>_.
     Inr (run, block, xp)))))))"

text \<open>
  \<open>others\<close> is what other requests do between the checks and the transaction that stores. No other request on
  the same run is taken to run between that transaction and the one that stores the policy status.
\<close>

definition SaveAttestation ::
  "'key storage_env \<Rightarrow> signing_uc \<Rightarrow> ('a cp_db_scheme \<Rightarrow> 'a cp_db_scheme) \<Rightarrow> bool \<Rightarrow> string \<Rightarrow> string \<Rightarrow> 'a cp_db_scheme \<Rightarrow>
     string res \<times> 'a cp_db_scheme" where
  "SaveAttestation sv su others skipBundle runID bytes db =
     (case check_attestation sv su db runID bytes of
        Inl x \<Rightarrow> (Inl x, db)
      | Inr (run, block, xp) \<Rightarrow>
          let digest = sv_sha256 sv bytes in
          (case (if skipBundle then SaveAttestationDigest (run_id run) digest block (others db)
                 else SaveAttestationBundle (run_id run) digest bytes block (others db)) of
             (Inl x, db') \<Rightarrow>
               (Inl (Wrapf (if skipBundle then ''saving attestation digest: %w'' else ''saving attestation bundle: %w'') [] x), db')
           | (Inr _, db') \<Rightarrow>
               (case UpdatePolicyStatus (run_id run)
                       (Some (DerivePolicyStatusSummary (Some (GetPolicyEvaluationStatus (xp_predicate xp))))) db' of
                  (Inl x, db'') \<Rightarrow> (Inl (Wrapf ''updating policy status: %w'' [] x), db'')
                | (Inr _, db'') \<Rightarrow> (Inr digest, db''))))"

section \<open>Reading back\<close>

text \<open>A run with the attestation that could be loaded; no bundle is the empty string.\<close>

record attested_run =
  atr_run :: workflow_run
  atr_bundle :: string
  atr_envelope :: "dsse_envelope option"

definition applyBundle :: "'key storage_env \<Rightarrow> workflow_run \<Rightarrow> string \<Rightarrow> attested_run res" where
  "applyBundle sv run bytes =
     bind_res (map_err (Wrapf ''unmarshalling bundle: %w'' []) (ve_unmarshal (sv_verifier sv) bytes)) (\<lambda>b.
     bind_res (DSSEEnvelopeFromBundle b) (\<lambda>e. Inr \<lparr>atr_run = run, atr_bundle = bytes, atr_envelope = Some e\<rparr>))"

definition cacheBundle :: "string \<Rightarrow> string \<Rightarrow> string gomap option \<Rightarrow> string gomap option" where
  "cacheBundle digest bytes cache = map_option (AList.update digest bytes) cache"

definition downloadBundleFromCAS :: "'key storage_env \<Rightarrow> 'a cp_db_scheme \<Rightarrow> string \<Rightarrow> uuid \<Rightarrow> string res" where
  "downloadBundleFromCAS sv db digest orgID =
     (case sv_download sv of
        None \<Rightarrow> Inr []
      | Some download \<Rightarrow>
          bind_res (map_err (Wrapf ''finding CAS mapping: %w'' [])
            (FindCASMappingForDownloadByOrg (sv_new_hash sv) (sv_scan sv) db digest [orgID] [])) (\<lambda>m.
          map_err (Wrapf ''downloading attestation bundle: %w'' [])
            (download (cb_provider (bmp_backend m)) (cb_secret (bmp_backend m)) (cb_org (bmp_backend m)) digest)))"

definition addAttestationFromBundle ::
  "'key storage_env \<Rightarrow> 'a cp_db_scheme \<Rightarrow> workflow_run \<Rightarrow> string gomap option \<Rightarrow> attested_run res \<times> string gomap option" where
  "addAttestationFromBundle sv db run cache =
     (let digest = run_digest run; unloaded = \<lparr>atr_run = run, atr_bundle = [], atr_envelope = None\<rparr> in
      if run_state run \<noteq> WorkflowRunSuccess \<or> digest = [] then (Inr unloaded, cache)
      else case Option.bind cache (\<lambda>c. map_of c digest) of
        Some cached \<Rightarrow> (applyBundle sv run cached, cache)
      | None \<Rightarrow>
          (case (case GetBundle db (run_id run) of Inl x \<Rightarrow> if IsNotFound x then Inr [] else Inl x | Inr bytes \<Rightarrow> Inr bytes) of
             Inl x \<Rightarrow> (Inl (Wrapf ''retrieving bundle from repo: %w'' [] x), cache)
           | Inr stored \<Rightarrow>
               if stored \<noteq> [] then (applyBundle sv run stored, cacheBundle digest stored cache)
               else (case workflow_of db run of
                   None \<Rightarrow> (Inl (go_panic ''nil pointer dereference''), cache)
                 | Some w \<Rightarrow>
                     (case downloadBundleFromCAS sv db digest (wfr_org w) of
                        Inl _ \<Rightarrow> (Inr unloaded, cache)
                      | Inr bytes \<Rightarrow>
                          if bytes \<noteq> [] then (applyBundle sv run bytes, cacheBundle digest bytes cache) else (Inr unloaded, cache)))))"

definition GetByIDInOrg ::
  "'key storage_env \<Rightarrow> 'a cp_db_scheme \<Rightarrow> string \<Rightarrow> string \<Rightarrow> string gomap option \<Rightarrow> attested_run res \<times> string gomap option" where
  "GetByIDInOrg sv db orgID runID cache =
     (case bind_res (map_err NewErrInvalidUUID (sv_parse sv orgID)) (\<lambda>oid.
           bind_res (map_err NewErrInvalidUUID (sv_parse sv runID)) (\<lambda>rid.
           map_err (Wrapf ''finding workflow run: %w'' []) (FindByIDInOrg db oid rid))) of
        Inl x \<Rightarrow> (Inl x, cache)
      | Inr run \<Rightarrow>
          (case addAttestationFromBundle sv db run cache of
             (r, cache') \<Rightarrow> (map_err (Wrapf ''retrieving attestation from bundle: %w'' []) r, cache')))"

definition GetByDigestInOrg ::
  "'key storage_env \<Rightarrow> 'a cp_db_scheme \<Rightarrow> string \<Rightarrow> string \<Rightarrow> string gomap option \<Rightarrow> attested_run res \<times> string gomap option" where
  "GetByDigestInOrg sv db orgID digest cache =
     (case bind_res (map_err NewErrInvalidUUID (sv_parse sv orgID)) (\<lambda>oid.
           bind_res (map_err (\<lambda>x. NewErrValidation (Wrapf ''invalid digest format: %w'' [] x)) (sv_new_hash sv digest)) (\<lambda>_.
           bind_res (map_err (Wrapf ''finding workflow run: %w'' []) (FindByAttestationDigest db digest)) (\<lambda>run.
           case run of
             None \<Rightarrow> Inl (NewErrNotFound ''workflow run'')
           | Some run \<Rightarrow>
               (case workflow_of db run of
                  None \<Rightarrow> Inl (go_panic ''nil pointer dereference'')
                | Some w \<Rightarrow> if wfr_org w \<noteq> oid then Inl (NewErrNotFound ''workflow run'') else Inr run)))) of
        Inl x \<Rightarrow> (Inl x, cache)
      | Inr run \<Rightarrow>
          (case addAttestationFromBundle sv db run cache of
             (r, cache') \<Rightarrow> (map_err (Wrapf ''retrieving attestation from bundle: %w'' []) r, cache')))"

definition VerifyRun :: "'key storage_env \<Rightarrow> signing_uc \<Rightarrow> attested_run \<Rightarrow> verification_result option res" where
  "VerifyRun sv su ar =
     (if \<not> KeylessEnabled su then Inr None
      else if atr_bundle ar = [] then
        if run_digest (atr_run ar) = [] \<or> \<not> sgu_force su then Inr None
        else Inr (Some (failed_verification (Errorf ''the attestation bundle could not be retrieved'' [])))
      else verifyRunBundle sv su (atr_bundle ar) [])"

section \<open>Lemmas\<close>

definition verifier_roots :: "'key storage_env \<Rightarrow> signing_uc \<Rightarrow> trusted_root res" where
  "verifier_roots sv su = bind_res (GetTrustedRoot sv su) (trustedRootBizToVerifier sv)"

text \<open>A bundle that carries nothing to verify, or that is no bundle.\<close>

definition unverifiable :: "'key storage_env \<Rightarrow> trusted_root \<Rightarrow> string \<Rightarrow> string \<Rightarrow> bool" where
  "unverifiable sv tr bytes org \<longleftrightarrow> (\<exists>x. VerifyBundle (sv_verifier sv) bytes tr org = Inl x \<and>
     (errors_is x ErrMissingVerificationMaterial \<or> errors_is x ErrInvalidBundle))"

lemma verifyBundle_Inr:
  assumes "verifyBundle sv su bytes org = Inr (Some v)"
  shows "\<exists>tr. verifier_roots sv su = Inr tr \<and>
    (vfr_result v \<and> VerifyBundle (sv_verifier sv) bytes tr org = Inr () \<or>
     \<not> vfr_result v \<and> (\<exists>x. VerifyBundle (sv_verifier sv) bytes tr org = Inl x \<and> vfr_config_fault v = IsTrustConfigError x))"
proof -
  obtain tp where tp: "GetTrustedRoot sv su = Inr tp"
    using assms by (cases "GetTrustedRoot sv su") (auto simp: verifyBundle_def split: if_splits)
  then obtain tr where tr: "trustedRootBizToVerifier sv tp = Inr tr"
    using assms by (auto simp: verifyBundle_def bind_res_eq_Inr)
  show ?thesis using assms tp tr
    by (cases "VerifyBundle (sv_verifier sv) bytes tr org") (auto simp: verifyBundle_def verifier_roots_def split: if_splits)
qed

lemma verifyBundle_other:
  assumes "verifyBundle sv su bytes org = r" and "\<And>v. r \<noteq> Inr (Some v)" and "verifier_roots sv su = Inr tr"
  shows "unverifiable sv tr bytes org"
proof -
  obtain tp where tp: "GetTrustedRoot sv su = Inr tp" "trustedRootBizToVerifier sv tp = Inr tr"
    using assms(3) by (auto simp: verifier_roots_def bind_res_eq_Inr)
  then show ?thesis using assms(1,2)
    by (cases "VerifyBundle (sv_verifier sv) bytes tr org") (auto simp: verifyBundle_def unverifiable_def split: if_splits)
qed

lemma verified_to_store:
  assumes errs: "foreign_errors (sv_verifier sv)" and ok: "verifyAttestationToStore sv su db run bytes = Inr ()"
    and keyless: "KeylessEnabled su"
  shows "\<exists>w. workflow_of db run = Some w \<and> wfr_org w \<noteq> uuid_Nil \<and>
    (sgu_force su \<longrightarrow> (\<exists>tr. verifier_roots sv su = Inr tr \<and> signed_by_org (sv_verifier sv) tr bytes (wfr_org w))) \<and>
    (\<forall>tr. verifier_roots sv su = Inr tr \<longrightarrow>
       signed_by_org (sv_verifier sv) tr bytes (wfr_org w) \<or> unverifiable sv tr bytes (wfr_org w))"
proof -
  obtain w where w: "workflow_of db run = Some w" "wfr_org w \<noteq> uuid_Nil"
    using ok keyless by (auto simp: verifyAttestationToStore_def split: option.splits if_splits)
  let ?vb = "verifyBundle sv su bytes (wfr_org w)" and ?vr = "verifyRunBundle sv su bytes (wfr_org w)"
  show ?thesis
  proof (cases "\<exists>v. ?vb = Inr (Some v)")
    case True
    then obtain v where v: "?vb = Inr (Some v)" by blast
    then have "?vr = Inr (Some v)" by (simp add: verifyRunBundle_def Let_def)
    then have "vfr_result v \<or> vfr_config_fault v" using ok keyless w by (auto simp: verifyAttestationToStore_def split: if_splits)
    then obtain tr where tr: "verifier_roots sv su = Inr tr"
        "VerifyBundle (sv_verifier sv) bytes tr (wfr_org w) = Inr () \<or>
         (\<exists>x. VerifyBundle (sv_verifier sv) bytes tr (wfr_org w) = Inl x \<and> IsTrustConfigError x)"
      using verifyBundle_Inr [OF v] by auto
    have "signed_by_org (sv_verifier sv) tr bytes (wfr_org w)" by (rule VerifyBundle_signed [OF errs tr(2)])
    then show ?thesis using w tr(1) by auto
  next
    case False
    then have "unverifiable sv tr bytes (wfr_org w)" if "verifier_roots sv su = Inr tr" for tr
      using verifyBundle_other [OF refl _ that] by blast
    moreover have "\<not> sgu_force su"
    proof
      assume f: "sgu_force su"
      show False
      proof (cases ?vb)
        case (Inl x)
        then show False using f ok keyless w
          by (auto simp: verifyAttestationToStore_def verifyRunBundle_def Let_def failed_verification_def split: if_splits)
      next
        case (Inr v)
        then have "v = None" using False by (cases v) auto
        then show False using Inr f ok keyless w
          by (auto simp: verifyAttestationToStore_def verifyRunBundle_def Let_def failed_verification_def)
      qed
    qed
    ultimately show ?thesis using w by auto
  qed
qed

lemma only_Some_unique:
  assumes "only P rows = Inr (Some y)" and "x \<in> set rows" and "P x"
  shows "x = y"
proof -
  have "filter P rows = [y]" using assms(1) by (auto simp: only_def split: list.splits)
  then have "set (filter P rows) = {y}" by simp
  then show ?thesis using assms(2,3) by auto
qed

lemma check_dependents_known:
  assumes "check_dependents db ms = Inr ()" and "m \<in> set ms" and "nmt_type m = ReferrerAttestationType"
  shows "\<exists>h. nmt_hash m = Some h \<and> ''sha256:'' @ h \<in> run_digest ` set (db_runs db)"
  using assms
proof (induction ms)
  case (Cons x xs)
  show ?case
  proof (cases "x = m")
    case True
    then obtain h r where "nmt_hash m = Some h" "FindByAttestationDigest db (''sha256:'' @ h) = Inr (Some r)"
      using Cons.prems by (auto simp: bind_res_eq_Inr split: option.splits)
    then have "r \<in> set (db_runs db) \<and> run_digest r = ''sha256:'' @ h"
      unfolding FindByAttestationDigest_def by (blast dest: only_Some)
    then show ?thesis using \<open>nmt_hash m = Some h\<close> by (metis image_eqI)
  next
    case False
    then show ?thesis using Cons by (auto simp: bind_res_eq_Inr)
  qed
qed simp

lemma contract_satisfied:
  assumes "validateAgainstContract sv db run xp = Inr ()"
  shows "\<exists>schema. map_of (db_contracts db) (run_contract_version run) = Some (Some schema) \<and>
    materials_present (ss_materials schema) (nmt_name ` set (GetMaterials (sv_referrers sv) (xp_predicate xp)))"
  using assms by (auto simp: validateAgainstContract_def ValidateMaterialsPresence_iff split: option.splits if_splits)

text \<open>The rows of a run and of its workflow, while other requests go on.\<close>

lemma find_run_later:
  assumes "later db db'" and "run_FindByID db rid = Some run"
  shows "\<exists>r. run_FindByID db' rid = Some r \<and> same_run run r"
proof -
  have "\<exists>r. find (\<lambda>r. run_id r = rid) ss = Some r \<and> same_run run r"
    if "list_all2 same_run rs ss" "find (\<lambda>r. run_id r = rid) rs = Some run" for rs ss
    using that by (induction rule: list_all2_induct) (auto simp: same_run_def split: if_splits)
  then show ?thesis using assms by (fastforce simp: later_def rows_kept_def run_FindByID_def find_append)
qed

lemma workflow_kept:
  assumes "list_all2 same_workflow (db_workflows db) (db_workflows db')" and "workflow_of db run = Some w" and "run_workflow r = run_workflow run"
  shows "\<exists>w'. workflow_of db' r = Some w' \<and> same_workflow w w'"
proof -
  have "\<exists>w'. find (\<lambda>w. wfr_id w = i) ws' = Some w' \<and> same_workflow w w'"
    if "list_all2 same_workflow ws ws'" "find (\<lambda>w. wfr_id w = i) ws = Some w" for ws ws' i
    using that by (induction rule: list_all2_induct) (auto simp: same_workflow_def split: if_splits)
  then show ?thesis using assms by (simp add: workflow_of_def)
qed

lemma find_workflow_later:
  "later db db' \<Longrightarrow> workflow_of db run = Some w \<Longrightarrow> run_workflow r = run_workflow run \<Longrightarrow>
     \<exists>w'. workflow_of db' r = Some w' \<and> same_workflow w w'"
  by (rule workflow_kept) (simp_all add: later_def)

lemma update_run_found:
  assumes "update_run rid f missing db = (Inr (), db')" and "\<And>r. run_id (f r) = run_id r"
  shows "\<exists>r. run_FindByID db rid = Some r \<and> run_FindByID db' rid = Some (f r)"
proof -
  have "find (\<lambda>r. run_id r = rid) (update_row run_id rid f rs) = map_option f (find (\<lambda>r. run_id r = rid) rs)" for rs
    by (induction rs) (auto simp: update_row_def assms(2))
  then show ?thesis using assms(1) by (auto simp: update_run_def run_FindByID_def split: if_splits)
qed

text \<open>The part of the request that stores: one transaction on the state the others have left.\<close>

definition stored_rows :: "bool \<Rightarrow> uuid \<Rightarrow> string \<Rightarrow> string \<Rightarrow> 'a cp_db_scheme \<Rightarrow> 'a cp_db_scheme \<Rightarrow> bool" where
  "stored_rows skipBundle rid digest bytes db db' \<longleftrightarrow>
     (\<exists>rs bs. db' = db\<lparr>db_runs := rs, db_bundles := bs\<rparr> \<and>
        (\<exists>r. run_FindByID db rid = Some r \<and> run_FindByID db' rid = Some (r\<lparr>run_digest := digest\<rparr>)) \<and>
        (\<not> skipBundle \<longrightarrow> map_of bs rid = Some bytes))"

lemma save_rows:
  assumes "(if skipBundle then SaveAttestationDigest rid digest block db else SaveAttestationBundle rid digest bytes block db) = (Inr (), db')"
  shows "stored_rows skipBundle rid digest bytes db db' \<and> assertVersionAcceptsAttestationWithTx rid block db = Inr ()"
proof (cases skipBundle)
  case True
  then have "SaveAttestationDigest rid digest block db = (Inr (), db')" using assms by simp
  then show ?thesis
  proof (cases rule: save_digest_cases)
    case saved
    have "\<exists>rs. db' = db\<lparr>db_runs := rs\<rparr>" using saved(3) by (auto simp: update_run_def split: if_splits)
    then obtain rs where "db' = db\<lparr>db_runs := rs, db_bundles := db_bundles db\<rparr>" by auto
    then show ?thesis using True saved(2) update_run_found [OF saved(3)] unfolding stored_rows_def by fastforce
  qed simp
next
  case False
  then have "SaveAttestationBundle rid digest bytes block db = (Inr (), db')" using assms by simp
  then show ?thesis
  proof (cases rule: save_bundle_cases)
    case (saved db1)
    have "\<exists>rs. db1 = db\<lparr>db_runs := rs\<rparr>" using saved(4) by (auto simp: update_run_def split: if_splits)
    then obtain rs where "db' = db\<lparr>db_runs := rs, db_bundles := db_bundles db @ [(rid, bytes)]\<rparr>" using saved(6) by auto
    moreover have "map_of (db_bundles db @ [(rid, bytes)]) rid = Some bytes" using saved(5)
      by (simp add: map_add_def map_of_eq_None_iff [THEN iffD2])
    moreover have "\<exists>r. run_FindByID db rid = Some r \<and> run_FindByID db' rid = Some (r\<lparr>run_digest := digest\<rparr>)"
      using update_run_found [OF saved(4)] saved(6) by (auto simp: run_FindByID_def)
    ultimately show ?thesis using saved(2) unfolding stored_rows_def by fastforce
  qed simp
qed

text \<open>A request that succeeds, step by step.\<close>

lemma SaveAttestation_Inr:
  assumes "SaveAttestation sv su others skipBundle runID bytes db = (Inr digest, db')"
  obtains run block e xp db1 where "find_run sv db runID = Inr run" "orgBlocksReleasedVersions db run = Inr block"
    "decode_bundle sv bytes = Inr (e, xp)" "verifyAttestationToStore sv su db run bytes = Inr ()"
    "check_dependents db (GetMaterials (sv_referrers sv) (xp_predicate xp)) = Inr ()" "validateAgainstContract sv db run xp = Inr ()"
    "digest = sv_sha256 sv bytes"
    "(if skipBundle then SaveAttestationDigest (run_id run) digest block (others db)
      else SaveAttestationBundle (run_id run) digest bytes block (others db)) = (Inr (), db1)"
    "UpdatePolicyStatus (run_id run) (Some (DerivePolicyStatusSummary (Some (GetPolicyEvaluationStatus (xp_predicate xp))))) db1 = (Inr (), db')"
proof -
  obtain run block xp where c: "check_attestation sv su db runID bytes = Inr (run, block, xp)"
    using assms by (auto simp: SaveAttestation_def split: sum.splits)
  let ?save = "if skipBundle then SaveAttestationDigest (run_id run) (sv_sha256 sv bytes) block (others db)
      else SaveAttestationBundle (run_id run) (sv_sha256 sv bytes) bytes block (others db)"
  obtain u db1 where s: "?save = (Inr u, db1)"
    using assms c by (cases ?save; cases "fst ?save") (auto simp: SaveAttestation_def Let_def)
  then show thesis using assms c that [of run block _ xp db1]
    by (auto simp: SaveAttestation_def Let_def check_attestation_def bind_res_eq_Inr split: prod.splits sum.splits)
qed

lemma SaveAttestation_steps:
  assumes "SaveAttestation sv su others skipBundle runID bytes db = (r, db')"
  shows "db' = db \<and> r \<noteq> Inr digest \<or> cp_steps (others db) db'"
proof (cases "check_attestation sv su db runID bytes")
  case (Inl x)
  then show ?thesis using assms by (auto simp: SaveAttestation_def)
next
  case (Inr c)
  obtain run block xp where c: "c = (run, block, xp)" by (metis prod_cases3)
  let ?save = "if skipBundle then SaveAttestationDigest (run_id run) (sv_sha256 sv bytes) block (others db)
      else SaveAttestationBundle (run_id run) (sv_sha256 sv bytes) bytes block (others db)"
  obtain q db1 where s: "?save = (q, db1)" by fastforce
  then have "cp_step (others db) db1" by (cases skipBundle) (auto intro: cp_step.save_digest cp_step.save_bundle)
  moreover have "cp_step db1 db'" if "q = Inr ()"
    using assms Inr c s that by (auto simp: SaveAttestation_def Let_def split: prod.splits sum.splits intro: cp_step.policy)
  moreover have "db' = db1" if "q = Inl x" for x using assms Inr c s that by (auto simp: SaveAttestation_def Let_def)
  ultimately show ?thesis by (cases q) (auto intro: rtranclp.rtrancl_into_rtrancl)
qed

text \<open>The run, after the request: the row is the one that was checked, with the digest and the bundle.\<close>

lemma saved_run:
  assumes "runs_ok db" and "cp_steps db (others db)"
    and save: "SaveAttestation sv su others skipBundle runID bytes db = (Inr digest, db')"
  obtains rid run block e xp r w where
    "sv_parse sv runID = Inr rid" "run_FindByID db rid = Some run" "run_FindByID db' rid = Some r" "same_run run r" "run_digest r = digest"
    "\<not> skipBundle \<longrightarrow> map_of (db_bundles db') rid = Some bytes" "workflow_of db run = Some w"
    "orgBlocksReleasedVersions db run = Inr block" "block \<longrightarrow> (\<exists>v. version_of db' r = Some v \<and> vr_prerelease v)"
    "decode_bundle sv bytes = Inr (e, xp)" "verifyAttestationToStore sv su db run bytes = Inr ()"
    "check_dependents db (GetMaterials (sv_referrers sv) (xp_predicate xp)) = Inr ()" "validateAgainstContract sv db run xp = Inr ()"
    "digest = sv_sha256 sv bytes" "runs_ok db'" "later db db'"
  using save
proof (cases rule: SaveAttestation_Inr)
  case (1 run block e xp db1)
  obtain rid where rid: "sv_parse sv runID = Inr rid" "run_FindByID db rid = Some run" "run_id run = rid"
    using 1(1) by (auto simp: find_run_def bind_res_eq_Inr run_FindByID_def dest: find_SomeD split: option.splits)
  have steps: "cp_steps db db'" using SaveAttestation_steps [OF save] assms(2) by (auto intro: rtranclp_trans)
  note ok = cp_steps_ok [OF assms(2,1)] cp_steps_ok [OF steps assms(1)]
  have rows: "stored_rows skipBundle rid digest bytes (others db) db1" "assertVersionAcceptsAttestationWithTx rid block (others db) = Inr ()"
    using save_rows [OF 1(8)] rid(3) by auto
  obtain f where f: "update_run rid f (run_not_found rid) db1 = (Inr (), db')" "\<And>r. same_run r (f r)" "\<And>r. run_digest (f r) = run_digest r"
    using 1(9) rid(3) by (auto simp: UpdatePolicyStatus_def same_run_def)
  obtain r1 where r1: "run_FindByID (others db) rid = Some r1" "run_FindByID db1 rid = Some (r1\<lparr>run_digest := digest\<rparr>)"
    using rows(1) by (auto simp: stored_rows_def)
  then obtain r where r: "run_FindByID db' rid = Some r" "run_digest r = digest" "same_run r1 r"
    using update_run_found [OF f(1)] f(2,3) by (fastforce simp: same_run_def)
  have tables: "db_bundles db' = db_bundles db1" "db_versions db' = db_versions (others db)"
    using f(1) rows(1) by (auto simp: update_run_def stored_rows_def split: if_splits)
  have "same_run run r1" using find_run_later [OF conjunct2 [OF ok(1)] rid(2)] r1(1) by auto
  then have run: "same_run run r" using r(3) same_transs(1) by blast
  have "run_placed (db_workflows db) (db_versions db) run"
    using assms(1) rid(2) by (auto simp: runs_ok_def list_all_iff run_FindByID_def dest!: find_SomeD)
  then have "\<exists>w\<in>set (db_workflows db). wfr_id w = run_workflow run" unfolding run_placed_def by blast
  then have "workflow_of db run \<noteq> None" unfolding workflow_of_def find_None_iff by blast
  then obtain w where w: "workflow_of db run = Some w" by blast
  have "\<exists>v. version_of db' r = Some v \<and> vr_prerelease v" if blk: block
  proof -
    obtain v where "version_of (others db) r1 = Some v" "vr_prerelease v"
      using rows(2) r1(1) blk by (auto simp: assertVersionAcceptsAttestationWithTx_def split: option.splits if_splits)
    then show ?thesis using tables(2) r(3) by (auto simp: version_of_def same_run_def)
  qed
  moreover have "\<not> skipBundle \<longrightarrow> map_of (db_bundles db') rid = Some bytes" using rows(1) tables(1) by (auto simp: stored_rows_def)
  ultimately show thesis using that rid(1,2) r(1,2) run w 1(2-7) ok(2) by blast
qed

section \<open>Properties\<close>

text \<open>
  C5. What is stored has been checked, whatever other requests do meanwhile. The digest is the one of the bundle
  and becomes the digest of the run, the bundle is in the database unless its storage there is skipped, and
  the tables stay consistent. When signing by certificate is configured and forced, a certificate issued to the
  organization of the run has signed the attestation; when it is not forced, only a bundle without anything to
  verify gets by without. The attested materials satisfy the contract of the run, the attestations among them
  are known, and an organization that blocks released versions gets no attestation on one.
\<close>

theorem attestation_stored:
  assumes "foreign_errors (sv_verifier sv)" and "runs_ok db" and "cp_steps db (others db)"
    and save: "SaveAttestation sv su others skipBundle runID bytes db = (Inr digest, db')"
  shows "digest = sv_sha256 sv bytes \<and> runs_ok db' \<and>
    (\<exists>rid r w e xp schema. sv_parse sv runID = Inr rid \<and> run_FindByID db' rid = Some r \<and> run_digest r = digest \<and>
       workflow_of db' r = Some w \<and> decode_bundle sv bytes = Inr (e, xp) \<and>
       (\<not> skipBundle \<longrightarrow> GetBundle db' rid = Inr bytes) \<and>
       (KeylessEnabled su \<and> sgu_force su \<longrightarrow>
          (\<exists>tr. verifier_roots sv su = Inr tr \<and> signed_by_org (sv_verifier sv) tr bytes (wfr_org w))) \<and>
       (\<forall>tr. KeylessEnabled su \<and> verifier_roots sv su = Inr tr \<longrightarrow>
          signed_by_org (sv_verifier sv) tr bytes (wfr_org w) \<or> unverifiable sv tr bytes (wfr_org w)) \<and>
       map_of (db_contracts db') (run_contract_version r) = Some (Some schema) \<and>
       materials_present (ss_materials schema) (nmt_name ` set (GetMaterials (sv_referrers sv) (xp_predicate xp))) \<and>
       (\<forall>m\<in>set (GetMaterials (sv_referrers sv) (xp_predicate xp)). nmt_type m = ReferrerAttestationType \<longrightarrow>
          (\<exists>h. nmt_hash m = Some h \<and> ''sha256:'' @ h \<in> run_digest ` set (db_runs db))) \<and>
       (\<forall>x\<in>set (db_orgs db'). org_id x = wfr_org w \<and> \<not> org_deleted x \<and> org_block_released x \<longrightarrow>
          (\<exists>v. version_of db' r = Some v \<and> vr_prerelease v)))"
proof -
  obtain rid run block e xp r w0 where run: "sv_parse sv runID = Inr rid" "run_FindByID db' rid = Some r" "same_run run r" "run_digest r = digest"
      "\<not> skipBundle \<longrightarrow> map_of (db_bundles db') rid = Some bytes" "workflow_of db run = Some w0" "orgBlocksReleasedVersions db run = Inr block"
      "block \<longrightarrow> (\<exists>v. version_of db' r = Some v \<and> vr_prerelease v)"
    and checked: "decode_bundle sv bytes = Inr (e, xp)" "verifyAttestationToStore sv su db run bytes = Inr ()"
      "check_dependents db (GetMaterials (sv_referrers sv) (xp_predicate xp)) = Inr ()" "validateAgainstContract sv db run xp = Inr ()"
    and fin: "digest = sv_sha256 sv bytes" "runs_ok db'" "later db db'"
    using saved_run [OF assms(2,3) save] by metis
  obtain w where w: "workflow_of db' r = Some w" "same_workflow w0 w"
    using find_workflow_later [OF fin(3) run(6), of r] run(3) by (auto simp: same_run_def)
  have org: "wfr_org w = wfr_org w0" using w(2) by (simp add: same_workflow_def)
  have same: "db_contracts db' = db_contracts db" "db_orgs db' = db_orgs db" using fin(3) by (simp_all add: later_def)
  obtain schema where schema: "map_of (db_contracts db') (run_contract_version r) = Some (Some schema)"
      "materials_present (ss_materials schema) (nmt_name ` set (GetMaterials (sv_referrers sv) (xp_predicate xp)))"
    using contract_satisfied [OF checked(4)] run(3) same(1) by (auto simp: same_run_def)
  have "KeylessEnabled su \<Longrightarrow> (sgu_force su \<longrightarrow> (\<exists>tr. verifier_roots sv su = Inr tr \<and> signed_by_org (sv_verifier sv) tr bytes (wfr_org w))) \<and>
      (\<forall>tr. verifier_roots sv su = Inr tr \<longrightarrow> signed_by_org (sv_verifier sv) tr bytes (wfr_org w) \<or> unverifiable sv tr bytes (wfr_org w))"
    using verified_to_store [OF assms(1) checked(2)] run(6) org by auto
  moreover have "\<not> skipBundle \<Longrightarrow> GetBundle db' rid = Inr bytes" using run(5) by (auto simp: GetBundle_def)
  moreover have "\<exists>v. version_of db' r = Some v \<and> vr_prerelease v"
    if x: "x \<in> set (db_orgs db')" "org_id x = wfr_org w" "\<not> org_deleted x" "org_block_released x" for x
  proof -
    obtain y where y: "only (\<lambda>x. org_id x = wfr_org w0 \<and> \<not> org_deleted x) (db_orgs db) = Inr (Some y)" "block = org_block_released y"
      using run(6,7) by (auto simp: orgBlocksReleasedVersions_def bind_res_eq_Inr split: option.splits)
    have "x = y" by (rule only_Some_unique [OF y(1)]) (use x org same(2) in simp_all)
    then show ?thesis using x(4) y(2) run(8) by simp
  qed
  ultimately show ?thesis
    using checked(1) fin(1,2) run(1,2,4) w(1) schema check_dependents_known [OF checked(3)] by blast
qed

section \<open>The roots of trust, published and read back\<close>

definition gm_list :: "'v list gomap \<Rightarrow> string \<Rightarrow> 'v list" where
  "gm_list m k = (case map_of m k of None \<Rightarrow> [] | Some vs \<Rightarrow> vs)"

definition chains_for :: "'key storage_env \<Rightarrow> string \<Rightarrow> certificate list list \<Rightarrow> certificate list" where
  "chains_for sv k css = concat (filter (\<lambda>c. c \<noteq> [] \<and> sv_key_id sv (hd c) = k) css)"

text \<open>A certificate that is written as PEM is read back.\<close>

definition pem_good :: "'key storage_env \<Rightarrow> certificate \<Rightarrow> bool" where
  "pem_good sv c \<longleftrightarrow> (\<exists>pem. sv_to_pem sv c = Inr pem \<and> sv_from_pem sv pem = Inr [c])"

definition pem_of :: "'key storage_env \<Rightarrow> certificate \<Rightarrow> string" where
  "pem_of sv c = (case sv_to_pem sv c of Inr pem \<Rightarrow> pem | Inl _ \<Rightarrow> [])"

lemma pem_goodD: "pem_good sv c \<Longrightarrow> sv_to_pem sv c = Inr (pem_of sv c) \<and> first_certificate sv (pem_of sv c) = Inr c"
  by (auto simp: pem_good_def pem_of_def first_certificate_def)

lemma gm_list_append [simp]: "gm_list (gm_append k v m) k' = gm_list m k' @ (if k' = k then [v] else [])"
  by (simp add: gm_list_def gm_append_def update_conv)

lemma gm_append_wf: "gm_wf m \<Longrightarrow> gm_wf (gm_append k v m)"
  by (simp add: gm_wf_def gm_append_def distinct_update)

lemma add_pems_good:
  assumes "list_all (pem_good sv) cs" and "gm_wf m"
  shows "\<exists>m'. add_pems sv k cs m = Inr m' \<and> gm_wf m' \<and>
    (\<forall>k'. gm_list m' k' = gm_list m k' @ (if k' = k then map (pem_of sv) cs else []))"
  using assms
proof (induction cs arbitrary: m)
  case (Cons c cs)
  then show ?case using Cons.IH [OF _ gm_append_wf [OF Cons.prems(2), of k "pem_of sv c"]] pem_goodD [of sv c] by auto
qed simp

lemma add_chain_good:
  assumes "list_all (pem_good sv) chain" and "gm_wf m"
  shows "\<exists>m'. add_chain sv chain m = Inr m' \<and> gm_wf m' \<and>
    (\<forall>k. gm_list m' k = gm_list m k @ map (pem_of sv) (chains_for sv k [chain]))"
proof (cases "chain = []")
  case True
  then show ?thesis using assms(2) by (simp add: add_chain_def chains_for_def)
next
  case False
  then show ?thesis using add_pems_good [OF assms, of "sv_key_id sv (hd chain)"] by (auto simp: add_chain_def chains_for_def)
qed

lemma tsa_chains_good:
  assumes "list_all (list_all (pem_good sv)) css" and "gm_wf m"
  shows "\<exists>m'. tsa_chains sv css m = Inr m' \<and> gm_wf m' \<and>
    (\<forall>k. gm_list m' k = gm_list m k @ map (pem_of sv) (chains_for sv k css))"
  using assms
proof (induction css arbitrary: m)
  case Nil
  then show ?case by (simp add: chains_for_def)
next
  case (Cons chain css)
  obtain m1 where m1: "add_chain sv chain m = Inr m1" "gm_wf m1"
      "\<forall>k. gm_list m1 k = gm_list m k @ map (pem_of sv) (chains_for sv k [chain])"
    using add_chain_good [of sv chain m] Cons.prems by auto
  have "chains_for sv k (chain # css) = chains_for sv k [chain] @ chains_for sv k css" for k by (simp add: chains_for_def)
  then show ?case using Cons.IH [OF _ m1(2)] Cons.prems(1) m1(1,3) by auto
qed

lemma ca_chains_tsa: "ca_chains sv (map Inr css) m = tsa_chains sv css m"
  by (induction css arbitrary: m) (auto simp: bind_res_def split: sum.splits)

lemma load_certs_good:
  assumes "gm_wf m" and "\<And>k. gm_list m k = map (pem_of sv) (certs k)" and "\<And>k. list_all (pem_good sv) (certs k)"
  shows "\<exists>m'. load_certs sv m = Inr m' \<and> (\<forall>k. gm_list m' k = certs k)"
proof -
  have entry: "map_res (first_certificate sv) (map (pem_of sv) cs) = Inr cs" if "list_all (pem_good sv) cs" for cs
    using that by (induction cs) (auto dest: pem_goodD)
  have "\<exists>m'. load_certs sv xs = Inr m' \<and> fst ` set m' \<subseteq> fst ` set xs \<and>
      (\<forall>k\<in>fst ` set xs. gm_list m' k = certs k)" if "gm_wf xs" "\<forall>(k, ps)\<in>set xs. ps = map (pem_of sv) (certs k)" for xs
    using that
  proof (induction xs)
    case (Cons x xs)
    obtain k ps where x: "x = (k, ps)" by fastforce
    obtain m' where m': "load_certs sv xs = Inr m'" "fst ` set m' \<subseteq> fst ` set xs" "\<forall>k\<in>fst ` set xs. gm_list m' k = certs k"
      using Cons by (auto simp: gm_wf_def)
    have "map_res (first_certificate sv) ps = Inr (certs k)" using Cons.prems(2) x entry assms(3) by simp
    moreover have "k \<notin> fst ` set m'" using Cons.prems(1) x m'(2) by (auto simp: gm_wf_def)
    then have "gm_list m' k = []" by (simp add: gm_list_def map_of_eq_None_iff [THEN iffD2])
    ultimately show ?case using m' x Cons.prems(1) by (auto simp: gm_list_def gm_wf_def)
  qed simp
  moreover have "\<forall>(k, ps)\<in>set m. ps = map (pem_of sv) (certs k)"
  proof safe
    fix k ps assume "(k, ps) \<in> set m"
    then have "map_of m k = Some ps" using assms(1) by (simp add: gm_wf_def)
    then show "ps = map (pem_of sv) (certs k)" using assms(2) [of k] by (simp add: gm_list_def)
  qed
  ultimately obtain m' where m': "load_certs sv m = Inr m'" "fst ` set m' \<subseteq> fst ` set m" "\<forall>k\<in>fst ` set m. gm_list m' k = certs k"
    using assms(1) by blast
  have "gm_list m' k = certs k" for k
  proof (cases "k \<in> fst ` set m")
    case False
    then have "certs k = []" "k \<notin> fst ` set m'"
      using assms(2) [of k] m'(2) by (auto simp: gm_list_def map_of_eq_None_iff [THEN iffD2])
    then show ?thesis by (simp add: gm_list_def map_of_eq_None_iff [THEN iffD2])
  qed (use m'(3) in blast)
  then show ?thesis using m'(1) by blast
qed

text \<open>
  C22. The roots of trust survive their publication as PEM: what a bundle is verified against is, under each key
  identifier, the chains of the certificate authorities of that key, and those of the timestamp authorities,
  in their order and nothing else.
\<close>

theorem trusted_root_roundtrip:
  assumes "sgu_cas su = Some (map Inr css)" and "list_all (list_all (pem_good sv)) (css @ sgu_tsas su)"
  shows "\<exists>tr. verifier_roots sv su = Inr tr \<and>
    (\<forall>k. gm_list (tr_keys tr) k = chains_for sv k css \<and> gm_list (tr_tsas tr) k = chains_for sv k (sgu_tsas su))"
proof -
  have wf: "gm_wf ([] :: string list gomap)" and nil: "\<And>k. gm_list ([] :: string list gomap) k = []" by (simp_all add: gm_wf_def gm_list_def)
  have built: "\<exists>m. tsa_chains sv cs [] = Inr m \<and> gm_wf m \<and> (\<forall>k. gm_list m k = map (pem_of sv) (chains_for sv k cs))"
    if "list_all (list_all (pem_good sv)) cs" for cs
    using tsa_chains_good [OF that wf] unfolding nil append_Nil .
  have lists: "list_all (list_all (pem_good sv)) css" "list_all (list_all (pem_good sv)) (sgu_tsas su)" using assms(2) by simp_all
  obtain keys where k: "tsa_chains sv css [] = Inr keys" "gm_wf keys" "\<And>k. gm_list keys k = map (pem_of sv) (chains_for sv k css)"
    using built [OF lists(1)] by blast
  obtain tsas where t: "tsa_chains sv (sgu_tsas su) [] = Inr tsas" "gm_wf tsas"
      "\<And>k. gm_list tsas k = map (pem_of sv) (chains_for sv k (sgu_tsas su))"
    using built [OF lists(2)] by blast
  have good: "list_all (pem_good sv) (chains_for sv k cs)" if "list_all (list_all (pem_good sv)) cs" for k cs
    using that by (auto simp: chains_for_def list_all_iff)
  obtain keys' tsas' where "load_certs sv keys = Inr keys'" "\<forall>k. gm_list keys' k = chains_for sv k css"
      "load_certs sv tsas = Inr tsas'" "\<forall>k. gm_list tsas' k = chains_for sv k (sgu_tsas su)"
    using load_certs_good [OF k(2,3) good [OF lists(1)]] load_certs_good [OF t(2,3) good [OF lists(2)]] by blast
  then show ?thesis using k(1) t(1) assms(1)
    by (simp add: verifier_roots_def GetTrustedRoot_def trustedRootBizToVerifier_def ca_chains_tsa)
qed

section \<open>Reading what was stored\<close>

text \<open>The digest of a run is the one of its stored bundle, and the cache and the artifact store answer by digest.\<close>

definition bundles_match :: "'key storage_env \<Rightarrow> 'a cp_db_scheme \<Rightarrow> bool" where
  "bundles_match sv db \<longleftrightarrow> (\<forall>rid b r. map_of (db_bundles db) rid = Some b \<longrightarrow> run_FindByID db rid = Some r \<longrightarrow> run_digest r = sv_sha256 sv b)"

definition cache_sound :: "'key storage_env \<Rightarrow> string gomap option \<Rightarrow> bool" where
  "cache_sound sv cache \<longleftrightarrow> (\<forall>c d b. cache = Some c \<longrightarrow> map_of c d = Some b \<longrightarrow> sv_sha256 sv b = d)"

definition store_honest :: "'key storage_env \<Rightarrow> bool" where
  "store_honest sv \<longleftrightarrow> (\<forall>download p s org d b. sv_download sv = Some download \<longrightarrow> download p s org d = Inr b \<longrightarrow> b \<noteq> [] \<longrightarrow> sv_sha256 sv b = d)"

lemma cacheBundle_sound: "cache_sound sv cache \<Longrightarrow> sv_sha256 sv bytes = d \<Longrightarrow> cache_sound sv (cacheBundle d bytes cache)"
  by (cases cache) (auto simp: cache_sound_def cacheBundle_def update_conv split: if_splits)

lemma applyBundle_Inr:
  "applyBundle sv run bytes = Inr ar \<Longrightarrow> \<exists>e. ar = \<lparr>atr_run = run, atr_bundle = bytes, atr_envelope = Some e\<rparr> \<and>
     DSSEEnvelopeFromBundleBytes (ve_unmarshal (sv_verifier sv)) bytes = Inr e"
proof -
  assume "applyBundle sv run bytes = Inr ar"
  then obtain b e where b: "ve_unmarshal (sv_verifier sv) bytes = Inr b" "DSSEEnvelopeFromBundle b = Inr e"
      "ar = \<lparr>atr_run = run, atr_bundle = bytes, atr_envelope = Some e\<rparr>"
    by (auto simp: applyBundle_def bind_res_eq_Inr)
  moreover from this have "bn_signatures b \<noteq> []" by (auto simp: DSSEEnvelopeFromBundle_def)
  ultimately show ?thesis by (auto simp: DSSEEnvelopeFromBundleBytes_def)
qed

text \<open>The three places a bundle comes from, and the runs that have none.\<close>

lemma addAttestationFromBundle_cases:
  assumes "addAttestationFromBundle sv db run cache = (r, cache')" and "store_honest sv"
  obtains (unloaded) "cache' = cache" "r = Inr \<lparr>atr_run = run, atr_bundle = [], atr_envelope = None\<rparr> \<or> (\<exists>x. r = Inl x)"
  | (cached) c bytes where "cache = Some c" "map_of c (run_digest run) = Some bytes" "cache' = cache" "r = applyBundle sv run bytes"
  | (stored) bytes where "map_of (db_bundles db) (run_id run) = Some bytes" "cache' = cacheBundle (run_digest run) bytes cache"
      "r = applyBundle sv run bytes"
  | (downloaded) bytes where "sv_sha256 sv bytes = run_digest run" "cache' = cacheBundle (run_digest run) bytes cache"
      "r = applyBundle sv run bytes"
proof (cases "run_state run \<noteq> WorkflowRunSuccess \<or> run_digest run = []")
  case True
  then show thesis using assms(1) unloaded by (auto simp: addAttestationFromBundle_def Let_def)
next
  case loaded: False
  show thesis
  proof (cases "Option.bind cache (\<lambda>c. map_of c (run_digest run))")
    case (Some bytes)
    then obtain c where "cache = Some c" "map_of c (run_digest run) = Some bytes" by (cases cache) simp_all
    moreover have "r = applyBundle sv run bytes" "cache' = cache"
      using assms(1) Some loaded by (simp_all add: addAttestationFromBundle_def Let_def)
    ultimately show thesis using cached [of c bytes] by blast
  next
    case miss: None
    show thesis
    proof (cases "\<exists>bytes. map_of (db_bundles db) (run_id run) = Some bytes \<and> bytes \<noteq> []")
      case True
      then show thesis using stored assms(1) miss loaded by (auto simp: addAttestationFromBundle_def Let_def GetBundle_def)
    next
      case False
      then have got: "(case GetBundle db (run_id run) of Inl x \<Rightarrow> if IsNotFound x then Inr [] else Inl x | Inr bytes \<Rightarrow> Inr bytes) = Inr []"
        by (cases "map_of (db_bundles db) (run_id run)") (auto simp: GetBundle_def)
      show thesis
      proof (cases "\<exists>w bytes. workflow_of db run = Some w \<and> downloadBundleFromCAS sv db (run_digest run) (wfr_org w) = Inr bytes \<and> bytes \<noteq> []")
        case True
        then obtain w bytes where d: "workflow_of db run = Some w" "downloadBundleFromCAS sv db (run_digest run) (wfr_org w) = Inr bytes" "bytes \<noteq> []"
          by blast
        have "sv_sha256 sv bytes = run_digest run"
          using d(2,3) assms(2) by (auto simp: downloadBundleFromCAS_def store_honest_def bind_res_eq_Inr split: option.splits)
        moreover have "r = applyBundle sv run bytes" "cache' = cacheBundle (run_digest run) bytes cache"
          using assms(1) miss loaded got d by (simp_all add: addAttestationFromBundle_def Let_def)
        ultimately show thesis using downloaded [of bytes] by blast
      next
        case none: False
        then show thesis using unloaded assms(1) miss loaded got
          by (cases "workflow_of db run"; cases "downloadBundleFromCAS sv db (run_digest run) (wfr_org (the (workflow_of db run)))")
            (auto simp: addAttestationFromBundle_def Let_def)
      qed
    qed
  qed
qed

lemma addAttestationFromBundle_sound:
  assumes "addAttestationFromBundle sv db run cache = (r, cache')" and "store_honest sv" and "cache_sound sv cache"
    and "bundles_match sv db" and "run_FindByID db (run_id run) = Some run"
  shows "cache_sound sv cache' \<and> (\<forall>ar. r = Inr ar \<longrightarrow> atr_run ar = run \<and>
    (atr_bundle ar = [] \<and> atr_envelope ar = None \<or>
     sv_sha256 sv (atr_bundle ar) = run_digest run \<and>
     (\<exists>e. atr_envelope ar = Some e \<and> DSSEEnvelopeFromBundleBytes (ve_unmarshal (sv_verifier sv)) (atr_bundle ar) = Inr e)))"
  using assms(1,2)
proof (cases rule: addAttestationFromBundle_cases)
  case (cached c bytes)
  then have "sv_sha256 sv bytes = run_digest run" using assms(3) by (auto simp: cache_sound_def)
  then show ?thesis using cached assms(3) applyBundle_Inr by fastforce
next
  case (stored bytes)
  then have "sv_sha256 sv bytes = run_digest run" using assms(4,5) by (auto simp: bundles_match_def)
  then show ?thesis using stored applyBundle_Inr cacheBundle_sound [OF assms(3)] by fastforce
next
  case (downloaded bytes)
  then show ?thesis using applyBundle_Inr cacheBundle_sound [OF assms(3)] by fastforce
qed (use assms(3) in auto)

lemma applyBundle_decoded:
  assumes "decode_bundle sv bytes = Inr (e, xp)"
  shows "applyBundle sv run bytes = Inr \<lparr>atr_run = run, atr_bundle = bytes, atr_envelope = Some e\<rparr>"
  using assms
  by (auto simp: decode_bundle_def bind_res_eq_Inr DSSEEnvelopeFromBundleBytes_def applyBundle_def split: if_splits)

lemma stored_bundle_loaded:
  assumes "run_state r = WorkflowRunSuccess" and "run_digest r \<noteq> []" and "GetBundle db (run_id r) = Inr bytes" and "bytes \<noteq> []"
    and "Option.bind cache (\<lambda>c. map_of c (run_digest r)) \<in> {None, Some bytes}" and "decode_bundle sv bytes = Inr (e, xp)"
  shows "fst (addAttestationFromBundle sv db r cache) = Inr \<lparr>atr_run = r, atr_bundle = bytes, atr_envelope = Some e\<rparr>"
  using assms(1-5) applyBundle_decoded [OF assms(6)]
  by (auto simp: addAttestationFromBundle_def Let_def)

lemma run_read:
  assumes "GetByIDInOrg sv db orgID runID cache = (Inr ar, cache') \<or> GetByDigestInOrg sv db orgID digest cache = (Inr ar, cache')"
  obtains run oid w where "addAttestationFromBundle sv db run cache = (Inr ar, cache')" "run \<in> set (db_runs db)"
    "workflow_of db run = Some w" "sv_parse sv orgID = Inr oid" "wfr_org w = oid"
  using assms
proof
  assume "GetByIDInOrg sv db orgID runID cache = (Inr ar, cache')"
  then obtain oid rid run where p: "sv_parse sv orgID = Inr oid" "FindByIDInOrg db oid rid = Inr run"
      "addAttestationFromBundle sv db run cache = (Inr ar, cache')"
    by (auto simp: GetByIDInOrg_def bind_res_eq_Inr split: sum.splits prod.splits)
  then show thesis using that [of run _ oid]
    by (auto simp: FindByIDInOrg_def run_FindByID_def dest: find_SomeD split: option.splits if_splits)
next
  assume "GetByDigestInOrg sv db orgID digest cache = (Inr ar, cache')"
  then obtain oid run w where p: "sv_parse sv orgID = Inr oid" "FindByAttestationDigest db digest = Inr (Some run)"
      "workflow_of db run = Some w" "wfr_org w = oid" "addAttestationFromBundle sv db run cache = (Inr ar, cache')"
    by (auto simp: GetByDigestInOrg_def bind_res_eq_Inr split: sum.splits prod.splits option.splits if_splits)
  then show thesis using that [of run w oid] only_Some [OF p(2) [unfolded FindByAttestationDigest_def]] by blast
qed

text \<open>
  Where the table, the cache and the artifact store answer with what belongs to the digest, the bundle that is read has the
  digest recorded in the run, and the cache keeps doing so.
\<close>

lemma bundle_integrity:
  assumes "runs_ok db" and "bundles_match sv db" and "cache_sound sv cache" and "store_honest sv"
    and "GetByIDInOrg sv db orgID runID cache = (Inr ar, cache') \<or> GetByDigestInOrg sv db orgID digest cache = (Inr ar, cache')"
  shows "cache_sound sv cache' \<and> atr_run ar \<in> set (db_runs db) \<and>
    (\<exists>w. workflow_of db (atr_run ar) = Some w \<and> sv_parse sv orgID = Inr (wfr_org w)) \<and>
    (atr_bundle ar = [] \<and> atr_envelope ar = None \<or>
     sv_sha256 sv (atr_bundle ar) = run_digest (atr_run ar) \<and>
     (\<exists>e. atr_envelope ar = Some e \<and> DSSEEnvelopeFromBundleBytes (ve_unmarshal (sv_verifier sv)) (atr_bundle ar) = Inr e))"
proof -
  have ids: "distinct (map run_id (db_runs db))" using assms(1) by (simp add: runs_ok_def ids_ok_def)
  obtain run oid w where run: "addAttestationFromBundle sv db run cache = (Inr ar, cache')" "run \<in> set (db_runs db)"
      and w: "workflow_of db run = Some w" "sv_parse sv orgID = Inr oid" "wfr_org w = oid"
    using run_read [OF assms(5)] .
  have "run_FindByID db (run_id run) = Some run" unfolding run_FindByID_def by (rule find_by_id [OF ids run(2)])
  note sound = addAttestationFromBundle_sound [OF run(1) assms(4,3,2) this]
  then show ?thesis using run(2) w by auto
qed

lemma loaded_envelope:
  assumes "addAttestationFromBundle sv db run cache = (Inr ar, cache')"
  shows "atr_run ar = run \<and> (atr_bundle ar = [] \<and> atr_envelope ar = None \<or>
    (\<exists>e. atr_envelope ar = Some e \<and> DSSEEnvelopeFromBundleBytes (ve_unmarshal (sv_verifier sv)) (atr_bundle ar) = Inr e))"
proof -
  have "ar = \<lparr>atr_run = run, atr_bundle = [], atr_envelope = None\<rparr> \<or> (\<exists>bytes. applyBundle sv run bytes = Inr ar)"
    using assms by (auto simp: addAttestationFromBundle_def Let_def split: if_splits option.splits sum.splits)
  then show ?thesis using applyBundle_Inr by fastforce
qed

text \<open>
  C21. The verdict on a run that is read does not rest on where its bundle comes from. A run read by its identifier, or by
  the digest of its attestation, is a run of the caller's organization. When its verification succeeds, then,
  whatever the cache, the database or the artifact store returned, the bundle shown is signed by a certificate that
  chains to a configured root, and the envelope shown is the one of that bundle. Where verification is forced, the
  verdict on a run with an attestation is never left open, even when no bundle could be loaded.
\<close>

theorem read_run_verified:
  assumes "foreign_errors (sv_verifier sv)"
    and read: "GetByIDInOrg sv db orgID runID cache = (Inr ar, cache') \<or> GetByDigestInOrg sv db orgID digest cache = (Inr ar, cache')"
    and "KeylessEnabled su" and verdict: "VerifyRun sv su ar = Inr v"
  shows "atr_run ar \<in> set (db_runs db) \<and> (\<exists>w. workflow_of db (atr_run ar) = Some w \<and> sv_parse sv orgID = Inr (wfr_org w)) \<and>
    (\<forall>res. v = Some res \<and> vfr_result res \<longrightarrow>
       (\<exists>tr e. verifier_roots sv su = Inr tr \<and> signed_by_org (sv_verifier sv) tr (atr_bundle ar) [] \<and> atr_envelope ar = Some e \<and>
          DSSEEnvelopeFromBundleBytes (ve_unmarshal (sv_verifier sv)) (atr_bundle ar) = Inr e)) \<and>
    (sgu_force su \<and> run_digest (atr_run ar) \<noteq> [] \<longrightarrow> v \<noteq> None)"
proof -
  obtain run oid w where run: "addAttestationFromBundle sv db run cache = (Inr ar, cache')" "run \<in> set (db_runs db)"
      and w: "workflow_of db run = Some w" "sv_parse sv orgID = Inr oid" "wfr_org w = oid"
    using run_read [OF read] .
  note loaded = loaded_envelope [OF run(1)]
  have "\<exists>tr e. verifier_roots sv su = Inr tr \<and> signed_by_org (sv_verifier sv) tr (atr_bundle ar) [] \<and> atr_envelope ar = Some e \<and>
      DSSEEnvelopeFromBundleBytes (ve_unmarshal (sv_verifier sv)) (atr_bundle ar) = Inr e" if res: "v = Some res" "vfr_result res" for res
  proof -
    have ne: "atr_bundle ar \<noteq> []"
      using verdict res assms(3) by (auto simp: VerifyRun_def failed_verification_def split: if_splits)
    then have "verifyRunBundle sv su (atr_bundle ar) [] = Inr (Some res)" using verdict res assms(3) by (simp add: VerifyRun_def)
    then have "verifyBundle sv su (atr_bundle ar) [] = Inr (Some res)"
      using res(2) by (auto simp: verifyRunBundle_def Let_def failed_verification_def split: if_splits sum.splits option.splits)
    from verifyBundle_Inr [OF this] res(2) obtain tr where tr: "verifier_roots sv su = Inr tr" "VerifyBundle (sv_verifier sv) (atr_bundle ar) tr [] = Inr ()"
      by auto
    have "signed_by_org (sv_verifier sv) tr (atr_bundle ar) []" by (rule VerifyBundle_signed [OF assms(1)]) (simp add: tr(2))
    then show ?thesis using tr(1) loaded ne by auto
  qed
  moreover have "sgu_force su \<and> run_digest (atr_run ar) \<noteq> [] \<longrightarrow> v \<noteq> None"
    using verdict assms(3) by (auto simp: VerifyRun_def verifyRunBundle_def Let_def split: if_splits sum.splits option.splits)
  ultimately show ?thesis using run(2) w loaded by auto
qed

end
