(* ===== verification/Attestation_Service.thy ===== *)
theory Attestation_Service
  imports Attestation_Storage Referrer_Discovery Authz
begin

text \<open>
  The service that receives an attestation (\<open>app/controlplane/internal/service/attestation.go\<close>) with the
  authorization on projects (\<open>service.go\<close>, \<open>pkg/usercontext/entities/apitoken.go\<close>): the run is found in
  the caller's organization, the caller must reach its project, the bundle is checked and stored, its
  artifacts are indexed and mapped, the version is released when asked for, and the run is finished.

  The caller is what the authentication middleware puts into the request's context. Uploading to the
  artifact store, with its retries, is a field of \<open>service_env\<close>; the upload in the background and the
  integrations run after the request and leave no trace in these tables, nor does the metrics registry. The
  logged and masked error of the default case keeps its cause.
\<close>

section \<open>Errors\<close>

definition BadRequest :: "err \<Rightarrow> err" where "BadRequest x = TypedErr ''BAD_REQUEST'' x"
definition NotFoundErr :: "err \<Rightarrow> err" where "NotFoundErr x = TypedErr ''NOT_FOUND'' x"

definition context_Canceled :: err where "context_Canceled = Errorf ''context canceled'' []"

definition client_error :: "err \<Rightarrow> bool" where
  "client_error x = list_ex (errors_as x)
     [''CLIENT_CLOSED'', ''BAD_REQUEST'', ''NOT_FOUND'', ''FORBIDDEN'', ''UNIMPLEMENTED'', ''ALREADY_EXISTS'', ''FAILED_PRECONDITION'']"

definition handleUseCaseErr :: "err \<Rightarrow> err" where
  "handleUseCaseErr x =
     (if errors_is x context_Canceled then TypedErr ''CLIENT_CLOSED'' x
      else if IsErrValidation x \<or> errors_as x ''ErrInvalidUUID'' \<or> errors_as x ''ErrInvalidTimeWindow'' \<or>
        errors_as x ''OffsetPaginationError'' \<or> errors_as x ''CursorPaginationError'' then BadRequest x
      else if IsNotFound x then NotFoundErr x
      else if IsErrUnauthorized x then TypedErr ''FORBIDDEN'' x
      else if IsErrNotImplemented x then TypedErr ''UNIMPLEMENTED'' x
      else if IsErrAlreadyExists x then TypedErr ''ALREADY_EXISTS'' x
      else if IsErrReleasedVersionImmutable x \<or> errors_as x ''ErrInvalidPassphrase'' then TypedErr ''FAILED_PRECONDITION'' x
      else if client_error x then x
      else InternalServer x)"

section \<open>The caller\<close>

record api_token =
  tk_workflow :: "uuid option"
  tk_scope :: "resource_type option"
  tk_scope_id :: "uuid option"
  tk_projects :: "uuid list"

definition IsOrgScoped :: "api_token \<Rightarrow> bool" where "IsOrgScoped t = (tk_scope t = Some ResourceTypeOrganization)"
definition IsInstanceScoped :: "api_token \<Rightarrow> bool" where "IsInstanceScoped t = (tk_scope t = Some ResourceTypeInstance)"

definition ResourceScope :: "api_token \<Rightarrow> (resource_type \<times> uuid) option" where
  "ResourceScope t = (case (tk_scope t, tk_scope_id t) of
       (Some k, Some i) \<Rightarrow> if k = ResourceTypeProject \<or> k = ResourceTypeProduct then Some (k, i) else None
     | _ \<Rightarrow> None)"

definition ReachableProjects :: "api_token \<Rightarrow> uuid list option" where
  "ReachableProjects t =
     (if IsOrgScoped t \<or> IsInstanceScoped t then None
      else Some (case ResourceScope t of
          None \<Rightarrow> [] | Some (k, i) \<Rightarrow> if k = ResourceTypeProject then [i] else tk_projects t))"

definition ReachesProject :: "api_token \<Rightarrow> uuid \<Rightarrow> bool" where
  "ReachesProject t pid =
     (if IsOrgScoped t \<or> IsInstanceScoped t then True
      else case ResourceScope t of
        None \<Rightarrow> False | Some (k, i) \<Rightarrow> if k = ResourceTypeProject then i = pid else pid \<in> set (tk_projects t))"

text \<open>
  The organization and workflow of the robot account, the token, the subject of the authorization and the
  memberships of the user: resource, its identifier and the role.
\<close>

record request_ctx =
  rq_org :: string
  rq_robot_workflow :: string
  rq_token :: "api_token option"
  rq_subject :: string
  rq_resources :: "(resource_type \<times> uuid \<times> string) list"

definition rbacEnabled :: "request_ctx \<Rightarrow> bool" where
  "rbacEnabled rq = (case rq_token rq of
       Some t \<Rightarrow> \<not> IsOrgScoped t \<and> \<not> IsInstanceScoped t | None \<Rightarrow> RBACEnabled (rq_subject rq))"

text \<open>One role of the user on the resource that has the policy is enough; an error of the enforcer ends the search.\<close>

fun any_role :: "(string \<Rightarrow> authz_policy \<Rightarrow> bool res) \<Rightarrow> authz_policy \<Rightarrow> string list \<Rightarrow> unit res" where
  "any_role enforce p [] = Inl (Forbidden ''you do not have permissions to access the resource'')"
| "any_role enforce p (r # rs) =
     (case enforce r p of Inl x \<Rightarrow> Inl (handleUseCaseErr x) | Inr pass \<Rightarrow> if pass then Inr () else any_role enforce p rs)"

definition authorizeResource ::
  "(string \<Rightarrow> authz_policy \<Rightarrow> bool res) \<Rightarrow> request_ctx \<Rightarrow> authz_policy \<Rightarrow> resource_type \<Rightarrow> uuid \<Rightarrow> unit res" where
  "authorizeResource enforce rq p rt i =
     (if \<not> rbacEnabled rq then Inr ()
      else case rq_token rq of
        Some t \<Rightarrow>
          if rt = ResourceTypeProject \<and> ReachesProject t i then Inr ()
          else Inl (Forbidden ''operation not allowed: the token is not valid with this resource'')
      | None \<Rightarrow> any_role enforce p (map (\<lambda>(k, j, r). r) (filter (\<lambda>(k, j, r). k = rt \<and> j = i) (rq_resources rq))))"

section \<open>Finding the run, its workflow and its project\<close>

definition FindProjectByOrgIDAndName :: "'a cp_db_scheme \<Rightarrow> uuid \<Rightarrow> string \<Rightarrow> project_row res" where
  "FindProjectByOrgIDAndName db orgID name =
     bind_res (map_err (Wrapf ''project query failed: %w'' [])
       (only (\<lambda>p. org_live db orgID \<and> pj_org p = orgID \<and> pj_name p = name \<and> \<not> pj_deleted p) (db_projects db))) (\<lambda>p.
     case p of None \<Rightarrow> Inl (NewErrNotFound (''project '' @ name)) | Some p \<Rightarrow> Inr p)"

definition FindProjectByName :: "uuid_parser \<Rightarrow> 'a cp_db_scheme \<Rightarrow> string \<Rightarrow> string \<Rightarrow> project_row res" where
  "FindProjectByName parse db orgID name =
     (if orgID = [] then Inl (NewErrValidationStr ''orgID or project reference are empty'')
      else bind_res (map_err NewErrInvalidUUID (parse orgID)) (\<lambda>oid.
        if name = [] then Inl (NewErrValidationStr ''project reference is empty'') else FindProjectByOrgIDAndName db oid name))"

definition userHasPermissionOnProject ::
  "(string \<Rightarrow> authz_policy \<Rightarrow> bool res) \<Rightarrow> uuid_parser \<Rightarrow> request_ctx \<Rightarrow> 'a cp_db_scheme \<Rightarrow> string \<Rightarrow> string \<Rightarrow> authz_policy \<Rightarrow>
     project_row res" where
  "userHasPermissionOnProject enforce parse rq db orgID name p =
     bind_res (map_err handleUseCaseErr (FindProjectByName parse db orgID name)) (\<lambda>pj.
     if \<not> rbacEnabled rq then Inr pj
     else bind_res (authorizeResource enforce rq p ResourceTypeProject (pj_id pj)) (\<lambda>_. Inr pj))"

text \<open>\<open>by_name\<close> finds a workflow by the names of its project and its own.\<close>

definition findWorkflowFromTokenOrNameOrRunID ::
  "'key storage_env \<Rightarrow> (string \<Rightarrow> string \<Rightarrow> string \<Rightarrow> workflow_row res) \<Rightarrow> request_ctx \<Rightarrow> 'a cp_db_scheme \<Rightarrow> string \<Rightarrow> string \<Rightarrow> string \<Rightarrow>
     string \<Rightarrow> string gomap option \<Rightarrow> workflow_row res" where
  "findWorkflowFromTokenOrNameOrRunID sv by_name rq db orgID projectName workflowName runID cache =
     (if orgID = [] then Inl (NewErrValidationStr ''orgID must be provided'')
      else bind_res
        (if workflowName \<noteq> [] then by_name orgID projectName workflowName
         else if runID \<noteq> [] then
           bind_res (map_err (Wrapf ''error retrieving the workflow run: %w'' []) (fst (GetByIDInOrg sv db orgID runID cache))) (\<lambda>ar.
           case workflow_of db (atr_run ar) of None \<Rightarrow> Inl (go_panic ''nil pointer dereference'') | Some w \<Rightarrow> Inr w)
         else Inl (NewErrValidationStr ''workflowName or workflowRunId must be provided'')) (\<lambda>w.
        if (case Option.bind (rq_token rq) tk_workflow of None \<Rightarrow> False | Some i \<Rightarrow> wfr_id w \<noteq> i) then
          Inl (Forbidden ''API token is scoped to a different workflow'')
        else if rq_robot_workflow rq \<noteq> [] \<and> wfr_id w \<noteq> rq_robot_workflow rq then
          Inl (Forbidden ''robot account is scoped to a different workflow'')
        else Inr w))"

definition project_name_of :: "'a cp_db_scheme \<Rightarrow> workflow_row \<Rightarrow> string" where
  "project_name_of db w = (case find (\<lambda>p. pj_id p = wfr_project w) (db_projects db) of None \<Rightarrow> [] | Some p \<Rightarrow> pj_name p)"

definition run_cas_backends :: "'a cp_db_scheme \<Rightarrow> workflow_run \<Rightarrow> cas_backend list" where
  "run_cas_backends db run = List.map_filter (\<lambda>bid. find (\<lambda>b. cb_id b = bid) (db_backends db)) (run_backends run)"

section \<open>Storing an attestation\<close>

record service_env =
  sc_skip_db :: bool
  sc_upload :: "cas_backend \<Rightarrow> string \<Rightarrow> string \<Rightarrow> unit res"  \<comment> \<open>content and digest\<close>
  sc_backends :: backend_env
  sc_now :: int

fun record_mappings ::
  "'key storage_env \<Rightarrow> int \<Rightarrow> uuid \<Rightarrow> mapping_opts \<Rightarrow> (string \<times> string) list \<Rightarrow> 'a cp_db_scheme \<Rightarrow> unit res \<times> 'a cp_db_scheme" where
  "record_mappings sv now bid opts [] db = (Inr (), db)"
| "record_mappings sv now bid opts ((name, digest) # refs) db =
     (case uc_mapping_Create (sv_parse sv) (sv_new_hash sv) now digest bid (Some opts) db of
        (Inl x, db') \<Rightarrow> (Inl (handleUseCaseErr x), db')
      | (Inr _, db') \<Rightarrow> record_mappings sv now bid opts refs db')"

definition map_artifacts ::
  "'key storage_env \<Rightarrow> int \<Rightarrow> cas_backend \<Rightarrow> workflow_row \<Rightarrow> workflow_run \<Rightarrow> dsse_envelope \<Rightarrow> string \<Rightarrow> 'a cp_db_scheme \<Rightarrow>
     unit res \<times> 'a cp_db_scheme" where
  "map_artifacts sv now b w run e digest db =
     (if cb_inline b then (Inr (), db)
      else case LookupDigestsInAttestation (sv_referrers sv) e digest of
        Inl x \<Rightarrow> (Inl (handleUseCaseErr x), db)
      | Inr refs \<Rightarrow>
          record_mappings sv now (cb_id b) \<lparr>mpo_run = Some (run_id run), mpo_project = Some (wfr_project w), mpo_product = None\<rparr> refs db)"

definition upload_and_save ::
  "service_env \<Rightarrow> 'key storage_env \<Rightarrow> signing_uc \<Rightarrow> ('a cp_db_scheme \<Rightarrow> 'a cp_db_scheme) \<Rightarrow> cas_backend \<Rightarrow> workflow_run \<Rightarrow> string \<Rightarrow>
     'a cp_db_scheme \<Rightarrow> string res \<times> 'a cp_db_scheme" where
  "upload_and_save sc sv su others b run bytes db =
     (if sc_skip_db sc \<and> \<not> cb_inline b then
        (case bind_res (ValidateAttestationContract sv su db (run_id run) bytes) (\<lambda>_. sc_upload sc b bytes (sv_sha256 sv bytes)) of
           Inl x \<Rightarrow> (Inl x, db)
         | Inr _ \<Rightarrow> SaveAttestation sv su others True (run_id run) bytes db)
      else SaveAttestation sv su others False (run_id run) bytes db)"

definition release_version ::
  "'key storage_env \<Rightarrow> int \<Rightarrow> version_row option \<Rightarrow> bool option \<Rightarrow> 'a cp_db_scheme \<Rightarrow> unit res \<times> 'a cp_db_scheme" where
  "release_version sv now version markAsReleased db =
     (if markAsReleased = Some True then
        (case version of
           None \<Rightarrow> (Inl (go_panic ''nil pointer dereference''), db)
         | Some v \<Rightarrow>
             (case UpdateReleaseStatus (sv_parse sv) now (vr_id v) True db of
                (Inl x, db') \<Rightarrow> (Inl (handleUseCaseErr x), db') | (Inr _, db') \<Rightarrow> (Inr (), db')))
      else (Inr (), db))"

text \<open>
  \<open>others\<close> is what other requests do between the checks of the attestation and its storage. What follows is
  several transactions (the referrers, the mappings, the release, the end of the run); they are modelled one
  after the other, for a run that no other request changes meanwhile.
\<close>

definition storeAttestation ::
  "service_env \<Rightarrow> 'key storage_env \<Rightarrow> signing_uc \<Rightarrow> (ref_db \<Rightarrow> ref_db) \<Rightarrow> string \<Rightarrow> workflow_row \<Rightarrow> workflow_run \<Rightarrow> cas_backend \<Rightarrow>
     version_row option \<Rightarrow> bool option \<Rightarrow> ref_db \<Rightarrow> string res \<times> ref_db" where
  "storeAttestation sc sv su others bytes w run b version markAsReleased db =
     (case DSSEEnvelopeFromBundleBytes (ve_unmarshal (sv_verifier sv)) bytes of
        Inl x \<Rightarrow> (Inl (handleUseCaseErr x), db)
      | Inr e \<Rightarrow>
          (case (if \<not> cb_inline b \<and> cb_status b \<noteq> CASBackendValidationOK then PerformValidation (sc_backends sc) (cb_id b) db
                 else (Inr (), db)) of
             (Inl _, db1) \<Rightarrow> (Inl (Forbidden ''your CAS backend can not be reached''), db1)
           | (Inr _, db1) \<Rightarrow>
               (case upload_and_save sc sv su others b run bytes db1 of
                  (Inl x, db2) \<Rightarrow> (Inl (handleUseCaseErr x), db2)
                | (Inr digest, db2) \<Rightarrow>
                    (case ExtractAndPersist (sv_referrers sv) e digest (wfr_id w) db2 of
                       (Inl x, db3) \<Rightarrow> (Inl (handleUseCaseErr x), db3)
                     | (Inr _, db3) \<Rightarrow>
                         (case map_artifacts sv (sc_now sc) b w run e digest db3 of
                            (Inl x, db4) \<Rightarrow> (Inl x, db4)
                          | (Inr _, db4) \<Rightarrow>
                              (case release_version sv (sc_now sc) version markAsReleased db4 of
                                 (Inl x, db5) \<Rightarrow> (Inl x, db5)
                               | (Inr _, db5) \<Rightarrow>
                                   (case uc_MarkAsFinished (sv_parse sv) (sc_now sc) (run_id run) WorkflowRunSuccess [] db5 of
                                      (Inl x, db6) \<Rightarrow> (Inl (handleUseCaseErr x), db6)
                                    | (Inr _, db6) \<Rightarrow> (Inr digest, db6))))))))"

text \<open>The handlers. A request without a robot account in its context is \<open>None\<close>, a missing bundle too.\<close>

definition locate_run ::
  "(string \<Rightarrow> authz_policy \<Rightarrow> bool res) \<Rightarrow> 'key storage_env \<Rightarrow> (string \<Rightarrow> string \<Rightarrow> string \<Rightarrow> workflow_row res) \<Rightarrow> request_ctx \<Rightarrow>
     authz_policy \<Rightarrow> string \<Rightarrow> string gomap option \<Rightarrow> ref_db \<Rightarrow> workflow_row res" where
  "locate_run enforce sv by_name rq p runID cache db =
     bind_res (map_err handleUseCaseErr (findWorkflowFromTokenOrNameOrRunID sv by_name rq db (rq_org rq) [] [] runID cache)) (\<lambda>w.
     bind_res (userHasPermissionOnProject enforce (sv_parse sv) rq db (rq_org rq) (project_name_of db w) p) (\<lambda>_. Inr w))"

definition svc_Store ::
  "(string \<Rightarrow> authz_policy \<Rightarrow> bool res) \<Rightarrow> service_env \<Rightarrow> 'key storage_env \<Rightarrow> signing_uc \<Rightarrow>
     (string \<Rightarrow> string \<Rightarrow> string \<Rightarrow> workflow_row res) \<Rightarrow> (ref_db \<Rightarrow> ref_db) \<Rightarrow> request_ctx option \<Rightarrow> string option \<Rightarrow> string \<Rightarrow> bool option \<Rightarrow>
     string gomap option \<Rightarrow> ref_db \<Rightarrow> string res \<times> ref_db" where
  "svc_Store enforce sc sv su by_name others ctx bundle runID markAsReleased cache db =
     (case (ctx, bundle) of
        (None, _) \<Rightarrow> (Inl (NotFoundErr (Errorf ''robot account not found'' [])), db)
      | (Some rq, None) \<Rightarrow> (Inl (BadRequest (Errorf ''attestation bundle is required'' [])), db)
      | (Some rq, Some bytes) \<Rightarrow>
          (case bind_res (locate_run enforce sv by_name rq PolicyWorkflowRunCreate runID cache db) (\<lambda>w.
                bind_res (map_err handleUseCaseErr (fst (GetByIDInOrg sv db (rq_org rq) runID cache))) (\<lambda>ar.
                case run_cas_backends db (atr_run ar) of
                  [] \<Rightarrow> Inl (NotFoundErr (Errorf ''workflow run has no CAS backend'' []))
                | b # _ \<Rightarrow> Inr (w, atr_run ar, b))) of
             Inl x \<Rightarrow> (Inl x, db)
           | Inr (w, run, b) \<Rightarrow>
               (case storeAttestation sc sv su others bytes w run b (version_of db run) markAsReleased db of
                  (Inl x, db') \<Rightarrow> (Inl (handleUseCaseErr x), db') | (Inr digest, db') \<Rightarrow> (Inr digest, db'))))"

datatype cancel_trigger = TRIGGER_TYPE_UNSPECIFIED | TRIGGER_TYPE_FAILURE | TRIGGER_TYPE_CANCELLATION

definition svc_Cancel ::
  "(string \<Rightarrow> authz_policy \<Rightarrow> bool res) \<Rightarrow> service_env \<Rightarrow> 'key storage_env \<Rightarrow> (string \<Rightarrow> string \<Rightarrow> string \<Rightarrow> workflow_row res) \<Rightarrow>
     request_ctx option \<Rightarrow> string \<Rightarrow> cancel_trigger \<Rightarrow> string \<Rightarrow> string gomap option \<Rightarrow> ref_db \<Rightarrow> unit res \<times> ref_db" where
  "svc_Cancel enforce sc sv by_name ctx runID trigger reason cache db =
     (case ctx of
        None \<Rightarrow> (Inl (NotFoundErr (Errorf ''robot account not found'' [])), db)
      | Some rq \<Rightarrow>
          (case bind_res (locate_run enforce sv by_name rq PolicyWorkflowRunUpdate runID cache db) (\<lambda>w.
                case trigger of
                  TRIGGER_TYPE_FAILURE \<Rightarrow> Inr WorkflowRunError
                | TRIGGER_TYPE_CANCELLATION \<Rightarrow> Inr WorkflowRunCancelled
                | TRIGGER_TYPE_UNSPECIFIED \<Rightarrow> Inl (Errorf ''invalid trigger %s'' [])) of
             Inl x \<Rightarrow> (Inl x, db)
           | Inr status \<Rightarrow>
               (case uc_MarkAsFinished (sv_parse sv) (sc_now sc) runID status reason db of
                  (Inl x, db') \<Rightarrow> (Inl x, db')
                | (Inr _, db') \<Rightarrow>
                    (map_err handleUseCaseErr (bind_res (fst (GetByIDInOrg sv db' (rq_org rq) runID cache)) (\<lambda>_. Inr ())), db'))))"

section \<open>Lemmas\<close>

lemma ReachesProject_iff: "ReachesProject t pid \<longleftrightarrow> (case ReachableProjects t of None \<Rightarrow> True | Some ps \<Rightarrow> pid \<in> set ps)"
proof (cases "ResourceScope t")
  case (Some ki)
  moreover obtain k i where "ki = (k, i)" by fastforce
  ultimately show ?thesis by (auto simp: ReachesProject_def ReachableProjects_def)
qed (simp add: ReachesProject_def ReachableProjects_def)

text \<open>An error that has been converted for the client is not converted again.\<close>

lemma handleUseCaseErr_typed:
  "k \<in> set [''CLIENT_CLOSED'', ''BAD_REQUEST'', ''NOT_FOUND'', ''FORBIDDEN'', ''UNIMPLEMENTED'', ''ALREADY_EXISTS'', ''FAILED_PRECONDITION''] \<Longrightarrow>
     handleUseCaseErr (TypedErr k x) = TypedErr k x"
  unfolding list.set insert_iff empty_iff
  by (elim disjE FalseE) (simp_all add: handleUseCaseErr_def client_error_def context_Canceled_def biz_error_defs)

lemma handleUseCaseErr_idem:
  assumes "client_error (handleUseCaseErr x)"
  shows "handleUseCaseErr (handleUseCaseErr x) = handleUseCaseErr x"
proof -
  have "handleUseCaseErr x = x \<or> handleUseCaseErr x = InternalServer x \<or>
      (\<exists>k\<in>set [''CLIENT_CLOSED'', ''BAD_REQUEST'', ''NOT_FOUND'', ''FORBIDDEN'', ''UNIMPLEMENTED'', ''ALREADY_EXISTS'', ''FAILED_PRECONDITION''].
         handleUseCaseErr x = TypedErr k x)"
    by (simp add: handleUseCaseErr_def BadRequest_def NotFoundErr_def)
  then show ?thesis
  proof (elim disjE bexE)
    assume "handleUseCaseErr x = InternalServer x"
    then show ?thesis using assms by (simp add: client_error_def InternalServer_def)
  qed (simp_all add: handleUseCaseErr_typed)
qed

lemma any_role_Inr: "any_role enforce p rs = Inr () \<Longrightarrow> \<exists>r\<in>set rs. enforce r p = Inr True"
  by (induction rs) (auto split: sum.splits if_splits)

text \<open>What it takes to reach a project: for a confined token its scope, for a member a role with the policy.\<close>

definition reaches :: "(string \<Rightarrow> authz_policy \<Rightarrow> bool res) \<Rightarrow> request_ctx \<Rightarrow> authz_policy \<Rightarrow> uuid \<Rightarrow> bool" where
  "reaches enforce rq p pid \<longleftrightarrow> (rbacEnabled rq \<longrightarrow>
     (case rq_token rq of
        Some t \<Rightarrow> ReachesProject t pid
      | None \<Rightarrow> \<exists>role. (ResourceTypeProject, pid, role) \<in> set (rq_resources rq) \<and> enforce role p = Inr True))"

lemma authorizeResource_reaches:
  assumes "authorizeResource enforce rq p ResourceTypeProject pid = Inr ()"
  shows "reaches enforce rq p pid"
proof (cases "rbacEnabled rq \<and> rq_token rq = None")
  case True
  then have "any_role enforce p (map (\<lambda>(k, j, r). r) (filter (\<lambda>(k, j, r). k = ResourceTypeProject \<and> j = pid) (rq_resources rq))) = Inr ()"
    using assms by (simp add: authorizeResource_def)
  then obtain role where "(ResourceTypeProject, pid, role) \<in> set (rq_resources rq)" "enforce role p = Inr True"
    by (fastforce dest: any_role_Inr)
  then show ?thesis using True by (auto simp: reaches_def)
next
  case False
  then show ?thesis using assms by (auto simp: reaches_def authorizeResource_def split: option.splits if_splits)
qed

text \<open>
  The projects: identifiers are unique, live projects of an organization have different names (the unique index of
  the table), and a workflow is in a project of its organization.
\<close>

definition projects_ok :: "'a cp_db_scheme \<Rightarrow> bool" where
  "projects_ok db \<longleftrightarrow> distinct (map pj_id (db_projects db)) \<and>
     (\<forall>p\<in>set (db_projects db). \<forall>q\<in>set (db_projects db). \<not> pj_deleted p \<longrightarrow> \<not> pj_deleted q \<longrightarrow> pj_org p = pj_org q \<longrightarrow>
        pj_name p = pj_name q \<longrightarrow> p = q) \<and>
     (\<forall>w\<in>set (db_workflows db). \<exists>p\<in>set (db_projects db). pj_id p = wfr_project w \<and> pj_org p = wfr_org w)"

text \<open>
  The whole check before a handler acts on a run. The project of the workflow is looked up by its name, so that a
  deleted one stands for a live project of the same name, if there is one.
\<close>

definition may_act :: "(string \<Rightarrow> authz_policy \<Rightarrow> bool res) \<Rightarrow> uuid_parser \<Rightarrow> request_ctx \<Rightarrow> authz_policy \<Rightarrow> 'a cp_db_scheme \<Rightarrow> workflow_row \<Rightarrow> bool" where
  "may_act enforce parse rq p db w \<longleftrightarrow>
     parse (rq_org rq) = Inr (wfr_org w) \<and>
     (\<forall>i. Option.bind (rq_token rq) tk_workflow = Some i \<longrightarrow> wfr_id w = i) \<and>
     (rq_robot_workflow rq \<noteq> [] \<longrightarrow> wfr_id w = rq_robot_workflow rq) \<and>
     (\<exists>pj\<in>set (db_projects db). pj_id pj = wfr_project w \<and> pj_org pj = wfr_org w \<and>
        (if pj_deleted pj
         then \<exists>pj'\<in>set (db_projects db). \<not> pj_deleted pj' \<and> pj_org pj' = wfr_org w \<and> pj_name pj' = pj_name pj \<and> reaches enforce rq p (pj_id pj')
         else reaches enforce rq p (wfr_project w)))"

lemma addAttestation_run: "addAttestationFromBundle sv db run cache = (Inr ar, cache') \<Longrightarrow> atr_run ar = run"
  by (auto simp: addAttestationFromBundle_def Let_def applyBundle_def bind_res_eq_Inr split: if_splits option.splits sum.splits)

lemma GetByIDInOrg_Inr:
  assumes "fst (GetByIDInOrg sv db orgID runID cache) = Inr ar"
  shows "\<exists>oid rid w. sv_parse sv orgID = Inr oid \<and> sv_parse sv runID = Inr rid \<and> run_FindByID db rid = Some (atr_run ar) \<and>
    workflow_of db (atr_run ar) = Some w \<and> wfr_org w = oid"
proof -
  obtain oid rid run cache' where p: "sv_parse sv orgID = Inr oid" "sv_parse sv runID = Inr rid" "FindByIDInOrg db oid rid = Inr run"
      "addAttestationFromBundle sv db run cache = (Inr ar, cache')"
    using assms by (auto simp: GetByIDInOrg_def bind_res_eq_Inr split: sum.splits prod.splits)
  have "atr_run ar = run" by (rule addAttestation_run [OF p(4)])
  then show ?thesis using p(1-3) by (auto simp: FindByIDInOrg_def split: option.splits if_splits)
qed

lemma locate_run_Inr:
  assumes "locate_run enforce sv by_name rq p runID cache db = Inr w" and ok: "projects_ok db"
  shows "\<exists>rid run. sv_parse sv runID = Inr rid \<and> run_FindByID db rid = Some run \<and> workflow_of db run = Some w \<and>
    may_act enforce (sv_parse sv) rq p db w"
proof -
  obtain ar pj where ar: "fst (GetByIDInOrg sv db (rq_org rq) runID cache) = Inr ar" "workflow_of db (atr_run ar) = Some w"
      and tok: "\<not> (case Option.bind (rq_token rq) tk_workflow of None \<Rightarrow> False | Some i \<Rightarrow> wfr_id w \<noteq> i)"
        "\<not> (rq_robot_workflow rq \<noteq> [] \<and> wfr_id w \<noteq> rq_robot_workflow rq)"
      and pj: "userHasPermissionOnProject enforce (sv_parse sv) rq db (rq_org rq) (project_name_of db w) p = Inr pj"
    using assms(1) by (auto simp: locate_run_def findWorkflowFromTokenOrNameOrRunID_def bind_res_eq_Inr split: if_splits option.splits)
  obtain oid rid where id: "sv_parse sv (rq_org rq) = Inr oid" "sv_parse sv runID = Inr rid" "run_FindByID db rid = Some (atr_run ar)"
      "wfr_org w = oid"
    using GetByIDInOrg_Inr [OF ar(1)] ar(2) by auto
  have found: "FindProjectByName (sv_parse sv) db (rq_org rq) (project_name_of db w) = Inr pj"
    and auth: "rbacEnabled rq \<Longrightarrow> authorizeResource enforce rq p ResourceTypeProject (pj_id pj) = Inr ()"
    using pj by (auto simp: userHasPermissionOnProject_def bind_res_eq_Inr split: if_splits)
  have "FindProjectByOrgIDAndName db oid (project_name_of db w) = Inr pj"
    using found id(1) by (auto simp: FindProjectByName_def split: if_splits)
  then have "only (\<lambda>p. org_live db oid \<and> pj_org p = oid \<and> pj_name p = project_name_of db w \<and> \<not> pj_deleted p) (db_projects db) = Inr (Some pj)"
    by (auto simp: FindProjectByOrgIDAndName_def bind_res_eq_Inr split: option.splits)
  then have row: "pj \<in> set (db_projects db)" "pj_org pj = oid" "pj_name pj = project_name_of db w" "\<not> pj_deleted pj"
    by (auto dest: only_Some)
  have reach: "reaches enforce rq p (pj_id pj)" using auth authorizeResource_reaches by (auto simp: reaches_def)
  have "w \<in> set (db_workflows db)" using ar(2) by (auto simp: workflow_of_def dest: find_SomeD)
  then obtain own where own: "own \<in> set (db_projects db)" "pj_id own = wfr_project w" "pj_org own = wfr_org w"
    using ok unfolding projects_ok_def by blast
  have "project_name_of db w = pj_name own"
    using find_by_id [of pj_id "db_projects db" own] ok own(1,2) by (simp add: project_name_of_def projects_ok_def)
  then have "\<not> pj_deleted own \<Longrightarrow> own = pj" using ok own row id(4) unfolding projects_ok_def by metis
  then have "if pj_deleted own
      then \<exists>pj'\<in>set (db_projects db). \<not> pj_deleted pj' \<and> pj_org pj' = wfr_org w \<and> pj_name pj' = pj_name own \<and> reaches enforce rq p (pj_id pj')
      else reaches enforce rq p (wfr_project w)"
    using reach row own id(4) \<open>project_name_of db w = pj_name own\<close> by auto
  then show ?thesis using id ar(2) own tok by (auto simp: may_act_def split: option.splits)
qed

section \<open>What the steps leave alone\<close>

text \<open>The tables of a request are those of the runs; the referrer index is the rest of the database.\<close>

lemma update_run_more: "update_run rid f x db = (r, db') \<Longrightarrow> cp_db.more db' = cp_db.more db"
  by (auto simp: update_run_def split: if_splits)

lemma WithTx_more:
  assumes "WithTx fn db = (r, db')" and "\<And>r d. fn db = (r, d) \<Longrightarrow> cp_db.more d = cp_db.more db"
  shows "cp_db.more db' = cp_db.more db"
  using assms(1)
proof (cases rule: WithTx_cases)
  case (committed y)
  then show ?thesis using assms(2) by blast
qed simp

lemma create_version_more: "createProjectVersionWithTx p name pre mark db = (r, db') \<Longrightarrow> cp_db.more db' = cp_db.more db"
  by (auto simp: createProjectVersionWithTx_def draw_id_def Let_def split: if_splits sum.splits)

lemma promote_more: "promoteVersionToLatestWithTx v db = (r, db') \<Longrightarrow> cp_db.more db' = cp_db.more db"
  by (auto simp: promoteVersionToLatestWithTx_def Let_def split: if_splits)

lemma version_for_run_more: "version_for_run opts w v db = (r, db') \<Longrightarrow> cp_db.more db' = cp_db.more db"
  by (auto simp: version_for_run_def Let_def split: option.splits prod.splits sum.splits if_splits dest!: create_version_more promote_more)

lemma create_run_more: "create_run_tx now opts w v db = (r, db') \<Longrightarrow> cp_db.more db' = cp_db.more db"
  by (auto simp: create_run_tx_def insert_run_def count_run_in_workflow_def count_run_in_version_def draw_id_def Let_def
      split: prod.splits sum.splits if_splits option.splits dest!: version_for_run_more)

lemma mark_latest_more: "repo_MarkAsLatest p vid db = (r, db') \<Longrightarrow> cp_db.more db' = cp_db.more db"
  unfolding repo_MarkAsLatest_def
  by (cases "find (\<lambda>x. pj_id x = p) (db_projects db)")
    (auto elim!: WithTx_more split: option.splits prod.splits sum.splits dest!: promote_more)

lemma cp_step_more: "cp_step db db' \<Longrightarrow> cp_db.more db' = cp_db.more db"
proof (induction rule: cp_step.induct)
  case (save_digest rid digest block db r db')
  then show ?case by (cases rule: save_digest_cases) (auto dest: update_run_more)
next
  case (save_bundle rid digest bytes block db r db')
  then show ?case by (cases rule: save_bundle_cases) (auto dest: update_run_more)
next
  case (policy rid summary db r db')
  then show ?case by (auto simp: UpdatePolicyStatus_def split: option.splits dest: update_run_more)
next
  case (create_run db w opts version now r db')
  then show ?case by (blast intro: WithTx_more create_run_more)
next
  case (new_version p name pre db rv db')
  then show ?case unfolding version_Create_def by (blast intro: WithTx_more create_version_more)
next
  case (update_version now vid pr db rv db')
  then show ?case by (auto simp: version_Update_def split: option.splits)
qed (auto simp: MarkAsFinished_def Expire_def dest: update_run_more mark_latest_more)

interpretation outside: request_history cp_step "\<lambda>_. True" "\<lambda>db db'. cp_db.more db' = cp_db.more db"
  by unfold_locales (simp_all add: cp_step_more)

lemma cp_steps_more: "cp_steps db db' \<Longrightarrow> cp_db.more db' = cp_db.more db"
  using outside.steps_grow by blast

lemma same_more:
  fixes db :: ref_db
  assumes "cp_db.more db' = cp_db.more db"
  shows "db_referrers db' = db_referrers db" "db_ref_workflows db' = db_ref_workflows db" "db_references db' = db_references db"
    "db_fresh db' = db_fresh db" "db_drawn db' = db_drawn db"
  using assms by (cases db; cases db'; simp)+

lemma stored_as_more:
  assumes "cp_db.more db' = cp_db.more db"
  shows "stored_as db' = stored_as db"
  unfolding stored_as_def fun_eq_iff using same_more(1) [OF assms] by simp

lemma index_ok_more:
  assumes "cp_db.more db' = cp_db.more db"
  shows "index_ok db' = index_ok db"
  unfolding index_ok_def rows_ok_def attestation_row_def stored_as_more [OF assms] using same_more [OF assms] by simp

lemma PerformValidation_frame:
  assumes "PerformValidation be bid db = (r, db')"
  obtains bs es where "db' = db\<lparr>db_backends := bs, db_events := es\<rparr>"
proof -
  have same: "db = db\<lparr>db_backends := db_backends db, db_events := db_events db\<rparr>" by simp
  consider "db' = db" | uid status msg where "db' = record_validation uid status msg db"
    using assms by (auto simp: PerformValidation_def split: sum.splits option.splits if_splits prod.splits)
  then show thesis
  proof cases
    case 1
    then show thesis using that same by metis
  next
    case 2
    show thesis by (rule validation_rows [of uid status msg db]) (use 2 that same in \<open>metis+\<close>)
  qed
qed

lemma runs_ok_outside [simp]:
  "runs_ok (db\<lparr>db_backends := bs, db_events := es\<rparr>) = runs_ok db"
  by (simp add: runs_ok_def versions_ok_def ids_ok_def)

lemma runs_ok_mappings:
  assumes "runs_ok db" and "db_ids_drawn db \<le> n"
  shows "runs_ok (db\<lparr>db_mappings := ms, db_ids_drawn := n\<rparr>)"
proof -
  have "db_ids db ` {..<db_ids_drawn db} \<subseteq> db_ids db ` {..<n}" using assms(2) by auto
  then have "A \<subseteq> db_ids db ` {..<n}" if "A \<subseteq> db_ids db ` {..<db_ids_drawn db}" for A using that by blast
  then show ?thesis using assms(1) by (simp add: runs_ok_def versions_ok_def ids_ok_def)
qed

lemma mapping_Create_Inr:
  assumes "mapping_Create now digest bid opts db = (Inr r, db')"
  shows "\<exists>b m. backend_FindByID db bid = Inr (Some b) \<and> check_mapping_scope opts b db = Inr () \<and>
    db' = db\<lparr>db_mappings := db_mappings db @ [m], db_ids_drawn := Suc (db_ids_drawn db)\<rparr> \<and>
    cm_digest m = digest \<and> cm_backend m = bid \<and> cm_org m = cb_org b \<and> cm_run m = Option.bind opts mpo_run \<and>
    cm_project m = Option.bind opts mpo_project \<and> cm_product m = Option.bind opts mpo_product"
proof -
  obtain b where b: "backend_FindByID db bid = Inr (Some b)" "check_mapping_scope opts b db = Inr ()"
    using assms by (auto simp: mapping_Create_def split: sum.splits option.splits)
  define m where "m = \<lparr>cm_id = db_ids db (db_ids_drawn db), cm_digest = digest, cm_backend = bid, cm_org = cb_org b,
    cm_run = Option.bind opts mpo_run, cm_project = Option.bind opts mpo_project, cm_product = Option.bind opts mpo_product, cm_created_at = now\<rparr>"
  have "db' = db\<lparr>db_mappings := db_mappings db @ [m], db_ids_drawn := Suc (db_ids_drawn db)\<rparr>"
    using assms b by (auto simp: mapping_Create_def draw_id_def m_def Let_def)
  moreover have "cm_digest m = digest" "cm_backend m = bid" "cm_org m = cb_org b" "cm_run m = Option.bind opts mpo_run"
      "cm_project m = Option.bind opts mpo_project" "cm_product m = Option.bind opts mpo_product" by (simp_all add: m_def)
  ultimately show ?thesis using b by blast
qed
lemma record_mappings_Inr:
  assumes "record_mappings sv now bid opts refs db = (Inr (), db')" and "sv_parse sv bid = Inr bid"
  shows "\<exists>ms n. db' = db\<lparr>db_mappings := db_mappings db @ ms, db_ids_drawn := n\<rparr> \<and> db_ids_drawn db \<le> n \<and>
    map cm_digest ms = map snd refs \<and>
    (\<forall>m\<in>set ms. cm_backend m = bid \<and> cm_run m = mpo_run opts \<and> cm_project m = mpo_project opts \<and> cm_product m = mpo_product opts)"
  using assms(1)
proof (induction refs arbitrary: db)
  case Nil
  then show ?case by (intro exI [of _ "[]"] exI [of _ "db_ids_drawn db"]) simp
next
  case (Cons ref refs)
  obtain name digest where ref: "ref = (name, digest)" by fastforce
  obtain r db1 where c: "mapping_Create now digest bid (Some opts) db = (Inr r, db1)" and rest: "record_mappings sv now bid opts refs db1 = (Inr (), db')"
    using Cons.prems assms(2) by (auto simp: ref uc_mapping_Create_def split: prod.splits sum.splits if_splits)
  obtain m where m: "db1 = db\<lparr>db_mappings := db_mappings db @ [m], db_ids_drawn := Suc (db_ids_drawn db)\<rparr>" "cm_digest m = digest"
      "cm_backend m = bid \<and> cm_run m = mpo_run opts \<and> cm_project m = mpo_project opts \<and> cm_product m = mpo_product opts"
    using mapping_Create_Inr [OF c] by auto
  obtain ms n where ms: "db' = db1\<lparr>db_mappings := db_mappings db1 @ ms, db_ids_drawn := n\<rparr>" "db_ids_drawn db1 \<le> n"
      "map cm_digest ms = map snd refs"
      "\<forall>m\<in>set ms. cm_backend m = bid \<and> cm_run m = mpo_run opts \<and> cm_project m = mpo_project opts \<and> cm_product m = mpo_product opts"
    using Cons.IH [OF rest] by blast
  have "db' = db\<lparr>db_mappings := db_mappings db @ (m # ms), db_ids_drawn := n\<rparr>" using ms(1) m(1) by simp
  then show ?case using ms(2-4) m ref by (intro exI [of _ "m # ms"] exI [of _ n]) simp
qed

lemma upload_and_save_Inr:
  assumes "upload_and_save sc sv su others b run bytes db = (Inr digest, db')"
  shows "SaveAttestation sv su others (sc_skip_db sc \<and> \<not> cb_inline b) (run_id run) bytes db = (Inr digest, db')"
  using assms by (auto simp: upload_and_save_def split: if_splits sum.splits)

lemma storeAttestation_Inr:
  assumes "storeAttestation sc sv su others bytes w run b version markAsReleased db = (Inr digest, db')"
  obtains e bs es db1 db2 db3 db4 db5 where
    "DSSEEnvelopeFromBundleBytes (ve_unmarshal (sv_verifier sv)) bytes = Inr e"
    "db1 = db\<lparr>db_backends := bs, db_events := es\<rparr>"
    "SaveAttestation sv su others (sc_skip_db sc \<and> \<not> cb_inline b) (run_id run) bytes db1 = (Inr digest, db2)"
    "ExtractAndPersist (sv_referrers sv) e digest (wfr_id w) db2 = (Inr (), db3)"
    "map_artifacts sv (sc_now sc) b w run e digest db3 = (Inr (), db4)"
    "release_version sv (sc_now sc) version markAsReleased db4 = (Inr (), db5)"
    "uc_MarkAsFinished (sv_parse sv) (sc_now sc) (run_id run) WorkflowRunSuccess [] db5 = (Inr (), db')"
proof -
  let ?v = "if \<not> cb_inline b \<and> cb_status b \<noteq> CASBackendValidationOK then PerformValidation (sc_backends sc) (cb_id b) db else (Inr (), db)"
  obtain e where e: "DSSEEnvelopeFromBundleBytes (ve_unmarshal (sv_verifier sv)) bytes = Inr e"
    using assms by (auto simp: storeAttestation_def split: sum.splits)
  obtain db1 where v: "?v = (Inr (), db1)"
    using assms e by (cases ?v; cases "fst ?v") (auto simp: storeAttestation_def)
  have "\<exists>bs es. db1 = db\<lparr>db_backends := bs, db_events := es\<rparr>"
  proof (cases "\<not> cb_inline b \<and> cb_status b \<noteq> CASBackendValidationOK")
    case True
    then show ?thesis using v by (auto elim!: PerformValidation_frame)
  next
    case False
    then have "db1 = db\<lparr>db_backends := db_backends db, db_events := db_events db\<rparr>" using v by auto
    then show ?thesis by blast
  qed
  then obtain bs es where db1: "db1 = db\<lparr>db_backends := bs, db_events := es\<rparr>" by blast
  obtain d db2 where s: "upload_and_save sc sv su others b run bytes db1 = (Inr d, db2)"
    using assms e v by (cases "upload_and_save sc sv su others b run bytes db1"; cases "fst (upload_and_save sc sv su others b run bytes db1)")
      (auto simp: storeAttestation_def)
  obtain db3 where x: "ExtractAndPersist (sv_referrers sv) e d (wfr_id w) db2 = (Inr (), db3)"
    using assms e v s by (auto simp: storeAttestation_def split: prod.splits sum.splits)
  obtain db4 where m: "map_artifacts sv (sc_now sc) b w run e d db3 = (Inr (), db4)"
    using assms e v s x by (auto simp: storeAttestation_def split: prod.splits sum.splits)
  show thesis using that [OF e db1, of db2 db3 db4] assms e v s x m upload_and_save_Inr [OF s]
    by (auto simp: storeAttestation_def split: prod.splits sum.splits)
qed

section \<open>Properties\<close>

text \<open>
  C6. Nobody stores or cancels an attestation out of reach. When a request to store or to cancel changes anything,
  the run is one of the caller's organization, a token or robot account bound to a workflow is bound to this one,
  and, where access is by resource, a confined token reaches the project of the workflow and a user has a role on
  it that grants the operation. For a project that has been deleted the live project of the same name counts instead,
  since the handlers look projects up by name.
\<close>

theorem attestations_guarded:
  assumes "svc_Store enforce sc sv su by_name others ctx bundle runID markAsReleased cache db = (r, db') \<and> p = PolicyWorkflowRunCreate \<or>
      svc_Cancel enforce sc sv by_name ctx runID trigger reason cache db = (r', db') \<and> p = PolicyWorkflowRunUpdate"
    and "db' \<noteq> db" and "projects_ok db"
  shows "\<exists>rq rid run w. ctx = Some rq \<and> sv_parse sv runID = Inr rid \<and> run_FindByID db rid = Some run \<and> workflow_of db run = Some w \<and>
    may_act enforce (sv_parse sv) rq p db w"
proof -
  obtain rq w where "ctx = Some rq" "locate_run enforce sv by_name rq p runID cache db = Inr w"
    using assms(1)
  proof (elim disjE conjE)
    assume "svc_Store enforce sc sv su by_name others ctx bundle runID markAsReleased cache db = (r, db')" "p = PolicyWorkflowRunCreate"
    then show thesis using that assms(2)
      by (cases "locate_run enforce sv by_name (the ctx) p runID cache db")
        (auto simp: svc_Store_def split: option.splits)
  next
    assume "svc_Cancel enforce sc sv by_name ctx runID trigger reason cache db = (r', db')" "p = PolicyWorkflowRunUpdate"
    then show thesis using that assms(2)
      by (cases "locate_run enforce sv by_name (the ctx) p runID cache db")
        (auto simp: svc_Cancel_def split: option.splits)
  qed
  then show ?thesis using locate_run_Inr [OF _ assms(3)] by blast
qed

lemma truncate_fields:
  assumes "cp_db.truncate db' = cp_db.truncate db"
  shows "db_runs db' = db_runs db" "db_bundles db' = db_bundles db" "db_versions db' = db_versions db" "db_mappings db' = db_mappings db"
    "runs_ok db' = runs_ok db" "db_orgs db' = db_orgs db" "db_workflows db' = db_workflows db"
  using assms by (simp_all add: cp_db.truncate_def runs_ok_def versions_ok_def ids_ok_def)

lemma map_artifacts_Inr:
  assumes "map_artifacts sv now b w run e digest db = (Inr (), db')" and "sv_parse sv (cb_id b) = Inr (cb_id b)"
  obtains ms n where "db' = db\<lparr>db_mappings := db_mappings db @ ms, db_ids_drawn := n\<rparr>" "db_ids_drawn db \<le> n"
    "\<not> cb_inline b \<longrightarrow> (\<exists>refs. LookupDigestsInAttestation (sv_referrers sv) e digest = Inr refs \<and> map cm_digest ms = map snd refs)"
    "\<forall>m\<in>set ms. cm_backend m = cb_id b \<and> cm_run m = Some (run_id run) \<and> cm_project m = Some (wfr_project w)"
proof (cases "cb_inline b")
  case True
  then have "db' = db\<lparr>db_mappings := db_mappings db @ [], db_ids_drawn := db_ids_drawn db\<rparr>" using assms(1) by (simp add: map_artifacts_def)
  then show thesis by (rule that) (use True in simp_all)
next
  case False
  then obtain refs where "LookupDigestsInAttestation (sv_referrers sv) e digest = Inr refs"
      "record_mappings sv now (cb_id b) \<lparr>mpo_run = Some (run_id run), mpo_project = Some (wfr_project w), mpo_product = None\<rparr> refs db = (Inr (), db')"
    using assms(1) by (auto simp: map_artifacts_def split: sum.splits)
  then show thesis using record_mappings_Inr [OF _ assms(2)] that False by fastforce
qed

lemma release_version_Inr:
  assumes "release_version sv now version mark db = (Inr (), db')" and "runs_ok db"
    and "\<And>v. version = Some v \<Longrightarrow> sv_parse sv (vr_id v) = Inr (vr_id v)"
  shows "runs_ok db' \<and> (\<exists>vs. db' = db\<lparr>db_versions := vs\<rparr>) \<and>
    (mark = Some True \<longrightarrow> (\<exists>v. version = Some v \<and> (\<exists>v'\<in>set (db_versions db'). vr_id v' = vr_id v \<and> \<not> vr_prerelease v')))"
proof (cases "mark = Some True")
  case False
  then have "db' = db" using assms(1) by (simp add: release_version_def)
  then show ?thesis using assms(2) False by (auto intro: exI [of _ "db_versions db"])
next
  case True
  then obtain v where v: "version = Some v" using assms(1) by (auto simp: release_version_def split: option.splits)
  then obtain v' where up: "version_Update now (vr_id v) (Some False) db = (Inr v', db')"
    using assms(1,3) True by (auto simp: release_version_def UpdateReleaseStatus_def split: prod.splits sum.splits)
  have "versions_ok db" using assms(2) by (simp add: runs_ok_def)
  then have "v' \<in> set (db_versions db')" "\<exists>w. vr_id w = vr_id v \<and> v' = released now (Some False) w" "\<exists>vs. db' = db\<lparr>db_versions := vs\<rparr>"
    using version_Update_ok [OF _ up] by auto
  moreover from this(2) have "vr_id v' = vr_id v" "\<not> vr_prerelease v'" by (auto simp: released_def)
  moreover have "runs_ok db'" by (rule version_Update_runs_ok [OF assms(2) up])
  ultimately show ?thesis using v by blast
qed

text \<open>The materials with a digest are linked with the attestation; the artifacts are mapped to a backend, run and project.\<close>

definition materials_indexed :: "ref_db \<Rightarrow> normalized_material list \<Rightarrow> string \<Rightarrow> uuid \<Rightarrow> bool" where
  "materials_indexed db ms digest wid \<longleftrightarrow> (\<forall>x\<in>set ms. \<forall>h. nmt_hash x = Some h \<longrightarrow>
     (\<exists>a i. stored_as db digest ReferrerAttestationType a \<and> stored_as db (''sha256:'' @ h) (nmt_type x) i \<and>
        (i, wid) \<in> set (db_ref_workflows db) \<and> (i = a \<or> (a, i) \<in> set (db_references db) \<and> (i, a) \<in> set (db_references db))))"

definition artifacts_mapped :: "'key storage_env \<Rightarrow> 'a cp_db_scheme \<Rightarrow> dsse_envelope \<Rightarrow> string \<Rightarrow> uuid \<Rightarrow> uuid \<Rightarrow> uuid \<Rightarrow> bool" where
  "artifacts_mapped sv db e digest bid rid pid \<longleftrightarrow> (\<exists>refs. LookupDigestsInAttestation (sv_referrers sv) e digest = Inr refs \<and>
     (\<forall>d\<in>snd ` set refs. \<exists>m\<in>set (db_mappings db). cm_digest m = d \<and> cm_backend m = bid \<and> cm_run m = Some rid \<and> cm_project m = Some pid))"

lemma svc_Store_Inr:
  assumes "svc_Store enforce sc sv su by_name others (Some rq) (Some bytes) runID markAsReleased cache db = (Inr digest, db')"
  obtains oid w run b where "sv_parse sv (rq_org rq) = Inr oid" "sv_parse sv runID = Inr (run_id run)" "FindByIDInOrg db oid (run_id run) = Inr run"
    "b \<in> set (db_backends db)" "storeAttestation sc sv su others bytes w run b (version_of db run) markAsReleased db = (Inr digest, db')"
proof -
  let ?found = "bind_res (locate_run enforce sv by_name rq PolicyWorkflowRunCreate runID cache db) (\<lambda>w.
      bind_res (map_err handleUseCaseErr (fst (GetByIDInOrg sv db (rq_org rq) runID cache))) (\<lambda>ar.
      case run_cas_backends db (atr_run ar) of
        [] \<Rightarrow> Inl (NotFoundErr (Errorf ''workflow run has no CAS backend'' []))
      | b # _ \<Rightarrow> Inr (w, atr_run ar, b)))"
  obtain w run b where found: "?found = Inr (w, run, b)"
      and store: "storeAttestation sc sv su others bytes w run b (version_of db run) markAsReleased db = (Inr digest, db')"
    using assms by (cases ?found) (auto simp: svc_Store_def split: prod.splits sum.splits)
  obtain ar bs where ar: "fst (GetByIDInOrg sv db (rq_org rq) runID cache) = Inr ar" "atr_run ar = run" "run_cas_backends db run = b # bs"
    using found by (auto simp: bind_res_eq_Inr neq_Nil_conv split: list.split_asm)
  obtain oid rid where p: "sv_parse sv (rq_org rq) = Inr oid" "sv_parse sv runID = Inr rid" "FindByIDInOrg db oid rid = Inr run"
    using ar(1,2) by (auto simp: GetByIDInOrg_def bind_res_eq_Inr split: sum.splits prod.splits dest: addAttestation_run)
  have "run_id run = rid" using p(3) by (auto simp: FindByIDInOrg_def run_FindByID_def dest: find_SomeD split: option.splits if_splits)
  moreover have "set (run_cas_backends db run) \<subseteq> set (db_backends db)"
    by (auto simp: run_cas_backends_def List.map_filter_def dest: find_SomeD)
  ultimately show thesis using that [OF p(1) _ _ _ store] p ar(3) by simp
qed

lemma store_effects:
  assumes "runs_ok db" and "index_ok db" and others: "\<And>d. cp_steps d (others d)"
    and ids: "sv_parse sv (run_id run) = Inr (run_id run)" "sv_parse sv (cb_id b) = Inr (cb_id b)"
      "\<And>v. version = Some v \<Longrightarrow> sv_parse sv (vr_id v) = Inr (vr_id v)"
    and store: "storeAttestation sc sv su others bytes w run b version markAsReleased db = (Inr digest, db')"
  obtains e xp r0 r db2 db3 where
    "decode_bundle sv bytes = Inr (e, xp)" "digest = sv_sha256 sv bytes" "index_ok db2"
    "ExtractAndPersist (sv_referrers sv) e digest (wfr_id w) db2 = (Inr (), db3)" "cp_db.more db' = cp_db.more db3"
    "run_FindByID db (run_id run) = Some r0" "run_FindByID db' (run_id run) = Some r" "same_run r0 r" "run_state r = WorkflowRunSuccess"
    "run_digest r = digest" "sc_skip_db sc \<and> \<not> cb_inline b \<or> GetBundle db' (run_id run) = Inr bytes"
    "\<not> cb_inline b \<longrightarrow> artifacts_mapped sv db' e digest (cb_id b) (run_id run) (wfr_project w)"
    "markAsReleased = Some True \<longrightarrow> (\<exists>v. version = Some v \<and> (\<exists>v'\<in>set (db_versions db'). vr_id v' = vr_id v \<and> \<not> vr_prerelease v'))"
    "runs_ok db'" "db_orgs db' = db_orgs db" "list_all2 same_workflow (db_workflows db) (db_workflows db')"
  using store
proof (cases rule: storeAttestation_Inr)
  case (1 e bs es db1 db2 db3 db4 db5)
  have ok1: "runs_ok db1" "index_ok db1" using 1(2) assms(1,2) index_ok_more [of db1 db] by simp_all
  obtain e' xp r0 r where r: "run_FindByID db2 (run_id run) = Some r" "run_digest r = digest" "digest = sv_sha256 sv bytes" "runs_ok db2"
      "sc_skip_db sc \<and> \<not> cb_inline b \<or> map_of (db_bundles db2) (run_id run) = Some bytes" "decode_bundle sv bytes = Inr (e', xp)"
      "run_FindByID db1 (run_id run) = Some r0" "same_run r0 r" "later db1 db2"
    using saved_run [OF ok1(1) others 1(3)] ids(1) by (metis Inr_inject)
  then have e': "e' = e" using 1(1) by (auto simp: decode_bundle_def bind_res_eq_Inr)
  have "cp_db.more db2 = cp_db.more db1"
    using SaveAttestation_steps [OF 1(3)] cp_steps_more others by (metis rtranclp_trans)
  then have ix2: "index_ok db2" using ok1(2) index_ok_more by blast
  have "cp_db.truncate db3 = cp_db.truncate db2"
    using ExtractAndPersist_index_ok [OF ix2 1(4)] by (simp add: Referrer_Index.extends_def)
  note f3 = truncate_fields [OF this]
  obtain ms n where ms: "db4 = db3\<lparr>db_mappings := db_mappings db3 @ ms, db_ids_drawn := n\<rparr>" "db_ids_drawn db3 \<le> n"
      "\<not> cb_inline b \<longrightarrow> (\<exists>refs. LookupDigestsInAttestation (sv_referrers sv) e digest = Inr refs \<and> map cm_digest ms = map snd refs)"
      "\<forall>m\<in>set ms. cm_backend m = cb_id b \<and> cm_run m = Some (run_id run) \<and> cm_project m = Some (wfr_project w)"
    using map_artifacts_Inr [OF 1(5) ids(2)] .
  have ok4: "runs_ok db4" using runs_ok_mappings [OF _ ms(2)] ms(1) f3(5) r(4) by simp
  obtain vs where five: "runs_ok db5" "db5 = db4\<lparr>db_versions := vs\<rparr>"
      "markAsReleased = Some True \<longrightarrow> (\<exists>v. version = Some v \<and> (\<exists>v'\<in>set (db_versions db5). vr_id v' = vr_id v \<and> \<not> vr_prerelease v'))"
    using release_version_Inr [OF 1(6) ok4 ids(3)] by blast
  obtain f where f: "update_run (run_id run) f (Errorf ''failed to find workflow run: %w'' []) db5 = (Inr (), db')"
      "\<And>r. same_run r (f r) \<and> run_state (f r) = WorkflowRunSuccess \<and> run_digest (f r) = run_digest r"
    using 1(7) ids(1) by (auto simp: uc_MarkAsFinished_def MarkAsFinished_def same_run_def)
  obtain rs where "db' = db5\<lparr>db_runs := rs\<rparr>" using f(1) by (auto simp: update_run_def split: if_splits)
  then have six: "db' = db3\<lparr>db_mappings := db_mappings db3 @ ms, db_ids_drawn := n, db_versions := vs, db_runs := rs\<rparr>"
    using five(2) ms(1) by simp
  have "run_FindByID db5 (run_id run) = Some r" using r(1) f3(1) five(2) ms(1) by (simp add: run_FindByID_def)
  then have row: "run_FindByID db' (run_id run) = Some (f r)" using update_run_found [OF f(1)] f(2) by (auto simp: same_run_def)
  have "artifacts_mapped sv db' e digest (cb_id b) (run_id run) (wfr_project w)" if "\<not> cb_inline b"
  proof -
    obtain refs where refs: "LookupDigestsInAttestation (sv_referrers sv) e digest = Inr refs" "map cm_digest ms = map snd refs"
      using ms(3) \<open>\<not> cb_inline b\<close> by blast
    then have digests: "snd ` set refs = cm_digest ` set ms" by (metis list.set_map)
    show ?thesis unfolding artifacts_mapped_def by (rule exI [of _ refs], unfold digests) (use refs(1) ms(4) six in auto)
  qed
  moreover have "runs_ok db'" by (rule update_run_ok [OF five(1) f(1)]) (use f(2) in blast)
  moreover have "sc_skip_db sc \<and> \<not> cb_inline b \<or> GetBundle db' (run_id run) = Inr bytes" using r(5) f3(2) six by (auto simp: GetBundle_def)
  moreover have "same_run r0 (f r)" "run_FindByID db (run_id run) = Some r0"
    using r(7,8) f(2) [of r] 1(2) same_transs(1) by (blast, simp add: run_FindByID_def)
  moreover have "db_orgs db' = db_orgs db" "list_all2 same_workflow (db_workflows db) (db_workflows db')" "cp_db.more db' = cp_db.more db3"
    using six f3 r(9) 1(2) by (simp_all add: later_def)
  ultimately show thesis using that 1(4) e' ix2 row r(2,3,6) f(2) [of r] five(3) six five(2) ms(1) by simp
qed

text \<open>
  C4. An attestation that is received leaves the control plane in order, whatever other requests do between the checks
  and the storage: the run has succeeded with the digest of the bundle, the bundle is in the database unless it
  is kept in the artifact store only; every material with a digest is linked with the attestation in the
  referrer index, under the workflow; every artifact of the attestation is mapped to the backend of the run, its run
  and its project; the version is released when that was asked for; and the tables and the index stay consistent.
\<close>

theorem attestation_received:
  assumes "runs_ok db" and "index_ok db" and others: "\<And>d. cp_steps d (others d)"
    and ids: "sv_parse sv (run_id run) = Inr (run_id run)" "sv_parse sv (cb_id b) = Inr (cb_id b)"
      "rfe_parse_uuid (sv_referrers sv) (wfr_id w) = Inr (wfr_id w)" "\<And>v. version = Some v \<Longrightarrow> sv_parse sv (vr_id v) = Inr (vr_id v)"
    and kinds: "\<And>e xp. decode_bundle sv bytes = Inr (e, xp) \<Longrightarrow>
      list_all (\<lambda>x. plain_kind (nmt_type x)) (GetMaterials (sv_referrers sv) (xp_predicate xp))"
    and store: "storeAttestation sc sv su others bytes w run b version markAsReleased db = (Inr digest, db')"
  shows "runs_ok db' \<and> index_ok db' \<and> (\<exists>r e xp. run_FindByID db' (run_id run) = Some r \<and> run_state r = WorkflowRunSuccess \<and>
    digest = sv_sha256 sv bytes \<and> run_digest r = digest \<and>
    (sc_skip_db sc \<and> \<not> cb_inline b \<or> GetBundle db' (run_id run) = Inr bytes) \<and> decode_bundle sv bytes = Inr (e, xp) \<and>
    materials_indexed db' (GetMaterials (sv_referrers sv) (xp_predicate xp)) digest (wfr_id w) \<and>
    (\<not> cb_inline b \<longrightarrow> artifacts_mapped sv db' e digest (cb_id b) (run_id run) (wfr_project w)) \<and>
    (markAsReleased = Some True \<longrightarrow> (\<exists>v. version = Some v \<and> (\<exists>v'\<in>set (db_versions db'). vr_id v' = vr_id v \<and> \<not> vr_prerelease v'))))"
proof -
  obtain e xp r0 r db2 db3 where s: "decode_bundle sv bytes = Inr (e, xp)" "index_ok db2"
      "ExtractAndPersist (sv_referrers sv) e digest (wfr_id w) db2 = (Inr (), db3)" "cp_db.more db' = cp_db.more db3"
    and row: "run_FindByID db' (run_id run) = Some r" "run_state r = WorkflowRunSuccess" "run_digest r = digest" "digest = sv_sha256 sv bytes"
      "sc_skip_db sc \<and> \<not> cb_inline b \<or> GetBundle db' (run_id run) = Inr bytes"
      "\<not> cb_inline b \<longrightarrow> artifacts_mapped sv db' e digest (cb_id b) (run_id run) (wfr_project w)"
      "markAsReleased = Some True \<longrightarrow> (\<exists>v. version = Some v \<and> (\<exists>v'\<in>set (db_versions db'). vr_id v' = vr_id v \<and> \<not> vr_prerelease v'))"
      "runs_ok db'"
    using store_effects [OF assms(1,2) others ids(1,2,4) store] by metis
  have xp: "rfe_extract_predicate (sv_referrers sv) e = Inr xp" using s(1) by (auto simp: decode_bundle_def bind_res_eq_Inr)
  have "materials_indexed db' (GetMaterials (sv_referrers sv) (xp_predicate xp)) digest (wfr_id w)"
    unfolding materials_indexed_def stored_as_more [OF s(4)] same_more [OF s(4)]
    using materials_linked [OF s(2,3) xp ids(3) kinds [OF s(1)]] by blast
  moreover have "index_ok db'" using index_ok_more [OF s(4)] ExtractAndPersist_index_ok [OF s(2,3)] by blast
  ultimately show ?thesis using row s(1) by blast
qed

end
