(* ===== verification/Storage_Examples.thy ===== *)
theory Storage_Examples
  imports Control_Plane_Examples Attestation_Service
begin

text \<open>
  One attestation on its way through the control plane: the database of \<open>Control_Plane_Examples\<close> with a contract
  and a backend for the run, an instance with one certificate authority, a signed bundle, and a member of the
  organization who sends it.
\<close>

section \<open>The instance\<close>

definition demo_ca :: certificate where
  "demo_ca = \<lparr>crt_orgs = [''ca''], crt_aki = ''root'', crt_name = ''ca'', crt_serial = 1, crt_issuer = ''ca'', crt_not_before = 0, crt_not_after = 9\<rparr>"

definition demo_cert :: certificate where
  "demo_cert = \<lparr>crt_orgs = [''o''], crt_aki = ''ca'', crt_name = ''signer'', crt_serial = 2, crt_issuer = ''ca'', crt_not_before = 0, crt_not_after = 9\<rparr>"

definition demo_bundle :: sig_bundle where
  "demo_bundle = \<lparr>bn_payload_type = ''application/vnd.in-toto+json'', bn_payload = ''statement'',
     bn_signatures = [\<lparr>sgn_sig = ''sig'', sgn_keyid = []\<rparr>], bn_content = ContentCertificate demo_cert, bn_timestamps = TimestampsMissing\<rparr>"

definition demo_verifier :: "unit verifier_env" where
  "demo_verifier = \<lparr>ve_unmarshal = (\<lambda>_. Inr demo_bundle), ve_chain = (\<lambda>_ _. Inr ()), ve_verify_dsse = (\<lambda>_ _. Inr ()),
     ve_tsr_signers = (\<lambda>_. None), ve_verify_tsr = (\<lambda>_ _ _ _ _. Inr 0), ve_valid_at = (\<lambda>_ _. True)\<rparr>"

definition demo_sv :: "unit storage_env" where
  "demo_sv = \<lparr>sv_parse = Inr, sv_new_hash = (\<lambda>_. Inr ()), sv_sha256 = (\<lambda>b. ''sha256:'' @ b), sv_verifier = demo_verifier,
     sv_key_id = crt_name, sv_to_pem = (\<lambda>c. Inr (crt_name c)), sv_from_pem = (\<lambda>_. Inr [demo_ca]), sv_referrers = demo_re,
     sv_download = None, sv_scan = (\<lambda>ms. ms)\<rparr>"

definition demo_su :: signing_uc where
  "demo_su = \<lparr>sgu_cas = Some [Inr [demo_ca]], sgu_tsas = [], sgu_force = True\<rparr>"

lemma demo_foreign: "foreign_errors (sv_verifier demo_sv)"
  by (simp add: foreign_errors_def demo_sv_def demo_verifier_def demo_bundle_def)

definition demo_schema :: crafting_schema where
  "demo_schema = \<lparr>ss_materials = [\<lparr>sm_type = ARTIFACT, sm_name = ''app'', sm_optional = False, sm_output = False, sm_annotations = [],
      sm_skip_upload = False, sm_group = []\<rparr>], ss_env_allow_list = [], ss_runner = None, ss_policies = None, ss_policy_groups = [],
     ss_annotations = [], ss_schema_version = ''v1''\<rparr>"

definition demo_runs :: ref_db where
  "demo_runs = demo_refs\<lparr>db_contracts := [(''c'', Some demo_schema)],
     db_runs := [demo_run ''ixx'' ''i'' 1\<lparr>run_backends := [''ixxxx'']\<rparr>, demo_run ''ixxx'' ''i'' 2]\<rparr>"

lemma demo_runs_consistent: "runs_ok demo_runs" "index_ok demo_runs"
proof -
  show "runs_ok demo_runs" using demo_ids
    by (simp add: runs_ok_def versions_ok_def ids_ok_def one_latest_def names_unique_def workflows_ok_def versions_counted_def run_placed_def
        bundles_ok_def runs_of_def last_id_def demo_runs_def demo_refs_def cp_db.extend_def demo_db_def demo_version_def demo_run_def inj_demo_id)
  have "cp_db.more demo_runs = cp_db.more demo_refs" by (simp add: demo_runs_def)
  then show "index_ok demo_runs" using demo_refs_ok index_ok_more by blast
qed

section \<open>Storing and reading\<close>

lemma demo_saved: "fst (SaveAttestation demo_sv demo_su (\<lambda>db. db) False ''ixx'' ''bb'' demo_runs) = Inr ''sha256:bb''"
  by code_simp

theorem attestation_stored_witness:
  "\<exists>db' r w tr. SaveAttestation demo_sv demo_su (\<lambda>db. db) False ''ixx'' ''bb'' demo_runs = (Inr ''sha256:bb'', db') \<and>
     run_FindByID db' ''ixx'' = Some r \<and> run_digest r = ''sha256:bb'' \<and> GetBundle db' ''ixx'' = Inr ''bb'' \<and>
     workflow_of db' r = Some w \<and> verifier_roots demo_sv demo_su = Inr tr \<and> signed_by_org demo_verifier tr ''bb'' (wfr_org w)"
proof -
  let ?db = "snd (SaveAttestation demo_sv demo_su (\<lambda>db. db) False ''ixx'' ''bb'' demo_runs)"
  have run: "SaveAttestation demo_sv demo_su (\<lambda>db. db) False ''ixx'' ''bb'' demo_runs = (Inr ''sha256:bb'', ?db)"
    using demo_saved by (metis prod.collapse)
  have env: "KeylessEnabled demo_su" "sgu_force demo_su" "sv_parse demo_sv ''ixx'' = Inr ''ixx''" "sv_verifier demo_sv = demo_verifier"
    by (simp_all add: KeylessEnabled_def demo_su_def demo_sv_def)
  show ?thesis using attestation_stored [OF demo_foreign demo_runs_consistent(1) rtranclp.rtrancl_refl run] env run by fastforce
qed

theorem trusted_root_roundtrip_witness:
  "\<exists>tr. verifier_roots demo_sv demo_su = Inr tr \<and> gm_list (tr_keys tr) ''ca'' = [demo_ca]"
proof -
  have "sgu_cas demo_su = Some (map Inr [[demo_ca]])" "list_all (list_all (pem_good demo_sv)) ([[demo_ca]] @ sgu_tsas demo_su)"
    by (simp_all add: demo_su_def pem_good_def demo_sv_def)
  moreover have "chains_for demo_sv ''ca'' [[demo_ca]] = [demo_ca]" by code_simp
  ultimately show ?thesis using trusted_root_roundtrip [of demo_su "[[demo_ca]]" demo_sv] by metis
qed

text \<open>The run, finished, with its bundle.\<close>

definition demo_finished :: ref_db where
  "demo_finished = demo_runs\<lparr>db_runs := [demo_run ''ixx'' ''i'' 1\<lparr>run_backends := [''ixxxx''], run_state := WorkflowRunSuccess, run_digest := ''sha256:bb''\<rparr>,
      demo_run ''ixxx'' ''i'' 2], db_bundles := [(''ixx'', ''bb'')]\<rparr>"

lemma demo_bundle_integrity:
  "\<exists>ar cache'. GetByDigestInOrg demo_sv demo_finished ''o'' ''sha256:bb'' (Some []) = (Inr ar, cache') \<and> atr_bundle ar = ''bb'' \<and>
     sv_sha256 demo_sv (atr_bundle ar) = run_digest (atr_run ar) \<and> cache_sound demo_sv cache'"
proof -
  let ?get = "GetByDigestInOrg demo_sv demo_finished ''o'' ''sha256:bb'' (Some [])"
  have "(case fst ?get of Inr ar \<Rightarrow> atr_bundle ar = ''bb'' | Inl _ \<Rightarrow> False)" by code_simp
  then obtain ar cache' where got: "?get = (Inr ar, cache')" "atr_bundle ar = ''bb''" by (cases ?get) (auto split: sum.splits)
  have "runs_ok demo_finished" using demo_ids
    by (simp add: runs_ok_def versions_ok_def ids_ok_def one_latest_def names_unique_def workflows_ok_def versions_counted_def run_placed_def
        bundles_ok_def runs_of_def last_id_def demo_finished_def demo_runs_def demo_refs_def cp_db.extend_def demo_db_def demo_version_def
        demo_run_def inj_demo_id)
  moreover have "bundles_match demo_sv demo_finished"
    by (auto simp: bundles_match_def demo_finished_def demo_sv_def run_FindByID_def demo_run_def split: if_splits)
  moreover have "cache_sound demo_sv (Some [])" "store_honest demo_sv" by (simp_all add: cache_sound_def store_honest_def demo_sv_def)
  ultimately show ?thesis using bundle_integrity [OF _ _ _ _ disjI2 [OF got(1)]] got by fastforce
qed

theorem read_run_verified_witness:
  "\<exists>ar cache' res tr. GetByDigestInOrg demo_sv demo_finished ''o'' ''sha256:bb'' (Some []) = (Inr ar, cache') \<and> VerifyRun demo_sv demo_su ar = Inr (Some res) \<and>
     vfr_result res \<and> verifier_roots demo_sv demo_su = Inr tr \<and> signed_by_org (sv_verifier demo_sv) tr (atr_bundle ar) []"
proof -
  let ?get = "GetByDigestInOrg demo_sv demo_finished ''o'' ''sha256:bb'' (Some [])"
  have "(case fst ?get of Inr ar \<Rightarrow> (case VerifyRun demo_sv demo_su ar of Inr (Some res) \<Rightarrow> vfr_result res | _ \<Rightarrow> False) | Inl _ \<Rightarrow> False)" by code_simp
  then obtain ar cache' res where got: "?get = (Inr ar, cache')" "VerifyRun demo_sv demo_su ar = Inr (Some res)" "vfr_result res"
    by (cases ?get) (auto split: sum.splits option.splits)
  have "KeylessEnabled demo_su" by (simp add: KeylessEnabled_def demo_su_def)
  from read_run_verified [OF demo_foreign disjI2 [OF got(1)] this got(2)] got show ?thesis by blast
qed

text \<open>Without the bundle in the database, the digest of an attested run is simply replaced.\<close>

lemma digest_overwritten:
  "fst (SaveAttestation demo_sv demo_su (\<lambda>db. db) True ''ixx'' ''cc'' demo_finished) = Inr ''sha256:cc'' \<and>
   GetBundle (snd (SaveAttestation demo_sv demo_su (\<lambda>db. db) True ''ixx'' ''cc'' demo_finished)) ''ixx'' = Inr ''bb'' \<and>
   \<not> bundles_match demo_sv (snd (SaveAttestation demo_sv demo_su (\<lambda>db. db) True ''ixx'' ''cc'' demo_finished))"
proof -
  let ?db = "snd (SaveAttestation demo_sv demo_su (\<lambda>db. db) True ''ixx'' ''cc'' demo_finished)"
  have a: "fst (SaveAttestation demo_sv demo_su (\<lambda>db. db) True ''ixx'' ''cc'' demo_finished) = Inr ''sha256:cc''" by code_simp
  have b: "map_of (db_bundles ?db) ''ixx'' = Some ''bb''" by code_simp
  have "map_option run_digest (run_FindByID ?db ''ixx'') = Some ''sha256:cc''" by code_simp
  then obtain r where "run_FindByID ?db ''ixx'' = Some r" "run_digest r = ''sha256:cc''" by auto
  moreover have "sv_sha256 demo_sv ''bb'' \<noteq> ''sha256:cc''" by code_simp
  ultimately have "\<not> bundles_match demo_sv ?db" using b unfolding bundles_match_def by metis
  then show ?thesis using a b by (simp add: GetBundle_def)
qed

section \<open>The service\<close>

definition demo_sc :: service_env where
  "demo_sc = \<lparr>sc_skip_db = False, sc_upload = (\<lambda>_ _ _. Inr ()),
     sc_backends = \<lparr>be_parse = Inr, be_dns1123 = (\<lambda>_. Inr ()), be_save = (\<lambda>_ _ _. Inr []), be_read = Inr, be_marshal = Inr,
       be_providers = (\<lambda>_. None), be_max_bytes_default = 0\<rparr>, sc_now = 5\<rparr>"

definition demo_rq :: request_ctx where
  "demo_rq = \<lparr>rq_org = ''o'', rq_robot_workflow = [], rq_token = None, rq_subject = RoleOrgMember,
     rq_resources = [(ResourceTypeProject, ''p'', RoleProjectAdmin)]\<rparr>"

theorem attestations_guarded_witness:
  "\<exists>db' run w. svc_Store by_role demo_sc demo_sv demo_su (\<lambda>_ _ _. Inl (go_panic [])) (\<lambda>db. db) (Some demo_rq) (Some ''bb'') ''ixx'' None None demo_runs =
     (Inr ''sha256:bb'', db') \<and> run_FindByID demo_runs ''ixx'' = Some run \<and> workflow_of demo_runs run = Some w \<and>
     may_act by_role Inr demo_rq PolicyWorkflowRunCreate demo_runs w \<and> rbacEnabled demo_rq"
proof -
  let ?st = "svc_Store by_role demo_sc demo_sv demo_su (\<lambda>_ _ _. Inl (go_panic [])) (\<lambda>db. db) (Some demo_rq) (Some ''bb'') ''ixx'' None None demo_runs"
  have res: "fst ?st = Inr ''sha256:bb''" by code_simp
  have "map run_state (db_runs (snd ?st)) \<noteq> map run_state (db_runs demo_runs)" by code_simp
  then have "snd ?st \<noteq> demo_runs" by metis
  moreover have "rbacEnabled demo_rq" by code_simp
  moreover have "sv_parse demo_sv = Inr" by (simp add: demo_sv_def)
  moreover have "projects_ok demo_runs" by (simp add: projects_ok_def demo_runs_def demo_refs_def cp_db.extend_def demo_db_def)
  ultimately show ?thesis
    using attestations_guarded [OF disjI1 [OF conjI [OF prod.collapse [symmetric] refl]], of by_role demo_sc demo_sv demo_su
        "\<lambda>_ _ _. Inl (go_panic [])" "\<lambda>db. db" "Some demo_rq" "Some ''bb''" "''ixx''" None None demo_runs] res
    by (metis Inr_inject option.inject prod.collapse)
qed

theorem attestation_received_witness:
  "\<exists>db' r a i. storeAttestation demo_sc demo_sv demo_su (\<lambda>db. db) ''bb'' (hd (db_workflows demo_runs)) (hd (db_runs demo_runs))
       (hd (db_backends demo_runs)) (Some (hd (db_versions demo_runs))) (Some True) demo_runs = (Inr ''sha256:bb'', db') \<and>
     run_FindByID db' ''ixx'' = Some r \<and> run_state r = WorkflowRunSuccess \<and> index_ok db' \<and>
     stored_as db' ''sha256:bb'' ReferrerAttestationType a \<and> stored_as db' ''sha256:aa'' ''ARTIFACT'' i"
proof -
  let ?w = "hd (db_workflows demo_runs)" and ?run = "hd (db_runs demo_runs)" and ?b = "hd (db_backends demo_runs)" and ?v = "Some (hd (db_versions demo_runs))"
  let ?st = "storeAttestation demo_sc demo_sv demo_su (\<lambda>db. db) ''bb'' ?w ?run ?b ?v (Some True) demo_runs"
  define db' where "db' = snd ?st"
  have "fst ?st = Inr ''sha256:bb''" by code_simp
  then have st: "?st = (Inr ''sha256:bb'', db')" unfolding db'_def by (metis prod.collapse)
  let ?ms = "GetMaterials demo_re (xp_predicate demo_predicate)"
  have ms: "list_all (\<lambda>x. plain_kind (nmt_type x)) ?ms" "length ?ms = 1" "nmt_hash (hd ?ms) = Some ''aa''" "nmt_type (hd ?ms) = ''ARTIFACT''"
    unfolding plain_kind_def by code_simp+
  have env: "sv_parse demo_sv = Inr" "rfe_parse_uuid (sv_referrers demo_sv) = Inr" "sv_referrers demo_sv = demo_re"
      "run_id ?run = ''ixx''" by (simp_all add: demo_sv_def demo_re_def demo_runs_def demo_run_def)
  have pred: "xp = demo_predicate" if "decode_bundle demo_sv ''bb'' = Inr (e, xp)" for e xp
    using that by (auto simp: decode_bundle_def bind_res_eq_Inr env demo_re_def)
  have kinds: "list_all (\<lambda>x. plain_kind (nmt_type x)) (GetMaterials (sv_referrers demo_sv) (xp_predicate xp))"
    if "decode_bundle demo_sv ''bb'' = Inr (e, xp)" for e xp using pred [OF that] ms(1) env(3) by simp
  have mem: "hd ?ms \<in> set ?ms" using ms(2) by (intro hd_in_set) auto
  have p: "sv_parse demo_sv x = Inr x" "rfe_parse_uuid (sv_referrers demo_sv) x = Inr x" for x by (simp_all add: env demo_re_def)
  have all: "index_ok db' \<and> (\<exists>r e xp. run_FindByID db' ''ixx'' = Some r \<and> run_state r = WorkflowRunSuccess \<and>
      decode_bundle demo_sv ''bb'' = Inr (e, xp) \<and> materials_indexed db' (GetMaterials demo_re (xp_predicate xp)) ''sha256:bb'' (wfr_id ?w))"
    using attestation_received [OF demo_runs_consistent rtranclp.rtrancl_refl p(1) p(1) p(2) p(1) _ st] kinds unfolding env(3,4) by blast
  then obtain r e xp where r: "run_FindByID db' ''ixx'' = Some r" "run_state r = WorkflowRunSuccess" "decode_bundle demo_sv ''bb'' = Inr (e, xp)"
      and links: "materials_indexed db' (GetMaterials demo_re (xp_predicate xp)) ''sha256:bb'' (wfr_id ?w)"
    by blast
  have "hd ?ms \<in> set (GetMaterials demo_re (xp_predicate xp))" using mem pred [OF r(3)] by simp
  then obtain a i where "stored_as db' ''sha256:bb'' ReferrerAttestationType a" "stored_as db' (''sha256:'' @ ''aa'') ''ARTIFACT'' i"
    using links ms(3,4) unfolding materials_indexed_def by metis
  then show ?thesis using st r(1,2) all by auto
qed

section \<open>Downloads\<close>

definition demo_mapped :: ref_db where
  "demo_mapped = demo_runs\<lparr>db_mappings := [\<lparr>cm_id = ''m'', cm_digest = ''sha256:aa'', cm_backend = ''ixxxx'', cm_org = ''o'', cm_run = None,
     cm_project = Some ''p'', cm_product = None, cm_created_at = 0\<rparr>]\<rparr>"

theorem download_confined_witness:
  "\<exists>b. FindCASMappingForDownloadByUser Inr (\<lambda>_. Inr ()) (\<lambda>ms. ms) two_owners demo_mapped ''sha256:aa'' ''ann'' = Inr b \<and>
     may_download two_owners ''ann'' (bmp_row b) \<and> cb_default (bmp_backend b)"
proof -
  let ?f = "FindCASMappingForDownloadByUser Inr (\<lambda>_. Inr ()) (\<lambda>ms. ms) two_owners demo_mapped ''sha256:aa'' ''ann''"
  have "(case ?f of Inr b \<Rightarrow> cb_default (bmp_backend b) | Inl _ \<Rightarrow> False)" by code_simp
  then obtain b where b: "?f = Inr b" "cb_default (bmp_backend b)" by (auto split: sum.splits)
  have "distinct (map cb_id (db_backends demo_mapped))" by code_simp
  then show ?thesis
    using download_confined [of "\<lambda>ms. ms" demo_mapped Inr "''ann''" "''ann''" "\<lambda>_. Inr ()" "''sha256:aa''" two_owners] b by simp
qed

theorem offboarded_no_download_witness:
  "\<exists>mdb'. DeleteOther Inr by_role ''o'' ''ann'' ''2'' RoleOwner two_owners = (Inr (), mdb') \<and>
     FindCASMappingForDownloadByUser Inr (\<lambda>_. Inr ()) (\<lambda>ms. ms) mdb' demo_mapped ''sha256:aa'' ''bob'' \<noteq>
       Inr \<lparr>bmp_row = hd (db_mappings demo_mapped), bmp_backend = hd (db_backends demo_mapped)\<rparr>"
proof -
  have "fst (DeleteOther Inr by_role ''o'' ''ann'' ''2'' RoleOwner two_owners) = Inr ()" by code_simp
  then obtain mdb' where del: "DeleteOther Inr by_role ''o'' ''ann'' ''2'' RoleOwner two_owners = (Inr (), mdb')" by (metis prod.collapse)
  have nil: "uuid_Nil \<notin> mo_id ` set (md_orgs two_owners)" by (simp add: two_owners_def uuid_Nil_def)
  obtain m where m: "m \<in> set (md_memberships two_owners)" "mb_id m = ''2''"
      "\<forall>userID digest b. userID = mb_member m \<longrightarrow> FindCASMappingForDownloadByUser Inr (\<lambda>_. Inr ()) (\<lambda>ms. ms) mdb' demo_mapped digest userID = Inr b \<longrightarrow>
         cm_org (bmp_row b) \<noteq> mb_resource m"
    using offboarded_no_download [OF two_owners_ok nil disjI1 [OF del], of "\<lambda>ms. ms" "\<lambda>_. Inr ()" demo_mapped] by auto
  then have "mb_member m = ''bob''" "mb_resource m = ''o''" by (auto simp: two_owners_def owner_of_def)
  moreover have "cm_org (hd (db_mappings demo_mapped)) = ''o''" by (simp add: demo_mapped_def)
  ultimately show ?thesis using m(3) del by fastforce
qed

end
