(* ===== verification/Spec2Isabelle.thy ===== *)
theory Spec2Isabelle
  imports Worked_Examples Storage_Examples
begin

text \<open>
  \<^bold>\<open>Chainloop: crafting, evaluating, receiving and finding attestations.\<close>

  Chainloop collects evidence about a build. A command-line client crafts an attestation against a workflow
  contract, evaluates policies over the materials, signs the statement and sends it to a control plane. The
  control plane checks it, stores it, indexes its artifacts and decides who may do and see what. This development models
  the Go code of both sides and of the libraries they share, all paths being below \<open>src/\<close>.

  \<^bold>\<open>Parts and how they interact.\<close> The contract names materials and policies. The policy verifier loads
  policies and groups (file, HTTPS or control plane, with a cache), computes arguments, and runs the scripts of
  the attachments that apply, concurrently. The crafter keeps the crafting state through a state manager, a local
  file or the control plane, and calls the verifier when materials are added. The renderer turns the state into the
  predicate of the statement, whose status the push command enforces. In the control plane a request passes the
  authorization middleware; a run is created for a version of a project; the attestation service checks a bundle,
  stores its digest and content in the run, hands the envelope to the referrer index, records which backend
  holds the artifacts and finishes the run. Memberships decide which organizations, projects and artifacts a
  user reaches, both in discovery and for downloads.

  \<^bold>\<open>Conventions.\<close> Operations keep the names of the source; a prefix (\<open>uc_\<close>, \<open>repo_\<close>, \<open>svc_\<close>, \<open>mr_\<close>,
  \<open>pv_\<close>) tells apart those that share one. A fallible operation returns \<open>err + 'a\<close>, where an error is its
  format, arguments and chain of wrapped errors; \<open>errors.Is\<close> and \<open>errors.As\<close> walk that chain. A nil dereference or a failed
  type assertion is the error \<open>go_panic\<close>. A Go map is a list of distinct keys and values; where the source
  iterates over one, or runs a query without order, the order is a parameter. A table is a list of rows and a
  transaction a function on the database whose error leaves it as it was. Transactions are taken to run one after
  the other, which the default isolation level of the source does not guarantee: overlapping promotions of two versions
  can both succeed. Creating a run and storing an attestation read before they write and take what other requests do in
  between as an argument \<open>others\<close>; the transactions that follow the storage of an attestation, and the requests on
  backends and on memberships, are modelled without other requests in between. Time, fresh identifiers and
  randomness are arguments. Code outside the repository is a parameter, a field of an environment record;
  what is relied on is a named hypothesis or a predicate such as \<open>casbin_laws\<close>.

  \<^bold>\<open>Shared theories.\<close>
  \<^item> \<open>Prelude\<close>: errors, results, Go maps and their lemmas; \<open>Go_Strings\<close>: the parts of \<open>strings\<close> in use;
    \<open>Base64\<close>: \<open>base64.StdEncoding\<close>.
  \<^item> \<open>Err_Group\<close>: \<open>errgroup\<close> as a step relation of goroutines that start, within a limit, and end, with cancellation. The
    locale \<open>independent_tasks\<close> has tasks that share a state they do not depend on; any interleaving then gives the results
    of the sequence.

  \<^bold>\<open>Contracts and policies\<close> (\<open>pkg/policies\<close>, \<open>pkg/templates\<close>, \<open>pkg/cache\<close>, \<open>pkg/netguard\<close>,
  \<open>app/controlplane/api/workflowcontract/v1\<close>).
  \<^item> \<open>Contract_Types\<close>, \<open>Contract_Validation\<close>: \<open>crafting_schema.proto\<close> and \<open>crafting_schema_validations.go\<close>; a
    validated reference has a loader.
  \<^item> \<open>Policy_Refs\<close>, \<open>Runtime_Inputs\<close>, \<open>Policy_Arguments\<close>: \<open>loader.go\<close>, \<open>runtime_inputs.go\<close>, \<open>templates.go\<close> and
    the arguments in \<open>policies.go\<close>.
  \<^item> \<open>Policy_Engine\<close>: \<open>engine/engine.go\<close>, \<open>detect.go\<close> and \<open>findings/registry.go\<close>.
  \<^item> \<open>Policy_Loader\<close>, \<open>Policy_Scripts\<close>: \<open>loader.go\<close>, \<open>group_loader.go\<close>, \<open>memory.go\<close> and the scripts in
    \<open>policies.go\<close>. The locale \<open>cached_loader\<close>, interpreted for policies and for groups, shows what a cache serves while
    the control plane does not change, and further lemmas what it serves when it does.
  \<^item> \<open>Policy_Verifier\<close>, \<open>Policy_Groups\<close>, \<open>Public_Targets\<close>: \<open>policies.go\<close> and \<open>policy_groups.go\<close>. Both interpret
    \<open>independent_tasks\<close>: concurrent and cached verification refines the sequential specification, under every
    schedule, and a verifier's limit on goroutines never stops it. Further lemmas give the content of an evaluation, the
    order of gates, and that the mode for public targets reaches nothing else.
  \<^item> \<open>Netguard\<close>: \<open>netguard.go\<close>, with addresses as words of 32 and 128 bits.

  \<^bold>\<open>Crafting\<close> (\<open>pkg/attestation\<close>, \<open>app/cli\<close>, \<open>app/controlplane/pkg/{biz,data}/attestationstate.go\<close>).
  \<^item> \<open>Attestation_Types\<close>, \<open>Crafting_State\<close>: \<open>crafting_state.go\<close> and its validations; an attestation is complete
    exactly when its contract is satisfied.
  \<^item> \<open>Material_Names\<close>: names of archive entries in \<open>archive.go\<close>; the allocator always answers with a new name.
  \<^item> \<open>Attestation_State\<close>: the state managers and the encrypted, optimistically locked state of the control plane. The
    locale \<open>state_store\<close> is what the crafter relies on, failed writes included: a response may be lost after the state was
    saved, a file may be cut short. File and remote manager interpret it. Several clients are a step relation without
    lost updates.
  \<^item> \<open>Crafter\<close>, \<open>Attestation_Add\<close>, \<open>Attestation_Session\<close>: \<open>crafter.go\<close>, \<open>attestation_add.go\<close>, \<open>attestation_reset.go\<close> and
    what \<open>attestation_init.go\<close> and \<open>attestation_push.go\<close> do to the state; its invariant over any sequence of these commands,
    archives as a whole or not at all.
  \<^item> \<open>Attestation_Renderer\<close>: \<open>v02.go\<close>, \<open>chainloop.go\<close>, \<open>policy_status.go\<close> and the gate of \<open>attestation_push.go\<close>.

  \<^bold>\<open>Control plane\<close> (\<open>app/controlplane/pkg\<close>, \<open>app/controlplane/internal/service\<close>).
  \<^item> \<open>Biz_Errors\<close>, \<open>Pagination\<close>, \<open>Control_Plane_Tables\<close>: errors, cursors, rows and transactions. The locale
    \<open>keyset_query\<close> shows that following cursors gives every row once. The locales \<open>request_invariant\<close> and
    \<open>request_history\<close> are the contract of requests: an invariant kept, a history that composes; they are
    interpreted for runs, for the tables outside of the runs, for backends and for memberships.
  \<^item> \<open>Bundle_Verifier\<close>: \<open>pkg/attestation/attestations.go\<close> and \<open>verifier\<close>.
  \<^item> \<open>Referrers\<close>, \<open>Referrer_Index\<close>, \<open>Referrer_Discovery\<close>: \<open>referrer.go\<close> of both layers: extraction of the graph, the
    invariant of the index, discovery confined to what the caller may see, and its pages.
  \<^item> \<open>Project_Versions\<close>, \<open>Workflow_Runs\<close>, \<open>Run_Invariants\<close>, \<open>Run_Queries\<close>: \<open>projectversion.go\<close> and \<open>workflowrun.go\<close>
    of both layers: counters, latest version, placement and bundles of runs as an invariant of the step relation
    \<open>cp_step\<close>; creation, listing and the sweep of abandoned runs.
  \<^item> \<open>CAS_Backends\<close>, \<open>CAS_Mappings\<close>: \<open>casbackend.go\<close> and \<open>casmapping.go\<close>: at most one default backend when requests do not
    overlap, and downloads within the reach of the memberships.
  \<^item> \<open>Authz\<close>: \<open>authz.go\<close>, \<open>enforcer.go\<close> and the middleware: when a request reaches its handler.
  \<^item> \<open>Memberships\<close>, \<open>Member_Invariants\<close>: \<open>membership.go\<close>: owners are kept and guarded, off-boarding is complete.
  \<^item> \<open>Attestation_Storage\<close>: the roots of trust of \<open>signing.go\<close> and the storing and reading of bundles in
    \<open>biz/workflowrun.go\<close>: what is stored was verified and satisfies its contract, and the verdict on what is read rests on its signature.
  \<^item> \<open>Attestation_Service\<close>: \<open>Store\<close> and \<open>Cancel\<close> of \<open>service/attestation.go\<close> with the authorization on projects of
    \<open>service.go\<close> and the reach of tokens in \<open>apitoken.go\<close>.

  \<open>Worked_Examples\<close>, \<open>Control_Plane_Examples\<close> and \<open>Storage_Examples\<close> apply the properties to concrete inputs,
  evaluated in the logic. The property that spans the path from receiving an attestation to reading it is below.

  \<^bold>\<open>Bounds.\<close> Loops of the source are structural recursions or have a termination proof; the search for a free name is
  a \<open>partial_function\<close> shown to return. Following cursors takes fuel, and the number of rows plus one is shown to be
  enough. Role links are followed up to casbin's ten levels; the links in use are shown to need fewer. A sweep
  expires at most 100 runs, as the source does. Counters of policies are 32-bit columns, unbounded in the summary; the
  hypothesis on their size is stated where it matters.

  \<^bold>\<open>Not modelled.\<close> Third-party code: interpreters of Rego and WASM, cryptography and certificate chains,
  protobuf, JSON and time formats, file system, HTTP, the database engine, casbin, secret managers and object stores,
  all of them parameters where modelled code calls them. Generated code (protobuf, gRPC, ent). The parsers of the
  single material kinds, runners, plugins and the artifact CAS server, whose work is third-party formats and I/O. Flag
  parsing and printing of the client. In the control plane, use cases that check their input and call one repository:
  users, groups, organizations, projects, contracts, tokens and integrations, and the handlers over them;
  of the attestation service, \<open>Init\<close>, \<open>GetContract\<close>, credentials for uploads and look-ups of policies. Of the crafter, the
  collectors and the head commit; of the renderer, the subjects of the statement, signing and upload.
  Logging, tracing and metrics have no effect on results and are left out.
\<close>

section \<open>From receiving to reading\<close>

text \<open>
  C7. In an instance that keeps bundles in the database, an attestation that the service has accepted is read back: who
  asks for the run in its organization gets the bundle that was sent, byte for byte, with its envelope, its digest
  and a run that has succeeded. Other requests may run between the checks and the storage, and any number of them
  between the answer and the reading, as long as those leave the row of this run as it is. Identifiers are parsed to
  themselves, and the cache holds nothing else under the digest.
\<close>

theorem attestation_read_back:
  assumes "runs_ok db" and "index_ok db" and others: "\<And>d. cp_steps d (others d)"
    and parse: "\<And>x u. sv_parse sv x = Inr u \<Longrightarrow> sv_parse sv u = Inr u"
      "\<And>b. b \<in> set (db_backends db) \<Longrightarrow> sv_parse sv (cb_id b) = Inr (cb_id b)"
      "\<And>v. v \<in> set (db_versions db) \<Longrightarrow> sv_parse sv (vr_id v) = Inr (vr_id v)"
    and config: "\<not> sc_skip_db sc" "bytes \<noteq> []" "sv_sha256 sv bytes \<noteq> []"
    and cached: "Option.bind cache' (\<lambda>c. map_of c (sv_sha256 sv bytes)) \<in> {None, Some bytes}"
    and store: "svc_Store enforce sc sv su by_name others (Some rq) (Some bytes) runID markAsReleased cache db = (Inr digest, db')"
    and afterwards: "cp_steps db' db2" "\<And>rid. sv_parse sv runID = Inr rid \<Longrightarrow> run_FindByID db2 rid = run_FindByID db' rid"
  shows "\<exists>ar e xp. fst (GetByIDInOrg sv db2 (rq_org rq) runID cache') = Inr ar \<and> atr_bundle ar = bytes \<and> atr_envelope ar = Some e \<and>
    decode_bundle sv bytes = Inr (e, xp) \<and> run_digest (atr_run ar) = digest \<and> digest = sv_sha256 sv bytes \<and>
    run_state (atr_run ar) = WorkflowRunSuccess"
proof -
  obtain oid w run b where s: "sv_parse sv (rq_org rq) = Inr oid" "sv_parse sv runID = Inr (run_id run)" "FindByIDInOrg db oid (run_id run) = Inr run"
      "b \<in> set (db_backends db)" "storeAttestation sc sv su others bytes w run b (version_of db run) markAsReleased db = (Inr digest, db')"
    using svc_Store_Inr [OF store] .
  have version: "sv_parse sv (vr_id v) = Inr (vr_id v)" if "version_of db run = Some v" for v
    using that parse(3) by (auto simp: version_of_def dest: find_SomeD)
  have row: "run_FindByID db (run_id run) = Some run" using s(3) by (auto simp: FindByIDInOrg_def split: option.splits if_splits)
  obtain e xp r where r: "run_FindByID db' (run_id run) = Some r" "same_run run r" "run_state r = WorkflowRunSuccess" "run_digest r = digest"
      "GetBundle db' (run_id run) = Inr bytes" "decode_bundle sv bytes = Inr (e, xp)" "digest = sv_sha256 sv bytes"
    and kept: "db_orgs db' = db_orgs db" "list_all2 same_workflow (db_workflows db) (db_workflows db')" and ok: "runs_ok db'"
    using store_effects [OF assms(1,2) others parse(1) [OF s(2)] parse(2) [OF s(4)] version s(5)] row config(1) by (metis option.inject)
  have later: "later db' db2" using cp_steps_ok [OF afterwards(1) ok] by blast
  have "FindByIDInOrg db' oid (run_id run) = Inr r"
    using s(3) r(1) kept workflow_kept [OF kept(2), of run _ r] r(2)
    by (fastforce simp: FindByIDInOrg_def same_run_def same_workflow_def split: option.splits if_splits)
  then have found: "FindByIDInOrg db2 oid (run_id run) = Inr r"
    using afterwards(2) [OF s(2)] r(1) later find_workflow_later [OF later, of r _ r]
    by (fastforce simp: FindByIDInOrg_def same_workflow_def later_def split: option.splits if_splits)
  have content: "GetBundle db2 (run_id r) = Inr bytes"
    using r(2,5) later by (auto simp: GetBundle_def later_def prefix_def same_run_def map_add_def split: option.splits)
  then have "fst (addAttestationFromBundle sv db2 r cache') = Inr \<lparr>atr_run = r, atr_bundle = bytes, atr_envelope = Some e\<rparr>"
    using stored_bundle_loaded [OF r(3) _ content config(2) _ r(6)] r(4,7) config(3) cached by simp
  then have "fst (GetByIDInOrg sv db2 (rq_org rq) runID cache') = Inr \<lparr>atr_run = r, atr_bundle = bytes, atr_envelope = Some e\<rparr>"
    using s(1,2) found by (simp add: GetByIDInOrg_def split_beta)
  then show ?thesis using r(3,4,6,7) by fastforce
qed

theorem attestation_read_back_witness:
  "\<exists>ar. fst (GetByIDInOrg demo_sv (snd (svc_Store by_role demo_sc demo_sv demo_su (\<lambda>_ _ _. Inl (go_panic [])) (\<lambda>db. db) (Some demo_rq)
       (Some ''bb'') ''ixx'' None None demo_runs)) ''o'' ''ixx'' None) = Inr ar \<and> atr_bundle ar = ''bb'' \<and> run_digest (atr_run ar) = ''sha256:bb''"
proof -
  let ?st = "svc_Store by_role demo_sc demo_sv demo_su (\<lambda>_ _ _. Inl (go_panic [])) (\<lambda>db. db) (Some demo_rq) (Some ''bb'') ''ixx'' None None demo_runs"
  have "fst ?st = Inr ''sha256:bb''" by code_simp
  then have st: "?st = (Inr ''sha256:bb'', snd ?st)" by (metis prod.collapse)
  have env: "sv_parse demo_sv x = Inr x" "\<not> sc_skip_db demo_sc" "sv_sha256 demo_sv ''bb'' \<noteq> []" "rq_org demo_rq = ''o''" for x
    by (simp_all add: demo_sv_def demo_sc_def demo_rq_def)
  show ?thesis
    using attestation_read_back [OF demo_runs_consistent rtranclp.rtrancl_refl _ env(1) env(1) env(2) _ env(3) _ st rtranclp.rtrancl_refl, of None] env(1,4)
    by auto
qed

end
